(* ===== verification/Mocktail_Prelude.thy ===== *)
theory Mocktail_Prelude
  imports Complex_Main "HOL-Library.Word"
begin

unbundle bit_operations_syntax

text \<open>
  Shared vocabulary of the development: the machine integer types of the C++ sources, the
  \<open>Status\<close> value every fallible operation of the runtime returns
  (\<open>include/mocktail/status.h\<close>), the C \<open>float\<close> values that travel through the window and
  game-session layers, and the generic facts on words, lists and runs of operations that the
  component theories share.
\<close>

section \<open>Machine types\<close>

type_synonym u8 = "8 word"
type_synonym u16 = "16 word"
type_synonym u32 = "32 word"
type_synonym u64 = "64 word"

named_theorems step_simps \<open>field equations of the elementary state updates\<close>
named_theorems inv_preserved \<open>invariant preservation, one rule per operation\<close>

section \<open>Status\<close>

datatype StatusCode =
    kOk | kInvalidArgument | kFailedPrecondition | kUnavailable | kUnsupported | kPlatformError

record Status =
  code :: StatusCode
  message :: string

definition Status_Ok :: Status where
  "Status_Ok = \<lparr>code = kOk, message = []\<rparr>"

definition Status_Error :: "StatusCode \<Rightarrow> string \<Rightarrow> Status" where
  "Status_Error c m = \<lparr>code = c, message = m\<rparr>"

definition status_ok :: "Status \<Rightarrow> bool" where
  "status_ok st \<longleftrightarrow> code st = kOk"

lemma status_ok_simps [simp]:
  "status_ok Status_Ok"
  "status_ok (Status_Error c m) \<longleftrightarrow> c = kOk"
  "message (Status_Error c m) = m"
  "message Status_Ok = []"
  "code (Status_Error c m) = c"
  "code Status_Ok = kOk"
  by (simp_all add: status_ok_def Status_Ok_def Status_Error_def)

section \<open>C floats\<close>

text \<open>
  The sources compare a \<open>float\<close> with zero and with another \<open>float\<close>, and copy it; they do no
  arithmetic on it here. A value is NaN, an infinity, or the number it denotes (both zeros denote
  0, and compare equal in C). Comparisons with NaN are false.
\<close>

datatype cfloat = FNaN | FNegInf | FNum rat | FPosInf

definition f_eq :: "cfloat \<Rightarrow> cfloat \<Rightarrow> bool" where
  "f_eq a b \<longleftrightarrow> a \<noteq> FNaN \<and> a = b"

fun f_positive :: "cfloat \<Rightarrow> bool" where
  "f_positive FNaN = False"
| "f_positive FNegInf = False"
| "f_positive (FNum r) = (0 < r)"
| "f_positive FPosInf = True"

lemma f_eq_positive: "f_positive a \<Longrightarrow> f_eq a b \<longleftrightarrow> a = b"
  by (cases a) (auto simp: f_eq_def)

lemma f_eqD: "f_eq a b \<Longrightarrow> a = b"
  by (simp add: f_eq_def)

section \<open>Byte strings\<close>

type_synonym bytes = "u8 list"

definition ascii_lower :: "u8 \<Rightarrow> u8" where
  "ascii_lower b = (if b \<ge> 0x41 \<and> b \<le> 0x5a then b - 0x41 + 0x61 else b)"

definition ascii :: "string \<Rightarrow> u8 list" where
  "ascii s = map (\<lambda>c. of_nat (of_char c)) s"

section \<open>Runs of operations\<close>

text \<open>
  A component is a state and a step function on the operations its callers may invoke. An
  invariant that every step keeps is kept by every sequence of calls.
\<close>

fun run_ops :: "('s \<Rightarrow> 'op \<Rightarrow> 's) \<Rightarrow> 's \<Rightarrow> 'op list \<Rightarrow> 's" where
  "run_ops step s [] = s"
| "run_ops step s (x # xs) = run_ops step (step s x) xs"

lemma run_ops_append: "run_ops step s (xs @ ys) = run_ops step (run_ops step s xs) ys"
  by (induction xs arbitrary: s) simp_all

text \<open>
  The contract between a component and a caller that only ever calls its operations: an initial
  state, a step function and an invariant the steps keep.
\<close>

locale guarded_component =
  fixes step :: "'s \<Rightarrow> 'op \<Rightarrow> 's"
    and invar :: "'s \<Rightarrow> bool"
  assumes step_invar: "invar s \<Longrightarrow> invar (step s x)"
begin

lemma run_invar: "invar s \<Longrightarrow> invar (run_ops step s xs)"
  by (induction xs arbitrary: s) (simp_all add: step_invar)

lemma run_measure_mono:
  assumes inv: "invar s"
    and mono: "\<And>s x. invar s \<Longrightarrow> (f s :: 'm :: preorder) \<le> f (step s x)"
  shows "f s \<le> f (run_ops step s xs)"
  using inv
proof (induction xs arbitrary: s)
  case Nil
  then show ?case by simp
next
  case (Cons x xs)
  have "f s \<le> f (step s x)" using Cons.prems by (rule mono)
  also have "\<dots> \<le> f (run_ops step (step s x) xs)"
    using Cons.prems by (intro Cons.IH step_invar)
  finally show ?case by simp
qed

lemma run_stable:
  assumes inv: "invar s" and p: "P s"
    and stable: "\<And>s x. invar s \<Longrightarrow> P s \<Longrightarrow> P (step s x)"
  shows "P (run_ops step s xs)"
  using inv p by (induction xs arbitrary: s) (simp_all add: step_invar stable)

end

text \<open>
  Where a component asks something of its callers, the contract holds for the sequences in which
  every call is one it admits.
\<close>

fun admitted :: "('s \<Rightarrow> 'op \<Rightarrow> 's) \<Rightarrow> ('s \<Rightarrow> 'op \<Rightarrow> bool) \<Rightarrow> 's \<Rightarrow> 'op list \<Rightarrow> bool" where
  "admitted step ok s [] = True"
| "admitted step ok s (x # xs) = (ok s x \<and> admitted step ok (step s x) xs)"

lemma admitted_append:
  "admitted step ok s (xs @ ys) \<longleftrightarrow> admitted step ok s xs \<and> admitted step ok (run_ops step s xs) ys"
  by (induction xs arbitrary: s) auto

locale contracted_component =
  fixes step :: "'s \<Rightarrow> 'op \<Rightarrow> 's"
    and ok :: "'s \<Rightarrow> 'op \<Rightarrow> bool"
    and invar :: "'s \<Rightarrow> bool"
  assumes step_invar: "invar s \<Longrightarrow> ok s x \<Longrightarrow> invar (step s x)"
begin

lemma run_invar: "invar s \<Longrightarrow> admitted step ok s xs \<Longrightarrow> invar (run_ops step s xs)"
  by (induction xs arbitrary: s) (simp_all add: step_invar)

end

sublocale guarded_component \<subseteq> contract: contracted_component step "\<lambda>_ _. True" invar
  by unfold_locales (rule step_invar)

section \<open>Word facts\<close>

lemma bit_two_power_u32 [simp]:
  "n < 32 \<Longrightarrow> bit (2 ^ n :: u32) k \<longleftrightarrow> k = n"
  by (auto simp: bit_exp_iff)

lemma and_two_power_u32 [simp]:
  assumes "n < 32"
  shows "w AND (2 ^ n :: u32) = 0 \<longleftrightarrow> \<not> bit w n"
proof
  assume eq: "w AND (2 ^ n :: u32) = 0"
  have "bit (w AND (2 ^ n :: u32)) n = bit w n"
    using assms by (simp add: bit_and_iff)
  with eq show "\<not> bit w n" by simp
next
  assume "\<not> bit w n"
  then show "w AND (2 ^ n :: u32) = 0"
    using assms by (intro bit_eqI) (auto simp: bit_and_iff)
qed

lemma u64_succ_neq [simp]: "(x :: u64) + 1 \<noteq> x" "x \<noteq> (x :: u64) + 1"
  by simp_all


lemma u64_succ_gt: "(g :: u64) \<noteq> - 1 \<Longrightarrow> g < g + 1"
  by (metis inc_less_eq_triv_imp not_less)

text \<open>Bit-level equalities of words: reduce every operation to bits, then decide.\<close>

lemmas bit_only = bit_or_iff bit_and_iff bit_push_bit_iff bit_drop_bit_eq bit_mask_iff bit_unsigned_iff o_def

lemma bits_below:
  fixes c :: "'a::len word"
  assumes "c < 2 ^ n" "bit c i" shows "i < n"
proof (rule ccontr)
  assume "\<not> i < n"
  moreover have "take_bit n c = c" using assms(1) by (metis less_mask_eq take_bit_eq_mask)
  ultimately show False using assms(2) by (metis bit_take_bit_iff)
qed

end
