(* ===== verification/Startup_Machine.thy ===== *)
theory Startup_Machine
  imports Mocktail_Prelude
begin

unbundle bit_operations_syntax

text \<open>
  The startup evidence collector (\<open>include/runtime/startup_state_machine.h\<close>,
  \<open>src/runtime/startup_state_machine.cc\<close>): a lifecycle state, a 32-bit set of evidence bits, a
  revision counter and a failure reason. Every public method takes the machine's mutex for its
  whole body, so a run of the program is a sequence of the operations below. The theory shows that
  the bit-level machine implements an abstract specification in which the accepted core evidence
  is a level and the auxiliary evidence a set.
\<close>

section \<open>Data\<close>

datatype StartupState =
    StCreated | StConfigured | StJniRuntimeReady | StLibrariesLoaded | StJniOnLoadComplete
  | StEngineStarted | StDataModelLoading | StLuaAppReady | StReady | StFailure | StStopping
  | StStopped

text \<open>
  \<open>EvOutOfRange\<close> stands for a value of the enum type outside its enumerators, which
  \<open>IsKnownEvidence\<close> refuses.
\<close>

datatype StartupEvidence =
    EvConfigured | EvJniRuntimeReady | EvLibrariesLoaded | EvJniOnLoadComplete
  | EvEngineStarted | EvDataModelLoading | EvLuaAppReady | EvRealFramePresented
  | EvInputReady | EvAudioReady | EvOutOfRange

record StartupRequirements =
  windowed :: bool
  require_input_ready :: bool
  require_audio_ready :: bool

datatype StartupUpdateStatus = SuApplied | SuDuplicate | SuRejected

record StartupUpdateResult =
  su_status :: StartupUpdateStatus
  su_state :: StartupState
  su_message :: string

definition su_ok :: "StartupUpdateResult \<Rightarrow> bool" where
  "su_ok r \<longleftrightarrow> su_status r \<noteq> SuRejected"

definition su_changed :: "StartupUpdateResult \<Rightarrow> bool" where
  "su_changed r \<longleftrightarrow> su_status r = SuApplied"

record StartupStateMachine =
  requirements :: StartupRequirements
  sm_state :: StartupState
  evidence_bits :: u32
  sm_revision :: u64
  sm_failure_reason :: string

section \<open>Names\<close>

fun StartupStateName :: "StartupState \<Rightarrow> string" where
  "StartupStateName StCreated = ''Created''"
| "StartupStateName StConfigured = ''Configured''"
| "StartupStateName StJniRuntimeReady = ''JniRuntimeReady''"
| "StartupStateName StLibrariesLoaded = ''LibrariesLoaded''"
| "StartupStateName StJniOnLoadComplete = ''JniOnLoadComplete''"
| "StartupStateName StEngineStarted = ''EngineStarted''"
| "StartupStateName StDataModelLoading = ''DataModelLoading''"
| "StartupStateName StLuaAppReady = ''LuaAppReady''"
| "StartupStateName StReady = ''Ready''"
| "StartupStateName StFailure = ''Failure''"
| "StartupStateName StStopping = ''Stopping''"
| "StartupStateName StStopped = ''Stopped''"

fun StartupEvidenceName :: "StartupEvidence \<Rightarrow> string" where
  "StartupEvidenceName EvConfigured = ''Configured''"
| "StartupEvidenceName EvJniRuntimeReady = ''JniRuntimeReady''"
| "StartupEvidenceName EvLibrariesLoaded = ''LibrariesLoaded''"
| "StartupEvidenceName EvJniOnLoadComplete = ''JniOnLoadComplete''"
| "StartupEvidenceName EvEngineStarted = ''EngineStarted''"
| "StartupEvidenceName EvDataModelLoading = ''DataModelLoading''"
| "StartupEvidenceName EvLuaAppReady = ''LuaAppReady''"
| "StartupEvidenceName EvRealFramePresented = ''RealFramePresented''"
| "StartupEvidenceName EvInputReady = ''InputReady''"
| "StartupEvidenceName EvAudioReady = ''AudioReady''"
| "StartupEvidenceName EvOutOfRange = ''Unknown''"

section \<open>Helpers\<close>

text \<open>The underlying value of an enumerator; out-of-range values are never shifted by.\<close>

fun evidence_index :: "StartupEvidence \<Rightarrow> nat" where
  "evidence_index EvConfigured = 0"
| "evidence_index EvJniRuntimeReady = 1"
| "evidence_index EvLibrariesLoaded = 2"
| "evidence_index EvJniOnLoadComplete = 3"
| "evidence_index EvEngineStarted = 4"
| "evidence_index EvDataModelLoading = 5"
| "evidence_index EvLuaAppReady = 6"
| "evidence_index EvRealFramePresented = 7"
| "evidence_index EvInputReady = 8"
| "evidence_index EvAudioReady = 9"
| "evidence_index EvOutOfRange = 10"

definition IsCoreEvidence :: "StartupEvidence \<Rightarrow> bool" where
  "IsCoreEvidence e \<longleftrightarrow>
     evidence_index e \<ge> evidence_index EvConfigured \<and>
     evidence_index e \<le> evidence_index EvLuaAppReady"

definition IsKnownEvidence :: "StartupEvidence \<Rightarrow> bool" where
  "IsKnownEvidence e \<longleftrightarrow> e \<noteq> EvOutOfRange"

definition EvidenceBit :: "StartupEvidence \<Rightarrow> u32" where
  "EvidenceBit e = push_bit (evidence_index e) 1"

fun StateForCoreEvidence :: "StartupEvidence \<Rightarrow> StartupState" where
  "StateForCoreEvidence EvConfigured = StConfigured"
| "StateForCoreEvidence EvJniRuntimeReady = StJniRuntimeReady"
| "StateForCoreEvidence EvLibrariesLoaded = StLibrariesLoaded"
| "StateForCoreEvidence EvJniOnLoadComplete = StJniOnLoadComplete"
| "StateForCoreEvidence EvEngineStarted = StEngineStarted"
| "StateForCoreEvidence EvDataModelLoading = StDataModelLoading"
| "StateForCoreEvidence EvLuaAppReady = StLuaAppReady"
| "StateForCoreEvidence _ = StFailure"

fun ExpectedEvidenceForState :: "StartupState \<Rightarrow> StartupEvidence" where
  "ExpectedEvidenceForState StCreated = EvConfigured"
| "ExpectedEvidenceForState StConfigured = EvJniRuntimeReady"
| "ExpectedEvidenceForState StJniRuntimeReady = EvLibrariesLoaded"
| "ExpectedEvidenceForState StLibrariesLoaded = EvJniOnLoadComplete"
| "ExpectedEvidenceForState StJniOnLoadComplete = EvEngineStarted"
| "ExpectedEvidenceForState StEngineStarted = EvDataModelLoading"
| "ExpectedEvidenceForState _ = EvLuaAppReady"

definition HasEvidenceLocked :: "StartupStateMachine \<Rightarrow> StartupEvidence \<Rightarrow> bool" where
  "HasEvidenceLocked m e \<longleftrightarrow> evidence_bits m AND EvidenceBit e \<noteq> 0"

definition AddEvidenceLocked :: "StartupStateMachine \<Rightarrow> StartupEvidence \<Rightarrow> StartupStateMachine" where
  "AddEvidenceLocked m e = m\<lparr>evidence_bits := evidence_bits m OR EvidenceBit e\<rparr>"

definition EvaluateReadyLocked :: "StartupStateMachine \<Rightarrow> StartupStateMachine" where
  "EvaluateReadyLocked m =
     (if \<not> HasEvidenceLocked m EvLuaAppReady then m
      else if windowed (requirements m) \<and> \<not> HasEvidenceLocked m EvRealFramePresented
        then m\<lparr>sm_state := StLuaAppReady\<rparr>
      else if require_input_ready (requirements m) \<and> \<not> HasEvidenceLocked m EvInputReady
        then m\<lparr>sm_state := StLuaAppReady\<rparr>
      else if require_audio_ready (requirements m) \<and> \<not> HasEvidenceLocked m EvAudioReady
        then m\<lparr>sm_state := StLuaAppReady\<rparr>
      else m\<lparr>sm_state := StReady\<rparr>)"

definition RejectInvalidOrderLocked ::
  "StartupStateMachine \<Rightarrow> StartupEvidence \<Rightarrow> string option \<Rightarrow>
     StartupUpdateResult \<times> StartupStateMachine" where
  "RejectInvalidOrderLocked m e expected =
     (let reason = ''invalid startup evidence order in state '' @ StartupStateName (sm_state m)
             @ '': expected ''
             @ (case expected of Some x \<Rightarrow> x | None \<Rightarrow> ''no further evidence'')
             @ '', received '' @ StartupEvidenceName e;
          m' = m\<lparr>sm_failure_reason := reason, sm_state := StFailure,
                 sm_revision := sm_revision m + 1\<rparr>
      in (\<lparr>su_status = SuRejected, su_state = StFailure, su_message = reason\<rparr>, m'))"

section \<open>Operations\<close>

definition StartupStateMachine_new :: "StartupRequirements \<Rightarrow> StartupStateMachine" where
  "StartupStateMachine_new req =
     \<lparr>requirements = req, sm_state = StCreated, evidence_bits = 0, sm_revision = 0,
      sm_failure_reason = []\<rparr>"

definition accepted_result ::
  "StartupStateMachine \<Rightarrow> StartupEvidence \<Rightarrow> StartupUpdateResult" where
  "accepted_result m e =
     \<lparr>su_status = SuApplied, su_state = sm_state m,
      su_message = ''accepted startup evidence: '' @ StartupEvidenceName e\<rparr>"

definition RecordCoreEvidenceLocked ::
  "StartupStateMachine \<Rightarrow> StartupEvidence \<Rightarrow> StartupUpdateResult \<times> StartupStateMachine" where
  "RecordCoreEvidenceLocked m e =
     (let expected = ExpectedEvidenceForState (sm_state m)
      in if e \<noteq> expected
         then RejectInvalidOrderLocked m e (Some (StartupEvidenceName expected))
         else let m1 = AddEvidenceLocked m e;
                  m2 = m1\<lparr>sm_state := StateForCoreEvidence e, sm_revision := sm_revision m1 + 1\<rparr>;
                  m3 = EvaluateReadyLocked m2
              in (accepted_result m3 e, m3))"

definition RecordAuxiliaryEvidenceLocked ::
  "StartupStateMachine \<Rightarrow> StartupEvidence \<Rightarrow> StartupUpdateResult \<times> StartupStateMachine" where
  "RecordAuxiliaryEvidenceLocked m e =
     (if \<not> HasEvidenceLocked m EvConfigured
      then RejectInvalidOrderLocked m e (Some ''Configured'')
      else if e = EvRealFramePresented \<and> \<not> HasEvidenceLocked m EvEngineStarted
      then RejectInvalidOrderLocked m e (Some ''EngineStarted'')
      else let m1 = AddEvidenceLocked m e;
               m2 = m1\<lparr>sm_revision := sm_revision m1 + 1\<rparr>;
               m3 = EvaluateReadyLocked m2
           in (accepted_result m3 e, m3))"

definition RecordEvidence ::
  "StartupStateMachine \<Rightarrow> StartupEvidence \<Rightarrow> StartupUpdateResult \<times> StartupStateMachine" where
  "RecordEvidence m e =
     (if \<not> IsKnownEvidence e
      then RejectInvalidOrderLocked m e
             (Some (StartupEvidenceName (ExpectedEvidenceForState (sm_state m))))
      else if HasEvidenceLocked m e
      then (\<lparr>su_status = SuDuplicate, su_state = sm_state m,
             su_message = ''duplicate startup evidence: '' @ StartupEvidenceName e\<rparr>, m)
      else if sm_state m = StFailure \<or> sm_state m = StStopping \<or> sm_state m = StStopped
      then (\<lparr>su_status = SuRejected, su_state = sm_state m,
             su_message = ''startup evidence rejected in state ''
               @ StartupStateName (sm_state m)\<rparr>, m)
      else if IsCoreEvidence e then RecordCoreEvidenceLocked m e
      else RecordAuxiliaryEvidenceLocked m e)"

definition Fail :: "StartupStateMachine \<Rightarrow> string \<Rightarrow> StartupUpdateResult \<times> StartupStateMachine" where
  "Fail m reason =
     (if sm_state m = StFailure
      then (\<lparr>su_status = SuDuplicate, su_state = sm_state m, su_message = sm_failure_reason m\<rparr>, m)
      else if sm_state m = StStopped
      then (\<lparr>su_status = SuRejected, su_state = sm_state m,
             su_message = ''cannot fail an already stopped runtime''\<rparr>, m)
      else let r = (if reason = [] then ''startup failed'' else reason);
               m' = m\<lparr>sm_failure_reason := r, sm_state := StFailure,
                      sm_revision := sm_revision m + 1\<rparr>
           in (\<lparr>su_status = SuApplied, su_state = StFailure, su_message = r\<rparr>, m'))"

definition BeginStopping :: "StartupStateMachine \<Rightarrow> StartupUpdateResult \<times> StartupStateMachine" where
  "BeginStopping m =
     (if sm_state m = StStopping \<or> sm_state m = StStopped
      then (\<lparr>su_status = SuDuplicate, su_state = sm_state m,
             su_message = ''runtime is already '' @ StartupStateName (sm_state m)\<rparr>, m)
      else (\<lparr>su_status = SuApplied, su_state = StStopping, su_message = ''runtime stopping''\<rparr>,
            m\<lparr>sm_state := StStopping, sm_revision := sm_revision m + 1\<rparr>))"

definition MarkStopped :: "StartupStateMachine \<Rightarrow> StartupUpdateResult \<times> StartupStateMachine" where
  "MarkStopped m =
     (if sm_state m = StStopped
      then (\<lparr>su_status = SuDuplicate, su_state = sm_state m,
             su_message = ''runtime is already Stopped''\<rparr>, m)
      else if sm_state m \<noteq> StStopping
      then let r = ''invalid lifecycle order: Stopped requires Stopping, was ''
                     @ StartupStateName (sm_state m)
           in (\<lparr>su_status = SuRejected, su_state = StFailure, su_message = r\<rparr>,
               m\<lparr>sm_failure_reason := r, sm_state := StFailure,
                 sm_revision := sm_revision m + 1\<rparr>)
      else (\<lparr>su_status = SuApplied, su_state = StStopped, su_message = ''runtime stopped''\<rparr>,
            m\<lparr>sm_state := StStopped, sm_revision := sm_revision m + 1\<rparr>))"

record StartupSnapshot =
  ss_state :: StartupState
  ss_requirements :: StartupRequirements
  configured :: bool
  jni_runtime_ready :: bool
  libraries_loaded :: bool
  jni_on_load_complete :: bool
  engine_started :: bool
  data_model_loading :: bool
  lua_app_ready :: bool
  real_frame_presented :: bool
  input_ready :: bool
  audio_ready :: bool
  ss_revision :: u64
  ss_failure_reason :: string

definition StartupSnapshotLocked :: "StartupStateMachine \<Rightarrow> StartupSnapshot" where
  "StartupSnapshotLocked m =
     \<lparr>ss_state = sm_state m, ss_requirements = requirements m,
      configured = HasEvidenceLocked m EvConfigured,
      jni_runtime_ready = HasEvidenceLocked m EvJniRuntimeReady,
      libraries_loaded = HasEvidenceLocked m EvLibrariesLoaded,
      jni_on_load_complete = HasEvidenceLocked m EvJniOnLoadComplete,
      engine_started = HasEvidenceLocked m EvEngineStarted,
      data_model_loading = HasEvidenceLocked m EvDataModelLoading,
      lua_app_ready = HasEvidenceLocked m EvLuaAppReady,
      real_frame_presented = HasEvidenceLocked m EvRealFramePresented,
      input_ready = HasEvidenceLocked m EvInputReady,
      audio_ready = HasEvidenceLocked m EvAudioReady,
      ss_revision = sm_revision m, ss_failure_reason = sm_failure_reason m\<rparr>"

definition snapshot_ready :: "StartupSnapshot \<Rightarrow> bool" where
  "snapshot_ready s \<longleftrightarrow> ss_state s = StReady"

definition snapshot_terminal :: "StartupSnapshot \<Rightarrow> bool" where
  "snapshot_terminal s \<longleftrightarrow> ss_state s = StFailure \<or> ss_state s = StStopped"


section \<open>Operations as steps\<close>

datatype StartupOp =
    OpRecordEvidence StartupEvidence | OpFail string | OpBeginStopping | OpMarkStopped

fun startup_call :: "StartupStateMachine \<Rightarrow> StartupOp \<Rightarrow> StartupUpdateResult \<times> StartupStateMachine" where
  "startup_call m (OpRecordEvidence e) = RecordEvidence m e"
| "startup_call m (OpFail r) = Fail m r"
| "startup_call m OpBeginStopping = BeginStopping m"
| "startup_call m OpMarkStopped = MarkStopped m"

definition startup_step :: "StartupStateMachine \<Rightarrow> StartupOp \<Rightarrow> StartupStateMachine" where
  "startup_step m x = snd (startup_call m x)"

text \<open>The evidence a run of calls accepted, in order.\<close>

fun applied_evidence :: "StartupStateMachine \<Rightarrow> StartupOp list \<Rightarrow> StartupEvidence list" where
  "applied_evidence m [] = []"
| "applied_evidence m (x # xs) =
     (case x of
        OpRecordEvidence e \<Rightarrow>
          (if su_changed (fst (startup_call m x)) then [e] else [])
      | _ \<Rightarrow> []) @ applied_evidence (startup_step m x) xs"

section \<open>The abstract specification\<close>

text \<open>
  The contract stated in the class comment: core evidence is strictly ordered, so what was accepted
  of it is a level \<open>n \<le> 7\<close>; auxiliary evidence is a set that may grow once the machine is
  configured; a new item out of order fails an active startup. The lifecycle state is a function of
  these.
\<close>

definition core_sequence :: "StartupEvidence list" where
  "core_sequence = [EvConfigured, EvJniRuntimeReady, EvLibrariesLoaded, EvJniOnLoadComplete,
     EvEngineStarted, EvDataModelLoading, EvLuaAppReady]"

definition aux_evidence :: "StartupEvidence set" where
  "aux_evidence = {EvRealFramePresented, EvInputReady, EvAudioReady}"

datatype startup_phase = PhActive | PhFailed | PhStopping | PhStopped

record startup_spec =
  sp_required :: "StartupEvidence set"
  sp_level :: nat
  sp_aux :: "StartupEvidence set"
  sp_phase :: startup_phase

definition required_aux :: "StartupRequirements \<Rightarrow> StartupEvidence set" where
  "required_aux req =
     (if windowed req then {EvRealFramePresented} else {}) \<union>
     (if require_input_ready req then {EvInputReady} else {}) \<union>
     (if require_audio_ready req then {EvAudioReady} else {})"

definition spec_accepted :: "startup_spec \<Rightarrow> StartupEvidence set" where
  "spec_accepted a = set (take (sp_level a) core_sequence) \<union> sp_aux a"

definition spec_record :: "startup_spec \<Rightarrow> StartupEvidence \<Rightarrow> startup_spec" where
  "spec_record a e =
     (if e = EvOutOfRange then a\<lparr>sp_phase := PhFailed\<rparr>
      else if e \<in> spec_accepted a \<or> sp_phase a \<noteq> PhActive then a
      else if e \<in> aux_evidence
        then (if 0 < sp_level a \<and> (e = EvRealFramePresented \<longrightarrow> 4 < sp_level a)
              then a\<lparr>sp_aux := insert e (sp_aux a)\<rparr> else a\<lparr>sp_phase := PhFailed\<rparr>)
      else if take (Suc (sp_level a)) core_sequence = take (sp_level a) core_sequence @ [e]
        then a\<lparr>sp_level := Suc (sp_level a)\<rparr>
      else a\<lparr>sp_phase := PhFailed\<rparr>)"

fun spec_step :: "startup_spec \<Rightarrow> StartupOp \<Rightarrow> startup_spec" where
  "spec_step a (OpRecordEvidence e) = spec_record a e"
| "spec_step a (OpFail r) = (if sp_phase a = PhStopped then a else a\<lparr>sp_phase := PhFailed\<rparr>)"
| "spec_step a OpBeginStopping = (if sp_phase a = PhStopped then a else a\<lparr>sp_phase := PhStopping\<rparr>)"
| "spec_step a OpMarkStopped =
     (if sp_phase a = PhStopping \<or> sp_phase a = PhStopped then a\<lparr>sp_phase := PhStopped\<rparr>
      else a\<lparr>sp_phase := PhFailed\<rparr>)"

definition spec_state :: "startup_spec \<Rightarrow> StartupState" where
  "spec_state a = (case sp_phase a of
      PhFailed \<Rightarrow> StFailure | PhStopping \<Rightarrow> StStopping | PhStopped \<Rightarrow> StStopped
    | PhActive \<Rightarrow> (if sp_level a = 0 then StCreated
        else if sp_level a < 7 then StateForCoreEvidence (core_sequence ! (sp_level a - 1))
        else if sp_required a \<subseteq> sp_aux a then StReady else StLuaAppReady))"

definition spec_init :: "StartupRequirements \<Rightarrow> startup_spec" where
  "spec_init req = \<lparr>sp_required = required_aux req, sp_level = 0, sp_aux = {}, sp_phase = PhActive\<rparr>"

fun startup_phase_of :: "StartupState \<Rightarrow> startup_phase" where
  "startup_phase_of StFailure = PhFailed"
| "startup_phase_of StStopping = PhStopping"
| "startup_phase_of StStopped = PhStopped"
| "startup_phase_of _ = PhActive"

definition evidence_level :: "StartupStateMachine \<Rightarrow> nat" where
  "evidence_level m = length (takeWhile (HasEvidenceLocked m) core_sequence)"

definition startup_abs :: "StartupStateMachine \<Rightarrow> startup_spec" where
  "startup_abs m =
     \<lparr>sp_required = required_aux (requirements m), sp_level = evidence_level m,
      sp_aux = {e \<in> aux_evidence. HasEvidenceLocked m e},
      sp_phase = startup_phase_of (sm_state m)\<rparr>"

text \<open>
  The invariant of the concrete machine: the core evidence bits are a prefix of the core sequence,
  auxiliary evidence appears only after configuration (a frame only after the engine started), and
  the stored state is the one the specification derives.
\<close>

definition startup_inv :: "StartupStateMachine \<Rightarrow> bool" where
  "startup_inv m \<longleftrightarrow>
     (\<forall>e. IsCoreEvidence e \<longrightarrow> (HasEvidenceLocked m e \<longleftrightarrow> evidence_index e < evidence_level m)) \<and>
     ((\<exists>e \<in> aux_evidence. HasEvidenceLocked m e) \<longrightarrow> 0 < evidence_level m) \<and>
     (HasEvidenceLocked m EvRealFramePresented \<longrightarrow> 4 < evidence_level m) \<and>
     sm_state m = spec_state (startup_abs m)"

section \<open>Lemmas\<close>

lemma evidence_index_small [simp]: "evidence_index e < 32"
  by (cases e) simp_all

lemma evidence_index_inject [simp]: "evidence_index e = evidence_index e' \<longleftrightarrow> e = e'"
  by (cases e; cases e') simp_all

lemma has_evidence_bit: "HasEvidenceLocked m e \<longleftrightarrow> bit (evidence_bits m) (evidence_index e)"
  by (simp add: HasEvidenceLocked_def EvidenceBit_def)

lemma has_evidence_frame [step_simps, simp]:
  "HasEvidenceLocked (m\<lparr>sm_state := s\<rparr>) e = HasEvidenceLocked m e"
  "HasEvidenceLocked (m\<lparr>sm_revision := r\<rparr>) e = HasEvidenceLocked m e"
  "HasEvidenceLocked (m\<lparr>sm_failure_reason := f\<rparr>) e = HasEvidenceLocked m e"
  by (simp_all add: HasEvidenceLocked_def)

lemma has_evidence_add [step_simps, simp]:
  "HasEvidenceLocked (AddEvidenceLocked m e) e' \<longleftrightarrow> e' = e \<or> HasEvidenceLocked m e'"
  by (auto simp: has_evidence_bit AddEvidenceLocked_def EvidenceBit_def bit_or_iff)

lemma has_evidence_new [simp]: "\<not> HasEvidenceLocked (StartupStateMachine_new req) e"
  by (simp add: has_evidence_bit StartupStateMachine_new_def)

lemma has_evidence_ready [simp]: "HasEvidenceLocked (EvaluateReadyLocked m) e = HasEvidenceLocked m e"
  by (simp add: EvaluateReadyLocked_def)

lemma add_evidence_fields [step_simps, simp]:
  "sm_state (AddEvidenceLocked m e) = sm_state m"
  "requirements (AddEvidenceLocked m e) = requirements m"
  "sm_revision (AddEvidenceLocked m e) = sm_revision m"
  by (simp_all add: AddEvidenceLocked_def)

lemma ready_fields [step_simps, simp]:
  "requirements (EvaluateReadyLocked m) = requirements m"
  "sm_revision (EvaluateReadyLocked m) = sm_revision m"
  by (simp_all add: EvaluateReadyLocked_def)

lemma length_core_sequence [simp]: "length core_sequence = 7"
  by (simp add: core_sequence_def)

lemma core_sequence_distinct: "distinct core_sequence"
  by (simp add: core_sequence_def)

lemma startup_abs_sel [simp]:
  "sp_required (startup_abs m) = required_aux (requirements m)"
  "sp_level (startup_abs m) = evidence_level m"
  "sp_aux (startup_abs m) = {e \<in> aux_evidence. HasEvidenceLocked m e}"
  "sp_phase (startup_abs m) = startup_phase_of (sm_state m)"
  by (simp_all add: startup_abs_def)

lemma core_evidence_iff: "IsCoreEvidence e \<longleftrightarrow> e \<in> set core_sequence"
  by (cases e) (simp_all add: IsCoreEvidence_def core_sequence_def)

lemma core_nth_index: "IsCoreEvidence e \<Longrightarrow> evidence_index e < 7 \<and> core_sequence ! evidence_index e = e"
  by (cases e) (simp_all add: IsCoreEvidence_def core_sequence_def)

lemma known_evidence_cases: "e \<noteq> EvOutOfRange \<Longrightarrow> IsCoreEvidence e \<noteq> (e \<in> aux_evidence)"
  by (cases e) (simp_all add: IsCoreEvidence_def aux_evidence_def)

lemma level_le: "evidence_level m \<le> 7"
  using length_takeWhile_le [of "HasEvidenceLocked m" core_sequence]
  by (simp add: evidence_level_def core_sequence_def)

lemma core_sequence_Suc:
  "n < 7 \<Longrightarrow> take (Suc n) core_sequence = take n core_sequence @ [core_sequence ! n]"
  by (rule take_Suc_conv_app_nth) (simp add: core_sequence_def)

lemma core_take_mem: "e \<in> set (take n core_sequence) \<longleftrightarrow> IsCoreEvidence e \<and> evidence_index e < n"
proof
  assume "e \<in> set (take n core_sequence)"
  then obtain i where i: "i < n" "i < length core_sequence" "e = core_sequence ! i"
    by (auto simp: in_set_conv_nth)
  then have "i < 7" by (simp add: core_sequence_def)
  then have "i \<in> {0,1,2,3,4,5,6}" by auto
  with i show "IsCoreEvidence e \<and> evidence_index e < n"
    by (auto simp: core_sequence_def IsCoreEvidence_def)
next
  assume "IsCoreEvidence e \<and> evidence_index e < n"
  then have "evidence_index e < length core_sequence" "core_sequence ! evidence_index e = e"
      "evidence_index e < n"
    using core_nth_index [of e] by simp_all
  then show "e \<in> set (take n core_sequence)" by (auto simp: in_set_conv_nth)
qed

text \<open>The level is determined by any prefix description of the core bits.\<close>

lemma level_eqI:
  assumes "n \<le> 7" and "\<And>e. IsCoreEvidence e \<Longrightarrow> HasEvidenceLocked m e \<longleftrightarrow> evidence_index e < n"
  shows "evidence_level m = n"
proof -
  have "n \<in> {0,1,2,3,4,5,6,7}" using assms(1) by auto
  then show ?thesis
    using assms(2) by (auto simp: evidence_level_def core_sequence_def IsCoreEvidence_def)
qed

lemma startup_abs_frame [simp]:
  "evidence_level (m\<lparr>sm_state := s\<rparr>) = evidence_level m"
  "evidence_level (m\<lparr>sm_revision := r\<rparr>) = evidence_level m"
  "evidence_level (m\<lparr>sm_failure_reason := f\<rparr>) = evidence_level m"
  "evidence_level (EvaluateReadyLocked m) = evidence_level m"
  by (simp_all add: evidence_level_def cong: takeWhile_cong)

lemma same_bits:
  assumes "evidence_bits m' = evidence_bits m"
  shows "HasEvidenceLocked m' = HasEvidenceLocked m" and "evidence_level m' = evidence_level m"
proof -
  show has: "HasEvidenceLocked m' = HasEvidenceLocked m"
    by (rule ext) (simp add: HasEvidenceLocked_def assms)
  show "evidence_level m' = evidence_level m"
    by (simp add: evidence_level_def has)
qed

lemma inactive_state:
  assumes inv: "startup_inv m" and s: "sm_state m' \<in> {StFailure, StStopping, StStopped}"
    and bits: "evidence_bits m' = evidence_bits m" and req: "requirements m' = requirements m"
  shows "startup_inv m'"
    and "startup_abs m' = (startup_abs m)\<lparr>sp_phase := startup_phase_of (sm_state m')\<rparr>"
proof -
  show abs: "startup_abs m' = (startup_abs m)\<lparr>sp_phase := startup_phase_of (sm_state m')\<rparr>"
    by (simp add: startup_abs_def same_bits [OF bits] req)
  have "sm_state m' = spec_state (startup_abs m')"
    using s by (auto simp: abs spec_state_def)
  with inv show "startup_inv m'"
    by (simp add: startup_inv_def same_bits [OF bits])
qed

lemma spec_state_active:
  "startup_inv m \<Longrightarrow> sm_state m \<notin> {StFailure, StStopping, StStopped} \<longleftrightarrow> sp_phase (startup_abs m) = PhActive"
  by (cases "sm_state m") (simp_all add: startup_abs_def)

lemma core_index_nth: "n < 7 \<Longrightarrow> evidence_index (core_sequence ! n) = n"
  using core_nth_index [of "core_sequence ! n"]
  by (auto simp: core_evidence_iff nth_eq_iff_index_eq core_sequence_distinct)

lemma accepted_iff:
  assumes "startup_inv m" and "e \<noteq> EvOutOfRange"
  shows "e \<in> spec_accepted (startup_abs m) \<longleftrightarrow> HasEvidenceLocked m e"
  using assms known_evidence_cases [OF assms(2)]
  by (auto simp: spec_accepted_def startup_abs_def core_take_mem startup_inv_def)


lemma evaluate_ready_state:
  "sm_state (EvaluateReadyLocked m) =
     (if \<not> HasEvidenceLocked m EvLuaAppReady then sm_state m
      else if required_aux (requirements m) \<subseteq> {e \<in> aux_evidence. HasEvidenceLocked m e}
      then StReady else StLuaAppReady)"
  by (simp add: EvaluateReadyLocked_def required_aux_def aux_evidence_def)

lemma active_level_state:
  assumes "startup_inv m" and "startup_phase_of (sm_state m) = PhActive" and "evidence_level m < 7"
  shows "ExpectedEvidenceForState (sm_state m) = core_sequence ! evidence_level m"
proof -
  have "evidence_level m \<in> {0,1,2,3,4,5,6}" using assms(3) by auto
  moreover have "sm_state m = spec_state (startup_abs m)" using assms(1) by (simp add: startup_inv_def)
  ultimately show ?thesis
    using assms(2) by (auto simp: spec_state_def startup_abs_def core_sequence_def)
qed

lemma lua_ready_level:
  "startup_inv m \<Longrightarrow> HasEvidenceLocked m EvLuaAppReady \<longleftrightarrow> evidence_level m = 7"
  using level_le [of m] by (auto simp: startup_inv_def IsCoreEvidence_def)

lemma invI:
  assumes "\<And>e. IsCoreEvidence e \<Longrightarrow> HasEvidenceLocked m e \<longleftrightarrow> evidence_index e < evidence_level m"
    and "\<And>e. e \<in> aux_evidence \<Longrightarrow> HasEvidenceLocked m e \<Longrightarrow> 0 < evidence_level m"
    and "HasEvidenceLocked m EvRealFramePresented \<Longrightarrow> 4 < evidence_level m"
    and "sm_state m = spec_state (startup_abs m)"
  shows "startup_inv m"
  using assms by (auto simp: startup_inv_def)

lemma core_accept:
  assumes inv: "startup_inv m" and act: "startup_phase_of (sm_state m) = PhActive"
    and lvl: "evidence_level m < 7" and e: "e = core_sequence ! evidence_level m"
    and m': "m' = EvaluateReadyLocked ((AddEvidenceLocked m e)
               \<lparr>sm_state := StateForCoreEvidence e, sm_revision := r\<rparr>)"
  shows "startup_inv m' \<and>
         startup_abs m' = (startup_abs m)\<lparr>sp_level := Suc (evidence_level m)\<rparr>"
proof -
  define n where "n = evidence_level m"
  have core: "IsCoreEvidence e" using lvl by (simp add: core_evidence_iff e)
  have idx: "evidence_index e = n"
    using lvl by (simp add: e n_def core_index_nth)
  have has: "HasEvidenceLocked m' e' \<longleftrightarrow> e' = e \<or> HasEvidenceLocked m e'" for e'
    by (simp add: m')
  have pre: "IsCoreEvidence e' \<Longrightarrow> HasEvidenceLocked m e' \<longleftrightarrow> evidence_index e' < n" for e'
    using inv by (simp add: startup_inv_def n_def)
  have pre': "IsCoreEvidence e' \<Longrightarrow> HasEvidenceLocked m' e' \<longleftrightarrow> evidence_index e' < Suc n" for e'
    using pre [of e'] idx evidence_index_inject [of e' e] by (simp add: has less_Suc_eq) metis
  have level: "evidence_level m' = Suc n"
    by (rule level_eqI) (use lvl pre' in \<open>simp_all add: n_def\<close>)
  have aux: "{x \<in> aux_evidence. HasEvidenceLocked m' x} = {x \<in> aux_evidence. HasEvidenceLocked m x}"
    using core by (auto simp: has aux_evidence_def IsCoreEvidence_def)
  have phase: "startup_phase_of (sm_state m') = PhActive"
    using core by (cases e) (auto simp: m' evaluate_ready_state IsCoreEvidence_def)
  have abs: "startup_abs m' = (startup_abs m)\<lparr>sp_level := Suc n\<rparr>"
    using phase act by (simp add: startup_abs_def level aux) (simp add: m')
  have st: "sm_state m' = spec_state (startup_abs m')"
  proof (cases "n = 6")
    case True
    then have "e = EvLuaAppReady" using e by (simp add: n_def core_sequence_def)
    then have "sm_state m' = (if required_aux (requirements m) \<subseteq> {x \<in> aux_evidence. HasEvidenceLocked m' x}
        then StReady else StLuaAppReady)"
      by (simp add: m' evaluate_ready_state)
    then show ?thesis using True by (simp only: abs spec_state_def act aux) (simp add: act)
  next
    case False
    with lvl have n: "n < 6" by (simp add: n_def)
    have "\<not> HasEvidenceLocked m' EvLuaAppReady"
      using pre' [of EvLuaAppReady] n by (simp add: IsCoreEvidence_def)
    then have "sm_state m' = StateForCoreEvidence e" by (simp add: m' evaluate_ready_state)
    then show ?thesis using n by (simp add: abs spec_state_def act e n_def)
  qed
  have frame: "HasEvidenceLocked m' EvRealFramePresented \<longleftrightarrow> HasEvidenceLocked m EvRealFramePresented"
    using core by (auto simp: has IsCoreEvidence_def)
  have "startup_inv m'"
  proof (rule invI)
    show "HasEvidenceLocked m' EvRealFramePresented \<Longrightarrow> 4 < evidence_level m'"
      using inv by (simp add: frame level startup_inv_def n_def)
  qed (use pre' st in \<open>simp_all add: level\<close>)
  with abs show ?thesis by (simp add: n_def)
qed

lemma aux_accept:
  assumes inv: "startup_inv m" and act: "startup_phase_of (sm_state m) = PhActive"
    and e: "e \<in> aux_evidence" and pos: "0 < evidence_level m"
    and frame: "e = EvRealFramePresented \<Longrightarrow> 4 < evidence_level m"
    and m': "m' = EvaluateReadyLocked ((AddEvidenceLocked m e)\<lparr>sm_revision := r\<rparr>)"
  shows "startup_inv m' \<and>
         startup_abs m' = (startup_abs m)\<lparr>sp_aux := insert e (sp_aux (startup_abs m))\<rparr>"
proof -
  have has: "HasEvidenceLocked m' e' \<longleftrightarrow> e' = e \<or> HasEvidenceLocked m e'" for e'
    by (simp add: m')
  have ncore: "IsCoreEvidence e' \<Longrightarrow> e' \<noteq> e" for e'
    using e by (auto simp: aux_evidence_def IsCoreEvidence_def)
  have pre: "IsCoreEvidence e' \<Longrightarrow> HasEvidenceLocked m' e' \<longleftrightarrow> evidence_index e' < evidence_level m" for e'
    using inv ncore by (auto simp: startup_inv_def has)
  have level: "evidence_level m' = evidence_level m"
    by (rule level_eqI) (use level_le pre in simp_all)
  have lua: "HasEvidenceLocked m' EvLuaAppReady \<longleftrightarrow> HasEvidenceLocked m EvLuaAppReady"
    using ncore by (auto simp: has IsCoreEvidence_def)
  have aux: "{x \<in> aux_evidence. HasEvidenceLocked m' x} =
             insert e {x \<in> aux_evidence. HasEvidenceLocked m x}"
    using e by (auto simp: has)
  have phase: "startup_phase_of (sm_state m') = PhActive"
    using act by (simp add: m' evaluate_ready_state)
  have abs: "startup_abs m' = (startup_abs m)\<lparr>sp_aux := insert e (sp_aux (startup_abs m))\<rparr>"
    using phase act by (simp add: startup_abs_def level aux) (simp add: m')
  have lua7: "HasEvidenceLocked m' EvLuaAppReady \<longleftrightarrow> evidence_level m = 7"
    by (simp add: lua lua_ready_level [OF inv])
  have st: "sm_state m' = spec_state (startup_abs m')"
  proof (cases "evidence_level m = 7")
    case True
    have "sm_state m' = (if required_aux (requirements m) \<subseteq> {x \<in> aux_evidence. HasEvidenceLocked m' x}
        then StReady else StLuaAppReady)"
      using True lua7 by (simp add: m' evaluate_ready_state)
    then show ?thesis using True by (simp only: abs spec_state_def act aux) (simp add: act)
  next
    case False
    have "sm_state m' = sm_state m" using False lua7 by (simp add: m' evaluate_ready_state)
    also have "\<dots> = spec_state (startup_abs m)" using inv by (simp add: startup_inv_def)
    finally show ?thesis
      using False level_le [of m] by (simp add: abs spec_state_def act)
  qed
  have "startup_inv m'"
    using inv pre st pos frame
    by (intro invI) (auto simp: level has startup_inv_def)
  with abs show ?thesis by simp
qed


lemma reject_simps [step_simps, simp]:
  "su_changed (fst (RejectInvalidOrderLocked m e x)) = False"
  "sm_state (snd (RejectInvalidOrderLocked m e x)) = StFailure"
  "evidence_bits (snd (RejectInvalidOrderLocked m e x)) = evidence_bits m"
  "requirements (snd (RejectInvalidOrderLocked m e x)) = requirements m"
  by (simp_all add: RejectInvalidOrderLocked_def Let_def su_changed_def)

lemma reject_inv:
  assumes "startup_inv m"
  shows "startup_inv (snd (RejectInvalidOrderLocked m e x))"
    and "startup_abs (snd (RejectInvalidOrderLocked m e x)) = (startup_abs m)\<lparr>sp_phase := PhFailed\<rparr>"
  using inactive_state [OF assms, of "snd (RejectInvalidOrderLocked m e x)"] by simp_all

lemma core_reject:
  assumes "startup_inv m" and "startup_phase_of (sm_state m) = PhActive"
    and "IsCoreEvidence e" and "\<not> HasEvidenceLocked m e"
  shows "evidence_level m < 7"
    and "e = ExpectedEvidenceForState (sm_state m) \<longleftrightarrow> e = core_sequence ! evidence_level m"
proof -
  show l: "evidence_level m < 7"
    using assms core_nth_index [OF assms(3)] level_le [of m] by (auto simp: startup_inv_def)
  show "e = ExpectedEvidenceForState (sm_state m) \<longleftrightarrow> e = core_sequence ! evidence_level m"
    by (simp add: active_level_state [OF assms(1,2) l])
qed

lemma core_step:
  assumes inv: "startup_inv m" and act: "startup_phase_of (sm_state m) = PhActive"
    and core: "IsCoreEvidence e" and new: "\<not> HasEvidenceLocked m e"
  shows "startup_inv (snd (RecordCoreEvidenceLocked m e)) \<and>
         startup_abs (snd (RecordCoreEvidenceLocked m e)) =
           (if e = core_sequence ! evidence_level m
            then (startup_abs m)\<lparr>sp_level := Suc (evidence_level m)\<rparr>
            else (startup_abs m)\<lparr>sp_phase := PhFailed\<rparr>) \<and>
         su_changed (fst (RecordCoreEvidenceLocked m e)) =
           (e = core_sequence ! evidence_level m)"
proof (cases "e = core_sequence ! evidence_level m")
  case True
  then show ?thesis
    using core_accept [OF inv act core_reject(1) [OF inv act core new] True refl]
      core_reject [OF inv act core new]
    by (simp add: RecordCoreEvidenceLocked_def Let_def accepted_result_def su_changed_def)
next
  case False
  then show ?thesis
    using core_reject(2) [OF inv act core new] reject_inv [OF inv]
    by (simp add: RecordCoreEvidenceLocked_def Let_def)
qed

lemma aux_step:
  assumes inv: "startup_inv m" and act: "startup_phase_of (sm_state m) = PhActive"
    and e: "e \<in> aux_evidence"
  shows "startup_inv (snd (RecordAuxiliaryEvidenceLocked m e)) \<and>
         startup_abs (snd (RecordAuxiliaryEvidenceLocked m e)) =
           (if 0 < evidence_level m \<and> (e = EvRealFramePresented \<longrightarrow> 4 < evidence_level m)
            then (startup_abs m)\<lparr>sp_aux := insert e (sp_aux (startup_abs m))\<rparr>
            else (startup_abs m)\<lparr>sp_phase := PhFailed\<rparr>) \<and>
         su_changed (fst (RecordAuxiliaryEvidenceLocked m e)) =
           (0 < evidence_level m \<and> (e = EvRealFramePresented \<longrightarrow> 4 < evidence_level m))"
proof -
  have conf: "HasEvidenceLocked m EvConfigured \<longleftrightarrow> 0 < evidence_level m"
    and eng: "HasEvidenceLocked m EvEngineStarted \<longleftrightarrow> 4 < evidence_level m"
    using inv by (auto simp: startup_inv_def IsCoreEvidence_def)
  show ?thesis
  proof (cases "0 < evidence_level m \<and> (e = EvRealFramePresented \<longrightarrow> 4 < evidence_level m)")
    case True
    then show ?thesis
      using aux_accept [OF inv act e _ _ refl] conf eng
      by (auto simp: RecordAuxiliaryEvidenceLocked_def Let_def accepted_result_def su_changed_def)
  next
    case False
    with conf eng reject_inv [OF inv] show ?thesis
      by (auto simp: RecordAuxiliaryEvidenceLocked_def)
  qed
qed

lemma record_step:
  assumes inv: "startup_inv m"
  shows "startup_inv (snd (RecordEvidence m e)) \<and>
         startup_abs (snd (RecordEvidence m e)) = spec_record (startup_abs m) e"
proof (cases "e = EvOutOfRange")
  case True
  then show ?thesis
    using reject_inv [OF inv] by (simp add: RecordEvidence_def spec_record_def IsKnownEvidence_def)
next
  case known: False
  show ?thesis
  proof (cases "HasEvidenceLocked m e \<or> startup_phase_of (sm_state m) \<noteq> PhActive")
    case True
    then show ?thesis
      using inv known accepted_iff [OF inv known]
      by (cases "sm_state m") (auto simp: RecordEvidence_def spec_record_def IsKnownEvidence_def)
  next
    case False
    then have act: "startup_phase_of (sm_state m) = PhActive" and new: "\<not> HasEvidenceLocked m e"
      by auto
    have st: "sm_state m \<noteq> StFailure" "sm_state m \<noteq> StStopping" "sm_state m \<noteq> StStopped"
      using act by auto
    show ?thesis
    proof (cases "IsCoreEvidence e")
      case True
      have "take (Suc (evidence_level m)) core_sequence = take (evidence_level m) core_sequence @ [e]
        \<longleftrightarrow> e = core_sequence ! evidence_level m"
        using core_reject(1) [OF inv act True new] by (auto simp: core_sequence_Suc)
      then show ?thesis
        using core_step [OF inv act True new] known_evidence_cases [OF known] True st new known act
          accepted_iff [OF inv known]
        by (simp add: RecordEvidence_def IsKnownEvidence_def spec_record_def)
    next
      case False
      then show ?thesis
        using aux_step [OF inv act] known_evidence_cases [OF known] st new known act
          accepted_iff [OF inv known]
        by (simp add: RecordEvidence_def IsKnownEvidence_def spec_record_def)
    qed
  qed
qed

lemma startup_step_refines:
  assumes "startup_inv m"
  shows "startup_inv (startup_step m x) \<and> startup_abs (startup_step m x) = spec_step (startup_abs m) x"
proof (cases x)
  case (OpRecordEvidence e)
  then show ?thesis using record_step [OF assms] by (simp add: startup_step_def)
next
  case (OpFail r)
  then show ?thesis
    using assms inactive_state [OF assms, of "startup_step m (OpFail r)"]
    by (cases "sm_state m") (simp_all add: startup_step_def Fail_def Let_def)
next
  case OpBeginStopping
  then show ?thesis
    using assms inactive_state [OF assms, of "startup_step m OpBeginStopping"]
    by (cases "sm_state m") (simp_all add: startup_step_def BeginStopping_def)
next
  case OpMarkStopped
  then show ?thesis
    using assms inactive_state [OF assms, of "startup_step m OpMarkStopped"]
    by (cases "sm_state m") (simp_all add: startup_step_def MarkStopped_def Let_def)
qed

lemma startup_new:
  "startup_inv (StartupStateMachine_new req)"
  "startup_abs (StartupStateMachine_new req) = spec_init req"
proof -
  have l: "evidence_level (StartupStateMachine_new req) = 0"
    by (rule level_eqI) simp_all
  show "startup_abs (StartupStateMachine_new req) = spec_init req"
    by (simp add: startup_abs_def spec_init_def l) (simp add: StartupStateMachine_new_def)
  then show "startup_inv (StartupStateMachine_new req)"
    by (simp add: startup_inv_def l spec_state_def)
       (simp add: spec_init_def StartupStateMachine_new_def)
qed

interpretation startup: guarded_component startup_step startup_inv
  by unfold_locales (simp add: startup_step_refines)

lemma startup_run_abs:
  "startup_inv m \<Longrightarrow> startup_abs (run_ops startup_step m xs) = run_ops spec_step (startup_abs m) xs"
  by (induction xs arbitrary: m) (simp_all add: startup_step_refines)


lemma level_cases:
  assumes "startup_inv m"
  shows "(case x of OpRecordEvidence e \<Rightarrow>
            (if su_changed (fst (startup_call m x)) \<and> IsCoreEvidence e
             then evidence_level m < 7 \<and> e = core_sequence ! evidence_level m \<and>
                  evidence_level (startup_step m x) = Suc (evidence_level m)
             else evidence_level (startup_step m x) = evidence_level m)
          | _ \<Rightarrow> evidence_level (startup_step m x) = evidence_level m)"
proof (cases x)
  case (OpRecordEvidence e)
  have step: "evidence_level (startup_step m x) = sp_level (spec_record (startup_abs m) e)"
    using startup_step_refines [OF assms, of x]
    by (simp add: OpRecordEvidence flip: startup_abs_sel(2))
  show ?thesis
  proof (cases "startup_phase_of (sm_state m) = PhActive \<and> IsCoreEvidence e \<and> \<not> HasEvidenceLocked m e")
    case True
    then have known: "e \<noteq> EvOutOfRange" by (auto simp: IsCoreEvidence_def)
    have call: "startup_call m x = RecordCoreEvidenceLocked m e"
      using True known by (auto simp: OpRecordEvidence RecordEvidence_def IsKnownEvidence_def)
    have core: "startup_abs (startup_step m x) =
          (if e = core_sequence ! evidence_level m
           then (startup_abs m)\<lparr>sp_level := Suc (evidence_level m)\<rparr>
           else (startup_abs m)\<lparr>sp_phase := PhFailed\<rparr>)"
        "su_changed (fst (startup_call m x)) = (e = core_sequence ! evidence_level m)"
        "evidence_level m < 7"
      using True core_step [OF assms, of e] core_reject(1) [OF assms, of e]
      by (simp_all add: startup_step_def call)
    have "evidence_level (startup_step m x) =
        (if e = core_sequence ! evidence_level m then Suc (evidence_level m) else evidence_level m)"
      using arg_cong [OF core(1), of sp_level] by simp
    with core(2,3) True show ?thesis by (auto simp: OpRecordEvidence)
  next
    case False
    then have "\<not> (su_changed (fst (startup_call m x)) \<and> IsCoreEvidence e)"
      by (cases "sm_state m")
         (auto simp: OpRecordEvidence RecordEvidence_def su_changed_def reject_simps [unfolded su_changed_def])
    moreover have "sp_level (spec_record (startup_abs m) e) = evidence_level m"
      using False accepted_iff [OF assms, of e] known_evidence_cases [of e]
      by (auto simp: spec_record_def)
    ultimately show ?thesis using step by (auto simp: OpRecordEvidence)
  qed
qed (use startup_step_refines [OF assms, of x] in
      \<open>simp_all flip: startup_abs_sel(2)\<close>)

lemma applied_core_prefix:
  "startup_inv m \<Longrightarrow>
     take (evidence_level m) core_sequence @ filter IsCoreEvidence (applied_evidence m xs) =
     take (evidence_level (run_ops startup_step m xs)) core_sequence"
proof (induction xs arbitrary: m)
  case Nil
  then show ?case by simp
next
  case (Cons x xs)
  have inv: "startup_inv (startup_step m x)" using Cons.prems startup_step_refines by blast
  have "take (evidence_level m) core_sequence @
      filter IsCoreEvidence (applied_evidence m (x # xs)) =
      take (evidence_level (startup_step m x)) core_sequence @
      filter IsCoreEvidence (applied_evidence (startup_step m x) xs)"
    using level_cases [OF Cons.prems, of x]
    by (auto simp: core_sequence_Suc split: StartupOp.splits if_splits)
  also have "\<dots> = take (evidence_level (run_ops startup_step (startup_step m x) xs)) core_sequence"
    by (rule Cons.IH [OF inv])
  finally show ?case by simp
qed

section \<open>Properties\<close>

text \<open>
  C1. For every sequence of calls on a fresh machine, the bit-level implementation computes what
  the specification of the class comment prescribes: the same accepted core level, the same
  auxiliary set, the same phase, and the lifecycle state derived from them.
\<close>

theorem startup_refines_specification:
  "startup_abs (run_ops startup_step (StartupStateMachine_new req) xs) =
     run_ops spec_step (spec_init req) xs \<and>
   sm_state (run_ops startup_step (StartupStateMachine_new req) xs) =
     spec_state (run_ops spec_step (spec_init req) xs)"
proof -
  have abs: "startup_abs (run_ops startup_step (StartupStateMachine_new req) xs) =
      run_ops spec_step (spec_init req) xs"
    by (simp add: startup_run_abs [OF startup_new(1)] startup_new(2))
  moreover have "startup_inv (run_ops startup_step (StartupStateMachine_new req) xs)"
    by (rule startup.run_invar [OF startup_new(1)])
  ultimately show ?thesis by (simp add: startup_inv_def)
qed

text \<open>
  Whatever calls are made, the core evidence a fresh machine accepts (answers with Applied) is,
  in order, a prefix of the seven-step startup sequence, so nothing is skipped, repeated or
  reordered.
\<close>

theorem startup_core_evidence_in_order:
  "\<exists>n. filter IsCoreEvidence (applied_evidence (StartupStateMachine_new req) xs) = take n core_sequence"
proof -
  have "evidence_level (StartupStateMachine_new req) = 0"
    by (rule level_eqI) simp_all
  then show ?thesis
    using applied_core_prefix [OF startup_new(1), of req xs] by auto
qed

text \<open>
  C3. A snapshot that reports Ready has all seven core evidence items and every auxiliary item its
  requirements ask for.
\<close>

theorem startup_ready_evidence:
  assumes "s = StartupSnapshotLocked (run_ops startup_step (StartupStateMachine_new req) xs)"
    and "snapshot_ready s"
  shows "configured s \<and> jni_runtime_ready s \<and> libraries_loaded s \<and> jni_on_load_complete s \<and>
         engine_started s \<and> data_model_loading s \<and> lua_app_ready s \<and>
         (windowed (ss_requirements s) \<longrightarrow> real_frame_presented s) \<and>
         (require_input_ready (ss_requirements s) \<longrightarrow> input_ready s) \<and>
         (require_audio_ready (ss_requirements s) \<longrightarrow> audio_ready s)"
proof -
  define m where "m = run_ops startup_step (StartupStateMachine_new req) xs"
  have inv: "startup_inv m" unfolding m_def by (rule startup.run_invar [OF startup_new(1)])
  have "spec_state (startup_abs m) = StReady"
    using assms inv by (simp add: startup_inv_def m_def StartupSnapshotLocked_def snapshot_ready_def)
  then have lvl: "evidence_level m = 7" and req: "required_aux (requirements m) \<subseteq>
      {e \<in> aux_evidence. HasEvidenceLocked m e}"
    using level_le [of m] core_nth_index [of "core_sequence ! (evidence_level m - 1)"]
    by (auto simp: spec_state_def split: startup_phase.splits if_splits
        elim: StateForCoreEvidence.elims)
  have "\<forall>e. IsCoreEvidence e \<longrightarrow> HasEvidenceLocked m e"
    using inv lvl core_nth_index by (auto simp: startup_inv_def)
  with req show ?thesis
    by (auto simp: assms(1) StartupSnapshotLocked_def IsCoreEvidence_def required_aux_def
        simp flip: m_def split: if_splits)
qed

theorem startup_ready_evidence_witness:
  "let s = StartupSnapshotLocked (run_ops startup_step (StartupStateMachine_new
             \<lparr>windowed = True, require_input_ready = False, require_audio_ready = True\<rparr>)
             (map OpRecordEvidence [EvConfigured, EvAudioReady, EvJniRuntimeReady,
                EvLibrariesLoaded, EvJniOnLoadComplete, EvEngineStarted, EvDataModelLoading,
                EvLuaAppReady, EvRealFramePresented]))
   in snapshot_ready s \<and> lua_app_ready s \<and> real_frame_presented s \<and> audio_ready s"
proof -
  define req where "req = \<lparr>windowed = True, require_input_ready = False, require_audio_ready = True\<rparr>"
  define xs where "xs = map OpRecordEvidence [EvConfigured, EvAudioReady, EvJniRuntimeReady,
                EvLibrariesLoaded, EvJniOnLoadComplete, EvEngineStarted, EvDataModelLoading,
                EvLuaAppReady, EvRealFramePresented]"
  define s where "s = StartupSnapshotLocked (run_ops startup_step (StartupStateMachine_new req) xs)"
  have ready: "snapshot_ready s" unfolding s_def req_def xs_def by code_simp
  have "ss_requirements s = req" unfolding s_def req_def xs_def by code_simp
  with startup_ready_evidence [OF s_def ready] ready show ?thesis
    by (simp add: s_def req_def xs_def)
qed

text \<open>
  A stopped machine is final for every call but one: only evidence outside the enumeration
  still changes it, and that call moves it from Stopped to Failure.
\<close>

theorem startup_stopped_final:
  assumes "sm_state m = StStopped"
  shows "(startup_step m x = m \<longleftrightarrow> x \<noteq> OpRecordEvidence EvOutOfRange) \<and>
         sm_state (startup_step m (OpRecordEvidence EvOutOfRange)) = StFailure"
proof -
  have out: "sm_state (startup_step m (OpRecordEvidence EvOutOfRange)) = StFailure"
    by (simp add: startup_step_def RecordEvidence_def IsKnownEvidence_def)
  have "x \<noteq> OpRecordEvidence EvOutOfRange \<Longrightarrow> startup_step m x = m"
    using assms
    by (cases x) (auto simp: startup_step_def RecordEvidence_def IsKnownEvidence_def Fail_def
        BeginStopping_def MarkStopped_def)
  moreover have "startup_step m (OpRecordEvidence EvOutOfRange) \<noteq> m"
    using out assms by force
  ultimately show ?thesis using out by auto
qed

theorem startup_stopped_final_witness:
  "let m = run_ops startup_step (StartupStateMachine_new
             \<lparr>windowed = True, require_input_ready = False, require_audio_ready = False\<rparr>)
             [OpRecordEvidence EvConfigured, OpBeginStopping, OpMarkStopped]
   in sm_state m = StStopped \<and> startup_step m (OpFail ''late'') = m \<and>
      sm_state (startup_step m (OpRecordEvidence EvOutOfRange)) = StFailure"
proof -
  define m where "m = run_ops startup_step (StartupStateMachine_new
             \<lparr>windowed = True, require_input_ready = False, require_audio_ready = False\<rparr>)
             [OpRecordEvidence EvConfigured, OpBeginStopping, OpMarkStopped]"
  have "sm_state m = StStopped" unfolding m_def by code_simp
  from startup_stopped_final [OF this, of "OpFail ''late''"] this show ?thesis
    unfolding m_def [symmetric] Let_def by simp
qed

end
