(* ===== verification/Surface_Lifecycle.thy ===== *)
theory Surface_Lifecycle
  imports Mocktail_Prelude
begin

text \<open>
  The host-window surface lifecycle (\<open>src/window/window_surface_lifecycle.h/.cc\<close>): observed
  window facts become Android-style surface lifetimes, published as a queue of Created / Changed /
  Destroyed events. Every method holds the object's mutex, so a run is a sequence of calls. The
  abstract specification is the view a consumer builds from the events it polls; the main lemma
  shows that draining the queue always brings that view to the host's current surface.
\<close>

section \<open>Data\<close>

datatype WindowSurfaceEventType = kSurfaceCreated | kSurfaceChanged | kSurfaceDestroyed

record WindowSurfaceSnapshot =
  ws_generation :: u64
  ws_native_window :: u64
  ws_width :: u32
  ws_height :: u32
  ws_available :: bool
  ws_dpi_scale :: cfloat

definition WindowSurfaceSnapshot_default :: WindowSurfaceSnapshot where
  "WindowSurfaceSnapshot_default =
     \<lparr>ws_generation = 0, ws_native_window = 0, ws_width = 0, ws_height = 0,
      ws_available = False, ws_dpi_scale = FNum 1\<rparr>"

record WindowSurfaceEvent =
  ev_type :: WindowSurfaceEventType
  ev_surface :: WindowSurfaceSnapshot

record WindowSurfaceLifecycle =
  wl_events :: "WindowSurfaceEvent list"
  wl_current :: WindowSurfaceSnapshot
  wl_active :: bool

definition WindowSurfaceLifecycle_new :: WindowSurfaceLifecycle where
  "WindowSurfaceLifecycle_new =
     \<lparr>wl_events = [], wl_current = WindowSurfaceSnapshot_default, wl_active = False\<rparr>"

definition kMinimumWindowWidth :: u32 where "kMinimumWindowWidth = 160"
definition kMinimumWindowHeight :: u32 where "kMinimumWindowHeight = 120"

fun WindowSurfaceEventTypeName :: "WindowSurfaceEventType \<Rightarrow> string" where
  "WindowSurfaceEventTypeName kSurfaceCreated = ''Created''"
| "WindowSurfaceEventTypeName kSurfaceChanged = ''Changed''"
| "WindowSurfaceEventTypeName kSurfaceDestroyed = ''Destroyed''"

section \<open>Operations\<close>

definition ValidAvailableSurface :: "u64 \<Rightarrow> u32 \<Rightarrow> u32 \<Rightarrow> cfloat \<Rightarrow> bool" where
  "ValidAvailableSurface native_window width height dpi_scale \<longleftrightarrow>
     native_window \<noteq> 0 \<and> width \<ge> kMinimumWindowWidth \<and> height \<ge> kMinimumWindowHeight \<and>
     f_positive dpi_scale"

definition QueueLocked ::
  "WindowSurfaceLifecycle \<Rightarrow> WindowSurfaceEventType \<Rightarrow> WindowSurfaceSnapshot \<Rightarrow>
     WindowSurfaceLifecycle" where
  "QueueLocked l type surface =
     (let es = wl_events l
      in if type = kSurfaceChanged \<and> es \<noteq> [] \<and> ev_type (last es) = kSurfaceChanged \<and>
            ws_generation (ev_surface (last es)) = ws_generation surface
         then l\<lparr>wl_events := butlast es @ [(last es)\<lparr>ev_surface := surface\<rparr>]\<rparr>
         else l\<lparr>wl_events := es @ [\<lparr>ev_type = type, ev_surface = surface\<rparr>]\<rparr>)"

definition DestroyLocked :: "WindowSurfaceLifecycle \<Rightarrow> WindowSurfaceLifecycle" where
  "DestroyLocked l =
     (let l1 = QueueLocked l kSurfaceDestroyed ((wl_current l)\<lparr>ws_available := False\<rparr>)
      in l1\<lparr>wl_current := (wl_current l1)\<lparr>ws_native_window := 0, ws_available := False\<rparr>\<rparr>)"

definition RestoreLocked ::
  "WindowSurfaceLifecycle \<Rightarrow> u64 \<Rightarrow> u32 \<Rightarrow> u32 \<Rightarrow> cfloat \<Rightarrow> Status \<times> WindowSurfaceLifecycle" where
  "RestoreLocked l native_window width height dpi_scale =
     (if ws_generation (wl_current l) = - 1
      then (Status_Error kFailedPrecondition ''window surface generation overflowed'', l)
      else let cur = (wl_current l)\<lparr>ws_generation := ws_generation (wl_current l) + 1,
                 ws_native_window := native_window, ws_width := width, ws_height := height,
                 ws_dpi_scale := dpi_scale, ws_available := True\<rparr>;
               l1 = l\<lparr>wl_current := cur\<rparr>;
               l2 = QueueLocked l1 kSurfaceCreated cur;
               l3 = QueueLocked l2 kSurfaceChanged cur
           in (Status_Ok, l3))"

definition Activate ::
  "WindowSurfaceLifecycle \<Rightarrow> u64 \<Rightarrow> u32 \<Rightarrow> u32 \<Rightarrow> cfloat \<Rightarrow> Status \<times> WindowSurfaceLifecycle" where
  "Activate l native_window width height dpi_scale =
     (if wl_active l
      then (Status_Error kFailedPrecondition ''window surface lifecycle is already active'', l)
      else if \<not> ValidAvailableSurface native_window width height dpi_scale
      then (Status_Error kInvalidArgument
              ''initial window surface requires a native handle, dimensions and DPI scale'', l)
      else (Status_Ok,
            l\<lparr>wl_events := [],
              wl_current := \<lparr>ws_generation = 1, ws_native_window = native_window,
                 ws_width = width, ws_height = height, ws_available = True,
                 ws_dpi_scale = dpi_scale\<rparr>,
              wl_active := True\<rparr>))"

definition Deactivate :: "WindowSurfaceLifecycle \<Rightarrow> WindowSurfaceLifecycle" where
  "Deactivate l = l\<lparr>wl_active := False, wl_events := [], wl_current := WindowSurfaceSnapshot_default\<rparr>"

definition Observe ::
  "WindowSurfaceLifecycle \<Rightarrow> u64 \<Rightarrow> u32 \<Rightarrow> u32 \<Rightarrow> cfloat \<Rightarrow> Status \<times> WindowSurfaceLifecycle" where
  "Observe l native_window width height dpi_scale =
     (let cur = wl_current l in
      if \<not> wl_active l
      then (Status_Error kFailedPrecondition ''window surface lifecycle is not active'', l)
      else if native_window = 0
      then (Status_Ok, if ws_available cur then DestroyLocked l else l)
      else if \<not> f_positive dpi_scale
      then (Status_Error kInvalidArgument ''observed window surface requires a DPI scale'', l)
      else if width < kMinimumWindowWidth \<or> height < kMinimumWindowHeight
      then (Status_Ok, if ws_available cur \<and> native_window \<noteq> ws_native_window cur
                       then DestroyLocked l else l)
      else if \<not> ws_available cur then RestoreLocked l native_window width height dpi_scale
      else if native_window \<noteq> ws_native_window cur
      then RestoreLocked (DestroyLocked l) native_window width height dpi_scale
      else if width = ws_width cur \<and> height = ws_height cur \<and> f_eq dpi_scale (ws_dpi_scale cur)
      then (Status_Ok, l)
      else let cur' = cur\<lparr>ws_width := width, ws_height := height, ws_dpi_scale := dpi_scale\<rparr>
           in (Status_Ok, QueueLocked (l\<lparr>wl_current := cur'\<rparr>) kSurfaceChanged cur'))"

definition current_usable :: "WindowSurfaceLifecycle \<Rightarrow> bool" where
  "current_usable l \<longleftrightarrow> ws_available (wl_current l) \<and>
     ValidAvailableSurface (ws_native_window (wl_current l)) (ws_width (wl_current l))
       (ws_height (wl_current l)) (ws_dpi_scale (wl_current l))"

definition Refresh :: "WindowSurfaceLifecycle \<Rightarrow> Status \<times> WindowSurfaceLifecycle" where
  "Refresh l =
     (if \<not> wl_active l
      then (Status_Error kFailedPrecondition ''window surface lifecycle is not active'', l)
      else if \<not> current_usable l
      then (Status_Error kFailedPrecondition ''window surface is unavailable for refresh'', l)
      else (Status_Ok, QueueLocked l kSurfaceChanged (wl_current l)))"

definition Recreate :: "WindowSurfaceLifecycle \<Rightarrow> Status \<times> WindowSurfaceLifecycle" where
  "Recreate l =
     (if \<not> wl_active l
      then (Status_Error kFailedPrecondition ''window surface lifecycle is not active'', l)
      else if \<not> current_usable l
      then (Status_Error kFailedPrecondition ''window surface is unavailable for recreation'', l)
      else if ws_generation (wl_current l) = - 1
      then (Status_Error kFailedPrecondition ''window surface generation overflowed'', l)
      else let l1 = QueueLocked l kSurfaceDestroyed ((wl_current l)\<lparr>ws_available := False\<rparr>);
               cur = (wl_current l1)\<lparr>ws_generation := ws_generation (wl_current l1) + 1\<rparr>;
               l2 = QueueLocked (l1\<lparr>wl_current := cur\<rparr>) kSurfaceCreated cur;
               l3 = QueueLocked l2 kSurfaceChanged cur
           in (Status_Ok, l3))"

text \<open>\<open>Poll\<close>: the output pointer's null check is the caller's \<open>out\<close>; None is "returned false".\<close>

definition Poll :: "WindowSurfaceLifecycle \<Rightarrow> bool \<Rightarrow> WindowSurfaceEvent option \<times> WindowSurfaceLifecycle" where
  "Poll l out =
     (if \<not> out then (None, l)
      else case wl_events l of
        [] \<Rightarrow> (None, l)
      | e # es \<Rightarrow> (Some e, l\<lparr>wl_events := es\<rparr>))"

section \<open>The consumer's view\<close>

text \<open>
  What a consumer that follows the Android surface contract knows: an open generation without an
  extent yet, a live surface, or a closed generation. An event that does not fit the view is a
  protocol violation (None).
\<close>

datatype surface_view =
    VOpened u64 | VLive WindowSurfaceSnapshot | VClosed u64

definition usable_surface :: "WindowSurfaceSnapshot \<Rightarrow> bool" where
  "usable_surface s \<longleftrightarrow> ws_available s \<and> ws_generation s \<noteq> 0 \<and>
     ValidAvailableSurface (ws_native_window s) (ws_width s) (ws_height s) (ws_dpi_scale s)"

fun view_event :: "surface_view \<Rightarrow> WindowSurfaceEventType \<Rightarrow> WindowSurfaceSnapshot \<Rightarrow> surface_view option" where
  "view_event (VLive s) kSurfaceChanged s' =
     (if ws_generation s' = ws_generation s \<and> usable_surface s' then Some (VLive s') else None)"
| "view_event (VLive s) kSurfaceDestroyed s' =
     (if ws_generation s' = ws_generation s \<and> \<not> ws_available s'
      then Some (VClosed (ws_generation s)) else None)"
| "view_event (VClosed g) kSurfaceCreated s' =
     (if g < ws_generation s' \<and> usable_surface s' then Some (VOpened (ws_generation s')) else None)"
| "view_event (VOpened g) kSurfaceChanged s' =
     (if ws_generation s' = g \<and> usable_surface s' then Some (VLive s') else None)"
| "view_event _ _ _ = None"

fun view_run :: "surface_view \<Rightarrow> WindowSurfaceEvent list \<Rightarrow> surface_view option" where
  "view_run v [] = Some v"
| "view_run v (e # es) =
     (case view_event v (ev_type e) (ev_surface e) of None \<Rightarrow> None | Some v' \<Rightarrow> view_run v' es)"

definition host_view :: "WindowSurfaceLifecycle \<Rightarrow> surface_view" where
  "host_view l = (if ws_available (wl_current l) then VLive (wl_current l)
                  else VClosed (ws_generation (wl_current l)))"

text \<open>A run of the producer together with the events a consumer has polled so far.\<close>

datatype SurfaceOp =
    SoObserve u64 u32 u32 cfloat | SoRefresh | SoRecreate | SoPoll

fun surface_step ::
  "WindowSurfaceEvent list \<times> WindowSurfaceLifecycle \<Rightarrow> SurfaceOp \<Rightarrow>
     WindowSurfaceEvent list \<times> WindowSurfaceLifecycle" where
  "surface_step (polled, l) (SoObserve nw w h d) = (polled, snd (Observe l nw w h d))"
| "surface_step (polled, l) SoRefresh = (polled, snd (Refresh l))"
| "surface_step (polled, l) SoRecreate = (polled, snd (Recreate l))"
| "surface_step (polled, l) SoPoll =
     (case Poll l True of (None, l') \<Rightarrow> (polled, l') | (Some e, l') \<Rightarrow> (polled @ [e], l'))"

text \<open>
  The producer's invariant towards a consumer whose view before the polled events was \<open>v0\<close>.
\<close>

definition surface_inv :: "surface_view \<Rightarrow> WindowSurfaceEvent list \<times> WindowSurfaceLifecycle \<Rightarrow> bool" where
  "surface_inv v0 sys \<longleftrightarrow>
     (case sys of (polled, l) \<Rightarrow>
        wl_active l \<and> ws_generation (wl_current l) \<noteq> 0 \<and>
        (ws_available (wl_current l) \<longrightarrow> usable_surface (wl_current l)) \<and>
        view_run v0 (polled @ wl_events l) = Some (host_view l))"


section \<open>Lemmas\<close>

lemma view_run_append:
  "view_run v (xs @ ys) = (case view_run v xs of None \<Rightarrow> None | Some v' \<Rightarrow> view_run v' ys)"
  by (induction xs arbitrary: v) (simp_all split: option.splits)

lemma queue_fields [step_simps, simp]:
  "wl_current (QueueLocked l t s) = wl_current l"
  "wl_active (QueueLocked l t s) = wl_active l"
  by (simp_all add: QueueLocked_def Let_def)

lemma view_event_changedD:
  assumes "view_event u kSurfaceChanged x = Some v"
  shows "v = VLive x" "usable_surface x"
    and "ws_generation s = ws_generation x \<Longrightarrow> usable_surface s \<Longrightarrow>
         view_event u kSurfaceChanged s = Some (VLive s)"
  using assms by (cases u; simp split: if_splits)+

text \<open>Queueing an event, coalesced or not, moves the drained view by exactly that event.\<close>

lemma queue_view:
  assumes run: "view_run v0 (p @ wl_events l) = Some v" and ev: "view_event v t s = Some v'"
  shows "view_run v0 (p @ wl_events (QueueLocked l t s)) = Some v'"
proof (cases "t = kSurfaceChanged \<and> wl_events l \<noteq> [] \<and> ev_type (last (wl_events l)) = kSurfaceChanged \<and>
            ws_generation (ev_surface (last (wl_events l))) = ws_generation s")
  case True
  then obtain xs e where es: "wl_events l = xs @ [e]"
    by (metis append_butlast_last_id)
  have t: "t = kSurfaceChanged" "ev_type e = kSurfaceChanged"
      "ws_generation s = ws_generation (ev_surface e)"
    using True es by simp_all
  from run es obtain u where u: "view_run v0 (p @ xs) = Some u"
      and ue: "view_event u kSurfaceChanged (ev_surface e) = Some v"
    using t by (simp add: view_run_append split: option.splits)
  have v: "v = VLive (ev_surface e)" by (rule view_event_changedD(1) [OF ue])
  with ev t have s: "usable_surface s" "v' = VLive s" by (simp_all split: if_splits)
  have "view_event u kSurfaceChanged s = Some (VLive s)"
    using view_event_changedD(3) [OF ue t(3) s(1)] .
  moreover have "p @ wl_events (QueueLocked l t s) = (p @ xs) @ [e\<lparr>ev_surface := s\<rparr>]"
    using True es by (simp add: QueueLocked_def Let_def)
  ultimately show ?thesis
    using u s t by (simp add: view_run_append [of v0 "p @ xs"] del: append_assoc)
next
  case False
  then have "wl_events (QueueLocked l t s) = wl_events l @ [\<lparr>ev_type = t, ev_surface = s\<rparr>]"
    by (auto simp: QueueLocked_def Let_def)
  then have "p @ wl_events (QueueLocked l t s) = (p @ wl_events l) @ [\<lparr>ev_type = t, ev_surface = s\<rparr>]"
    by simp
  then show ?thesis
    using run ev by (simp add: view_run_append [of v0 "p @ wl_events l"] del: append_assoc)
qed

lemma destroy_fields [step_simps, simp]:
  "wl_active (DestroyLocked l) = wl_active l"
  "ws_available (wl_current (DestroyLocked l)) = False"
  "ws_generation (wl_current (DestroyLocked l)) = ws_generation (wl_current l)"
  by (simp_all add: DestroyLocked_def Let_def)

lemma destroy_inv:
  assumes "surface_inv v0 (p, l)" and "ws_available (wl_current l)"
  shows "surface_inv v0 (p, DestroyLocked l)"
  using assms queue_view [of v0 p l "host_view l" kSurfaceDestroyed "(wl_current l)\<lparr>ws_available := False\<rparr>"]
  by (simp add: surface_inv_def host_view_def DestroyLocked_def Let_def)

lemma restore_inv:
  assumes inv: "surface_inv v0 (p, l)" and "\<not> ws_available (wl_current l)"
    and valid: "ValidAvailableSurface nw w h d"
  shows "surface_inv v0 (p, snd (RestoreLocked l nw w h d))"
proof (cases "ws_generation (wl_current l) = - 1")
  case True
  then show ?thesis using inv by (simp add: RestoreLocked_def)
next
  case False
  define cur where "cur = (wl_current l)\<lparr>ws_generation := ws_generation (wl_current l) + 1,
       ws_native_window := nw, ws_width := w, ws_height := h, ws_dpi_scale := d, ws_available := True\<rparr>"
  have gt: "ws_generation (wl_current l) < ws_generation cur"
    using u64_succ_gt [OF False] by (simp add: cur_def)
  then have use: "usable_surface cur"
    using valid by (auto simp: usable_surface_def cur_def)
  have run: "view_run v0 (p @ wl_events (l\<lparr>wl_current := cur\<rparr>)) = Some (VClosed (ws_generation (wl_current l)))"
    using inv assms(2) by (simp add: surface_inv_def host_view_def)
  have run2: "view_run v0 (p @ wl_events (QueueLocked (l\<lparr>wl_current := cur\<rparr>) kSurfaceCreated cur))
      = Some (VOpened (ws_generation cur))"
    by (rule queue_view [OF run]) (simp add: gt use)
  have "view_run v0 (p @ wl_events (QueueLocked (QueueLocked (l\<lparr>wl_current := cur\<rparr>) kSurfaceCreated cur)
      kSurfaceChanged cur)) = Some (VLive cur)"
    by (rule queue_view [OF run2]) (simp add: use)
  then show ?thesis
    using inv use False
    by (simp add: RestoreLocked_def Let_def surface_inv_def host_view_def usable_surface_def flip: cur_def)
qed

lemma observe_inv [inv_preserved]:
  assumes inv: "surface_inv v0 (p, l)"
  shows "surface_inv v0 (p, snd (Observe l nw w h d))"
proof -
  have valid: "nw \<noteq> 0 \<Longrightarrow> f_positive d \<Longrightarrow> \<not> (w < kMinimumWindowWidth \<or> h < kMinimumWindowHeight) \<Longrightarrow>
      ValidAvailableSurface nw w h d"
    by (auto simp: ValidAvailableSurface_def)
  define cur' where "cur' = (wl_current l)\<lparr>ws_width := w, ws_height := h, ws_dpi_scale := d\<rparr>"
  have change: "surface_inv v0 (p, QueueLocked (l\<lparr>wl_current := cur'\<rparr>) kSurfaceChanged cur')"
    if "ws_available (wl_current l)" "nw = ws_native_window (wl_current l)" "ValidAvailableSurface nw w h d"
  proof -
    have use: "usable_surface cur'"
      using inv that by (auto simp: usable_surface_def cur'_def surface_inv_def)
    have "view_run v0 (p @ wl_events (QueueLocked (l\<lparr>wl_current := cur'\<rparr>) kSurfaceChanged cur'))
        = Some (VLive cur')"
      by (rule queue_view [of _ _ _ "host_view l"])
         (use inv that use in \<open>simp_all add: surface_inv_def host_view_def cur'_def\<close>)
    then show ?thesis using inv that use by (simp add: surface_inv_def host_view_def cur'_def)
  qed
  show ?thesis
    using inv valid destroy_inv [OF inv] restore_inv [OF inv] change
      restore_inv [OF destroy_inv [OF inv], of nw w h d]
    by (auto simp: Observe_def Let_def simp flip: cur'_def)
qed

lemma refresh_inv [inv_preserved]:
  assumes "surface_inv v0 (p, l)"
  shows "surface_inv v0 (p, snd (Refresh l))"
  using assms queue_view [of v0 p l "host_view l" kSurfaceChanged "wl_current l" "VLive (wl_current l)"]
  by (auto simp: Refresh_def surface_inv_def host_view_def current_usable_def)

lemma recreate_inv [inv_preserved]:
  assumes inv: "surface_inv v0 (p, l)"
  shows "surface_inv v0 (p, snd (Recreate l))"
proof (cases "current_usable l \<and> ws_generation (wl_current l) \<noteq> - 1")
  case False
  then show ?thesis using inv by (auto simp: Recreate_def)
next
  case True
  let ?g = "ws_generation (wl_current l)"
  define l1 where "l1 = QueueLocked l kSurfaceDestroyed ((wl_current l)\<lparr>ws_available := False\<rparr>)"
  define cur where "cur = (wl_current l)\<lparr>ws_generation := ?g + 1\<rparr>"
  have gt: "?g < ws_generation cur" using True u64_succ_gt [of ?g] by (simp add: cur_def)
  then have use: "usable_surface cur"
    using True by (auto simp: usable_surface_def cur_def current_usable_def)
  have av: "ws_available (wl_current l)" using True by (simp add: current_usable_def)
  have run1: "view_run v0 (p @ wl_events (l1\<lparr>wl_current := cur\<rparr>)) = Some (VClosed ?g)"
    using inv av queue_view [of v0 p l "host_view l" kSurfaceDestroyed "(wl_current l)\<lparr>ws_available := False\<rparr>"]
    by (simp add: l1_def surface_inv_def host_view_def)
  have run2: "view_run v0 (p @ wl_events (QueueLocked (l1\<lparr>wl_current := cur\<rparr>) kSurfaceCreated cur))
      = Some (VOpened (ws_generation cur))"
    by (rule queue_view [OF run1]) (simp add: gt use)
  have "view_run v0 (p @ wl_events (QueueLocked (QueueLocked (l1\<lparr>wl_current := cur\<rparr>) kSurfaceCreated cur)
      kSurfaceChanged cur)) = Some (VLive cur)"
    by (rule queue_view [OF run2]) (simp add: use)
  moreover have "snd (Recreate l) = QueueLocked (QueueLocked (l1\<lparr>wl_current := cur\<rparr>) kSurfaceCreated cur)
      kSurfaceChanged cur"
    using True inv by (simp add: Recreate_def Let_def surface_inv_def l1_def cur_def)
  ultimately show ?thesis
    using inv use by (simp add: surface_inv_def host_view_def l1_def usable_surface_def)
qed

lemma poll_inv:
  assumes "surface_inv v0 (p, l)"
  shows "surface_inv v0 (surface_step (p, l) SoPoll)"
  using assms by (cases "wl_events l") (simp_all add: Poll_def surface_inv_def host_view_def)

lemma surface_step_inv:
  assumes "surface_inv v0 sys"
  shows "surface_inv v0 (surface_step sys x)"
proof (cases sys)
  case (Pair p l)
  with assms show ?thesis
    by (cases x) (simp_all add: inv_preserved poll_inv [simplified])
qed

interpretation surface: guarded_component surface_step "surface_inv v0"
  by unfold_locales (rule surface_step_inv)

lemma activate_inv:
  assumes "status_ok (fst (Activate l nw w h d))"
  shows "surface_inv (host_view (snd (Activate l nw w h d))) ([], snd (Activate l nw w h d))"
  using assms by (auto simp: Activate_def surface_inv_def host_view_def usable_surface_def split: if_splits)


section \<open>Properties\<close>

text \<open>
  C5. After a successful activation, for every interleaving of observations, refreshes,
  recreations and polls, the events polled so far followed by those still queued are a legal
  Android surface history (each generation is created, changed only while open, destroyed once,
  and generations increase), and following them leads the consumer to the host's current surface:
  coalescing Changed events loses no update.
\<close>

theorem surface_events_reach_current_surface:
  assumes "status_ok (fst (Activate l nw w h d))"
    and "(polled, l') = run_ops surface_step ([], snd (Activate l nw w h d)) xs"
  shows "view_run (host_view (snd (Activate l nw w h d))) (polled @ wl_events l') = Some (host_view l')"
proof -
  have "surface_inv (host_view (snd (Activate l nw w h d))) (polled, l')"
    unfolding assms(2) by (rule surface.run_invar [OF activate_inv [OF assms(1)]])
  then show ?thesis by (simp add: surface_inv_def)
qed

theorem surface_events_reach_current_surface_witness:
  "let sys = run_ops surface_step
       ([], snd (Activate WindowSurfaceLifecycle_new 7 800 600 (FNum 1)))
       [SoObserve 7 1024 768 (FNum 1), SoObserve 7 1280 720 (FNum 1), SoPoll, SoRecreate,
        SoObserve 0 0 0 (FNum 1), SoObserve 9 640 480 (FNum 2)]
   in length (fst sys) = 1 \<and> length (wl_events (snd sys)) = 6 \<and>
      view_run (host_view (snd (Activate WindowSurfaceLifecycle_new 7 800 600 (FNum 1))))
        (fst sys @ wl_events (snd sys)) =
      Some (VLive \<lparr>ws_generation = 3, ws_native_window = 9, ws_width = 640, ws_height = 480,
                   ws_available = True, ws_dpi_scale = FNum 2\<rparr>)"
proof -
  let ?l = "snd (Activate WindowSurfaceLifecycle_new 7 800 600 (FNum 1))"
  define sys where "sys = run_ops surface_step ([], ?l)
       [SoObserve 7 1024 768 (FNum 1), SoObserve 7 1280 720 (FNum 1), SoPoll, SoRecreate,
        SoObserve 0 0 0 (FNum 1), SoObserve 9 640 480 (FNum 2)]"
  have ok: "status_ok (fst (Activate WindowSurfaceLifecycle_new 7 800 600 (FNum 1)))"
    by code_simp
  have run: "(fst sys, snd sys) = run_ops surface_step ([], ?l)
       [SoObserve 7 1024 768 (FNum 1), SoObserve 7 1280 720 (FNum 1), SoPoll, SoRecreate,
        SoObserve 0 0 0 (FNum 1), SoObserve 9 640 480 (FNum 2)]"
    by (simp add: sys_def)
  have len: "length (fst sys) = 1" "length (wl_events (snd sys)) = 6"
    unfolding sys_def by code_simp+
  have view: "host_view (snd sys) = VLive \<lparr>ws_generation = 3, ws_native_window = 9, ws_width = 640,
      ws_height = 480, ws_available = True, ws_dpi_scale = FNum 2\<rparr>"
    unfolding sys_def by code_simp
  show ?thesis
    using surface_events_reach_current_surface [OF ok run] len
    unfolding sys_def [symmetric] Let_def view by simp
qed

text \<open>
  Every operation either keeps the surface generation, or raises it and publishes a Created
  event that carries the new current surface.
\<close>

theorem surface_generation_change_is_published:
  "ws_generation (wl_current (snd (surface_step sys x))) = ws_generation (wl_current (snd sys)) \<or>
   ws_generation (wl_current (snd sys)) < ws_generation (wl_current (snd (surface_step sys x))) \<and>
   \<lparr>ev_type = kSurfaceCreated, ev_surface = wl_current (snd (surface_step sys x))\<rparr>
     \<in> set (wl_events (snd (surface_step sys x)))"
proof -
  obtain p l where sys: "sys = (p, l)" by (cases sys)
  have created: "\<lparr>ev_type = kSurfaceCreated, ev_surface = c\<rparr> \<in>
      set (wl_events (QueueLocked (QueueLocked k kSurfaceCreated c) kSurfaceChanged c))" for k c
    by (simp add: QueueLocked_def Let_def)
  have restore: "ws_generation (wl_current (snd (RestoreLocked k nw w h d))) = ws_generation (wl_current k) \<or>
      ws_generation (wl_current k) < ws_generation (wl_current (snd (RestoreLocked k nw w h d))) \<and>
      \<lparr>ev_type = kSurfaceCreated, ev_surface = wl_current (snd (RestoreLocked k nw w h d))\<rparr>
         \<in> set (wl_events (snd (RestoreLocked k nw w h d)))" for k nw w h d
    using created u64_succ_gt [of "ws_generation (wl_current k)"]
    by (simp add: RestoreLocked_def Let_def)
  show ?thesis
  proof (cases x)
    case (SoObserve nw w h d)
    then show ?thesis
      using restore [of l nw w h d] restore [of "DestroyLocked l" nw w h d]
      by (auto simp: sys Observe_def Let_def)
  next
    case SoRefresh
    then show ?thesis by (simp add: sys Refresh_def)
  next
    case SoRecreate
    then show ?thesis
      using created u64_succ_gt [of "ws_generation (wl_current l)"]
      by (auto simp: sys Recreate_def Let_def)
  next
    case SoPoll
    then show ?thesis by (simp add: sys Poll_def split: list.splits)
  qed
qed

end
