(* ===== verification/Resize_Gate.thy ===== *)
theory Resize_Gate
  imports Surface_Lifecycle "HOL-Library.Sublist"
begin

text \<open>
  The resize readiness gate (\<open>src/window/window_resize_readiness_gate.h/.cc\<close>), the evidence state
  machine of the opt-in resize check: a real present, one resize request, the compositor's committed
  surface at the requested extent in the same generation, and a later present, before the stop.
  The main lemma reads the evidence off the history of calls whenever the gate reports completion.
\<close>

section \<open>Data\<close>

datatype WindowResizeReadinessState =
    RrDisabled | RrWaitingForFirstPresent | RrReadyToRequestResize | RrResizeRequested
  | RrSurfaceCommitted | RrPostRebindPresented | RrStopped | RrFailed

record WindowResizeReadinessConfig =
  rc_enabled :: bool
  rc_target_width :: u32
  rc_target_height :: u32

record WindowResizeRequest =
  rq_width :: u32
  rq_height :: u32

record WindowResizeReadinessSnapshot =
  rr_state :: WindowResizeReadinessState
  rr_surface_generation :: u64
  rr_first_present_serial :: u64
  rr_post_rebind_present_serial :: u64
  rr_target_width :: u32
  rr_target_height :: u32
  rr_failure_reason :: string

definition ResizeReadinessGate_new :: WindowResizeReadinessSnapshot where
  "ResizeReadinessGate_new =
     \<lparr>rr_state = RrDisabled, rr_surface_generation = 0, rr_first_present_serial = 0,
      rr_post_rebind_present_serial = 0, rr_target_width = 0, rr_target_height = 0,
      rr_failure_reason = []\<rparr>"

definition rr_complete :: "WindowResizeReadinessSnapshot \<Rightarrow> bool" where
  "rr_complete s \<longleftrightarrow> rr_state s = RrDisabled \<or> rr_state s = RrStopped"

fun WindowResizeReadinessStateName :: "WindowResizeReadinessState \<Rightarrow> string" where
  "WindowResizeReadinessStateName RrDisabled = ''Disabled''"
| "WindowResizeReadinessStateName RrWaitingForFirstPresent = ''WaitingForFirstPresent''"
| "WindowResizeReadinessStateName RrReadyToRequestResize = ''ReadyToRequestResize''"
| "WindowResizeReadinessStateName RrResizeRequested = ''ResizeRequested''"
| "WindowResizeReadinessStateName RrSurfaceCommitted = ''SurfaceCommitted''"
| "WindowResizeReadinessStateName RrPostRebindPresented = ''PostRebindPresented''"
| "WindowResizeReadinessStateName RrStopped = ''Stopped''"
| "WindowResizeReadinessStateName RrFailed = ''Failed''"

section \<open>Operations\<close>

type_synonym gate_result = "Status \<times> WindowResizeReadinessSnapshot"

definition ResizeFailLocked :: "WindowResizeReadinessSnapshot \<Rightarrow> string \<Rightarrow> gate_result" where
  "ResizeFailLocked s reason =
     (Status_Error kFailedPrecondition reason, s\<lparr>rr_state := RrFailed, rr_failure_reason := reason\<rparr>)"

definition ResizeActivate ::
  "WindowResizeReadinessSnapshot \<Rightarrow> WindowResizeReadinessConfig \<Rightarrow> WindowSurfaceSnapshot \<Rightarrow>
     gate_result" where
  "ResizeActivate s config initial =
     (if rr_state s \<noteq> RrDisabled \<or> rr_surface_generation s \<noteq> 0
      then (Status_Error kFailedPrecondition ''window resize readiness gate is already active'', s)
      else if \<not> rc_enabled config then (Status_Ok, s)
      else if \<not> ws_available initial \<or> ws_generation initial = 0 \<or> ws_native_window initial = 0 \<or>
              ws_width initial = 0 \<or> ws_height initial = 0
      then (Status_Error kInvalidArgument
              ''window resize readiness gate requires an available initial surface'', s)
      else if rc_target_width config = 0 \<or> rc_target_height config = 0
      then (Status_Error kInvalidArgument ''window resize target must have a positive extent'', s)
      else if rc_target_width config = ws_width initial \<and> rc_target_height config = ws_height initial
      then (Status_Error kInvalidArgument ''window resize target must differ from initial extent'', s)
      else (Status_Ok,
            s\<lparr>rr_state := RrWaitingForFirstPresent, rr_surface_generation := ws_generation initial,
              rr_target_width := rc_target_width config,
              rr_target_height := rc_target_height config\<rparr>))"

definition ResizeRecordPresent :: "WindowResizeReadinessSnapshot \<Rightarrow> u64 \<Rightarrow> gate_result" where
  "ResizeRecordPresent s frame_serial =
     (if rr_state s = RrDisabled then (Status_Ok, s)
      else if rr_state s = RrFailed \<or> rr_state s = RrStopped
      then (Status_Error kFailedPrecondition
              (if rr_failure_reason s = []
               then ''window resize readiness gate cannot accept a present''
               else rr_failure_reason s), s)
      else if frame_serial = 0
      then ResizeFailLocked s ''resize readiness received a zero present serial''
      else if rr_state s = RrWaitingForFirstPresent
      then (Status_Ok, s\<lparr>rr_first_present_serial := frame_serial,
                         rr_state := RrReadyToRequestResize\<rparr>)
      else if rr_state s = RrSurfaceCommitted
      then if frame_serial \<le> rr_first_present_serial s
           then ResizeFailLocked s ''post-rebind present serial does not follow the first present''
           else (Status_Ok, s\<lparr>rr_post_rebind_present_serial := frame_serial,
                              rr_state := RrPostRebindPresented\<rparr>)
      else (Status_Ok, s))"

text \<open>\<open>out\<close>: the request pointer is not null; None is "returned false".\<close>

definition TakeResizeRequest ::
  "WindowResizeReadinessSnapshot \<Rightarrow> bool \<Rightarrow>
     WindowResizeRequest option \<times> WindowResizeReadinessSnapshot" where
  "TakeResizeRequest s out =
     (if \<not> out then (None, s)
      else if rr_state s \<noteq> RrReadyToRequestResize then (None, s)
      else (Some \<lparr>rq_width = rr_target_width s, rq_height = rr_target_height s\<rparr>,
            s\<lparr>rr_state := RrResizeRequested\<rparr>))"

definition RecordCommittedSurfaceEvent ::
  "WindowResizeReadinessSnapshot \<Rightarrow> WindowSurfaceEvent \<Rightarrow> gate_result" where
  "RecordCommittedSurfaceEvent s e =
     (if rr_state s = RrDisabled then (Status_Ok, s)
      else if rr_state s = RrFailed \<or> rr_state s = RrStopped
      then (Status_Error kFailedPrecondition
              (if rr_failure_reason s = []
               then ''window resize readiness gate cannot accept a surface event''
               else rr_failure_reason s), s)
      else if rr_state s \<noteq> RrResizeRequested then (Status_Ok, s)
      else if ev_type e = kSurfaceCreated \<or> ev_type e = kSurfaceDestroyed
      then ResizeFailLocked s ''resize recreated the surface instead of preserving its generation''
      else if ws_generation (ev_surface e) \<noteq> rr_surface_generation s
      then ResizeFailLocked s ''resize committed a different surface generation''
      else if \<not> ws_available (ev_surface e) \<or> ws_native_window (ev_surface e) = 0
      then ResizeFailLocked s ''resize committed an unavailable surface''
      else if ws_width (ev_surface e) \<noteq> rr_target_width s \<or>
              ws_height (ev_surface e) \<noteq> rr_target_height s
      then (Status_Ok, s)
      else (Status_Ok, s\<lparr>rr_state := RrSurfaceCommitted\<rparr>))"

definition ResizeRecordStopped :: "WindowResizeReadinessSnapshot \<Rightarrow> gate_result" where
  "ResizeRecordStopped s =
     (if rr_state s = RrDisabled then (Status_Ok, s)
      else if rr_state s = RrFailed
      then (Status_Error kFailedPrecondition (rr_failure_reason s), s)
      else if rr_state s \<noteq> RrPostRebindPresented
      then ResizeFailLocked s ''runtime stopped before resize rebind produced a later present''
      else (Status_Ok, s\<lparr>rr_state := RrStopped\<rparr>))"

definition CompletionStatus :: "WindowResizeReadinessSnapshot \<Rightarrow> Status" where
  "CompletionStatus s =
     (if rr_state s = RrDisabled \<or> rr_state s = RrStopped then Status_Ok
      else if rr_state s = RrFailed then Status_Error kFailedPrecondition (rr_failure_reason s)
      else Status_Error kFailedPrecondition ''window resize readiness evidence is incomplete'')"

section \<open>Runs and the evidence they carry\<close>

datatype GateOp =
    GoPresent u64 | GoTake bool | GoCommit WindowSurfaceEvent | GoStop

fun gate_step :: "WindowResizeReadinessSnapshot \<Rightarrow> GateOp \<Rightarrow> WindowResizeReadinessSnapshot" where
  "gate_step s (GoPresent n) = snd (ResizeRecordPresent s n)"
| "gate_step s (GoTake out) = snd (TakeResizeRequest s out)"
| "gate_step s (GoCommit e) = snd (RecordCommittedSurfaceEvent s e)"
| "gate_step s GoStop = snd (ResizeRecordStopped s)"

text \<open>A committed event at the requested extent of the initial surface lifetime.\<close>

definition target_commit :: "WindowResizeReadinessConfig \<Rightarrow> u64 \<Rightarrow> WindowSurfaceEvent \<Rightarrow> bool" where
  "target_commit config g e \<longleftrightarrow> ev_type e = kSurfaceChanged \<and> ws_generation (ev_surface e) = g \<and>
     ws_available (ev_surface e) \<and> ws_native_window (ev_surface e) \<noteq> 0 \<and>
     ws_width (ev_surface e) = rc_target_width config \<and>
     ws_height (ev_surface e) = rc_target_height config"

text \<open>What the history must contain, in this order, for each state of an enabled gate.\<close>

definition gate_evidence ::
  "WindowResizeReadinessConfig \<Rightarrow> u64 \<Rightarrow> GateOp list \<Rightarrow> WindowResizeReadinessSnapshot \<Rightarrow> bool" where
  "gate_evidence config g hist s \<longleftrightarrow>
     rr_target_width s = rc_target_width config \<and> rr_target_height s = rc_target_height config \<and>
     rr_surface_generation s = g \<and>
     (let p = rr_first_present_serial s; q = rr_post_rebind_present_serial s in
      case rr_state s of
        RrDisabled \<Rightarrow> False
      | RrWaitingForFirstPresent \<Rightarrow> True
      | RrReadyToRequestResize \<Rightarrow> p \<noteq> 0 \<and> subseq [GoPresent p] hist
      | RrResizeRequested \<Rightarrow> p \<noteq> 0 \<and> subseq [GoPresent p, GoTake True] hist
      | RrSurfaceCommitted \<Rightarrow> p \<noteq> 0 \<and>
          (\<exists>e. target_commit config g e \<and> subseq [GoPresent p, GoTake True, GoCommit e] hist)
      | RrPostRebindPresented \<Rightarrow> p \<noteq> 0 \<and> p < q \<and>
          (\<exists>e. target_commit config g e \<and>
               subseq [GoPresent p, GoTake True, GoCommit e, GoPresent q] hist)
      | RrStopped \<Rightarrow> p \<noteq> 0 \<and> p < q \<and>
          (\<exists>e. target_commit config g e \<and>
               subseq [GoPresent p, GoTake True, GoCommit e, GoPresent q, GoStop] hist)
      | RrFailed \<Rightarrow> True)"

lemma subseq_snoc: "subseq xs ys \<Longrightarrow> subseq (xs @ [z]) (ys @ [z])"
  by simp

lemma subseq_snocI [intro]: "subseq xs ys \<Longrightarrow> subseq xs (ys @ [z])"
  by (rule subseq_rev_drop_many)

lemmas subseq_extend = subseq_snoc [of "[a]" for a, simplified] subseq_snoc [of "[a, b]" for a b, simplified]
  subseq_snoc [of "[a, b, c]" for a b c, simplified] subseq_snoc [of "[a, b, c, d]" for a b c d, simplified]

lemma subseq_last: "subseq [z] (ys @ [z])"
  using subseq_snoc [of "[]" ys z] by simp

lemma gate_step_evidence:
  assumes "gate_evidence config g hist s"
  shows "gate_evidence config g (hist @ [x]) (gate_step s x)"
proof (cases x)
  case (GoPresent n)
  then show ?thesis
    using assms
    by (cases "rr_state s")
       (auto simp: gate_evidence_def Let_def ResizeRecordPresent_def ResizeFailLocked_def subseq_last
         not_le intro: subseq_extend)
next
  case (GoTake out)
  then show ?thesis
    using assms
    by (cases "rr_state s")
       (auto simp: gate_evidence_def Let_def TakeResizeRequest_def intro: subseq_extend)
next
  case (GoCommit e)
  have "ev_type e \<noteq> kSurfaceCreated \<and> ev_type e \<noteq> kSurfaceDestroyed \<longleftrightarrow> ev_type e = kSurfaceChanged"
    by (cases "ev_type e") simp_all
  then show ?thesis
    using assms GoCommit
    by (cases "rr_state s")
       (auto simp: gate_evidence_def Let_def RecordCommittedSurfaceEvent_def ResizeFailLocked_def
         target_commit_def intro: subseq_extend)
next
  case GoStop
  then show ?thesis
    using assms
    by (cases "rr_state s")
       (auto simp: gate_evidence_def Let_def ResizeRecordStopped_def ResizeFailLocked_def
         intro: subseq_extend)
qed

lemma gate_run_evidence:
  "gate_evidence config g hist s \<Longrightarrow> gate_evidence config g (hist @ xs) (run_ops gate_step s xs)"
proof (induction xs arbitrary: hist s)
  case (Cons x xs)
  from Cons.IH [OF gate_step_evidence [OF Cons.prems]] show ?case by simp
qed simp

section \<open>Properties\<close>

text \<open>
  When an enabled gate reports completion after any sequence of calls, the calls contain,
  in this order: a present with a nonzero serial, the one resize request, a committed Changed event
  of the initial surface generation at exactly the requested extent, a present with a larger serial,
  and the stop.
\<close>

theorem resize_completion_has_evidence:
  assumes act: "ResizeActivate ResizeReadinessGate_new config initial = (Status_Ok, s0)"
    and enabled: "rc_enabled config"
    and fin: "status_ok (CompletionStatus (run_ops gate_step s0 xs))"
  shows "\<exists>p q e. p \<noteq> 0 \<and> p < q \<and> target_commit config (ws_generation initial) e \<and>
     subseq [GoPresent p, GoTake True, GoCommit e, GoPresent q, GoStop] xs"
proof -
  have "gate_evidence config (ws_generation initial) [] s0"
    using act enabled
    by (auto simp: ResizeActivate_def ResizeReadinessGate_new_def gate_evidence_def Status_Ok_def
        Status_Error_def split: if_splits)
  from gate_run_evidence [OF this, of xs]
  have ev: "gate_evidence config (ws_generation initial) xs (run_ops gate_step s0 xs)" by simp
  moreover have "rr_state (run_ops gate_step s0 xs) = RrStopped"
    using fin ev by (auto simp: CompletionStatus_def gate_evidence_def Let_def split: if_splits)
  ultimately show ?thesis
    by (simp add: gate_evidence_def Let_def) blast
qed

definition sample_initial :: WindowSurfaceSnapshot where
  "sample_initial = \<lparr>ws_generation = 1, ws_native_window = 7, ws_width = 800, ws_height = 600,
     ws_available = True, ws_dpi_scale = FNum 1\<rparr>"

definition sample_config :: WindowResizeReadinessConfig where
  "sample_config = \<lparr>rc_enabled = True, rc_target_width = 1024, rc_target_height = 768\<rparr>"

definition sample_resize :: "GateOp list" where
  "sample_resize =
     [GoPresent 5, GoTake True,
      GoCommit \<lparr>ev_type = kSurfaceChanged, ev_surface = sample_initial\<lparr>ws_width := 900\<rparr>\<rparr>,
      GoCommit \<lparr>ev_type = kSurfaceChanged,
                ev_surface = sample_initial\<lparr>ws_width := 1024, ws_height := 768\<rparr>\<rparr>,
      GoPresent 6, GoStop]"

theorem resize_completion_has_evidence_witness:
  "\<exists>p q e. p \<noteq> 0 \<and> p < q \<and> target_commit sample_config 1 e \<and>
     subseq [GoPresent p, GoTake True, GoCommit e, GoPresent q, GoStop] sample_resize"
proof -
  let ?act = "ResizeActivate ResizeReadinessGate_new sample_config sample_initial"
  have act: "?act = (Status_Ok, snd ?act)" by code_simp
  have fin: "status_ok (CompletionStatus (run_ops gate_step (snd ?act) sample_resize))" by code_simp
  have "rc_enabled sample_config" "ws_generation sample_initial = 1" by code_simp+
  with resize_completion_has_evidence [OF act _ fin] show ?thesis by simp
qed

end
