(* ===== verification/Game_Session.thy ===== *)
theory Game_Session
  imports Mocktail_Prelude
begin

text \<open>
  The game-session coordinator (\<open>include/runtime/game_session_coordinator.h\<close>,
  \<open>src/runtime/game_session_coordinator.cc\<close>): the policy that decides when the guest game is
  started, resized, paused, resumed, left and shut down.

  Lifecycle methods hold \<open>operation_mutex_\<close> for their whole body and \<open>mutex_\<close> except around
  the one native callback they may make; the only method that runs while a callback is in flight is
  \<open>RecordGamePresent\<close>. A call of a lifecycle method is therefore modelled with an outcome: the
  status its native callback returns and the present evidence recorded, in order, while the callback
  ran. The callbacks themselves are outside the sources' policy layer; every call the coordinator
  makes is appended, with its result, to the log \<open>gs_calls\<close>, which is the observable effect of the
  component and no input of any decision.
\<close>

section \<open>Data\<close>

datatype GameSessionPrincipalKind = kLocalGuest | kAuthenticated

record GameSessionPrincipal =
  gp_kind :: GameSessionPrincipalKind
  gp_generation :: u64
  gp_principal_id :: string
  gp_base_url :: string

definition GameSessionPrincipal_default :: GameSessionPrincipal where
  "GameSessionPrincipal_default =
     \<lparr>gp_kind = kLocalGuest, gp_generation = 0, gp_principal_id = [], gp_base_url = []\<rparr>"

record GameJoinRequest =
  gr_request_id :: u64
  gr_place_id :: int
  gr_launch_parameters :: string

definition GameJoinRequest_default :: GameJoinRequest where
  "GameJoinRequest_default = \<lparr>gr_request_id = 0, gr_place_id = 0, gr_launch_parameters = []\<rparr>"

record GameSurface =
  gf_generation :: u64
  gf_native_window :: u64
  gf_width :: u32
  gf_height :: u32
  gf_dpi_scale :: cfloat

definition GameSurface_default :: GameSurface where
  "GameSurface_default =
     \<lparr>gf_generation = 0, gf_native_window = 0, gf_width = 0, gf_height = 0, gf_dpi_scale = FNum 0\<rparr>"

datatype GamePresentBackend = kBackendUnknown | kBackendVulkan | kBackendOpenGlEs

record GamePresentEvidence =
  ge_surface_generation :: u64
  ge_frame_serial :: u64
  ge_backend :: GamePresentBackend
  ge_present_succeeded :: bool

definition GamePresentEvidence_default :: GamePresentEvidence where
  "GamePresentEvidence_default =
     \<lparr>ge_surface_generation = 0, ge_frame_serial = 0, ge_backend = kBackendUnknown,
      ge_present_succeeded = False\<rparr>"

text \<open>The capability table: which of the seven function pointers are non-null.\<close>

record GameSessionCapabilities =
  cap_set_game_foreground :: bool
  cap_start_game :: bool
  cap_update_surface :: bool
  cap_pause_game :: bool
  cap_resume_game :: bool
  cap_leave_game :: bool
  cap_shutdown_runtime :: bool

definition caps_complete :: "GameSessionCapabilities \<Rightarrow> bool" where
  "caps_complete c \<longleftrightarrow>
     cap_set_game_foreground c \<and> cap_start_game c \<and> cap_update_surface c \<and>
     cap_pause_game c \<and> cap_resume_game c \<and> cap_leave_game c \<and> cap_shutdown_runtime c"

datatype NativeCall =
    NcSetGameForeground
  | NcStartGame GameSessionPrincipal GameJoinRequest GameSurface
  | NcUpdateSurface GameSurface
  | NcPauseGame
  | NcResumeGame GameSurface
  | NcLeaveGame
  | NcShutdownRuntime

record NativeOutcome =
  no_status :: Status
  no_presents :: "GamePresentEvidence list"

datatype GameSessionState =
    GsCreated | GsPrincipalReady | GsJoinRequestQueued | GsPreparingSurface | GsSurfaceCreated
  | GsSurfaceAvailable | GsStarting | GsRunning | GsUpdatingSurface | GsPausing | GsPaused
  | GsResuming | GsLeaving | GsReturnedToLuaApp | GsFailure | GsStopping | GsStopped

datatype GameSessionUpdateStatus = GuApplied | GuDuplicate | GuRejected

record GameSessionUpdateResult =
  gu_status :: GameSessionUpdateStatus
  gu_state :: GameSessionState
  gu_cause :: Status
  gu_message :: string

definition gu_ok :: "GameSessionUpdateResult \<Rightarrow> bool" where
  "gu_ok r \<longleftrightarrow> gu_status r \<noteq> GuRejected"

definition gu_changed :: "GameSessionUpdateResult \<Rightarrow> bool" where
  "gu_changed r \<longleftrightarrow> gu_status r = GuApplied"

record GameSession =
  gs_capabilities :: GameSessionCapabilities
  gs_required_present_backend :: GamePresentBackend
  gs_state :: GameSessionState
  gs_revision :: u64
  gs_principal_ready :: bool
  gs_join_request_queued :: bool
  gs_surface_created :: bool
  gs_pending_surface_available :: bool
  gs_active_surface_available :: bool
  gs_initial_start_completed :: bool
  gs_game_paused :: bool
  gs_pending_present :: bool
  gs_game_presented :: bool
  gs_returned_to_lua_app :: bool
  gs_shutdown_attempted :: bool
  gs_prepared_surface_generation :: u64
  gs_last_destroyed_surface_generation :: u64
  gs_principal :: GameSessionPrincipal
  gs_request :: GameJoinRequest
  gs_pending_surface :: GameSurface
  gs_active_surface :: GameSurface
  gs_pending_present_evidence :: GamePresentEvidence
  gs_first_presented_frame :: u64
  gs_failure_reason :: string
  gs_calls :: "(NativeCall \<times> bool) list"

type_synonym session_call = "GameSessionUpdateResult \<times> GameSession"

definition GameSessionCoordinator_new ::
  "GameSessionCapabilities \<Rightarrow> GamePresentBackend \<Rightarrow> GameSession" where
  "GameSessionCoordinator_new caps backend =
     \<lparr>gs_capabilities = caps, gs_required_present_backend = backend, gs_state = GsCreated,
      gs_revision = 0, gs_principal_ready = False, gs_join_request_queued = False,
      gs_surface_created = False, gs_pending_surface_available = False,
      gs_active_surface_available = False, gs_initial_start_completed = False,
      gs_game_paused = False, gs_pending_present = False, gs_game_presented = False,
      gs_returned_to_lua_app = False, gs_shutdown_attempted = False,
      gs_prepared_surface_generation = 0, gs_last_destroyed_surface_generation = 0,
      gs_principal = GameSessionPrincipal_default, gs_request = GameJoinRequest_default,
      gs_pending_surface = GameSurface_default, gs_active_surface = GameSurface_default,
      gs_pending_present_evidence = GamePresentEvidence_default, gs_first_presented_frame = 0,
      gs_failure_reason = [], gs_calls = []\<rparr>"

section \<open>Names\<close>

fun GameSessionStateName :: "GameSessionState \<Rightarrow> string" where
  "GameSessionStateName GsCreated = ''Created''"
| "GameSessionStateName GsPrincipalReady = ''PrincipalReady''"
| "GameSessionStateName GsJoinRequestQueued = ''JoinRequestQueued''"
| "GameSessionStateName GsPreparingSurface = ''PreparingSurface''"
| "GameSessionStateName GsSurfaceCreated = ''SurfaceCreated''"
| "GameSessionStateName GsSurfaceAvailable = ''SurfaceAvailable''"
| "GameSessionStateName GsStarting = ''Starting''"
| "GameSessionStateName GsRunning = ''Running''"
| "GameSessionStateName GsUpdatingSurface = ''UpdatingSurface''"
| "GameSessionStateName GsPausing = ''Pausing''"
| "GameSessionStateName GsPaused = ''Paused''"
| "GameSessionStateName GsResuming = ''Resuming''"
| "GameSessionStateName GsLeaving = ''Leaving''"
| "GameSessionStateName GsReturnedToLuaApp = ''ReturnedToLuaApp''"
| "GameSessionStateName GsFailure = ''Failure''"
| "GameSessionStateName GsStopping = ''Stopping''"
| "GameSessionStateName GsStopped = ''Stopped''"

fun GamePresentBackendName :: "GamePresentBackend \<Rightarrow> string" where
  "GamePresentBackendName kBackendUnknown = ''Unknown''"
| "GamePresentBackendName kBackendVulkan = ''Vulkan''"
| "GamePresentBackendName kBackendOpenGlEs = ''OpenGlEs''"

fun GameSessionPrincipalKindName :: "GameSessionPrincipalKind \<Rightarrow> string" where
  "GameSessionPrincipalKindName kLocalGuest = ''LocalGuest''"
| "GameSessionPrincipalKindName kAuthenticated = ''Authenticated''"

section \<open>Helpers\<close>

abbreviation InvalidArgument :: "string \<Rightarrow> Status" where
  "InvalidArgument m \<equiv> Status_Error kInvalidArgument m"

abbreviation FailedPrecondition :: "string \<Rightarrow> Status" where
  "FailedPrecondition m \<equiv> Status_Error kFailedPrecondition m"

definition ValidPrincipal :: "GameSessionPrincipal \<Rightarrow> bool" where
  "ValidPrincipal p \<longleftrightarrow>
     (if gp_generation p = 0 \<or> gp_base_url p = [] then False
      else if gp_kind p = kAuthenticated then gp_principal_id p \<noteq> []
      else gp_kind p = kLocalGuest \<and> gp_principal_id p = [])"

definition ValidRequest :: "GameJoinRequest \<Rightarrow> bool" where
  "ValidRequest r \<longleftrightarrow> gr_request_id r \<noteq> 0 \<and> gr_place_id r \<ge> 0 \<and> gr_launch_parameters r \<noteq> []"

definition ValidSurface :: "GameSurface \<Rightarrow> bool" where
  "ValidSurface s \<longleftrightarrow> gf_generation s \<noteq> 0 \<and> gf_native_window s \<noteq> 0 \<and> gf_width s \<noteq> 0 \<and> gf_height s \<noteq> 0"

definition SamePrincipal :: "GameSessionPrincipal \<Rightarrow> GameSessionPrincipal \<Rightarrow> bool" where
  "SamePrincipal l r \<longleftrightarrow> gp_kind l = gp_kind r \<and> gp_generation l = gp_generation r \<and>
     gp_principal_id l = gp_principal_id r \<and> gp_base_url l = gp_base_url r"

definition SameRequest :: "GameJoinRequest \<Rightarrow> GameJoinRequest \<Rightarrow> bool" where
  "SameRequest l r \<longleftrightarrow> gr_request_id l = gr_request_id r \<and> gr_place_id l = gr_place_id r \<and>
     gr_launch_parameters l = gr_launch_parameters r"

definition SameSurface :: "GameSurface \<Rightarrow> GameSurface \<Rightarrow> bool" where
  "SameSurface l r \<longleftrightarrow> gf_generation l = gf_generation r \<and>
     gf_native_window l = gf_native_window r \<and> gf_width l = gf_width r \<and>
     gf_height l = gf_height r \<and> f_eq (gf_dpi_scale l) (gf_dpi_scale r)"

definition IsForwardTerminalLocked :: "GameSession \<Rightarrow> bool" where
  "IsForwardTerminalLocked s \<longleftrightarrow> gs_state s = GsFailure \<or> gs_state s = GsReturnedToLuaApp \<or>
     gs_state s = GsStopping \<or> gs_state s = GsStopped"

definition PreStartStateLocked :: "GameSession \<Rightarrow> GameSessionState" where
  "PreStartStateLocked s =
     (if gs_pending_surface_available s then GsSurfaceAvailable
      else if gs_join_request_queued s then GsJoinRequestQueued
      else if gs_surface_created s then GsSurfaceCreated
      else GsPrincipalReady)"

definition IsPresentShapeValidLocked :: "GameSession \<Rightarrow> GamePresentEvidence \<Rightarrow> bool" where
  "IsPresentShapeValidLocked s e \<longleftrightarrow>
     ge_present_succeeded e \<and> ge_frame_serial e \<noteq> 0 \<and> ge_surface_generation e \<noteq> 0 \<and>
     ge_backend e \<noteq> kBackendUnknown \<and>
     (gs_required_present_backend s = kBackendUnknown \<or>
      ge_backend e = gs_required_present_backend s)"

definition enter :: "GameSessionState \<Rightarrow> GameSession \<Rightarrow> GameSession" where
  "enter st s = s\<lparr>gs_state := st, gs_revision := gs_revision s + 1\<rparr>"

definition ApplyLocked :: "GameSession \<Rightarrow> GameSessionState \<Rightarrow> string \<Rightarrow> session_call" where
  "ApplyLocked s st m =
     (\<lparr>gu_status = GuApplied, gu_state = st, gu_cause = Status_Ok, gu_message = m\<rparr>, enter st s)"

definition DuplicateLocked :: "GameSession \<Rightarrow> string \<Rightarrow> session_call" where
  "DuplicateLocked s m =
     (\<lparr>gu_status = GuDuplicate, gu_state = gs_state s, gu_cause = Status_Ok, gu_message = m\<rparr>, s)"

definition FailLocked :: "GameSession \<Rightarrow> Status \<Rightarrow> string \<Rightarrow> session_call" where
  "FailLocked s cause m =
     (let reason = (if message cause \<noteq> [] then m @ '': '' @ message cause else m)
      in (\<lparr>gu_status = GuRejected, gu_state = GsFailure, gu_cause = cause, gu_message = reason\<rparr>,
          enter GsFailure (s\<lparr>gs_failure_reason := reason\<rparr>)))"

definition RejectLocked :: "GameSession \<Rightarrow> Status \<Rightarrow> string \<Rightarrow> session_call" where
  "RejectLocked s cause m =
     (\<lparr>gu_status = GuRejected, gu_state = gs_state s, gu_cause = cause, gu_message = m\<rparr>, s)"

definition RejectTerminalLocked :: "GameSession \<Rightarrow> string \<Rightarrow> session_call" where
  "RejectTerminalLocked s operation =
     (let m = operation @ '' rejected in state '' @ GameSessionStateName (gs_state s)
      in RejectLocked s (FailedPrecondition m) m)"

definition DiscardPendingSurfaceLocked :: "GameSession \<Rightarrow> GameSession" where
  "DiscardPendingSurfaceLocked s =
     s\<lparr>gs_pending_surface_available := False, gs_pending_surface := GameSurface_default\<rparr>"

definition PromotePendingSurfaceLocked :: "GameSession \<Rightarrow> GameSession" where
  "PromotePendingSurfaceLocked s =
     DiscardPendingSurfaceLocked
       (s\<lparr>gs_active_surface := gs_pending_surface s, gs_active_surface_available := True\<rparr>)"

definition DiscardPendingPresentLocked :: "GameSession \<Rightarrow> GameSession" where
  "DiscardPendingPresentLocked s =
     s\<lparr>gs_pending_present := False, gs_pending_present_evidence := GamePresentEvidence_default\<rparr>"

definition CommitPendingPresentLocked :: "GameSession \<Rightarrow> GameSession" where
  "CommitPendingPresentLocked s =
     DiscardPendingPresentLocked
       (if gs_pending_present s \<and> \<not> gs_game_presented s
        then s\<lparr>gs_game_presented := True,
               gs_first_presented_frame := ge_frame_serial (gs_pending_present_evidence s),
               gs_revision := gs_revision s + 1\<rparr>
        else s)"

section \<open>Present evidence\<close>

definition RecordGamePresent :: "GameSession \<Rightarrow> GamePresentEvidence \<Rightarrow> session_call" where
  "RecordGamePresent s e =
     (if \<not> IsPresentShapeValidLocked s e
      then RejectLocked s (InvalidArgument ''present must succeed with a serial and required backend'')
             ''malformed or unsupported game present evidence''
      else
       let matches_pending = gs_pending_surface_available s \<and>
             ge_surface_generation e = gf_generation (gs_pending_surface s);
           matches_active = gf_generation (gs_active_surface s) \<noteq> 0 \<and>
             ge_surface_generation e = gf_generation (gs_active_surface s);
           (defer, immediate) =
             (case gs_state s of
                GsStarting \<Rightarrow> (matches_pending, False)
              | GsResuming \<Rightarrow> (matches_pending, False)
              | GsUpdatingSurface \<Rightarrow>
                  (matches_pending,
                   \<not> matches_pending \<and> matches_active \<and> gs_active_surface_available s)
              | GsRunning \<Rightarrow> (False, matches_active \<and> gs_active_surface_available s)
              | GsPausing \<Rightarrow> (False, matches_active)
              | GsPaused \<Rightarrow> (False, matches_active)
              | _ \<Rightarrow> (False, False))
       in
        if \<not> defer \<and> \<not> immediate
        then RejectLocked s
               (FailedPrecondition ''present evidence does not match a current or pending surface'')
               ''stale game present evidence''
        else if gs_game_presented s then DuplicateLocked s ''real game frame was already presented''
        else if defer
        then if gs_pending_present s
             then DuplicateLocked s ''game present evidence is already pending''
             else (\<lparr>gu_status = GuApplied, gu_state = gs_state s, gu_cause = Status_Ok,
                    gu_message = ''game present evidence pending native transition success''\<rparr>,
                   s\<lparr>gs_pending_present := True, gs_pending_present_evidence := e,
                     gs_revision := gs_revision s + 1\<rparr>)
        else (\<lparr>gu_status = GuApplied, gu_state = gs_state s, gu_cause = Status_Ok,
               gu_message = (if gs_state s = GsPaused
                             then ''late last-surface game frame observed while paused''
                             else ''first real game frame presented'')\<rparr>,
              s\<lparr>gs_game_presented := True, gs_first_presented_frame := ge_frame_serial e,
                gs_revision := gs_revision s + 1\<rparr>))"

fun record_presents :: "GameSession \<Rightarrow> GamePresentEvidence list \<Rightarrow> GameSession" where
  "record_presents s [] = s"
| "record_presents s (e # es) = record_presents (snd (RecordGamePresent s e)) es"

text \<open>
  The window in which \<open>mutex_\<close> is released around a native callback: the call is made, and the
  evidence of the outcome is recorded before the lock is taken again.
\<close>

definition native_call :: "GameSession \<Rightarrow> NativeCall \<Rightarrow> NativeOutcome \<Rightarrow> GameSession" where
  "native_call s c out =
     record_presents (s\<lparr>gs_calls := gs_calls s @ [(c, status_ok (no_status out))]\<rparr>) (no_presents out)"

section \<open>Lifecycle operations\<close>

definition SetPrincipal :: "GameSession \<Rightarrow> GameSessionPrincipal \<Rightarrow> session_call" where
  "SetPrincipal s p =
     (if gs_principal_ready s
      then if SamePrincipal (gs_principal s) p
           then DuplicateLocked s ''game-session principal already accepted''
           else if IsForwardTerminalLocked s
           then RejectTerminalLocked s ''replace game-session principal''
           else FailLocked s (FailedPrecondition ''game-session principal replacement is forbidden'')
                  ''conflicting game-session principal''
      else if IsForwardTerminalLocked s then RejectTerminalLocked s ''set game-session principal''
      else if gs_state s \<noteq> GsCreated
      then FailLocked s (FailedPrecondition ''principal must be set first'') ''invalid principal order''
      else if \<not> caps_complete (gs_capabilities s)
      then FailLocked s (Status_Error kUnavailable ''game-session capability table is incomplete'')
             ''cannot accept principal without complete native capabilities''
      else if \<not> ValidPrincipal p
      then FailLocked s
             (InvalidArgument ''principal generation and base URL are required; authenticated principals also require an ID'')
             ''invalid game-session principal''
      else ApplyLocked (s\<lparr>gs_principal := p, gs_principal_ready := True\<rparr>) GsPrincipalReady
             ''game-session principal accepted'')"

text \<open>The lock argument of \<open>StartIfReadyLocked\<close> is always the caller's held lock.\<close>

definition StartIfReadyLocked :: "GameSession \<Rightarrow> string \<Rightarrow> NativeOutcome \<Rightarrow> session_call" where
  "StartIfReadyLocked s accepted_message out =
     (if \<not> gs_principal_ready s \<or> \<not> gs_join_request_queued s \<or> \<not> gs_surface_created s \<or>
         \<not> gs_pending_surface_available s \<or> gs_initial_start_completed s
      then FailLocked s (FailedPrecondition ''initial StartGame prerequisites are incomplete'')
             ''internal start precondition rejected''
      else
       let s1 = DiscardPendingPresentLocked (enter GsStarting s);
           s2 = native_call s1
                  (NcStartGame (gs_principal s1) (gs_request s1) (gs_pending_surface s1)) out
       in if \<not> status_ok (no_status out)
          then FailLocked (DiscardPendingPresentLocked (DiscardPendingSurfaceLocked s2))
                 (no_status out) ''StartGame callback failed''
          else ApplyLocked
                 (CommitPendingPresentLocked
                    ((PromotePendingSurfaceLocked s2)
                       \<lparr>gs_initial_start_completed := True, gs_game_paused := False\<rparr>))
                 GsRunning (accepted_message @ ''; initial game started without ResumeGame''))"

definition QueueJoinRequest :: "GameSession \<Rightarrow> GameJoinRequest \<Rightarrow> NativeOutcome \<Rightarrow> session_call" where
  "QueueJoinRequest s r out =
     (if gs_join_request_queued s
      then if SameRequest (gs_request s) r then DuplicateLocked s ''game join request already queued''
           else if IsForwardTerminalLocked s then RejectTerminalLocked s ''replace game join request''
           else FailLocked s (FailedPrecondition ''queued game join request is immutable'')
                  ''conflicting game join request''
      else if IsForwardTerminalLocked s then RejectTerminalLocked s ''queue game join request''
      else if \<not> gs_principal_ready s
      then FailLocked s (FailedPrecondition ''game-session principal is required before join'')
             ''game join request arrived before principal''
      else if \<not> ValidRequest r
      then FailLocked s (InvalidArgument ''request ID and launch parameters are required'')
             ''invalid game join request''
      else if gr_place_id r \<noteq> 0 \<and> gp_kind (gs_principal s) \<noteq> kAuthenticated
      then FailLocked s
             (FailedPrecondition ''authenticated principal is required for a network game join'')
             ''local guest attempted a non-local game join''
      else
       let s1 = s\<lparr>gs_request := r, gs_join_request_queued := True\<rparr>
       in if \<not> gs_pending_surface_available s1
          then ApplyLocked s1 GsJoinRequestQueued
                 ''game join request queued; waiting for changed surface''
          else StartIfReadyLocked s1 ''game join request completed start prerequisites'' out)"

definition SurfaceCreated :: "GameSession \<Rightarrow> u64 \<Rightarrow> NativeOutcome \<Rightarrow> session_call" where
  "SurfaceCreated s g out =
     (if gs_surface_created s \<and> g \<noteq> 0 \<and> g = gs_prepared_surface_generation s
      then DuplicateLocked s ''surface generation is already prepared''
      else if IsForwardTerminalLocked s then RejectTerminalLocked s ''create game surface''
      else if \<not> gs_principal_ready s
      then FailLocked s
             (FailedPrecondition ''game-session principal is required before surface events'')
             ''SurfaceCreated arrived before principal''
      else if g = 0
      then FailLocked s (InvalidArgument ''surface generation is required'') ''invalid created surface''
      else if gs_initial_start_completed s \<and> gs_state s \<noteq> GsPaused
      then FailLocked s
             (FailedPrecondition ''a new surface can be prepared only after the game pauses'')
             ''SurfaceCreated arrived while game was not paused''
      else if gs_initial_start_completed s \<and>
              (g = gf_generation (gs_active_surface s) \<or> g = gs_last_destroyed_surface_generation s)
      then FailLocked s (InvalidArgument ''recreated surface requires a new lifetime generation'')
             ''paused game received stale SurfaceCreated generation''
      else if \<not> gs_initial_start_completed s \<and> gs_surface_created s
      then FailLocked s
             (FailedPrecondition ''current prepared surface must be destroyed before replacement'')
             ''conflicting SurfaceCreated generation''
      else
       let s1 = native_call (enter GsPreparingSurface s) NcSetGameForeground out
       in if \<not> status_ok (no_status out)
          then FailLocked s1 (no_status out) ''ES.onSurfaceCreated foreground callback failed''
          else let s2 = s1\<lparr>gs_surface_created := True, gs_prepared_surface_generation := g\<rparr>
               in ApplyLocked s2
                    (if gs_initial_start_completed s2 then GsPaused else PreStartStateLocked s2)
                    ''surface generation prepared and game foregrounded'')"

definition UpdateSurface :: "GameSession \<Rightarrow> GameSurface \<Rightarrow> bool \<Rightarrow> NativeOutcome \<Rightarrow> session_call" where
  "UpdateSurface s f force_rebind out =
     (if IsForwardTerminalLocked s then RejectTerminalLocked s ''change game surface''
      else if \<not> gs_principal_ready s
      then FailLocked s
             (FailedPrecondition ''game-session principal is required before surface events'')
             ''SurfaceChanged arrived before principal''
      else if \<not> ValidSurface f
      then FailLocked s
             (InvalidArgument ''surface generation, native window and dimensions are required'')
             ''invalid changed surface''
      else if \<not> gs_surface_created s \<or> gf_generation f \<noteq> gs_prepared_surface_generation s
      then FailLocked s
             (FailedPrecondition ''SurfaceChanged requires a matching successful SurfaceCreated'')
             ''unprepared SurfaceChanged generation''
      else if \<not> gs_initial_start_completed s
      then if gs_pending_surface_available s \<and> SameSurface (gs_pending_surface s) f
           then DuplicateLocked s ''initial candidate surface already current''
           else let s1 = s\<lparr>gs_pending_surface := f, gs_pending_surface_available := True\<rparr>
                in if \<not> gs_join_request_queued s1
                   then ApplyLocked s1 GsSurfaceAvailable
                          ''changed surface accepted; waiting for join request''
                   else StartIfReadyLocked s1 ''changed surface completed start prerequisites'' out
      else if gs_state s = GsPaused
      then let s1 = enter GsResuming (DiscardPendingPresentLocked
                      (s\<lparr>gs_pending_surface := f, gs_pending_surface_available := True\<rparr>));
               s2 = native_call s1 (NcResumeGame f) out
           in if \<not> status_ok (no_status out)
              then FailLocked (DiscardPendingPresentLocked (DiscardPendingSurfaceLocked s2))
                     (no_status out) ''ResumeGame callback failed''
              else ApplyLocked
                     (CommitPendingPresentLocked
                        ((PromotePendingSurfaceLocked s2)\<lparr>gs_game_paused := False\<rparr>))
                     GsRunning ''game resumed with recreated surface''
      else if gs_state s \<noteq> GsRunning
      then FailLocked s (FailedPrecondition ''surface update requires a running game'')
             ''invalid SurfaceChanged order''
      else if \<not> force_rebind \<and> gs_active_surface_available s \<and> SameSurface (gs_active_surface s) f
      then DuplicateLocked s ''running game surface already current''
      else let s1 = enter GsUpdatingSurface (DiscardPendingPresentLocked
                      (s\<lparr>gs_pending_surface := f, gs_pending_surface_available := True\<rparr>));
               s2 = native_call s1 (NcUpdateSurface f) out
           in if \<not> status_ok (no_status out)
              then FailLocked (DiscardPendingPresentLocked (DiscardPendingSurfaceLocked s2))
                     (no_status out) ''UpdateSurfaceGame callback failed''
              else ApplyLocked (CommitPendingPresentLocked (PromotePendingSurfaceLocked s2))
                     GsRunning ''running game surface updated'')"

definition SurfaceChanged :: "GameSession \<Rightarrow> GameSurface \<Rightarrow> NativeOutcome \<Rightarrow> session_call" where
  "SurfaceChanged s f out = UpdateSurface s f False out"

definition RebindSurface :: "GameSession \<Rightarrow> GameSurface \<Rightarrow> NativeOutcome \<Rightarrow> session_call" where
  "RebindSurface s f out = UpdateSurface s f True out"

definition SurfaceDestroyed :: "GameSession \<Rightarrow> u64 \<Rightarrow> NativeOutcome \<Rightarrow> session_call" where
  "SurfaceDestroyed s g out =
     (if \<not> gs_surface_created s \<and> \<not> gs_pending_surface_available s \<and>
         \<not> gs_active_surface_available s \<and> g \<noteq> 0 \<and> g = gs_last_destroyed_surface_generation s
      then DuplicateLocked s ''surface generation is already destroyed''
      else if IsForwardTerminalLocked s then RejectTerminalLocked s ''destroy game surface''
      else if g = 0
      then FailLocked s (InvalidArgument ''surface generation is required'')
             ''invalid destroyed surface''
      else if \<not> gs_initial_start_completed s
      then let matches_prepared = gs_surface_created s \<and> g = gs_prepared_surface_generation s;
               matches_candidate = gs_pending_surface_available s \<and>
                 g = gf_generation (gs_pending_surface s)
           in if \<not> matches_prepared \<and> \<not> matches_candidate
              then FailLocked s (FailedPrecondition ''destroyed surface was never prepared'')
                     ''unknown pre-start SurfaceDestroyed generation''
              else let s1 = DiscardPendingPresentLocked (DiscardPendingSurfaceLocked
                         (s\<lparr>gs_surface_created := False, gs_prepared_surface_generation := 0,
                            gs_last_destroyed_surface_generation := g\<rparr>))
                   in ApplyLocked s1 (PreStartStateLocked s1) ''unused pre-start surface destroyed''
      else if gs_state s \<noteq> GsRunning \<or> \<not> gs_active_surface_available s
      then FailLocked s (FailedPrecondition ''SurfaceDestroyed requires an active running game'')
             ''invalid SurfaceDestroyed order''
      else if g \<noteq> gf_generation (gs_active_surface s)
      then FailLocked s (FailedPrecondition ''destroyed surface is not the active surface'')
             ''conflicting SurfaceDestroyed generation''
      else let s1 = enter GsPausing (DiscardPendingPresentLocked (DiscardPendingSurfaceLocked
                      (s\<lparr>gs_active_surface_available := False, gs_surface_created := False,
                         gs_prepared_surface_generation := 0,
                         gs_last_destroyed_surface_generation := g\<rparr>)));
               s2 = native_call s1 NcPauseGame out
           in if \<not> status_ok (no_status out)
              then FailLocked s2 (no_status out) ''PauseGame callback failed''
              else ApplyLocked (s2\<lparr>gs_game_paused := True\<rparr>) GsPaused
                     ''game paused after surface destruction'')"

text \<open>The cleanup both \<open>LeaveGame\<close> and \<open>Shutdown\<close> do after their callback succeeded.\<close>

definition release_surfaces :: "GameSession \<Rightarrow> GameSession" where
  "release_surfaces s =
     DiscardPendingPresentLocked (DiscardPendingSurfaceLocked
       (s\<lparr>gs_active_surface_available := False, gs_surface_created := False,
          gs_prepared_surface_generation := 0, gs_game_paused := False\<rparr>))"

definition LeaveGame :: "GameSession \<Rightarrow> NativeOutcome \<Rightarrow> session_call" where
  "LeaveGame s out =
     (if gs_returned_to_lua_app s then DuplicateLocked s ''game already returned to LuaApp''
      else if IsForwardTerminalLocked s then RejectTerminalLocked s ''leave game''
      else if \<not> gs_initial_start_completed s \<or> (gs_state s \<noteq> GsRunning \<and> gs_state s \<noteq> GsPaused)
      then FailLocked s (FailedPrecondition ''LeaveGame requires a started game'')
             ''game leave arrived before initial start''
      else let s1 = native_call (enter GsLeaving s) NcLeaveGame out
           in if \<not> status_ok (no_status out)
              then FailLocked s1 (no_status out) ''LeaveGame callback failed''
              else ApplyLocked (release_surfaces (s1\<lparr>gs_returned_to_lua_app := True\<rparr>))
                     GsReturnedToLuaApp ''game returned to LuaApp; app runtime remains alive'')"

definition Shutdown :: "GameSession \<Rightarrow> NativeOutcome \<Rightarrow> session_call" where
  "Shutdown s out =
     (if gs_state s = GsStopped then DuplicateLocked s ''game runtime is already stopped''
      else if gs_shutdown_attempted s
      then RejectLocked s
             (FailedPrecondition ''a failed shutdown is not retried after possible side effects'')
             ''game runtime shutdown was already attempted''
      else if \<not> cap_shutdown_runtime (gs_capabilities s)
      then FailLocked s (Status_Error kUnavailable ''ShutdownGameRuntime capability is missing'')
             ''cannot stop game runtime''
      else let s1 = native_call (enter GsStopping (s\<lparr>gs_shutdown_attempted := True\<rparr>))
                      NcShutdownRuntime out
           in if \<not> status_ok (no_status out)
              then FailLocked s1 (no_status out) ''ShutdownGameRuntime callback failed''
              else ApplyLocked (release_surfaces s1) GsStopped ''entire game app runtime stopped'')"

section \<open>Snapshot\<close>

record GameSessionSnapshot =
  sn_state :: GameSessionState
  sn_revision :: u64
  sn_principal_ready :: bool
  sn_principal_kind :: GameSessionPrincipalKind
  sn_join_request_queued :: bool
  sn_surface_created :: bool
  sn_pending_surface_available :: bool
  sn_active_surface_available :: bool
  sn_initial_start_completed :: bool
  sn_game_running :: bool
  sn_game_paused :: bool
  sn_game_present_pending :: bool
  sn_game_presented :: bool
  sn_returned_to_lua_app :: bool
  sn_stopped :: bool
  sn_principal_generation :: u64
  sn_request_id :: u64
  sn_prepared_surface_generation :: u64
  sn_pending_surface_generation :: u64
  sn_active_surface_generation :: u64
  sn_active_surface_width :: u32
  sn_active_surface_height :: u32
  sn_first_presented_frame :: u64
  sn_failure_reason :: string

definition SnapshotLocked :: "GameSession \<Rightarrow> GameSessionSnapshot" where
  "SnapshotLocked s =
     \<lparr>sn_state = gs_state s, sn_revision = gs_revision s,
      sn_principal_ready = gs_principal_ready s, sn_principal_kind = gp_kind (gs_principal s),
      sn_join_request_queued = gs_join_request_queued s,
      sn_surface_created = gs_surface_created s,
      sn_pending_surface_available = gs_pending_surface_available s,
      sn_active_surface_available = gs_active_surface_available s,
      sn_initial_start_completed = gs_initial_start_completed s,
      sn_game_running = (gs_state s = GsRunning \<or> gs_state s = GsUpdatingSurface \<or>
                         gs_state s = GsPausing),
      sn_game_paused = gs_game_paused s, sn_game_present_pending = gs_pending_present s,
      sn_game_presented = gs_game_presented s, sn_returned_to_lua_app = gs_returned_to_lua_app s,
      sn_stopped = (gs_state s = GsStopped),
      sn_principal_generation = gp_generation (gs_principal s),
      sn_request_id = gr_request_id (gs_request s),
      sn_prepared_surface_generation = gs_prepared_surface_generation s,
      sn_pending_surface_generation = gf_generation (gs_pending_surface s),
      sn_active_surface_generation = gf_generation (gs_active_surface s),
      sn_active_surface_width = gf_width (gs_active_surface s),
      sn_active_surface_height = gf_height (gs_active_surface s),
      sn_first_presented_frame = gs_first_presented_frame s,
      sn_failure_reason = gs_failure_reason s\<rparr>"

section \<open>Calls as steps\<close>

datatype SessionOp =
    SetPrincipalOp GameSessionPrincipal
  | QueueJoinRequestOp GameJoinRequest NativeOutcome
  | SurfaceCreatedOp u64 NativeOutcome
  | UpdateSurfaceOp GameSurface bool NativeOutcome
  | SurfaceDestroyedOp u64 NativeOutcome
  | RecordGamePresentOp GamePresentEvidence
  | LeaveGameOp NativeOutcome
  | ShutdownOp NativeOutcome

fun session_call :: "GameSession \<Rightarrow> SessionOp \<Rightarrow> session_call" where
  "session_call s (SetPrincipalOp p) = SetPrincipal s p"
| "session_call s (QueueJoinRequestOp r out) = QueueJoinRequest s r out"
| "session_call s (SurfaceCreatedOp g out) = SurfaceCreated s g out"
| "session_call s (UpdateSurfaceOp f force out) = UpdateSurface s f force out"
| "session_call s (SurfaceDestroyedOp g out) = SurfaceDestroyed s g out"
| "session_call s (RecordGamePresentOp e) = RecordGamePresent s e"
| "session_call s (LeaveGameOp out) = LeaveGame s out"
| "session_call s (ShutdownOp out) = Shutdown s out"

definition session_step :: "GameSession \<Rightarrow> SessionOp \<Rightarrow> GameSession" where
  "session_step s x = snd (session_call s x)"


section \<open>The native protocol\<close>

text \<open>
  The abstract specification of the coordinator towards the guest: the order in which the native
  entry points may be called. A failed callback ends the session but for the shutdown.
\<close>

datatype native_phase = NIdle | NRunning | NPaused | NLeft | NFailed | NDown

fun native_step :: "native_phase \<Rightarrow> NativeCall \<times> bool \<Rightarrow> native_phase option" where
  "native_step NIdle (NcSetGameForeground, ok) = Some (if ok then NIdle else NFailed)"
| "native_step NIdle (NcStartGame p r f, ok) = Some (if ok then NRunning else NFailed)"
| "native_step NRunning (NcUpdateSurface f, ok) = Some (if ok then NRunning else NFailed)"
| "native_step NRunning (NcPauseGame, ok) = Some (if ok then NPaused else NFailed)"
| "native_step NRunning (NcLeaveGame, ok) = Some (if ok then NLeft else NFailed)"
| "native_step NPaused (NcSetGameForeground, ok) = Some (if ok then NPaused else NFailed)"
| "native_step NPaused (NcResumeGame f, ok) = Some (if ok then NRunning else NFailed)"
| "native_step NPaused (NcLeaveGame, ok) = Some (if ok then NLeft else NFailed)"
| "native_step ph (NcShutdownRuntime, ok) = (if ph = NDown then None else Some NDown)"
| "native_step _ _ = None"

fun native_run :: "native_phase \<Rightarrow> (NativeCall \<times> bool) list \<Rightarrow> native_phase option" where
  "native_run ph [] = Some ph"
| "native_run ph (c # cs) = (case native_step ph c of None \<Rightarrow> None | Some ph' \<Rightarrow> native_run ph' cs)"

text \<open>What every single call must satisfy: a non-null callback and valid arguments.\<close>

fun admissible_call :: "GameSessionCapabilities \<Rightarrow> NativeCall \<Rightarrow> bool" where
  "admissible_call c NcSetGameForeground = cap_set_game_foreground c"
| "admissible_call c (NcStartGame p r f) =
     (cap_start_game c \<and> ValidPrincipal p \<and> ValidRequest r \<and> ValidSurface f \<and>
      (gr_place_id r \<noteq> 0 \<longrightarrow> gp_kind p = kAuthenticated))"
| "admissible_call c (NcUpdateSurface f) = (cap_update_surface c \<and> ValidSurface f)"
| "admissible_call c NcPauseGame = cap_pause_game c"
| "admissible_call c (NcResumeGame f) = (cap_resume_game c \<and> ValidSurface f)"
| "admissible_call c NcLeaveGame = cap_leave_game c"
| "admissible_call c NcShutdownRuntime = cap_shutdown_runtime c"

abbreviation calls_phase :: "GameSession \<Rightarrow> native_phase option" where
  "calls_phase s \<equiv> native_run NIdle (gs_calls s)"

section \<open>Invariants\<close>

text \<open>What holds of the fields in every state, also while a callback is in flight.\<close>

definition core_inv :: "GameSession \<Rightarrow> bool" where
  "core_inv s \<longleftrightarrow>
     (gs_principal_ready s \<longrightarrow> caps_complete (gs_capabilities s) \<and> ValidPrincipal (gs_principal s)) \<and>
     (gs_join_request_queued s \<longrightarrow> gs_principal_ready s \<and> ValidRequest (gs_request s) \<and>
        (gr_place_id (gs_request s) \<noteq> 0 \<longrightarrow> gp_kind (gs_principal s) = kAuthenticated)) \<and>
     (gs_surface_created s \<longleftrightarrow> gs_prepared_surface_generation s \<noteq> 0) \<and>
     (gs_surface_created s \<longrightarrow> gs_principal_ready s) \<and>
     (gs_pending_surface_available s \<longrightarrow> gs_surface_created s \<and> ValidSurface (gs_pending_surface s) \<and>
        gf_generation (gs_pending_surface s) = gs_prepared_surface_generation s) \<and>
     (gs_initial_start_completed s \<longrightarrow>
        gs_principal_ready s \<and> gs_join_request_queued s \<and> ValidSurface (gs_active_surface s)) \<and>
     (gs_initial_start_completed s \<or>
        gf_generation (gs_active_surface s) = 0 \<and> \<not> gs_active_surface_available s \<and>
        \<not> gs_game_presented s \<and> \<not> gs_game_paused s \<and> \<not> gs_returned_to_lua_app s) \<and>
     (gs_game_presented s \<longleftrightarrow> gs_first_presented_frame s \<noteq> 0) \<and>
     (gs_pending_present s \<longrightarrow> ge_frame_serial (gs_pending_present_evidence s) \<noteq> 0) \<and>
     (\<forall>c \<in> set (gs_calls s). admissible_call (gs_capabilities s) (fst c))"

text \<open>What the state says between two calls.\<close>

definition state_inv :: "GameSession \<Rightarrow> bool" where
  "state_inv s \<longleftrightarrow> \<not> gs_pending_present s \<and>
     (case gs_state s of
        GsCreated \<Rightarrow> \<not> gs_principal_ready s \<and> \<not> gs_shutdown_attempted s \<and> calls_phase s = Some NIdle
      | GsRunning \<Rightarrow> gs_initial_start_completed s \<and> gs_active_surface_available s \<and>
          gs_surface_created s \<and>
          gs_prepared_surface_generation s = gf_generation (gs_active_surface s) \<and>
          \<not> gs_game_paused s \<and> \<not> gs_pending_surface_available s \<and> \<not> gs_returned_to_lua_app s \<and>
          \<not> gs_shutdown_attempted s \<and> calls_phase s = Some NRunning
      | GsPaused \<Rightarrow> gs_initial_start_completed s \<and> \<not> gs_active_surface_available s \<and>
          gs_game_paused s \<and> \<not> gs_pending_surface_available s \<and> \<not> gs_returned_to_lua_app s \<and>
          \<not> gs_shutdown_attempted s \<and> calls_phase s = Some NPaused
      | GsReturnedToLuaApp \<Rightarrow> gs_returned_to_lua_app s \<and> \<not> gs_active_surface_available s \<and>
          \<not> gs_surface_created s \<and> \<not> gs_pending_surface_available s \<and>
          \<not> gs_shutdown_attempted s \<and> calls_phase s = Some NLeft
      | GsFailure \<Rightarrow>
          (if gs_shutdown_attempted s then calls_phase s = Some NDown
           else calls_phase s \<noteq> Some NDown \<and> calls_phase s \<noteq> None)
      | GsStopped \<Rightarrow> gs_shutdown_attempted s \<and> \<not> gs_active_surface_available s \<and>
          \<not> gs_surface_created s \<and> \<not> gs_pending_surface_available s \<and> calls_phase s = Some NDown
      | st \<Rightarrow> st \<in> {GsPrincipalReady, GsJoinRequestQueued, GsSurfaceCreated, GsSurfaceAvailable} \<and>
          st = PreStartStateLocked s \<and> gs_principal_ready s \<and> \<not> gs_initial_start_completed s \<and>
          \<not> (gs_pending_surface_available s \<and> gs_join_request_queued s) \<and>
          \<not> gs_shutdown_attempted s \<and> calls_phase s = Some NIdle)"

definition session_inv :: "GameSession \<Rightarrow> bool" where
  "session_inv s \<longleftrightarrow> core_inv s \<and> state_inv s"

section \<open>Lemmas on the callback window\<close>

lemma native_run_append:
  "native_run ph (xs @ ys) = (case native_run ph xs of None \<Rightarrow> None | Some ph' \<Rightarrow> native_run ph' ys)"
  by (induction xs arbitrary: ph) (simp_all split: option.splits)

lemma native_shutdown_step [simp]:
  "native_step ph (NcShutdownRuntime, ok) = (if ph = NDown then None else Some NDown)"
  by (cases ph) simp_all

lemmas locked_defs = RejectLocked_def DuplicateLocked_def ApplyLocked_def FailLocked_def
  RejectTerminalLocked_def enter_def Let_def

text \<open>Recording evidence touches the present fields and the revision only.\<close>

lemma record_present_cases:
  "snd (RecordGamePresent s e) = s \<or>
   snd (RecordGamePresent s e) = s\<lparr>gs_pending_present := True, gs_pending_present_evidence := e,
      gs_revision := gs_revision s + 1\<rparr> \<or>
   snd (RecordGamePresent s e) = s\<lparr>gs_game_presented := True,
      gs_first_presented_frame := ge_frame_serial e, gs_revision := gs_revision s + 1\<rparr>"
  unfolding RecordGamePresent_def RejectLocked_def DuplicateLocked_def Let_def case_prod_beta
  by simp

lemma record_present_fields [step_simps, simp]:
  fixes s :: GameSession and e :: GamePresentEvidence
  defines "s' \<equiv> snd (RecordGamePresent s e)"
  shows "gs_capabilities s' = gs_capabilities s"
  "gs_required_present_backend s' = gs_required_present_backend s"
  "gs_state s' = gs_state s"
  "gs_principal_ready s' = gs_principal_ready s"
  "gs_join_request_queued s' = gs_join_request_queued s"
  "gs_surface_created s' = gs_surface_created s"
  "gs_pending_surface_available s' = gs_pending_surface_available s"
  "gs_active_surface_available s' = gs_active_surface_available s"
  "gs_initial_start_completed s' = gs_initial_start_completed s"
  "gs_game_paused s' = gs_game_paused s"
  "gs_returned_to_lua_app s' = gs_returned_to_lua_app s"
  "gs_shutdown_attempted s' = gs_shutdown_attempted s"
  "gs_prepared_surface_generation s' = gs_prepared_surface_generation s"
  "gs_last_destroyed_surface_generation s' = gs_last_destroyed_surface_generation s"
  "gs_principal s' = gs_principal s"
  "gs_request s' = gs_request s"
  "gs_pending_surface s' = gs_pending_surface s"
  "gs_active_surface s' = gs_active_surface s"
  "gs_failure_reason s' = gs_failure_reason s"
  "gs_calls s' = gs_calls s"
  using record_present_cases [of s e] by (auto simp: s'_def)

lemma record_presents_fields [step_simps, simp]:
  "gs_capabilities (record_presents s es) = gs_capabilities s"
  "gs_state (record_presents s es) = gs_state s"
  "gs_principal_ready (record_presents s es) = gs_principal_ready s"
  "gs_join_request_queued (record_presents s es) = gs_join_request_queued s"
  "gs_surface_created (record_presents s es) = gs_surface_created s"
  "gs_pending_surface_available (record_presents s es) = gs_pending_surface_available s"
  "gs_active_surface_available (record_presents s es) = gs_active_surface_available s"
  "gs_initial_start_completed (record_presents s es) = gs_initial_start_completed s"
  "gs_game_paused (record_presents s es) = gs_game_paused s"
  "gs_returned_to_lua_app (record_presents s es) = gs_returned_to_lua_app s"
  "gs_shutdown_attempted (record_presents s es) = gs_shutdown_attempted s"
  "gs_prepared_surface_generation (record_presents s es) = gs_prepared_surface_generation s"
  "gs_last_destroyed_surface_generation (record_presents s es) =
     gs_last_destroyed_surface_generation s"
  "gs_principal (record_presents s es) = gs_principal s"
  "gs_request (record_presents s es) = gs_request s"
  "gs_pending_surface (record_presents s es) = gs_pending_surface s"
  "gs_active_surface (record_presents s es) = gs_active_surface s"
  "gs_failure_reason (record_presents s es) = gs_failure_reason s"
  "gs_calls (record_presents s es) = gs_calls s"
  "gs_required_present_backend (record_presents s es) = gs_required_present_backend s"
  by (induction es arbitrary: s) simp_all

definition may_defer :: "GameSession \<Rightarrow> bool" where
  "may_defer s \<longleftrightarrow> gs_state s \<in> {GsStarting, GsResuming, GsUpdatingSurface}"

text \<open>The two ways evidence is taken, and what the code has checked then.\<close>

lemma record_present_effect:
  assumes "snd (RecordGamePresent s e) \<noteq> s"
  shows "ge_frame_serial e \<noteq> 0 \<and> \<not> gs_game_presented s \<and>
    (may_defer s \<or> gf_generation (gs_active_surface s) \<noteq> 0 \<and>
      gs_pending_present (snd (RecordGamePresent s e)) = gs_pending_present s) \<and>
    (gf_generation (gs_active_surface s) \<noteq> 0 \<or>
      gs_game_presented (snd (RecordGamePresent s e)) = gs_game_presented s)"
proof (cases "IsPresentShapeValidLocked s e")
  case False
  then show ?thesis using assms by (simp add: RecordGamePresent_def RejectLocked_def)
next
  case True
  then have "ge_frame_serial e \<noteq> 0" by (simp add: IsPresentShapeValidLocked_def)
  then show ?thesis
    using True assms
    by (cases "gs_state s")
       (simp_all add: RecordGamePresent_def RejectLocked_def DuplicateLocked_def may_defer_def
          split: if_splits)
qed

lemma record_present_core:
  assumes "core_inv s"
  shows "core_inv (snd (RecordGamePresent s e))"
proof (cases "snd (RecordGamePresent s e) = s")
  case True
  then show ?thesis using assms by simp
next
  case False
  note eff = record_present_effect [OF False]
  from record_present_cases [of s e] show ?thesis
  proof (elim disjE)
  qed (use False eff assms in \<open>auto simp: core_inv_def\<close>)
qed

lemma record_presents_core: "core_inv s \<Longrightarrow> core_inv (record_presents s es)"
  by (induction es arbitrary: s) (simp_all add: record_present_core)

lemma record_present_keeps_pending:
  "\<not> may_defer s \<Longrightarrow> gs_pending_present (snd (RecordGamePresent s e)) = gs_pending_present s"
  using record_present_effect [of s e] by (cases "snd (RecordGamePresent s e) = s") auto

lemma record_presents_keeps_pending:
  "\<not> may_defer s \<Longrightarrow> gs_pending_present (record_presents s es) = gs_pending_present s"
proof (induction es arbitrary: s)
  case (Cons e es)
  then have "\<not> may_defer (snd (RecordGamePresent s e))" by (simp add: may_defer_def)
  from Cons.IH [OF this] Cons.prems show ?case by (simp add: record_present_keeps_pending)
qed simp

section \<open>Every operation keeps the invariant\<close>

lemma locked_results [simp]:
  "snd (RejectLocked s c m) = s"
  "snd (DuplicateLocked s m) = s"
  "snd (RejectTerminalLocked s op) = s"
  "snd (ApplyLocked s st m) = enter st s"
  by (simp_all add: RejectTerminalLocked_def RejectLocked_def DuplicateLocked_def ApplyLocked_def
      Let_def)

lemma enter_fields [step_simps, simp]:
  "gs_state (enter st s) = st"
  "gs_capabilities (enter st s) = gs_capabilities s"
  "gs_required_present_backend (enter st s) = gs_required_present_backend s"
  "gs_principal_ready (enter st s) = gs_principal_ready s"
  "gs_join_request_queued (enter st s) = gs_join_request_queued s"
  "gs_surface_created (enter st s) = gs_surface_created s"
  "gs_pending_surface_available (enter st s) = gs_pending_surface_available s"
  "gs_active_surface_available (enter st s) = gs_active_surface_available s"
  "gs_initial_start_completed (enter st s) = gs_initial_start_completed s"
  "gs_game_paused (enter st s) = gs_game_paused s"
  "gs_pending_present (enter st s) = gs_pending_present s"
  "gs_game_presented (enter st s) = gs_game_presented s"
  "gs_returned_to_lua_app (enter st s) = gs_returned_to_lua_app s"
  "gs_shutdown_attempted (enter st s) = gs_shutdown_attempted s"
  "gs_prepared_surface_generation (enter st s) = gs_prepared_surface_generation s"
  "gs_last_destroyed_surface_generation (enter st s) = gs_last_destroyed_surface_generation s"
  "gs_principal (enter st s) = gs_principal s"
  "gs_request (enter st s) = gs_request s"
  "gs_pending_surface (enter st s) = gs_pending_surface s"
  "gs_active_surface (enter st s) = gs_active_surface s"
  "gs_pending_present_evidence (enter st s) = gs_pending_present_evidence s"
  "gs_first_presented_frame (enter st s) = gs_first_presented_frame s"
  "gs_failure_reason (enter st s) = gs_failure_reason s"
  "gs_calls (enter st s) = gs_calls s"
  by (simp_all add: enter_def)

lemma native_call_core:
  "core_inv s \<Longrightarrow> admissible_call (gs_capabilities s) c \<Longrightarrow> core_inv (native_call s c out)"
  unfolding native_call_def by (intro record_presents_core) (auto simp: core_inv_def)

lemma native_call_fields [step_simps, simp]:
  "gs_capabilities (native_call s c out) = gs_capabilities s"
  "gs_state (native_call s c out) = gs_state s"
  "gs_principal_ready (native_call s c out) = gs_principal_ready s"
  "gs_join_request_queued (native_call s c out) = gs_join_request_queued s"
  "gs_surface_created (native_call s c out) = gs_surface_created s"
  "gs_pending_surface_available (native_call s c out) = gs_pending_surface_available s"
  "gs_active_surface_available (native_call s c out) = gs_active_surface_available s"
  "gs_initial_start_completed (native_call s c out) = gs_initial_start_completed s"
  "gs_game_paused (native_call s c out) = gs_game_paused s"
  "gs_returned_to_lua_app (native_call s c out) = gs_returned_to_lua_app s"
  "gs_shutdown_attempted (native_call s c out) = gs_shutdown_attempted s"
  "gs_prepared_surface_generation (native_call s c out) = gs_prepared_surface_generation s"
  "gs_last_destroyed_surface_generation (native_call s c out) =
     gs_last_destroyed_surface_generation s"
  "gs_principal (native_call s c out) = gs_principal s"
  "gs_request (native_call s c out) = gs_request s"
  "gs_pending_surface (native_call s c out) = gs_pending_surface s"
  "gs_active_surface (native_call s c out) = gs_active_surface s"
  "gs_calls (native_call s c out) = gs_calls s @ [(c, status_ok (no_status out))]"
  by (simp_all add: native_call_def)

lemma native_call_keeps_pending [simp]:
  "\<not> may_defer s \<Longrightarrow> gs_pending_present (native_call s c out) = gs_pending_present s"
  unfolding native_call_def by (subst record_presents_keeps_pending) (simp_all add: may_defer_def)

text \<open>When a failure may be entered: the fields are consistent and no evidence is pending.\<close>

definition fail_ok :: "GameSession \<Rightarrow> bool" where
  "fail_ok s \<longleftrightarrow> core_inv s \<and> \<not> gs_pending_present s \<and>
     (if gs_shutdown_attempted s then calls_phase s = Some NDown
      else calls_phase s \<noteq> Some NDown \<and> calls_phase s \<noteq> None)"

lemma fail_inv:
  "fail_ok s \<Longrightarrow> session_inv (snd (FailLocked s c m))"
  by (auto simp: fail_ok_def FailLocked_def Let_def session_inv_def state_inv_def core_inv_def enter_def)

lemma stable_fail_ok: "session_inv s \<Longrightarrow> fail_ok s"
  by (cases "gs_state s") (simp_all add: fail_ok_def session_inv_def state_inv_def)

lemmas stable_fail = fail_inv [OF stable_fail_ok]

lemma set_principal_inv [inv_preserved]:
  assumes inv: "session_inv s"
  shows "session_inv (snd (SetPrincipal s p))"
proof -
  have "session_inv (enter GsPrincipalReady (s\<lparr>gs_principal := p, gs_principal_ready := True\<rparr>))"
    if "gs_state s = GsCreated" "caps_complete (gs_capabilities s)" "ValidPrincipal p"
    using inv that
    by (auto simp: session_inv_def state_inv_def core_inv_def enter_def PreStartStateLocked_def)
  then show ?thesis
    using inv stable_fail [OF inv] by (simp add: SetPrincipal_def)
qed

text \<open>What the callers of \<open>StartIfReadyLocked\<close> have established.\<close>

definition start_ready :: "GameSession \<Rightarrow> bool" where
  "start_ready s \<longleftrightarrow> core_inv s \<and> gs_join_request_queued s \<and>
     gs_pending_surface_available s \<and> \<not> gs_initial_start_completed s \<and>
     \<not> gs_shutdown_attempted s \<and> calls_phase s = Some NIdle"

lemma discard_pending_core:
  "core_inv s \<Longrightarrow> core_inv (DiscardPendingPresentLocked (DiscardPendingSurfaceLocked s))"
  by (auto simp: core_inv_def DiscardPendingPresentLocked_def DiscardPendingSurfaceLocked_def)

lemma enter_core: "core_inv (enter st s) \<longleftrightarrow> core_inv s"
  by (auto simp: core_inv_def enter_def)

lemma discard_present_core: "core_inv s \<Longrightarrow> core_inv (DiscardPendingPresentLocked s)"
  by (auto simp: core_inv_def DiscardPendingPresentLocked_def)

lemma promote_commit_core:
  assumes "core_inv s" "gs_pending_surface_available s" "gs_join_request_queued s"
  shows "core_inv (CommitPendingPresentLocked ((PromotePendingSurfaceLocked s)
     \<lparr>gs_initial_start_completed := True, gs_game_paused := b\<rparr>))"
  using assms
  by (auto simp: core_inv_def CommitPendingPresentLocked_def PromotePendingSurfaceLocked_def
      DiscardPendingPresentLocked_def DiscardPendingSurfaceLocked_def)

text \<open>
  The three callbacks that hand a pending surface to the guest (start, resume, update) end the
  same way: promote and commit, or discard and fail.
\<close>

definition handover_ok :: "GameSession \<Rightarrow> NativeCall \<Rightarrow> bool" where
  "handover_ok s c \<longleftrightarrow> core_inv s \<and> gs_pending_surface_available s \<and> gs_join_request_queued s \<and>
     admissible_call (gs_capabilities s) c \<and> \<not> gs_shutdown_attempted s \<and>
     \<not> gs_returned_to_lua_app s \<and>
     (\<exists>ph. calls_phase s = Some ph \<and> native_step ph (c, True) = Some NRunning \<and>
           native_step ph (c, False) = Some NFailed)"

lemma handover_success:
  assumes ok: "handover_ok s c" and st: "status_ok (no_status out)"
  shows "session_inv (enter GsRunning (CommitPendingPresentLocked
     ((PromotePendingSurfaceLocked (native_call s c out))
        \<lparr>gs_initial_start_completed := True, gs_game_paused := False\<rparr>)))"
proof -
  let ?t = "native_call s c out"
  have core: "core_inv ?t" using ok by (simp add: handover_ok_def native_call_core)
  have "core_inv (CommitPendingPresentLocked ((PromotePendingSurfaceLocked ?t)
     \<lparr>gs_initial_start_completed := True, gs_game_paused := False\<rparr>))"
    using ok by (intro promote_commit_core core) (simp_all add: handover_ok_def)
  moreover have "calls_phase ?t = Some NRunning"
    using ok st by (auto simp: handover_ok_def native_run_append)
  moreover have "gs_surface_created ?t" "gf_generation (gs_pending_surface ?t) = gs_prepared_surface_generation ?t"
    using ok by (auto simp: handover_ok_def core_inv_def)
  ultimately show ?thesis
    using ok unfolding session_inv_def enter_core
    by (simp add: state_inv_def enter_def handover_ok_def CommitPendingPresentLocked_def
        PromotePendingSurfaceLocked_def DiscardPendingPresentLocked_def DiscardPendingSurfaceLocked_def)
qed

lemma handover_failure:
  assumes ok: "handover_ok s c" and st: "\<not> status_ok (no_status out)"
  shows "session_inv (snd (FailLocked (DiscardPendingPresentLocked (DiscardPendingSurfaceLocked
     (native_call s c out))) cause m))"
proof (rule fail_inv)
  let ?t = "native_call s c out"
  have "core_inv (DiscardPendingPresentLocked (DiscardPendingSurfaceLocked ?t))"
    using ok by (intro discard_pending_core native_call_core) (simp_all add: handover_ok_def)
  then show "fail_ok (DiscardPendingPresentLocked (DiscardPendingSurfaceLocked ?t))"
    using ok st unfolding fail_ok_def
    by (auto simp: handover_ok_def native_run_append DiscardPendingPresentLocked_def
        DiscardPendingSurfaceLocked_def)
qed

lemma start_inv:
  assumes r: "start_ready s"
  shows "session_inv (snd (StartIfReadyLocked s m out))"
proof -
  let ?s1 = "DiscardPendingPresentLocked (enter GsStarting s)"
  let ?c = "NcStartGame (gs_principal s) (gs_request s) (gs_pending_surface s)"
  have f: "gs_principal ?s1 = gs_principal s" "gs_request ?s1 = gs_request s"
      "gs_pending_surface ?s1 = gs_pending_surface s"
    by (simp_all add: DiscardPendingPresentLocked_def enter_def)
  have core: "core_inv ?s1"
    using r by (intro discard_present_core) (simp add: enter_core start_ready_def)
  have "handover_ok ?s1 ?c"
    using r core unfolding handover_ok_def
    by (auto simp: start_ready_def core_inv_def caps_complete_def enter_def DiscardPendingPresentLocked_def)
  note h = handover_success [OF this] handover_failure [OF this]
  have pre: "gs_principal_ready s" "gs_surface_created s"
    using r by (auto simp: start_ready_def core_inv_def)
  show ?thesis
    using r pre h unfolding StartIfReadyLocked_def Let_def f
    by (simp add: start_ready_def)
qed

lemma pre_start_phase:
  assumes "session_inv s" "\<not> gs_initial_start_completed s" "\<not> IsForwardTerminalLocked s"
  shows "calls_phase s = Some NIdle \<and> \<not> gs_shutdown_attempted s \<and> \<not> gs_pending_present s \<and>
    (gs_principal_ready s \<longrightarrow> gs_state s = PreStartStateLocked s \<and>
       \<not> (gs_pending_surface_available s \<and> gs_join_request_queued s))"
  using assms
  by (cases "gs_state s") (auto simp: session_inv_def state_inv_def IsForwardTerminalLocked_def)

lemma queue_join_inv [inv_preserved]:
  assumes inv: "session_inv s"
  shows "session_inv (snd (QueueJoinRequest s r out))"
proof -
  let ?s1 = "s\<lparr>gs_request := r, gs_join_request_queued := True\<rparr>"
  have A: "session_inv (if \<not> gs_pending_surface_available ?s1
       then enter GsJoinRequestQueued ?s1 else snd (StartIfReadyLocked ?s1 m out))"
    if c: "\<not> gs_join_request_queued s" "\<not> IsForwardTerminalLocked s" "gs_principal_ready s"
      "ValidRequest r" "gr_place_id r \<noteq> 0 \<longrightarrow> gp_kind (gs_principal s) = kAuthenticated" for m
  proof -
    have core: "core_inv ?s1" using inv c by (auto simp: session_inv_def core_inv_def)
    have ns: "\<not> gs_initial_start_completed s" using inv c by (auto simp: session_inv_def core_inv_def)
    note ph = pre_start_phase [OF inv ns c(2)]
    show ?thesis
    proof (cases "gs_pending_surface_available s")
      case True
      then have "start_ready ?s1" using core ph ns c by (simp add: start_ready_def)
      then show ?thesis using True start_inv by simp
    next
      case False
      have "state_inv (enter GsJoinRequestQueued ?s1)"
        using False ph ns c by (simp add: state_inv_def enter_def PreStartStateLocked_def)
      then show ?thesis using core False by (simp add: session_inv_def enter_core)
    qed
  qed
  show ?thesis
    using inv stable_fail [OF inv] A by (auto simp: QueueJoinRequest_def Let_def split: if_splits)
qed

text \<open>Foregrounding: the callback of \<open>SurfaceCreated\<close>.\<close>

lemma surface_created_inv [inv_preserved]:
  assumes inv: "session_inv s"
  shows "session_inv (snd (SurfaceCreated s g out))"
proof -
  let ?s1 = "native_call (enter GsPreparingSurface s) NcSetGameForeground out"
  let ?s2 = "?s1\<lparr>gs_surface_created := True, gs_prepared_surface_generation := g\<rparr>"
  have A: "session_inv (if \<not> status_ok (no_status out) then snd (FailLocked ?s1 cause m)
       else enter (if gs_initial_start_completed ?s2 then GsPaused else PreStartStateLocked ?s2) ?s2)"
    if c: "\<not> IsForwardTerminalLocked s" "gs_principal_ready s" "g \<noteq> 0"
      "gs_initial_start_completed s \<longrightarrow> gs_state s = GsPaused"
      "\<not> gs_initial_start_completed s \<longrightarrow> \<not> gs_surface_created s" for cause m
  proof -
    have "caps_complete (gs_capabilities s)" using inv c by (simp add: session_inv_def core_inv_def)
    then have core: "core_inv ?s1"
      using inv by (intro native_call_core) (simp_all add: enter_core session_inv_def caps_complete_def)
    have nopend: "\<not> gs_pending_present ?s1"
      using inv by (simp add: may_defer_def session_inv_def state_inv_def)
    have paused: "\<not> gs_pending_surface_available s \<and> \<not> gs_active_surface_available s \<and> gs_game_paused s \<and>
        \<not> gs_returned_to_lua_app s \<and> \<not> gs_shutdown_attempted s \<and> calls_phase s = Some NPaused"
      if "gs_initial_start_completed s"
      using inv c that by (simp add: session_inv_def state_inv_def)
    have nopsurf: "\<not> gs_pending_surface_available s"
      using inv c paused by (auto simp: session_inv_def core_inv_def)
    have core2: "core_inv ?s2"
      using core nopsurf c by (auto simp: core_inv_def)
    show ?thesis
    proof (cases "gs_initial_start_completed s")
      case True
      note p = paused [OF True]
      have "fail_ok ?s1" if "\<not> status_ok (no_status out)"
        using core nopend p that by (simp add: fail_ok_def native_run_append)
      moreover have "state_inv (enter GsPaused ?s2)" if "status_ok (no_status out)"
        using True nopend p that by (simp add: state_inv_def native_run_append)
      ultimately show ?thesis
        using True core2 fail_inv [of ?s1] by (auto simp: session_inv_def enter_core)
    next
      case False
      note p = pre_start_phase [OF inv False c(1)]
      have "fail_ok ?s1" if "\<not> status_ok (no_status out)"
        using core nopend p that by (simp add: fail_ok_def native_run_append)
      moreover have "state_inv (enter (PreStartStateLocked ?s2) ?s2)" if "status_ok (no_status out)"
        using False nopend p nopsurf c that
        by (simp add: state_inv_def native_run_append PreStartStateLocked_def)
      ultimately show ?thesis
        using False core2 fail_inv [of ?s1] by (auto simp: session_inv_def enter_core)
    qed
  qed
  show ?thesis
    using inv stable_fail [OF inv] A by (auto simp: SurfaceCreated_def Let_def split: if_splits)
qed

text \<open>A changed surface the coordinator has accepted, before it is handed over.\<close>

definition offer :: "GameSession \<Rightarrow> GameSurface \<Rightarrow> GameSession" where
  "offer s f = s\<lparr>gs_pending_surface := f, gs_pending_surface_available := True\<rparr>"

definition offered :: "GameSession \<Rightarrow> GameSurface \<Rightarrow> bool" where
  "offered s f \<longleftrightarrow> session_inv s \<and> ValidSurface f \<and> gs_surface_created s \<and>
     gf_generation f = gs_prepared_surface_generation s"

lemma offer_core: "offered s f \<Longrightarrow> core_inv (offer s f)"
  by (auto simp: offered_def offer_def session_inv_def core_inv_def)

lemma offer_start_inv:
  assumes off: "offered s f" and c: "\<not> IsForwardTerminalLocked s" "\<not> gs_initial_start_completed s"
  shows "\<not> gs_join_request_queued s \<Longrightarrow> session_inv (enter GsSurfaceAvailable (offer s f))"
    and "gs_join_request_queued s \<Longrightarrow> session_inv (snd (StartIfReadyLocked (offer s f) m out))"
proof -
  have inv: "session_inv s" using off by (simp add: offered_def)
  note ph = pre_start_phase [OF inv c(2,1)]
  have pr: "gs_principal_ready s" using off by (auto simp: offered_def session_inv_def core_inv_def)
  show "session_inv (enter GsSurfaceAvailable (offer s f))" if "\<not> gs_join_request_queued s"
    using offer_core [OF off] ph pr c that
    by (simp add: session_inv_def enter_core state_inv_def PreStartStateLocked_def offer_def)
  show "session_inv (snd (StartIfReadyLocked (offer s f) m out))" if "gs_join_request_queued s"
    using offer_core [OF off] ph c that by (intro start_inv) (simp add: start_ready_def offer_def)
qed

lemma offer_handover:
  assumes off: "offered s f" and st: "gs_initial_start_completed s"
    and c: "(gs_state s, c) = (GsPaused, NcResumeGame f) \<or> (gs_state s, c) = (GsRunning, NcUpdateSurface f)"
  shows "handover_ok (enter st' (DiscardPendingPresentLocked (offer s f))) c"
proof -
  have "core_inv (enter st' (DiscardPendingPresentLocked (offer s f)))"
    using offer_core [OF off] by (simp add: enter_core discard_present_core)
  moreover have "caps_complete (gs_capabilities s)" "gs_join_request_queued s"
    using off st by (auto simp: offered_def session_inv_def core_inv_def)
  ultimately show ?thesis
    using off c by (auto simp: handover_ok_def offered_def session_inv_def state_inv_def offer_def
        DiscardPendingPresentLocked_def caps_complete_def)
qed

lemma promote_started [simp]:
  "gs_initial_start_completed k \<Longrightarrow>
     (PromotePendingSurfaceLocked k)\<lparr>gs_initial_start_completed := True, gs_game_paused := b\<rparr>
      = (PromotePendingSurfaceLocked k)\<lparr>gs_game_paused := b\<rparr>"
  "\<not> gs_game_paused k \<Longrightarrow>
     (PromotePendingSurfaceLocked k)\<lparr>gs_game_paused := False\<rparr> = PromotePendingSurfaceLocked k"
  by (cases k; simp add: PromotePendingSurfaceLocked_def DiscardPendingSurfaceLocked_def)+

lemma resume_or_update_inv:
  fixes out :: NativeOutcome
  assumes off: "offered s f" and st: "gs_initial_start_completed s"
  defines "r \<equiv> \<lambda>c st'. native_call (enter st' (DiscardPendingPresentLocked (offer s f))) c out"
  shows "gs_state s = GsPaused \<Longrightarrow> status_ok (no_status out) \<Longrightarrow>
      session_inv (enter GsRunning (CommitPendingPresentLocked
        ((PromotePendingSurfaceLocked (r (NcResumeGame f) st'))\<lparr>gs_game_paused := False\<rparr>)))"
    and "gs_state s = GsRunning \<Longrightarrow> status_ok (no_status out) \<Longrightarrow>
      session_inv (enter GsRunning (CommitPendingPresentLocked
        (PromotePendingSurfaceLocked (r (NcUpdateSurface f) st'))))"
    and "(gs_state s, c) = (GsPaused, NcResumeGame f) \<or> (gs_state s, c) = (GsRunning, NcUpdateSurface f) \<Longrightarrow>
      \<not> status_ok (no_status out) \<Longrightarrow>
      session_inv (snd (FailLocked (DiscardPendingPresentLocked (DiscardPendingSurfaceLocked (r c st'))) cause m))"
proof -
  note h = offer_handover [OF off st]
  have started: "gs_initial_start_completed (r c st'')" for c st''
    using st by (simp add: r_def offer_def DiscardPendingPresentLocked_def)
  have unpaused: "\<not> gs_game_paused (r c st'')" if "gs_state s = GsRunning" for c st''
    using off that by (simp add: r_def offer_def DiscardPendingPresentLocked_def offered_def
        session_inv_def state_inv_def)
  show "session_inv (enter GsRunning (CommitPendingPresentLocked
        ((PromotePendingSurfaceLocked (r (NcResumeGame f) st'))\<lparr>gs_game_paused := False\<rparr>)))"
    if "gs_state s = GsPaused" "status_ok (no_status out)"
    using handover_success [OF h, of "NcResumeGame f" out st'] that
      promote_started(1) [OF started] by (simp add: r_def)
  show "session_inv (enter GsRunning (CommitPendingPresentLocked
        (PromotePendingSurfaceLocked (r (NcUpdateSurface f) st'))))"
    if "gs_state s = GsRunning" "status_ok (no_status out)"
    using handover_success [OF h, of "NcUpdateSurface f" out st'] that
      promote_started(1) [OF started] promote_started(2) [OF unpaused] by (simp add: r_def)
  show "session_inv (snd (FailLocked (DiscardPendingPresentLocked (DiscardPendingSurfaceLocked (r c st'))) cause m))"
    if "(gs_state s, c) = (GsPaused, NcResumeGame f) \<or> (gs_state s, c) = (GsRunning, NcUpdateSurface f)"
      "\<not> status_ok (no_status out)"
    using handover_failure [OF h [OF that(1)] that(2)] unfolding r_def .
qed

lemma update_surface_inv [inv_preserved]:
  assumes inv: "session_inv s"
  shows "session_inv (snd (UpdateSurface s f force out))"
proof (cases "ValidSurface f \<and> gs_surface_created s \<and> gf_generation f = gs_prepared_surface_generation s")
  case False
  then show ?thesis using inv stable_fail [OF inv] by (auto simp: UpdateSurface_def)
next
  case True
  then have off: "offered s f" using inv by (simp add: offered_def)
  show ?thesis
    using True inv stable_fail [OF inv] offer_start_inv [OF off]
      resume_or_update_inv [OF off, where out = out]
    unfolding UpdateSurface_def Let_def offer_def [symmetric]
    by (auto simp: offer_def)
qed

lemma surface_destroyed_inv [inv_preserved]:
  assumes inv: "session_inv s"
  shows "session_inv (snd (SurfaceDestroyed s g out))"
proof -
  let ?d = "DiscardPendingPresentLocked (DiscardPendingSurfaceLocked
      (s\<lparr>gs_surface_created := False, gs_prepared_surface_generation := 0,
         gs_last_destroyed_surface_generation := g\<rparr>))"
  have pre: "session_inv (enter (PreStartStateLocked ?d) ?d)"
    if c: "\<not> IsForwardTerminalLocked s" "\<not> gs_initial_start_completed s"
      "gs_surface_created s \<or> gs_pending_surface_available s"
  proof -
    note ph = pre_start_phase [OF inv c(2,1)]
    have core: "core_inv ?d" and pr: "gs_principal_ready s"
      using inv c by (auto simp: session_inv_def core_inv_def DiscardPendingPresentLocked_def
          DiscardPendingSurfaceLocked_def)
    then show ?thesis
      using ph c by (simp add: session_inv_def enter_core state_inv_def PreStartStateLocked_def
          DiscardPendingPresentLocked_def DiscardPendingSurfaceLocked_def)
  qed
  let ?p = "enter GsPausing (DiscardPendingPresentLocked (DiscardPendingSurfaceLocked
      (s\<lparr>gs_active_surface_available := False, gs_surface_created := False,
         gs_prepared_surface_generation := 0, gs_last_destroyed_surface_generation := g\<rparr>)))"
  let ?c = "native_call ?p NcPauseGame out"
  have pause: "(\<not> status_ok (no_status out) \<longrightarrow> fail_ok ?c) \<and>
      (status_ok (no_status out) \<longrightarrow> session_inv (enter GsPaused (?c\<lparr>gs_game_paused := True\<rparr>)))"
    if c: "gs_state s = GsRunning"
  proof -
    have run: "gs_initial_start_completed s" "calls_phase s = Some NRunning"
        "\<not> gs_returned_to_lua_app s" "\<not> gs_shutdown_attempted s"
      using inv c by (simp_all add: session_inv_def state_inv_def)
    have "core_inv ?p"
      using inv run by (auto simp: session_inv_def enter_core core_inv_def
          DiscardPendingPresentLocked_def DiscardPendingSurfaceLocked_def)
    moreover have "caps_complete (gs_capabilities s)" using inv run by (simp add: session_inv_def core_inv_def)
    ultimately have core: "core_inv ?c"
      by (intro native_call_core) (simp_all add: caps_complete_def DiscardPendingPresentLocked_def DiscardPendingSurfaceLocked_def)
    have np: "\<not> gs_pending_present ?c"
      by (simp add: may_defer_def DiscardPendingPresentLocked_def)
    have core2: "core_inv (?c\<lparr>gs_game_paused := True\<rparr>)"
      using core run by (auto simp: core_inv_def DiscardPendingPresentLocked_def DiscardPendingSurfaceLocked_def)
    show ?thesis
      using core core2 np run
      by (auto simp: fail_ok_def session_inv_def enter_core state_inv_def native_run_append
          DiscardPendingPresentLocked_def DiscardPendingSurfaceLocked_def)
  qed
  show ?thesis
    using inv stable_fail [OF inv] pre pause fail_inv [of ?c]
    by (auto simp: SurfaceDestroyed_def Let_def)
qed

lemma record_present_inv [inv_preserved]:
  assumes inv: "session_inv s"
  shows "session_inv (snd (RecordGamePresent s e))"
proof -
  have core: "core_inv (snd (RecordGamePresent s e))"
    using inv by (simp add: session_inv_def record_present_core)
  have "\<not> may_defer s"
    using inv by (auto simp: session_inv_def state_inv_def may_defer_def)
  then have pend: "gs_pending_present (snd (RecordGamePresent s e)) = gs_pending_present s"
    by (rule record_present_keeps_pending)
  have pre: "PreStartStateLocked (snd (RecordGamePresent s e)) = PreStartStateLocked s"
    by (simp add: PreStartStateLocked_def)
  show ?thesis
    using inv core unfolding session_inv_def state_inv_def record_present_fields pend pre
    by (elim conjE, intro conjI)
qed

lemma release_core:
  "core_inv s \<Longrightarrow> core_inv (release_surfaces s)"
  by (auto simp: release_surfaces_def core_inv_def DiscardPendingPresentLocked_def
      DiscardPendingSurfaceLocked_def)

lemma release_fields [simp]:
  "\<not> gs_pending_present (release_surfaces s)"
  "\<not> gs_active_surface_available (release_surfaces s)"
  "\<not> gs_surface_created (release_surfaces s)"
  "\<not> gs_pending_surface_available (release_surfaces s)"
  "gs_shutdown_attempted (release_surfaces s) = gs_shutdown_attempted s"
  "gs_returned_to_lua_app (release_surfaces s) = gs_returned_to_lua_app s"
  "gs_calls (release_surfaces s) = gs_calls s"
  by (simp_all add: release_surfaces_def DiscardPendingPresentLocked_def
      DiscardPendingSurfaceLocked_def)

lemma leave_inv [inv_preserved]:
  assumes inv: "session_inv s"
  shows "session_inv (snd (LeaveGame s out))"
proof -
  let ?c = "native_call (enter GsLeaving s) NcLeaveGame out"
  have leave: "(\<not> status_ok (no_status out) \<longrightarrow> fail_ok ?c) \<and> (status_ok (no_status out) \<longrightarrow>
      session_inv (enter GsReturnedToLuaApp (release_surfaces (?c\<lparr>gs_returned_to_lua_app := True\<rparr>))))"
    if c: "gs_state s = GsRunning \<or> gs_state s = GsPaused"
  proof -
    have run: "gs_initial_start_completed s" "\<not> gs_shutdown_attempted s" "\<not> gs_pending_present s"
        "calls_phase s = Some NRunning \<or> calls_phase s = Some NPaused"
      using inv c by (auto simp: session_inv_def state_inv_def)
    have "caps_complete (gs_capabilities s)" using inv run by (simp add: session_inv_def core_inv_def)
    then have core: "core_inv ?c"
      using inv by (intro native_call_core) (simp_all add: enter_core session_inv_def caps_complete_def)
    then have "core_inv (?c\<lparr>gs_returned_to_lua_app := True\<rparr>)" using run by (auto simp: core_inv_def)
    then show ?thesis
      using core run release_core
      by (auto simp: fail_ok_def session_inv_def enter_core state_inv_def native_run_append may_defer_def)
  qed
  show ?thesis
    using inv stable_fail [OF inv] leave fail_inv [of ?c] by (auto simp: LeaveGame_def Let_def)
qed

lemma shutdown_inv [inv_preserved]:
  assumes inv: "session_inv s"
  shows "session_inv (snd (Shutdown s out))"
proof -
  let ?c = "native_call (enter GsStopping (s\<lparr>gs_shutdown_attempted := True\<rparr>)) NcShutdownRuntime out"
  have stop: "fail_ok ?c \<and> session_inv (enter GsStopped (release_surfaces ?c))"
    if c: "\<not> gs_shutdown_attempted s" "cap_shutdown_runtime (gs_capabilities s)"
  proof -
    have "fail_ok s" using inv by (rule stable_fail_ok)
    then have run: "calls_phase s \<noteq> Some NDown" "calls_phase s \<noteq> None" "\<not> gs_pending_present s" "core_inv s"
      using c by (simp_all add: fail_ok_def)
    then have "core_inv (s\<lparr>gs_shutdown_attempted := True\<rparr>)" by (auto simp: core_inv_def)
    then have core: "core_inv ?c" using c by (intro native_call_core) (simp_all add: enter_core)
    then show ?thesis
      using run release_core
      by (auto simp: fail_ok_def session_inv_def enter_core state_inv_def native_run_append may_defer_def)
  qed
  show ?thesis
    using inv stable_fail [OF inv] stop fail_inv [of ?c] by (auto simp: Shutdown_def Let_def)
qed

lemma session_step_inv: "session_inv s \<Longrightarrow> session_inv (session_step s x)"
  by (cases x) (simp_all add: session_step_def inv_preserved)

interpretation session: guarded_component session_step session_inv
  by unfold_locales (rule session_step_inv)

lemma session_init_inv: "session_inv (GameSessionCoordinator_new caps backend)"
  by (simp add: session_inv_def core_inv_def state_inv_def GameSessionCoordinator_new_def
      GameSurface_default_def)

lemma locked_capabilities [simp]:
  "gs_capabilities (snd (FailLocked s c m)) = gs_capabilities s"
  "gs_capabilities (DiscardPendingSurfaceLocked s) = gs_capabilities s"
  "gs_capabilities (DiscardPendingPresentLocked s) = gs_capabilities s"
  "gs_capabilities (PromotePendingSurfaceLocked s) = gs_capabilities s"
  "gs_capabilities (CommitPendingPresentLocked s) = gs_capabilities s"
  "gs_capabilities (release_surfaces s) = gs_capabilities s"
  by (simp_all add: FailLocked_def Let_def DiscardPendingSurfaceLocked_def
      DiscardPendingPresentLocked_def PromotePendingSurfaceLocked_def CommitPendingPresentLocked_def
      release_surfaces_def)

lemma start_capabilities [simp]:
  "gs_capabilities (snd (StartIfReadyLocked s m out)) = gs_capabilities s"
  by (simp add: StartIfReadyLocked_def Let_def)

lemma session_step_capabilities: "gs_capabilities (session_step s x) = gs_capabilities s"
  by (cases x) (simp_all add: session_step_def SetPrincipal_def QueueJoinRequest_def
      SurfaceCreated_def UpdateSurface_def SurfaceDestroyed_def LeaveGame_def Shutdown_def Let_def)

lemma session_run_capabilities:
  "gs_capabilities (run_ops session_step s xs) = gs_capabilities s"
  by (induction xs arbitrary: s) (simp_all add: session_step_capabilities)

text \<open>The first presented frame is a latch.\<close>

definition latched :: "u64 \<Rightarrow> GameSession \<Rightarrow> bool" where
  "latched f s \<longleftrightarrow> gs_game_presented s \<and> gs_first_presented_frame s = f"

lemma latched_record [simp]: "latched f s \<Longrightarrow> latched f (snd (RecordGamePresent s e))"
  using record_present_effect [of s e]
  by (cases "snd (RecordGamePresent s e) = s") (auto simp: latched_def)

lemma latched_records: "latched f s \<Longrightarrow> latched f (record_presents s es)"
  by (induction es arbitrary: s) simp_all

lemma latched_call [simp]: "latched f s \<Longrightarrow> latched f (native_call s c out)"
  unfolding native_call_def by (rule latched_records) (simp add: latched_def)

lemma latched_locked [simp]:
  "latched f (enter st s) \<longleftrightarrow> latched f s"
  "latched f (snd (FailLocked s c m)) \<longleftrightarrow> latched f s"
  "latched f (DiscardPendingSurfaceLocked s) \<longleftrightarrow> latched f s"
  "latched f (DiscardPendingPresentLocked s) \<longleftrightarrow> latched f s"
  "latched f (PromotePendingSurfaceLocked s) \<longleftrightarrow> latched f s"
  "latched f s \<Longrightarrow> latched f (CommitPendingPresentLocked s)"
  "latched f (release_surfaces s) \<longleftrightarrow> latched f s"
  by (simp_all add: latched_def FailLocked_def Let_def DiscardPendingSurfaceLocked_def
      DiscardPendingPresentLocked_def PromotePendingSurfaceLocked_def CommitPendingPresentLocked_def
      release_surfaces_def)

lemma latched_updates [simp]:
  "latched f (s\<lparr>gs_initial_start_completed := b\<rparr>) \<longleftrightarrow> latched f s"
  "latched f (s\<lparr>gs_game_paused := b\<rparr>) \<longleftrightarrow> latched f s"
  "latched f (s\<lparr>gs_returned_to_lua_app := b\<rparr>) \<longleftrightarrow> latched f s"
  "latched f (s\<lparr>gs_shutdown_attempted := b\<rparr>) \<longleftrightarrow> latched f s"
  "latched f (s\<lparr>gs_principal_ready := b\<rparr>) \<longleftrightarrow> latched f s"
  "latched f (s\<lparr>gs_principal := p\<rparr>) \<longleftrightarrow> latched f s"
  "latched f (s\<lparr>gs_request := r\<rparr>) \<longleftrightarrow> latched f s"
  "latched f (s\<lparr>gs_join_request_queued := b\<rparr>) \<longleftrightarrow> latched f s"
  "latched f (s\<lparr>gs_surface_created := b\<rparr>) \<longleftrightarrow> latched f s"
  "latched f (s\<lparr>gs_active_surface_available := b\<rparr>) \<longleftrightarrow> latched f s"
  "latched f (s\<lparr>gs_prepared_surface_generation := g\<rparr>) \<longleftrightarrow> latched f s"
  "latched f (s\<lparr>gs_last_destroyed_surface_generation := g\<rparr>) \<longleftrightarrow> latched f s"
  "latched f (s\<lparr>gs_pending_surface := u\<rparr>) \<longleftrightarrow> latched f s"
  "latched f (s\<lparr>gs_pending_surface_available := b\<rparr>) \<longleftrightarrow> latched f s"
  by (simp_all add: latched_def)

lemma latched_step: "latched f s \<Longrightarrow> latched f (session_step s x)"
  by (cases x) (simp_all add: session_step_def SetPrincipal_def QueueJoinRequest_def
      StartIfReadyLocked_def SurfaceCreated_def UpdateSurface_def SurfaceDestroyed_def LeaveGame_def
      Shutdown_def Let_def)

section \<open>Properties\<close>

text \<open>
  C7. For every capability table, every required backend and every sequence of calls, with
  every outcome of the native callbacks and every present recorded while they run, the calls the
  coordinator makes follow the native protocol: a game is started once, resized, paused, resumed and
  left only in the matching phase, nothing but one shutdown follows a failed callback or a leave, and
  nothing follows the shutdown.
\<close>

theorem session_follows_native_protocol:
  "native_run NIdle (gs_calls (run_ops session_step (GameSessionCoordinator_new caps backend) xs)) \<noteq> None"
proof -
  have "session_inv (run_ops session_step (GameSessionCoordinator_new caps backend) xs)"
    by (intro session.run_invar session_init_inv)
  from stable_fail_ok [OF this] show ?thesis
    by (auto simp: fail_ok_def split: if_splits)
qed

text \<open>
  C8. Every call of every run goes through a non-null callback with valid arguments: the
  principal, the request and the surface handed to StartGame are valid, a network place is joined
  only by an authenticated principal, and every surface handed over has a window and an extent.
\<close>

theorem session_calls_admissible:
  "list_all (\<lambda>c. admissible_call caps (fst c))
     (gs_calls (run_ops session_step (GameSessionCoordinator_new caps backend) xs))"
proof -
  let ?s = "run_ops session_step (GameSessionCoordinator_new caps backend) xs"
  have "session_inv ?s" by (intro session.run_invar session_init_inv)
  then have "\<forall>c \<in> set (gs_calls ?s). admissible_call (gs_capabilities ?s) (fst c)"
    by (simp add: session_inv_def core_inv_def)
  moreover have "gs_capabilities ?s = caps"
    by (simp add: session_run_capabilities GameSessionCoordinator_new_def)
  ultimately show ?thesis by (simp add: list_all_iff)
qed

text \<open>
  The first presented frame is a latch: once a run has recorded a game present, the frame
  serial is nonzero, the game has been started, and no later call, callback outcome or present
  changes the serial.
\<close>

theorem session_first_frame_latched:
  assumes s: "s = run_ops session_step (GameSessionCoordinator_new caps backend) xs"
    and p: "gs_game_presented s"
  shows "gs_first_presented_frame s \<noteq> 0 \<and> gs_initial_start_completed s \<and>
    gs_game_presented (run_ops session_step s ys) \<and>
    gs_first_presented_frame (run_ops session_step s ys) = gs_first_presented_frame s"
proof -
  have inv: "session_inv s" unfolding s by (intro session.run_invar session_init_inv)
  have "latched (gs_first_presented_frame s) (run_ops session_step s ys)"
    by (rule session.run_stable [OF inv]) (use p in \<open>simp_all add: latched_def [of _ s] latched_step\<close>)
  then show ?thesis
    using inv p by (auto simp: latched_def session_inv_def core_inv_def)
qed

text \<open>A complete session, for the concrete instances below.\<close>

definition sample_caps :: GameSessionCapabilities where
  "sample_caps = \<lparr>cap_set_game_foreground = True, cap_start_game = True, cap_update_surface = True,
     cap_pause_game = True, cap_resume_game = True, cap_leave_game = True, cap_shutdown_runtime = True\<rparr>"

definition sample_ok :: NativeOutcome where
  "sample_ok = \<lparr>no_status = Status_Ok, no_presents = []\<rparr>"

definition sample_surface :: "u64 \<Rightarrow> GameSurface" where
  "sample_surface g = \<lparr>gf_generation = g, gf_native_window = 7, gf_width = 800, gf_height = 600,
     gf_dpi_scale = FNum 1\<rparr>"

definition sample_present :: "u64 \<Rightarrow> u64 \<Rightarrow> GamePresentEvidence" where
  "sample_present g n = \<lparr>ge_surface_generation = g, ge_frame_serial = n, ge_backend = kBackendVulkan,
     ge_present_succeeded = True\<rparr>"

definition sample_start :: "SessionOp list" where
  "sample_start =
    [SetPrincipalOp \<lparr>gp_kind = kAuthenticated, gp_generation = 1, gp_principal_id = ''7'',
       gp_base_url = ''u''\<rparr>,
     SurfaceCreatedOp 1 sample_ok,
     UpdateSurfaceOp (sample_surface 1) False sample_ok,
     QueueJoinRequestOp \<lparr>gr_request_id = 1, gr_place_id = 5, gr_launch_parameters = ''p''\<rparr>
       (sample_ok\<lparr>no_presents := [sample_present 1 3]\<rparr>)]"

theorem session_first_frame_latched_witness:
  "let s = run_ops session_step (GameSessionCoordinator_new sample_caps kBackendVulkan) sample_start
   in gs_game_presented s \<and> gs_first_presented_frame s = 3 \<and>
      gs_first_presented_frame (run_ops session_step s
        [RecordGamePresentOp (sample_present 1 4), SurfaceDestroyedOp 1 sample_ok]) = 3"
proof -
  define s where "s = run_ops session_step (GameSessionCoordinator_new sample_caps kBackendVulkan) sample_start"
  have p: "gs_game_presented s" "gs_first_presented_frame s = 3" unfolding s_def by code_simp+
  show ?thesis
    using session_first_frame_latched [OF s_def p(1), of "[RecordGamePresentOp (sample_present 1 4),
        SurfaceDestroyedOp 1 sample_ok]"] p unfolding s_def [symmetric] Let_def by simp
qed

text \<open>
  The coordinator has no way forward from a terminal state: after a failure or a return to
  the Lua app only the first Shutdown has an effect, and after a stop or an attempted shutdown no
  operation has any.
\<close>

theorem session_terminal_is_final:
  assumes "IsForwardTerminalLocked s"
  shows "session_step s x = s \<or> (\<exists>out. x = ShutdownOp out) \<and> gs_state s \<noteq> GsStopped \<and> \<not> gs_shutdown_attempted s"
proof (cases x)
  case (RecordGamePresentOp e)
  have "snd (RecordGamePresent s e) = s"
    using assms by (cases "gs_state s")
      (simp_all add: IsForwardTerminalLocked_def RecordGamePresent_def)
  then show ?thesis using RecordGamePresentOp by (simp add: session_step_def)
qed (use assms in \<open>simp_all add: session_step_def SetPrincipal_def QueueJoinRequest_def
      SurfaceCreated_def UpdateSurface_def SurfaceDestroyed_def LeaveGame_def Shutdown_def\<close>)

theorem session_terminal_is_final_witness:
  "let s = run_ops session_step (GameSessionCoordinator_new sample_caps kBackendVulkan)
             (sample_start @ [LeaveGameOp sample_ok])
   in IsForwardTerminalLocked s \<and> session_step s (SurfaceCreatedOp 2 sample_ok) = s"
proof -
  define s where "s = run_ops session_step (GameSessionCoordinator_new sample_caps kBackendVulkan)
     (sample_start @ [LeaveGameOp sample_ok])"
  have t: "IsForwardTerminalLocked s" unfolding s_def by code_simp
  show ?thesis
    using session_terminal_is_final [OF t, of "SurfaceCreatedOp 2 sample_ok"] t
    unfolding s_def [symmetric] Let_def by simp
qed

end
