(* ===== verification/Surface_Bridge.thy ===== *)
theory Surface_Bridge
  imports Resize_Gate Game_Session
begin

text \<open>
  The bridge between the window and the game (\<open>src/window/window_game_surface_bridge.h/.cc\<close>) and the
  game-session runtime it drives (class \<open>RobloxGameSessionRuntime\<close> in
  \<open>src/runtime/roblox_game_session_native_adapter.cc\<close>). The bridge polls an event source, hands each
  event to a consumer and reports it to an observer. Its three collaborators are function tables in
  the code and parameters here; their contracts are the locales \<open>event_source\<close>,
  \<open>surface_consumer\<close> and \<open>commit_observer\<close>, interpreted on the window lifecycle, the
  game-session runtime and the resize readiness gate.
\<close>

section \<open>The bridge\<close>

text \<open>A table's \<open>complete()\<close> is a field: whether its pointers are non-null.\<close>

record 'c WindowGameSurfaceConsumer =
  con_complete :: bool
  con_created :: "'c \<Rightarrow> u64 \<Rightarrow> GameSessionUpdateResult \<times> 'c"
  con_changed :: "'c \<Rightarrow> GameSurface \<Rightarrow> GameSessionUpdateResult \<times> 'c"
  con_destroyed :: "'c \<Rightarrow> u64 \<Rightarrow> GameSessionUpdateResult \<times> 'c"

type_synonym 's surface_poll = "'s \<Rightarrow> WindowSurfaceEvent option \<times> 's"
type_synonym 'o surface_observer = "('o \<Rightarrow> WindowSurfaceEvent \<Rightarrow> Status \<times> 'o) option"

record WindowGameSurfaceBridge =
  br_accepted_events :: u64
  br_duplicate_events :: u64
  br_last_generation :: u64
  br_last_event_type :: WindowSurfaceEventType
  br_failed :: bool
  br_terminal_status :: Status

definition WindowGameSurfaceBridge_new :: "bool \<Rightarrow> bool \<Rightarrow> WindowGameSurfaceBridge" where
  "WindowGameSurfaceBridge_new source_complete consumer_complete =
     (let b = \<lparr>br_accepted_events = 0, br_duplicate_events = 0, br_last_generation = 0,
               br_last_event_type = kSurfaceChanged, br_failed = False,
               br_terminal_status = Status_Ok\<rparr>
      in if \<not> source_complete
         then b\<lparr>br_terminal_status := InvalidArgument ''window game-surface event source is incomplete'',
                br_failed := True\<rparr>
         else if \<not> consumer_complete
         then b\<lparr>br_terminal_status := InvalidArgument ''window game-surface consumer is incomplete'',
                br_failed := True\<rparr>
         else b)"

definition ValidateEvent :: "WindowSurfaceEvent \<Rightarrow> Status" where
  "ValidateEvent e =
     (let f = ev_surface e in
      if ws_generation f = 0 then InvalidArgument ''window surface event has no generation''
      else case ev_type e of
        kSurfaceCreated \<Rightarrow> Status_Ok
      | kSurfaceChanged \<Rightarrow>
          if \<not> ws_available f \<or> ws_native_window f = 0 \<or> ws_width f = 0 \<or> ws_height f = 0
          then InvalidArgument ''changed window surface requires an available handle and extent''
          else Status_Ok
      | kSurfaceDestroyed \<Rightarrow> Status_Ok)"

definition to_game_surface :: "WindowSurfaceSnapshot \<Rightarrow> GameSurface" where
  "to_game_surface f =
     \<lparr>gf_generation = ws_generation f, gf_native_window = ws_native_window f,
      gf_width = ws_width f, gf_height = ws_height f, gf_dpi_scale = ws_dpi_scale f\<rparr>"

definition Dispatch ::
  "'c WindowGameSurfaceConsumer \<Rightarrow> 'c \<Rightarrow> WindowSurfaceEvent \<Rightarrow> GameSessionUpdateResult \<times> 'c" where
  "Dispatch con c e =
     (case ev_type e of
        kSurfaceCreated \<Rightarrow> con_created con c (ws_generation (ev_surface e))
      | kSurfaceChanged \<Rightarrow> con_changed con c (to_game_surface (ev_surface e))
      | kSurfaceDestroyed \<Rightarrow> con_destroyed con c (ws_generation (ev_surface e)))"

definition BridgeFail :: "WindowGameSurfaceBridge \<Rightarrow> Status \<Rightarrow> WindowGameSurfaceBridge" where
  "BridgeFail b st = b\<lparr>br_terminal_status := st, br_failed := True\<rparr>"

text \<open>The body of the drain loop after the poll; a status that is not ok leaves the loop.\<close>

definition drain_event ::
  "'c WindowGameSurfaceConsumer \<Rightarrow> 'o surface_observer \<Rightarrow> WindowSurfaceEvent \<Rightarrow>
     WindowGameSurfaceBridge \<Rightarrow> 'c \<Rightarrow> 'o \<Rightarrow> Status \<times> WindowGameSurfaceBridge \<times> 'c \<times> 'o" where
  "drain_event con obs e b c ob =
     (let validation = ValidateEvent e in
      if \<not> status_ok validation then (validation, b, c, ob)
      else case Dispatch con c e of (update, c1) \<Rightarrow>
        if \<not> gu_ok update
        then (FailedPrecondition (if status_ok (gu_cause update)
                then ''GAME lifecycle rejected surface event'' else message (gu_cause update)),
              b, c1, ob)
        else case (case obs of None \<Rightarrow> (Status_Ok, ob) | Some committed \<Rightarrow> committed ob e) of
          (observe_status, ob1) \<Rightarrow>
            if \<not> status_ok observe_status then (observe_status, b, c1, ob1)
            else (Status_Ok,
                  (if gu_changed update then b\<lparr>br_accepted_events := br_accepted_events b + 1\<rparr>
                   else b\<lparr>br_duplicate_events := br_duplicate_events b + 1\<rparr>)
                    \<lparr>br_last_event_type := ev_type e,
                     br_last_generation := ws_generation (ev_surface e)\<rparr>, c1, ob1))"

type_synonym ('s, 'c, 'o) drained = "(Status \<times> u64) \<times> WindowGameSurfaceBridge \<times> 's \<times> 'c \<times> 'o"

partial_function (option) drain_loop ::
  "'s surface_poll \<Rightarrow> 'c WindowGameSurfaceConsumer \<Rightarrow> 'o surface_observer \<Rightarrow> u64 \<Rightarrow>
     WindowGameSurfaceBridge \<Rightarrow> 's \<Rightarrow> 'c \<Rightarrow> 'o \<Rightarrow> ('s, 'c, 'o) drained option" where
  [code]: "drain_loop poll con obs n b s c ob =
     (case poll s of
        (None, s1) \<Rightarrow> Some ((Status_Ok, n), b, s1, c, ob)
      | (Some e, s1) \<Rightarrow>
          (case drain_event con obs e b c ob of (st, b1, c1, ob1) \<Rightarrow>
             if \<not> status_ok st then Some ((st, n + 1), BridgeFail b1 st, s1, c1, ob1)
             else drain_loop poll con obs (n + 1) b1 s1 c1 ob1))"

definition Drain ::
  "'s surface_poll \<Rightarrow> 'c WindowGameSurfaceConsumer \<Rightarrow> 'o surface_observer \<Rightarrow>
     WindowGameSurfaceBridge \<Rightarrow> 's \<Rightarrow> 'c \<Rightarrow> 'o \<Rightarrow> ('s, 'c, 'o) drained option" where
  "Drain poll con obs b s c ob =
     (if \<not> status_ok (br_terminal_status b)
      then Some ((br_terminal_status b, 0), b, s, c, ob)
      else drain_loop poll con obs 0 b s c ob)"

section \<open>The game-session runtime\<close>

text \<open>
  \<open>rt_outcomes n\<close> is the outcome of the n-th native callback, the environment of the runtime;
  \<open>rt_observed\<close> the serials the presented observer was notified with.
\<close>

record RobloxGameSessionRuntime =
  rt_coordinator :: GameSession
  rt_startup_status :: Status
  rt_present_evidence_recorded :: bool
  rt_observed :: "u64 list"
  rt_outcomes :: "nat \<Rightarrow> NativeOutcome"

type_synonym runtime_call = "GameSessionUpdateResult \<times> RobloxGameSessionRuntime"

definition RobloxGameSessionRuntime_new ::
  "GameSessionCapabilities \<Rightarrow> (nat \<Rightarrow> NativeOutcome) \<Rightarrow> RobloxGameSessionRuntime" where
  "RobloxGameSessionRuntime_new caps env =
     \<lparr>rt_coordinator = GameSessionCoordinator_new caps kBackendVulkan,
      rt_startup_status = FailedPrecondition ''game session has not started'',
      rt_present_evidence_recorded = False, rt_observed = [], rt_outcomes = env\<rparr>"

definition next_outcome :: "RobloxGameSessionRuntime \<Rightarrow> NativeOutcome" where
  "next_outcome rt = rt_outcomes rt (length (gs_calls (rt_coordinator rt)))"

definition on_coordinator ::
  "(GameSession \<Rightarrow> session_call) \<Rightarrow> RobloxGameSessionRuntime \<Rightarrow> runtime_call" where
  "on_coordinator f rt =
     (case f (rt_coordinator rt) of (r, s) \<Rightarrow> (r, rt\<lparr>rt_coordinator := s\<rparr>))"

definition ResultStatus :: "GameSessionUpdateResult \<Rightarrow> Status" where
  "ResultStatus r =
     (if gu_ok r then Status_Ok
      else if status_ok (gu_cause r) then Status_Error kFailedPrecondition (gu_message r)
      else gu_cause r)"

definition RuntimeSurfaceCreated :: "RobloxGameSessionRuntime \<Rightarrow> u64 \<Rightarrow> runtime_call" where
  "RuntimeSurfaceCreated rt g = on_coordinator (\<lambda>s. SurfaceCreated s g (next_outcome rt)) rt"

definition RuntimeSurfaceChanged :: "RobloxGameSessionRuntime \<Rightarrow> GameSurface \<Rightarrow> runtime_call" where
  "RuntimeSurfaceChanged rt f = on_coordinator (\<lambda>s. SurfaceChanged s f (next_outcome rt)) rt"

definition RuntimeRebindSurface :: "RobloxGameSessionRuntime \<Rightarrow> GameSurface \<Rightarrow> runtime_call" where
  "RuntimeRebindSurface rt f = on_coordinator (\<lambda>s. RebindSurface s f (next_outcome rt)) rt"

definition RuntimeSurfaceDestroyed :: "RobloxGameSessionRuntime \<Rightarrow> u64 \<Rightarrow> runtime_call" where
  "RuntimeSurfaceDestroyed rt g = on_coordinator (\<lambda>s. SurfaceDestroyed s g (next_outcome rt)) rt"

definition RuntimeLeaveGame :: "RobloxGameSessionRuntime \<Rightarrow> runtime_call" where
  "RuntimeLeaveGame rt = on_coordinator (\<lambda>s. LeaveGame s (next_outcome rt)) rt"

definition RuntimeShutdown :: "RobloxGameSessionRuntime \<Rightarrow> runtime_call" where
  "RuntimeShutdown rt =
     (let finish = \<lambda>rt. on_coordinator (\<lambda>s. Shutdown s (next_outcome rt)) rt;
          leave = (\<lambda>rt. if gs_state (rt_coordinator rt) = GsRunning \<or>
                           gs_state (rt_coordinator rt) = GsPaused
                        then case RuntimeLeaveGame rt of (r, rt1) \<Rightarrow>
                               if \<not> gu_ok r then (r, rt1) else finish rt1
                        else finish rt);
          snapshot = SnapshotLocked (rt_coordinator rt)
      in if sn_state snapshot = GsRunning \<and> sn_active_surface_available snapshot
         then case RuntimeSurfaceDestroyed rt (sn_active_surface_generation snapshot) of
                (pause, rt1) \<Rightarrow> if \<not> gu_ok pause then (pause, rt1) else leave rt1
         else leave rt)"

text \<open>The status of the adapter's own initialisation is an argument.\<close>

definition InitializeAndStart ::
  "RobloxGameSessionRuntime \<Rightarrow> Status \<Rightarrow> GameSessionPrincipal \<Rightarrow> GameJoinRequest \<Rightarrow> GameSurface \<Rightarrow>
     Status \<times> RobloxGameSessionRuntime" where
  "InitializeAndStart rt init gprincipal request surface =
     (let rt0 = rt\<lparr>rt_present_evidence_recorded := False\<rparr>;
          step = (\<lambda>f (st, rt). if status_ok st
                    then case f rt of (r, rt1) \<Rightarrow> (ResultStatus r, rt1) else (st, rt));
          r1 = step (on_coordinator (\<lambda>s. SetPrincipal s gprincipal)) (init, rt0);
          r2 = step (\<lambda>rt. on_coordinator (\<lambda>s. QueueJoinRequest s request (next_outcome rt)) rt) r1;
          r3 = step (\<lambda>rt. RuntimeSurfaceCreated rt (gf_generation surface)) r2;
          r4 = step (\<lambda>rt. RuntimeSurfaceChanged rt surface) r3
      in case r4 of (st, rt4) \<Rightarrow> (st, rt4\<lparr>rt_startup_status := st\<rparr>))"

definition RecordPresent :: "RobloxGameSessionRuntime \<Rightarrow> u64 \<Rightarrow> runtime_call" where
  "RecordPresent rt frame_serial =
     (let snapshot = SnapshotLocked (rt_coordinator rt);
          generation = (if sn_pending_surface_generation snapshot \<noteq> 0
                        then sn_pending_surface_generation snapshot
                        else sn_active_surface_generation snapshot)
      in on_coordinator (\<lambda>s. RecordGamePresent s
           \<lparr>ge_surface_generation = generation, ge_frame_serial = frame_serial,
            ge_backend = kBackendVulkan, ge_present_succeeded = True\<rparr>) rt)"

text \<open>\<open>observer\<close>: the presented observer is valid.\<close>

definition SuccessfulPresentCallback ::
  "bool \<Rightarrow> RobloxGameSessionRuntime \<Rightarrow> u64 \<Rightarrow> RobloxGameSessionRuntime" where
  "SuccessfulPresentCallback observer rt frame_serial =
     (if frame_serial = 0 then rt
      else if rt_present_evidence_recorded rt then rt
      else case RecordPresent rt frame_serial of (r, rt1) \<Rightarrow>
        if gu_changed r
        then let rt2 = rt1\<lparr>rt_present_evidence_recorded := True\<rparr>
             in if observer then rt2\<lparr>rt_observed := rt_observed rt2 @ [frame_serial]\<rparr> else rt2
        else rt1)"

definition runtime_consumer :: "RobloxGameSessionRuntime WindowGameSurfaceConsumer" where
  "runtime_consumer =
     \<lparr>con_complete = True, con_created = RuntimeSurfaceCreated, con_changed = RuntimeRebindSurface,
      con_destroyed = RuntimeSurfaceDestroyed\<rparr>"

section \<open>Contracts of the collaborators\<close>

locale event_source =
  fixes poll :: "'s surface_poll"
    and queue :: "'s \<Rightarrow> WindowSurfaceEvent list"
    and rest :: "'s \<Rightarrow> 'r"
  assumes poll_empty: "queue s = [] \<Longrightarrow> poll s = (None, s)"
    and poll_event: "queue s = e # es \<Longrightarrow> \<exists>s'. poll s = (Some e, s') \<and> queue s' = es \<and> rest s' = rest s"

locale surface_consumer =
  fixes con :: "'c WindowGameSurfaceConsumer"
    and tracks :: "surface_view \<Rightarrow> 'c \<Rightarrow> bool"
  assumes accepts: "tracks v c \<Longrightarrow> view_event v (ev_type e) (ev_surface e) = Some v' \<Longrightarrow>
      gu_ok (fst (Dispatch con c e)) \<and> tracks v' (snd (Dispatch con c e))"
    and tracks_live: "tracks (VLive f) c \<Longrightarrow> ws_generation f \<noteq> 0"

locale commit_observer =
  fixes obs :: "'o surface_observer"
    and quiet :: "'o \<Rightarrow> bool"
  assumes quiet_commit: "quiet ob \<Longrightarrow> obs = Some committed \<Longrightarrow>
      status_ok (fst (committed ob e)) \<and> quiet (snd (committed ob e))"

locale surface_pipeline = event_source + surface_consumer + commit_observer
begin

lemma event_valid:
  assumes "tracks v c" and "view_event v (ev_type e) (ev_surface e) = Some v'"
  shows "ValidateEvent e = Status_Ok"
  using assms tracks_live
  by (cases v; cases "ev_type e")
     (auto simp: ValidateEvent_def Let_def usable_surface_def ValidAvailableSurface_def
        kMinimumWindowWidth_def kMinimumWindowHeight_def split: if_splits)

lemma drain_event_tracks:
  assumes t: "tracks v c" and q: "quiet ob"
    and ev: "view_event v (ev_type e) (ev_surface e) = Some v'"
  shows "\<exists>b' c' ob'. drain_event con obs e b c ob = (Status_Ok, b', c', ob') \<and> tracks v' c' \<and>
    quiet ob' \<and> br_terminal_status b' = br_terminal_status b \<and> br_failed b' = br_failed b"
proof -
  obtain u c1 where d: "Dispatch con c e = (u, c1)" by (cases "Dispatch con c e")
  have u: "gu_ok u" "tracks v' c1" using accepts [OF t ev] by (simp_all add: d)
  obtain st ob1 where o: "(case obs of None \<Rightarrow> (Status_Ok, ob) | Some committed \<Rightarrow> committed ob e) = (st, ob1)"
    by (meson surj_pair)
  have st: "status_ok st \<and> quiet ob1"
  proof (cases obs)
    case (Some f)
    then show ?thesis using quiet_commit [OF q Some, of e] o by simp
  qed (use o q in auto)
  show ?thesis
    using event_valid [OF t ev] d u o st by (simp add: drain_event_def Let_def)
qed

theorem drain_loop_tracks:
  assumes "tracks v c" and "quiet ob" and "view_run v (queue s) = Some v'"
  shows "\<exists>b' s' c' ob'. drain_loop poll con obs n b s c ob =
      Some ((Status_Ok, n + of_nat (length (queue s))), b', s', c', ob') \<and>
    queue s' = [] \<and> rest s' = rest s \<and> tracks v' c' \<and> quiet ob' \<and>
    br_terminal_status b' = br_terminal_status b \<and> br_failed b' = br_failed b"
  using assms
proof (induction "queue s" arbitrary: v c ob s n b)
  case Nil
  then show ?case using poll_empty [of s] by (simp add: drain_loop.simps)
next
  case (Cons e es)
  obtain s1 where p: "poll s = (Some e, s1)" "queue s1 = es" "rest s1 = rest s"
    using poll_event [OF Cons.hyps(2) [symmetric]] by blast
  obtain v1 where v1: "view_event v (ev_type e) (ev_surface e) = Some v1" "view_run v1 es = Some v'"
    using Cons.prems(3) by (simp flip: Cons.hyps(2) split: option.splits)
  obtain b1 c1 ob1 where d: "drain_event con obs e b c ob = (Status_Ok, b1, c1, ob1)" "tracks v1 c1"
      "quiet ob1" "br_terminal_status b1 = br_terminal_status b" "br_failed b1 = br_failed b"
    using drain_event_tracks [OF Cons.prems(1,2) v1(1)] by blast
  have "drain_loop poll con obs n b s c ob = drain_loop poll con obs (n + 1) b1 s1 c1 ob1"
    by (subst drain_loop.simps) (simp add: p d)
  moreover note Cons.hyps(1) [OF p(2) [symmetric] d(2,3), of "n + 1" b1] v1(2)
  ultimately show ?case
    using p d by (simp flip: Cons.hyps(2) add: add.assoc)
qed

end

section \<open>The collaborators of the program\<close>

interpretation lifecycle_source: event_source "\<lambda>l. Poll l True" wl_events "\<lambda>l. (wl_current l, wl_active l)"
  by unfold_locales (auto simp: Poll_def)

interpretation disabled_gate: commit_observer "Some RecordCommittedSurfaceEvent" "\<lambda>g. rr_state g = RrDisabled"
  by unfold_locales (auto simp: RecordCommittedSurfaceEvent_def)

text \<open>How the coordinator follows a consumer's view of the window.\<close>

fun tracked :: "surface_view \<Rightarrow> GameSession \<Rightarrow> bool" where
  "tracked (VLive f) s \<longleftrightarrow> gs_state s = GsRunning \<and> gs_active_surface s = to_game_surface f"
| "tracked (VClosed g) s \<longleftrightarrow> gs_state s = GsPaused \<and> gf_generation (gs_active_surface s) = g \<and>
     gs_last_destroyed_surface_generation s = g"
| "tracked (VOpened g) s \<longleftrightarrow> gs_state s = GsPaused \<and> gs_surface_created s \<and>
     gs_prepared_surface_generation s = g"

definition runtime_tracks :: "surface_view \<Rightarrow> RobloxGameSessionRuntime \<Rightarrow> bool" where
  "runtime_tracks v rt \<longleftrightarrow> (\<forall>n. status_ok (no_status (rt_outcomes rt n))) \<and>
     session_inv (rt_coordinator rt) \<and> tracked v (rt_coordinator rt)"

lemma locked_status [simp]:
  "gu_ok (fst (ApplyLocked s st m))"
  "gu_ok (fst (DuplicateLocked s m))"
  by (simp_all add: gu_ok_def ApplyLocked_def DuplicateLocked_def)

lemma running_facts:
  assumes "session_inv s" "gs_state s = GsRunning"
  shows "gs_initial_start_completed s" "gs_active_surface_available s" "gs_surface_created s"
    "gs_prepared_surface_generation s = gf_generation (gs_active_surface s)"
  using assms by (simp_all add: session_inv_def state_inv_def)

lemma paused_facts:
  assumes "session_inv s" "gs_state s = GsPaused"
  shows "gs_initial_start_completed s" "\<not> gs_active_surface_available s"
  using assms by (simp_all add: session_inv_def state_inv_def)

lemma started_facts:
  assumes "session_inv s" "gs_initial_start_completed s"
  shows "gs_principal_ready s" "ValidSurface (gs_active_surface s)"
  using assms by (simp_all add: session_inv_def core_inv_def)

lemma created_tracked:
  assumes inv: "session_inv s" and tr: "tracked (VClosed g) s" and g: "g < g'"
    and out: "status_ok (no_status out)"
  shows "gu_ok (fst (SurfaceCreated s g' out)) \<and> tracked (VOpened g') (snd (SurfaceCreated s g' out))"
proof -
  have "gs_initial_start_completed s" using paused_facts(1) [OF inv] tr by simp
  moreover from this have "gs_principal_ready s" by (rule started_facts(1) [OF inv])
  moreover have "g' \<noteq> 0" "g' \<noteq> g" using g by auto
  ultimately show ?thesis
    using tr out by (auto simp: SurfaceCreated_def Let_def IsForwardTerminalLocked_def)
qed

lemma changed_tracked:
  assumes inv: "session_inv s" and tr: "tracked v s" and use: "usable_surface f"
    and v: "v = VOpened (ws_generation f) \<or> (\<exists>f0. v = VLive f0 \<and> ws_generation f0 = ws_generation f)"
    and out: "status_ok (no_status out)"
  shows "gu_ok (fst (RebindSurface s (to_game_surface f) out)) \<and>
    tracked (VLive f) (snd (RebindSurface s (to_game_surface f) out))"
proof -
  have valid: "ValidSurface (to_game_surface f)"
    using use by (auto simp: usable_surface_def ValidAvailableSurface_def ValidSurface_def
        to_game_surface_def kMinimumWindowWidth_def kMinimumWindowHeight_def)
  have ready: "gs_initial_start_completed s" "gs_principal_ready s" "gs_surface_created s"
      "gs_prepared_surface_generation s = gf_generation (to_game_surface f)"
      "gs_state s = GsPaused \<or> gs_state s = GsRunning"
    using tr v paused_facts [OF inv] running_facts [OF inv] started_facts(1) [OF inv]
    by (auto simp: to_game_surface_def)
  have active: "gs_active_surface (CommitPendingPresentLocked k) = gs_active_surface k"
      "gs_active_surface (PromotePendingSurfaceLocked k) = gs_pending_surface k"
      "gs_pending_surface (DiscardPendingPresentLocked k) = gs_pending_surface k" for k
    by (simp_all add: CommitPendingPresentLocked_def PromotePendingSurfaceLocked_def
        DiscardPendingPresentLocked_def DiscardPendingSurfaceLocked_def)
  show ?thesis
    using ready(5)
  proof
  qed (use valid ready(1-4) out in \<open>simp_all add: active RebindSurface_def UpdateSurface_def Let_def
    IsForwardTerminalLocked_def\<close>)
qed

lemma destroyed_tracked:
  assumes inv: "session_inv s" and tr: "tracked (VLive f) s" and g: "ws_generation f \<noteq> 0"
    and out: "status_ok (no_status out)"
  shows "gu_ok (fst (SurfaceDestroyed s (ws_generation f) out)) \<and>
    tracked (VClosed (ws_generation f)) (snd (SurfaceDestroyed s (ws_generation f) out))"
proof -
  have "gs_initial_start_completed s" "gs_active_surface_available s" "gs_surface_created s"
    using tr running_facts [OF inv] by simp_all
  then show ?thesis
    using tr g out by (simp add: SurfaceDestroyed_def Let_def IsForwardTerminalLocked_def
        to_game_surface_def DiscardPendingPresentLocked_def DiscardPendingSurfaceLocked_def)
qed

lemma on_coordinator_fields [step_simps, simp]:
  "fst (on_coordinator f rt) = fst (f (rt_coordinator rt))"
  "rt_coordinator (snd (on_coordinator f rt)) = snd (f (rt_coordinator rt))"
  "rt_outcomes (snd (on_coordinator f rt)) = rt_outcomes rt"
  "rt_present_evidence_recorded (snd (on_coordinator f rt)) = rt_present_evidence_recorded rt"
  "rt_observed (snd (on_coordinator f rt)) = rt_observed rt"
  by (simp_all add: on_coordinator_def split: prod.split)

lemma rebind_inv: "session_inv s \<Longrightarrow> session_inv (snd (RebindSurface s f out))"
  by (simp add: RebindSurface_def update_surface_inv)

lemma runtime_accepts:
  assumes t: "runtime_tracks v rt" and ev: "view_event v (ev_type e) (ev_surface e) = Some v'"
  shows "gu_ok (fst (Dispatch runtime_consumer rt e)) \<and>
    runtime_tracks v' (snd (Dispatch runtime_consumer rt e))"
proof -
  let ?s = "rt_coordinator rt" and ?f = "ev_surface e"
  have inv: "session_inv ?s" and tr: "tracked v ?s" and out: "status_ok (no_status (next_outcome rt))"
    using t by (simp_all add: runtime_tracks_def next_outcome_def)
  show ?thesis
  proof (cases "ev_type e")
    case kSurfaceCreated
    then obtain g where v: "v = VClosed g" "g < ws_generation ?f" "v' = VOpened (ws_generation ?f)"
      using ev by (cases v) (auto split: if_splits)
    show ?thesis
      using created_tracked [OF inv tr [unfolded v] v(2) out] kSurfaceCreated v t
      by (simp add: Dispatch_def runtime_consumer_def RuntimeSurfaceCreated_def runtime_tracks_def
          surface_created_inv [OF inv])
  next
    case kSurfaceChanged
    then have v: "v = VOpened (ws_generation ?f) \<or> (\<exists>f0. v = VLive f0 \<and> ws_generation f0 = ws_generation ?f)"
        "usable_surface ?f" "v' = VLive ?f"
      using ev by (cases v; auto split: if_splits)+
    show ?thesis
      using changed_tracked [OF inv tr v(2,1) out] kSurfaceChanged v t
      by (simp add: Dispatch_def runtime_consumer_def RuntimeRebindSurface_def runtime_tracks_def
          rebind_inv [OF inv])
  next
    case kSurfaceDestroyed
    then obtain f where v: "v = VLive f" "ws_generation ?f = ws_generation f" "v' = VClosed (ws_generation f)"
      using ev by (cases v) (auto split: if_splits)
    have "ws_generation f \<noteq> 0"
      using tr v running_facts(1) [OF inv] started_facts(2) [OF inv]
      by (auto simp: ValidSurface_def to_game_surface_def)
    then show ?thesis
      using destroyed_tracked [OF inv tr [unfolded v] _ out] kSurfaceDestroyed v t
      by (simp add: Dispatch_def runtime_consumer_def RuntimeSurfaceDestroyed_def runtime_tracks_def
          surface_destroyed_inv [OF inv])
  qed
qed

interpretation runtime_follows: surface_consumer runtime_consumer runtime_tracks
proof
  show "gu_ok (fst (Dispatch runtime_consumer rt e)) \<and>
      runtime_tracks v' (snd (Dispatch runtime_consumer rt e))"
    if "runtime_tracks v rt" "view_event v (ev_type e) (ev_surface e) = Some v'" for v rt e v'
    using that by (rule runtime_accepts)
  show "ws_generation f \<noteq> 0" if "runtime_tracks (VLive f) rt" for f rt
    using that running_facts(1) started_facts(2)
    by (force simp: runtime_tracks_def ValidSurface_def to_game_surface_def)
qed

interpretation window_game: surface_pipeline "\<lambda>l. Poll l True" wl_events "\<lambda>l. (wl_current l, wl_active l)"
  runtime_consumer runtime_tracks "Some RecordCommittedSurfaceEvent" "\<lambda>g. rr_state g = RrDisabled"
  by unfold_locales

section \<open>The assembled system\<close>

record GameWindowSystem =
  sy_lifecycle :: WindowSurfaceLifecycle
  sy_bridge :: WindowGameSurfaceBridge
  sy_runtime :: RobloxGameSessionRuntime
  sy_gate :: WindowResizeReadinessSnapshot

datatype SystemOp =
    SyObserve u64 u32 u32 cfloat | SyRefresh | SyRecreate | SyDrain | SyPresent bool u64

fun system_step :: "GameWindowSystem \<Rightarrow> SystemOp \<Rightarrow> GameWindowSystem option" where
  "system_step y (SyObserve nw w h d) =
     Some (y\<lparr>sy_lifecycle := snd (Observe (sy_lifecycle y) nw w h d)\<rparr>)"
| "system_step y SyRefresh = Some (y\<lparr>sy_lifecycle := snd (Refresh (sy_lifecycle y))\<rparr>)"
| "system_step y SyRecreate = Some (y\<lparr>sy_lifecycle := snd (Recreate (sy_lifecycle y))\<rparr>)"
| "system_step y SyDrain =
     (case Drain (\<lambda>l. Poll l True) runtime_consumer (Some RecordCommittedSurfaceEvent)
             (sy_bridge y) (sy_lifecycle y) (sy_runtime y) (sy_gate y) of
        None \<Rightarrow> None
      | Some (r, b, l, rt, g) \<Rightarrow>
          Some \<lparr>sy_lifecycle = l, sy_bridge = b, sy_runtime = rt, sy_gate = g\<rparr>)"
| "system_step y (SyPresent observer n) =
     Some (y\<lparr>sy_runtime := SuccessfulPresentCallback observer (sy_runtime y) n\<rparr>)"

fun system_run :: "GameWindowSystem \<Rightarrow> SystemOp list \<Rightarrow> GameWindowSystem option" where
  "system_run y [] = Some y"
| "system_run y (x # xs) = (case system_step y x of None \<Rightarrow> None | Some y' \<Rightarrow> system_run y' xs)"

text \<open>The runtime follows some view from which the queued events lead to the host's surface.\<close>

definition system_inv :: "GameWindowSystem \<Rightarrow> bool" where
  "system_inv y \<longleftrightarrow> status_ok (br_terminal_status (sy_bridge y)) \<and> \<not> br_failed (sy_bridge y) \<and>
     rr_state (sy_gate y) = RrDisabled \<and>
     (\<exists>v. runtime_tracks v (sy_runtime y) \<and> surface_inv v ([], sy_lifecycle y))"

lemma tracked_present [simp]: "tracked v (snd (RecordGamePresent s e)) = tracked v s"
  by (cases v) simp_all

lemma present_tracks:
  assumes "runtime_tracks v rt"
  shows "runtime_tracks v (SuccessfulPresentCallback observer rt n)"
proof -
  have "runtime_tracks v (snd (RecordPresent rt n))"
    using assms by (simp add: runtime_tracks_def RecordPresent_def Let_def record_present_inv)
  then show ?thesis
    using assms by (auto simp: SuccessfulPresentCallback_def runtime_tracks_def Let_def split: prod.splits)
qed

lemma drain_system:
  assumes "system_inv y"
  shows "\<exists>y'. system_step y SyDrain = Some y' \<and> system_inv y' \<and> wl_events (sy_lifecycle y') = [] \<and>
    tracked (host_view (sy_lifecycle y')) (rt_coordinator (sy_runtime y'))"
proof -
  from assms obtain v where v: "runtime_tracks v (sy_runtime y)" "surface_inv v ([], sy_lifecycle y)"
    by (auto simp: system_inv_def)
  then have run: "view_run v (wl_events (sy_lifecycle y)) = Some (host_view (sy_lifecycle y))"
    by (simp add: surface_inv_def)
  obtain b l rt g where d: "drain_loop (\<lambda>l. Poll l True) runtime_consumer
        (Some RecordCommittedSurfaceEvent) 0 (sy_bridge y) (sy_lifecycle y) (sy_runtime y) (sy_gate y) =
      Some ((Status_Ok, 0 + of_nat (length (wl_events (sy_lifecycle y)))), b, l, rt, g)"
      "wl_events l = []" "(wl_current l, wl_active l) = (wl_current (sy_lifecycle y), wl_active (sy_lifecycle y))"
      "runtime_tracks (host_view (sy_lifecycle y)) rt" "rr_state g = RrDisabled"
      "br_terminal_status b = br_terminal_status (sy_bridge y)" "br_failed b = br_failed (sy_bridge y)"
    using window_game.drain_loop_tracks [OF v(1) _ run, of "sy_gate y" 0 "sy_bridge y"] assms
    by (auto simp: system_inv_def)
  have hv: "host_view l = host_view (sy_lifecycle y)" using d(3) by (simp add: host_view_def)
  have "surface_inv (host_view l) ([], l)"
    using v(2) d(2,3) by (auto simp: surface_inv_def)
  then show ?thesis
    using d assms hv by (auto simp: system_inv_def Drain_def runtime_tracks_def)
qed

lemma system_step_inv:
  assumes "system_inv y"
  shows "\<exists>y'. system_step y x = Some y' \<and> system_inv y'"
proof (cases x)
  case SyDrain
  then show ?thesis using drain_system [OF assms] by blast
next
  case (SyPresent observer n)
  then show ?thesis using assms by (auto simp: system_inv_def intro: present_tracks)
next
  case (SyObserve nw w h d)
  then show ?thesis using assms by (auto simp: system_inv_def intro: observe_inv)
next
  case SyRefresh
  then show ?thesis using assms by (auto simp: system_inv_def intro: refresh_inv)
next
  case SyRecreate
  then show ?thesis using assms by (auto simp: system_inv_def intro: recreate_inv)
qed

lemma system_run_inv: "system_inv y \<Longrightarrow> \<exists>y'. system_run y xs = Some y' \<and> system_inv y'"
proof (induction xs arbitrary: y)
  case (Cons x xs)
  from system_step_inv [OF Cons.prems, of x] obtain y1 where "system_step y x = Some y1" "system_inv y1" by blast
  with Cons.IH [of y1] show ?case by simp
qed simp

lemma system_run_append:
  "system_run y (xs @ ys) = (case system_run y xs of None \<Rightarrow> None | Some y' \<Rightarrow> system_run y' ys)"
  by (induction xs arbitrary: y) (simp_all split: option.splits)

section \<open>Starting the game\<close>

text \<open>What a caller of \<open>InitializeAndStart\<close> supplies: a full table and valid data.\<close>

definition start_data :: "GameSessionCapabilities \<Rightarrow> GameSessionPrincipal \<Rightarrow> GameJoinRequest \<Rightarrow> GameSurface \<Rightarrow> bool" where
  "start_data caps p r f \<longleftrightarrow> caps_complete caps \<and> ValidPrincipal p \<and> ValidRequest r \<and> ValidSurface f \<and>
     (gr_place_id r = 0 \<or> gp_kind p = kAuthenticated)"

text \<open>The coordinator with its principal and request, waiting for surface generation \<open>g\<close> (0: none).\<close>

definition start_pending ::
  "GameSessionPrincipal \<Rightarrow> GameJoinRequest \<Rightarrow> u64 \<Rightarrow> (NativeCall \<times> bool) list \<Rightarrow> GameSession \<Rightarrow> bool" where
  "start_pending p r g cs s \<longleftrightarrow> gs_state s = GsJoinRequestQueued \<and> gs_principal_ready s \<and>
     gs_principal s = p \<and> gs_join_request_queued s \<and> gs_request s = r \<and>
     (gs_surface_created s \<longleftrightarrow> g \<noteq> 0) \<and> gs_prepared_surface_generation s = g \<and>
     \<not> gs_pending_surface_available s \<and> \<not> gs_initial_start_completed s \<and> gs_calls s = cs"

lemma start_principal:
  assumes "start_data caps p r f"
  shows "gu_ok (fst (SetPrincipal (GameSessionCoordinator_new caps b) p)) \<and>
    snd (SetPrincipal (GameSessionCoordinator_new caps b) p) =
      enter GsPrincipalReady ((GameSessionCoordinator_new caps b)\<lparr>gs_principal := p, gs_principal_ready := True\<rparr>)"
  using assms
  by (simp add: start_data_def SetPrincipal_def GameSessionCoordinator_new_def IsForwardTerminalLocked_def)

lemma start_request:
  assumes d: "start_data caps p r f"
    and s: "s = enter GsPrincipalReady ((GameSessionCoordinator_new caps b)\<lparr>gs_principal := p, gs_principal_ready := True\<rparr>)"
  shows "gu_ok (fst (QueueJoinRequest s r x)) \<and> start_pending p r 0 [] (snd (QueueJoinRequest s r x))"
  using d
  by (simp add: s start_data_def QueueJoinRequest_def IsForwardTerminalLocked_def Let_def
      start_pending_def) (auto simp: GameSessionCoordinator_new_def)

lemma start_created:
  assumes d: "start_pending p r 0 [] s" and g: "g \<noteq> 0" and ok: "status_ok (no_status x)"
  shows "gu_ok (fst (SurfaceCreated s g x)) \<and>
    start_pending p r g [(NcSetGameForeground, True)] (snd (SurfaceCreated s g x))"
  using assms
  by (simp add: start_pending_def SurfaceCreated_def IsForwardTerminalLocked_def Let_def PreStartStateLocked_def)

lemma start_changed:
  assumes d: "start_pending p r (gf_generation f) cs s" and f: "ValidSurface f" and ok: "status_ok (no_status x)"
  shows "gu_ok (fst (SurfaceChanged s f x)) \<and> gs_state (snd (SurfaceChanged s f x)) = GsRunning \<and>
    gs_active_surface (snd (SurfaceChanged s f x)) = f \<and>
    gs_calls (snd (SurfaceChanged s f x)) = cs @ [(NcStartGame p r f, True)]"
  using assms
  by (simp add: start_pending_def SurfaceChanged_def UpdateSurface_def IsForwardTerminalLocked_def Let_def
      ValidSurface_def StartIfReadyLocked_def CommitPendingPresentLocked_def PromotePendingSurfaceLocked_def
      DiscardPendingPresentLocked_def DiscardPendingSurfaceLocked_def)

lemma calls_length_outcome:
  "(\<forall>n. status_ok (no_status (rt_outcomes rt n))) \<Longrightarrow> status_ok (no_status (next_outcome rt))"
  by (simp add: next_outcome_def)

lemma initialize_and_start:
  assumes d: "start_data caps p r f" and env: "\<forall>n. status_ok (no_status (env n))"
    and init: "status_ok init"
  defines "res \<equiv> InitializeAndStart (RobloxGameSessionRuntime_new caps env) init p r f"
  shows "status_ok (fst res)" "rt_outcomes (snd res) = env"
    "session_inv (rt_coordinator (snd res))" "gs_state (rt_coordinator (snd res)) = GsRunning"
    "gs_active_surface (rt_coordinator (snd res)) = f"
    "gs_calls (rt_coordinator (snd res)) = [(NcSetGameForeground, True), (NcStartGame p r f, True)]"
proof -
  let ?s0 = "GameSessionCoordinator_new caps kBackendVulkan"
  define s1 where "s1 = snd (SetPrincipal ?s0 p)"
  define s2 where "s2 = snd (QueueJoinRequest s1 r (env 0))"
  define s3 where "s3 = snd (SurfaceCreated s2 (gf_generation f) (env 0))"
  define s4 where "s4 = snd (SurfaceChanged s3 f (env (Suc 0)))"
  have f: "ValidSurface f" "gf_generation f \<noteq> 0" using d by (auto simp: start_data_def ValidSurface_def)
  note p1 = start_principal [OF d, of kBackendVulkan, folded s1_def]
  note p2 = start_request [OF d p1 [THEN conjunct2], of "env 0", folded s2_def]
  have p3: "gu_ok (fst (SurfaceCreated s2 (gf_generation f) (env 0)))"
      "start_pending p r (gf_generation f) [(NcSetGameForeground, True)] s3"
    using start_created [OF p2 [THEN conjunct2] f(2), of "env 0"] env by (simp_all add: s3_def)
  have p4: "gu_ok (fst (SurfaceChanged s3 f (env (Suc 0))))" "gs_state s4 = GsRunning" "gs_active_surface s4 = f"
      "gs_calls s4 = [(NcSetGameForeground, True), (NcStartGame p r f, True)]"
    using start_changed [OF p3(2) f(1), of "env (Suc 0)"] env by (simp_all add: s4_def)
  have inv: "session_inv s4"
    unfolding s4_def s3_def s2_def s1_def SurfaceChanged_def by (intro inv_preserved session_init_inv)
  have calls: "gs_calls s1 = []" "gs_calls s2 = []" "gs_calls s3 = [(NcSetGameForeground, True)]"
    using p1 p2 p3 by (simp_all add: start_pending_def GameSessionCoordinator_new_def)
  obtain u1 u2 u3 u4 where eq: "SetPrincipal ?s0 p = (u1, s1)" "QueueJoinRequest s1 r (env 0) = (u2, s2)"
      "SurfaceCreated s2 (gf_generation f) (env 0) = (u3, s3)" "SurfaceChanged s3 f (env (Suc 0)) = (u4, s4)"
    by (simp add: s1_def s2_def s3_def s4_def prod_eq_iff)
  then have ok: "gu_ok u1" "gu_ok u2" "gu_ok u3" "gu_ok u4"
    using p1 p2 p3 p4 by simp_all
  have r: "\<exists>rt. res = (Status_Ok, rt) \<and> rt_coordinator rt = s4 \<and> rt_outcomes rt = env"
    using init ok calls eq
    by (simp add: res_def InitializeAndStart_def Let_def RobloxGameSessionRuntime_new_def on_coordinator_def
        next_outcome_def RuntimeSurfaceCreated_def RuntimeSurfaceChanged_def ResultStatus_def)
  then show "status_ok (fst res)" "rt_outcomes (snd res) = env"
    "session_inv (rt_coordinator (snd res))" "gs_state (rt_coordinator (snd res)) = GsRunning"
    "gs_active_surface (rt_coordinator (snd res)) = f"
    "gs_calls (rt_coordinator (snd res)) = [(NcSetGameForeground, True), (NcStartGame p r f, True)]"
    using p4 inv by auto
qed

section \<open>Shutting down\<close>

lemma pause_call:
  assumes inv: "session_inv s" and st: "gs_state s = GsRunning" and ok: "status_ok (no_status x)"
  defines "res \<equiv> SurfaceDestroyed s (gf_generation (gs_active_surface s)) x"
  shows "gu_ok (fst res) \<and> gs_state (snd res) = GsPaused \<and> gs_calls (snd res) = gs_calls s @ [(NcPauseGame, True)]"
proof -
  note r = running_facts [OF inv st]
  have "gf_generation (gs_active_surface s) \<noteq> 0"
    using started_facts(2) [OF inv r(1)] by (simp add: ValidSurface_def)
  then show ?thesis
    using st r ok by (simp add: res_def SurfaceDestroyed_def Let_def IsForwardTerminalLocked_def
        DiscardPendingPresentLocked_def DiscardPendingSurfaceLocked_def)
qed

lemma leave_call:
  assumes inv: "session_inv s" and st: "gs_state s = GsRunning \<or> gs_state s = GsPaused"
    and ok: "status_ok (no_status x)"
  defines "res \<equiv> LeaveGame s x"
  shows "gu_ok (fst res) \<and> gs_state (snd res) = GsReturnedToLuaApp \<and>
    gs_calls (snd res) = gs_calls s @ [(NcLeaveGame, True)] \<and> cap_shutdown_runtime (gs_capabilities (snd res))"
proof -
  have r: "gs_initial_start_completed s" "\<not> gs_returned_to_lua_app s"
    using inv st by (auto simp: session_inv_def state_inv_def)
  have "cap_shutdown_runtime (gs_capabilities s)"
    using inv started_facts(1) [OF inv r(1)] by (simp add: session_inv_def core_inv_def caps_complete_def)
  then show ?thesis
    using st r ok by (auto simp: res_def LeaveGame_def Let_def IsForwardTerminalLocked_def)
qed

lemma finish_call:
  assumes inv: "session_inv s" and st: "gs_state s = GsReturnedToLuaApp"
    and cap: "cap_shutdown_runtime (gs_capabilities s)" and ok: "status_ok (no_status x)"
  shows "gu_ok (fst (Shutdown s x)) \<and> gs_state (snd (Shutdown s x)) = GsStopped \<and>
    gs_calls (snd (Shutdown s x)) = gs_calls s @ [(NcShutdownRuntime, True)]"
proof -
  have "\<not> gs_shutdown_attempted s" using inv st by (simp add: session_inv_def state_inv_def)
  then show ?thesis using st cap ok by (simp add: Shutdown_def Let_def)
qed

lemma leave_and_finish:
  assumes inv: "session_inv (rt_coordinator rt)"
    and st: "gs_state (rt_coordinator rt) = GsRunning \<or> gs_state (rt_coordinator rt) = GsPaused"
    and env: "\<forall>n. status_ok (no_status (rt_outcomes rt n))"
  defines "rt1 \<equiv> snd (RuntimeLeaveGame rt)"
  defines "fin \<equiv> on_coordinator (\<lambda>s. Shutdown s (next_outcome rt1)) rt1"
  shows "gu_ok (fst (RuntimeLeaveGame rt)) \<and> gu_ok (fst fin) \<and>
    gs_state (rt_coordinator (snd fin)) = GsStopped \<and>
    gs_calls (rt_coordinator (snd fin)) =
      gs_calls (rt_coordinator rt) @ [(NcLeaveGame, True), (NcShutdownRuntime, True)]"
proof -
  note lc = leave_call [OF inv st, of "next_outcome rt"]
  have "session_inv (rt_coordinator rt1)" by (simp add: rt1_def RuntimeLeaveGame_def leave_inv [OF inv])
  then show ?thesis
    using lc finish_call [of "rt_coordinator rt1" "next_outcome rt1"] env
    by (simp add: rt1_def fin_def RuntimeLeaveGame_def next_outcome_def)
qed

lemma drain_failure_recorded:
  assumes "drain_loop poll con obs n b s c ob = Some ((st, m), b', s', c', ob')" and "\<not> status_ok st"
  shows "br_terminal_status b' = st \<and> br_failed b'"
proof -
  have "\<not> status_ok (fst (fst res)) \<longrightarrow>
      br_terminal_status (fst (snd res)) = fst (fst res) \<and> br_failed (fst (snd res))"
    if "drain_loop poll con obs n b s c ob = Some res" for res
    using that
  proof (induction rule: drain_loop.raw_induct [rotated 1, consumes 1])
    case (1 loop poll con obs n b s c ob res)
    obtain eo s1 where p: "poll s = (eo, s1)" by (cases "poll s")
    show ?case
    proof (cases eo)
      case None
      then show ?thesis using 1 p by auto
    next
      case (Some e)
      obtain st b1 c1 ob1 where d: "drain_event con obs e b c ob = (st, b1, c1, ob1)"
        by (metis surj_pair)
      show ?thesis
      proof (cases "status_ok st")
        case True
        then show ?thesis using 1(2) p Some d by (intro 1(1)) simp
      next
        case False
        then show ?thesis using 1(2) p Some d by (auto simp: BridgeFail_def)
      qed
    qed
  qed
  from this [OF assms(1)] assms(2) show ?thesis by simp
qed

section \<open>Properties\<close>


definition sample_lifecycle :: WindowSurfaceLifecycle where
  "sample_lifecycle = snd (Activate WindowSurfaceLifecycle_new 7 800 600 (FNum 1))"

definition sample_principal :: GameSessionPrincipal where
  "sample_principal = \<lparr>gp_kind = kAuthenticated, gp_generation = 1, gp_principal_id = ''7'', gp_base_url = ''u''\<rparr>"

definition sample_request :: GameJoinRequest where
  "sample_request = \<lparr>gr_request_id = 1, gr_place_id = 5, gr_launch_parameters = ''p''\<rparr>"

definition sample_started :: "Status \<times> RobloxGameSessionRuntime" where
  "sample_started = InitializeAndStart (RobloxGameSessionRuntime_new sample_caps (\<lambda>n. sample_ok)) Status_Ok
     sample_principal sample_request (to_game_surface (wl_current sample_lifecycle))"

definition sample_system :: GameWindowSystem where
  "sample_system = \<lparr>sy_lifecycle = sample_lifecycle, sy_bridge = WindowGameSurfaceBridge_new True True,
     sy_runtime = snd sample_started, sy_gate = ResizeReadinessGate_new\<rparr>"


text \<open>
  Graceful shutdown: when the callbacks succeed, shutting the runtime down from any reachable
  running or paused session pauses a running game, leaves it and stops the runtime, in that order,
  and ends in the stopped state.
\<close>

theorem runtime_shutdown_is_graceful:
  assumes reach: "rt_coordinator rt = run_ops session_step (GameSessionCoordinator_new caps backend) xs"
    and env: "\<forall>n. status_ok (no_status (rt_outcomes rt n))"
    and st: "gs_state (rt_coordinator rt) = GsRunning \<or> gs_state (rt_coordinator rt) = GsPaused"
  shows "gu_ok (fst (RuntimeShutdown rt)) \<and>
    gs_state (rt_coordinator (snd (RuntimeShutdown rt))) = GsStopped \<and>
    gs_calls (rt_coordinator (snd (RuntimeShutdown rt))) = gs_calls (rt_coordinator rt) @
      (if gs_state (rt_coordinator rt) = GsRunning then [(NcPauseGame, True)] else []) @
      [(NcLeaveGame, True), (NcShutdownRuntime, True)]"
proof -
  have inv: "session_inv (rt_coordinator rt)"
    unfolding reach by (intro session.run_invar session_init_inv)
  let ?s = "rt_coordinator rt"
  show ?thesis
  proof (cases "gs_state ?s = GsRunning")
    case True
    define rt1 where "rt1 = snd (RuntimeSurfaceDestroyed rt (gf_generation (gs_active_surface ?s)))"
    have p: "gu_ok (fst (RuntimeSurfaceDestroyed rt (gf_generation (gs_active_surface ?s))))"
        "gs_state (rt_coordinator rt1) = GsPaused"
        "gs_calls (rt_coordinator rt1) = gs_calls ?s @ [(NcPauseGame, True)]"
        "rt_outcomes rt1 = rt_outcomes rt"
      using pause_call [OF inv True, of "next_outcome rt"] env
      by (simp_all add: rt1_def RuntimeSurfaceDestroyed_def next_outcome_def)
    have "session_inv (rt_coordinator rt1)"
      by (simp add: rt1_def RuntimeSurfaceDestroyed_def surface_destroyed_inv [OF inv])
    from leave_and_finish [OF this] p env running_facts(2) [OF inv True] True show ?thesis
      by (simp add: RuntimeShutdown_def Let_def SnapshotLocked_def case_prod_beta flip: rt1_def)
  next
    case False
    then show ?thesis
      using leave_and_finish [OF inv st env] st
      by (simp add: RuntimeShutdown_def Let_def SnapshotLocked_def case_prod_beta)
  qed
qed

definition sample_runtime :: "SessionOp list \<Rightarrow> RobloxGameSessionRuntime" where
  "sample_runtime xs = (RobloxGameSessionRuntime_new sample_caps (\<lambda>n. sample_ok))
     \<lparr>rt_coordinator := run_ops session_step (GameSessionCoordinator_new sample_caps kBackendVulkan) xs\<rparr>"

theorem runtime_shutdown_is_graceful_witness:
  "gs_calls (rt_coordinator (snd (RuntimeShutdown (sample_runtime sample_start)))) =
     gs_calls (rt_coordinator (sample_runtime sample_start)) @
       [(NcPauseGame, True), (NcLeaveGame, True), (NcShutdownRuntime, True)]"
proof -
  have reach: "rt_coordinator (sample_runtime sample_start) =
      run_ops session_step (GameSessionCoordinator_new sample_caps kBackendVulkan) sample_start"
    by (simp add: sample_runtime_def)
  have env: "\<forall>n. status_ok (no_status (rt_outcomes (sample_runtime sample_start) n))"
    by (simp add: sample_runtime_def RobloxGameSessionRuntime_new_def sample_ok_def)
  have st: "gs_state (rt_coordinator (sample_runtime sample_start)) = GsRunning" by code_simp
  show ?thesis
    using runtime_shutdown_is_graceful [OF reach env disjI1 [OF st]] st by simp
qed

text \<open>
  The first failure of the bridge is its last effect: after a drain that did not return ok,
  every later drain, on any source, consumer and observer state, returns that same status, consumes
  no event and changes nothing.
\<close>

theorem bridge_failure_is_terminal:
  assumes "Drain poll con obs b s c ob = Some ((st, n), b', s', c', ob')" and "\<not> status_ok st"
  shows "br_terminal_status b' = st \<and> Drain poll2 con2 obs2 b' s2 c2 ob2 = Some ((st, 0), b', s2, c2, ob2)"
proof (cases "status_ok (br_terminal_status b)")
  case True
  then have "drain_loop poll con obs 0 b s c ob = Some ((st, n), b', s', c', ob')"
    using assms(1) by (simp add: Drain_def)
  from drain_failure_recorded [OF this assms(2)] assms(2) show ?thesis by (simp add: Drain_def)
next
  case False
  then show ?thesis using assms by (auto simp: Drain_def)
qed

theorem bridge_failure_is_terminal_witness:
  "\<exists>st n b' l' rt' g'.
     Drain (\<lambda>l. Poll l True) runtime_consumer (Some RecordCommittedSurfaceEvent)
       (WindowGameSurfaceBridge_new True True) (snd (Recreate sample_lifecycle))
       (sample_runtime []) ResizeReadinessGate_new = Some ((st, n), b', l', rt', g') \<and>
     \<not> status_ok st \<and> length (wl_events l') = 2 \<and>
     Drain (\<lambda>l. Poll l True) runtime_consumer (Some RecordCommittedSurfaceEvent) b' l' rt' g' =
       Some ((st, 0), b', l', rt', g')"
proof -
  let ?r = "Drain (\<lambda>l. Poll l True) runtime_consumer (Some RecordCommittedSurfaceEvent)
       (WindowGameSurfaceBridge_new True True) (snd (Recreate sample_lifecycle))
       (sample_runtime []) ResizeReadinessGate_new"
  have some: "(case ?r of None \<Rightarrow> False
      | Some ((st, n), b', l', rt', g') \<Rightarrow> \<not> status_ok st \<and> length (wl_events l') = 2)"
    by code_simp
  then obtain st n b' l' rt' g' where r: "?r = Some ((st, n), b', l', rt', g')"
      "\<not> status_ok st" "length (wl_events l') = 2"
    by (auto split: option.splits prod.splits)
  have "Drain (\<lambda>l. Poll l True) runtime_consumer (Some RecordCommittedSurfaceEvent) b' l' rt' g' =
       Some ((st, 0), b', l', rt', g')"
    using bridge_failure_is_terminal [OF r(1,2), of "\<lambda>l. Poll l True" runtime_consumer
        "Some RecordCommittedSurfaceEvent" l' rt' g'] by (rule conjunct2)
  with r show ?thesis by blast
qed

end
