(* ===== verification/Jni_Text.thy ===== *)
theory Jni_Text
  imports Mocktail_Prelude
begin

text \<open>
  The string transcoders of the JNI runtime (\<open>src/jnivm/jni_strings.cc\<close>): UTF-16 to UTF-8, UTF-16
  to the modified UTF-8 of JNI and back. Code points are 32-bit words, code units 16-bit and bytes
  8-bit, with the shifts and masks of the code. An index loop over a vector is a recursion over the
  remaining elements.
\<close>

section \<open>Encoding\<close>

definition byte :: "u32 \<Rightarrow> u8" where
  "byte w = ucast w"

definition AppendUtf8CodePoint :: "u32 \<Rightarrow> u8 list" where
  "AppendUtf8CodePoint c =
     (if c \<le> 0x7f then [byte c]
      else if c \<le> 0x7ff
      then [byte (0xc0 OR drop_bit 6 c), byte (0x80 OR (c AND 0x3f))]
      else if c \<le> 0xffff
      then [byte (0xe0 OR drop_bit 12 c), byte (0x80 OR (drop_bit 6 c AND 0x3f)),
            byte (0x80 OR (c AND 0x3f))]
      else [byte (0xf0 OR drop_bit 18 c), byte (0x80 OR (drop_bit 12 c AND 0x3f)),
            byte (0x80 OR (drop_bit 6 c AND 0x3f)), byte (0x80 OR (c AND 0x3f))])"

definition is_high_surrogate :: "u16 \<Rightarrow> bool" where
  "is_high_surrogate u \<longleftrightarrow> u \<ge> 0xd800 \<and> u \<le> 0xdbff"

definition is_low_surrogate :: "u16 \<Rightarrow> bool" where
  "is_low_surrogate u \<longleftrightarrow> u \<ge> 0xdc00 \<and> u \<le> 0xdfff"

definition is_surrogate :: "u16 \<Rightarrow> bool" where
  "is_surrogate u \<longleftrightarrow> u \<ge> 0xd800 \<and> u \<le> 0xdfff"

definition surrogate_code_point :: "u16 \<Rightarrow> u16 \<Rightarrow> u32" where
  "surrogate_code_point hi lo = 0x10000 + push_bit 10 (ucast hi - 0xd800) + (ucast lo - 0xdc00)"

text \<open>
  Both transcoders walk the vector the same way and differ in what an unpaired surrogate becomes.
\<close>

fun encode_units :: "u8 list \<Rightarrow> u16 list \<Rightarrow> u8 list" where
  "encode_units bad [] = []"
| "encode_units bad [u] = (if is_surrogate u then bad else AppendUtf8CodePoint (ucast u))"
| "encode_units bad (u # v # us) =
     (if is_high_surrogate u \<and> is_low_surrogate v
      then AppendUtf8CodePoint (surrogate_code_point u v) @ encode_units bad us
      else if is_surrogate u then bad @ encode_units bad (v # us)
      else AppendUtf8CodePoint (ucast u) @ encode_units bad (v # us))"

definition Utf16ToUtf8 :: "u16 list \<Rightarrow> u8 list" where
  "Utf16ToUtf8 us = encode_units (AppendUtf8CodePoint 0xfffd) us"

definition JavaStringUtf8Bytes :: "u16 list \<Rightarrow> u8 list" where
  "JavaStringUtf8Bytes us = encode_units [0x3f] us"

definition modified_unit :: "u16 \<Rightarrow> u8 list" where
  "modified_unit u =
     (let c = ucast u :: u32 in
      if c = 0 then [0xc0, 0x80]
      else if c \<le> 0x7f then [byte c]
      else if c \<le> 0x7ff then [byte (0xc0 OR drop_bit 6 c), byte (0x80 OR (c AND 0x3f))]
      else [byte (0xe0 OR drop_bit 12 c), byte (0x80 OR (drop_bit 6 c AND 0x3f)),
            byte (0x80 OR (c AND 0x3f))])"

text \<open>\<open>begin + min(count, size - begin)\<close> cannot wrap, so sizes are natural numbers; \<open>npos\<close> is None.\<close>

definition Utf16ToModifiedUtf8 :: "u16 list \<Rightarrow> nat \<Rightarrow> nat option \<Rightarrow> u8 list" where
  "Utf16ToModifiedUtf8 us begin_ix count =
     (if begin_ix \<ge> length us then []
      else let n = (case count of None \<Rightarrow> length us - begin_ix | Some k \<Rightarrow> min k (length us - begin_ix));
               end_ix = min (length us) (begin_ix + n)
           in concat (map (\<lambda>i. modified_unit (us ! i)) [begin_ix..<end_ix]))"

section \<open>Decoding\<close>

definition is_continuation :: "u8 \<Rightarrow> bool" where
  "is_continuation b \<longleftrightarrow> b AND 0xc0 = 0x80"

text \<open>The code point at the head of the remaining bytes and the number of bytes consumed.\<close>

definition decode_head :: "u8 list \<Rightarrow> u32 \<times> nat" where
  "decode_head bs =
     (let first = bs ! 0; w = (\<lambda>i. ucast (bs ! i) :: u32); size = length bs in
      if first \<noteq> 0 \<and> first \<le> 0x7f then (ucast first, 1)
      else if first AND 0xe0 = 0xc0 \<and> 1 < size \<and> is_continuation (bs ! 1)
      then let c = push_bit 6 (w 0 AND 0x1f) OR (w 1 AND 0x3f)
           in if c = 0 \<or> c \<ge> 0x80 then (c, 2) else (0xfffd, 1)
      else if first AND 0xf0 = 0xe0 \<and> 2 < size \<and> is_continuation (bs ! 1) \<and> is_continuation (bs ! 2)
      then let c = push_bit 12 (w 0 AND 0x0f) OR push_bit 6 (w 1 AND 0x3f) OR (w 2 AND 0x3f)
           in if c \<ge> 0x800 then (c, 3) else (0xfffd, 1)
      else if first AND 0xf8 = 0xf0 \<and> 3 < size \<and> is_continuation (bs ! 1) \<and>
              is_continuation (bs ! 2) \<and> is_continuation (bs ! 3)
      then let c = push_bit 18 (w 0 AND 0x07) OR push_bit 12 (w 1 AND 0x3f) OR
                   push_bit 6 (w 2 AND 0x3f) OR (w 3 AND 0x3f)
           in if c \<ge> 0x10000 \<and> c \<le> 0x10ffff then (c, 4) else (0xfffd, 1)
      else (0xfffd, 1))"

definition code_units :: "u32 \<Rightarrow> u16 list" where
  "code_units c =
     (if c \<le> 0xffff then [ucast c]
      else let d = c - 0x10000
           in [ucast (0xd800 + drop_bit 10 d), ucast (0xdc00 + (d AND 0x3ff))])"

lemma decode_head_progress [simp]: "0 < snd (decode_head bs)"
  by (auto simp: decode_head_def Let_def)

function decode_units :: "u8 list \<Rightarrow> u16 list" where
  "decode_units bs =
     (if bs = [] then []
      else code_units (fst (decode_head bs)) @ decode_units (drop (snd (decode_head bs)) bs))"
  by auto
termination
  by (relation "measure length") (simp_all add: diff_less)

declare decode_units.simps [simp del]

text \<open>The input is the bytes at a pointer; \<open>strlen\<close> stops at the first NUL.\<close>

definition ModifiedUtf8ToUtf16 :: "u8 list option \<Rightarrow> u16 list" where
  "ModifiedUtf8ToUtf16 input =
     (case input of None \<Rightarrow> [] | Some bs \<Rightarrow> decode_units (takeWhile (\<lambda>b. b \<noteq> 0) bs))"

section \<open>String objects\<close>

record PseudoStringObject =
  so_chars :: "u16 list"
  so_value :: "u8 list"
  so_modified_utf8 :: "u8 list"

definition PseudoStringObject_of_chars :: "u16 list \<Rightarrow> PseudoStringObject" where
  "PseudoStringObject_of_chars cs =
     \<lparr>so_chars = cs, so_value = Utf16ToUtf8 cs, so_modified_utf8 = Utf16ToModifiedUtf8 cs 0 None\<rparr>"

definition PseudoStringObject_utf :: "u8 list option \<Rightarrow> PseudoStringObject" where
  "PseudoStringObject_utf utf = PseudoStringObject_of_chars (ModifiedUtf8ToUtf16 utf)"

definition MakeUtf16Vector :: "u16 list option \<Rightarrow> int \<Rightarrow> u16 list" where
  "MakeUtf16Vector utf16 n =
     (case utf16 of None \<Rightarrow> [] | Some us \<Rightarrow> if n > 0 then take (nat n) us else [])"

definition PseudoStringObject_utf16 :: "u16 list option \<Rightarrow> int \<Rightarrow> PseudoStringObject" where
  "PseudoStringObject_utf16 utf16 n = PseudoStringObject_of_chars (MakeUtf16Vector utf16 n)"

text \<open>The charset name is the UTF-8 value of the string object.\<close>

definition IsUtf8CharsetName :: "u8 list \<Rightarrow> bool" where
  "IsUtf8CharsetName name =
     (let normalized = map ascii_lower name
      in normalized = ascii ''utf-8'' \<or> normalized = ascii ''utf8'' \<or>
         normalized = ascii ''unicode-1-1-utf-8'')"

text \<open>The bytes of \<open>getBytes\<close>; None is a null array.\<close>

definition JavaStringGetUtf8Bytes :: "PseudoStringObject option \<Rightarrow> u8 list \<Rightarrow> u8 list option" where
  "JavaStringGetUtf8Bytes obj charset =
     (if \<not> IsUtf8CharsetName charset then None
      else case obj of
        None \<Rightarrow> None
      | Some so \<Rightarrow> let bs = JavaStringUtf8Bytes (so_chars so)
                   in if length bs > 2147483647 then None else Some bs)"

text \<open>What is written to the output buffer (null pointers and bad ranges write nothing).\<close>

definition CopyStringRegion :: "PseudoStringObject option \<Rightarrow> int \<Rightarrow> int \<Rightarrow> bool \<Rightarrow> u16 list" where
  "CopyStringRegion str start n out =
     (if \<not> out \<or> start < 0 \<or> n \<le> 0 then []
      else case str of
        None \<Rightarrow> []
      | Some so \<Rightarrow>
          if nat start \<ge> length (so_chars so) then []
          else let count = min (nat n) (length (so_chars so) - nat start)
               in take count (drop (nat start) (so_chars so)))"

definition CopyStringModifiedUtf8Region ::
  "PseudoStringObject option \<Rightarrow> int \<Rightarrow> int \<Rightarrow> bool \<Rightarrow> u8 list" where
  "CopyStringModifiedUtf8Region str start n out =
     (if \<not> out \<or> start < 0 \<or> n \<le> 0 then []
      else case str of
        None \<Rightarrow> []
      | Some so \<Rightarrow>
          if nat start \<ge> length (so_chars so) then []
          else let count = min (nat n) (length (so_chars so) - nat start)
               in Utf16ToModifiedUtf8 (so_chars so) (nat start) (Some count))"

section \<open>Bits of the encodings\<close>

lemma utf_masks32:
  "(0x1f :: u32) = mask 5" "(0x3f :: u32) = mask 6" "(0x0f :: u32) = mask 4"
  "(0x07 :: u32) = mask 3" "(0x3ff :: u32) = mask 10"
  "(0xc0 :: u32) = push_bit 6 (mask 2)" "(0xe0 :: u32) = push_bit 5 (mask 3)"
  "(0xf0 :: u32) = push_bit 4 (mask 4)" 
  "(0x80 :: u32) = push_bit 7 (mask 1)"
  by (simp_all add: mask_eq_exp_minus_1 push_bit_eq_mult)
lemma utf_masks8:
  "(0xc0 :: u8) = push_bit 6 (mask 2)" "(0xe0 :: u8) = push_bit 5 (mask 3)"
  "(0xf0 :: u8) = push_bit 4 (mask 4)" "(0xf8 :: u8) = push_bit 3 (mask 5)"
  "(0x80 :: u8) = push_bit 7 (mask 1)"
  by (simp_all add: mask_eq_exp_minus_1 push_bit_eq_mult)

lemma lead_value:
  fixes x :: u32
  shows "x < 2 ^ 5 \<Longrightarrow> ucast (byte (0xc0 OR x)) AND 0x1f = x"
    "x < 2 ^ 4 \<Longrightarrow> ucast (byte (0xe0 OR x)) AND 0x0f = x"
    "x < 2 ^ 3 \<Longrightarrow> ucast (byte (0xf0 OR x)) AND 0x07 = x"
  unfolding utf_masks32 byte_def
  subgoal by (rule bit_eqI) (simp only: bit_only, auto dest: bits_below [of x 5, simplified])
  subgoal by (rule bit_eqI) (simp only: bit_only, auto dest: bits_below [of x 4, simplified])
  subgoal by (rule bit_eqI) (simp only: bit_only, auto dest: bits_below [of x 3, simplified])
  done

lemma cont_value:
  fixes x :: u32
  shows "ucast (byte (0x80 OR (x AND 0x3f))) AND 0x3f = x AND 0x3f"
  unfolding utf_masks32 byte_def
  by (rule bit_eqI, (simp only: bit_only), auto)

lemma cont_is: "is_continuation (byte (0x80 OR (x AND 0x3f)))"
  unfolding utf_masks32 utf_masks8 byte_def is_continuation_def
  by (rule bit_eqI, (simp only: bit_only), auto)

lemma join2: "push_bit 6 (drop_bit 6 c) OR (c AND 0x3f) = (c::u32)"
  unfolding utf_masks32 
  by (rule bit_eqI, (simp only: bit_only), auto)
lemma join3: "push_bit 12 (drop_bit 12 c) OR push_bit 6 (drop_bit 6 c AND 0x3f) OR (c AND 0x3f) = (c::u32)"
  unfolding utf_masks32 
  by (rule bit_eqI, case_tac "n < 6"; case_tac "n < 12"; (simp only: bit_only)?; auto)
lemma join4: "push_bit 18 (drop_bit 18 c) OR push_bit 12 (drop_bit 12 c AND 0x3f) OR push_bit 6 (drop_bit 6 c AND 0x3f) OR (c AND 0x3f) = (c::u32)"
  unfolding utf_masks32 
  by (rule bit_eqI, case_tac "n < 6"; case_tac "n < 12"; case_tac "n < 18"; (simp only: bit_only)?; auto)

lemma lead_tag:
  fixes x :: u32
  shows "x < 2 ^ 5 \<Longrightarrow> byte (0xc0 OR x) AND 0xe0 = 0xc0"
    "x < 2 ^ 4 \<Longrightarrow> byte (0xe0 OR x) AND 0xf0 = 0xe0"
    "x < 2 ^ 3 \<Longrightarrow> byte (0xf0 OR x) AND 0xf8 = 0xf0"
  unfolding utf_masks32 utf_masks8 byte_def
  subgoal by (rule bit_eqI) (simp only: bit_only, auto dest: bits_below [of x 5, simplified])
  subgoal by (rule bit_eqI) (simp only: bit_only, auto dest: bits_below [of x 4, simplified])
  subgoal by (rule bit_eqI) (simp only: bit_only, auto dest: bits_below [of x 3, simplified])
  done

lemma lead_tag_e0:
  fixes x :: u32
  shows "byte (0xe0 OR x) AND 0xe0 = 0xe0" "byte (0xf0 OR x) AND 0xe0 = 0xe0"
    "byte (0xf0 OR x) AND 0xf0 = 0xf0"
  unfolding utf_masks32 utf_masks8 byte_def
  by (rule bit_eqI, simp only: bit_only, auto)+

lemma u32_le_less:
  fixes c :: u32
  shows "c \<le> 0x7f \<longleftrightarrow> c < 2 ^ 7" "c \<le> 0x7ff \<longleftrightarrow> c < 2 ^ 11" "c \<le> 0xffff \<longleftrightarrow> c < 2 ^ 16"
  by (simp_all add: word_le_nat_alt word_less_nat_alt less_Suc_eq_le flip: Suc_le_eq)

lemma drop_bit_less:
  fixes c :: u32
  shows "c \<le> 0x7ff \<Longrightarrow> drop_bit 6 c < 2 ^ 5" "c \<le> 0xffff \<Longrightarrow> drop_bit 12 c < 2 ^ 4"
    "c \<le> 0x10ffff \<Longrightarrow> drop_bit 18 c < 2 ^ 3"
  by (simp_all add: word_le_nat_alt word_less_nat_alt drop_bit_eq_div unat_div)

lemma high_byte:
  fixes x :: u32
  shows "bit (byte (0xc0 OR x)) 7" "bit (byte (0xe0 OR x)) 7" "bit (byte (0xf0 OR x)) 7" "bit (byte (0x80 OR x)) 7"
  unfolding utf_masks32 byte_def by (simp_all only: bit_only) simp_all

lemma high_byte_gt: "bit (b :: u8) 7 \<Longrightarrow> \<not> b \<le> 0x7f" "bit (b :: u8) 7 \<Longrightarrow> b \<noteq> 0"
  using bits_below [of b 7 7] by (auto simp: word_le_nat_alt word_less_nat_alt)

lemmas lead_high = high_byte_gt(1) [OF high_byte(1)] high_byte_gt(1) [OF high_byte(2)] high_byte_gt(1) [OF high_byte(3)]
lemmas lead_nonzero = high_byte_gt(2) [OF high_byte(1)] high_byte_gt(2) [OF high_byte(2)] high_byte_gt(2) [OF high_byte(3)] high_byte_gt(2) [OF high_byte(4)]

lemma unat_byte: "unat (byte c) = unat c mod 256"
  by (simp add: byte_def unsigned_ucast_eq take_bit_eq_mod)

lemma byte_ascii:
  assumes "c \<le> 0x7f"
  shows "ucast (byte c) = c" "byte c \<le> 0x7f"
  using assms by (simp_all add: word_unat_eq_iff word_le_nat_alt unat_byte unsigned_ucast_eq take_bit_eq_mod)

lemma decode_one:
  assumes "c \<le> 0x7f" "c \<noteq> 0"
  shows "byte c \<noteq> 0" "decode_head (byte c # rest) = (c, 1)"
proof -
  show nz: "byte c \<noteq> 0" using byte_ascii(1) [OF assms(1)] assms(2) by auto
  show "decode_head (byte c # rest) = (c, 1)"
    using nz byte_ascii [OF assms(1)] by (simp add: decode_head_def)
qed

lemma decode_two:
  assumes "c \<le> 0x7ff" "c \<ge> 0x80"
  shows "decode_head (byte (0xc0 OR drop_bit 6 c) # byte (0x80 OR (c AND 0x3f)) # rest) = (c, 2)"
proof -
  note x = drop_bit_less(1) [OF assms(1)]
  show ?thesis
    unfolding decode_head_def Let_def using assms
    by (simp add: lead_high lead_tag(1) [OF x, simplified] cont_is  lead_value(1) [OF x, simplified] cont_value join2 del: push_bit_and)
qed

lemma decode_three:
  assumes "c \<le> 0xffff" "c \<ge> 0x800"
  shows "decode_head (byte (0xe0 OR drop_bit 12 c) # byte (0x80 OR (drop_bit 6 c AND 0x3f)) #
     byte (0x80 OR (c AND 0x3f)) # rest) = (c, 3)"
proof -
  note x = drop_bit_less(2) [OF assms(1)]
  show ?thesis
    unfolding decode_head_def Let_def using assms
    by (simp add: lead_high lead_tag_e0 lead_tag(2) [OF x, simplified] cont_is lead_value(2) [OF x, simplified] cont_value join3 del: push_bit_and)
qed

lemma decode_four:
  assumes "c \<le> 0x10ffff" "c \<ge> 0x10000"
  shows "decode_head (byte (0xf0 OR drop_bit 18 c) # byte (0x80 OR (drop_bit 12 c AND 0x3f)) #
     byte (0x80 OR (drop_bit 6 c AND 0x3f)) # byte (0x80 OR (c AND 0x3f)) # rest) = (c, 4)"
proof -
  note x = drop_bit_less(3) [OF assms(1)]
  show ?thesis
    unfolding decode_head_def Let_def using assms
    by (simp add: lead_high lead_tag_e0 lead_tag(3) [OF x, simplified] cont_is lead_value(3) [OF x, simplified] cont_value join4 del: push_bit_and)
qed

lemma unat_u16_less: "unat (u :: u16) < 65536"
proof -
  have "unat u < 2 ^ LENGTH(16)" by (rule unsigned_less)
  then show ?thesis by simp
qed

lemma unat_u16: "unat (ucast (u :: u16) :: u32) = unat u"
proof -
  have "unat u < 65536" by (rule unat_u16_less)
  then show ?thesis by (simp only: unsigned_ucast_eq take_bit_eq_mod) simp
qed

lemma ucast_u16_le: "(ucast (u :: u16) :: u32) \<le> 0xffff"
  using unat_u16_less [of u] by (simp add: word_le_nat_alt unat_u16)

lemma ucast_u16_roundtrip: "(ucast (ucast (u :: u16) :: u32) :: u16) = u"
  by (rule bit_eqI) (simp add: bit_unsigned_iff)

lemma code_units_unit [simp]: "code_units (ucast (u :: u16)) = [u]"
  using ucast_u16_le [of u] by (simp add: code_units_def ucast_u16_roundtrip)

lemma modified_unit_decode:
  "decode_head (modified_unit u @ rest) = (ucast u, length (modified_unit u)) \<and> 0 \<notin> set (modified_unit u) \<and> modified_unit u \<noteq> []"
proof -
  let ?c = "ucast u :: u32"
  consider "?c = 0" | "?c \<noteq> 0" "?c \<le> 0x7f" | "0x80 \<le> ?c" "?c \<le> 0x7ff" | "0x800 \<le> ?c" "?c \<le> 0xffff"
    using ucast_u16_le [of u] by (fastforce simp: word_le_nat_alt)
  then show ?thesis
  proof cases
    case 1
    then show ?thesis by (simp add: modified_unit_def decode_head_def is_continuation_def)
  next
    case 2
    then show ?thesis using decode_one(1) [of ?c] decode_one(2) [of ?c rest] by (simp add: modified_unit_def)
  next
    case 3
    then have "?c \<noteq> 0" "\<not> ?c \<le> 0x7f" by (auto simp: word_le_nat_alt)
    then show ?thesis using 3 decode_two [of ?c rest] lead_nonzero by (simp add: modified_unit_def Let_def)
  next
    case 4
    then have "?c \<noteq> 0" "\<not> ?c \<le> 0x7f" "\<not> ?c \<le> 0x7ff" by (auto simp: word_le_nat_alt)
    then show ?thesis using 4 decode_three [of ?c rest] lead_nonzero by (simp add: modified_unit_def Let_def)
  qed
qed


lemma append_decode:
  assumes "c \<noteq> 0" "c \<le> 0x10ffff"
  shows "decode_head (AppendUtf8CodePoint c @ rest) = (c, length (AppendUtf8CodePoint c)) \<and>
    0 \<notin> set (AppendUtf8CodePoint c) \<and> AppendUtf8CodePoint c \<noteq> []"
proof -
  consider "c \<le> 0x7f" | "0x80 \<le> c" "c \<le> 0x7ff" | "0x800 \<le> c" "c \<le> 0xffff" | "0x10000 \<le> c"
    by (fastforce simp: word_le_nat_alt)
  then show ?thesis
  proof cases
    case 1
    then show ?thesis using assms decode_one(1) [of c] decode_one(2) [of c rest] by (simp add: AppendUtf8CodePoint_def)
  next
    case 2
    then have "\<not> c \<le> 0x7f" by (auto simp: word_le_nat_alt)
    then show ?thesis using 2 decode_two [of c rest] lead_nonzero by (simp add: AppendUtf8CodePoint_def)
  next
    case 3
    then have "\<not> c \<le> 0x7f" "\<not> c \<le> 0x7ff" by (auto simp: word_le_nat_alt)
    then show ?thesis using 3 decode_three [of c rest] lead_nonzero by (simp add: AppendUtf8CodePoint_def)
  next
    case 4
    then have "\<not> c \<le> 0x7f" "\<not> c \<le> 0x7ff" "\<not> c \<le> 0xffff" by (auto simp: word_le_nat_alt)
    then show ?thesis using 4 assms decode_four [of c rest] lead_nonzero by (simp add: AppendUtf8CodePoint_def)
  qed
qed

lemma decode_units_step:
  assumes "decode_head (x @ rest) = (c, length x)" "x \<noteq> []"
  shows "decode_units (x @ rest) = code_units c @ decode_units rest"
  using assms by (subst decode_units.simps) simp

lemma decode_modified_units: "decode_units (concat (map modified_unit us)) = us"
proof (induction us)
  case Nil
  show ?case by (simp add: decode_units.simps)
next
  case (Cons u us)
  have "decode_units (modified_unit u @ concat (map modified_unit us)) =
      code_units (ucast u) @ decode_units (concat (map modified_unit us))"
    using modified_unit_decode by (intro decode_units_step) simp_all
  then show ?case using Cons.IH by simp
qed

lemma unat_push10: "unat w < 1024 \<Longrightarrow> unat (push_bit 10 (w :: u32)) = unat w * 1024"
  by (simp add: push_bit_eq_mult unat_word_ariths)

lemma unat_low10: "unat ((w :: u32) AND 0x3ff) = unat w mod 1024"
  unfolding utf_masks32 take_bit_eq_mask [symmetric]
  by (simp add: take_bit_eq_mod unat_mod del: mask_numeral)

lemma unat_to_u16: "unat (ucast (w :: u32) :: u16) = unat w mod 65536"
  by (simp add: unsigned_ucast_eq take_bit_eq_mod)

lemma surrogate_offsets:
  assumes "is_high_surrogate hi" "is_low_surrogate lo"
  obtains a b where "unat hi = 0xd800 + a" "a < 1024" "unat lo = 0xdc00 + b" "b < 1024"
proof
  show "unat hi = 0xd800 + (unat hi - 0xd800)" "unat hi - 0xd800 < 1024"
    "unat lo = 0xdc00 + (unat lo - 0xdc00)" "unat lo - 0xdc00 < 1024"
    using assms by (auto simp: is_high_surrogate_def is_low_surrogate_def word_le_nat_alt)
qed

lemma unat_surrogate:
  assumes "unat hi = 0xd800 + a" "a < 1024" "unat lo = 0xdc00 + b" "b < 1024"
  shows "unat (surrogate_code_point hi lo) = 0x10000 + a * 1024 + b"
proof -
  have h: "unat (ucast hi - 0xd800 :: u32) = a"
    using assms by (subst unat_sub) (simp_all add: word_le_nat_alt unat_u16)
  have l: "unat (ucast lo - 0xdc00 :: u32) = b"
    using assms by (subst unat_sub) (simp_all add: word_le_nat_alt unat_u16)
  have p: "unat (push_bit 10 (ucast hi - 0xd800 :: u32)) = a * 1024"
    using assms by (subst unat_push10) (simp_all add: h)
  have "unat (0x10000 + push_bit 10 (ucast hi - 0xd800 :: u32)) = 0x10000 + a * 1024"
    using assms by (simp only: unat_word_ariths(1) p) simp
  then show ?thesis
    unfolding surrogate_code_point_def using assms by (simp only: unat_word_ariths(1) l) simp
qed

lemma surrogate_range:
  assumes "is_high_surrogate hi" "is_low_surrogate lo"
  shows "surrogate_code_point hi lo \<ge> 0x10000 \<and> surrogate_code_point hi lo \<le> 0x10ffff \<and>
    surrogate_code_point hi lo \<noteq> 0"
proof -
  obtain a b where ab: "unat hi = 0xd800 + a" "a < 1024" "unat lo = 0xdc00 + b" "b < 1024"
    using assms by (rule surrogate_offsets)
  show ?thesis using unat_surrogate [OF ab] ab by (auto simp: word_le_nat_alt)
qed

lemma surrogate_units:
  assumes "is_high_surrogate hi" "is_low_surrogate lo"
  shows "code_units (surrogate_code_point hi lo) = [hi, lo]"
proof -
  let ?c = "surrogate_code_point hi lo"
  obtain a b where ab: "unat hi = 0xd800 + a" "a < 1024" "unat lo = 0xdc00 + b" "b < 1024"
    using assms by (rule surrogate_offsets)
  have d: "unat (?c - 0x10000) = a * 1024 + b"
    using surrogate_range [OF assms] by (subst unat_sub) (simp_all add: unat_surrogate [OF ab])
  have "unat (drop_bit 10 (?c - 0x10000)) = a"
    using ab by (simp only: drop_bit_eq_div unat_div d) simp
  moreover have "unat ((?c - 0x10000) AND 0x3ff) = b"
    using ab by (simp only: unat_low10 d) simp
  moreover have "\<not> ?c \<le> 0xffff"
    using surrogate_range [OF assms] by (simp add: word_le_nat_alt)
  ultimately show ?thesis
    using ab by (simp add: code_units_def Let_def word_unat_eq_iff unat_to_u16 unat_word_ariths)
qed

section \<open>Whole strings\<close>

lemma modified_region:
  "Utf16ToModifiedUtf8 us b count =
     concat (map modified_unit (case count of None \<Rightarrow> drop b us | Some k \<Rightarrow> take k (drop b us)))"
proof (cases "b \<ge> length us")
  case True
  then show ?thesis by (simp add: Utf16ToModifiedUtf8_def split: option.split)
next
  case False
  define k where "k = (case count of None \<Rightarrow> length us - b | Some k \<Rightarrow> min k (length us - b))"
  have k: "b + k \<le> length us" using False by (auto simp: k_def split: option.split)
  have "map (\<lambda>i. modified_unit (us ! i)) [b..<b + k] = map modified_unit (take k (drop b us))"
    using k by (intro nth_equalityI) simp_all
  moreover have "take k (drop b us) = (case count of None \<Rightarrow> drop b us | Some k \<Rightarrow> take k (drop b us))"
    by (simp add: k_def min_def split: option.split)
  ultimately show ?thesis
    using False k by (simp add: Utf16ToModifiedUtf8_def Let_def flip: k_def)
qed

lemma modified_no_nul: "0 \<notin> set (concat (map modified_unit us))"
  using modified_unit_decode [of _ "[]"] by auto

lemma takeWhile_no_nul: "0 \<notin> set bs \<Longrightarrow> takeWhile (\<lambda>b. b \<noteq> 0) bs = bs"
  by (rule takeWhile_eq_all_conv [THEN iffD2]) auto

text \<open>UTF-16 with every surrogate in a pair.\<close>

fun well_formed_utf16 :: "u16 list \<Rightarrow> bool" where
  "well_formed_utf16 [] = True"
| "well_formed_utf16 [u] = (\<not> is_surrogate u)"
| "well_formed_utf16 (u # v # us) =
     (if is_high_surrogate u \<and> is_low_surrogate v then well_formed_utf16 us
      else \<not> is_surrogate u \<and> well_formed_utf16 (v # us))"

lemma unit_code_point:
  assumes "u \<noteq> (0 :: u16)"
  shows "(ucast u :: u32) \<noteq> 0" "(ucast u :: u32) \<le> 0x10ffff"
  using assms ucast_u16_le [of u] by (auto simp: word_le_nat_alt unat_u16 word_unat_eq_iff [of _ 0])

lemma decode_encoded:
  assumes "well_formed_utf16 us" "0 \<notin> set us"
  shows "decode_units (encode_units bad us) = us \<and> 0 \<notin> set (encode_units bad us)"
  using assms
proof (induction bad us rule: encode_units.induct)
  case (1 bad)
  then show ?case by (simp add: decode_units.simps)
next
  case (2 bad u)
  then have "u \<noteq> 0" by simp
  note a = append_decode [OF unit_code_point [OF this], of "[]"]
  from a decode_units_step [of "AppendUtf8CodePoint (ucast u)" "[]" "ucast u"] 2
  show ?case by (simp add: decode_units.simps [of "[]"])
next
  case (3 bad u v us)
  show ?case
  proof (cases "is_high_surrogate u \<and> is_low_surrogate v")
    case True
    let ?c = "surrogate_code_point u v"
    have c: "?c \<noteq> 0" "?c \<le> 0x10ffff" using surrogate_range True by auto
    show ?thesis
      using 3 True append_decode [OF c, of "encode_units bad us"] surrogate_units [of u v]
      by (simp add: decode_units_step)
  next
    case False
    then have "u \<noteq> 0" "\<not> is_surrogate u" using 3 by auto
    note a = append_decode [OF unit_code_point [OF this(1)], of "encode_units bad (v # us)"]
    show ?thesis
      using 3 False \<open>\<not> is_surrogate u\<close> a by (auto simp: decode_units_step)
  qed
qed

section \<open>Properties\<close>

text \<open>
  C15. The modified UTF-8 of JNI is a faithful encoding: for every UTF-16 string, unpaired
  surrogates and NUL included, decoding the encoding gives the string back, and the encoding has no
  NUL byte, so the C string it is stored as is not cut short.
\<close>

theorem modified_utf8_round_trip:
  "ModifiedUtf8ToUtf16 (Some (Utf16ToModifiedUtf8 us 0 None)) = us \<and>
   0 \<notin> set (Utf16ToModifiedUtf8 us 0 None)"
  using modified_no_nul [of us] decode_modified_units [of us]
  by (simp add: ModifiedUtf8ToUtf16_def modified_region takeWhile_no_nul)

text \<open>
  A UTF-8 text survives the way into the runtime and back: for UTF-16 whose surrogates are
  paired and which has no NUL, decoding its UTF-8 value gives it back; four-byte sequences become
  the surrogate pair they came from.
\<close>

theorem utf8_value_round_trip:
  assumes "well_formed_utf16 us" and "0 \<notin> set us"
  shows "ModifiedUtf8ToUtf16 (Some (Utf16ToUtf8 us)) = us \<and> JavaStringUtf8Bytes us = Utf16ToUtf8 us"
proof -
  have "encode_units bad us = encode_units bad' us" for bad bad'
    using assms by (induction bad us rule: encode_units.induct) (auto split: if_splits)
  then show ?thesis
    using decode_encoded [OF assms, of "AppendUtf8CodePoint 0xfffd"]
    by (simp add: ModifiedUtf8ToUtf16_def Utf16ToUtf8_def JavaStringUtf8Bytes_def takeWhile_no_nul)
qed

theorem utf8_value_round_trip_witness:
  "ModifiedUtf8ToUtf16 (Some (Utf16ToUtf8 [0x41, 0xe9, 0x20ac, 0xd83d, 0xde00])) =
     [0x41, 0xe9, 0x20ac, 0xd83d, 0xde00] \<and>
   JavaStringUtf8Bytes [0x41, 0xe9, 0x20ac, 0xd83d, 0xde00] =
     Utf16ToUtf8 [0x41, 0xe9, 0x20ac, 0xd83d, 0xde00]"
  by (rule utf8_value_round_trip) code_simp+

text \<open>
  A region copy writes the modified UTF-8 of exactly the requested code units that exist,
  which decodes to the code units that the UTF-16 region copy writes.
\<close>

theorem region_copies_agree:
  "CopyStringModifiedUtf8Region str start n out =
     Utf16ToModifiedUtf8 (CopyStringRegion str start n out) 0 None \<and>
   ModifiedUtf8ToUtf16 (Some (CopyStringModifiedUtf8Region str start n out)) =
     CopyStringRegion str start n out"
proof -
  have "CopyStringModifiedUtf8Region str start n out =
      concat (map modified_unit (CopyStringRegion str start n out))"
    by (simp add: CopyStringModifiedUtf8Region_def CopyStringRegion_def modified_region Let_def
        split: option.split)
  then show ?thesis
    using modified_no_nul decode_modified_units
    by (simp add: ModifiedUtf8ToUtf16_def modified_region takeWhile_no_nul)
qed

end
