(* ===== verification/Launch_Uri.thy ===== *)
theory Launch_Uri
  imports Jni_Text Game_Session "HOL-Library.Countable" "HOL-Library.Code_Target_Nat"
begin

text \<open>
  The website launch protocols (\<open>src/runtime/roblox_launch_uri.cc\<close>): a launch URI or a WebView
  command becomes launch lf, is validated and handed, as a JSON document, to the experience
  launch parser (\<open>ParseRobloxExperienceLaunchJson\<close> in
  \<open>src/runtime/roblox_experience_launch_bridge.cc\<close>). Texts are byte strings. The URL parser (libcurl),
  the JSON library and the presence service are outside the sources: they are the lf of a
  \<open>LaunchEnv\<close>. Errors are the left values of a sum.
\<close>

section \<open>Data\<close>

definition kMaximumParameterCount :: nat where "kMaximumParameterCount = 64"
definition kMaximumParameterKeyBytes :: nat where "kMaximumParameterKeyBytes = 128"
definition kMaximumParameterValueBytes :: nat where "kMaximumParameterValueBytes = 16 * 1024"
definition kMaximumRobloxLaunchUriBytes :: nat where "kMaximumRobloxLaunchUriBytes = 64 * 1024"
definition kModernExperiencePrefix :: bytes where "kModernExperiencePrefix = ascii ''//experiences/start?''"
definition kModernDirectPrefix :: bytes where "kModernDirectPrefix = ascii ''//placeid=''"
definition kPlaceLauncherPath :: bytes where "kPlaceLauncherPath = ascii ''/game/placelauncher.ashx''"

type_synonym 'a fallible = "Status + 'a"

abbreviation Invalid :: "string \<Rightarrow> 'a fallible" where
  "Invalid m \<equiv> Inl (Status_Error kInvalidArgument m)"

definition bind_ok :: "'a fallible \<Rightarrow> ('a \<Rightarrow> 'b fallible) \<Rightarrow> 'b fallible" where
  "bind_ok r f = (case r of Inl st \<Rightarrow> Inl st | Inr x \<Rightarrow> f x)"

record LaunchFields =
  lf_place_id :: int
  lf_user_id :: int
  lf_conversation_id :: int
  lf_referred_by_player_id :: int
  lf_request_type :: bytes
  lf_game_instance_id :: bytes
  lf_reserved_server_access_code :: bytes
  lf_call_id :: bytes
  lf_referral_page :: bytes
  lf_access_code :: bytes
  lf_link_code :: bytes
  lf_launch_data :: bytes
  lf_event_id :: bytes
  lf_game_join_context :: bytes
  lf_join_attempt_id :: bytes
  lf_join_attempt_origin :: bytes
  lf_iso_context :: bytes
  lf_seen_fields :: "string list"

definition LaunchFields_default :: LaunchFields where
  "LaunchFields_default =
     \<lparr>lf_place_id = 0, lf_user_id = 0, lf_conversation_id = 0, lf_referred_by_player_id = 0,
      lf_request_type = [], lf_game_instance_id = [], lf_reserved_server_access_code = [],
      lf_call_id = [], lf_referral_page = [], lf_access_code = [], lf_link_code = [],
      lf_launch_data = [], lf_event_id = [], lf_game_join_context = [], lf_join_attempt_id = [],
      lf_join_attempt_origin = [], lf_iso_context = [], lf_seen_fields = []\<rparr>"

record RobloxExperienceLaunchRequest =
  rl_place_id :: int
  rl_user_id :: int
  rl_conversation_id :: int
  rl_referred_by_player_id :: int
  rl_game_instance_id :: bytes
  rl_reserved_server_access_code :: bytes
  rl_call_id :: bytes
  rl_referral_page :: bytes
  rl_access_code :: bytes
  rl_link_code :: bytes
  rl_launch_data :: bytes
  rl_event_id :: bytes
  rl_game_join_context :: bytes
  rl_join_attempt_id :: bytes
  rl_join_attempt_origin :: bytes
  rl_iso_context :: bytes
  rl_canonical_json :: bytes

definition RobloxExperienceLaunchRequest_default :: RobloxExperienceLaunchRequest where
  "RobloxExperienceLaunchRequest_default =
     \<lparr>rl_place_id = 0, rl_user_id = 0, rl_conversation_id = 0, rl_referred_by_player_id = 0,
      rl_game_instance_id = [], rl_reserved_server_access_code = [], rl_call_id = [],
      rl_referral_page = [], rl_access_code = [], rl_link_code = [], rl_launch_data = [],
      rl_event_id = [], rl_game_join_context = [], rl_join_attempt_id = [],
      rl_join_attempt_origin = [], rl_iso_context = [], rl_canonical_json = []\<rparr>"

section \<open>The environment\<close>

text \<open>
  JSON values as the library presents them; an integer of the document is a mathematical integer,
  a floating-point number is not inspected. A URL part is None when the library reports no part.
\<close>

datatype Json =
    JNull | JBool bool | JInteger int | JFloat rat | JString bytes | JArray "Json list"
  | JObject "(string \<times> Json) list"

record CurlUrl =
  cu_scheme :: "bytes option"
  cu_host :: "bytes option"
  cu_path :: "bytes option"
  cu_query :: "bytes option"
  cu_user :: "bytes option"
  cu_password :: "bytes option"
  cu_fragment :: "bytes option"
  cu_port :: "bytes option"

record ResolvedFollowUserPlace =
  rf_place_id :: int
  rf_game_instance_id :: bytes

record LaunchEnv =
  le_curl_url :: "bytes \<Rightarrow> CurlUrl option"
  le_resolve :: "int \<Rightarrow> ResolvedFollowUserPlace fallible"
  le_json_parse :: "bytes \<Rightarrow> Json option"
  le_json_dump :: "Json \<Rightarrow> bytes"

section \<open>Texts\<close>

definition AsciiLower :: "bytes \<Rightarrow> bytes" where
  "AsciiLower value = map ascii_lower value"

definition is_control :: "u8 \<Rightarrow> bool" where
  "is_control b \<longleftrightarrow> b < 0x20 \<or> b = 0x7f"

definition ContainsControlBytes :: "bytes \<Rightarrow> bool" where
  "ContainsControlBytes value \<longleftrightarrow> list_ex is_control value"

text \<open>The lead byte gives the number of continuation bytes and its payload bits.\<close>

definition utf8_lead :: "u8 \<Rightarrow> (nat \<times> u32) option" where
  "utf8_lead first =
     (if first \<ge> 0xc2 \<and> first \<le> 0xdf then Some (1, ucast (first AND 0x1f))
      else if first \<ge> 0xe0 \<and> first \<le> 0xef then Some (2, ucast (first AND 0x0f))
      else if first \<ge> 0xf0 \<and> first \<le> 0xf4 then Some (3, ucast (first AND 0x07))
      else None)"

fun utf8_continue :: "u32 \<Rightarrow> bytes \<Rightarrow> u32 option" where
  "utf8_continue c [] = Some c"
| "utf8_continue c (b # bs) =
     (if b AND 0xc0 \<noteq> 0x80 then None else utf8_continue (push_bit 6 c OR ucast (b AND 0x3f)) bs)"

function IsValidUtf8 :: "bytes \<Rightarrow> bool" where
  "IsValidUtf8 [] = True"
| "IsValidUtf8 (first # rest) =
     (if first \<le> 0x7f then IsValidUtf8 rest
      else case utf8_lead first of
        None \<Rightarrow> False
      | Some (n, c) \<Rightarrow>
          if n \<ge> Suc (length rest) then False
          else case utf8_continue c (take n rest) of
            None \<Rightarrow> False
          | Some cp \<Rightarrow>
              if n = 2 \<and> cp < 0x800 \<or> n = 3 \<and> cp < 0x10000 \<or> cp \<ge> 0xd800 \<and> cp \<le> 0xdfff \<or>
                 cp > 0x10ffff
              then False
              else IsValidUtf8 (drop n rest))"
  by pat_completeness auto
termination
  by (relation "measure length") auto

definition HexDigitValue :: "u8 \<Rightarrow> int" where
  "HexDigitValue c =
     (if c \<ge> 0x30 \<and> c \<le> 0x39 then uint c - 0x30
      else if c \<ge> 0x61 \<and> c \<le> 0x66 then uint c - 0x61 + 10
      else if c \<ge> 0x41 \<and> c \<le> 0x46 then uint c - 0x41 + 10
      else - 1)"

definition push_decoded :: "u8 \<Rightarrow> bytes fallible \<Rightarrow> bytes fallible" where
  "push_decoded value rest =
     (if is_control value then Invalid ''Roblox launch URI contains a control byte''
      else bind_ok rest (\<lambda>ds. Inr (value # ds)))"

fun percent_loop :: "bool \<Rightarrow> bytes \<Rightarrow> bytes fallible" where
  "percent_loop plus_as_space [] = Inr []"
| "percent_loop plus_as_space (c # rest) =
     (if c = 0x25
      then case rest of
          h # l # rest' \<Rightarrow>
            (let high = HexDigitValue h; low = HexDigitValue l in
             if high < 0 \<or> low < 0
             then Invalid ''Roblox launch URI contains invalid percent encoding''
             else push_decoded (word_of_int (push_bit 4 high OR low)) (percent_loop plus_as_space rest'))
        | _ \<Rightarrow> Invalid ''Roblox launch URI contains invalid percent encoding''
      else push_decoded (if c = 0x2b \<and> plus_as_space then 0x20 else c)
             (percent_loop plus_as_space rest))"

definition PercentDecode :: "bytes \<Rightarrow> bool \<Rightarrow> bytes fallible" where
  "PercentDecode encoded plus_as_space =
     (if length encoded > kMaximumParameterValueBytes
      then Invalid ''Roblox launch parameter size is invalid''
      else bind_ok (percent_loop plus_as_space encoded) (\<lambda>decoded.
        if length decoded > kMaximumParameterValueBytes \<or> \<not> IsValidUtf8 decoded
        then Invalid ''Roblox launch parameter is not bounded UTF-8''
        else Inr decoded))"

text \<open>
  \<open>std::from_chars\<close> on an int64: the longest digit prefix (the caller has excluded a sign), its
  value when in range, and the unread rest.
\<close>

definition is_digit :: "u8 \<Rightarrow> bool" where
  "is_digit b \<longleftrightarrow> b \<ge> 0x30 \<and> b \<le> 0x39"

definition digits_value :: "bytes \<Rightarrow> int" where
  "digits_value ds = foldl (\<lambda>n d. 10 * n + (uint d - 0x30)) 0 ds"

definition from_chars :: "bytes \<Rightarrow> (int \<times> bytes) option" where
  "from_chars value =
     (let ds = takeWhile is_digit value in
      if ds = [] \<or> digits_value ds > 2 ^ 63 - 1 then None
      else Some (digits_value ds, dropWhile is_digit value))"

definition ReadDecimalInteger :: "bytes \<Rightarrow> string \<Rightarrow> bool \<Rightarrow> int fallible" where
  "ReadDecimalInteger value field_name allow_zero =
     (if value = [] \<or> hd value = 0x2b \<or> hd value = 0x2d
      then Invalid (''Roblox launch integer is invalid: '' @ field_name)
      else case from_chars value of
        None \<Rightarrow> Invalid (''Roblox launch integer is invalid: '' @ field_name)
      | Some (parsed, rest) \<Rightarrow>
          if rest \<noteq> [] \<or> parsed < 0 \<or> (\<not> allow_zero \<and> parsed = 0)
          then Invalid (''Roblox launch integer is invalid: '' @ field_name)
          else Inr parsed)"

section \<open>Fields\<close>

definition RememberField :: "string \<Rightarrow> LaunchFields \<Rightarrow> LaunchFields fallible" where
  "RememberField canonical_name lf =
     (if canonical_name \<in> set (lf_seen_fields lf)
      then Invalid ''Roblox launch URI repeats a singleton field''
      else Inr (lf\<lparr>lf_seen_fields := canonical_name # lf_seen_fields lf\<rparr>))"

text \<open>The alias table of \<open>AssignField\<close>, on the lower-cased key.\<close>

definition field_aliases :: "(string \<times> string) list" where
  "field_aliases =
     [(''request'', ''request''), (''placeid'', ''placeId''), (''userid'', ''userId''),
      (''conversationid'', ''conversationId''), (''referredbyplayerid'', ''referredByPlayerId''),
      (''gameid'', ''gameInstanceId''), (''gameinstanceid'', ''gameInstanceId''),
      (''instanceid'', ''gameInstanceId''),
      (''reservedserveraccesscode'', ''reservedServerAccessCode''), (''callid'', ''callId''),
      (''referralpage'', ''referralPage''), (''accesscode'', ''accessCode''),
      (''linkcode'', ''linkCode''), (''privateserverlinkcode'', ''linkCode''),
      (''launchdata'', ''launchData''), (''eventid'', ''eventId''),
      (''gamejoincontext'', ''gameJoinContext''), (''joinattemptid'', ''joinAttemptId''),
      (''joinattemptorigin'', ''joinAttemptOrigin''), (''isocontext'', ''isoContext'')]"

definition canonical_key :: "bytes \<Rightarrow> string option" where
  "canonical_key key = map_of (map (\<lambda>(a, c). (ascii a, c)) field_aliases) key"

definition store_field :: "string \<Rightarrow> bytes \<Rightarrow> LaunchFields \<Rightarrow> LaunchFields fallible" where
  "store_field canonical value lf =
     (if canonical = ''request'' then Inr (lf\<lparr>lf_request_type := value\<rparr>)
      else if canonical = ''placeId''
      then bind_ok (ReadDecimalInteger value ''placeId'' False) (\<lambda>n. Inr (lf\<lparr>lf_place_id := n\<rparr>))
      else if canonical = ''userId''
      then bind_ok (ReadDecimalInteger value ''userId'' True) (\<lambda>n. Inr (lf\<lparr>lf_user_id := n\<rparr>))
      else if canonical = ''conversationId''
      then bind_ok (ReadDecimalInteger value ''conversationId'' True)
             (\<lambda>n. Inr (lf\<lparr>lf_conversation_id := n\<rparr>))
      else if canonical = ''referredByPlayerId''
      then bind_ok (ReadDecimalInteger value ''referredByPlayerId'' True)
             (\<lambda>n. Inr (lf\<lparr>lf_referred_by_player_id := n\<rparr>))
      else if canonical = ''gameInstanceId'' then Inr (lf\<lparr>lf_game_instance_id := value\<rparr>)
      else if canonical = ''reservedServerAccessCode''
      then Inr (lf\<lparr>lf_reserved_server_access_code := value\<rparr>)
      else if canonical = ''callId'' then Inr (lf\<lparr>lf_call_id := value\<rparr>)
      else if canonical = ''referralPage'' then Inr (lf\<lparr>lf_referral_page := value\<rparr>)
      else if canonical = ''accessCode'' then Inr (lf\<lparr>lf_access_code := value\<rparr>)
      else if canonical = ''linkCode'' then Inr (lf\<lparr>lf_link_code := value\<rparr>)
      else if canonical = ''launchData'' then Inr (lf\<lparr>lf_launch_data := value\<rparr>)
      else if canonical = ''eventId'' then Inr (lf\<lparr>lf_event_id := value\<rparr>)
      else if canonical = ''gameJoinContext'' then Inr (lf\<lparr>lf_game_join_context := value\<rparr>)
      else if canonical = ''joinAttemptId'' then Inr (lf\<lparr>lf_join_attempt_id := value\<rparr>)
      else if canonical = ''joinAttemptOrigin'' then Inr (lf\<lparr>lf_join_attempt_origin := value\<rparr>)
      else if canonical = ''isoContext'' then Inr (lf\<lparr>lf_iso_context := value\<rparr>)
      else Inr lf)"

definition AssignField :: "bytes \<Rightarrow> bytes \<Rightarrow> bool \<Rightarrow> LaunchFields \<Rightarrow> LaunchFields fallible" where
  "AssignField raw_key value decode_modern_launch_data lf =
     (if raw_key = [] \<or> length raw_key > kMaximumParameterKeyBytes
      then Invalid ''Roblox launch parameter key is invalid''
      else case canonical_key (AsciiLower raw_key) of
        None \<Rightarrow> Inr lf
      | Some canonical \<Rightarrow>
          bind_ok (RememberField canonical lf) (\<lambda>lf1.
            bind_ok (if canonical = ''launchData'' \<and> decode_modern_launch_data \<and> 0x25 \<in> set value
                     then PercentDecode value False else Inr value)
              (\<lambda>value1. store_field canonical value1 lf1)))"

section \<open>Queries and payloads\<close>

text \<open>
  The loops \<open>begin = end + 1\<close> over \<open>find(separator, begin)\<close> visit the pieces between separators;
  a text without a separator is one piece.
\<close>

fun split_on :: "u8 \<Rightarrow> bytes \<Rightarrow> bytes list" where
  "split_on c [] = [[]]"
| "split_on c (b # bs) =
     (if b = c then [] # split_on c bs
      else case split_on c bs of [] \<Rightarrow> [[b]] | p # ps \<Rightarrow> (b # p) # ps)"

fun query_loop :: "bool \<Rightarrow> nat \<Rightarrow> bytes list \<Rightarrow> LaunchFields \<Rightarrow> LaunchFields fallible" where
  "query_loop decode count [] lf = Inr lf"
| "query_loop decode count (pair # pairs) lf =
     (if Suc count > kMaximumParameterCount
      then Invalid ''Roblox launch URI has too many parameters''
      else if pair = [] then Invalid ''Roblox launch URI contains an empty parameter''
      else let key_text = takeWhile (\<lambda>b. b \<noteq> 0x3d) pair in
        if length key_text = length pair \<or> key_text = []
        then Invalid ''Roblox launch URI parameter has no value''
        else bind_ok (PercentDecode key_text True) (\<lambda>key.
          bind_ok (PercentDecode (drop (Suc (length key_text)) pair) True) (\<lambda>value.
            bind_ok (AssignField key value decode lf) (query_loop decode (Suc count) pairs))))"

definition ParseQuery :: "bytes \<Rightarrow> bool \<Rightarrow> LaunchFields \<Rightarrow> LaunchFields fallible" where
  "ParseQuery query decode_modern_launch_data lf =
     (if query = [] then Invalid ''Roblox launch URI query is missing''
      else query_loop decode_modern_launch_data 0 (split_on 0x26 query) lf)"

definition GetRequiredUrlPart :: "bytes option \<Rightarrow> string \<Rightarrow> bytes fallible" where
  "GetRequiredUrlPart part label =
     (case part of
        None \<Rightarrow> Invalid (''Roblox PlaceLauncher URL has no '' @ label)
      | Some value \<Rightarrow> Inr value)"

definition HasUrlPart :: "bytes option \<Rightarrow> bool" where
  "HasUrlPart part \<longleftrightarrow> (case part of None \<Rightarrow> False | Some value \<Rightarrow> value \<noteq> [])"

definition ParsePlaceLauncherUrl :: "LaunchEnv \<Rightarrow> bytes \<Rightarrow> LaunchFields \<Rightarrow> LaunchFields fallible" where
  "ParsePlaceLauncherUrl env launcher_url lf =
     (if launcher_url = [] \<or> length launcher_url > kMaximumRobloxLaunchUriBytes \<or>
         ContainsControlBytes launcher_url \<or> \<not> IsValidUtf8 launcher_url
      then Invalid ''Roblox PlaceLauncher URL is invalid''
      else case le_curl_url env launcher_url of
        None \<Rightarrow> Invalid ''Roblox PlaceLauncher URL cannot be parsed''
      | Some parsed \<Rightarrow>
          bind_ok (GetRequiredUrlPart (cu_scheme parsed) ''scheme'') (\<lambda>scheme.
          bind_ok (GetRequiredUrlPart (cu_host parsed) ''host'') (\<lambda>host.
          bind_ok (GetRequiredUrlPart (cu_path parsed) ''path'') (\<lambda>path.
          bind_ok (GetRequiredUrlPart (cu_query parsed) ''query'') (\<lambda>query.
            if AsciiLower scheme \<noteq> ascii ''https'' \<or>
               (AsciiLower host \<noteq> ascii ''www.roblox.com'' \<and> AsciiLower host \<noteq> ascii ''roblox.com'' \<and>
                AsciiLower host \<noteq> ascii ''assetgame.roblox.com'') \<or>
               AsciiLower path \<noteq> kPlaceLauncherPath \<or>
               HasUrlPart (cu_user parsed) \<or> HasUrlPart (cu_password parsed) \<or>
               HasUrlPart (cu_fragment parsed)
            then Invalid ''Roblox PlaceLauncher URL origin or path is not allowed''
            else if (case cu_port parsed of None \<Rightarrow> False | Some port \<Rightarrow> port \<noteq> ascii ''443'')
            then Invalid ''Roblox PlaceLauncher URL port is not allowed''
            else ParseQuery query False lf)))))"

record ClassicState =
  cl_version_seen :: bool
  cl_launch_mode_seen :: bool
  cl_launcher_url :: "bytes option"

definition classic_field :: "bytes \<Rightarrow> ClassicState \<Rightarrow> ClassicState fallible" where
  "classic_field field st =
     (if length field > kMaximumParameterKeyBytes + 1 + kMaximumParameterValueBytes
      then Invalid ''Roblox player launch field is too large''
      else if \<not> cl_version_seen st
      then if field \<noteq> ascii ''1'' then Invalid ''Roblox player launch version is unsupported''
           else Inr (st\<lparr>cl_version_seen := True\<rparr>)
      else let key_text = takeWhile (\<lambda>b. b \<noteq> 0x3a) field in
        if length key_text = length field \<or> key_text = []
        then Invalid ''Roblox player launch field is malformed''
        else let key = AsciiLower key_text; encoded_value = drop (Suc (length key_text)) field in
          if key = ascii ''launchmode''
          then if cl_launch_mode_seen st then Invalid ''Roblox player launch repeats launchmode''
               else bind_ok (PercentDecode encoded_value False) (\<lambda>launch_mode.
                 if AsciiLower launch_mode \<noteq> ascii ''play''
                 then Invalid ''Roblox player launch mode is unsupported''
                 else Inr (st\<lparr>cl_launch_mode_seen := True\<rparr>))
          else if key = ascii ''placelauncherurl''
          then if cl_launcher_url st \<noteq> None
               then Invalid ''Roblox player launch repeats PlaceLauncher URL''
               else bind_ok (PercentDecode encoded_value False) (\<lambda>url.
                 Inr (st\<lparr>cl_launcher_url := Some url\<rparr>))
          else Inr st)"

fun classic_loop :: "nat \<Rightarrow> bytes list \<Rightarrow> ClassicState \<Rightarrow> ClassicState fallible" where
  "classic_loop count [] st = Inr st"
| "classic_loop count (field # fs) st =
     (if Suc count > kMaximumParameterCount
      then Invalid ''Roblox player launch payload has too many fields''
      else bind_ok (classic_field field st) (classic_loop (Suc count) fs))"

definition ParseClassic :: "LaunchEnv \<Rightarrow> bytes \<Rightarrow> LaunchFields \<Rightarrow> LaunchFields fallible" where
  "ParseClassic env payload lf =
     (if payload = [] then Invalid ''Roblox player launch payload is missing''
      else bind_ok (classic_loop 0 (split_on 0x2b payload)
             \<lparr>cl_version_seen = False, cl_launch_mode_seen = False, cl_launcher_url = None\<rparr>) (\<lambda>st.
        if \<not> cl_version_seen st \<or> \<not> cl_launch_mode_seen st \<or> cl_launcher_url st = None
        then Invalid ''Roblox player launch contract is incomplete''
        else bind_ok (ParsePlaceLauncherUrl env (the (cl_launcher_url st)) lf) (\<lambda>lf1.
          if lf_request_type lf1 = [] then Invalid ''Roblox PlaceLauncher request type is missing''
          else Inr lf1)))"

definition ParseModern :: "bytes \<Rightarrow> LaunchFields \<Rightarrow> LaunchFields fallible" where
  "ParseModern payload lf =
     (let route =
        (if length payload > length kModernExperiencePrefix \<and>
            AsciiLower (take (length kModernExperiencePrefix) payload) = kModernExperiencePrefix
         then Some (drop (length kModernExperiencePrefix) payload, True)
         else if length payload \<ge> length kModernDirectPrefix \<and>
            AsciiLower (take (length kModernDirectPrefix) payload) = kModernDirectPrefix
         then Some (drop 2 payload, False)
         else None)
      in case route of
        None \<Rightarrow> Invalid ''Roblox launch path is unsupported''
      | Some (query, decode_launch_data_twice) \<Rightarrow>
          if 0x23 \<in> set query \<or> 0x2f \<in> set query
          then Invalid ''Roblox launch URI contains an unsupported fragment''
          else ParseQuery query decode_launch_data_twice lf)"

section \<open>Requests\<close>

definition private_join :: "LaunchFields \<Rightarrow> bool" where
  "private_join lf \<longleftrightarrow> lf_access_code lf \<noteq> [] \<or> lf_link_code lf \<noteq> []"

definition selectors :: "LaunchFields \<Rightarrow> bool list" where
  "selectors lf =
     [lf_user_id lf > 0, lf_conversation_id lf > 0, private_join lf, lf_game_instance_id lf \<noteq> [],
      lf_reserved_server_access_code lf \<noteq> []]"

definition selector_count :: "LaunchFields \<Rightarrow> nat" where
  "selector_count lf = length (filter id (selectors lf))"

definition ValidateSelector :: "LaunchFields \<Rightarrow> unit fallible" where
  "ValidateSelector lf =
     (if selector_count lf > 1 then Invalid ''Roblox launch URI contains conflicting join selectors''
      else if lf_request_type lf = [] then Inr ()
      else let request = AsciiLower (lf_request_type lf) in
        if request = ascii ''requestgame''
        then if selector_count lf = 0 then Inr ()
             else Invalid ''RequestGame contains a non-public join selector''
        else if request = ascii ''requestgamejob''
        then if lf_game_instance_id lf \<noteq> [] then Inr ()
             else Invalid ''RequestGameJob requires a game instance''
        else if request = ascii ''requestprivategame''
        then if private_join lf \<or> lf_reserved_server_access_code lf \<noteq> [] then Inr ()
             else Invalid ''RequestPrivateGame requires an access code''
        else if request = ascii ''requestplaytogethergame''
        then if lf_conversation_id lf > 0 then Inr ()
             else Invalid ''RequestPlayTogetherGame requires a conversation''
        else if request = ascii ''requestfollowuser''
        then if lf_place_id lf > 0 then Inr ()
             else Invalid ''RequestFollowUser could not resolve a place''
        else Invalid ''Roblox PlaceLauncher request type is unsupported'')"

definition add_integer :: "string \<Rightarrow> int \<Rightarrow> (string \<times> Json) list" where
  "add_integer name value = (if value > 0 then [(name, JInteger value)] else [])"

definition add_string :: "string \<Rightarrow> bytes \<Rightarrow> (string \<times> Json) list" where
  "add_string name value = (if value \<noteq> [] then [(name, JString value)] else [])"

definition launch_document :: "LaunchFields \<Rightarrow> Json" where
  "launch_document lf =
     JObject (concat
       [[(''placeId'', JInteger (lf_place_id lf))],
        add_integer ''userId'' (lf_user_id lf),
        add_integer ''conversationId'' (lf_conversation_id lf),
        add_integer ''referredByPlayerId'' (lf_referred_by_player_id lf),
        add_string ''gameInstanceId'' (lf_game_instance_id lf),
        add_string ''reservedServerAccessCode'' (lf_reserved_server_access_code lf),
        add_string ''callId'' (lf_call_id lf),
        add_string ''referralPage'' (lf_referral_page lf),
        add_string ''accessCode'' (lf_access_code lf),
        add_string ''linkCode'' (lf_link_code lf),
        add_string ''launchData'' (lf_launch_data lf),
        add_string ''eventId'' (lf_event_id lf),
        add_string ''gameJoinContext'' (lf_game_join_context lf),
        add_string ''joinAttemptId'' (lf_join_attempt_id lf),
        add_string ''joinAttemptOrigin'' (lf_join_attempt_origin lf),
        add_string ''isoContext'' (lf_iso_context lf)])"

definition kMaximumLaunchStringBytes :: nat where "kMaximumLaunchStringBytes = 16 * 1024"
definition kMaximumExperienceLaunchJsonBytes :: nat where
  "kMaximumExperienceLaunchJsonBytes = 64 * 1024"

text \<open>A missing or null member leaves the default value.\<close>

definition ReadOptionalInteger :: "(string \<times> Json) list \<Rightarrow> string \<Rightarrow> int \<Rightarrow> int fallible" where
  "ReadOptionalInteger members name value =
     (case map_of members name of
        None \<Rightarrow> Inr value
      | Some JNull \<Rightarrow> Inr value
      | Some (JInteger n) \<Rightarrow>
          if n > 2 ^ 63 - 1 then Invalid (''experience launch integer is out of range: '' @ name)
          else Inr n
      | Some _ \<Rightarrow> Invalid (''experience launch field is not an integer: '' @ name))"

definition ReadOptionalString :: "(string \<times> Json) list \<Rightarrow> string \<Rightarrow> bytes \<Rightarrow> bytes fallible" where
  "ReadOptionalString members name value =
     (case map_of members name of
        None \<Rightarrow> Inr value
      | Some JNull \<Rightarrow> Inr value
      | Some (JString t) \<Rightarrow>
          if length t > kMaximumLaunchStringBytes
          then Invalid (''experience launch field is too large: '' @ name) else Inr t
      | Some _ \<Rightarrow> Invalid (''experience launch field is not a string: '' @ name))"

definition read_integers ::
  "(string \<times> Json) list \<Rightarrow> RobloxExperienceLaunchRequest \<Rightarrow> RobloxExperienceLaunchRequest fallible" where
  "read_integers ms r =
     bind_ok (ReadOptionalInteger ms ''placeId'' (rl_place_id r)) (\<lambda>a.
     bind_ok (ReadOptionalInteger ms ''userId'' (rl_user_id r)) (\<lambda>b.
     bind_ok (ReadOptionalInteger ms ''conversationId'' (rl_conversation_id r)) (\<lambda>c.
     bind_ok (ReadOptionalInteger ms ''referredByPlayerId'' (rl_referred_by_player_id r)) (\<lambda>d.
       Inr (r\<lparr>rl_place_id := a, rl_user_id := b, rl_conversation_id := c,
              rl_referred_by_player_id := d\<rparr>)))))"

text \<open>The table \<open>kStringFields\<close>: a member name with the field it is read into.\<close>

type_synonym string_field =
  "string \<times> (RobloxExperienceLaunchRequest \<Rightarrow> bytes) \<times>
   (bytes \<Rightarrow> RobloxExperienceLaunchRequest \<Rightarrow> RobloxExperienceLaunchRequest)"

definition kStringFields :: "string_field list" where
  "kStringFields =
     [(''gameInstanceId'', rl_game_instance_id, \<lambda>v r. r\<lparr>rl_game_instance_id := v\<rparr>),
      (''reservedServerAccessCode'', rl_reserved_server_access_code, \<lambda>v r. r\<lparr>rl_reserved_server_access_code := v\<rparr>),
      (''callId'', rl_call_id, \<lambda>v r. r\<lparr>rl_call_id := v\<rparr>),
      (''referralPage'', rl_referral_page, \<lambda>v r. r\<lparr>rl_referral_page := v\<rparr>),
      (''accessCode'', rl_access_code, \<lambda>v r. r\<lparr>rl_access_code := v\<rparr>),
      (''linkCode'', rl_link_code, \<lambda>v r. r\<lparr>rl_link_code := v\<rparr>),
      (''launchData'', rl_launch_data, \<lambda>v r. r\<lparr>rl_launch_data := v\<rparr>),
      (''eventId'', rl_event_id, \<lambda>v r. r\<lparr>rl_event_id := v\<rparr>),
      (''gameJoinContext'', rl_game_join_context, \<lambda>v r. r\<lparr>rl_game_join_context := v\<rparr>),
      (''joinAttemptId'', rl_join_attempt_id, \<lambda>v r. r\<lparr>rl_join_attempt_id := v\<rparr>),
      (''joinAttemptOrigin'', rl_join_attempt_origin, \<lambda>v r. r\<lparr>rl_join_attempt_origin := v\<rparr>),
      (''isoContext'', rl_iso_context, \<lambda>v r. r\<lparr>rl_iso_context := v\<rparr>)]"

fun read_strings ::
  "string_field list \<Rightarrow> (string \<times> Json) list \<Rightarrow> RobloxExperienceLaunchRequest \<Rightarrow>
     RobloxExperienceLaunchRequest fallible" where
  "read_strings [] ms r = Inr r"
| "read_strings ((name, get, put) # fs) ms r =
     bind_ok (ReadOptionalString ms name (get r)) (\<lambda>v. read_strings fs ms (put v r))"

definition ParseRobloxExperienceLaunchJson ::
  "LaunchEnv \<Rightarrow> bytes \<Rightarrow> RobloxExperienceLaunchRequest fallible" where
  "ParseRobloxExperienceLaunchJson env json =
     (if json = [] \<or> length json > kMaximumExperienceLaunchJsonBytes
      then Invalid ''experience launch JSON size is invalid''
      else case le_json_parse env json of
        Some (JObject ms) \<Rightarrow>
          bind_ok (bind_ok (read_integers ms RobloxExperienceLaunchRequest_default)
                     (read_strings kStringFields ms)) (\<lambda>parsed.
            if rl_place_id parsed \<le> 0
            then Invalid ''experience launch requires a positive placeId''
            else if rl_user_id parsed < 0 \<or> rl_conversation_id parsed < 0 \<or>
                    rl_referred_by_player_id parsed < 0
            then Invalid ''experience launch identifiers cannot be negative''
            else let canonical = le_json_dump env (JObject ms) in
              if length canonical > kMaximumExperienceLaunchJsonBytes
              then Invalid ''canonical experience launch JSON is too large''
              else Inr (parsed\<lparr>rl_canonical_json := canonical\<rparr>))
      | _ \<Rightarrow> Invalid ''experience launch payload is not a JSON object'')"

definition MakeRequest ::
  "LaunchEnv \<Rightarrow> LaunchFields \<Rightarrow> RobloxExperienceLaunchRequest fallible" where
  "MakeRequest env lf_in =
     (let is_follow_user = AsciiLower (lf_request_type lf_in) = ascii ''requestfollowuser'' in
      if lf_place_id lf_in \<le> 0 \<and> \<not> is_follow_user
      then Invalid ''Roblox launch URI requires a positive placeId''
      else bind_ok
        (if lf_place_id lf_in \<le> 0 \<and> is_follow_user
         then bind_ok (le_resolve env (lf_user_id lf_in)) (\<lambda>resolved.
           let lf1 = lf_in\<lparr>lf_place_id := rf_place_id resolved\<rparr>;
               lf2 = (if rf_game_instance_id resolved \<noteq> []
                      then lf1\<lparr>lf_game_instance_id := rf_game_instance_id resolved\<rparr> else lf1)
           in Inr (lf2\<lparr>lf_user_id := 0\<rparr>))
         else Inr lf_in)
        (\<lambda>lf. bind_ok (ValidateSelector lf) (\<lambda>u.
           ParseRobloxExperienceLaunchJson env (le_json_dump env (launch_document lf)))))"

definition ParseRobloxLaunchUri ::
  "LaunchEnv \<Rightarrow> bytes \<Rightarrow> RobloxExperienceLaunchRequest fallible" where
  "ParseRobloxLaunchUri env uri =
     (if uri = [] \<or> length uri > kMaximumRobloxLaunchUriBytes \<or> ContainsControlBytes uri \<or>
         \<not> IsValidUtf8 uri
      then Invalid ''Roblox launch URI size or encoding is invalid''
      else let scheme_text = takeWhile (\<lambda>b. b \<noteq> 0x3a) uri in
        if length scheme_text = length uri \<or> scheme_text = []
        then Invalid ''Roblox launch URI has no supported scheme''
        else let scheme = AsciiLower scheme_text; payload = drop (Suc (length scheme_text)) uri in
          bind_ok
            (if scheme = ascii ''roblox-player'' then ParseClassic env payload LaunchFields_default
             else if scheme = ascii ''roblox'' then ParseModern payload LaunchFields_default
             else Invalid ''Roblox launch URI scheme is unsupported'')
            (MakeRequest env))"

text \<open>
  A member of the WebView request: \<open>std::to_string\<close> prints an unsigned number; other members are
  skipped. A non-negative integer of a parsed document is an unsigned number.
\<close>

fun decimal_digits :: "nat \<Rightarrow> bytes" where
  "decimal_digits n =
     (if n < 10 then [of_nat (0x30 + n)]
      else decimal_digits (n div 10) @ [of_nat (0x30 + n mod 10)])"

declare decimal_digits.simps [simp del]

definition member_text :: "Json \<Rightarrow> bytes option" where
  "member_text v =
     (case v of JString t \<Rightarrow> Some t
      | JInteger n \<Rightarrow> if n \<ge> 0 then Some (decimal_digits (nat n)) else None
      | _ \<Rightarrow> None)"

fun webview_members :: "(string \<times> Json) list \<Rightarrow> LaunchFields \<Rightarrow> LaunchFields fallible" where
  "webview_members [] lf = Inr lf"
| "webview_members ((key, value) # ms) lf =
     (case member_text value of
        None \<Rightarrow> webview_members ms lf
      | Some t \<Rightarrow>
          if length t > kMaximumParameterValueBytes \<or> ContainsControlBytes t
          then Invalid ''Roblox launchGame field is invalid''
          else bind_ok (AssignField (ascii (if key = ''requestType'' then ''request'' else key)) t False lf)
                 (webview_members ms))"

definition ParseRobloxWebViewLaunchGame ::
  "LaunchEnv \<Rightarrow> bytes \<Rightarrow> RobloxExperienceLaunchRequest fallible" where
  "ParseRobloxWebViewLaunchGame env command =
     (let document = (if length command \<le> kMaximumRobloxLaunchUriBytes
                      then le_json_parse env command else None) in
      case document of
        Some (JObject ms) \<Rightarrow>
          if map_of ms ''functionName'' \<noteq> Some (JString (ascii ''launchGame''))
          then Inl (Status_Error kUnsupported ''WebView command is not launchGame'')
          else (case map_of ms ''params'' of
              Some (JObject params) \<Rightarrow>
                (case map_of params ''request'' of
                   Some (JObject launch) \<Rightarrow>
                     if length launch > kMaximumParameterCount
                     then Invalid ''Roblox launchGame request has too many fields''
                     else bind_ok (webview_members launch LaunchFields_default) (\<lambda>lf.
                       if lf_request_type lf = []
                       then Invalid ''Roblox launchGame request type is missing''
                       else MakeRequest env lf)
                 | _ \<Rightarrow> Invalid ''Roblox launchGame has no request'')
            | _ \<Rightarrow> Invalid ''Roblox launchGame has no params'')
      | _ \<Rightarrow> Inl (Status_Error kUnsupported ''WebView command is not launchGame''))"

definition chars :: "bytes \<Rightarrow> string" where
  "chars bs = map (\<lambda>b. char_of (unat b)) bs"

definition MakeGameJoinRequest :: "u64 \<Rightarrow> RobloxExperienceLaunchRequest \<Rightarrow> GameJoinRequest" where
  "MakeGameJoinRequest request_id request =
     \<lparr>gr_request_id = request_id, gr_place_id = rl_place_id request,
      gr_launch_parameters = chars (rl_canonical_json request)\<rparr>"

section \<open>UTF-8 validity of the encoder\<close>

lemma or_disjoint32:
  fixes x :: u32
  shows "x < 2 ^ 5 \<Longrightarrow> 0xc0 OR x = 0xc0 + x" "x < 2 ^ 4 \<Longrightarrow> 0xe0 OR x = 0xe0 + x"
    "x < 2 ^ 3 \<Longrightarrow> 0xf0 OR x = 0xf0 + x"
proof -
  show "0xc0 OR x = 0xc0 + x" if "x < 2 ^ 5"
    unfolding utf_masks32 using that
    by (intro disjunctive_add [symmetric]) (simp only: bit_only, auto dest: bits_below [of x 5, simplified])
  show "0xe0 OR x = 0xe0 + x" if "x < 2 ^ 4"
    unfolding utf_masks32 using that
    by (intro disjunctive_add [symmetric]) (simp only: bit_only, auto dest: bits_below [of x 4, simplified])
  show "0xf0 OR x = 0xf0 + x" if "x < 2 ^ 3"
    unfolding utf_masks32 using that
    by (intro disjunctive_add [symmetric]) (simp only: bit_only, auto dest: bits_below [of x 3, simplified])
qed

lemma unat_lead:
  fixes x :: u32
  shows "x < 2 ^ 5 \<Longrightarrow> unat (byte (0xc0 OR x)) = 0xc0 + unat x"
    "x < 2 ^ 4 \<Longrightarrow> unat (byte (0xe0 OR x)) = 0xe0 + unat x"
    "x < 2 ^ 3 \<Longrightarrow> unat (byte (0xf0 OR x)) = 0xf0 + unat x"
  by (simp_all add: or_disjoint32 unat_byte unat_word_ariths word_less_nat_alt)

lemma lead_payload:
  fixes x :: u32
  shows "x < 2 ^ 5 \<Longrightarrow> ucast (byte (0xc0 OR x) AND 0x1f) = x"
    "x < 2 ^ 4 \<Longrightarrow> ucast (byte (0xe0 OR x) AND 0x0f) = x"
    "x < 2 ^ 3 \<Longrightarrow> ucast (byte (0xf0 OR x) AND 0x07) = x"
  using lead_value [of x] by (simp_all add: unsigned_and_eq)

lemma cont_payload: "ucast (byte (0x80 OR (x AND 0x3f)) AND 0x3f) = (x AND 0x3f :: u32)"
  using cont_value [of x] by (simp add: unsigned_and_eq)

lemma utf8_lead_cases:
  fixes c :: u32
  shows "0x80 \<le> c \<Longrightarrow> c \<le> 0x7ff \<Longrightarrow>
      utf8_lead (byte (0xc0 OR drop_bit 6 c)) = Some (1, drop_bit 6 c)"
    "0x800 \<le> c \<Longrightarrow> c \<le> 0xffff \<Longrightarrow>
      utf8_lead (byte (0xe0 OR drop_bit 12 c)) = Some (2, drop_bit 12 c)"
    "0x10000 \<le> c \<Longrightarrow> c \<le> 0x10ffff \<Longrightarrow>
      utf8_lead (byte (0xf0 OR drop_bit 18 c)) = Some (3, drop_bit 18 c)"
proof -
  show "utf8_lead (byte (0xc0 OR drop_bit 6 c)) = Some (1, drop_bit 6 c)" if "0x80 \<le> c" "c \<le> 0x7ff"
  proof -
    note x = drop_bit_less(1) [OF that(2)]
    have "2 \<le> unat (drop_bit 6 c)" "unat (drop_bit 6 c) < 32"
      using that x by (auto simp: word_le_nat_alt word_less_nat_alt drop_bit_eq_div unat_div)
    then show ?thesis
      using unat_lead(1) [OF x] lead_payload(1) [OF x] by (simp add: utf8_lead_def word_le_nat_alt)
  qed
  show "utf8_lead (byte (0xe0 OR drop_bit 12 c)) = Some (2, drop_bit 12 c)" if "0x800 \<le> c" "c \<le> 0xffff"
  proof -
    note x = drop_bit_less(2) [OF that(2)]
    have "unat (drop_bit 12 c) < 16"
      using x by (auto simp: word_less_nat_alt)
    then show ?thesis
      using unat_lead(2) [OF x] lead_payload(2) [OF x] by (simp add: utf8_lead_def word_le_nat_alt)
  qed
  show "utf8_lead (byte (0xf0 OR drop_bit 18 c)) = Some (3, drop_bit 18 c)" if "0x10000 \<le> c" "c \<le> 0x10ffff"
  proof -
    note x = drop_bit_less(3) [OF that(2)]
    have "unat (drop_bit 18 c) \<le> 4"
      using that by (auto simp: word_le_nat_alt drop_bit_eq_div unat_div)
    then show ?thesis
      using unat_lead(3) [OF x] lead_payload(3) [OF x] by (simp add: utf8_lead_def word_le_nat_alt)
  qed
qed

lemma continue_step [simp]:
  "utf8_continue c (byte (0x80 OR (x AND 0x3f)) # bs) = utf8_continue (push_bit 6 c OR (x AND 0x3f)) bs"
  using cont_is [of x] cont_payload [of x] by (simp add: is_continuation_def)

lemma continue_value:
  "utf8_continue (drop_bit 6 c) [byte (0x80 OR (c AND 0x3f))] = Some c"
  "utf8_continue (drop_bit 12 c) [byte (0x80 OR (drop_bit 6 c AND 0x3f)), byte (0x80 OR (c AND 0x3f))] = Some c"
  "utf8_continue (drop_bit 18 c) [byte (0x80 OR (drop_bit 12 c AND 0x3f)),
     byte (0x80 OR (drop_bit 6 c AND 0x3f)), byte (0x80 OR (c AND 0x3f))] = Some c"
  by (simp_all add: push_bit_or or.assoc join2 join3 [simplified or.assoc] join4 [simplified or.assoc] del: push_bit_and utf8_continue.simps(2))

definition scalar :: "u32 \<Rightarrow> bool" where
  "scalar c \<longleftrightarrow> c \<le> 0x10ffff \<and> \<not> (0xd800 \<le> c \<and> c \<le> 0xdfff)"

lemma valid_append:
  assumes "scalar c"
  shows "IsValidUtf8 (AppendUtf8CodePoint c @ rest) = IsValidUtf8 rest"
proof -
  consider "c \<le> 0x7f" | "0x80 \<le> c" "c \<le> 0x7ff" | "0x800 \<le> c" "c \<le> 0xffff" | "0x10000 \<le> c"
    by (fastforce simp: word_le_nat_alt)
  then show ?thesis
  proof cases
    case 1
    then show ?thesis using byte_ascii(2) [of c] by (simp add: AppendUtf8CodePoint_def)
  next
    case 2
    then have "\<not> c \<le> 0x7f" by (auto simp: word_le_nat_alt)
    then show ?thesis using 2 assms lead_high utf8_lead_cases(1) [OF 2] continue_value(1) [of c]
      by (auto simp: AppendUtf8CodePoint_def scalar_def not_less numeral_2_eq_2 numeral_3_eq_3 simp del: utf8_continue.simps(2) continue_step)
  next
    case 3
    then have "\<not> c \<le> 0x7f" "\<not> c \<le> 0x7ff" by (auto simp: word_le_nat_alt)
    then show ?thesis using 3 assms lead_high utf8_lead_cases(2) [OF 3] continue_value(2) [of c]
      by (auto simp: AppendUtf8CodePoint_def scalar_def not_less numeral_2_eq_2 numeral_3_eq_3 simp del: utf8_continue.simps(2) continue_step)
  next
    case 4
    then have "\<not> c \<le> 0x7f" "\<not> c \<le> 0x7ff" "\<not> c \<le> 0xffff" by (auto simp: word_le_nat_alt)
    then show ?thesis using 4 assms lead_high utf8_lead_cases(3) [of c] continue_value(3) [of c]
      by (auto simp: AppendUtf8CodePoint_def scalar_def not_less numeral_2_eq_2 numeral_3_eq_3 simp del: utf8_continue.simps(2) continue_step)
  qed
qed

lemma scalar_units:
  "\<not> is_surrogate u \<Longrightarrow> scalar (ucast u)"
  "is_high_surrogate u \<Longrightarrow> is_low_surrogate v \<Longrightarrow> scalar (surrogate_code_point u v)"
  "scalar 0xfffd"
proof -
  show "scalar (ucast u)" if "\<not> is_surrogate u"
    using that unat_u16_less [of u]
    by (auto simp: scalar_def is_surrogate_def word_le_nat_alt unat_u16)
  show "scalar (surrogate_code_point u v)" if "is_high_surrogate u" "is_low_surrogate v"
    using surrogate_range [OF that] by (auto simp: scalar_def word_le_nat_alt)
qed (simp add: scalar_def)

lemma valid_units:
  assumes "\<And>rest. IsValidUtf8 (bad @ rest) = IsValidUtf8 rest"
  shows "IsValidUtf8 (encode_units bad us)"
  using assms
proof (induction bad us rule: encode_units.induct)
  case (2 bad u)
  then show ?case using valid_append [OF scalar_units(1), of u "[]"] 2 [of "[]"] by auto
next
  case (3 bad u v us)
  then show ?case by (auto simp: valid_append scalar_units)
qed simp

section \<open>Decimal integers\<close>

lemma digits_value_snoc: "digits_value (ds @ [d]) = 10 * digits_value ds + (uint d - 0x30)"
  by (simp add: digits_value_def)

lemma digits_value_nonneg: "list_all is_digit ds \<Longrightarrow> 0 \<le> digits_value ds"
  by (induction ds rule: rev_induct)
     (auto simp: digits_value_def is_digit_def word_le_def)

lemma of_nat_digit:
  assumes "d < 10"
  shows "is_digit (of_nat (0x30 + d))" "uint (of_nat (0x30 + d) :: u8) = 0x30 + int d"
proof -
  show u: "uint (of_nat (0x30 + d) :: u8) = 0x30 + int d"
    using assms by (simp add: unsigned_of_nat take_bit_eq_mod del: of_nat_add of_nat_numeral)
  show "is_digit (of_nat (0x30 + d))"
    using assms u by (simp add: is_digit_def word_le_def)
qed

lemma decimal_digits_value:
  "list_all is_digit (decimal_digits n) \<and> digits_value (decimal_digits n) = int n \<and> decimal_digits n \<noteq> []"
proof (induction n rule: decimal_digits.induct)
  case (1 n)
  show ?case
  proof (cases "n < 10")
    case True
    then show ?thesis
      using of_nat_digit [of n] by (simp add: decimal_digits.simps digits_value_def)
  next
    case False
    have "n mod 10 < 10" by simp
    moreover have "int n = 10 * int (n div 10) + int (n mod 10)" by (simp add: zdiv_int zmod_int)
    ultimately show ?thesis
      using of_nat_digit [of "n mod 10"] 1 [OF False] False
      by (subst (1 2 3) decimal_digits.simps) (simp add: digits_value_snoc)
  qed
qed

lemma read_decimal_iff:
  "ReadDecimalInteger value name allow_zero = Inr n \<longleftrightarrow>
     value \<noteq> [] \<and> list_all is_digit value \<and> n = digits_value value \<and> n \<le> 2 ^ 63 - 1 \<and>
     (allow_zero \<or> n \<noteq> 0)"
proof -
  have drop: "dropWhile is_digit value = [] \<longleftrightarrow> list_all is_digit value"
    by (auto simp: dropWhile_eq_Nil_conv list_all_iff)
  have take: "list_all is_digit value \<Longrightarrow> takeWhile is_digit value = value"
    by (auto simp: takeWhile_eq_all_conv list_all_iff)
  have hd: "list_all is_digit value \<Longrightarrow> value \<noteq> [] \<Longrightarrow> hd value \<noteq> 0x2b \<and> hd value \<noteq> 0x2d"
    by (cases "value") (auto simp: is_digit_def word_le_nat_alt)
  show ?thesis
  proof (cases "value \<noteq> [] \<and> list_all is_digit value")
    case True
    then have t: "takeWhile is_digit value = value" "dropWhile is_digit value = []"
      using take drop by blast+
    show ?thesis
      using True hd digits_value_nonneg [of "value"]
      by (auto simp: ReadDecimalInteger_def from_chars_def Let_def t)
  next
    case False
    then show ?thesis
      using drop by (auto simp: ReadDecimalInteger_def from_chars_def Let_def split: if_splits)
  qed
qed

lemma bind_ok_Inr: "bind_ok r f = Inr y \<longleftrightarrow> (\<exists>x. r = Inr x \<and> f x = Inr y)"
  by (cases r) (simp_all add: bind_ok_def)

lemma bind_ok_simps [simp]: "bind_ok (Inr x) f = f x" "bind_ok (Inl st) f = Inl st"
  by (simp_all add: bind_ok_def)

section \<open>Percent decoding\<close>

text \<open>What a decoded text satisfies.\<close>

definition clean :: "bytes \<Rightarrow> bool" where
  "clean t \<longleftrightarrow> length t \<le> kMaximumParameterValueBytes \<and> \<not> ContainsControlBytes t \<and> IsValidUtf8 t"

lemma percent_loop_sound:
  "percent_loop pl e = Inr d \<Longrightarrow> \<not> ContainsControlBytes d \<and> length d \<le> length e"
proof (induction pl e arbitrary: d rule: percent_loop.induct)
  case (2 pl c rest)
  show ?case
  proof (cases "c = 0x25")
    case True
    then obtain h l rest' where r: "rest = h # l # rest'"
      using 2(3) by (auto split: list.splits)
    from 2(3) True r obtain ds where "percent_loop pl rest' = Inr ds"
        "d = word_of_int (push_bit 4 (HexDigitValue h) OR HexDigitValue l) # ds" "\<not> is_control (hd d)"
        "\<not> (HexDigitValue h < 0 \<or> HexDigitValue l < 0)"
      by (auto simp: push_decoded_def bind_ok_Inr Let_def split: if_splits)
    then show ?thesis using 2(1) [OF True r refl refl refl] r by (fastforce simp: ContainsControlBytes_def)
  next
    case False
    from 2(3) False obtain ds where "percent_loop pl rest = Inr ds"
        "d = (if c = 0x2b \<and> pl then 0x20 else c) # ds" "\<not> is_control (hd d)"
      by (auto simp: push_decoded_def bind_ok_Inr split: if_splits)
    then show ?thesis using 2(2) [OF False] by (fastforce simp: ContainsControlBytes_def)
  qed
qed (simp add: ContainsControlBytes_def)

lemma percent_decode_clean: "PercentDecode e pl = Inr d \<Longrightarrow> clean d"
  using percent_loop_sound [of pl e d]
  by (auto simp: PercentDecode_def bind_ok_Inr clean_def split: if_splits)

text \<open>A reference encoder: unreserved bytes as they are, every other byte in hexadecimal.\<close>

definition hex_digit :: "nat \<Rightarrow> u8" where
  "hex_digit n = of_nat (if n < 10 then 0x30 + n else 0x41 + (n - 10))"

definition unreserved :: "u8 \<Rightarrow> bool" where
  "unreserved b \<longleftrightarrow> is_digit b \<or> (0x41 \<le> b \<and> b \<le> 0x5a) \<or> (0x61 \<le> b \<and> b \<le> 0x7a) \<or>
     b \<in> {0x2d, 0x2e, 0x5f, 0x7e}"

definition percent_encode :: "bytes \<Rightarrow> bytes" where
  "percent_encode t = concat (map (\<lambda>b. if unreserved b then [b]
     else [0x25, hex_digit (unat b div 16), hex_digit (unat b mod 16)]) t)"

lemma hex_digit_value: "n < 16 \<Longrightarrow> HexDigitValue (hex_digit n) = int n"
proof -
  assume "n < 16"
  then have "n \<in> set [0..<16]" by simp
  moreover have "list_all (\<lambda>n. HexDigitValue (hex_digit n) = int n) [0..<16]" by code_simp
  ultimately show ?thesis by (simp add: list_all_iff)
qed

lemma nibbles: "word_of_int (push_bit 4 (int (unat b div 16)) OR int (unat b mod 16)) = (b :: u8)"
proof -
  have "push_bit 4 (int (unat b div 16)) OR int (unat b mod 16) = int (unat b)"
  proof -
    have "push_bit 4 (drop_bit 4 (unat b)) OR take_bit 4 (unat b) = unat b"
      by (rule bit_eqI) (auto simp: bit_simps)
    then have "int (push_bit 4 (unat b div 16) OR (unat b mod 16)) = int (unat b)"
      by (simp add: drop_bit_eq_div take_bit_eq_mod)
    then show ?thesis by (simp add: of_nat_or_eq push_bit_of_nat)
  qed
  then show ?thesis by simp
qed

lemma unreserved_plain: "unreserved b \<Longrightarrow> b \<noteq> 0x25 \<and> b \<noteq> 0x2b"
  by (auto simp: unreserved_def is_digit_def word_le_nat_alt)

lemma percent_loop_encode:
  assumes "\<not> ContainsControlBytes t"
  shows "percent_loop pl (percent_encode t) = Inr t"
  using assms
proof (induction t)
  case (Cons b t)
  then have ih: "percent_loop pl (percent_encode t) = Inr t" and nc: "\<not> is_control b"
    by (simp_all add: ContainsControlBytes_def)
  show ?case
  proof (cases "unreserved b")
    case True
    have "percent_encode (b # t) = b # percent_encode t" using True by (simp add: percent_encode_def)
    then show ?thesis using ih nc unreserved_plain [OF True] by (simp add: push_decoded_def)
  next
    case False
    have lt: "unat b div 16 < 16"
    proof -
      have "unat b < 2 ^ LENGTH(8)" by (rule unsigned_less)
      then show ?thesis by simp
    qed
    have "percent_encode (b # t) =
        0x25 # hex_digit (unat b div 16) # hex_digit (unat b mod 16) # percent_encode t"
      using False by (simp add: percent_encode_def)
    then show ?thesis
      using ih nc hex_digit_value [OF lt] hex_digit_value [of "unat b mod 16"] nibbles [of b]
      by (simp add: push_decoded_def Let_def)
  qed
qed (simp add: percent_encode_def)

section \<open>Parsed fields\<close>

definition field_texts :: "LaunchFields \<Rightarrow> bytes list" where
  "field_texts lf =
     [lf_request_type lf, lf_game_instance_id lf, lf_reserved_server_access_code lf, lf_call_id lf,
      lf_referral_page lf, lf_access_code lf, lf_link_code lf, lf_launch_data lf, lf_event_id lf,
      lf_game_join_context lf, lf_join_attempt_id lf, lf_join_attempt_origin lf, lf_iso_context lf]"

definition field_ids :: "LaunchFields \<Rightarrow> int list" where
  "field_ids lf =
     [lf_place_id lf, lf_user_id lf, lf_conversation_id lf, lf_referred_by_player_id lf]"

definition int64_id :: "int \<Rightarrow> bool" where
  "int64_id n \<longleftrightarrow> 0 \<le> n \<and> n \<le> 2 ^ 63 - 1"

definition fields_ok :: "LaunchFields \<Rightarrow> bool" where
  "fields_ok lf \<longleftrightarrow> list_all clean (field_texts lf) \<and> list_all int64_id (field_ids lf) \<and>
     distinct (lf_seen_fields lf)"

lemma read_decimal_id: "ReadDecimalInteger t name z = Inr n \<Longrightarrow> int64_id n"
  using digits_value_nonneg [of t] by (auto simp: read_decimal_iff int64_id_def)

lemma clean_empty [simp]: "clean []"
  by (simp add: clean_def ContainsControlBytes_def)

lemma fields_ok_default: "fields_ok LaunchFields_default"
  by (simp add: fields_ok_def LaunchFields_default_def field_texts_def field_ids_def int64_id_def)

lemma store_field_ok:
  assumes "fields_ok lf" "clean t" "store_field k t lf = Inr lf'"
  shows "fields_ok lf'" 
  using assms read_decimal_id unfolding store_field_def
  by (auto simp: fields_ok_def field_texts_def field_ids_def bind_ok_Inr split: if_splits)

lemma assign_field_ok:
  assumes "fields_ok lf" "clean t" "AssignField key t dec lf = Inr lf'"
  shows "fields_ok lf'"
proof (cases "canonical_key (AsciiLower key)")
  case None
  then show ?thesis using assms by (auto simp: AssignField_def split: if_splits)
next
  case (Some k)
  with assms(3) obtain lf1 t1 where f: "RememberField k lf = Inr lf1" "store_field k t1 lf1 = Inr lf'"
      "t1 = t \<or> PercentDecode t False = Inr t1"
    by (auto simp: AssignField_def bind_ok_Inr split: if_splits)
  have "fields_ok lf1"
    using f(1) assms(1) by (auto simp: RememberField_def fields_ok_def field_texts_def field_ids_def split: if_splits)
  moreover have "clean t1" using f(3) assms(2) percent_decode_clean by blast
  ultimately show ?thesis using store_field_ok f(2) by blast
qed

lemma query_loop_ok:
  "query_loop dec n pairs lf = Inr lf' \<Longrightarrow> fields_ok lf \<Longrightarrow> fields_ok lf'"
proof (induction pairs arbitrary: n lf)
  case (Cons pair pairs)
  from Cons.prems(1) obtain k t lf1 where
      t: "PercentDecode (drop (Suc (length (takeWhile (\<lambda>b. b \<noteq> 0x3d) pair))) pair) True = Inr t"
      and a: "AssignField k t dec lf = Inr lf1" and q: "query_loop dec (Suc n) pairs lf1 = Inr lf'"
    by (auto simp: Let_def bind_ok_Inr split: if_splits)
  have "fields_ok lf1"
    using assign_field_ok [OF Cons.prems(2) percent_decode_clean [OF t] a] .
  then show ?case by (rule Cons.IH [OF q])
qed simp

lemma parse_query_ok: "ParseQuery q dec lf = Inr lf' \<Longrightarrow> fields_ok lf \<Longrightarrow> fields_ok lf'"
  by (auto simp: ParseQuery_def query_loop_ok split: if_splits)

lemma parse_modern_ok: "ParseModern p lf = Inr lf' \<Longrightarrow> fields_ok lf \<Longrightarrow> fields_ok lf'"
  by (auto simp: ParseModern_def Let_def parse_query_ok split: if_splits)

lemma parse_classic_ok: "ParseClassic env p lf = Inr lf' \<Longrightarrow> fields_ok lf \<Longrightarrow> fields_ok lf'"
  by (auto simp: ParseClassic_def ParsePlaceLauncherUrl_def bind_ok_Inr parse_query_ok split: if_splits option.splits)


section \<open>From fields to the request\<close>

text \<open>The request that carries exactly the fields, in the canonical form of the JSON library.\<close>

definition request_of_fields :: "LaunchEnv \<Rightarrow> LaunchFields \<Rightarrow> RobloxExperienceLaunchRequest" where
  "request_of_fields env lf =
     \<lparr>rl_place_id = lf_place_id lf, rl_user_id = lf_user_id lf,
      rl_conversation_id = lf_conversation_id lf,
      rl_referred_by_player_id = lf_referred_by_player_id lf,
      rl_game_instance_id = lf_game_instance_id lf,
      rl_reserved_server_access_code = lf_reserved_server_access_code lf,
      rl_call_id = lf_call_id lf, rl_referral_page = lf_referral_page lf,
      rl_access_code = lf_access_code lf, rl_link_code = lf_link_code lf,
      rl_launch_data = lf_launch_data lf, rl_event_id = lf_event_id lf,
      rl_game_join_context = lf_game_join_context lf, rl_join_attempt_id = lf_join_attempt_id lf,
      rl_join_attempt_origin = lf_join_attempt_origin lf, rl_iso_context = lf_iso_context lf,
      rl_canonical_json = le_json_dump env (launch_document lf)\<rparr>"

text \<open>Documented behaviour of the JSON library: it reads back the valid documents it writes.\<close>

definition json_reads_back :: "LaunchEnv \<Rightarrow> bool" where
  "json_reads_back env \<longleftrightarrow> (\<forall>lf. fields_ok lf \<longrightarrow>
     le_json_parse env (le_json_dump env (launch_document lf)) = Some (launch_document lf))"

definition resolver_ok :: "LaunchEnv \<Rightarrow> bool" where
  "resolver_ok env \<longleftrightarrow> (\<forall>u p. le_resolve env u = Inr p \<longrightarrow>
     int64_id (rf_place_id p) \<and> clean (rf_game_instance_id p))"

lemma map_of_add [simp]:
  "map_of (add_integer n v @ ms) m = (if m = n \<and> v > 0 then Some (JInteger v) else map_of ms m)"
  "map_of (add_string n t @ ms) m = (if m = n \<and> t \<noteq> [] then Some (JString t) else map_of ms m)"
  "map_of (add_string n t) m = (if m = n \<and> t \<noteq> [] then Some (JString t) else None)"
  by (auto simp: add_integer_def add_string_def)

definition doc_members :: "LaunchFields \<Rightarrow> (string \<times> Json) list" where
  "doc_members lf = (case launch_document lf of JObject ms \<Rightarrow> ms | _ \<Rightarrow> [])"

lemma launch_document_members: "launch_document lf = JObject (doc_members lf)"
  by (simp add: doc_members_def launch_document_def)

lemma clean_bound: "clean t \<Longrightarrow> length t \<le> kMaximumLaunchStringBytes"
  by (simp add: clean_def kMaximumLaunchStringBytes_def kMaximumParameterValueBytes_def)

lemma doc_lookup_integer:
  "map_of (doc_members lf) ''placeId'' = Some (JInteger (lf_place_id lf))"
  "map_of (doc_members lf) ''userId'' = (if lf_user_id lf > 0 then Some (JInteger (lf_user_id lf)) else None)"
  "map_of (doc_members lf) ''conversationId'' = (if lf_conversation_id lf > 0 then Some (JInteger (lf_conversation_id lf)) else None)"
  "map_of (doc_members lf) ''referredByPlayerId'' = (if lf_referred_by_player_id lf > 0 then Some (JInteger (lf_referred_by_player_id lf)) else None)"
  unfolding doc_members_def launch_document_def
  by (simp_all del: map_of_append)

lemma doc_lookup_string:
  "map_of (doc_members lf) ''gameInstanceId'' = (if lf_game_instance_id lf \<noteq> [] then Some (JString (lf_game_instance_id lf)) else None)"
  "map_of (doc_members lf) ''reservedServerAccessCode'' = (if lf_reserved_server_access_code lf \<noteq> [] then Some (JString (lf_reserved_server_access_code lf)) else None)"
  "map_of (doc_members lf) ''callId'' = (if lf_call_id lf \<noteq> [] then Some (JString (lf_call_id lf)) else None)"
  "map_of (doc_members lf) ''referralPage'' = (if lf_referral_page lf \<noteq> [] then Some (JString (lf_referral_page lf)) else None)"
  "map_of (doc_members lf) ''accessCode'' = (if lf_access_code lf \<noteq> [] then Some (JString (lf_access_code lf)) else None)"
  "map_of (doc_members lf) ''linkCode'' = (if lf_link_code lf \<noteq> [] then Some (JString (lf_link_code lf)) else None)"
  "map_of (doc_members lf) ''launchData'' = (if lf_launch_data lf \<noteq> [] then Some (JString (lf_launch_data lf)) else None)"
  "map_of (doc_members lf) ''eventId'' = (if lf_event_id lf \<noteq> [] then Some (JString (lf_event_id lf)) else None)"
  "map_of (doc_members lf) ''gameJoinContext'' = (if lf_game_join_context lf \<noteq> [] then Some (JString (lf_game_join_context lf)) else None)"
  "map_of (doc_members lf) ''joinAttemptId'' = (if lf_join_attempt_id lf \<noteq> [] then Some (JString (lf_join_attempt_id lf)) else None)"
  "map_of (doc_members lf) ''joinAttemptOrigin'' = (if lf_join_attempt_origin lf \<noteq> [] then Some (JString (lf_join_attempt_origin lf)) else None)"
  "map_of (doc_members lf) ''isoContext'' = (if lf_iso_context lf \<noteq> [] then Some (JString (lf_iso_context lf)) else None)"
  unfolding doc_members_def launch_document_def
  by (simp_all del: map_of_append)

lemma read_integer_member:
  "int64_id v \<Longrightarrow> map_of ms name = (if v > 0 then Some (JInteger v) else None) \<Longrightarrow>
     ReadOptionalInteger ms name 0 = Inr v"
  "int64_id v \<Longrightarrow> map_of ms name = Some (JInteger v) \<Longrightarrow> ReadOptionalInteger ms name 0 = Inr v"
  by (auto simp: ReadOptionalInteger_def int64_id_def)

lemma read_string_member:
  "clean t \<Longrightarrow> map_of ms name = (if t \<noteq> [] then Some (JString t) else None) \<Longrightarrow>
     ReadOptionalString ms name [] = Inr t"
  using clean_bound [of t] by (auto simp: ReadOptionalString_def)

lemma doc_integers:
  assumes "fields_ok lf"
  shows "read_integers (doc_members lf) RobloxExperienceLaunchRequest_default =
    Inr (RobloxExperienceLaunchRequest_default\<lparr>rl_place_id := lf_place_id lf, rl_user_id := lf_user_id lf,
      rl_conversation_id := lf_conversation_id lf, rl_referred_by_player_id := lf_referred_by_player_id lf\<rparr>)"
proof -
  have ids: "int64_id (lf_place_id lf)" "int64_id (lf_user_id lf)" "int64_id (lf_conversation_id lf)"
      "int64_id (lf_referred_by_player_id lf)"
    using assms by (simp_all add: fields_ok_def field_ids_def)
  note r = read_integer_member(2) [OF ids(1) doc_lookup_integer(1)]
    read_integer_member(1) [OF ids(2) doc_lookup_integer(2)]
    read_integer_member(1) [OF ids(3) doc_lookup_integer(3)]
    read_integer_member(1) [OF ids(4) doc_lookup_integer(4)]
  show ?thesis
    by (simp add: read_integers_def RobloxExperienceLaunchRequest_default_def r)
qed

lemma doc_strings:
  assumes "fields_ok lf"
  shows "read_strings kStringFields (doc_members lf) (RobloxExperienceLaunchRequest_default\<lparr>rl_place_id := a,
      rl_user_id := b, rl_conversation_id := c, rl_referred_by_player_id := d\<rparr>) =
    Inr ((request_of_fields env lf)\<lparr>rl_place_id := a, rl_user_id := b, rl_conversation_id := c,
      rl_referred_by_player_id := d, rl_canonical_json := []\<rparr>)"
proof -
  have cl: "clean (lf_game_instance_id lf)" "clean (lf_reserved_server_access_code lf)" "clean (lf_call_id lf)" "clean (lf_referral_page lf)" "clean (lf_access_code lf)" "clean (lf_link_code lf)" "clean (lf_launch_data lf)" "clean (lf_event_id lf)" "clean (lf_game_join_context lf)" "clean (lf_join_attempt_id lf)" "clean (lf_join_attempt_origin lf)" "clean (lf_iso_context lf)"
    using assms by (simp_all add: fields_ok_def field_texts_def)
  note r = read_string_member [OF cl(1) doc_lookup_string(1)]
    read_string_member [OF cl(2) doc_lookup_string(2)]
    read_string_member [OF cl(3) doc_lookup_string(3)]
    read_string_member [OF cl(4) doc_lookup_string(4)]
    read_string_member [OF cl(5) doc_lookup_string(5)]
    read_string_member [OF cl(6) doc_lookup_string(6)]
    read_string_member [OF cl(7) doc_lookup_string(7)]
    read_string_member [OF cl(8) doc_lookup_string(8)]
    read_string_member [OF cl(9) doc_lookup_string(9)]
    read_string_member [OF cl(10) doc_lookup_string(10)]
    read_string_member [OF cl(11) doc_lookup_string(11)]
    read_string_member [OF cl(12) doc_lookup_string(12)]
  show ?thesis
    by (simp add: kStringFields_def RobloxExperienceLaunchRequest_default_def request_of_fields_def r)
qed

lemma parse_launch_document:
  assumes jr: "json_reads_back env" and ok: "fields_ok lf"
    and r: "ParseRobloxExperienceLaunchJson env (le_json_dump env (launch_document lf)) = Inr r"
  shows "r = request_of_fields env lf \<and> 0 < lf_place_id lf \<and> rl_canonical_json r \<noteq> []"
proof -
  have p: "le_json_parse env (le_json_dump env (launch_document lf)) = Some (JObject (doc_members lf))"
    using jr ok by (simp add: json_reads_back_def launch_document_members)
  have canon: "le_json_dump env (JObject (doc_members lf)) = le_json_dump env (launch_document lf)"
    by (simp add: launch_document_members)
  show ?thesis
    using r p canon doc_integers [OF ok] doc_strings [OF ok, where env = env]
    by (auto simp: ParseRobloxExperienceLaunchJson_def bind_ok_Inr Let_def request_of_fields_def split: if_splits)
qed

lemma validate_selector_count: "ValidateSelector lf = Inr u \<Longrightarrow> selector_count lf \<le> 1"
  by (auto simp: ValidateSelector_def split: if_splits)

lemma make_request_fields:
  assumes jr: "json_reads_back env" and rs: "resolver_ok env" and ok: "fields_ok lf0"
    and r: "MakeRequest env lf0 = Inr r"
  shows "\<exists>lf. fields_ok lf \<and> selector_count lf \<le> 1 \<and> 0 < lf_place_id lf \<and>
    r = request_of_fields env lf \<and> rl_canonical_json r \<noteq> [] \<and>
    ParseRobloxExperienceLaunchJson env (rl_canonical_json r) = Inr r"
proof -
  from r obtain lf u where lf: "lf = lf0 \<or> (\<exists>p. le_resolve env (lf_user_id lf0) = Inr p \<and>
       (lf = lf0\<lparr>lf_place_id := rf_place_id p, lf_game_instance_id := rf_game_instance_id p, lf_user_id := 0\<rparr> \<or>
        lf = lf0\<lparr>lf_place_id := rf_place_id p, lf_user_id := 0\<rparr>))"
    and v: "ValidateSelector lf = Inr u"
    and j: "ParseRobloxExperienceLaunchJson env (le_json_dump env (launch_document lf)) = Inr r"
    by (auto simp: MakeRequest_def Let_def bind_ok_Inr split: if_splits)
  have "fields_ok lf"
    using lf ok rs by (auto simp: resolver_ok_def fields_ok_def field_texts_def field_ids_def int64_id_def)
  then have d: "r = request_of_fields env lf" "0 < lf_place_id lf" "rl_canonical_json r \<noteq> []" and ok: "fields_ok lf"
    using parse_launch_document [OF jr _ j] by blast+
  then have "ParseRobloxExperienceLaunchJson env (rl_canonical_json r) = Inr r"
    using j by (simp add: request_of_fields_def)
  then show ?thesis
    using d ok validate_selector_count [OF v] by blast
qed

lemma parse_uri_fields:
  assumes "ParseRobloxLaunchUri env uri = Inr r"
  shows "\<exists>lf. fields_ok lf \<and> MakeRequest env lf = Inr r"
proof -
  from assms obtain lf p where "MakeRequest env lf = Inr r"
    "ParseClassic env p LaunchFields_default = Inr lf \<or> ParseModern p LaunchFields_default = Inr lf"
    by (auto simp: ParseRobloxLaunchUri_def Let_def bind_ok_Inr split: if_splits)
  then show ?thesis using parse_classic_ok parse_modern_ok fields_ok_default by blast
qed

section \<open>The authentication ticket\<close>

lemma split_on_nonempty [simp]: "split_on c t \<noteq> []"
  by (induction t) (auto split: list.splits)

lemma split_on_append: "split_on c (a @ c # b) = split_on c a @ split_on c b"
  by (induction a) (auto split: list.splits)

lemma split_on_single: "c \<notin> set t \<Longrightarrow> split_on c t = [t]"
  by (induction t) auto

lemma classic_loop_append:
  "classic_loop n (xs @ ys) st = bind_ok (classic_loop n xs st) (classic_loop (n + length xs) ys)"
proof (induction xs arbitrary: n st)
  case (Cons x xs)
  show ?case
    by (cases "classic_field x st") (simp_all add: Cons.IH)
qed simp

lemma classic_field_version:
  "classic_field f st = Inr st' \<Longrightarrow> cl_version_seen st'"
  by (auto simp: classic_field_def Let_def bind_ok_Inr split: if_splits)

lemma classic_loop_version:
  "classic_loop n fs st = Inr st' \<Longrightarrow> fs \<noteq> [] \<or> cl_version_seen st \<Longrightarrow> cl_version_seen st'"
proof (induction fs arbitrary: n st)
  case (Cons f fs)
  then show ?case using classic_field_version by (fastforce simp: bind_ok_Inr split: if_splits)
qed simp

definition gameinfo :: "bytes \<Rightarrow> bytes" where
  "gameinfo ticket = ascii ''gameinfo:'' @ ticket"

lemma gameinfo_ignored:
  assumes "cl_version_seen st" "length ticket \<le> kMaximumParameterValueBytes"
  shows "classic_field (gameinfo ticket) st = Inr st"
proof -
  have k: "takeWhile (\<lambda>b. b \<noteq> 0x3a) (gameinfo ticket) = ascii ''gameinfo''"
    by (simp add: gameinfo_def ascii_def)
  have n: "AsciiLower (ascii ''gameinfo'') \<noteq> ascii ''launchmode''"
    "AsciiLower (ascii ''gameinfo'') \<noteq> ascii ''placelauncherurl''" "ascii ''gameinfo'' \<noteq> []" by code_simp+
  have l: "length (gameinfo ticket) = 9 + length ticket" by (simp add: gameinfo_def ascii_def)
  have l2: "length (ascii ''gameinfo'') = 8" by (simp add: ascii_def)
  show ?thesis
    unfolding classic_field_def k Let_def l l2
    using assms n by (simp add: kMaximumParameterKeyBytes_def)
qed

section \<open>Properties\<close>

text \<open>
  Whatever UTF-16 a Java string holds, the UTF-8 the runtime hands out is accepted by the
  strict UTF-8 check of the launch parser (no overlong forms, no surrogates, nothing above U+10FFFF),
  for the replacement of \<open>Utf16ToUtf8\<close> and for that of \<open>getBytes\<close>.
\<close>

theorem utf8_output_is_valid:
  "IsValidUtf8 (Utf16ToUtf8 us) \<and> IsValidUtf8 (JavaStringUtf8Bytes us)"
proof -
  have "IsValidUtf8 ([0x3f] @ rest) = IsValidUtf8 rest" for rest by simp
  then show ?thesis
    using valid_units valid_append [OF scalar_units(3)]
    by (simp add: Utf16ToUtf8_def JavaStringUtf8Bytes_def)
qed

text \<open>
  C19. Percent decoding inverts percent encoding: a text that is bounded, valid UTF-8 and free of
  control bytes is decoded from its encoding unchanged, with and without the plus rule.
\<close>

theorem percent_decode_inverts_encode:
  assumes "clean t" and "length (percent_encode t) \<le> kMaximumParameterValueBytes"
  shows "PercentDecode (percent_encode t) plus_as_space = Inr t"
  using assms percent_loop_encode [of t] by (simp add: PercentDecode_def clean_def)

theorem percent_decode_inverts_encode_witness:
  "PercentDecode (percent_encode (ascii ''a+b %/'')) True = Inr (ascii ''a+b %/'')"
  by (rule percent_decode_inverts_encode) code_simp+

text \<open>
  A decimal field is accepted exactly when it is a non-empty string of digits whose value
  fits an int64 (and is not zero where zero is not allowed), and then it is read as that value; in
  particular signs, blanks and overflowing numbers are rejected.
\<close>

theorem read_decimal_exact:
  "ReadDecimalInteger t name allow_zero = Inr n \<longleftrightarrow>
     t \<noteq> [] \<and> list_all is_digit t \<and> n = digits_value t \<and> n \<le> 2 ^ 63 - 1 \<and>
     (if allow_zero then 0 else 1) \<le> n"
  using digits_value_nonneg [of t] by (auto simp: read_decimal_iff)

text \<open>
  Every request a launch URI yields is sound: it carries exactly the fields of a parsed
  launch whose texts are bounded, valid UTF-8 without control bytes and whose identifiers are
  non-negative int64 values; at most one join selector is set; the place is positive; and the join
  request made of it passes the session's validation. Assumed of the environment: the JSON library
  reads back what it writes, and the presence service returns an identifier and a clean text.
\<close>

theorem launch_uri_request_sound:
  assumes "json_reads_back env" and "resolver_ok env"
    and "ParseRobloxLaunchUri env uri = Inr r" and "request_id \<noteq> 0"
  shows "(\<exists>lf. fields_ok lf \<and> selector_count lf \<le> 1 \<and> 0 < lf_place_id lf \<and>
      r = request_of_fields env lf) \<and>
    ValidRequest (MakeGameJoinRequest request_id r)"
proof -
  obtain lf0 where lf0: "fields_ok lf0" "MakeRequest env lf0 = Inr r"
    using parse_uri_fields [OF assms(3)] by blast
  obtain lf where lf: "fields_ok lf" "selector_count lf \<le> 1" "0 < lf_place_id lf"
      "r = request_of_fields env lf" "rl_canonical_json r \<noteq> []"
    using make_request_fields [OF assms(1,2) lf0] by blast
  then have "ValidRequest (MakeGameJoinRequest request_id r)"
    using assms(4) by (simp add: ValidRequest_def MakeGameJoinRequest_def chars_def request_of_fields_def)
  with lf show ?thesis by blast
qed

text \<open>
  The authentication ticket of a classic launch has no influence on the result: whatever the
  gameinfo field holds (a text without a separator, of bounded size), the payload parses to the same
  fields or the same error.
\<close>

theorem classic_ticket_has_no_influence:
  assumes "0x2b \<notin> set t1" "0x2b \<notin> set t2"
    and "length t1 \<le> kMaximumParameterValueBytes" "length t2 \<le> kMaximumParameterValueBytes"
  shows "ParseClassic env (before @ 0x2b # gameinfo t1 @ 0x2b # after) lf =
     ParseClassic env (before @ 0x2b # gameinfo t2 @ 0x2b # after) lf"
proof -
  let ?st = "\<lparr>cl_version_seen = False, cl_launch_mode_seen = False, cl_launcher_url = None\<rparr>"
  have no: "0x2b \<notin> set (gameinfo t)" if "0x2b \<notin> set t" for t
    using that by (simp add: gameinfo_def ascii_def)
  have loop: "classic_loop 0 (split_on 0x2b (before @ 0x2b # gameinfo t @ 0x2b # after)) ?st =
      bind_ok (classic_loop 0 (split_on 0x2b before) ?st) (\<lambda>st.
        if Suc (length (split_on 0x2b before)) > kMaximumParameterCount
        then Invalid ''Roblox player launch payload has too many fields''
        else classic_loop (Suc (length (split_on 0x2b before))) (split_on 0x2b after) st)"
    if "0x2b \<notin> set t" "length t \<le> kMaximumParameterValueBytes" for t
  proof (cases "classic_loop 0 (split_on 0x2b before) ?st")
    case (Inr st)
    have "cl_version_seen st" using classic_loop_version [OF Inr] by simp
    then show ?thesis
      using Inr gameinfo_ignored that split_on_append [of "0x2b" "before"]
        split_on_append [of "0x2b" "gameinfo t" after] split_on_single [OF no [OF that(1)]]
      by (simp add: classic_loop_append)
  qed (simp add: split_on_append classic_loop_append)
  show ?thesis
    using loop [OF assms(1,3)] loop [OF assms(2,4)] by (simp add: ParseClassic_def)
qed

instance Json :: countable
  by countable_datatype

definition sample_fields :: LaunchFields where
  "sample_fields = LaunchFields_default\<lparr>lf_place_id := 7, lf_seen_fields := [''placeId'']\<rparr>"

definition sample_dump :: "Json \<Rightarrow> bytes" where
  "sample_dump d = (if d = launch_document sample_fields then ascii ''{}'' else replicate (3 + to_nat d) 0x7b)"

definition sample_parse :: "bytes \<Rightarrow> Json option" where
  "sample_parse t = (if t = ascii ''{}'' then Some (launch_document sample_fields) else Some (from_nat (length t - 3)))"

definition sample_env :: LaunchEnv where
  "sample_env = \<lparr>le_curl_url = (\<lambda>u. None), le_resolve = (\<lambda>u. Inl (Status_Error kUnavailable [])),
     le_json_parse = sample_parse, le_json_dump = sample_dump\<rparr>"

theorem classic_ticket_has_no_influence_witness:
  "0x2b \<notin> set (ascii ''secret'') \<and>
   ParseClassic sample_env (ascii ''1+launchmode:play'' @ 0x2b # gameinfo (ascii ''secret'') @ 0x2b #
       ascii ''placelauncherurl:x'') LaunchFields_default =
   ParseClassic sample_env (ascii ''1+launchmode:play'' @ 0x2b # gameinfo (ascii ''other'') @ 0x2b #
       ascii ''placelauncherurl:x'') LaunchFields_default"
proof -
  have "0x2b \<notin> set (ascii ''secret'')" "0x2b \<notin> set (ascii ''other'')" by code_simp+
  moreover have "length (ascii ''secret'') \<le> kMaximumParameterValueBytes"
      "length (ascii ''other'') \<le> kMaximumParameterValueBytes"
    by (simp_all add: ascii_def kMaximumParameterValueBytes_def)
  ultimately show ?thesis using classic_ticket_has_no_influence by blast
qed

lemma sample_reads_back: "sample_parse (sample_dump d) = Some d"
proof -
  have "replicate (3 + n) 0x7b \<noteq> ascii ''{}''" for n
  proof
    assume "replicate (3 + n) 0x7b = ascii ''{}''"
    then have "length (replicate (3 + n) (0x7b :: u8)) = length (ascii ''{}'')" by simp
    then show False by (simp add: ascii_def)
  qed
  then show ?thesis by (simp add: sample_parse_def sample_dump_def)
qed

lemma sample_uri: "ParseRobloxLaunchUri sample_env (ascii ''roblox://placeId=7'') = Inr (request_of_fields sample_env sample_fields)"
proof -
  have ok: "fields_ok sample_fields"
    by (simp add: sample_fields_def fields_ok_def field_texts_def field_ids_def LaunchFields_default_def int64_id_def)
  have pm: "ParseModern (ascii ''//placeId=7'') LaunchFields_default = Inr sample_fields" by code_simp
  have pre: "takeWhile (\<lambda>b. b \<noteq> 0x3a) (ascii ''roblox://placeId=7'') = ascii ''roblox''"
      "drop (Suc (length (ascii ''roblox''))) (ascii ''roblox://placeId=7'') = ascii ''//placeId=7''"
      "\<not> ContainsControlBytes (ascii ''roblox://placeId=7'')" "IsValidUtf8 (ascii ''roblox://placeId=7'')"
      "AsciiLower (ascii ''roblox'') = ascii ''roblox''" "ascii ''roblox'' \<noteq> ascii ''roblox-player''"
      "length (ascii ''roblox'') = 6" "length (ascii ''roblox://placeId=7'') = 18"
      "ascii ''roblox'' \<noteq> []" "ascii ''roblox://placeId=7'' \<noteq> []"
    by code_simp+
  have "ParseRobloxLaunchUri sample_env (ascii ''roblox://placeId=7'') = MakeRequest sample_env sample_fields"
    unfolding ParseRobloxLaunchUri_def Let_def pre(1) using pre pm
    by (simp add: kMaximumRobloxLaunchUriBytes_def)
  moreover have "ValidateSelector sample_fields = Inr ()" by code_simp
  moreover have "le_json_dump sample_env (launch_document sample_fields) = ascii ''{}''"
      "le_json_parse sample_env (ascii ''{}'') = Some (JObject (doc_members sample_fields))"
      "le_json_dump sample_env (JObject (doc_members sample_fields)) = ascii ''{}''"
    by (simp_all add: sample_env_def sample_dump_def sample_parse_def launch_document_members)
  moreover have "lf_place_id sample_fields = 7" "lf_user_id sample_fields = 0" "lf_conversation_id sample_fields = 0"
      "lf_referred_by_player_id sample_fields = 0" "ascii ''{}'' \<noteq> []" "length (ascii ''{}'') = 2"
    by code_simp+
  ultimately show ?thesis
    using doc_integers [OF ok] doc_strings [OF ok, where env = sample_env]
    by (simp add: MakeRequest_def Let_def ParseRobloxExperienceLaunchJson_def
        kMaximumExperienceLaunchJsonBytes_def request_of_fields_def)
qed

theorem launch_uri_request_sound_witness:
  "\<exists>r. ParseRobloxLaunchUri sample_env (ascii ''roblox://placeId=7'') = Inr r \<and>
     ValidRequest (MakeGameJoinRequest 1 r)"
proof -
  have "json_reads_back sample_env" "resolver_ok sample_env"
    by (simp_all add: json_reads_back_def resolver_ok_def sample_env_def sample_reads_back)
  from launch_uri_request_sound [OF this sample_uri, of 1] show ?thesis using sample_uri by simp
qed

end
