(* ===== verification/Etc2_Decoder.thy ===== *)
theory Etc2_Decoder
  imports Mocktail_Prelude
begin

text \<open>
  The ETC2/EAC texture decoder (\<open>src/graphics/etc2_decoder.cc\<close>). The C \<open>int\<close> arithmetic of the
  block decoders stays far below 31 bits and is done in the integers, with the code's shifts and
  masks; the size checks of \<open>ImageFits\<close> are done in 64-bit words, where their products can wrap. A
  buffer is the list of its bytes. The decode loops write a pixel at a time into the destination;
  the main lemma describes the result by the set of pixels written, so that bands may run in any
  order.
\<close>

section \<open>Tables and helpers\<close>

definition kDistance :: "int list" where "kDistance = [3, 6, 11, 16, 23, 32, 41, 64]"

definition kEtc1Modifiers :: "int list list" where
  "kEtc1Modifiers =
     [[2, 8, -2, -8], [5, 17, -5, -17], [9, 29, -9, -29], [13, 42, -13, -42],
      [18, 60, -18, -60], [24, 80, -24, -80], [33, 106, -33, -106], [47, 183, -47, -183]]"

definition kEacModifiers :: "int list list" where
  "kEacModifiers =
     [[-3, -6, -9, -15, 2, 5, 8, 14], [-3, -7, -10, -13, 2, 6, 9, 12],
      [-2, -5, -8, -13, 1, 4, 7, 12], [-2, -4, -6, -13, 1, 3, 5, 12],
      [-3, -6, -8, -12, 2, 5, 7, 11], [-3, -7, -9, -11, 2, 6, 8, 10],
      [-4, -7, -8, -11, 3, 6, 7, 10], [-3, -5, -8, -11, 2, 4, 7, 10],
      [-2, -6, -8, -10, 1, 5, 7, 9], [-2, -5, -8, -10, 1, 4, 7, 9],
      [-2, -4, -8, -10, 1, 3, 7, 9], [-2, -5, -7, -10, 1, 4, 6, 9],
      [-3, -4, -7, -10, 2, 3, 6, 9], [-1, -2, -3, -10, 0, 1, 2, 9],
      [-4, -6, -8, -9, 3, 5, 7, 8], [-3, -5, -7, -9, 2, 4, 6, 8]]"

definition kDelta :: "int list" where "kDelta = [0, 1, 2, 3, -4, -3, -2, -1]"

definition clamp :: "int \<Rightarrow> int \<Rightarrow> int \<Rightarrow> int" where
  "clamp value lo hi = (if value < lo then lo else if hi < value then hi else value)"

definition Clamp255 :: "int \<Rightarrow> u8" where
  "Clamp255 value = word_of_int (clamp value 0 255)"

definition Expand4 :: "int \<Rightarrow> int" where "Expand4 v = push_bit 4 v OR v"
definition Expand5 :: "int \<Rightarrow> int" where "Expand5 v = push_bit 3 v OR drop_bit 2 v"
definition Expand6 :: "int \<Rightarrow> int" where "Expand6 v = push_bit 2 v OR drop_bit 4 v"
definition Expand7 :: "int \<Rightarrow> int" where "Expand7 v = push_bit 1 v OR drop_bit 6 v"

abbreviation tbl :: "int list \<Rightarrow> int \<Rightarrow> int" where "tbl t i \<equiv> t ! nat i"

abbreviation oct :: "bytes \<Rightarrow> nat \<Rightarrow> int" where "oct b i \<equiv> uint (b ! i)"

section \<open>Colour blocks\<close>

type_synonym rgba = "u8 \<times> u8 \<times> u8 \<times> u8"

definition texel_rgba :: "int \<Rightarrow> int \<Rightarrow> int \<Rightarrow> int \<Rightarrow> rgba" where
  "texel_rgba r g bl a = (Clamp255 r, Clamp255 g, Clamp255 bl, word_of_int a)"

definition texel_index :: "bytes \<Rightarrow> nat \<Rightarrow> int" where
  "texel_index b texel =
     (let msb = push_bit 8 (oct b 4) OR oct b 5; lsb = push_bit 8 (oct b 6) OR oct b 7
      in push_bit 1 (drop_bit texel msb AND 1) OR (drop_bit texel lsb AND 1))"

definition channel_sum :: "bytes \<Rightarrow> nat \<Rightarrow> int" where
  "channel_sum b c = drop_bit 3 (oct b c) + tbl kDelta (oct b c AND 7)"

definition out_of_5_bits :: "int \<Rightarrow> bool" where
  "out_of_5_bits s \<longleftrightarrow> s < 0 \<or> s > 31"

definition t_paint :: "bytes \<Rightarrow> int list list" where
  "t_paint b =
     (let c1 = [Expand4 (push_bit 2 (drop_bit 3 (oct b 0) AND 3) OR (oct b 0 AND 3)),
                Expand4 (drop_bit 4 (oct b 1)), Expand4 (oct b 1 AND 15)];
          c2 = [Expand4 (drop_bit 4 (oct b 2)), Expand4 (oct b 2 AND 15), Expand4 (drop_bit 4 (oct b 3))];
          d = tbl kDistance (push_bit 1 (drop_bit 2 (oct b 3) AND 3) OR (oct b 3 AND 1))
      in [c1, map (\<lambda>v. v + d) c2, c2, map (\<lambda>v. v - d) c2])"

definition h_paint :: "bytes \<Rightarrow> int list list" where
  "h_paint b =
     (let c1 = [Expand4 (drop_bit 3 (oct b 0) AND 15),
                Expand4 (push_bit 1 (oct b 0 AND 7) OR (drop_bit 4 (oct b 1) AND 1)),
                Expand4 ((oct b 1 AND 8) OR push_bit 1 (oct b 1 AND 3) OR drop_bit 7 (oct b 2))];
          c2 = [Expand4 (drop_bit 3 (oct b 2) AND 15),
                Expand4 (push_bit 1 (oct b 2 AND 7) OR drop_bit 7 (oct b 3)),
                Expand4 (drop_bit 3 (oct b 3) AND 15)];
          v1 = push_bit 16 (c1 ! 0) OR push_bit 8 (c1 ! 1) OR c1 ! 2;
          v2 = push_bit 16 (c2 ! 0) OR push_bit 8 (c2 ! 1) OR c2 ! 2;
          d = tbl kDistance ((oct b 3 AND 4) OR push_bit 1 (oct b 3 AND 1) OR (if v1 \<ge> v2 then 1 else 0))
      in [map (\<lambda>v. v + d) c1, map (\<lambda>v. v - d) c1, map (\<lambda>v. v + d) c2, map (\<lambda>v. v - d) c2])"

definition painted_texel :: "bool \<Rightarrow> int list list \<Rightarrow> bytes \<Rightarrow> nat \<Rightarrow> rgba" where
  "painted_texel opaque paint b texel =
     (let index = texel_index b texel in
      if \<not> opaque \<and> index = 2 then texel_rgba 0 0 0 0
      else let p = paint ! nat index in texel_rgba (p ! 0) (p ! 1) (p ! 2) 255)"

definition planar_texel :: "bytes \<Rightarrow> nat \<Rightarrow> rgba" where
  "planar_texel b texel =
     (let ro = Expand6 (drop_bit 1 (oct b 0) AND 63);
          go = Expand7 (push_bit 6 (oct b 0 AND 1) OR (drop_bit 1 (oct b 1) AND 63));
          bo = Expand6 (push_bit 5 (oct b 1 AND 1) OR (oct b 2 AND 0x18) OR push_bit 1 (oct b 2 AND 3) OR
                        drop_bit 7 (oct b 3));
          rh = Expand6 (drop_bit 1 (oct b 3 AND 0x7c) OR (oct b 3 AND 1));
          gh = Expand7 (drop_bit 1 (oct b 4));
          bh = Expand6 (push_bit 5 (oct b 4 AND 1) OR drop_bit 3 (oct b 5));
          rv = Expand6 (push_bit 3 (oct b 5 AND 7) OR drop_bit 5 (oct b 6));
          gv = Expand7 (push_bit 2 (oct b 6 AND 31) OR drop_bit 6 (oct b 7));
          bv = Expand6 (oct b 7 AND 63);
          x = int (texel div 4); y = int (texel mod 4);
          plane = (\<lambda>org h v. drop_bit 2 (x * (h - org) + y * (v - org) + 4 * org + 2))
      in texel_rgba (plane ro rh rv) (plane go gh gv) (plane bo bh bv) 255)"

definition base_colour :: "bool \<Rightarrow> bytes \<Rightarrow> nat \<Rightarrow> nat \<Rightarrow> int" where
  "base_colour individual b sub c =
     (if individual then Expand4 (if sub = 0 then drop_bit 4 (oct b c) else oct b c AND 15)
      else if sub = 0 then Expand5 (drop_bit 3 (oct b c))
      else Expand5 (drop_bit 3 (oct b c) + tbl kDelta (oct b c AND 7)))"

definition split_texel :: "bool \<Rightarrow> bool \<Rightarrow> bytes \<Rightarrow> nat \<Rightarrow> rgba" where
  "split_texel individual opaque b texel =
     (let x = texel div 4; y = texel mod 4; index = texel_index b texel in
      if \<not> opaque \<and> index = 2 then texel_rgba 0 0 0 0
      else
       let tables = [drop_bit 5 (oct b 3), drop_bit 2 (oct b 3) AND 7];
           flipped = (oct b 3 AND 1 \<noteq> 0);
           sub = (if flipped then (if y \<ge> 2 then 1 else 0) else (if x \<ge> 2 then 1 else 0) :: nat);
           modifier = (if \<not> opaque \<and> index = 0 then 0
                       else (kEtc1Modifiers ! nat (tables ! sub)) ! nat index)
       in texel_rgba (base_colour individual b sub 0 + modifier)
            (base_colour individual b sub 1 + modifier) (base_colour individual b sub 2 + modifier) 255)"

text \<open>The texel written at column-major index \<open>texel\<close>.\<close>

definition rgb_texel :: "bytes \<Rightarrow> bool \<Rightarrow> nat \<Rightarrow> rgba" where
  "rgb_texel b punchthrough texel =
     (let diff_or_opaque = (oct b 3 AND 2 \<noteq> 0);
          opaque = (\<not> punchthrough \<or> diff_or_opaque);
          r_sum = channel_sum b 0; g_sum = channel_sum b 1; b_sum = channel_sum b 2;
          individual = (\<not> punchthrough \<and> \<not> diff_or_opaque)
      in if \<not> individual \<and> (out_of_5_bits r_sum \<or> out_of_5_bits g_sum)
         then painted_texel opaque (if out_of_5_bits r_sum then t_paint b else h_paint b) b texel
         else if \<not> individual \<and> out_of_5_bits b_sum then planar_texel b texel
         else split_texel individual opaque b texel)"

definition DecodeRgbBlock :: "bytes \<Rightarrow> bool \<Rightarrow> bytes" where
  "DecodeRgbBlock b punchthrough =
     concat (map (\<lambda>texel. case rgb_texel b punchthrough texel of (r, g, bl, a) \<Rightarrow> [r, g, bl, a]) [0..<16])"

section \<open>EAC blocks\<close>

definition EacIndex :: "bytes \<Rightarrow> nat \<Rightarrow> int" where
  "EacIndex b texel =
     (let bits = foldl (\<lambda>acc i. push_bit 8 acc OR ucast (b ! i)) (0 :: u64) [2..<8]
      in uint (drop_bit (45 - texel * 3) bits AND 7))"

definition EacModifier :: "bytes \<Rightarrow> nat \<Rightarrow> int" where
  "EacModifier b texel = (kEacModifiers ! nat (oct b 1 AND 15)) ! nat (EacIndex b texel)"

definition DecodeR11 :: "bytes \<Rightarrow> nat \<Rightarrow> bool \<Rightarrow> u16" where
  "DecodeR11 b texel is_signed =
     (let multiplier = drop_bit 4 (oct b 1);
          modifier = EacModifier b texel;
          scaled = (if multiplier \<noteq> 0 then modifier * multiplier * 8 else modifier)
      in if \<not> is_signed
         then let v = clamp (oct b 0 * 8 + 4 + scaled) 0 2047
              in word_of_int (push_bit 5 v OR drop_bit 6 v)
         else let base = max (-127) (sint (b ! 0));
                  v = clamp (base * 8 + scaled) (-1023) 1023;
                  magnitude = (if v < 0 then - v else v);
                  expanded = push_bit 5 magnitude OR drop_bit 5 magnitude
              in word_of_int (if v < 0 then - expanded else expanded))"

section \<open>Images\<close>

datatype EtcFormat =
    kEtc2Rgb8 | kEtc2Rgb8A1 | kEtc2Rgba8 | kEacR11 | kEacR11Signed | kEacRg11 | kEacRg11Signed

fun EtcBlockBytes :: "EtcFormat \<Rightarrow> nat" where
  "EtcBlockBytes kEtc2Rgba8 = 16"
| "EtcBlockBytes kEacRg11 = 16"
| "EtcBlockBytes kEacRg11Signed = 16"
| "EtcBlockBytes _ = 8"

fun EtcDecodedTexelBytes :: "EtcFormat \<Rightarrow> nat" where
  "EtcDecodedTexelBytes kEacR11 = 2"
| "EtcDecodedTexelBytes kEacR11Signed = 2"
| "EtcDecodedTexelBytes _ = 4"

definition blocks :: "u32 \<Rightarrow> u64" where
  "blocks n = (ucast n + 3) div 4"

text \<open>A null pointer is None; the size arguments are the lengths of the buffers.\<close>

definition ImageFits :: "EtcFormat \<Rightarrow> bytes option \<Rightarrow> u32 \<Rightarrow> u32 \<Rightarrow> bytes option \<Rightarrow> bool" where
  "ImageFits format source width height destination \<longleftrightarrow>
     (case (source, destination) of
        (Some src, Some dst) \<Rightarrow>
          width \<noteq> 0 \<and> height \<noteq> 0 \<and>
          blocks width * blocks height * of_nat (EtcBlockBytes format) \<le> of_nat (length src) \<and>
          ucast width * ucast height * of_nat (EtcDecodedTexelBytes format) \<le>
            (of_nat (length dst) :: u64)
      | _ \<Rightarrow> False)"

text \<open>The bytes written for one texel of a block.\<close>

definition texel_bytes_of :: "EtcFormat \<Rightarrow> bytes \<Rightarrow> nat \<Rightarrow> bytes" where
  "texel_bytes_of format block texel =
     (case format of
        kEtc2Rgb8 \<Rightarrow> take 4 (drop (texel * 4) (DecodeRgbBlock block False))
      | kEtc2Rgb8A1 \<Rightarrow> take 4 (drop (texel * 4) (DecodeRgbBlock block True))
      | kEtc2Rgba8 \<Rightarrow>
          (take 4 (drop (texel * 4) (DecodeRgbBlock (drop 8 block) False)))
            [3 := Clamp255 (oct block 0 + EacModifier block texel * drop_bit 4 (oct block 1))]
      | kEacR11 \<Rightarrow> (let v = DecodeR11 block texel False in [ucast v, ucast (drop_bit 8 v)])
      | kEacR11Signed \<Rightarrow> (let v = DecodeR11 block texel True in [ucast v, ucast (drop_bit 8 v)])
      | kEacRg11 \<Rightarrow>
          concat (map (\<lambda>channel. let v = DecodeR11 (drop (channel * 8) block) texel False
                                 in [ucast v, ucast (drop_bit 8 v)]) [0..<2])
      | kEacRg11Signed \<Rightarrow>
          concat (map (\<lambda>channel. let v = DecodeR11 (drop (channel * 8) block) texel True
                                 in [ucast v, ucast (drop_bit 8 v)]) [0..<2]))"

definition write_bytes :: "bytes \<Rightarrow> nat \<Rightarrow> bytes \<Rightarrow> bytes" where
  "write_bytes dst off bs = foldl (\<lambda>d i. d[off + i := bs ! i]) dst [0..<length bs]"

record EtcImage =
  im_format :: EtcFormat
  im_source :: bytes
  im_width :: nat
  im_height :: nat

definition blocks_wide :: "EtcImage \<Rightarrow> nat" where "blocks_wide im = (im_width im + 3) div 4"
definition blocks_high :: "EtcImage \<Rightarrow> nat" where "blocks_high im = (im_height im + 3) div 4"

text \<open>The innermost body: texel \<open>(x, y)\<close> of block \<open>(bx, by)\<close>.\<close>

definition decode_texel :: "EtcImage \<Rightarrow> nat \<Rightarrow> nat \<Rightarrow> nat \<Rightarrow> nat \<Rightarrow> bytes \<Rightarrow> bytes" where
  "decode_texel im row bx y x dst =
     (let block = drop ((row * blocks_wide im + bx) * EtcBlockBytes (im_format im)) (im_source im);
          off = ((row * 4 + y) * im_width im + bx * 4 + x) * EtcDecodedTexelBytes (im_format im)
      in write_bytes dst off (texel_bytes_of (im_format im) block (x * 4 + y)))"

definition decode_block :: "EtcImage \<Rightarrow> nat \<Rightarrow> nat \<Rightarrow> bytes \<Rightarrow> bytes" where
  "decode_block im row bx dst =
     foldl (\<lambda>d y. foldl (\<lambda>d x. decode_texel im row bx y x d) d
                    (takeWhile (\<lambda>x. bx * 4 + x < im_width im) [0..<4]))
       dst (takeWhile (\<lambda>y. row * 4 + y < im_height im) [0..<4])"

definition decode_rows :: "EtcImage \<Rightarrow> nat \<Rightarrow> nat \<Rightarrow> bytes \<Rightarrow> bytes" where
  "decode_rows im first count dst =
     foldl (\<lambda>d row. foldl (\<lambda>d bx. decode_block im row bx d) d [0..<blocks_wide im])
       dst [first..<first + count]"

definition DecodeEtcImageBlockRows ::
  "EtcFormat \<Rightarrow> bytes option \<Rightarrow> u32 \<Rightarrow> u32 \<Rightarrow> u32 \<Rightarrow> u32 \<Rightarrow> bytes option \<Rightarrow> bool \<times> bytes option" where
  "DecodeEtcImageBlockRows format source width height first_block_row block_row_count destination =
     (if \<not> ImageFits format source width height destination then (False, destination)
      else if (ucast first_block_row :: u64) + ucast block_row_count > blocks height
      then (False, destination)
      else let im = \<lparr>im_format = format, im_source = the source, im_width = unat width,
                     im_height = unat height\<rparr>
           in (True, map_option (decode_rows im (unat first_block_row) (unat block_row_count)) destination))"

definition DecodeEtcImage ::
  "EtcFormat \<Rightarrow> bytes option \<Rightarrow> u32 \<Rightarrow> u32 \<Rightarrow> bytes option \<Rightarrow> bool \<times> bytes option" where
  "DecodeEtcImage format source width height destination =
     DecodeEtcImageBlockRows format source width height 0 ((height + 3) div 4) destination"

section \<open>Bands\<close>

definition kBlocksPerBand :: nat where "kBlocksPerBand = 1024"
definition kParallelMinimumBlocks :: nat where "kParallelMinimumBlocks = 4096"

definition rows_per_band :: "nat \<Rightarrow> nat" where
  "rows_per_band wide = max 1 (kBlocksPerBand div wide)"

text \<open>The \<open>for (row = 0; row < blocks_high; row += rows_per_band)\<close> loop.\<close>

function bands_from :: "nat \<Rightarrow> nat \<Rightarrow> nat \<Rightarrow> (nat \<times> nat) list" where
  "bands_from step high row =
     (if step = 0 \<or> row \<ge> high then []
      else (row, min step (high - row)) # bands_from step high (row + step))"
  by auto
termination
  by (relation "measure (\<lambda>(step, high, row). high - row)") auto

declare bands_from.simps [simp del]

definition job_bands :: "EtcImage \<Rightarrow> (nat \<times> nat) list" where
  "job_bands im = bands_from (rows_per_band (blocks_wide im)) (blocks_high im) 0"

record EtcDecodeJob =
  ej_format :: EtcFormat
  ej_source :: "bytes option"
  ej_width :: u32
  ej_height :: u32
  ej_destination :: "bytes option"
  ej_ok :: bool

definition job_image :: "EtcDecodeJob \<Rightarrow> EtcImage" where
  "job_image job = \<lparr>im_format = ej_format job, im_source = the (ej_source job),
     im_width = unat (ej_width job), im_height = unat (ej_height job)\<rparr>"

definition job_fits :: "EtcDecodeJob \<Rightarrow> bool" where
  "job_fits job = ImageFits (ej_format job) (ej_source job) (ej_width job) (ej_height job)
     (ej_destination job)"

text \<open>The bands of all jobs, as (job index, first block row, block rows).\<close>

definition jobs_bands :: "EtcDecodeJob list \<Rightarrow> (nat \<times> nat \<times> nat) list" where
  "jobs_bands jobs =
     concat (map (\<lambda>i. if job_fits (jobs ! i) then map (Pair i) (job_bands (job_image (jobs ! i))) else [])
       [0..<length jobs])"

definition run_band :: "EtcDecodeJob list \<Rightarrow> nat \<times> nat \<times> nat \<Rightarrow> EtcDecodeJob list" where
  "run_band jobs band =
     (case band of (i, first, count) \<Rightarrow>
        let job = jobs ! i in
        jobs[i := job\<lparr>ej_destination := snd (DecodeEtcImageBlockRows (ej_format job) (ej_source job)
               (ej_width job) (ej_height job) (of_nat first) (of_nat count) (ej_destination job))\<rparr>])"

definition total_blocks :: "EtcDecodeJob list \<Rightarrow> nat" where
  "total_blocks jobs =
     sum_list (map (\<lambda>job. blocks_wide (job_image job) * blocks_high (job_image job)) (filter job_fits jobs))"

definition decode_threads :: "EtcDecodeJob list \<Rightarrow> nat \<Rightarrow> nat" where
  "decode_threads jobs worker_count =
     (if total_blocks jobs < kParallelMinimumBlocks then 1
      else min (max worker_count 1) (length (jobs_bands jobs)))"

text \<open>
  One thread decodes the bands in queue order. Several threads take them from an atomic counter,
  so that every band is decoded once, in an order \<open>order\<close> the scheduler chooses; the caller waits
  until all workers are done. The texel writes of the bands go to different bytes, and what they
  leave depends on the set of the writes only (lemma \<open>writes_decode\<close>).
\<close>

definition DecodeEtcJobs ::
  "EtcDecodeJob list \<Rightarrow> nat \<Rightarrow> (nat \<times> nat \<times> nat) list \<Rightarrow> EtcDecodeJob list" where
  "DecodeEtcJobs jobs worker_count order =
     foldl run_band (map (\<lambda>job. job\<lparr>ej_ok := job_fits job\<rparr>) jobs)
       (if decode_threads jobs worker_count \<le> 1 then jobs_bands jobs else order)"

section \<open>Writes\<close>

lemma write_bytes_length [simp]: "length (write_bytes d off bs) = length d"
proof -
  have "length (foldl (\<lambda>d i. d[off + i := bs ! i]) d is) = length d" for "is"
    by (induction "is" arbitrary: d) simp_all
  then show ?thesis by (simp add: write_bytes_def)
qed

lemma write_bytes_nth:
  assumes "i < length d"
  shows "write_bytes d off bs ! i = (if off \<le> i \<and> i < off + length bs then bs ! (i - off) else d ! i)"
proof -
  have len: "length (foldl (\<lambda>d i. d[off + i := bs ! i]) d is) = length d" for "is"
    by (induction "is" arbitrary: d) simp_all
  have "foldl (\<lambda>d i. d[off + i := bs ! i]) d [0..<n] ! i =
      (if off \<le> i \<and> i < off + n then bs ! (i - off) else d ! i)" for n
  proof (induction n)
    case (Suc n)
    then show ?case
      using assms by (cases "i = off + n") (auto simp: len)
  qed auto
  then show ?thesis by (simp add: write_bytes_def)
qed

lemma foldl_foldl: "foldl (\<lambda>d x. foldl g d (h x)) d xs = foldl g d (concat (map h xs))"
  by (induction xs arbitrary: d) simp_all

section \<open>Pixels\<close>

text \<open>The bytes of pixel \<open>(px, py)\<close>, straight from the block that holds it.\<close>

definition pixel_value :: "EtcImage \<Rightarrow> nat \<times> nat \<Rightarrow> bytes" where
  "pixel_value im p =
     (case p of (px, py) \<Rightarrow>
        texel_bytes_of (im_format im)
          (drop ((py div 4 * blocks_wide im + px div 4) * EtcBlockBytes (im_format im)) (im_source im))
          (px mod 4 * 4 + py mod 4))"

definition pixel_offset :: "EtcImage \<Rightarrow> nat \<times> nat \<Rightarrow> nat" where
  "pixel_offset im p =
     (case p of (px, py) \<Rightarrow> (py * im_width im + px) * EtcDecodedTexelBytes (im_format im))"

definition write_pixel :: "EtcImage \<Rightarrow> bytes \<Rightarrow> nat \<times> nat \<Rightarrow> bytes" where
  "write_pixel im d p = write_bytes d (pixel_offset im p) (pixel_value im p)"

definition rows_pixels :: "EtcImage \<Rightarrow> nat \<Rightarrow> nat \<Rightarrow> (nat \<times> nat) list" where
  "rows_pixels im first count =
     concat (map (\<lambda>row. concat (map (\<lambda>bx. concat (map (\<lambda>y. map (\<lambda>x. (bx * 4 + x, row * 4 + y))
         (takeWhile (\<lambda>x. bx * 4 + x < im_width im) [0..<4]))
       (takeWhile (\<lambda>y. row * 4 + y < im_height im) [0..<4]))) [0..<blocks_wide im]))
     [first..<first + count])"

lemma decode_texel_pixel:
  assumes "x < 4" "y < 4"
  shows "decode_texel im row bx y x d = write_pixel im d (bx * 4 + x, row * 4 + y)"
  using assms by (simp add: decode_texel_def write_pixel_def pixel_value_def pixel_offset_def Let_def add.assoc)

lemma foldl_map_cong: "(\<And>d x. x \<in> set xs \<Longrightarrow> f d x = g d (h x)) \<Longrightarrow> foldl f d xs = foldl g d (map h xs)"
  by (induction xs arbitrary: d) simp_all

lemma decode_rows_pixels: "decode_rows im first count d = foldl (write_pixel im) d (rows_pixels im first count)"
proof -
  have inner: "foldl (\<lambda>d x. decode_texel im row bx y x d) d (takeWhile (\<lambda>x. bx * 4 + x < im_width im) [0..<4]) =
     foldl (write_pixel im) d (map (\<lambda>x. (bx * 4 + x, row * 4 + y)) (takeWhile (\<lambda>x. bx * 4 + x < im_width im) [0..<4]))"
    if "y < 4" for d row bx y
    using that by (intro foldl_map_cong decode_texel_pixel) (auto dest!: set_takeWhileD)
  have block: "decode_block im row bx d = foldl (write_pixel im) d
     (concat (map (\<lambda>y. map (\<lambda>x. (bx * 4 + x, row * 4 + y)) (takeWhile (\<lambda>x. bx * 4 + x < im_width im) [0..<4]))
        (takeWhile (\<lambda>y. row * 4 + y < im_height im) [0..<4])))" for row bx d
    unfolding decode_block_def foldl_foldl [symmetric]
    by (rule foldl_cong) (auto dest!: set_takeWhileD intro: inner)
  show ?thesis
    unfolding decode_rows_def rows_pixels_def block foldl_foldl ..
qed

lemma takeWhile_below: "set (takeWhile (\<lambda>x. a + x < n) [0..<m]) = {x. x < m \<and> a + x < n}"
proof (induction m)
  case (Suc m)
  show ?case
  proof (cases "\<forall>x < m. a + x < n")
    case True
    then show ?thesis by (auto simp: takeWhile_append less_Suc_eq)
  next
    case False
    then have "\<not> a + m < n" by auto
    then show ?thesis using False Suc by (auto simp: takeWhile_append less_Suc_eq)
  qed
qed simp

lemma div_block: "(px :: nat) < w \<Longrightarrow> px div 4 < (w + 3) div 4"
  by linarith

lemma rows_pixels_set:
  "set (rows_pixels im first count) =
     {(px, py). px < im_width im \<and> py < im_height im \<and> first \<le> py div 4 \<and> py div 4 < first + count}"
proof -
  have "(px, py) \<in> set (rows_pixels im first count) \<longleftrightarrow>
      px < im_width im \<and> py < im_height im \<and> first \<le> py div 4 \<and> py div 4 < first + count" for px py
  proof
    assume r: "px < im_width im \<and> py < im_height im \<and> first \<le> py div 4 \<and> py div 4 < first + count"
    then have w: "px div 4 < blocks_wide im" by (simp add: blocks_wide_def div_block)
    have "(px, py) \<in> (\<lambda>x. (px div 4 * 4 + x, py div 4 * 4 + py mod 4)) ` {x. x < 4 \<and> px div 4 * 4 + x < im_width im}"
      using r by (intro image_eqI [of _ _ "px mod 4"]) simp_all
    moreover have "py mod 4 \<in> {y. y < 4 \<and> py div 4 * 4 + y < im_height im}" using r by simp
    ultimately show "(px, py) \<in> set (rows_pixels im first count)"
      unfolding rows_pixels_def set_concat set_map image_image UN_iff takeWhile_below
      using r w by - (rule bexI [of _ "py div 4"], rule bexI [of _ "px div 4"], rule bexI [of _ "py mod 4"], auto)
  qed (auto simp: rows_pixels_def takeWhile_below)
  then show ?thesis by auto
qed

section \<open>What the decode loops write\<close>

definition pixel_of :: "EtcImage \<Rightarrow> nat \<Rightarrow> nat \<times> nat" where
  "pixel_of im i =
     (let n = i div EtcDecodedTexelBytes (im_format im) in (n mod im_width im, n div im_width im))"

lemma texel_bytes_pos [simp]: "0 < EtcDecodedTexelBytes f"
  by (cases f) simp_all

lemma DecodeRgbBlock_length [simp]: "length (DecodeRgbBlock b pt) = 64"
proof -
  have "length (concat (map (\<lambda>t. case f t of (r, g, bl, a) \<Rightarrow> [r, g, bl, a]) ts)) = 4 * length ts"
    for f :: "nat \<Rightarrow> rgba" and ts
    by (induction ts) (simp_all split: prod.split)
  then show ?thesis by (simp add: DecodeRgbBlock_def)
qed

lemma texel_bytes_length: "t < 16 \<Longrightarrow> length (texel_bytes_of f block t) = EtcDecodedTexelBytes f"
  by (cases f) (simp_all add: texel_bytes_of_def Let_def numeral_2_eq_2)

lemma pixel_value_length: "length (pixel_value im p) = EtcDecodedTexelBytes (im_format im)"
proof (cases p)
  case (Pair px py)
  have "px mod 4 * 4 + py mod 4 < 16"
    using mod_less_divisor [of 4 px] mod_less_divisor [of 4 py] by linarith
  then show ?thesis by (simp add: pixel_value_def Pair texel_bytes_length)
qed

lemma in_pixel_cell:
  assumes "fst p < im_width im"
  shows "pixel_offset im p \<le> i \<and> i < pixel_offset im p + EtcDecodedTexelBytes (im_format im) \<longleftrightarrow>
    pixel_of im i = p"
proof -
  let ?t = "EtcDecodedTexelBytes (im_format im)"
  obtain px py where p: "p = (px, py)" by (cases p)
  have "py * im_width im + px \<le> i div ?t \<and> i div ?t < Suc (py * im_width im + px) \<longleftrightarrow>
      (py * im_width im + px) * ?t \<le> i \<and> i < (py * im_width im + px) * ?t + ?t"
    by (simp add: less_eq_div_iff_mult_less_eq div_less_iff_less_mult add.commute)
  moreover have "i div ?t = py * im_width im + px \<longleftrightarrow> i div ?t mod im_width im = px \<and> i div ?t div im_width im = py"
    using assms p by auto 
  ultimately show ?thesis by (auto simp: p pixel_offset_def pixel_of_def Let_def)
qed

lemma foldl_write_length [simp]: "length (foldl (write_pixel im) d ps) = length d"
  by (induction ps arbitrary: d) (simp_all add: write_pixel_def)

lemma write_pixel_nth:
  assumes "fst p < im_width im" "i < length d"
  shows "write_pixel im d p ! i =
    (if pixel_of im i = p then pixel_value im p ! (i - pixel_offset im p) else d ! i)"
  unfolding in_pixel_cell [OF assms(1), of i, symmetric]
  using assms(2) by (simp add: write_pixel_def write_bytes_nth pixel_value_length)

lemma foldl_write_nth:
  assumes "\<And>p. p \<in> set ps \<Longrightarrow> fst p < im_width im" and "i < length d"
  shows "foldl (write_pixel im) d ps ! i =
    (if pixel_of im i \<in> set ps
     then pixel_value im (pixel_of im i) ! (i - pixel_offset im (pixel_of im i)) else d ! i)"
  using assms by (induction ps rule: rev_induct) (auto simp: write_pixel_nth)


section \<open>The size check\<close>

lemma unat_widen [simp]: "unat (ucast (w :: u32) :: u64) = unat w"
  using unsigned_less [of w, where 'a = nat] by (simp add: unsigned_ucast_eq take_bit_nat_eq_self)

lemma u32_less: "unat (w :: u32) < 2 ^ 32"
  using unsigned_less [of w, where 'a = nat] by simp

lemma unat_blocks: "unat (blocks w) = (unat w + 3) div 4"
  using u32_less [of w] by (simp add: blocks_def unat_div unat_word_ariths)

lemma source_product:
  "unat (blocks w * blocks h * of_nat b) = (unat w + 3) div 4 * ((unat h + 3) div 4) * b mod 2 ^ 64"
  by (simp add: unat_word_ariths unat_of_nat unat_blocks mod_mult_left_eq mod_mult_right_eq)

lemma destination_product:
  "unat (ucast (w :: u32) * ucast (h :: u32) * (of_nat t :: u64)) = unat w * unat h * t mod 2 ^ 64"
  by (simp add: unat_word_ariths unat_of_nat mod_mult_left_eq mod_mult_right_eq)

lemma bounded_product: "(n :: nat) \<le> m \<Longrightarrow> a \<le> b \<Longrightarrow> m * b < k \<Longrightarrow> n * a < k"
  by (rule le_less_trans [OF mult_le_mono])

definition natural_fit :: "EtcFormat \<Rightarrow> bytes \<Rightarrow> nat \<Rightarrow> nat \<Rightarrow> bytes \<Rightarrow> bool" where
  "natural_fit f src w h dst \<longleftrightarrow>
     w \<noteq> 0 \<and> h \<noteq> 0 \<and> (w + 3) div 4 * ((h + 3) div 4) * EtcBlockBytes f \<le> length src \<and>
     w * h * EtcDecodedTexelBytes f \<le> length dst"

lemma block_bytes_bounds: "8 \<le> EtcBlockBytes f" "EtcBlockBytes f \<le> 16"
  by (cases f; simp)+

lemma texel_bytes_bound: "EtcDecodedTexelBytes f \<le> 4"
  by (cases f) simp_all

text \<open>A source buffer below \<open>2^61\<close> bytes keeps both products of the check below \<open>2^64\<close>.\<close>

lemma ImageFits_natural:
  assumes "unat h + 3 < 2 ^ 32" "length src < 2 ^ 61" "length dst < 2 ^ 64"
  shows "ImageFits f (Some src) w h (Some dst) \<longleftrightarrow> natural_fit f src (unat w) (unat h) dst"
proof -
  let ?bw = "(unat w + 3) div 4" and ?bh = "(unat h + 3) div 4"
  have "?bw \<le> 2 ^ 30" using u32_less [of w] by simp
  moreover have "?bh \<le> 2 ^ 30 - 1" using assms(1) by simp
  ultimately have "?bw * ?bh \<le> 2 ^ 30 * (2 ^ 30 - 1)" by (rule mult_le_mono)
  then have "?bw * ?bh * EtcBlockBytes f < 2 ^ 64"
    by (rule bounded_product [OF _ block_bytes_bounds(2)]) simp
  then have src: "blocks w * blocks h * of_nat (EtcBlockBytes f) \<le> (of_nat (length src) :: u64) \<longleftrightarrow>
      ?bw * ?bh * EtcBlockBytes f \<le> length src"
    using assms(2) by (simp add: word_le_nat_alt source_product unat_of_nat)
  have dst: "ucast w * ucast h * of_nat (EtcDecodedTexelBytes f) \<le> (of_nat (length dst) :: u64) \<longleftrightarrow>
      unat w * unat h * EtcDecodedTexelBytes f \<le> length dst"
    if "?bw * ?bh * EtcBlockBytes f \<le> length src"
  proof -
    have "?bw * ?bh * 8 < 2 ^ 61"
      using that assms(2) mult_le_mono2 [OF block_bytes_bounds(1) [of f], of "?bw * ?bh"] by linarith
    moreover have "unat w * unat h \<le> (4 * ?bw) * (4 * ?bh)" by (intro mult_mono) linarith+
    ultimately have "unat w * unat h \<le> 2 ^ 62 - 1" by (simp add: mult.commute)
    then have "unat w * unat h * EtcDecodedTexelBytes f < 2 ^ 64"
      by (rule bounded_product [OF _ texel_bytes_bound]) simp
    then show ?thesis
      using assms(3) by (simp add: word_le_nat_alt destination_product unat_of_nat)
  qed
  have "w \<noteq> 0 \<longleftrightarrow> unat w \<noteq> 0" "h \<noteq> 0 \<longleftrightarrow> unat h \<noteq> 0" by (simp_all add: unat_eq_0)
  then show ?thesis
    using src dst by (auto simp: ImageFits_def natural_fit_def)
qed

section \<open>Whole images\<close>

definition etc_image :: "EtcFormat \<Rightarrow> bytes \<Rightarrow> u32 \<Rightarrow> u32 \<Rightarrow> EtcImage" where
  "etc_image f src w h = \<lparr>im_format = f, im_source = src, im_width = unat w, im_height = unat h\<rparr>"

text \<open>The decoded image: the pixel bytes in row order, then what the buffer held before.\<close>

definition decoded :: "EtcImage \<Rightarrow> bytes \<Rightarrow> bytes" where
  "decoded im dst =
     map (\<lambda>i. if i < im_width im * im_height im * EtcDecodedTexelBytes (im_format im)
              then pixel_value im (pixel_of im i) ! (i mod EtcDecodedTexelBytes (im_format im))
              else dst ! i) [0..<length dst]"

lemma pixel_of_range:
  assumes "0 < im_width im"
  shows "i < im_width im * im_height im * EtcDecodedTexelBytes (im_format im) \<longleftrightarrow>
    snd (pixel_of im i) < im_height im"
  using assms by (simp add: pixel_of_def Let_def div_less_iff_less_mult ac_simps)

lemma pixel_of_column: "0 < im_width im \<Longrightarrow> fst (pixel_of im i) < im_width im"
  by (simp add: pixel_of_def Let_def)

lemma pixel_of_offset: "i - pixel_offset im (pixel_of im i) = i mod EtcDecodedTexelBytes (im_format im)"
  by (simp add: pixel_of_def pixel_offset_def Let_def minus_div_mult_eq_mod)

text \<open>
  Any sequence of texel writes that covers the image and nothing else leaves the decoded image:
  neither the order nor the interleaving of the writes matters.
\<close>

lemma writes_decode:
  assumes "set ps = {(px, py). px < im_width im \<and> py < im_height im}" and "0 < im_width im"
  shows "foldl (write_pixel im) d ps = decoded im d"
proof (rule nth_equalityI)
  fix i assume "i < length (foldl (write_pixel im) d ps)"
  moreover have "pixel_of im i \<in> set ps \<longleftrightarrow>
      i < im_width im * im_height im * EtcDecodedTexelBytes (im_format im)"
    using assms pixel_of_column [of im i] by (simp add: pixel_of_range case_prod_unfold)
  moreover have "\<And>p. p \<in> set ps \<Longrightarrow> fst p < im_width im" unfolding assms(1) by auto
  ultimately show "foldl (write_pixel im) d ps ! i = decoded im d ! i"
    by (simp add: foldl_write_nth decoded_def pixel_of_offset)
qed (simp add: decoded_def)

lemma decode_all_rows:
  assumes "0 < im_width im"
  shows "decode_rows im 0 (blocks_high im) d = decoded im d"
  unfolding decode_rows_pixels
  by (rule writes_decode) (use assms div_block in \<open>auto simp: rows_pixels_set blocks_high_def\<close>)


lemma height_blocks:
  assumes "unat (h :: u32) + 3 < 2 ^ 32"
  shows "unat ((h + 3) div 4) = (unat h + 3) div 4"
  using assms by (simp add: unat_div unat_word_ariths)

section \<open>Bands\<close>

lemma bands_cover:
  "0 < step \<Longrightarrow> (\<exists>(first, count) \<in> set (bands_from step high row). first \<le> r \<and> r < first + count) \<longleftrightarrow>
     row \<le> r \<and> r < high"
proof (induction step high row rule: bands_from.induct)
  case (1 step high row)
  show ?case
  proof (cases "row \<ge> high")
    case False
    have "(\<exists>(first, count) \<in> set (bands_from step high row). first \<le> r \<and> r < first + count) \<longleftrightarrow>
        (row \<le> r \<and> r < row + min step (high - row)) \<or> (row + step \<le> r \<and> r < high)"
      using 1 False by (subst bands_from.simps) auto
    then show ?thesis using False 1 by auto
  qed (auto simp: bands_from.simps [of step high row])
qed

lemma bands_below:
  "(first, count) \<in> set (bands_from step high row) \<Longrightarrow> first + count \<le> high"
proof (induction step high row rule: bands_from.induct)
  case (1 step high row)
  then show ?case by (subst (asm) (2) bands_from.simps) (auto split: if_splits)
qed

lemma job_bands_pixels:
  "(\<Union>(first, count) \<in> set (job_bands im). set (rows_pixels im first count)) =
     {(px, py). px < im_width im \<and> py < im_height im}"
proof -
  have pos: "0 < rows_per_band (blocks_wide im)" by (simp add: rows_per_band_def)
  have "(px, py) \<in> (\<Union>(first, count) \<in> set (job_bands im). set (rows_pixels im first count)) \<longleftrightarrow>
      px < im_width im \<and> py < im_height im \<and> py div 4 < blocks_high im" for px py
    using bands_cover [OF pos, of "blocks_high im" 0 "py div 4"]
    unfolding job_bands_def rows_pixels_set by fastforce
  then show ?thesis by (auto simp: blocks_high_def div_block)
qed


section \<open>Jobs\<close>

lemma ImageFits_Some:
  "ImageFits f src w h dst \<Longrightarrow> \<exists>s d. src = Some s \<and> dst = Some d \<and> 0 < unat w"
  by (auto simp: ImageFits_def unat_gt_0 split: option.splits)

lemma ImageFits_length:
  "length d = length d' \<Longrightarrow> ImageFits f src w h (Some d) = ImageFits f src w h (Some d')"
  by (simp add: ImageFits_def split: option.split)

text \<open>The writes one band makes in its own job.\<close>

lemma block_rows_writes:
  assumes "ImageFits f (Some src) w h (Some dst)"
    and "first + count \<le> blocks_high (etc_image f src w h)"
  shows "DecodeEtcImageBlockRows f (Some src) w h (of_nat first) (of_nat count) (Some dst) =
    (True, Some (foldl (write_pixel (etc_image f src w h)) dst (rows_pixels (etc_image f src w h) first count)))"
proof -
  have high: "blocks_high (etc_image f src w h) \<le> 2 ^ 30"
    using u32_less [of h] by (simp add: blocks_high_def etc_image_def)
  then have nats: "unat (of_nat first :: u32) = first" "unat (of_nat count :: u32) = count"
    using assms(2) by (simp_all add: unat_of_nat)
  then have "unat (ucast (of_nat first :: u32) + ucast (of_nat count :: u32) :: u64) = first + count"
    using assms(2) high by (simp add: unat_word_ariths)
  then have "\<not> (ucast (of_nat first :: u32) :: u64) + ucast (of_nat count :: u32) > blocks h"
    using assms(2) by (simp add: word_less_nat_alt unat_blocks blocks_high_def etc_image_def)
  then show ?thesis
    using assms(1) nats
    by (simp add: DecodeEtcImageBlockRows_def decode_rows_pixels [symmetric] etc_image_def)
qed

definition job_writes :: "EtcDecodeJob \<Rightarrow> (nat \<times> nat) list \<Rightarrow> EtcDecodeJob" where
  "job_writes job ps =
     job\<lparr>ej_destination := map_option (\<lambda>d. foldl (write_pixel (job_image job)) d ps) (ej_destination job)\<rparr>"

lemma job_writes_simps [simp]:
  "job_image (job_writes job ps) = job_image job"
  "job_writes (job_writes job ps) qs = job_writes job (ps @ qs)"
  by (simp_all add: job_writes_def job_image_def option.map_comp comp_def)

lemma job_writes_fits [simp]: "job_fits (job_writes job ps) = job_fits job"
  by (cases "ej_destination job")
    (simp_all add: job_writes_def job_fits_def ImageFits_length [of "foldl (write_pixel im) d ps" d for im d])

definition job_bands_of :: "nat \<Rightarrow> (nat \<times> nat \<times> nat) list \<Rightarrow> EtcImage \<Rightarrow> (nat \<times> nat) list" where
  "job_bands_of i order im =
     concat (map (\<lambda>(j, first, count). if j = i then rows_pixels im first count else []) order)"

definition band_ok :: "EtcDecodeJob list \<Rightarrow> nat \<times> nat \<times> nat \<Rightarrow> bool" where
  "band_ok jobs band = (case band of (i, first, count) \<Rightarrow>
     i < length jobs \<and> job_fits (jobs ! i) \<and> first + count \<le> blocks_high (job_image (jobs ! i)))"

lemma run_band_writes:
  assumes "band_ok jobs (i, first, count)"
  shows "run_band jobs (i, first, count) =
    jobs[i := job_writes (jobs ! i) (rows_pixels (job_image (jobs ! i)) first count)]"
proof -
  obtain s d where sd: "ej_source (jobs ! i) = Some s" "ej_destination (jobs ! i) = Some d"
    using assms ImageFits_Some by (fastforce simp: band_ok_def job_fits_def)
  moreover have "job_image (jobs ! i) = etc_image (ej_format (jobs ! i)) s (ej_width (jobs ! i)) (ej_height (jobs ! i))"
    using sd by (simp add: job_image_def etc_image_def)
  ultimately show ?thesis
    using assms by (simp add: run_band_def band_ok_def job_fits_def Let_def block_rows_writes job_writes_def)
qed

lemma run_bands_writes:
  assumes "\<And>band. band \<in> set order \<Longrightarrow> band_ok jobs band"
  shows "foldl run_band jobs order =
    map (\<lambda>i. job_writes (jobs ! i) (job_bands_of i order (job_image (jobs ! i)))) [0..<length jobs]"
  using assms
proof (induction order rule: rev_induct)
  case Nil
  have "job_writes job [] = job" for job by (cases "ej_destination job") (simp_all add: job_writes_def)
  then show ?case by (simp add: job_bands_of_def map_nth)
next
  case (snoc band order)
  obtain j first count where band: "band = (j, first, count)" by (cases band)
  define now where
    "now = map (\<lambda>i. job_writes (jobs ! i) (job_bands_of i order (job_image (jobs ! i)))) [0..<length jobs]"
  have ok: "band_ok jobs (j, first, count)" using snoc.prems band by simp
  then have "band_ok now (j, first, count)" by (simp add: band_ok_def now_def)
  then have "run_band now band = now[j := job_writes (now ! j) (rows_pixels (job_image (now ! j)) first count)]"
    by (simp add: band run_band_writes)
  also have "\<dots> = map (\<lambda>i. job_writes (jobs ! i) (job_bands_of i (order @ [band]) (job_image (jobs ! i))))
      [0..<length jobs]"
    using ok by (intro nth_equalityI) (auto simp: now_def band_ok_def band job_bands_of_def nth_list_update)
  finally show ?case using snoc by (simp add: now_def)
qed

lemma jobs_bands_iff:
  "(i, first, count) \<in> set (jobs_bands jobs) \<longleftrightarrow>
     i < length jobs \<and> job_fits (jobs ! i) \<and> (first, count) \<in> set (job_bands (job_image (jobs ! i)))"
  by (auto simp: jobs_bands_def split: if_splits)

lemma job_bands_of_pixels:
  assumes "set order = set (jobs_bands jobs)" and "i < length jobs" and "im = job_image (jobs ! i)"
  shows "set (job_bands_of i order im) =
    (if job_fits (jobs ! i) then {(px, py). px < im_width im \<and> py < im_height im} else {})"
proof -
  have "set (job_bands_of i order im) =
      (\<Union>(first, count) \<in> {b. (i, b) \<in> set (jobs_bands jobs)}. set (rows_pixels im first count))"
    unfolding assms(1) [symmetric] by (fastforce simp: job_bands_of_def split: if_splits)
  also have "{b. (i, b) \<in> set (jobs_bands jobs)} =
      (if job_fits (jobs ! i) then set (job_bands im) else {})"
    using assms(2,3) by (auto simp: jobs_bands_iff)
  finally show ?thesis using job_bands_pixels [of im] by simp
qed

definition decoded_job :: "EtcDecodeJob \<Rightarrow> EtcDecodeJob" where
  "decoded_job job =
     (if job_fits job
      then job\<lparr>ej_ok := True, ej_destination := map_option (decoded (job_image job)) (ej_destination job)\<rparr>
      else job\<lparr>ej_ok := False\<rparr>)"

lemma job_writes_decoded:
  assumes "marked = job\<lparr>ej_ok := job_fits job\<rparr>"
    and "set ps = (if job_fits job then {(px, py). px < im_width (job_image job) \<and> py < im_height (job_image job)} else {})"
  shows "job_writes marked ps = decoded_job job"
proof (cases "job_fits job")
  case True
  then obtain d where d: "ej_destination job = Some d" and pos: "0 < im_width (job_image job)"
    using ImageFits_Some by (fastforce simp: job_fits_def job_image_def)
  have "foldl (write_pixel (job_image job)) d ps = decoded (job_image job) d"
    using assms(2) True pos by (intro writes_decode) simp_all
  moreover have "job_image marked = job_image job" by (simp add: assms(1) job_image_def)
  ultimately show ?thesis using True d by (simp add: job_writes_def decoded_job_def assms(1))
next
  case False
  then show ?thesis
    using assms by (cases "ej_destination job") (simp_all add: job_writes_def decoded_job_def)
qed

section \<open>Bounds\<close>

lemma cell_bound:
  assumes "(a :: nat) < m" "b < n"
  shows "(b * m + a + 1) * k \<le> m * n * k"
proof -
  have "b * m + a + 1 \<le> Suc b * m" using assms(1) by simp
  also have "\<dots> \<le> n * m" using assms(2) by (intro mult_le_mono1) simp
  finally show ?thesis by (simp add: mult.commute [of n m] del: add_Suc_right)
qed

text \<open>Decoding a block uses its own bytes only, whatever follows them.\<close>

lemma block_nth: "8 \<le> length b \<Longrightarrow> i < 8 \<Longrightarrow> (b @ c) ! i = b ! i"
  by (simp add: nth_append)

lemma colour_block_local:
  assumes "8 \<le> length b"
  shows "rgb_texel (b @ c) punchthrough texel = rgb_texel b punchthrough texel"
proof -
  note n = block_nth [OF assms, of _ c]
  have index: "texel_index (b @ c) texel = texel_index b texel" by (simp add: texel_index_def n)
  have sums: "channel_sum (b @ c) k = channel_sum b k" if "k < 8" for k using that by (simp add: channel_sum_def n)
  have "t_paint (b @ c) = t_paint b" "h_paint (b @ c) = h_paint b" by (simp_all add: t_paint_def h_paint_def n)
  then have painted: "painted_texel q (if s then t_paint (b @ c) else h_paint (b @ c)) (b @ c) texel =
      painted_texel q (if s then t_paint b else h_paint b) b texel" for q s
    unfolding painted_texel_def index Let_def by (simp only:)
  have planar: "planar_texel (b @ c) texel = planar_texel b texel" unfolding planar_texel_def by (simp add: n)
  have base: "base_colour q (b @ c) sub 0 = base_colour q b sub 0" "base_colour q (b @ c) sub 1 = base_colour q b sub 1"
      "base_colour q (b @ c) sub 2 = base_colour q b sub 2" for q sub
    by (simp_all add: base_colour_def n)
  have flags: "(b @ c) ! 3 = b ! 3" by (simp add: n)
  have split: "split_texel q r (b @ c) texel = split_texel q r b texel" for q r
    unfolding split_texel_def index base flags ..
  show ?thesis by (simp add: rgb_texel_def Let_def sums painted planar split n)
qed

lemma eac_block_local:
  assumes "8 \<le> length b"
  shows "EacModifier (b @ c) texel = EacModifier b texel" "DecodeR11 (b @ c) texel is_signed = DecodeR11 b texel is_signed"
proof -
  note n = block_nth [OF assms, of _ c]
  have "foldl (\<lambda>acc i. push_bit 8 acc OR ucast ((b @ c) ! i)) (0 :: u64) [2..<8] =
      foldl (\<lambda>acc i. push_bit 8 acc OR ucast (b ! i)) 0 [2..<8]"
    by (rule foldl_cong) (auto simp: n)
  then show m: "EacModifier (b @ c) texel = EacModifier b texel" by (simp add: EacModifier_def EacIndex_def n)
  show "DecodeR11 (b @ c) texel is_signed = DecodeR11 b texel is_signed" unfolding DecodeR11_def Let_def m by (simp add: n)
qed

lemma texel_bytes_local:
  assumes "EtcBlockBytes f \<le> length b"
  shows "texel_bytes_of f (b @ c) texel = texel_bytes_of f b texel"
proof -
  have rgb: "8 \<le> length b \<Longrightarrow> DecodeRgbBlock (b @ c) pt = DecodeRgbBlock b pt" for b c pt
    by (simp add: DecodeRgbBlock_def colour_block_local)
  show ?thesis using assms
    by (cases f) (simp_all add: texel_bytes_of_def rgb eac_block_local block_nth upt_rec)
qed

text \<open>A write inside a buffer leaves what follows the buffer alone.\<close>

lemma write_bytes_local:
  assumes "off + length bs \<le> length d"
  shows "write_bytes (d @ rest) off bs = write_bytes d off bs @ rest"
proof (rule nth_equalityI)
  fix i assume "i < length (write_bytes (d @ rest) off bs)"
  then show "write_bytes (d @ rest) off bs ! i = (write_bytes d off bs @ rest) ! i"
    using assms by (cases "i < length d") (auto simp: write_bytes_nth nth_append)
qed simp

lemma write_pixel_local:
  assumes "natural_fit f src (unat w) (unat h) d" "px < unat w" "py < unat h"
  shows "write_pixel (etc_image f (src @ junk) w h) (d @ rest) (px, py) = write_pixel (etc_image f src w h) d (px, py) @ rest"
proof -
  let ?im = "etc_image f src w h" and ?im' = "etc_image f (src @ junk) w h"
  let ?k = "(py div 4 * ((unat w + 3) div 4) + px div 4) * EtcBlockBytes f"
  have "(py div 4 * ((unat w + 3) div 4) + px div 4 + 1) * EtcBlockBytes f \<le>
      (unat w + 3) div 4 * ((unat h + 3) div 4) * EtcBlockBytes f"
    using assms(2,3) by (intro cell_bound div_block)
  then have k: "?k + EtcBlockBytes f \<le> length src" using assms(1) by (simp add: natural_fit_def)
  have "(py * unat w + px + 1) * EtcDecodedTexelBytes f \<le> unat w * unat h * EtcDecodedTexelBytes f"
    using assms(2,3) by (rule cell_bound)
  then have off: "pixel_offset ?im (px, py) + length (pixel_value ?im (px, py)) \<le> length d"
    using assms(1) by (simp add: natural_fit_def pixel_offset_def pixel_value_length etc_image_def)
  have "pixel_value ?im' (px, py) = pixel_value ?im (px, py)"
    using k texel_bytes_local [of f "drop ?k src" junk]
    by (simp add: pixel_value_def etc_image_def blocks_wide_def)
  moreover have "pixel_offset ?im' (px, py) = pixel_offset ?im (px, py)" by (simp add: pixel_offset_def etc_image_def)
  ultimately show ?thesis using write_bytes_local [OF off] by (simp add: write_pixel_def)
qed

lemma write_pixels_local:
  assumes "natural_fit f src (unat w) (unat h) d" "\<And>px py. (px, py) \<in> set ps \<Longrightarrow> px < unat w \<and> py < unat h"
  shows "foldl (write_pixel (etc_image f (src @ junk) w h)) (d @ rest) ps = foldl (write_pixel (etc_image f src w h)) d ps @ rest"
  using assms
proof (induction ps arbitrary: d)
  case (Cons p ps)
  have "natural_fit f src (unat w) (unat h) (write_pixel (etc_image f src w h) d p)"
    using Cons.prems(1) by (simp add: natural_fit_def write_pixel_def)
  then have "foldl (write_pixel (etc_image f (src @ junk) w h)) (write_pixel (etc_image f src w h) d p @ rest) ps =
      foldl (write_pixel (etc_image f src w h)) (write_pixel (etc_image f src w h) d p) ps @ rest"
    using Cons.prems(2) by (intro Cons.IH) auto
  moreover have "fst p < unat w" "snd p < unat h" using Cons.prems(2) [of "fst p" "snd p"] by simp_all
  ultimately show ?case using write_pixel_local [OF Cons.prems(1), of "fst p" "snd p"] by simp
qed simp

lemma clamp_range: "lo \<le> hi \<Longrightarrow> lo \<le> clamp v lo hi \<and> clamp v lo hi \<le> hi"
  by (simp add: clamp_def)

lemma expand_magnitude:
  assumes "0 \<le> (m :: int)" "m \<le> 1023"
  shows "push_bit 5 m OR drop_bit 5 m = 32 * m + m div 32"
proof -
  have "take_bit 5 (drop_bit 5 m) = drop_bit 5 m"
    using assms by (simp add: take_bit_eq_mod drop_bit_eq_div)
  then have "push_bit 5 m AND drop_bit 5 m = push_bit 5 m AND take_bit 5 (drop_bit 5 m)" by simp
  also have "\<dots> = 0" by (rule bit_eqI) (auto simp: bit_simps)
  finally have "push_bit 5 m OR drop_bit 5 m = push_bit 5 m + drop_bit 5 m"
    by (simp add: disjunctive_add_eq_or)
  then show ?thesis by (simp add: push_bit_eq_mult drop_bit_eq_div)
qed

section \<open>Properties\<close>

text \<open>
  C23. Decoding a whole image, for a source below \<open>2^61\<close> bytes and a height below \<open>2^32 - 3\<close>: it
  succeeds exactly when the source holds every block and the destination every texel, counted
  without wrap-around. Then the destination holds, in row order, the texel of the block each pixel
  lies in, and its other bytes are as they were; a refused image leaves the destination alone.
\<close>

theorem decode_image_correct:
  assumes "unat h + 3 < 2 ^ 32" and "length src < 2 ^ 61" and "length dst < 2 ^ 64"
  shows "DecodeEtcImage f (Some src) w h (Some dst) =
    (if natural_fit f src (unat w) (unat h) dst
     then (True, Some (decoded (etc_image f src w h) dst)) else (False, Some dst))"
proof -
  let ?im = "etc_image f src w h"
  have rows: "decode_rows ?im 0 ((unat h + 3) div 4) dst = decoded ?im dst" if "0 < unat w"
    using decode_all_rows [of ?im dst] that by (simp add: blocks_high_def etc_image_def)
  have "ucast ((h + 3) div 4) = blocks h"
    by (simp add: word_eq_iff_unsigned [where 'a = nat] unat_blocks height_blocks [OF assms(1)])
  then show ?thesis
    using rows
    by (simp add: DecodeEtcImage_def DecodeEtcImageBlockRows_def ImageFits_natural [OF assms]
        height_blocks [OF assms(1)] etc_image_def natural_fit_def)
qed

theorem decode_image_correct_witness:
  "DecodeEtcImage kEtc2Rgb8 (Some [0x88, 0x44, 0x22, 0x02, 0, 1, 0, 1]) 1 1 (Some [0, 0, 0, 0, 7]) =
     (True, Some [132, 58, 25, 255, 7])"
proof -
  let ?s = "[0x88, 0x44, 0x22, 0x02, 0, 1, 0, 1] :: bytes"
  have "natural_fit kEtc2Rgb8 ?s 1 1 [0, 0, 0, 0, 7]" by (simp add: natural_fit_def)
  moreover have "decoded (etc_image kEtc2Rgb8 ?s 1 1) [0, 0, 0, 0, 7] = [132, 58, 25, 255, 7]"
    by code_simp
  ultimately show ?thesis
    using decode_image_correct [of 1 ?s "[0, 0, 0, 0, 7]" kEtc2Rgb8 1] by simp
qed

text \<open>
  C24. A batch of images: however the bands are scheduled over the workers, every image that fits
  is marked ok and decoded to what a single pass over it gives, and the others are only marked not
  ok.
\<close>

theorem jobs_decode_correct:
  assumes "set order = set (jobs_bands jobs)"
  shows "DecodeEtcJobs jobs worker_count order =
    map (\<lambda>job. if job_fits job
                then job\<lparr>ej_ok := True, ej_destination := map_option (decoded (job_image job)) (ej_destination job)\<rparr>
                else job\<lparr>ej_ok := False\<rparr>) jobs"
proof -
  let ?order = "if decode_threads jobs worker_count \<le> 1 then jobs_bands jobs else order"
  define marked where "marked = map (\<lambda>job. job\<lparr>ej_ok := job_fits job\<rparr>) jobs"
  have same: "job_image (job\<lparr>ej_ok := v\<rparr>) = job_image job" "job_fits (job\<lparr>ej_ok := v\<rparr>) = job_fits job" for job v
    by (simp_all add: job_image_def job_fits_def)
  have "jobs_bands marked = jobs_bands jobs"
    unfolding jobs_bands_def marked_def by (intro arg_cong [of _ _ concat] map_cong) (simp_all add: same)
  then have bands: "set ?order = set (jobs_bands marked)" using assms by simp
  then have ok: "band_ok marked band" if "band \<in> set ?order" for band
    using that bands_below unfolding bands
    by (cases band) (auto simp: jobs_bands_iff band_ok_def job_bands_def)
  have run: "DecodeEtcJobs jobs worker_count order = map (\<lambda>i. job_writes (marked ! i)
      (job_bands_of i ?order (job_image (marked ! i)))) [0..<length marked]"
    unfolding DecodeEtcJobs_def marked_def [symmetric] using ok by (rule run_bands_writes)
  have "job_writes (marked ! i) (job_bands_of i ?order (job_image (marked ! i))) = decoded_job (jobs ! i)"
    if "i < length jobs" for i
    using job_bands_of_pixels [OF bands, of i, OF _ refl] that
    by (intro job_writes_decoded) (simp_all add: marked_def same)
  then show ?thesis
    unfolding run decoded_job_def [symmetric] by (intro nth_equalityI) (simp_all add: marked_def)
qed

theorem jobs_decode_correct_witness:
  "let job = \<lparr>ej_format = kEacR11, ej_source = Some (replicate 16 0), ej_width = 1, ej_height = 5,
              ej_destination = Some (replicate 10 7), ej_ok = False\<rparr>;
       bad = job\<lparr>ej_source := None\<rparr>
   in DecodeEtcJobs [job, bad] 3 [(0, 0, 2)] =
      [job\<lparr>ej_ok := True, ej_destination := Some (concat (replicate 5 [32, 0]))\<rparr>, bad]"
proof -
  let ?job = "\<lparr>ej_format = kEacR11, ej_source = Some (replicate 16 0), ej_width = 1, ej_height = 5,
      ej_destination = Some (replicate 10 7), ej_ok = False\<rparr>"
  let ?bad = "?job\<lparr>ej_source := None\<rparr>"
  have fits: "job_fits ?job" "\<not> job_fits ?bad"
    by (simp_all add: job_fits_def ImageFits_natural natural_fit_def) (simp add: ImageFits_def)
  moreover have "job_bands (job_image ?job) = [(0, 2)]" by code_simp
  ultimately have "jobs_bands [?job, ?bad] = [(0, 0, 2)]"
    by (simp add: jobs_bands_def)
  moreover have "decoded (job_image ?job) (replicate 10 7) = concat (replicate 5 [32, 0])"
    by code_simp
  ultimately show ?thesis
    using fits jobs_decode_correct [of "[(0, 0, 2)]" "[?job, ?bad]" 3] by (simp add: Let_def)
qed

text \<open>
  C25. Decoding stays inside its buffers. Let the two buffers stand in a larger memory, \<open>junk\<close> following the
  source and \<open>rest\<close> the destination. If the decoder accepts an image (or a band of its block rows), then the decode
  loops, run on that memory, give the same pixels whatever \<open>junk\<close> holds and leave \<open>rest\<close> as it was: no block is read
  beyond the source and no texel written beyond the destination, at the right and lower edges of an image
  whose sides are no multiples of 4 as well.
\<close>

theorem decode_image_in_bounds:
  assumes "unat h + 3 < 2 ^ 32" and "length src < 2 ^ 61" and "length dst < 2 ^ 64"
    and "DecodeEtcImageBlockRows f (Some src) w h first count (Some dst) = (True, Some out)"
  shows "decode_rows (etc_image f (src @ junk) w h) (unat first) (unat count) (dst @ rest) = out @ rest"
proof -
  have fit: "natural_fit f src (unat w) (unat h) dst"
    and out: "out = decode_rows (etc_image f src w h) (unat first) (unat count) dst"
    using assms(4) ImageFits_natural [OF assms(1-3)]
    by (auto simp: DecodeEtcImageBlockRows_def etc_image_def split: if_splits)
  have pixels: "rows_pixels (etc_image f (src @ junk) w h) i n = rows_pixels (etc_image f src w h) i n" for i n
    by (simp add: rows_pixels_def etc_image_def blocks_wide_def)
  show ?thesis
    unfolding out decode_rows_pixels pixels
    by (rule write_pixels_local [OF fit]) (simp add: rows_pixels_set etc_image_def)
qed

theorem decode_image_in_bounds_witness:
  "\<exists>out. DecodeEtcImageBlockRows kEtc2Rgba8 (Some (replicate 32 0)) 5 1 0 1 (Some (replicate 20 0)) = (True, Some out) \<and>
     decode_rows (etc_image kEtc2Rgba8 (replicate 32 0 @ [1, 2]) 5 1) 0 1 (replicate 20 0 @ [3, 4]) = out @ [3, 4]"
proof -
  have "ImageFits kEtc2Rgba8 (Some (replicate 32 0)) 5 1 (Some (replicate 20 0))"
    by (simp add: ImageFits_natural natural_fit_def)
  then obtain out where
    "DecodeEtcImageBlockRows kEtc2Rgba8 (Some (replicate 32 0)) 5 1 0 1 (Some (replicate 20 0)) = (True, Some out)"
    by (simp add: DecodeEtcImageBlockRows_def blocks_def)
  then show ?thesis
    using decode_image_in_bounds [of 1 "replicate 32 0" "replicate 20 0" kEtc2Rgba8 5 0 1 out "[1, 2]" "[3, 4]"] by simp
qed

text \<open>
  A signed R11 texel lies in the symmetric range of a 16-bit signed normalised value: \<open>-32768\<close>
  is never written, whatever the block.
\<close>

theorem r11_signed_range: "- 32767 \<le> sint (DecodeR11 b texel True) \<and> sint (DecodeR11 b texel True) \<le> 32767"
proof -
  define v where "v = clamp (max (- 127) (sint (b ! 0)) * 8 +
    (if drop_bit 4 (oct b 1) \<noteq> 0 then EacModifier b texel * drop_bit 4 (oct b 1) * 8 else EacModifier b texel))
     (- 1023) 1023"
  define e where "e = push_bit 5 \<bar>v\<bar> OR drop_bit 5 \<bar>v\<bar>"
  have "\<bar>v\<bar> \<le> 1023" unfolding v_def abs_le_iff using clamp_range [of "- 1023" 1023] by (simp add: minus_le_iff)
  then have "0 \<le> e" "e \<le> 32767" using expand_magnitude [of "\<bar>v\<bar>"] by (simp_all add: e_def)
  moreover have "DecodeR11 b texel True = word_of_int (if v < 0 then - e else e)"
    by (simp add: DecodeR11_def Let_def v_def e_def abs_if)
  moreover have "sint (word_of_int k :: u16) = k" if "- 32768 \<le> k" "k \<le> 32767" for k
    using that by (simp add: sint_sbintrunc' signed_take_bit_int_eq_self)
  ultimately show ?thesis by simp
qed

text \<open>
  For the three largest heights the block row count of \<open>DecodeEtcImage\<close>, computed in 32 bits,
  is 0: an image whose buffers are large enough is accepted and nothing of it is decoded.
\<close>

theorem tall_image_not_decoded:
  assumes "ImageFits f (Some src) w h (Some dst)" and "2 ^ 32 \<le> unat h + 3"
  shows "DecodeEtcImage f (Some src) w h (Some dst) = (True, Some dst)"
proof -
  have "unat h + 3 - 2 ^ 32 < 4" using u32_less [of h] by simp
  moreover have "unat (h + 3) = unat h + 3 - 2 ^ 32"
    using assms(2) u32_less [of h] by (simp add: unat_word_ariths mod_if)
  ultimately have "unat ((h + 3) div 4) = 0" by (simp add: unat_div)
  then have "(h + 3) div 4 = 0" by (simp only: unat_eq_0)
  then show ?thesis
    using assms(1) by (simp add: DecodeEtcImage_def DecodeEtcImageBlockRows_def decode_rows_def)
qed

theorem tall_image_not_decoded_witness:
  "\<exists>src dst. length src = 2 ^ 33 \<and> length dst = 2 ^ 34 \<and>
     ImageFits kEtc2Rgb8 (Some src) 1 0xFFFFFFFF (Some dst) \<and>
     DecodeEtcImage kEtc2Rgb8 (Some src) 1 0xFFFFFFFF (Some dst) = (True, Some dst)"
proof -
  obtain src :: bytes where src: "length src = 2 ^ 33" using Ex_list_of_length by blast
  obtain dst :: bytes where dst: "length dst = 2 ^ 34" using Ex_list_of_length by blast
  have "ImageFits kEtc2Rgb8 (Some src) 1 0xFFFFFFFF (Some dst)"
    by (simp add: ImageFits_def blocks_def src dst)
  then show ?thesis
    using src dst tall_image_not_decoded [of kEtc2Rgb8 src 1 "0xFFFFFFFF" dst] by auto
qed

end
