(* ===== verification/Text_Editor.thy ===== *)
theory Text_Editor
  imports Launch_Uri
begin

text \<open>
  The shadow editor of a focused text box (\<open>src/runtime/roblox_text_editor.cc\<close>,
  \<open>include/runtime/roblox_text_editor.h\<close>): the text, its cursor, selection and composition as
  byte offsets, the native calls an edit makes, and the echoes of its own edits that the engine
  sends back. The Unicode library utf8proc and the key modifier masks of SDL are parameters
  (\<open>TextLib\<close>); what is used of the decoder is the interface \<open>utf8_decoder\<close>. Native calls return
  the statuses given with each operation (\<open>TextNative\<close>) and are logged. Sizes are natural
  numbers; the subtractions from the size limit wrap as those of \<open>size_t\<close> do (\<open>size_sub\<close>), the
  others stay within the text.
\<close>

section \<open>Data\<close>

definition kMaximumTextBytes :: nat where "kMaximumTextBytes = 4 * 1024 * 1024"
definition kMaximumPendingNativeEchoes :: nat where "kMaximumPendingNativeEchoes = 16"

text \<open>Subtraction of \<open>size_t\<close> values, which wraps.\<close>

definition size_sub :: "nat \<Rightarrow> nat \<Rightarrow> nat" where
  "size_sub a b = (if b \<le> a then a - b else 2 ^ 64 + a - b)"

definition kShortcutSelectAll :: u32 where "kShortcutSelectAll = 1"
definition kShortcutCopy :: u32 where "kShortcutCopy = 2"
definition kShortcutPaste :: u32 where "kShortcutPaste = 4"
definition kShortcutCut :: u32 where "kShortcutCut = 8"

record RobloxTextFocusProperties =
  fp_manual_focus_release :: bool
  fp_multiline :: bool
  fp_area_x :: int
  fp_area_y :: int
  fp_area_width :: int
  fp_area_height :: int
  fp_font_size :: cfloat
  fp_x_alignment :: int
  fp_y_alignment :: int
  fp_text_color :: int
  fp_font :: int
  fp_text_input_type :: int
  fp_return_key_type :: int
  fp_text_wrapped :: bool

definition RobloxTextFocusProperties_default :: RobloxTextFocusProperties where
  "RobloxTextFocusProperties_default =
     \<lparr>fp_manual_focus_release = False, fp_multiline = False, fp_area_x = 0, fp_area_y = 0,
      fp_area_width = 0, fp_area_height = 0, fp_font_size = FNum 0, fp_x_alignment = 0,
      fp_y_alignment = 1, fp_text_color = 0, fp_font = 0, fp_text_input_type = 0,
      fp_return_key_type = 0, fp_text_wrapped = False\<rparr>"

text \<open>The session has the fields of the properties beside its identity and initial text.\<close>

record RobloxTextFocusSession =
  fs_textbox_handle :: int
  fs_generation :: u64
  fs_initial_text :: bytes
  fs_properties :: RobloxTextFocusProperties

definition RobloxTextFocusSession_default :: RobloxTextFocusSession where
  "RobloxTextFocusSession_default =
     \<lparr>fs_textbox_handle = 0, fs_generation = 0, fs_initial_text = [],
      fs_properties = RobloxTextFocusProperties_default\<rparr>"

datatype RobloxTextDisplayEvent = kShow | kUpdate | kHide

record RobloxTextDisplayUpdate =
  du_event :: RobloxTextDisplayEvent
  du_generation :: u64
  du_area_x :: int
  du_area_y :: int
  du_area_width :: int
  du_area_height :: int
  du_font_size :: cfloat
  du_multiline :: bool
  du_x_alignment :: int
  du_y_alignment :: int
  du_text_color :: int
  du_font :: int
  du_text_input_type :: int
  du_text_wrapped :: bool
  du_utf8 :: bytes
  du_cursor_utf16 :: int
  du_selection_begin_utf16 :: int
  du_selection_end_utf16 :: int

text \<open>Which entries of the native export table are present.\<close>

record RobloxTextSink =
  sk_sync :: bool
  sk_pass_text :: bool
  sk_return_pressed :: bool
  sk_release_focus :: bool

record RobloxTextEditResult =
  er_handled :: bool
  er_dispatched :: bool
  er_session_ended :: bool
  er_status :: Status

record RobloxTextEditorSnapshot =
  ts_focused :: bool
  ts_textbox_handle :: int
  ts_generation :: u64
  ts_text_bytes :: nat
  ts_cursor_utf16 :: int
  ts_selection_begin_utf16 :: int
  ts_selection_end_utf16 :: int
  ts_committed_edits :: u64
  ts_native_errors :: u64

datatype TextCall =
    CSync bytes int
  | CPass int bytes bool int
  | CReturn int
  | CRelease int
  | CDisplay RobloxTextDisplayUpdate
  | CClipboardWrite bytes

record RobloxTextEditor =
  te_sink :: RobloxTextSink
  te_display :: bool
  te_clipboard :: bool
  te_session :: RobloxTextFocusSession
  te_text :: bytes
  te_cursor :: nat
  te_anchor :: nat
  te_comp_begin :: nat
  te_comp_end :: nat
  te_comp_cursor :: nat
  te_comp_anchor :: nat
  te_comp_replaced :: bytes
  te_comp_active :: bool
  te_shortcuts :: u32
  te_echoes :: "bytes list"
  te_echo_bytes :: nat
  te_snapshot :: RobloxTextEditorSnapshot
  te_log :: "TextCall list"

definition RobloxTextEditor_new :: "RobloxTextSink \<Rightarrow> bool \<Rightarrow> bool \<Rightarrow> RobloxTextEditor" where
  "RobloxTextEditor_new sink display clipboard =
     \<lparr>te_sink = sink, te_display = display, te_clipboard = clipboard,
      te_session = RobloxTextFocusSession_default, te_text = [], te_cursor = 0, te_anchor = 0,
      te_comp_begin = 0, te_comp_end = 0, te_comp_cursor = 0, te_comp_anchor = 0,
      te_comp_replaced = [], te_comp_active = False, te_shortcuts = 0, te_echoes = [],
      te_echo_bytes = 0,
      te_snapshot = \<lparr>ts_focused = False, ts_textbox_handle = 0, ts_generation = 0, ts_text_bytes = 0,
        ts_cursor_utf16 = 0, ts_selection_begin_utf16 = 0, ts_selection_end_utf16 = 0,
        ts_committed_edits = 0, ts_native_errors = 0\<rparr>,
      te_log = []\<rparr>"

text \<open>
  The Unicode library: \<open>utf8proc_iterate\<close> on the bytes that are left gives the number of bytes
  read (not positive on an error) and the code point; the grapheme break test also returns its
  new state. The modifier masks are SDL's.
\<close>

record TextLib =
  iterate :: "bytes \<Rightarrow> int \<times> int"
  grapheme_break :: "int \<Rightarrow> int \<Rightarrow> int \<Rightarrow> bool \<times> int"
  kmod_ctrl :: u32
  kmod_alt :: u32
  kmod_shift :: u32

record TextNative =
  n_sync :: Status
  n_pass :: Status
  n_return :: Status
  n_release :: Status
  n_clip_write :: Status
  n_clip_read :: "Status \<times> bytes"

datatype SDL_Scancode =
    SCANCODE_A | SCANCODE_C | SCANCODE_V | SCANCODE_X | SCANCODE_BACKSPACE | SCANCODE_DELETE
  | SCANCODE_LEFT | SCANCODE_RIGHT | SCANCODE_HOME | SCANCODE_END | SCANCODE_RETURN
  | SCANCODE_KP_ENTER | SCANCODE_ESCAPE | SCANCODE_OTHER u32

record KeyEvent =
  ke_pressed :: bool
  ke_scancode :: SDL_Scancode
  ke_modifiers :: u32

section \<open>Text layout\<close>

record Utf8Layout =
  ly_valid :: bool
  ly_utf16_units :: int
  ly_bounds :: "nat list"

definition cp_units :: "int \<Rightarrow> int" where
  "cp_units codepoint = (if codepoint > 0xffff then 2 else 1)"

function layout_loop ::
  "TextLib \<Rightarrow> nat \<Rightarrow> int option \<Rightarrow> int \<Rightarrow> nat \<Rightarrow> int \<Rightarrow> nat list \<Rightarrow> bytes \<Rightarrow> Utf8Layout" where
  "layout_loop lib total_bytes previous state offset units bounds s =
     (if s = []
      then \<lparr>ly_valid = True, ly_utf16_units = units,
            ly_bounds = (if last bounds \<noteq> total_bytes then bounds @ [total_bytes] else bounds)\<rparr>
      else case iterate lib s of (count, codepoint) \<Rightarrow>
        if count \<le> 0 then \<lparr>ly_valid = False, ly_utf16_units = 0, ly_bounds = bounds\<rparr>
        else
          (case (case previous of None \<Rightarrow> (False, state)
                 | Some p \<Rightarrow> grapheme_break lib p codepoint state) of (brk, state') \<Rightarrow>
            let bounds' = (if brk then bounds @ [offset] else bounds);
                units' = units + cp_units codepoint
            in if units' > 2147483647
               then \<lparr>ly_valid = False, ly_utf16_units = 0, ly_bounds = bounds'\<rparr>
               else layout_loop lib total_bytes (Some codepoint) state' (offset + nat count) units' bounds'
                      (drop (nat count) s)))"
  by pat_completeness auto
termination
  by (relation "measure (\<lambda>(_, _, _, _, _, _, _, s). length s)") auto

declare layout_loop.simps [simp del]

definition Layout :: "TextLib \<Rightarrow> bytes \<Rightarrow> Utf8Layout" where
  "Layout lib text = layout_loop lib (length text) None 0 0 0 [0] text"

function utf16_loop :: "TextLib \<Rightarrow> int \<Rightarrow> bytes \<Rightarrow> int" where
  "utf16_loop lib units s =
     (if s = [] then units
      else case iterate lib s of (count, codepoint) \<Rightarrow>
        if count \<le> 0 then 0
        else utf16_loop lib (units + cp_units codepoint) (drop (nat count) s))"
  by pat_completeness auto
termination
  by (relation "measure (\<lambda>(_, _, s). length s)") auto

declare utf16_loop.simps [simp del]

definition Utf16Cursor :: "TextLib \<Rightarrow> bytes \<Rightarrow> nat \<Rightarrow> int" where
  "Utf16Cursor lib text byte_offset = utf16_loop lib 0 (take byte_offset text)"

text \<open>The offset after \<open>n\<close> characters; None when the decoder reports an error.\<close>

fun character_loop :: "TextLib \<Rightarrow> nat \<Rightarrow> nat \<Rightarrow> bytes \<Rightarrow> nat option" where
  "character_loop lib 0 offset s = Some offset"
| "character_loop lib (Suc n) offset s =
     (if s = [] then Some offset
      else let count = fst (iterate lib s) in
        if count \<le> 0 then None else character_loop lib n (offset + nat count) (drop (nat count) s))"

definition Utf8CharacterByteOffset :: "TextLib \<Rightarrow> bytes \<Rightarrow> int \<Rightarrow> nat" where
  "Utf8CharacterByteOffset lib text character_index =
     (if character_index < 0 then length text
      else case character_loop lib (nat character_index) 0 text of
        None \<Rightarrow> length text
      | Some offset \<Rightarrow> offset)"

definition EditResult :: "bool \<Rightarrow> bool \<Rightarrow> bool \<Rightarrow> Status \<Rightarrow> RobloxTextEditResult" where
  "EditResult handled dispatched ended status =
     \<lparr>er_handled = handled, er_dispatched = dispatched, er_session_ended = ended, er_status = status\<rparr>"

definition ShortcutBit :: "SDL_Scancode \<Rightarrow> u32" where
  "ShortcutBit scancode =
     (case scancode of
        SCANCODE_A \<Rightarrow> kShortcutSelectAll
      | SCANCODE_C \<Rightarrow> kShortcutCopy
      | SCANCODE_V \<Rightarrow> kShortcutPaste
      | SCANCODE_X \<Rightarrow> kShortcutCut
      | _ \<Rightarrow> 0)"

definition IsPasswordInputType :: "int \<Rightarrow> bool" where
  "IsPasswordInputType t \<longleftrightarrow> t = 5 \<or> t = 9 \<or> t = 10"

section \<open>Elementary steps\<close>

definition te_focused :: "RobloxTextEditor \<Rightarrow> bool" where
  "te_focused e = ts_focused (te_snapshot e)"

definition log_call :: "TextCall \<Rightarrow> RobloxTextEditor \<Rightarrow> RobloxTextEditor" where
  "log_call c e = e\<lparr>te_log := te_log e @ [c]\<rparr>"

definition SelectionBeginLocked :: "RobloxTextEditor \<Rightarrow> nat" where
  "SelectionBeginLocked e = min (te_cursor e) (te_anchor e)"

definition SelectionEndLocked :: "RobloxTextEditor \<Rightarrow> nat" where
  "SelectionEndLocked e = max (te_cursor e) (te_anchor e)"

definition HasSelectionLocked :: "RobloxTextEditor \<Rightarrow> bool" where
  "HasSelectionLocked e \<longleftrightarrow> te_cursor e \<noteq> te_anchor e"

definition UpdateSelectionSnapshotLocked :: "TextLib \<Rightarrow> RobloxTextEditor \<Rightarrow> RobloxTextEditor" where
  "UpdateSelectionSnapshotLocked lib e =
     e\<lparr>te_snapshot := (te_snapshot e)
         \<lparr>ts_cursor_utf16 := Utf16Cursor lib (te_text e) (te_cursor e),
          ts_selection_begin_utf16 := Utf16Cursor lib (te_text e) (SelectionBeginLocked e),
          ts_selection_end_utf16 := Utf16Cursor lib (te_text e) (SelectionEndLocked e)\<rparr>\<rparr>"

definition display_update :: "RobloxTextEditor \<Rightarrow> RobloxTextDisplayEvent \<Rightarrow> RobloxTextDisplayUpdate" where
  "display_update e event =
     (let p = fs_properties (te_session e) in
     \<lparr>du_event = event, du_generation = fs_generation (te_session e),
      du_area_x = fp_area_x p, du_area_y = fp_area_y p, du_area_width = fp_area_width p,
      du_area_height = fp_area_height p, du_font_size = fp_font_size p, du_multiline = fp_multiline p,
      du_x_alignment = fp_x_alignment p, du_y_alignment = fp_y_alignment p, du_text_color = fp_text_color p,
      du_font = fp_font p, du_text_input_type = fp_text_input_type p, du_text_wrapped = fp_text_wrapped p,
      du_utf8 = (if event \<noteq> kHide then te_text e else []),
      du_cursor_utf16 = (if event \<noteq> kHide then ts_cursor_utf16 (te_snapshot e) else 0),
      du_selection_begin_utf16 = (if event \<noteq> kHide then ts_selection_begin_utf16 (te_snapshot e) else 0),
      du_selection_end_utf16 = (if event \<noteq> kHide then ts_selection_end_utf16 (te_snapshot e) else 0)\<rparr>)"

definition PublishDisplayLocked :: "RobloxTextDisplayEvent \<Rightarrow> RobloxTextEditor \<Rightarrow> RobloxTextEditor" where
  "PublishDisplayLocked event e =
     (if \<not> te_display e then e else log_call (CDisplay (display_update e event)) e)"

definition reset_composition :: "RobloxTextEditor \<Rightarrow> RobloxTextEditor" where
  "reset_composition e =
     e\<lparr>te_comp_begin := 0, te_comp_end := 0, te_comp_cursor := 0, te_comp_anchor := 0,
       te_comp_replaced := [], te_comp_active := False\<rparr>"

definition ClearPendingNativeEchoesLocked :: "RobloxTextEditor \<Rightarrow> RobloxTextEditor" where
  "ClearPendingNativeEchoesLocked e = e\<lparr>te_echoes := [], te_echo_bytes := 0\<rparr>"

definition ClearLocked :: "RobloxTextEditor \<Rightarrow> RobloxTextEditor" where
  "ClearLocked e =
     (let e = (if te_focused e then PublishDisplayLocked kHide e else e);
          e = ClearPendingNativeEchoesLocked
                (e\<lparr>te_session := RobloxTextFocusSession_default, te_text := []\<rparr>);
          e = reset_composition (e\<lparr>te_cursor := 0, te_anchor := 0\<rparr>)
      in e\<lparr>te_shortcuts := 0,
           te_snapshot := (te_snapshot e)
             \<lparr>ts_focused := False, ts_textbox_handle := 0, ts_generation := 0, ts_text_bytes := 0,
              ts_cursor_utf16 := 0, ts_selection_begin_utf16 := 0, ts_selection_end_utf16 := 0\<rparr>\<rparr>)"

definition SyncLocked :: "TextNative \<Rightarrow> RobloxTextEditor \<Rightarrow> Status \<times> RobloxTextEditor" where
  "SyncLocked n e =
     (n_sync n, log_call (CSync (te_text e) (ts_cursor_utf16 (te_snapshot e))) e)"

definition PassLocked :: "TextNative \<Rightarrow> bool \<Rightarrow> RobloxTextEditor \<Rightarrow> Status \<times> RobloxTextEditor" where
  "PassLocked n finished e =
     (n_pass n, log_call (CPass (fs_textbox_handle (te_session e)) (te_text e) finished
        (ts_cursor_utf16 (te_snapshot e))) e)"

definition release_focus :: "RobloxTextEditor \<Rightarrow> RobloxTextEditor" where
  "release_focus e = log_call (CRelease (fs_textbox_handle (te_session e))) e"

definition count_native_error :: "RobloxTextEditor \<Rightarrow> RobloxTextEditor" where
  "count_native_error e =
     e\<lparr>te_snapshot := (te_snapshot e)\<lparr>ts_native_errors := ts_native_errors (te_snapshot e) + 1\<rparr>\<rparr>"

text \<open>The common failure path: count the error, release the focus and clear the session.\<close>

definition abandon_session :: "RobloxTextEditor \<Rightarrow> RobloxTextEditor" where
  "abandon_session e = ClearLocked (release_focus (count_native_error e))"

function drop_echoes :: "nat \<Rightarrow> bytes list \<Rightarrow> nat \<Rightarrow> bytes list \<times> nat" where
  "drop_echoes text_size echoes total_bytes =
     (if echoes \<noteq> [] \<and>
         (length echoes \<ge> kMaximumPendingNativeEchoes \<or> total_bytes > size_sub kMaximumTextBytes text_size)
      then drop_echoes text_size (tl echoes) (total_bytes - length (hd echoes))
      else (echoes, total_bytes))"
  by pat_completeness auto
termination
  by (relation "measure (\<lambda>(_, echoes, _). length echoes)") auto

declare drop_echoes.simps [simp del]

definition RememberPendingNativeEchoLocked :: "RobloxTextEditor \<Rightarrow> RobloxTextEditor" where
  "RememberPendingNativeEchoLocked e =
     (if te_echoes e \<noteq> [] \<and> last (te_echoes e) = te_text e then e
      else case drop_echoes (length (te_text e)) (te_echoes e) (te_echo_bytes e) of
        (echoes, total_bytes) \<Rightarrow>
          e\<lparr>te_echoes := echoes @ [te_text e], te_echo_bytes := total_bytes + length (te_text e)\<rparr>)"

definition ConsumePendingNativeEchoLocked :: "bytes \<Rightarrow> RobloxTextEditor \<Rightarrow> bool \<times> RobloxTextEditor" where
  "ConsumePendingNativeEchoLocked text e =
     (if text \<notin> set (te_echoes e) then (False, e)
      else (True, e\<lparr>te_echo_bytes := te_echo_bytes e - length text,
                    te_echoes := remove1 text (te_echoes e)\<rparr>))"

section \<open>Edits\<close>

definition splice_bytes :: "bytes \<Rightarrow> nat \<Rightarrow> nat \<Rightarrow> bytes \<Rightarrow> bytes" where
  "splice_bytes text b0 e0 replacement = take b0 text @ replacement @ drop e0 text"

definition set_text_bytes :: "RobloxTextEditor \<Rightarrow> RobloxTextEditor" where
  "set_text_bytes e = e\<lparr>te_snapshot := (te_snapshot e)\<lparr>ts_text_bytes := length (te_text e)\<rparr>\<rparr>"

definition count_edit :: "RobloxTextEditor \<Rightarrow> RobloxTextEditor" where
  "count_edit e =
     e\<lparr>te_snapshot := (te_snapshot e)\<lparr>ts_committed_edits := ts_committed_edits (te_snapshot e) + 1\<rparr>\<rparr>"

text \<open>Sync and pass the text; \<open>committed\<close> is the counter update of a committed edit.\<close>

definition dispatch_edit ::
  "TextNative \<Rightarrow> (RobloxTextEditor \<Rightarrow> RobloxTextEditor) \<Rightarrow> RobloxTextEditor \<Rightarrow>
   RobloxTextEditResult \<times> RobloxTextEditor" where
  "dispatch_edit n committed e =
     (case SyncLocked n e of (sync_status, e) \<Rightarrow>
      case (if status_ok sync_status then PassLocked n False e else (sync_status, e)) of (status, e) \<Rightarrow>
      let e = (if status_ok status
               then PublishDisplayLocked kUpdate (committed (RememberPendingNativeEchoLocked e))
               else abandon_session e)
      in (EditResult True (status_ok status) (\<not> status_ok status) status, e))"

definition ReplaceLocked ::
  "TextLib \<Rightarrow> TextNative \<Rightarrow> nat \<Rightarrow> nat \<Rightarrow> bytes \<Rightarrow> RobloxTextEditor \<Rightarrow>
   RobloxTextEditResult \<times> RobloxTextEditor" where
  "ReplaceLocked lib n b0 e0 replacement e =
     (let e = e\<lparr>te_text := splice_bytes (te_text e) b0 e0 replacement,
                te_cursor := b0 + length replacement, te_anchor := b0 + length replacement\<rparr>;
          e = UpdateSelectionSnapshotLocked lib (set_text_bytes (reset_composition e))
      in dispatch_edit n count_edit e)"

definition ReplaceCompositionLocked ::
  "TextLib \<Rightarrow> TextNative \<Rightarrow> bytes \<Rightarrow> int \<Rightarrow> RobloxTextEditor \<Rightarrow>
   RobloxTextEditResult \<times> RobloxTextEditor" where
  "ReplaceCompositionLocked lib n text start e =
     (if \<not> te_comp_active e \<and> text = [] then (EditResult True False False Status_Ok, e)
      else
       let b0 = (if te_comp_active e then te_comp_begin e else SelectionBeginLocked e);
           e0 = (if te_comp_active e then te_comp_end e else SelectionEndLocked e)
       in if \<not> ly_valid (Layout lib text) \<or>
             length text > size_sub kMaximumTextBytes (length (te_text e) - (e0 - b0))
          then (EditResult True False False
                 (Status_Error kInvalidArgument ''preedit text is invalid UTF-8 or too large''), e)
          else
           let e = (if te_comp_active e then e
                    else e\<lparr>te_comp_cursor := te_cursor e, te_comp_anchor := te_anchor e,
                           te_comp_replaced := take (e0 - b0) (drop b0 (te_text e))\<rparr>);
               cancel = (text = []);
               visible = (if cancel then te_comp_replaced e else text);
               e = e\<lparr>te_text := splice_bytes (te_text e) b0 e0 visible,
                     te_comp_begin := b0, te_comp_end := b0 + length visible,
                     te_comp_active := \<not> cancel\<rparr>;
               e = (if cancel
                    then e\<lparr>te_cursor := te_comp_cursor e, te_anchor := te_comp_anchor e,
                           te_comp_cursor := 0, te_comp_anchor := 0, te_comp_replaced := []\<rparr>
                    else let cursor = b0 + Utf8CharacterByteOffset lib text start
                         in e\<lparr>te_cursor := cursor, te_anchor := cursor\<rparr>);
               e = UpdateSelectionSnapshotLocked lib (set_text_bytes e)
           in dispatch_edit n id e)"

text \<open>The end of a cursor movement that has to be synced.\<close>

definition dispatch_move ::
  "TextNative \<Rightarrow> RobloxTextEditor \<Rightarrow> RobloxTextEditResult \<times> RobloxTextEditor" where
  "dispatch_move n e =
     (case SyncLocked n e of (status, e) \<Rightarrow>
      let e = (if \<not> status_ok status then abandon_session e else PublishDisplayLocked kUpdate e)
      in (EditResult True (status_ok status) (\<not> status_ok status) status, e))"

definition MoveCursorLocked ::
  "TextLib \<Rightarrow> TextNative \<Rightarrow> nat \<Rightarrow> bool \<Rightarrow> RobloxTextEditor \<Rightarrow>
   RobloxTextEditResult \<times> RobloxTextEditor" where
  "MoveCursorLocked lib n byte_offset extend_selection e =
     (let previous_cursor = te_cursor e; previous_anchor = te_anchor e;
          e = e\<lparr>te_cursor := byte_offset,
                te_anchor := (if extend_selection then te_anchor e else byte_offset)\<rparr>
      in if te_cursor e = previous_cursor \<and> te_anchor e = previous_anchor
         then (EditResult True False False Status_Ok, e)
         else let e = UpdateSelectionSnapshotLocked lib e in
           if te_cursor e = previous_cursor
           then (EditResult True False False Status_Ok, PublishDisplayLocked kUpdate e)
           else dispatch_move n e)"

definition SelectAllLocked ::
  "TextLib \<Rightarrow> TextNative \<Rightarrow> RobloxTextEditor \<Rightarrow> RobloxTextEditResult \<times> RobloxTextEditor" where
  "SelectAllLocked lib n e =
     (let previous_cursor = te_cursor e; previous_anchor = te_anchor e;
          e = e\<lparr>te_cursor := length (te_text e), te_anchor := 0\<rparr>
      in if te_cursor e = previous_cursor \<and> te_anchor e = previous_anchor
         then (EditResult True False False Status_Ok, e)
         else let e = UpdateSelectionSnapshotLocked lib e in
           if te_cursor e \<noteq> previous_cursor then dispatch_move n e
           else (EditResult True False False Status_Ok, PublishDisplayLocked kUpdate e))"

definition CopySelectionLocked ::
  "TextLib \<Rightarrow> TextNative \<Rightarrow> bool \<Rightarrow> RobloxTextEditor \<Rightarrow> RobloxTextEditResult \<times> RobloxTextEditor" where
  "CopySelectionLocked lib n and_cut e =
     (if \<not> HasSelectionLocked e \<or> \<not> te_clipboard e \<or>
         IsPasswordInputType (fp_text_input_type (fs_properties (te_session e)))
      then (EditResult True False False Status_Ok, e)
      else
       let b0 = SelectionBeginLocked e; e0 = SelectionEndLocked e;
           e = log_call (CClipboardWrite (take (e0 - b0) (drop b0 (te_text e)))) e
       in if \<not> status_ok (n_clip_write n) \<or> \<not> and_cut then (EditResult True False False Status_Ok, e)
          else ReplaceLocked lib n b0 e0 [] e)"

definition PasteLocked ::
  "TextLib \<Rightarrow> TextNative \<Rightarrow> RobloxTextEditor \<Rightarrow> RobloxTextEditResult \<times> RobloxTextEditor" where
  "PasteLocked lib n e =
     (if \<not> te_clipboard e then (EditResult True False False Status_Ok, e)
      else case n_clip_read n of (clipboard_status, clipboard_text) \<Rightarrow>
       let b0 = SelectionBeginLocked e; e0 = SelectionEndLocked e;
           valid = (status_ok clipboard_status \<and> clipboard_text \<noteq> [] \<and>
                    length clipboard_text \<le> size_sub kMaximumTextBytes (length (te_text e) - (e0 - b0)) \<and>
                    ly_valid (Layout lib clipboard_text))
       in if \<not> valid then (EditResult True False False Status_Ok, e)
          else ReplaceLocked lib n b0 e0 clipboard_text e)"

definition FinishLocked ::
  "TextNative \<Rightarrow> RobloxTextEditor \<Rightarrow> RobloxTextEditResult \<times> RobloxTextEditor" where
  "FinishLocked n e =
     (case SyncLocked n e of (status, e) \<Rightarrow>
      case (if status_ok status
            then (n_return n, log_call (CReturn (fs_textbox_handle (te_session e))) e)
            else (status, e)) of (status, e) \<Rightarrow>
      case (if status_ok status \<and> \<not> fp_manual_focus_release (fs_properties (te_session e))
            then (case PassLocked n True e of (status, e) \<Rightarrow>
                    if status_ok status then (status, True, ClearLocked e) else (status, False, e))
            else (status, False, e)) of (status, ended, e) \<Rightarrow>
      if \<not> status_ok status
      then (EditResult True False True status, abandon_session e)
      else (EditResult True True ended status, e))"

definition ReleaseLocked ::
  "TextNative \<Rightarrow> RobloxTextEditor \<Rightarrow> RobloxTextEditResult \<times> RobloxTextEditor" where
  "ReleaseLocked n e =
     (let e = release_focus e in
      if \<not> status_ok (n_release n)
      then (EditResult True False False (n_release n), count_native_error e)
      else (EditResult True True True Status_Ok, ClearLocked e))"

section \<open>Operations\<close>

definition sink_complete :: "RobloxTextSink \<Rightarrow> bool" where
  "sink_complete sk \<longleftrightarrow>
     sk_sync sk \<and> sk_pass_text sk \<and> sk_return_pressed sk \<and> sk_release_focus sk"

definition BeginFocusSession ::
  "TextLib \<Rightarrow> RobloxTextFocusSession \<Rightarrow> RobloxTextEditor \<Rightarrow> Status \<times> RobloxTextEditor" where
  "BeginFocusSession lib session e =
     (if fs_textbox_handle session = 0 \<or> fs_generation session = 0
      then (Status_Error kInvalidArgument ''TextBox handle and generation must be non-zero'', e)
      else if length (fs_initial_text session) > kMaximumTextBytes \<or>
              \<not> ly_valid (Layout lib (fs_initial_text session))
      then (Status_Error kInvalidArgument ''initial TextBox text is invalid UTF-8 or too large'', e)
      else if \<not> sink_complete (te_sink e)
      then (Status_Error kUnsupported ''Roblox TextBox native export table is incomplete'', e)
      else
       let e = (if te_focused e then ClearLocked e else e);
           e = e\<lparr>te_text := fs_initial_text session, te_session := session\<lparr>fs_initial_text := []\<rparr>\<rparr>;
           e = e\<lparr>te_cursor := length (te_text e), te_anchor := length (te_text e)\<rparr>;
           e = (reset_composition e)\<lparr>te_shortcuts := 0\<rparr>;
           e = e\<lparr>te_snapshot := (te_snapshot e)
                  \<lparr>ts_focused := True, ts_textbox_handle := fs_textbox_handle (te_session e),
                   ts_generation := fs_generation (te_session e),
                   ts_text_bytes := length (te_text e)\<rparr>\<rparr>
       in (Status_Ok, PublishDisplayLocked kShow (UpdateSelectionSnapshotLocked lib e)))"

definition EndFocusSession ::
  "TextNative \<Rightarrow> int \<Rightarrow> u64 \<Rightarrow> bool \<Rightarrow> RobloxTextEditor \<Rightarrow> Status \<times> RobloxTextEditor" where
  "EndFocusSession n textbox_handle generation notify_native e =
     (if \<not> te_focused e then (Status_Ok, e)
      else if textbox_handle \<noteq> fs_textbox_handle (te_session e) \<or>
              generation \<noteq> fs_generation (te_session e)
      then (Status_Error kFailedPrecondition ''stale Roblox TextBox focus generation'', e)
      else if notify_native
      then let e = release_focus e;
               e = (if \<not> status_ok (n_release n) then count_native_error e else e)
           in (n_release n, ClearLocked e)
      else (Status_Ok, ClearLocked e))"

text \<open>Replacing the whole text with one from the engine.\<close>

definition adopt_text :: "TextLib \<Rightarrow> bytes \<Rightarrow> RobloxTextEditor \<Rightarrow> RobloxTextEditor" where
  "adopt_text lib text e =
     PublishDisplayLocked kUpdate (UpdateSelectionSnapshotLocked lib (set_text_bytes
       (reset_composition (e\<lparr>te_text := text, te_cursor := length text, te_anchor := length text\<rparr>))))"

definition ReplaceFocusedTextFromEngine ::
  "TextLib \<Rightarrow> u64 \<Rightarrow> bytes \<Rightarrow> RobloxTextEditor \<Rightarrow> Status \<times> RobloxTextEditor" where
  "ReplaceFocusedTextFromEngine lib generation authoritative e =
     (if \<not> te_focused e \<or> generation \<noteq> fs_generation (te_session e)
      then (Status_Error kFailedPrecondition ''stale Roblox TextBox engine update'', e)
      else if length authoritative > kMaximumTextBytes \<or> \<not> ly_valid (Layout lib authoritative)
      then (Status_Error kInvalidArgument ''engine TextBox text is invalid UTF-8 or too large'', e)
      else if authoritative = []
      then (Status_Ok, adopt_text lib [] (ClearPendingNativeEchoesLocked e))
      else case ConsumePendingNativeEchoLocked authoritative e of (consumed, e) \<Rightarrow>
        if consumed then (Status_Ok, e)
        else if authoritative = te_text e then (Status_Ok, e)
        else (Status_Ok, adopt_text lib authoritative e))"

definition UpdateFocusProperties ::
  "u64 \<Rightarrow> RobloxTextFocusProperties \<Rightarrow> RobloxTextEditor \<Rightarrow> Status \<times> RobloxTextEditor" where
  "UpdateFocusProperties generation properties e =
     (if \<not> te_focused e \<or> generation \<noteq> fs_generation (te_session e)
      then (Status_Error kFailedPrecondition ''stale Roblox TextBox property update'', e)
      else (Status_Ok, PublishDisplayLocked kUpdate
             (e\<lparr>te_session := (te_session e)\<lparr>fs_properties := properties\<rparr>\<rparr>)))"

definition HandleTextInput ::
  "TextLib \<Rightarrow> TextNative \<Rightarrow> bytes \<Rightarrow> RobloxTextEditor \<Rightarrow> RobloxTextEditResult \<times> RobloxTextEditor" where
  "HandleTextInput lib n text e =
     (if \<not> te_focused e then (EditResult False False False Status_Ok, e)
      else if text = [] then (EditResult True False False Status_Ok, e)
      else
       let b0 = (if te_comp_active e then te_comp_begin e else SelectionBeginLocked e);
           e0 = (if te_comp_active e then te_comp_end e else SelectionEndLocked e)
       in if \<not> ly_valid (Layout lib text) \<or>
             length text > size_sub kMaximumTextBytes (length (te_text e) - (e0 - b0))
          then (EditResult True False False
                 (Status_Error kInvalidArgument ''committed text is invalid UTF-8 or too large''), e)
          else if te_comp_active e
          then ReplaceLocked lib n b0 e0 text (e\<lparr>te_comp_active := False, te_comp_replaced := []\<rparr>)
          else ReplaceLocked lib n b0 e0 text e)"

definition HandleTextEditing ::
  "TextLib \<Rightarrow> TextNative \<Rightarrow> bytes \<Rightarrow> int \<Rightarrow> RobloxTextEditor \<Rightarrow>
   RobloxTextEditResult \<times> RobloxTextEditor" where
  "HandleTextEditing lib n text start e =
     (if \<not> te_focused e then (EditResult False False False Status_Ok, e)
      else ReplaceCompositionLocked lib n text start e)"

definition has_modifier :: "u32 \<Rightarrow> KeyEvent \<Rightarrow> bool" where
  "has_modifier m ev \<longleftrightarrow> ke_modifiers ev AND m \<noteq> 0"

definition is_shortcut :: "TextLib \<Rightarrow> KeyEvent \<Rightarrow> bool" where
  "is_shortcut lib ev \<longleftrightarrow>
     ShortcutBit (ke_scancode ev) \<noteq> 0 \<and> has_modifier (kmod_ctrl lib) ev \<and> \<not> has_modifier (kmod_alt lib) ev"

definition edit_scancode :: "SDL_Scancode \<Rightarrow> bool" where
  "edit_scancode sc \<longleftrightarrow>
     sc \<in> {SCANCODE_BACKSPACE, SCANCODE_DELETE, SCANCODE_LEFT, SCANCODE_RIGHT, SCANCODE_HOME,
           SCANCODE_END, SCANCODE_RETURN, SCANCODE_KP_ENTER, SCANCODE_ESCAPE}"

text \<open>
  The keys that act on the text itself. \<open>current\<close> is the index of the first grapheme boundary
  that is not before the cursor.
\<close>

definition edit_key ::
  "TextLib \<Rightarrow> TextNative \<Rightarrow> SDL_Scancode \<Rightarrow> bool \<Rightarrow> RobloxTextEditor \<Rightarrow>
   RobloxTextEditResult \<times> RobloxTextEditor" where
  "edit_key lib n scancode shift_pressed e =
     (let bounds = ly_bounds (Layout lib (te_text e));
          current = length (takeWhile (\<lambda>b. b < te_cursor e) bounds)
      in if scancode = SCANCODE_BACKSPACE
         then if HasSelectionLocked e
              then ReplaceLocked lib n (SelectionBeginLocked e) (SelectionEndLocked e) [] e
              else if current = 0 then (EditResult True False False Status_Ok, e)
              else ReplaceLocked lib n (bounds ! (current - 1)) (te_cursor e) [] e
         else if scancode = SCANCODE_DELETE
         then if HasSelectionLocked e
              then ReplaceLocked lib n (SelectionBeginLocked e) (SelectionEndLocked e) [] e
              else if current = length bounds \<or> current + 1 = length bounds
              then (EditResult True False False Status_Ok, e)
              else ReplaceLocked lib n (te_cursor e) (bounds ! (current + 1)) [] e
         else if scancode = SCANCODE_LEFT
         then if HasSelectionLocked e \<and> \<not> shift_pressed
              then MoveCursorLocked lib n (SelectionBeginLocked e) False e
              else MoveCursorLocked lib n
                     (if current = 0 then te_cursor e else bounds ! (current - 1)) shift_pressed e
         else if scancode = SCANCODE_RIGHT
         then if HasSelectionLocked e \<and> \<not> shift_pressed
              then MoveCursorLocked lib n (SelectionEndLocked e) False e
              else MoveCursorLocked lib n
                     (if current + 1 = length bounds then te_cursor e else bounds ! (current + 1))
                     shift_pressed e
         else if scancode = SCANCODE_HOME then MoveCursorLocked lib n 0 shift_pressed e
         else if scancode = SCANCODE_END then MoveCursorLocked lib n (length (te_text e)) shift_pressed e
         else if scancode = SCANCODE_ESCAPE then ReleaseLocked n e
         else if fp_multiline (fs_properties (te_session e))
         then ReplaceLocked lib n (SelectionBeginLocked e) (SelectionEndLocked e) [0x0a] e
         else FinishLocked n e)"

definition HandleKey ::
  "TextLib \<Rightarrow> TextNative \<Rightarrow> KeyEvent \<Rightarrow> RobloxTextEditor \<Rightarrow>
   RobloxTextEditResult \<times> RobloxTextEditor" where
  "HandleKey lib n ev e =
     (if \<not> te_focused e then (EditResult False False False Status_Ok, e)
      else
       let scancode = ke_scancode ev;
           shortcut_bit = ShortcutBit scancode;
           shift_pressed = has_modifier (kmod_shift lib) ev;
           shortcut = is_shortcut lib ev
       in if \<not> ke_pressed ev \<and> shortcut_bit \<noteq> 0 \<and> te_shortcuts e AND shortcut_bit \<noteq> 0
          then (EditResult True False False Status_Ok,
                e\<lparr>te_shortcuts := te_shortcuts e AND NOT shortcut_bit\<rparr>)
          else if \<not> (edit_scancode scancode \<or> shortcut) then (EditResult False False False Status_Ok, e)
          else if \<not> ke_pressed ev then (EditResult True False False Status_Ok, e)
          else
           let e = (if shortcut then e\<lparr>te_shortcuts := te_shortcuts e OR shortcut_bit\<rparr> else e)
           in if te_comp_active e then (EditResult True False False Status_Ok, e)
              else if shortcut_bit = kShortcutSelectAll then SelectAllLocked lib n e
              else if shortcut_bit = kShortcutCopy then CopySelectionLocked lib n False e
              else if shortcut_bit = kShortcutPaste then PasteLocked lib n e
              else if shortcut_bit = kShortcutCut then CopySelectionLocked lib n True e
              else edit_key lib n scancode shift_pressed e)"

section \<open>Runs\<close>

datatype TextOp =
    BeginFocus RobloxTextFocusSession
  | EndFocus int u64 bool
  | EngineText u64 bytes
  | FocusProperties u64 RobloxTextFocusProperties
  | TextInput bytes
  | TextEditing bytes int
  | Key KeyEvent

fun text_step :: "TextLib \<Rightarrow> RobloxTextEditor \<Rightarrow> TextNative \<times> TextOp \<Rightarrow> RobloxTextEditor" where
  "text_step lib e (n, BeginFocus session) = snd (BeginFocusSession lib session e)"
| "text_step lib e (n, EndFocus h g notify) = snd (EndFocusSession n h g notify e)"
| "text_step lib e (n, EngineText g t) = snd (ReplaceFocusedTextFromEngine lib g t e)"
| "text_step lib e (n, FocusProperties g p) = snd (UpdateFocusProperties g p e)"
| "text_step lib e (n, TextInput t) = snd (HandleTextInput lib n t e)"
| "text_step lib e (n, TextEditing t start) = snd (HandleTextEditing lib n t start e)"
| "text_step lib e (n, Key ev) = snd (HandleKey lib n ev e)"

end
