(* ===== verification/Text_Layout.thy ===== *)
theory Text_Layout
  imports Text_Editor
begin

text \<open>
  Facts on the decoded texts of the editor. The locale \<open>utf8_decoder\<close> is the interface to the
  Unicode library: what the editor relies on when it iterates over a text. It is interpreted on
  the strict decoder behind \<open>IsValidUtf8\<close>, which shows that a text the editor accepts is exactly
  one the launch parser accepts. \<open>text_library\<close> holds the facts on \<open>Layout\<close>, \<open>Utf16Cursor\<close> and
  \<open>Utf8CharacterByteOffset\<close>.
\<close>

section \<open>Decoded texts\<close>

text \<open>A text the decoder reads to its end, and the UTF-16 units of its code points.\<close>

function utf8_ok :: "(bytes \<Rightarrow> int \<times> int) \<Rightarrow> bytes \<Rightarrow> bool" where
  "utf8_ok it s =
     (if s = [] then True
      else if fst (it s) \<le> 0 then False
      else utf8_ok it (drop (nat (fst (it s))) s))"
  by pat_completeness auto
termination
  by (relation "measure (\<lambda>(_, s). length s)") auto

function utf16_units :: "(bytes \<Rightarrow> int \<times> int) \<Rightarrow> bytes \<Rightarrow> int" where
  "utf16_units it s =
     (if s = [] \<or> fst (it s) \<le> 0 then 0
      else cp_units (snd (it s)) + utf16_units it (drop (nat (fst (it s))) s))"
  by pat_completeness auto
termination
  by (relation "measure (\<lambda>(_, s). length s)") auto

declare utf8_ok.simps [simp del] utf16_units.simps [simp del]

lemma utf8_ok_Nil [simp]: "utf8_ok it []"
  by (simp add: utf8_ok.simps)

lemma utf16_units_Nil [simp]: "utf16_units it [] = 0"
  by (simp add: utf16_units.simps)

text \<open>The offsets between characters.\<close>

definition boundary :: "(bytes \<Rightarrow> int \<times> int) \<Rightarrow> bytes \<Rightarrow> nat \<Rightarrow> bool" where
  "boundary it text k \<longleftrightarrow> k \<le> length text \<and> utf8_ok it (take k text) \<and> utf8_ok it (drop k text)"

text \<open>
  What the editor relies on: the decoder reads no more bytes than it is given, and what it reads
  does not depend on the bytes that follow the character; an ASCII byte is a character.
\<close>

locale utf8_decoder =
  fixes it :: "bytes \<Rightarrow> int \<times> int"
  assumes count_le: "s \<noteq> [] \<Longrightarrow> fst (it s) \<le> int (length s)"
    and ascii_byte: "b \<le> 0x7f \<Longrightarrow> it (b # s) = (1, uint b)"
    and prefix_only: "s \<noteq> [] \<Longrightarrow> 0 < fst (it s) \<Longrightarrow> it (take (nat (fst (it s))) s @ t) = it s"
begin

lemma it_append:
  assumes "s \<noteq> []" "0 < fst (it s)"
  shows "it (s @ t) = it s"
proof -
  have "it (take (nat (fst (it s))) s @ (drop (nat (fst (it s))) s @ t)) = it s"
    using assms by (rule prefix_only)
  then show ?thesis by (simp flip: append_assoc)
qed

lemma drop_count_append:
  assumes "s \<noteq> []" "0 < fst (it s)"
  shows "drop (nat (fst (it s))) (s @ t) = drop (nat (fst (it s))) s @ t"
  using count_le [OF assms(1)] by simp

lemma ok_append: "utf8_ok it s \<Longrightarrow> utf8_ok it (s @ t) = utf8_ok it t"
proof (induction "length s" arbitrary: s rule: less_induct)
  case less
  show ?case
  proof (cases "s = []")
    case False
    then have pos: "0 < fst (it s)" and rest: "utf8_ok it (drop (nat (fst (it s))) s)"
      using less.prems by (auto simp: utf8_ok.simps [of it s] not_le split: if_splits)
    have "utf8_ok it (s @ t) = utf8_ok it (drop (nat (fst (it s))) s @ t)"
      using False pos by (subst utf8_ok.simps) (simp add: it_append drop_count_append del: drop_append)
    also have "\<dots> = utf8_ok it t"
      using False pos rest by (intro less.hyps) auto
    finally show ?thesis .
  qed simp
qed

lemma units_append: "utf8_ok it s \<Longrightarrow> utf16_units it (s @ t) = utf16_units it s + utf16_units it t"
proof (induction "length s" arbitrary: s rule: less_induct)
  case less
  show ?case
  proof (cases "s = []")
    case False
    then have pos: "0 < fst (it s)" and rest: "utf8_ok it (drop (nat (fst (it s))) s)"
      using less.prems by (auto simp: utf8_ok.simps [of it s] not_le split: if_splits)
    have "utf16_units it (s @ t) = cp_units (snd (it s)) + utf16_units it (drop (nat (fst (it s))) s @ t)"
      using False pos by (subst utf16_units.simps) (simp add: it_append drop_count_append del: drop_append)
    also have "utf16_units it (drop (nat (fst (it s))) s @ t) =
        utf16_units it (drop (nat (fst (it s))) s) + utf16_units it t"
      using False pos rest by (intro less.hyps) auto
    finally show ?thesis using False pos by (simp add: utf16_units.simps [of it s])
  qed simp
qed

lemma units_bounds: "0 \<le> utf16_units it s \<and> utf16_units it s \<le> 2 * int (length s)"
proof (induction "length s" arbitrary: s rule: less_induct)
  case less
  show ?case
  proof (cases "s = [] \<or> fst (it s) \<le> 0")
    case False
    let ?r = "drop (nat (fst (it s))) s"
    have "0 \<le> utf16_units it ?r \<and> utf16_units it ?r \<le> 2 * int (length ?r)"
      using False by (intro less.hyps) auto
    moreover have "length ?r + 1 \<le> length s" using False by (cases s) auto
    ultimately show ?thesis
      using False by (subst (1 2) utf16_units.simps) (auto simp: cp_units_def)
  qed (auto simp: utf16_units.simps)
qed

lemma boundary_text: "boundary it text k \<Longrightarrow> utf8_ok it text"
  unfolding boundary_def by (metis append_take_drop_id ok_append)

lemma boundary_ends [simp]: "boundary it text 0 = utf8_ok it text" "boundary it text (length text) = utf8_ok it text"
  by (simp_all add: boundary_def)

lemma boundary_le: "boundary it text k \<Longrightarrow> k \<le> length text"
  by (simp add: boundary_def)

lemma boundary_slice:
  assumes "boundary it text b" "boundary it text e" "b \<le> e"
  shows "utf8_ok it (take (e - b) (drop b text))"
proof -
  have "take e text = take b text @ take (e - b) (drop b text)"
    using assms(3) by (metis le_add_diff_inverse take_add)
  then show ?thesis
    using assms by (metis boundary_def ok_append)
qed

lemma splice_ok:
  assumes "boundary it text b" "boundary it text e" "utf8_ok it r"
  shows "utf8_ok it (splice_bytes text b e r)"
  using assms by (simp add: splice_bytes_def boundary_def ok_append)

lemma splice_boundary:
  assumes "boundary it text b" "boundary it text e" "utf8_ok it r" "boundary it r k"
  shows "boundary it (splice_bytes text b e r) (b + k)"
  using assms by (auto simp: splice_bytes_def boundary_def ok_append)

end


locale text_library = dec: utf8_decoder "iterate lib" for lib :: TextLib
begin

abbreviation "ok \<equiv> utf8_ok (iterate lib)"
abbreviation "units \<equiv> utf16_units (iterate lib)"
abbreviation "bnd \<equiv> boundary (iterate lib)"

lemma ok_step:
  assumes "iterate lib s = (c, cp)" "s \<noteq> []" "0 < c"
  shows "ok s = ok (drop (nat c) s)" "units s = cp_units cp + units (drop (nat c) s)"
    "nat c \<le> length s" "ok (take (nat c) s)" "units (take (nat c) s) = cp_units cp"
proof -
  show "ok s = ok (drop (nat c) s)" "units s = cp_units cp + units (drop (nat c) s)"
    using assms by (simp_all add: utf8_ok.simps [of _ s] utf16_units.simps [of _ s])
  show le: "nat c \<le> length s" using dec.count_le [of s] assms by simp
  have "iterate lib (take (nat c) s) = (c, cp)"
    using dec.prefix_only [of s "[]"] assms by simp
  then show "ok (take (nat c) s)" "units (take (nat c) s) = cp_units cp"
    using assms le by (simp_all add: utf8_ok.simps [of _ "take _ s"] utf16_units.simps [of _ "take _ s"])
qed

lemma textext_induct [case_names step]:
  assumes "\<And>s. (\<And>c cp. s \<noteq> [] \<Longrightarrow> iterate lib s = (c, cp) \<Longrightarrow> 0 < c \<Longrightarrow> P (drop (nat c) s)) \<Longrightarrow> P s"
  shows "P s"
proof (induction "length s" arbitrary: s rule: less_induct)
  case less
  show ?case by (rule assms, rule less) auto
qed

lemma layout_step:
  assumes "s \<noteq> []" "iterate lib s = (c, cp)" "0 < c"
    and "brk = (case previous of None \<Rightarrow> (False, st) | Some p \<Rightarrow> grapheme_break lib p cp st)"
    and "bounds' = (if fst brk then bounds @ [off] else bounds)"
  shows "layout_loop lib k previous st off u bounds s =
    (if u + cp_units cp > 2147483647 then \<lparr>ly_valid = False, ly_utf16_units = 0, ly_bounds = bounds'\<rparr>
     else layout_loop lib k (Some cp) (snd brk) (off + nat c) (u + cp_units cp) bounds' (drop (nat c) s))"
  unfolding assms(4,5) using assms(1-3)
  by (subst layout_loop.simps) (cases previous; simp add: case_prod_unfold Let_def)

lemma layout_loop_valid:
  assumes "u \<le> 2147483647"
  shows "ly_valid (layout_loop lib k previous st off u bounds s) \<longleftrightarrow> ok s \<and> u + units s \<le> 2147483647"
  using assms
proof (induction s arbitrary: previous st off u bounds rule: textext_induct)
  case (step s)
  obtain c cp where it: "iterate lib s = (c, cp)" by fastforce
  show ?case
  proof (cases "s = [] \<or> c \<le> 0")
    case True
    then show ?thesis
      using it step.prems by (auto simp: layout_loop.simps [of _ _ _ _ _ _ _ s] utf8_ok.simps [of _ s])
  next
    case False
    have "0 \<le> units (drop (nat c) s)" using dec.units_bounds by blast
    with False show ?thesis
      using step.IH [OF _ it, of "u + cp_units cp"] ok_step(1,2) [OF it]
      by (auto simp: layout_step [OF _ it _ refl refl] not_le)
  qed
qed

lemma Layout_valid: "ly_valid (Layout lib t) \<longleftrightarrow> ok t \<and> units t \<le> 2147483647"
  by (simp add: Layout_def layout_loop_valid)

lemma Layout_valid_bounded: "length t \<le> kMaximumTextBytes \<Longrightarrow> ly_valid (Layout lib t) = ok t"
  using dec.units_bounds [of t] by (auto simp: Layout_valid kMaximumTextBytes_def)

lemma Layout_validD: "ly_valid (Layout lib t) \<Longrightarrow> ok t"
  by (simp add: Layout_valid)

text \<open>The grapheme boundaries of a valid t are offsets between characters, in order.\<close>

lemma layout_loop_bounds:
  assumes "ok pre" "ok s" "t = pre @ s" "ly_valid (layout_loop lib (length t) previous st (length pre) u bounds s)"
    and "bounds \<noteq> []" "sorted bounds" "\<And>k. k \<in> set bounds \<Longrightarrow> bnd t k \<and> k \<le> length pre"
  shows "let b = ly_bounds (layout_loop lib (length t) previous st (length pre) u bounds s)
    in sorted b \<and> (\<forall>k \<in> set b. bnd t k) \<and> b \<noteq> [] \<and> hd b = hd bounds \<and> last b = length t"
  using assms
proof (induction s arbitrary: pre previous st u bounds rule: textext_induct)
  case (step s)
  obtain c cp where it: "iterate lib s = (c, cp)" by fastforce
  show ?case
  proof (cases "s = []")
    case True
    then show ?thesis using step.prems
      by (auto simp: layout_loop.simps [of _ _ _ _ _ _ _ "[]"] sorted_append Let_def)
  next
    case False
    then have c: "0 < c" using step.prems(2) it by (auto simp: utf8_ok.simps [of _ s] split: if_splits)
    define pre' where "pre' = pre @ take (nat c) s"
    have pre': "ok pre'" "t = pre' @ drop (nat c) s" "length pre' = length pre + nat c"
      using step.prems ok_step [OF it False c] by (auto simp: pre'_def dec.ok_append)
    have bpre: "bnd t (length pre)" using step.prems by (simp add: boundary_def)
    define brk where "brk = (case previous of None \<Rightarrow> (False, st) | Some p \<Rightarrow> grapheme_break lib p cp st)"
    define bounds' where "bounds' = (if fst brk then bounds @ [length pre] else bounds)"
    have loop: "layout_loop lib (length t) previous st (length pre) u bounds s =
        layout_loop lib (length t) (Some cp) (snd brk) (length pre') (u + cp_units cp) bounds' (drop (nat c) s)"
      if "ly_valid (layout_loop lib (length t) previous st (length pre) u bounds s)"
      using that unfolding layout_step [OF False it c brk_def bounds'_def] pre'(3) by (simp split: if_splits)
    have b: "bounds' \<noteq> []" "sorted bounds'" "\<And>k. k \<in> set bounds' \<Longrightarrow> bnd t k \<and> k \<le> length pre'" "hd bounds' = hd bounds"
      using step.prems(5,6) bpre
      by (auto simp: bounds'_def sorted_append pre'(3) split: if_splits dest!: step.prems(7))
    have rest: "ok (drop (nat c) s)" using step.prems(2) ok_step(1) [OF it False c] by simp
    have valid: "ly_valid (layout_loop lib (length t) (Some cp) (snd brk) (length pre') (u + cp_units cp) bounds'
        (drop (nat c) s))"
      using loop step.prems(4) by simp
    show ?thesis
      using step.IH [OF False it c pre'(1) rest pre'(2) valid b(1-3)] loop step.prems(4) b(4) by simp
  qed
qed

lemma Layout_bounds:
  assumes "ly_valid (Layout lib t)"
  shows "sorted (ly_bounds (Layout lib t))" "k \<in> set (ly_bounds (Layout lib t)) \<Longrightarrow> bnd t k"
    "ly_bounds (Layout lib t) \<noteq> []" "hd (ly_bounds (Layout lib t)) = 0"
    "last (ly_bounds (Layout lib t)) = length t"
  using layout_loop_bounds [of "[]" t t None 0 0 "[0]"] assms Layout_validD [OF assms]
  by (auto simp: Layout_def Let_def)

lemma utf16_loop_units: "ok s \<Longrightarrow> utf16_loop lib u s = u + units s"
proof (induction s arbitrary: u rule: textext_induct)
  case (step s)
  obtain c cp where it: "iterate lib s = (c, cp)" by fastforce
  show ?case
  proof (cases "s = []")
    case False
    then have c: "0 < c" using step.prems it by (auto simp: utf8_ok.simps [of _ s] split: if_splits)
    then show ?thesis
      using False it step.IH [OF False it c] step.prems ok_step [OF it False c]
      by (simp add: utf16_loop.simps [of _ _ s])
  qed (simp add: utf16_loop.simps)
qed

lemma Utf16Cursor_boundary: "bnd t k \<Longrightarrow> Utf16Cursor lib t k = units (take k t)"
  by (simp add: Utf16Cursor_def boundary_def utf16_loop_units)

lemma character_loop_boundary:
  assumes "ok pre" "ok s"
  shows "\<exists>k. character_loop lib n (length pre) s = Some k \<and> bnd (pre @ s) k"
  using assms
proof (induction n arbitrary: pre s)
  case 0
  then show ?case by (simp add: boundary_def)
next
  case (Suc n)
  obtain c cp where it: "iterate lib s = (c, cp)" by fastforce
  show ?case
  proof (cases "s = []")
    case True
    then show ?thesis using Suc.prems by simp
  next
    case False
    then have c: "0 < c" using Suc.prems it by (auto simp: utf8_ok.simps [of _ s] split: if_splits)
    note st = ok_step [OF it False c]
    have "ok (pre @ take (nat c) s)" using Suc.prems st by (simp add: dec.ok_append)
    then show ?thesis
      using Suc.IH [of "pre @ take (nat c) s" "drop (nat c) s"] False it c st Suc.prems by simp
  qed
qed

lemma character_offset_boundary: "ok t \<Longrightarrow> bnd t (Utf8CharacterByteOffset lib t i)"
  using character_loop_boundary [of "[]" t "nat i"] by (auto simp: Utf8CharacterByteOffset_def)

end

section \<open>The reference decoder\<close>

text \<open>The strict decoder that \<open>IsValidUtf8\<close> embodies, in the form of \<open>utf8proc_iterate\<close>.\<close>

definition utf8_head :: "bytes \<Rightarrow> int \<times> int" where
  "utf8_head s =
     (case s of
        [] \<Rightarrow> (0, -1)
      | first # rest \<Rightarrow>
          if first \<le> 0x7f then (1, uint first)
          else case utf8_lead first of
            None \<Rightarrow> (-3, -1)
          | Some (n, c) \<Rightarrow>
              if n \<ge> Suc (length rest) then (-3, -1)
              else case utf8_continue c (take n rest) of
                None \<Rightarrow> (-3, -1)
              | Some cp \<Rightarrow>
                  if n = 2 \<and> cp < 0x800 \<or> n = 3 \<and> cp < 0x10000 \<or> cp \<ge> 0xd800 \<and> cp \<le> 0xdfff \<or>
                     cp > 0x10ffff
                  then (-3, -1)
                  else (int n + 1, uint cp))"

lemma utf8_head_Nil: "utf8_head [] = (0, -1)"
  by (simp add: utf8_head_def)

lemma utf8_head_ascii: "first \<le> 0x7f \<Longrightarrow> utf8_head (first # rest) = (1, uint first)"
  by (simp add: utf8_head_def)

lemma utf8_head_lead:
  assumes "\<not> first \<le> 0x7f" "utf8_lead first = Some (n, c)" "n \<le> length rest"
    "utf8_continue c (take n rest) = Some cp"
    "\<not> (n = 2 \<and> cp < 0x800 \<or> n = 3 \<and> cp < 0x10000 \<or> cp \<ge> 0xd800 \<and> cp \<le> 0xdfff \<or> cp > 0x10ffff)"
  shows "utf8_head (first # rest) = (int n + 1, uint cp)"
  using assms by (simp add: utf8_head_def)

text \<open>The head is ASCII, a well-formed longer sequence, or an error.\<close>

lemma utf8_head_cases:
  obtains (ascii) "first \<le> 0x7f"
  | (lead) n c cp where "\<not> first \<le> 0x7f" "utf8_lead first = Some (n, c)" "n \<le> length rest"
      "utf8_continue c (take n rest) = Some cp"
      "\<not> (n = 2 \<and> cp < 0x800 \<or> n = 3 \<and> cp < 0x10000 \<or> cp \<ge> 0xd800 \<and> cp \<le> 0xdfff \<or> cp > 0x10ffff)"
  | (error) "utf8_head (first # rest) = (-3, -1)" "\<not> IsValidUtf8 (first # rest)"
proof (cases "first \<le> 0x7f")
  case False
  show thesis
  proof (cases "utf8_lead first")
    case None
    then show thesis using False error by (simp add: utf8_head_def)
  next
    case (Some nc)
    obtain n c where nc: "nc = (n, c)" by (cases nc)
    show thesis
    proof (cases "n \<le> length rest \<and> utf8_continue c (take n rest) \<noteq> None")
      case True
      then obtain cp where cp: "utf8_continue c (take n rest) = Some cp" by auto
      show thesis
      proof (cases "n = 2 \<and> cp < 0x800 \<or> n = 3 \<and> cp < 0x10000 \<or> cp \<ge> 0xd800 \<and> cp \<le> 0xdfff \<or> cp > 0x10ffff")
        case bad: True
        show thesis by (rule error) (use False Some nc True cp bad in \<open>simp_all add: utf8_head_def\<close>)
      next
        case False
        then show thesis using lead [of n c cp] \<open>\<not> first \<le> 0x7f\<close> Some nc True cp by blast
      qed
    next
      case bad: False
      show thesis
        by (rule error) (use False Some nc bad in \<open>auto simp: utf8_head_def not_le not_less_eq_eq\<close>)
    qed
  qed
qed (rule ascii)

interpretation strict: utf8_decoder utf8_head
proof
  fix s t :: bytes and b :: u8
  show "utf8_head (b # s) = (1, uint b)" if "b \<le> 0x7f"
    using that by (rule utf8_head_ascii)
  show "fst (utf8_head s) \<le> int (length s)" if ne: "s \<noteq> []"
  proof (cases s)
    case (Cons first rest)
    show ?thesis
    proof (cases rule: utf8_head_cases [where first = first and rest = rest])
      case ascii
      then show ?thesis by (simp add: Cons utf8_head_ascii)
    next
      case (lead n c cp)
      then show ?thesis by (simp add: Cons utf8_head_lead [OF lead])
    qed (simp add: Cons)
  qed (use ne in simp)
  show "utf8_head (take (nat (fst (utf8_head s))) s @ t) = utf8_head s"
    if ne: "s \<noteq> []" and pos: "0 < fst (utf8_head s)"
  proof (cases s)
    case (Cons first rest)
    show ?thesis
    proof (cases rule: utf8_head_cases [where first = first and rest = rest])
      case ascii
      then show ?thesis by (simp add: Cons utf8_head_ascii)
    next
      case (lead n c cp)
      have "utf8_head (first # take n rest @ t) = (int n + 1, uint cp)"
        by (rule utf8_head_lead) (use lead in auto)
      then show ?thesis by (simp add: Cons utf8_head_lead [OF lead] nat_add_distrib)
    next
      case error
      then show ?thesis using pos by (simp add: Cons)
    qed
  qed (use ne in simp)
qed

lemma strict_valid: "utf8_ok utf8_head s = IsValidUtf8 s"
proof (induction "length s" arbitrary: s rule: less_induct)
  case less
  show ?case
  proof (cases s)
    case (Cons first rest)
    show ?thesis
    proof (cases rule: utf8_head_cases [where first = first and rest = rest])
      case ascii
      then show ?thesis
        using less [of rest] by (simp add: Cons utf8_ok.simps [of _ "first # rest"] utf8_head_ascii)
    next
      case (lead n c cp)
      have "utf8_ok utf8_head (first # rest) = utf8_ok utf8_head (drop n rest)"
        by (simp add: utf8_ok.simps [of _ "first # rest"] utf8_head_lead [OF lead] nat_add_distrib)
      moreover have "IsValidUtf8 (first # rest) = IsValidUtf8 (drop n rest)" using lead by auto
      ultimately show ?thesis using less [of "drop n rest"] by (simp add: Cons)
    next
      case error
      then show ?thesis by (simp add: Cons utf8_ok.simps [of _ "first # rest"])
    qed
  qed simp
qed

text \<open>The library with the strict decoder; every code point is a grapheme of its own.\<close>

definition strict_lib :: TextLib where
  "strict_lib = \<lparr>iterate = utf8_head, grapheme_break = (\<lambda>p c st. (True, st)),
     kmod_ctrl = 0xc0, kmod_alt = 0x300, kmod_shift = 3\<rparr>"

lemma strict_lib_decoder: "utf8_decoder (iterate strict_lib)"
  by (simp add: strict_lib_def strict.utf8_decoder_axioms)

interpretation strict_text: text_library strict_lib
  by (rule text_library.intro [OF strict_lib_decoder])

text \<open>A text within the limit is accepted by the layout exactly when the launch parser's check accepts it.\<close>

lemma strict_layout_valid:
  "length t \<le> kMaximumTextBytes \<Longrightarrow> ly_valid (Layout strict_lib t) = IsValidUtf8 t"
  using strict_text.Layout_valid_bounded [of t] strict_valid [of t] by (simp add: strict_lib_def)

end
