(* ===== verification/Text_Editor_Safety.thy ===== *)
theory Text_Editor_Safety
  imports Text_Layout
begin

text \<open>
  The invariant of the text editor, kept by every operation (one lemma per operation), and the
  properties of its edits: well-formed texts, restored compositions, the calls to the engine and
  to the clipboard, and the one gap in the size limit.
\<close>

section \<open>Invariant\<close>

text \<open>The flag \<open>sized\<close> says whether the size limits are part of the invariant: a newline typed into a full
  multi-line text exceeds them, everything else is kept by every operation.

  The text with what the composition replaced put back.\<close>

definition original_text :: "RobloxTextEditor \<Rightarrow> bytes" where
  "original_text e = splice_bytes (te_text e) (te_comp_begin e) (te_comp_end e) (te_comp_replaced e)"

definition in_limit :: "bool \<Rightarrow> nat \<Rightarrow> bool" where
  "in_limit sized k \<longleftrightarrow> (sized \<longrightarrow> k \<le> kMaximumTextBytes)"

lemma in_limit_0 [simp]: "in_limit sized 0"
  by (simp add: in_limit_def)

definition composition_inv :: "bool \<Rightarrow> (bytes \<Rightarrow> int \<times> int) \<Rightarrow> RobloxTextEditor \<Rightarrow> bool" where
  "composition_inv sized it e \<longleftrightarrow>
     te_comp_begin e \<le> te_comp_end e \<and> boundary it (te_text e) (te_comp_begin e) \<and>
     boundary it (te_text e) (te_comp_end e) \<and> utf8_ok it (te_comp_replaced e) \<and>
     in_limit sized (length (original_text e)) \<and> boundary it (original_text e) (te_comp_cursor e) \<and>
     boundary it (original_text e) (te_comp_anchor e)"

definition text_inv :: "bool \<Rightarrow> (bytes \<Rightarrow> int \<times> int) \<Rightarrow> RobloxTextEditor \<Rightarrow> bool" where
  "text_inv sized it e \<longleftrightarrow>
     in_limit sized (length (te_text e)) \<and> boundary it (te_text e) (te_cursor e) \<and>
     boundary it (te_text e) (te_anchor e) \<and> (te_comp_active e \<longrightarrow> composition_inv sized it e)"

definition snapshot_inv :: "(bytes \<Rightarrow> int \<times> int) \<Rightarrow> RobloxTextEditor \<Rightarrow> bool" where
  "snapshot_inv it e \<longleftrightarrow>
     ts_text_bytes (te_snapshot e) = length (te_text e) \<and>
     ts_cursor_utf16 (te_snapshot e) = utf16_units it (take (te_cursor e) (te_text e)) \<and>
     ts_selection_begin_utf16 (te_snapshot e) = utf16_units it (take (SelectionBeginLocked e) (te_text e)) \<and>
     ts_selection_end_utf16 (te_snapshot e) = utf16_units it (take (SelectionEndLocked e) (te_text e))"

definition session_inv_ids :: "RobloxTextEditor \<Rightarrow> bool" where
  "session_inv_ids e \<longleftrightarrow>
     sink_complete (te_sink e) \<and> fs_initial_text (te_session e) = [] \<and>
     fs_textbox_handle (te_session e) \<noteq> 0 \<and> fs_generation (te_session e) \<noteq> 0 \<and>
     ts_textbox_handle (te_snapshot e) = fs_textbox_handle (te_session e) \<and>
     ts_generation (te_snapshot e) = fs_generation (te_session e)"

definition echo_inv :: "bool \<Rightarrow> RobloxTextEditor \<Rightarrow> bool" where
  "echo_inv sized e \<longleftrightarrow>
     te_echo_bytes e = sum_list (map length (te_echoes e)) \<and> in_limit sized (sum_list (map length (te_echoes e))) \<and>
     length (te_echoes e) \<le> kMaximumPendingNativeEchoes"

definition cleared :: "RobloxTextEditor \<Rightarrow> bool" where
  "cleared e \<longleftrightarrow>
     te_session e = RobloxTextFocusSession_default \<and> te_text e = [] \<and> te_cursor e = 0 \<and> te_anchor e = 0 \<and>
     te_comp_replaced e = [] \<and> \<not> te_comp_active e \<and> te_echoes e = [] \<and> te_echo_bytes e = 0 \<and>
     te_shortcuts e = 0 \<and> ts_textbox_handle (te_snapshot e) = 0 \<and> ts_generation (te_snapshot e) = 0 \<and>
     ts_text_bytes (te_snapshot e) = 0 \<and> ts_cursor_utf16 (te_snapshot e) = 0 \<and>
     ts_selection_begin_utf16 (te_snapshot e) = 0 \<and> ts_selection_end_utf16 (te_snapshot e) = 0"

definition editor_inv :: "bool \<Rightarrow> (bytes \<Rightarrow> int \<times> int) \<Rightarrow> RobloxTextEditor \<Rightarrow> bool" where
  "editor_inv sized it e \<longleftrightarrow>
     (if te_focused e then text_inv sized it e \<and> snapshot_inv it e \<and> session_inv_ids e \<and> echo_inv sized e
      else cleared e)"

named_theorems editor_parts \<open>unfolding of the parts of the editor invariant\<close>

lemmas [editor_parts] = text_inv_def composition_inv_def original_text_def snapshot_inv_def
  session_inv_ids_def echo_inv_def cleared_def te_focused_def SelectionBeginLocked_def SelectionEndLocked_def

text \<open>Only the log separates the editor before and after a display update or a native call.\<close>

lemma inv_log [simp]:
  "text_inv sized it (e\<lparr>te_log := l\<rparr>) = text_inv sized it e" "snapshot_inv it (e\<lparr>te_log := l\<rparr>) = snapshot_inv it e"
  "session_inv_ids (e\<lparr>te_log := l\<rparr>) = session_inv_ids e" "echo_inv sized (e\<lparr>te_log := l\<rparr>) = echo_inv sized e"
  "cleared (e\<lparr>te_log := l\<rparr>) = cleared e" "te_focused (e\<lparr>te_log := l\<rparr>) = te_focused e"
  "editor_inv sized it (e\<lparr>te_log := l\<rparr>) = editor_inv sized it e"
  by (simp_all add: editor_parts editor_inv_def)

lemma publish_log: "\<exists>l. PublishDisplayLocked ev e = e\<lparr>te_log := l\<rparr>"
  by (cases e) (auto simp: PublishDisplayLocked_def log_call_def)

lemma publish_inv [simp]: "editor_inv sized it (PublishDisplayLocked ev e) = editor_inv sized it e"
  using publish_log [of ev e] by auto

lemma ClearLocked_cleared: "cleared (ClearLocked e)" "\<not> te_focused (ClearLocked e)"
  by (simp_all add: ClearLocked_def Let_def editor_parts reset_composition_def ClearPendingNativeEchoesLocked_def)

lemma ClearLocked_inv [simp]: "editor_inv sized it (ClearLocked e)" "editor_inv sized it (abandon_session e)"
  by (simp_all add: editor_inv_def ClearLocked_cleared abandon_session_def)

lemma drop_echoes_bounds:
  assumes "tb = sum_list (map length es)" "drop_echoes k es tb = (es', tb')"
  shows "tb' = sum_list (map length es') \<and> length es' < kMaximumPendingNativeEchoes \<and>
    (es' = [] \<or> tb' \<le> size_sub kMaximumTextBytes k)"
  using assms
proof (induction k es tb rule: drop_echoes.induct)
  case (1 k es tb)
  show ?case
  proof (cases "es \<noteq> [] \<and> (length es \<ge> kMaximumPendingNativeEchoes \<or> tb > size_sub kMaximumTextBytes k)")
    case True
    then have "drop_echoes k (tl es) (tb - length (hd es)) = (es', tb')"
      using "1.prems"(2) by (simp add: drop_echoes.simps [of k es])
    moreover have "tb - length (hd es) = sum_list (map length (tl es))"
      using True "1.prems"(1) by (cases es) simp_all
    ultimately show ?thesis using "1.IH" [OF True] by blast
  next
    case False
    then show ?thesis using "1.prems" by (auto simp: drop_echoes.simps [of k es] kMaximumPendingNativeEchoes_def)
  qed
qed

lemma Remember_parts:
  assumes "echo_inv sized e" "in_limit sized (length (te_text e))"
  shows "echo_inv sized (RememberPendingNativeEchoLocked e)"
    "\<exists>es tb. RememberPendingNativeEchoLocked e = e\<lparr>te_echoes := es, te_echo_bytes := tb\<rparr>"
proof -
  obtain es tb where d: "drop_echoes (length (te_text e)) (te_echoes e) (te_echo_bytes e) = (es, tb)" by fastforce
  have "te_echo_bytes e = sum_list (map length (te_echoes e))" using assms(1) by (simp add: echo_inv_def)
  then show "echo_inv sized (RememberPendingNativeEchoLocked e)"
    using drop_echoes_bounds [OF _ d] assms d by (auto simp: RememberPendingNativeEchoLocked_def echo_inv_def size_sub_def in_limit_def)
  show "\<exists>es tb. RememberPendingNativeEchoLocked e = e\<lparr>te_echoes := es, te_echo_bytes := tb\<rparr>"
    using d by (cases e) (auto simp: RememberPendingNativeEchoLocked_def)
qed

lemma Remember_inv:
  assumes "te_focused e" "editor_inv sized it e"
  shows "editor_inv sized it (RememberPendingNativeEchoLocked e)" "te_focused (RememberPendingNativeEchoLocked e)"
proof -
  have e: "echo_inv sized e" "in_limit sized (length (te_text e))"
    using assms by (simp_all add: editor_inv_def text_inv_def)
  then obtain es tb where "RememberPendingNativeEchoLocked e = e\<lparr>te_echoes := es, te_echo_bytes := tb\<rparr>"
    using Remember_parts(2) by blast
  with assms Remember_parts(1) [OF e]
  show "editor_inv sized it (RememberPendingNativeEchoLocked e)" "te_focused (RememberPendingNativeEchoLocked e)"
    by (simp_all add: editor_inv_def editor_parts)
qed

lemma count_inv [simp]:
  "editor_inv sized it (count_edit e) = editor_inv sized it e" "editor_inv sized it (count_native_error e) = editor_inv sized it e"
  "te_focused (count_edit e) = te_focused e"
  by (simp_all add: editor_inv_def editor_parts count_edit_def count_native_error_def)

lemma log_call_inv [simp]: "editor_inv sized it (log_call c e) = editor_inv sized it e" "te_focused (log_call c e) = te_focused e"
  by (simp_all add: log_call_def)

lemma dispatch_edit_inv:
  assumes "te_focused e" "editor_inv sized it e" "f = id \<or> f = count_edit"
  shows "editor_inv sized it (snd (dispatch_edit n f e))"
  using assms Remember_inv
  by (auto simp: dispatch_edit_def SyncLocked_def PassLocked_def Let_def split: prod.splits if_splits)

lemma dispatch_move_inv:
  assumes "te_focused e" "editor_inv sized it e"
  shows "editor_inv sized it (snd (dispatch_move n e))"
  using assms by (auto simp: dispatch_move_def SyncLocked_def Let_def)


lemma splice_splice: "b \<le> length t \<Longrightarrow> splice_bytes (splice_bytes t b e r) b (b + length r) r' = splice_bytes t b e r'"
  by (simp add: splice_bytes_def)

lemma splice_slice:
  assumes "b \<le> e" "e \<le> length t"
  shows "splice_bytes t b e (take (e - b) (drop b t)) = t"
proof -
  have "take (e - b) (drop b t) @ drop e t = drop b t"
    using assms by (metis append_take_drop_id drop_drop le_add_diff_inverse2)
  then show ?thesis by (simp add: splice_bytes_def)
qed

definition newline_fits :: "RobloxTextEditor \<Rightarrow> bool" where
  "newline_fits e \<longleftrightarrow>
     length (te_text e) - (SelectionEndLocked e - SelectionBeginLocked e) < kMaximumTextBytes"

text \<open>
  A newline typed into a multi-line text is not checked against the size limit; the steps that do
  not run into that gap.
\<close>

definition step_fits :: "RobloxTextEditor \<Rightarrow> TextNative \<times> TextOp \<Rightarrow> bool" where
  "step_fits e step \<longleftrightarrow>
     (case snd step of
        Key ev \<Rightarrow> ke_scancode ev \<in> {SCANCODE_RETURN, SCANCODE_KP_ENTER} \<and>
                  fp_multiline (fs_properties (te_session e)) \<longrightarrow> newline_fits e
      | _ \<Rightarrow> True)"

text \<open>The number of UTF-16 units of a text is an \<open>int\<close> in the code; below 1 GiB of text it cannot overflow.\<close>

definition text_small :: "RobloxTextEditor \<Rightarrow> TextNative \<times> TextOp \<Rightarrow> bool" where
  "text_small e step \<longleftrightarrow> length (te_text e) < 2 ^ 30"

context text_library
begin

abbreviation "einv sized \<equiv> editor_inv sized (iterate lib)"

lemma bnd_min_max:
  "bnd t a \<Longrightarrow> bnd t b \<Longrightarrow> bnd t (min a b)" "bnd t a \<Longrightarrow> bnd t b \<Longrightarrow> bnd t (max a b)"
  by (simp_all add: min_def max_def)

lemma focusedD:
  assumes "te_focused e" "einv sized e"
  shows "text_inv sized (iterate lib) e" "snapshot_inv (iterate lib) e" "session_inv_ids e" "echo_inv sized e"
    "in_limit sized (length (te_text e))" "bnd (te_text e) (te_cursor e)" "bnd (te_text e) (te_anchor e)"
    "ts_text_bytes (te_snapshot e) = length (te_text e)" "ok (te_text e)"
  using assms dec.boundary_text [of "te_text e" "te_cursor e"]
  by (simp_all add: editor_inv_def text_inv_def snapshot_inv_def)

text \<open>Moving cursor and anchor between characters.\<close>

lemma update_inv:
  assumes "te_focused e" "text_inv sized (iterate lib) e" "session_inv_ids e" "echo_inv sized e"
    and "ts_text_bytes (te_snapshot e) = length (te_text e)"
  shows "einv sized (UpdateSelectionSnapshotLocked lib e)" "te_focused (UpdateSelectionSnapshotLocked lib e)"
proof -
  have "bnd (te_text e) (te_cursor e)" "bnd (te_text e) (te_anchor e)"
    using assms(2) by (simp_all add: text_inv_def)
  with assms show "einv sized (UpdateSelectionSnapshotLocked lib e)" "te_focused (UpdateSelectionSnapshotLocked lib e)"
    by (simp_all add: UpdateSelectionSnapshotLocked_def editor_inv_def editor_parts Utf16Cursor_boundary bnd_min_max)
qed

lemma settle_inv:
  assumes "te_focused e" "text_inv sized (iterate lib) e" "session_inv_ids e" "echo_inv sized e"
  shows "einv sized (UpdateSelectionSnapshotLocked lib (set_text_bytes e))"
    "te_focused (UpdateSelectionSnapshotLocked lib (set_text_bytes e))"
  using assms by - (rule update_inv [where sized = sized]; simp add: set_text_bytes_def editor_parts)+

lemma splice_length: "b \<le> e \<Longrightarrow> e \<le> length t \<Longrightarrow> length (splice_bytes t b e r) = length t - (e - b) + length r"
  by (simp add: splice_bytes_def)

lemma ReplaceLocked_inv:
  assumes "te_focused e" "session_inv_ids e" "echo_inv sized e"
    and "bnd (te_text e) b0" "bnd (te_text e) e0" "ok r" "in_limit sized (length (splice_bytes (te_text e) b0 e0 r))"
  shows "einv sized (snd (ReplaceLocked lib n b0 e0 r e))"
proof -
  have "bnd (splice_bytes (te_text e) b0 e0 r) (b0 + length r)"
    using dec.splice_boundary [OF assms(4,5,6), of "length r"] assms(6) by simp
  then show ?thesis
    unfolding ReplaceLocked_def Let_def using assms(1-3,7)
    by (intro dispatch_edit_inv settle_inv) (auto simp: editor_parts reset_composition_def)
qed

text \<open>Deleting from \<open>b0\<close> to \<open>e0\<close>, or inserting a text that fits.\<close>

lemma ReplaceLocked_edit:
  assumes "te_focused e" "einv sized e" "bnd (te_text e) b0" "bnd (te_text e) e0" "b0 \<le> e0"
    and "ok r" "sized \<longrightarrow> length r \<le> size_sub kMaximumTextBytes (length (te_text e) - (e0 - b0))"
  shows "einv sized (snd (ReplaceLocked lib n b0 e0 r e))"
proof -
  note f = focusedD [OF assms(1,2)]
  have "in_limit sized (length (splice_bytes (te_text e) b0 e0 r))"
    using assms(5,7) f(5) dec.boundary_le [OF assms(4)]
    by (auto simp: in_limit_def splice_length size_sub_def split: if_splits)
  then show ?thesis using assms f(3,4) by (intro ReplaceLocked_inv)
qed

lemma selection_bounds:
  assumes "te_focused e" "einv sized e"
  shows "bnd (te_text e) (SelectionBeginLocked e)" "bnd (te_text e) (SelectionEndLocked e)"
    "SelectionBeginLocked e \<le> SelectionEndLocked e"
  using assms bnd_min_max by (auto simp: editor_inv_def text_inv_def SelectionBeginLocked_def SelectionEndLocked_def)

lemma delete_selection_inv:
  assumes "te_focused e" "einv sized e"
  shows "einv sized (snd (ReplaceLocked lib n (SelectionBeginLocked e) (SelectionEndLocked e) [] e))"
  using assms selection_bounds [OF assms] by (intro ReplaceLocked_edit) simp_all

lemma reselect_inv:
  assumes "te_focused e" "einv sized e" "\<not> te_comp_active e" "bnd (te_text e) c" "bnd (te_text e) a"
  shows "einv sized (UpdateSelectionSnapshotLocked lib (e\<lparr>te_cursor := c, te_anchor := a\<rparr>))"
    "te_focused (UpdateSelectionSnapshotLocked lib (e\<lparr>te_cursor := c, te_anchor := a\<rparr>))"
  using assms(1,3-5) focusedD [OF assms(1,2)] by - (rule update_inv [where sized = sized]; simp add: editor_parts)+

lemma MoveCursorLocked_inv:
  assumes "te_focused e" "einv sized e" "\<not> te_comp_active e" "bnd (te_text e) k"
  shows "einv sized (snd (MoveCursorLocked lib n k ext e))"
proof -
  let ?a = "if ext then te_anchor e else k"
  let ?e = "e\<lparr>te_cursor := k, te_anchor := ?a\<rparr>"
  have "bnd (te_text e) ?a" using assms(4) focusedD [OF assms(1,2)] by simp
  note r = reselect_inv [OF assms this]
  show ?thesis
  proof (cases "k = te_cursor e \<and> ?a = te_anchor e")
    case True
    then have "?e = e" by (cases e) (auto split: if_splits)
    with True assms(2) show ?thesis by (auto simp: MoveCursorLocked_def Let_def split: if_splits)
  next
    case False
    then show ?thesis
      using r dispatch_move_inv [OF r(2) r(1)] by (auto simp: MoveCursorLocked_def Let_def split: if_splits)
  qed
qed

lemma SelectAllLocked_inv:
  assumes "te_focused e" "einv sized e" "\<not> te_comp_active e"
  shows "einv sized (snd (SelectAllLocked lib n e))"
proof -
  have "bnd (te_text e) (length (te_text e))" "bnd (te_text e) 0" using focusedD [OF assms(1,2)] by simp_all
  note r = reselect_inv [OF assms this]
  show ?thesis
  proof (cases "te_cursor e = length (te_text e) \<and> te_anchor e = 0")
    case True
    then have "e\<lparr>te_cursor := length (te_text e), te_anchor := 0\<rparr> = e" by (cases e) auto
    then have "einv sized (e\<lparr>te_cursor := length (te_text e), te_anchor := 0\<rparr>)" using assms(2) by simp
    with True show ?thesis by (simp add: SelectAllLocked_def Let_def)
  next
    case False
    then show ?thesis
      using r dispatch_move_inv [OF r(2) r(1)] by (auto simp: SelectAllLocked_def Let_def)
  qed
qed

lemma CopySelectionLocked_inv:
  assumes "te_focused e" "einv sized e"
  shows "einv sized (snd (CopySelectionLocked lib n ct e))"
proof -
  let ?e = "log_call (CClipboardWrite (take (SelectionEndLocked e - SelectionBeginLocked e)
    (drop (SelectionBeginLocked e) (te_text e)))) e"
  have "SelectionBeginLocked ?e = SelectionBeginLocked e" "SelectionEndLocked ?e = SelectionEndLocked e"
    by (simp_all add: log_call_def SelectionBeginLocked_def SelectionEndLocked_def)
  then show ?thesis
    using delete_selection_inv [of ?e sized n] assms by (auto simp: CopySelectionLocked_def Let_def)
qed

lemma PasteLocked_inv:
  assumes "te_focused e" "einv sized e"
  shows "einv sized (snd (PasteLocked lib n e))"
  using assms selection_bounds [OF assms] Layout_validD
  by (auto simp: PasteLocked_def Let_def intro!: ReplaceLocked_edit split: prod.split)

lemma FinishLocked_inv: "te_focused e \<Longrightarrow> einv sized e \<Longrightarrow> einv sized (snd (FinishLocked n e))"
  by (auto simp: FinishLocked_def SyncLocked_def PassLocked_def)

lemma ReleaseLocked_inv: "te_focused e \<Longrightarrow> einv sized e \<Longrightarrow> einv sized (snd (ReleaseLocked n e))"
  by (simp add: ReleaseLocked_def release_focus_def Let_def)

text \<open>The grapheme boundaries around the cursor.\<close>

lemma current_facts:
  assumes "te_focused e" "einv sized e" "length (te_text e) < 2 ^ 30" "bounds = ly_bounds (Layout lib (te_text e))"
    and "current = length (takeWhile (\<lambda>b. b < te_cursor e) bounds)"
  shows "current < length bounds" "te_cursor e \<le> bounds ! current"
    "k < length bounds \<Longrightarrow> bnd (te_text e) (bounds ! k)"
    "k < current \<Longrightarrow> bounds ! k < te_cursor e"
    "current \<le> k \<Longrightarrow> k < length bounds \<Longrightarrow> te_cursor e \<le> bounds ! k"
proof -
  note f = focusedD [OF assms(1,2)]
  have v: "ly_valid (Layout lib (te_text e))"
    using f(9) assms(3) dec.units_bounds [of "te_text e"] by (simp add: Layout_valid)
  note b = Layout_bounds [OF v, folded assms(4)]
  have "te_cursor e \<le> last bounds" using b(5) dec.boundary_le [OF f(6)] by simp
  then have "\<exists>x \<in> set bounds. \<not> x < te_cursor e" using b(3) by (auto intro!: bexI [of _ "last bounds"])
  then have "takeWhile (\<lambda>b. b < te_cursor e) bounds \<noteq> bounds" by (auto simp: takeWhile_eq_all_conv)
  then show lt: "current < length bounds"
    unfolding assms(5) by (metis length_takeWhile_le nat_less_le take_all_iff takeWhile_eq_take)
  then show at: "te_cursor e \<le> bounds ! current"
    using nth_length_takeWhile [of "\<lambda>b. b < te_cursor e" bounds] by (simp add: assms(5))
  show "bnd (te_text e) (bounds ! k)" if "k < length bounds" using b(2) that by simp
  show "bounds ! k < te_cursor e" if "k < current"
    using that takeWhile_nth [of k "\<lambda>b. b < te_cursor e" bounds] nth_mem [of k "takeWhile (\<lambda>b. b < te_cursor e) bounds"]
    by (auto simp: assms(5) dest: set_takeWhileD)
  show "te_cursor e \<le> bounds ! k" if "current \<le> k" "k < length bounds"
    using at sorted_nth_mono [OF b(1) that] by simp
qed

text \<open>A typed newline is not checked against the size limit.\<close>

lemma newline_inv:
  assumes "te_focused e" "einv sized e" "sized \<longrightarrow> newline_fits e"
  shows "einv sized (snd (ReplaceLocked lib n (SelectionBeginLocked e) (SelectionEndLocked e) [0x0a] e))"
proof -
  have "ok [0x0a]" by (simp add: utf8_ok.simps dec.ascii_byte)
  then show ?thesis
    using assms selection_bounds [OF assms(1,2)]
    by (intro ReplaceLocked_edit) (auto simp: newline_fits_def size_sub_def)
qed

lemma edit_key_inv:
  assumes "te_focused e" "einv sized e" "\<not> te_comp_active e"
    and "sized \<Longrightarrow> fp_multiline (fs_properties (te_session e)) \<Longrightarrow> sc = SCANCODE_RETURN \<or> sc = SCANCODE_KP_ENTER \<Longrightarrow> newline_fits e"
    and "edit_scancode sc" "length (te_text e) < 2 ^ 30"
  shows "einv sized (snd (edit_key lib n sc shift e))"
proof -
  define bounds where "bounds = ly_bounds (Layout lib (te_text e))"
  define current where "current = length (takeWhile (\<lambda>b. b < te_cursor e) bounds)"
  note f = focusedD [OF assms(1,2)]
  note c = current_facts [OF assms(1,2,6) bounds_def current_def]
  note r = ReplaceLocked_edit [OF assms(1,2), where r = "[]", simplified]
  note m = MoveCursorLocked_inv [OF assms(1-3)] selection_bounds [OF assms(1,2)]
  have bwd: "einv sized (snd (ReplaceLocked lib n (bounds ! (current - 1)) (te_cursor e) [] e))" if "current \<noteq> 0"
    using that c(1) c(3,4) [of "current - 1"] f(6) by (intro r) auto
  have fwd: "einv sized (snd (ReplaceLocked lib n (te_cursor e) (bounds ! (current + 1)) [] e))" if "current + 1 < length bounds"
    using that c(3,5) [of "current + 1"] f(6) by (intro r) auto
  have newline: "einv sized (snd (ReplaceLocked lib n (SelectionBeginLocked e) (SelectionEndLocked e) [0x0a] e))"
    if "sized \<longrightarrow> newline_fits e"
    using newline_inv [OF assms(1,2) that] .
  show ?thesis
    unfolding edit_key_def Let_def bounds_def [symmetric] current_def [symmetric]
    using assms f c(1) c(3) [of "current - 1"] c(3) [of "current + 1"] bwd fwd newline m
      delete_selection_inv [OF assms(1,2)] FinishLocked_inv ReleaseLocked_inv
    by (cases sc) (auto simp: edit_scancode_def)
qed

lemma HandleKey_inv:
  assumes "einv sized e" and "sized \<Longrightarrow> te_focused e \<Longrightarrow> fp_multiline (fs_properties (te_session e)) \<Longrightarrow>
      ke_scancode ev = SCANCODE_RETURN \<or> ke_scancode ev = SCANCODE_KP_ENTER \<Longrightarrow> newline_fits e"
    and "te_focused e \<Longrightarrow> length (te_text e) < 2 ^ 30"
  shows "einv sized (snd (HandleKey lib n ev e))"
proof (cases "te_focused e")
  case True
  have sc: "einv sized (e\<lparr>te_shortcuts := x\<rparr>)" "te_focused (e\<lparr>te_shortcuts := x\<rparr>)" for x
    using True assms by (simp_all add: editor_inv_def editor_parts)
  define e' where "e' = (if is_shortcut lib ev then e\<lparr>te_shortcuts := te_shortcuts e OR ShortcutBit (ke_scancode ev)\<rparr> else e)"
  have e': "te_focused e'" "einv sized e'" "te_comp_active e' = te_comp_active e" "newline_fits e' = newline_fits e"
    "te_session e' = te_session e" "te_text e' = te_text e"
    using sc True assms(1) by (simp_all add: e'_def newline_fits_def editor_parts)
  have edit: "einv sized (snd (edit_key lib n (ke_scancode ev) sh e'))" if "\<not> te_comp_active e" "edit_scancode (ke_scancode ev)" for sh
    using that e' assms(2,3) True by (intro edit_key_inv) auto
  have "ShortcutBit (ke_scancode ev) \<in> {kShortcutSelectAll, kShortcutCopy, kShortcutPaste, kShortcutCut}"
    if "is_shortcut lib ev"
    using that by (auto simp: is_shortcut_def ShortcutBit_def split: SDL_Scancode.splits)
  then show ?thesis
    using True e' sc(1) edit assms(1) SelectAllLocked_inv [of e'] CopySelectionLocked_inv [of e'] PasteLocked_inv [of e']
    unfolding HandleKey_def Let_def e'_def [symmetric] by auto
qed (simp add: HandleKey_def assms(1))

text \<open>The editor after a preedit event, before the native calls.\<close>

lemma preedit_inv:
  assumes "te_focused e" "einv sized e" "bnd (te_text e) b" "bnd (te_text e) e0" "b \<le> e0"
    and "ok t" "length t \<le> size_sub kMaximumTextBytes (length (te_text e) - (e0 - b))"
    and "ok rep" "in_limit sized (length (splice_bytes (te_text e) b e0 rep))"
    and "bnd (splice_bytes (te_text e) b e0 rep) cc" "bnd (splice_bytes (te_text e) b e0 rep) ca" "bnd t k"
    and "e' = e\<lparr>te_comp_cursor := cc, te_comp_anchor := ca, te_comp_replaced := rep,
      te_text := splice_bytes (te_text e) b e0 t, te_comp_begin := b, te_comp_end := b + length t,
      te_comp_active := True, te_cursor := b + k, te_anchor := b + k\<rparr>"
  shows "einv sized (UpdateSelectionSnapshotLocked lib (set_text_bytes e'))"
    "te_focused (UpdateSelectionSnapshotLocked lib (set_text_bytes e'))"
proof -
  note f = focusedD [OF assms(1,2)]
  have le: "e0 \<le> length (te_text e)" using assms(4) by (rule dec.boundary_le)
  note sb = dec.splice_boundary [OF assms(3,4,6)]
  have "bnd (te_text e') (b + k)" "bnd (te_text e') b" "bnd (te_text e') (b + length t)"
    using sb [OF assms(12)] sb [of 0] sb [of "length t"] assms(6) by (simp_all add: assms(13))
  moreover have "in_limit sized (length (te_text e'))"
    using assms(5,7) f(5) le by (auto simp: in_limit_def assms(13) splice_length size_sub_def split: if_splits)
  moreover have "original_text e' = splice_bytes (te_text e) b e0 rep"
    using assms(5) le by (simp add: original_text_def assms(13) splice_splice)
  ultimately have "text_inv sized (iterate lib) e'"
    using assms(8-11) by (simp add: text_inv_def composition_inv_def) (simp add: assms(13))
  moreover have "te_focused e'" "session_inv_ids e'" "echo_inv sized e'"
    using assms(1) f(3,4) by (simp_all add: assms(13) editor_parts)
  ultimately show "einv sized (UpdateSelectionSnapshotLocked lib (set_text_bytes e'))"
    "te_focused (UpdateSelectionSnapshotLocked lib (set_text_bytes e'))"
    by (simp_all add: settle_inv)
qed

lemma cancel_inv:
  assumes "te_focused e" "einv sized e" "te_comp_active e"
    and "e' = e\<lparr>te_text := original_text e, te_comp_begin := x, te_comp_end := y, te_comp_active := False,
      te_cursor := te_comp_cursor e, te_anchor := te_comp_anchor e, te_comp_cursor := 0, te_comp_anchor := 0,
      te_comp_replaced := []\<rparr>"
  shows "einv sized (UpdateSelectionSnapshotLocked lib (set_text_bytes e'))"
    "te_focused (UpdateSelectionSnapshotLocked lib (set_text_bytes e'))"
proof -
  note f = focusedD [OF assms(1,2)]
  have "composition_inv sized (iterate lib) e" using f(1) assms(3) by (simp add: text_inv_def)
  then have "text_inv sized (iterate lib) e'" by (simp add: composition_inv_def text_inv_def assms(4))
  moreover have "te_focused e'" "session_inv_ids e'" "echo_inv sized e'"
    using assms(1) f(3,4) by (simp_all add: assms(4) editor_parts)
  ultimately show "einv sized (UpdateSelectionSnapshotLocked lib (set_text_bytes e'))"
    "te_focused (UpdateSelectionSnapshotLocked lib (set_text_bytes e'))"
    by (simp_all add: settle_inv)
qed

lemma ReplaceCompositionLocked_inv:
  assumes "te_focused e" "einv sized e"
  shows "einv sized (snd (ReplaceCompositionLocked lib n t start e))"
proof -
  note f = focusedD [OF assms]
  note sel = selection_bounds [OF assms]
  define b where "b = (if te_comp_active e then te_comp_begin e else SelectionBeginLocked e)"
  define e0 where "e0 = (if te_comp_active e then te_comp_end e else SelectionEndLocked e)"
  have comp: "composition_inv sized (iterate lib) e" if "te_comp_active e" using f(1) that by (simp add: text_inv_def)
  then have be: "bnd (te_text e) b" "bnd (te_text e) e0" "b \<le> e0"
    using sel by (auto simp: b_def e0_def composition_inv_def)
  define rep where "rep = (if te_comp_active e then te_comp_replaced e else take (e0 - b) (drop b (te_text e)))"
  define cc where "cc = (if te_comp_active e then te_comp_cursor e else te_cursor e)"
  define ca where "ca = (if te_comp_active e then te_comp_anchor e else te_anchor e)"
  have orig: "splice_bytes (te_text e) b e0 rep = (if te_comp_active e then original_text e else te_text e)"
    using be splice_slice [OF be(3) dec.boundary_le [OF be(2)]]
    by (auto simp: rep_def original_text_def b_def e0_def)
  have pre: "ok rep" "in_limit sized (length (splice_bytes (te_text e) b e0 rep))"
    "bnd (splice_bytes (te_text e) b e0 rep) cc" "bnd (splice_bytes (te_text e) b e0 rep) ca"
    using comp f dec.boundary_slice [OF be]
    unfolding orig by (auto simp: rep_def cc_def ca_def composition_inv_def)
  show ?thesis
  proof (cases "t = [] \<and> te_comp_active e")
    case True
    then show ?thesis
      using cancel_inv [OF assms _ refl, where x = "te_comp_begin e" and y = "te_comp_begin e + length (te_comp_replaced e)"] assms
      by (auto simp: ReplaceCompositionLocked_def Let_def original_text_def intro!: dispatch_edit_inv)
  next
    case False
    define e' where "e' = e\<lparr>te_comp_cursor := cc, te_comp_anchor := ca, te_comp_replaced := rep,
      te_text := splice_bytes (te_text e) b e0 t, te_comp_begin := b, te_comp_end := b + length t, te_comp_active := True,
      te_cursor := b + Utf8CharacterByteOffset lib t start, te_anchor := b + Utf8CharacterByteOffset lib t start\<rparr>"
    let ?fits = "ly_valid (Layout lib t) \<and> length t \<le> size_sub kMaximumTextBytes (length (te_text e) - (e0 - b))"
    have run: "ReplaceCompositionLocked lib n t start e =
        (if t = [] then (EditResult True False False Status_Ok, e)
         else if \<not> ?fits then (EditResult True False False
                 (Status_Error kInvalidArgument ''preedit text is invalid UTF-8 or too large''), e)
         else dispatch_edit n id (UpdateSelectionSnapshotLocked lib (set_text_bytes e')))"
      using False
      by (cases e) (auto simp: ReplaceCompositionLocked_def Let_def e'_def b_def e0_def rep_def cc_def ca_def not_le)
    have "einv sized (snd (dispatch_edit n id (UpdateSelectionSnapshotLocked lib (set_text_bytes e'))))" if ?fits
      using that preedit_inv [OF assms be _ _ pre _ e'_def] Layout_validD character_offset_boundary
      by (intro dispatch_edit_inv) auto
    then show ?thesis using run assms by simp
  qed
qed

lemma HandleTextEditing_inv: "einv sized e \<Longrightarrow> einv sized (snd (HandleTextEditing lib n t start e))"
  by (simp add: HandleTextEditing_def ReplaceCompositionLocked_inv)

lemma HandleTextInput_inv:
  assumes "einv sized e"
  shows "einv sized (snd (HandleTextInput lib n t e))"
proof (cases "te_focused e")
  case True
  note f = focusedD [OF True assms]
  have comp: "einv sized (snd (ReplaceLocked lib n (te_comp_begin e) (te_comp_end e) t (e\<lparr>te_comp_active := False, te_comp_replaced := []\<rparr>)))"
    if "te_comp_active e" "ok t" "length t \<le> size_sub kMaximumTextBytes (length (te_text e) - (te_comp_end e - te_comp_begin e))"
  proof -
    have "composition_inv sized (iterate lib) e" using f(1) that(1) by (simp add: text_inv_def)
    then show ?thesis
      using f True that assms
      by (intro ReplaceLocked_edit) (simp_all add: composition_inv_def editor_inv_def editor_parts)
  qed
  show ?thesis
    using True assms comp selection_bounds [OF True assms] Layout_validD
    by (auto simp: HandleTextInput_def Let_def not_le intro!: ReplaceLocked_edit)
qed (simp add: HandleTextInput_def assms)

lemma adopt_text_inv:
  assumes "te_focused e" "einv sized e" "ok t" "length t \<le> kMaximumTextBytes"
  shows "einv sized (adopt_text lib t e)"
  unfolding adopt_text_def publish_inv
  using assms focusedD [OF assms(1,2)]
  by - (rule settle_inv; simp add: editor_parts reset_composition_def in_limit_def)

lemma echo_remove:
  assumes "echo_inv sized e" "t \<in> set (te_echoes e)"
  shows "echo_inv sized (e\<lparr>te_echo_bytes := te_echo_bytes e - length t, te_echoes := remove1 t (te_echoes e)\<rparr>)"
proof -
  have "length t + sum_list (map length (remove1 t (te_echoes e))) = sum_list (map length (te_echoes e))"
    using sum_list_map_remove1 [OF assms(2), of length] by simp
  then show ?thesis
    using assms by (auto simp: echo_inv_def length_remove1 in_limit_def)
qed

lemma ReplaceFocusedTextFromEngine_inv:
  assumes "einv sized e"
  shows "einv sized (snd (ReplaceFocusedTextFromEngine lib g t e))"
proof (cases "te_focused e")
  case True
  note f = focusedD [OF True assms]
  have "einv sized (e\<lparr>te_echoes := [], te_echo_bytes := 0\<rparr>)" "te_focused (e\<lparr>te_echoes := [], te_echo_bytes := 0\<rparr>)"
    using True assms by (simp_all add: editor_inv_def editor_parts)
  then have "einv sized (adopt_text lib [] (ClearPendingNativeEchoesLocked e))"
    by (simp add: adopt_text_inv ClearPendingNativeEchoesLocked_def)
  moreover have "einv sized (e\<lparr>te_echo_bytes := te_echo_bytes e - length t, te_echoes := remove1 t (te_echoes e)\<rparr>)"
    if "t \<in> set (te_echoes e)"
    using echo_remove [OF f(4) that] True assms
    by (simp add: editor_inv_def) (simp add: editor_parts)
  ultimately show ?thesis
    using True assms adopt_text_inv [OF True assms] Layout_validD
    by (auto simp: ReplaceFocusedTextFromEngine_def ConsumePendingNativeEchoLocked_def)
qed (simp add: ReplaceFocusedTextFromEngine_def assms)

lemma UpdateFocusProperties_inv:
  assumes "einv sized e"
  shows "einv sized (snd (UpdateFocusProperties g p e))"
proof (cases "te_focused e")
  case True
  let ?e = "e\<lparr>te_session := (te_session e)\<lparr>fs_properties := p\<rparr>\<rparr>"
  note f = focusedD [OF True assms]
  have "te_focused ?e" "text_inv sized (iterate lib) ?e" "snapshot_inv (iterate lib) ?e" "session_inv_ids ?e" "echo_inv sized ?e"
    using True f(1-4) by (simp_all add: editor_parts)
  then have "einv sized ?e" by (simp add: editor_inv_def)
  then show ?thesis using assms by (simp add: UpdateFocusProperties_def)
qed (simp add: UpdateFocusProperties_def assms)

lemma EndFocusSession_inv: "einv sized e \<Longrightarrow> einv sized (snd (EndFocusSession n h g notify e))"
  by (auto simp: EndFocusSession_def Let_def)

lemma BeginFocusSession_inv:
  assumes "einv sized e"
  shows "einv sized (snd (BeginFocusSession lib session e))"
proof -
  define e1 where "e1 = (if te_focused e then ClearLocked e else e)"
  have e1: "cleared e1" using assms by (auto simp: e1_def ClearLocked_cleared editor_inv_def)
  have sink: "te_sink e1 = te_sink e"
    by (simp add: e1_def ClearLocked_def Let_def reset_composition_def ClearPendingNativeEchoesLocked_def
        PublishDisplayLocked_def log_call_def)
  define t where "t = fs_initial_text session"
  define e2 where "e2 = e1\<lparr>te_text := t, te_session := session\<lparr>fs_initial_text := []\<rparr>, te_cursor := length t,
      te_anchor := length t, te_comp_begin := 0, te_comp_end := 0, te_comp_cursor := 0, te_comp_anchor := 0,
      te_comp_replaced := [], te_comp_active := False, te_shortcuts := 0,
      te_snapshot := (te_snapshot e1)\<lparr>ts_focused := True, ts_textbox_handle := fs_textbox_handle session,
        ts_generation := fs_generation session, ts_text_bytes := length t\<rparr>\<rparr>"
  have "einv sized (UpdateSelectionSnapshotLocked lib e2)"
    if "fs_textbox_handle session \<noteq> 0" "fs_generation session \<noteq> 0" "length t \<le> kMaximumTextBytes"
      "ok t" "sink_complete (te_sink e)"
  proof (rule update_inv(1))
    show "text_inv sized (iterate lib) e2" using that by (simp add: e2_def text_inv_def in_limit_def)
    show "session_inv_ids e2" using that by (simp add: e2_def session_inv_ids_def sink)
    show "echo_inv sized e2" using e1 by (simp add: e2_def echo_inv_def cleared_def)
  qed (simp_all add: e2_def te_focused_def)
  then show ?thesis
    using assms Layout_validD [of t]
    unfolding BeginFocusSession_def Let_def e1_def [symmetric] t_def [symmetric]
    by (simp add: e2_def reset_composition_def t_def not_less)
qed

lemma text_step_inv:
  assumes "einv sized e" "sized \<longrightarrow> step_fits e (n, x)" "text_small e (n, x)"
  shows "einv sized (text_step lib e (n, x))"
proof (cases x)
  case (Key ev)
  then show ?thesis using assms by (auto simp: step_fits_def text_small_def intro!: HandleKey_inv)
qed (use assms in \<open>simp_all add: BeginFocusSession_inv EndFocusSession_inv ReplaceFocusedTextFromEngine_inv
    UpdateFocusProperties_inv HandleTextInput_inv HandleTextEditing_inv\<close>)

lemma new_editor_inv: "einv sized (RobloxTextEditor_new sink d c)"
  by (simp add: RobloxTextEditor_new_def editor_inv_def editor_parts)

text \<open>A text within the limit is small.\<close>

lemma limited_small: "einv True e \<Longrightarrow> text_small e step"
  by (cases "te_focused e") (auto simp: editor_inv_def text_inv_def cleared_def text_small_def in_limit_def kMaximumTextBytes_def)

end

sublocale text_library \<subseteq> any_text: contracted_component "text_step lib" text_small "editor_inv False (iterate lib)"
  by unfold_locales (auto intro: text_step_inv)

sublocale text_library \<subseteq> limited_text: contracted_component "text_step lib" step_fits "editor_inv True (iterate lib)"
  by unfold_locales (auto intro: text_step_inv limited_small)

context text_library
begin

lemmas small_run = any_text.run_invar [OF new_editor_inv]
lemmas limited_run = limited_text.run_invar [OF new_editor_inv]

end

section \<open>Composition\<close>

definition native_ok :: "TextNative \<Rightarrow> bool" where
  "native_ok n \<longleftrightarrow> status_ok (n_sync n) \<and> status_ok (n_pass n)"

text \<open>The editor shows \<open>e0\<close>, or a composition over it.\<close>

definition composing_over :: "RobloxTextEditor \<Rightarrow> RobloxTextEditor \<Rightarrow> bool" where
  "composing_over e0 e \<longleftrightarrow>
     te_focused e \<and>
     (if te_comp_active e
      then original_text e = te_text e0 \<and> te_comp_cursor e = te_cursor e0 \<and> te_comp_anchor e = te_anchor e0
      else te_text e = te_text e0 \<and> te_cursor e = te_cursor e0 \<and> te_anchor e = te_anchor e0)"

lemma publish_fields [step_simps]:
  "te_text (PublishDisplayLocked ev e) = te_text e"
  "te_cursor (PublishDisplayLocked ev e) = te_cursor e"
  "te_anchor (PublishDisplayLocked ev e) = te_anchor e"
  "te_comp_begin (PublishDisplayLocked ev e) = te_comp_begin e"
  "te_comp_end (PublishDisplayLocked ev e) = te_comp_end e"
  "te_comp_cursor (PublishDisplayLocked ev e) = te_comp_cursor e"
  "te_comp_anchor (PublishDisplayLocked ev e) = te_comp_anchor e"
  "te_comp_replaced (PublishDisplayLocked ev e) = te_comp_replaced e"
  "te_comp_active (PublishDisplayLocked ev e) = te_comp_active e"
  "te_session (PublishDisplayLocked ev e) = te_session e"
  "te_focused (PublishDisplayLocked ev e) = te_focused e"
  "te_clipboard (PublishDisplayLocked ev e) = te_clipboard e"
  by (simp_all add: PublishDisplayLocked_def log_call_def te_focused_def split: prod.split)

lemma remember_fields [step_simps]:
  "te_text (RememberPendingNativeEchoLocked e) = te_text e"
  "te_cursor (RememberPendingNativeEchoLocked e) = te_cursor e"
  "te_anchor (RememberPendingNativeEchoLocked e) = te_anchor e"
  "te_comp_begin (RememberPendingNativeEchoLocked e) = te_comp_begin e"
  "te_comp_end (RememberPendingNativeEchoLocked e) = te_comp_end e"
  "te_comp_cursor (RememberPendingNativeEchoLocked e) = te_comp_cursor e"
  "te_comp_anchor (RememberPendingNativeEchoLocked e) = te_comp_anchor e"
  "te_comp_replaced (RememberPendingNativeEchoLocked e) = te_comp_replaced e"
  "te_comp_active (RememberPendingNativeEchoLocked e) = te_comp_active e"
  "te_session (RememberPendingNativeEchoLocked e) = te_session e"
  "te_focused (RememberPendingNativeEchoLocked e) = te_focused e"
  "te_clipboard (RememberPendingNativeEchoLocked e) = te_clipboard e"
  by (simp_all add: RememberPendingNativeEchoLocked_def te_focused_def split: prod.split)

lemma log_call_fields [step_simps]:
  "te_text (log_call c e) = te_text e"
  "te_cursor (log_call c e) = te_cursor e"
  "te_anchor (log_call c e) = te_anchor e"
  "te_comp_begin (log_call c e) = te_comp_begin e"
  "te_comp_end (log_call c e) = te_comp_end e"
  "te_comp_cursor (log_call c e) = te_comp_cursor e"
  "te_comp_anchor (log_call c e) = te_comp_anchor e"
  "te_comp_replaced (log_call c e) = te_comp_replaced e"
  "te_comp_active (log_call c e) = te_comp_active e"
  "te_session (log_call c e) = te_session e"
  "te_focused (log_call c e) = te_focused e"
  "te_clipboard (log_call c e) = te_clipboard e"
  by (simp_all add: log_call_def te_focused_def split: prod.split)

lemma count_edit_fields [step_simps]:
  "te_text (count_edit e) = te_text e"
  "te_cursor (count_edit e) = te_cursor e"
  "te_anchor (count_edit e) = te_anchor e"
  "te_comp_begin (count_edit e) = te_comp_begin e"
  "te_comp_end (count_edit e) = te_comp_end e"
  "te_comp_cursor (count_edit e) = te_comp_cursor e"
  "te_comp_anchor (count_edit e) = te_comp_anchor e"
  "te_comp_replaced (count_edit e) = te_comp_replaced e"
  "te_comp_active (count_edit e) = te_comp_active e"
  "te_session (count_edit e) = te_session e"
  "te_focused (count_edit e) = te_focused e"
  "te_clipboard (count_edit e) = te_clipboard e"
  by (simp_all add: count_edit_def te_focused_def split: prod.split)

lemma settle_fields [step_simps]:
  "te_text (UpdateSelectionSnapshotLocked lib (set_text_bytes e)) = te_text e"
  "te_cursor (UpdateSelectionSnapshotLocked lib (set_text_bytes e)) = te_cursor e"
  "te_anchor (UpdateSelectionSnapshotLocked lib (set_text_bytes e)) = te_anchor e"
  "te_comp_begin (UpdateSelectionSnapshotLocked lib (set_text_bytes e)) = te_comp_begin e"
  "te_comp_end (UpdateSelectionSnapshotLocked lib (set_text_bytes e)) = te_comp_end e"
  "te_comp_cursor (UpdateSelectionSnapshotLocked lib (set_text_bytes e)) = te_comp_cursor e"
  "te_comp_anchor (UpdateSelectionSnapshotLocked lib (set_text_bytes e)) = te_comp_anchor e"
  "te_comp_replaced (UpdateSelectionSnapshotLocked lib (set_text_bytes e)) = te_comp_replaced e"
  "te_comp_active (UpdateSelectionSnapshotLocked lib (set_text_bytes e)) = te_comp_active e"
  "te_session (UpdateSelectionSnapshotLocked lib (set_text_bytes e)) = te_session e"
  "te_focused (UpdateSelectionSnapshotLocked lib (set_text_bytes e)) = te_focused e"
  "te_clipboard (UpdateSelectionSnapshotLocked lib (set_text_bytes e)) = te_clipboard e"
  by (simp_all add: UpdateSelectionSnapshotLocked_def set_text_bytes_def te_focused_def split: prod.split)

lemma dispatch_edit_fields:
  assumes "native_ok n" "f = id \<or> f = count_edit"
  shows "te_text (snd (dispatch_edit n f e)) = te_text e"
    "te_cursor (snd (dispatch_edit n f e)) = te_cursor e"
    "te_anchor (snd (dispatch_edit n f e)) = te_anchor e"
    "te_comp_begin (snd (dispatch_edit n f e)) = te_comp_begin e"
    "te_comp_end (snd (dispatch_edit n f e)) = te_comp_end e"
    "te_comp_cursor (snd (dispatch_edit n f e)) = te_comp_cursor e"
    "te_comp_anchor (snd (dispatch_edit n f e)) = te_comp_anchor e"
    "te_comp_replaced (snd (dispatch_edit n f e)) = te_comp_replaced e"
    "te_comp_active (snd (dispatch_edit n f e)) = te_comp_active e"
    "te_session (snd (dispatch_edit n f e)) = te_session e"
    "te_focused (snd (dispatch_edit n f e)) = te_focused e"
    "te_clipboard (snd (dispatch_edit n f e)) = te_clipboard e"
  using assms by (auto simp: dispatch_edit_def SyncLocked_def PassLocked_def native_ok_def Let_def step_simps)


lemma focused_updates [step_simps]:
  "te_focused (e\<lparr>te_text := x0\<rparr>) = te_focused e"
  "te_focused (e\<lparr>te_cursor := x1\<rparr>) = te_focused e"
  "te_focused (e\<lparr>te_anchor := x2\<rparr>) = te_focused e"
  "te_focused (e\<lparr>te_comp_begin := x3\<rparr>) = te_focused e"
  "te_focused (e\<lparr>te_comp_end := x4\<rparr>) = te_focused e"
  "te_focused (e\<lparr>te_comp_cursor := x5\<rparr>) = te_focused e"
  "te_focused (e\<lparr>te_comp_anchor := x6\<rparr>) = te_focused e"
  "te_focused (e\<lparr>te_comp_replaced := x7\<rparr>) = te_focused e"
  "te_focused (e\<lparr>te_comp_active := x8\<rparr>) = te_focused e"
  "te_focused (e\<lparr>te_echoes := x9\<rparr>) = te_focused e"
  "te_focused (e\<lparr>te_echo_bytes := x10\<rparr>) = te_focused e"
  "te_focused (e\<lparr>te_shortcuts := x11\<rparr>) = te_focused e"
  by (simp_all add: te_focused_def)

lemma preedit_composes:
  assumes "composing_over e0 e" "native_ok n"
    and "te_comp_active e \<Longrightarrow> te_comp_begin e \<le> te_comp_end e \<and> te_comp_end e \<le> length (te_text e)"
    and "te_cursor e \<le> length (te_text e)" "te_anchor e \<le> length (te_text e)"
  shows "composing_over e0 (snd (HandleTextEditing lib n t start e))"
proof -
  define b where "b = (if te_comp_active e then te_comp_begin e else SelectionBeginLocked e)"
  define x where "x = (if te_comp_active e then te_comp_end e else SelectionEndLocked e)"
  have "b \<le> x" "x \<le> length (te_text e)" using assms(3-5)
    by (auto simp: b_def x_def SelectionBeginLocked_def SelectionEndLocked_def)
  then have "splice_bytes (splice_bytes (te_text e) b x t) b (b + length t) r = splice_bytes (te_text e) b x r"
    "splice_bytes (te_text e) b x (take (x - b) (drop b (te_text e))) = te_text e" for r
    by (simp_all add: splice_splice splice_slice)
  then show ?thesis
    using assms(1,2)
    by (auto simp: HandleTextEditing_def ReplaceCompositionLocked_def Let_def composing_over_def original_text_def
        dispatch_edit_fields step_simps b_def x_def)
qed


context text_library
begin

lemma composition_run:
  assumes "einv sized e" "composing_over e0 e" "list_all (\<lambda>(n, t, start). native_ok n) evs"
  shows "einv sized (run_ops (text_step lib) e (map (\<lambda>(n, t, start). (n, TextEditing t start)) evs)) \<and>
    composing_over e0 (run_ops (text_step lib) e (map (\<lambda>(n, t, start). (n, TextEditing t start)) evs))"
  using assms
proof (induction evs arbitrary: e)
  case (Cons ev evs)
  obtain n t start where ev: "ev = (n, t, start)" by (cases ev)
  have "te_focused e" using Cons.prems by (simp add: composing_over_def)
  note f = focusedD [OF this Cons.prems(1)]
  have "composing_over e0 (snd (HandleTextEditing lib n t start e))"
    using Cons.prems f(1,6,7) dec.boundary_le
    by (intro preedit_composes) (auto simp: ev text_inv_def composition_inv_def)
  then show ?case
    using Cons.IH Cons.prems HandleTextEditing_inv by (simp add: ev)
qed simp

end

lemma cancel_restores:
  assumes "composing_over e0 e" "native_ok n" "e' = snd (HandleTextEditing lib n [] start e)"
  shows "te_focused e' \<and> \<not> te_comp_active e' \<and> te_text e' = te_text e0 \<and> te_cursor e' = te_cursor e0 \<and>
    te_anchor e' = te_anchor e0"
  using assms(1,2) unfolding assms(3)
  by (auto simp: HandleTextEditing_def ReplaceCompositionLocked_def Let_def composing_over_def original_text_def
      dispatch_edit_fields step_simps Layout_def layout_loop.simps [of _ _ _ _ _ _ _ "[]"])


section \<open>Native calls\<close>

fun is_clipboard_write :: "TextCall \<Rightarrow> bool" where
  "is_clipboard_write (CClipboardWrite t) = True"
| "is_clipboard_write _ = False"

fun is_display :: "TextCall \<Rightarrow> bool" where
  "is_display (CDisplay u) = True"
| "is_display _ = False"

definition clipboard_writes :: "RobloxTextEditor \<Rightarrow> TextCall list" where
  "clipboard_writes e = filter is_clipboard_write (te_log e)"

definition engine_calls :: "RobloxTextEditor \<Rightarrow> TextCall list" where
  "engine_calls e = filter (\<lambda>c. \<not> is_display c) (te_log e)"

named_theorems clip_simps \<open>steps that write nothing to the clipboard\<close>

lemma clip_elementary [clip_simps]:
  "\<not> is_clipboard_write c \<Longrightarrow> clipboard_writes (log_call c e) = clipboard_writes e"
  "clipboard_writes (PublishDisplayLocked ev e) = clipboard_writes e"
  "clipboard_writes (RememberPendingNativeEchoLocked e) = clipboard_writes e"
  "clipboard_writes (UpdateSelectionSnapshotLocked lib e) = clipboard_writes e"
  "clipboard_writes (count_edit e) = clipboard_writes e" "clipboard_writes (count_native_error e) = clipboard_writes e"
  "clipboard_writes (reset_composition e) = clipboard_writes e" "clipboard_writes (set_text_bytes e) = clipboard_writes e"
  "clipboard_writes (release_focus e) = clipboard_writes e"
  "clipboard_writes (ClearPendingNativeEchoesLocked e) = clipboard_writes e"
  by (simp_all add: clipboard_writes_def log_call_def PublishDisplayLocked_def RememberPendingNativeEchoLocked_def
      UpdateSelectionSnapshotLocked_def count_edit_def count_native_error_def reset_composition_def set_text_bytes_def
      release_focus_def ClearPendingNativeEchoesLocked_def split: prod.split)

lemma clip_updates [clip_simps]:
  "clipboard_writes (e\<lparr>te_text := x1\<rparr>) = clipboard_writes e" "clipboard_writes (e\<lparr>te_cursor := x2\<rparr>) = clipboard_writes e"
  "clipboard_writes (e\<lparr>te_anchor := x2\<rparr>) = clipboard_writes e" "clipboard_writes (e\<lparr>te_session := x3\<rparr>) = clipboard_writes e"
  "clipboard_writes (e\<lparr>te_shortcuts := x4\<rparr>) = clipboard_writes e" "clipboard_writes (e\<lparr>te_snapshot := x5\<rparr>) = clipboard_writes e"
  "clipboard_writes (e\<lparr>te_comp_active := x6\<rparr>) = clipboard_writes e" "clipboard_writes (e\<lparr>te_comp_replaced := x1\<rparr>) = clipboard_writes e"
  "clipboard_writes (e\<lparr>te_comp_begin := x2\<rparr>) = clipboard_writes e" "clipboard_writes (e\<lparr>te_comp_end := x2\<rparr>) = clipboard_writes e"
  "clipboard_writes (e\<lparr>te_comp_cursor := x2\<rparr>) = clipboard_writes e" "clipboard_writes (e\<lparr>te_comp_anchor := x2\<rparr>) = clipboard_writes e"
  "clipboard_writes (e\<lparr>te_echoes := x7\<rparr>) = clipboard_writes e" "clipboard_writes (e\<lparr>te_echo_bytes := x2\<rparr>) = clipboard_writes e"
  by (simp_all add: clipboard_writes_def)

lemma clip_clear [clip_simps]:
  "clipboard_writes (ClearLocked e) = clipboard_writes e" "clipboard_writes (abandon_session e) = clipboard_writes e"
  by (simp_all add: ClearLocked_def abandon_session_def Let_def clip_simps)

lemma clip_dispatch [clip_simps]:
  "clipboard_writes (snd (dispatch_edit n id e)) = clipboard_writes e"
  "clipboard_writes (snd (dispatch_edit n count_edit e)) = clipboard_writes e"
  "clipboard_writes (snd (dispatch_move n e)) = clipboard_writes e"
  by (simp_all add: dispatch_edit_def dispatch_move_def SyncLocked_def PassLocked_def Let_def clip_simps)

lemma clip_edits [clip_simps]:
  "clipboard_writes (snd (ReplaceLocked lib n b x r e)) = clipboard_writes e"
  "clipboard_writes (snd (ReplaceCompositionLocked lib n t start e)) = clipboard_writes e"
  "clipboard_writes (snd (MoveCursorLocked lib n k ext e)) = clipboard_writes e"
  "clipboard_writes (snd (SelectAllLocked lib n e)) = clipboard_writes e"
  "clipboard_writes (snd (PasteLocked lib n e)) = clipboard_writes e"
  "clipboard_writes (snd (FinishLocked n e)) = clipboard_writes e"
  "clipboard_writes (snd (ReleaseLocked n e)) = clipboard_writes e"
  "clipboard_writes (adopt_text lib t e) = clipboard_writes e"
  by (simp_all add: ReplaceLocked_def ReplaceCompositionLocked_def MoveCursorLocked_def SelectAllLocked_def
      PasteLocked_def FinishLocked_def ReleaseLocked_def adopt_text_def SyncLocked_def PassLocked_def Let_def
      clip_simps split: prod.split)

lemma clip_keys [clip_simps]:
  "clipboard_writes (snd (edit_key lib n sc sh e)) = clipboard_writes e"
  "IsPasswordInputType (fp_text_input_type (fs_properties (te_session e))) \<Longrightarrow>
    clipboard_writes (snd (CopySelectionLocked lib n ct e)) = clipboard_writes e"
  by (simp_all add: edit_key_def CopySelectionLocked_def Let_def clip_simps)

lemma engine_calls_dispatch:
  assumes "native_ok n" "f = id \<or> f = count_edit"
  shows "engine_calls (snd (dispatch_edit n f e)) = engine_calls e @
     [CSync (te_text e) (ts_cursor_utf16 (te_snapshot e)),
      CPass (fs_textbox_handle (te_session e)) (te_text e) False (ts_cursor_utf16 (te_snapshot e))]"
    "ts_cursor_utf16 (te_snapshot (snd (dispatch_edit n f e))) = ts_cursor_utf16 (te_snapshot e)"
    "er_dispatched (fst (dispatch_edit n f e))"
  using assms
  by (auto simp: dispatch_edit_def SyncLocked_def PassLocked_def native_ok_def Let_def engine_calls_def EditResult_def
      PublishDisplayLocked_def log_call_def RememberPendingNativeEchoLocked_def count_edit_def split: prod.split)


section \<open>Properties\<close>

text \<open>
  C28. Whatever sequence of operations the editor performs, as long as its text stays below 1 GiB: while a text
  box is focused its text is valid UTF-8, cursor, selection and composition lie between characters, the UTF-16
  positions reported to the engine are those of the byte offsets, and the echo queue is bounded; without a
  focused text box nothing of a text is retained. If moreover no newline was typed into a full multi-line text
  (the one insertion the code does not check), the text, the text under a composition and the queued echoes are
  within the size limit.
\<close>

theorem editor_text_well_formed:
  assumes "utf8_decoder (iterate lib)"
    and "e = run_ops (text_step lib) (RobloxTextEditor_new sink display clipboard) ops"
  shows "(admitted (text_step lib) text_small (RobloxTextEditor_new sink display clipboard) ops \<longrightarrow>
      editor_inv False (iterate lib) e) \<and>
    (admitted (text_step lib) step_fits (RobloxTextEditor_new sink display clipboard) ops \<longrightarrow>
      editor_inv True (iterate lib) e)"
proof -
  note lib = text_library.intro [OF assms(1)]
  show ?thesis
    using text_library.small_run [OF lib] text_library.limited_run [OF lib] unfolding assms(2) by blast
qed

definition full_sink :: RobloxTextSink where
  "full_sink = \<lparr>sk_sync = True, sk_pass_text = True, sk_return_pressed = True, sk_release_focus = True\<rparr>"

definition all_ok :: TextNative where
  "all_ok = \<lparr>n_sync = Status_Ok, n_pass = Status_Ok, n_return = Status_Ok, n_release = Status_Ok,
     n_clip_write = Status_Ok, n_clip_read = (Status_Ok, [])\<rparr>"

definition sample_session :: "bytes \<Rightarrow> RobloxTextFocusSession" where
  "sample_session t = RobloxTextFocusSession_default\<lparr>fs_textbox_handle := 7, fs_generation := 1, fs_initial_text := t\<rparr>"

definition focus_sample :: "(TextNative \<times> TextOp) list" where
  "focus_sample = [(all_ok, BeginFocus (sample_session [0x61, 0x62]))]"

definition sample_editor :: RobloxTextEditor where
  "sample_editor = run_ops (text_step strict_lib) (RobloxTextEditor_new full_sink True True) focus_sample"

lemma sample_inv: "editor_inv True (iterate strict_lib) sample_editor"
proof -
  note lib = text_library.intro [OF strict_lib_decoder]
  have "admitted (text_step strict_lib) step_fits (RobloxTextEditor_new full_sink True True) focus_sample"
    by (simp add: focus_sample_def step_fits_def)
  then show ?thesis
    unfolding sample_editor_def by (rule text_library.limited_run [OF lib])
qed

lemma sample_state:
  "te_focused sample_editor" "\<not> te_comp_active sample_editor" "te_text sample_editor = [0x61, 0x62]"
  "te_cursor sample_editor = 2" "te_anchor sample_editor = 2"
  by code_simp+

theorem editor_text_well_formed_witness:
  "let ops = focus_sample @ [(all_ok, TextInput [0xc3, 0xa9])];
       e = run_ops (text_step strict_lib) (RobloxTextEditor_new full_sink True True) ops
   in editor_inv True utf8_head e \<and> editor_inv False utf8_head e \<and> te_text e = [0x61, 0x62, 0xc3, 0xa9]"
proof -
  let ?new = "RobloxTextEditor_new full_sink True True"
  let ?ops = "focus_sample @ [(all_ok, TextInput [0xc3, 0xa9])]"
  have a: "admitted (text_step strict_lib) step_fits ?new ?ops" by (simp add: focus_sample_def step_fits_def)
  have b: "admitted (text_step strict_lib) text_small ?new ?ops"
    using sample_state(3) unfolding sample_editor_def
    by (simp add: admitted_append text_small_def) (simp add: focus_sample_def text_small_def RobloxTextEditor_new_def)
  have c: "te_text (run_ops (text_step strict_lib) ?new ?ops) = [0x61, 0x62, 0xc3, 0xa9]" by code_simp
  have "iterate strict_lib = utf8_head" by (simp add: strict_lib_def)
  then show ?thesis using a b c editor_text_well_formed [OF strict_lib_decoder refl, of full_sink True True ?ops]
    unfolding Let_def by simp
qed

text \<open>
  Cancelling a composition restores the editor: whatever preedit texts the input method
  showed, the event that cancels the composition brings back the text, the cursor and the
  selection of the moment it began.
\<close>

theorem composition_cancel_restores:
  assumes "utf8_decoder (iterate lib)" and "editor_inv sized (iterate lib) e"
    and "te_focused e" and "\<not> te_comp_active e"
    and "list_all (\<lambda>(n, t, start). native_ok n) evs" and "native_ok n"
    and "e' = text_step lib (run_ops (text_step lib) e (map (\<lambda>(n, t, start). (n, TextEditing t start)) evs))
      (n, TextEditing [] start)"
  shows "te_focused e' \<and> \<not> te_comp_active e' \<and> te_text e' = te_text e \<and> te_cursor e' = te_cursor e \<and>
    te_anchor e' = te_anchor e"
proof -
  have lib: "text_library lib" using assms(1) by (rule text_library.intro)
  have "composing_over e e" using assms(3,4) by (simp add: composing_over_def)
  then have "composing_over e (run_ops (text_step lib) e (map (\<lambda>(n, t, start). (n, TextEditing t start)) evs))"
    using text_library.composition_run [OF lib assms(2) _ assms(5)] by blast
  then show ?thesis
    by (rule cancel_restores [OF _ assms(6), where lib = lib and start = start]) (simp only: assms(7) text_step.simps)
qed

theorem composition_cancel_restores_witness:
  "te_text (run_ops (text_step strict_lib) sample_editor [(all_ok, TextEditing [0xe3, 0x81, 0x8b] 1)]) =
     [0x61, 0x62, 0xe3, 0x81, 0x8b] \<and>
   te_text (text_step strict_lib (run_ops (text_step strict_lib) sample_editor
     [(all_ok, TextEditing [0xe3, 0x81, 0x8b] 1)]) (all_ok, TextEditing [] 0)) = [0x61, 0x62]"
proof
  show "te_text (run_ops (text_step strict_lib) sample_editor [(all_ok, TextEditing [0xe3, 0x81, 0x8b] 1)]) =
     [0x61, 0x62, 0xe3, 0x81, 0x8b]" by code_simp
  have "native_ok all_ok" by code_simp
  then show "te_text (text_step strict_lib (run_ops (text_step strict_lib) sample_editor
     [(all_ok, TextEditing [0xe3, 0x81, 0x8b] 1)]) (all_ok, TextEditing [] 0)) = [0x61, 0x62]"
    using composition_cancel_restores [OF strict_lib_decoder sample_inv sample_state(1,2),
        of "[(all_ok, [0xe3, 0x81, 0x8b], 1)]" all_ok _ 0, OF _ _ refl] sample_state(3)
    by simp
qed

text \<open>
  C30. The text of a password box never reaches the clipboard: while the focused box has a
  password input type, no operation writes to the clipboard.
\<close>

theorem password_never_copied:
  assumes "IsPasswordInputType (fp_text_input_type (fs_properties (te_session e)))"
  shows "clipboard_writes (text_step lib e (n, x)) = clipboard_writes e"
proof -
  have clear: "clipboard_writes (if te_focused e then ClearLocked e else e) = clipboard_writes e"
    by (simp add: clip_simps)
  have key: "clipboard_writes (snd (HandleKey lib n ev e)) = clipboard_writes e" for ev
  proof -
    define e' where "e' = (if is_shortcut lib ev then e\<lparr>te_shortcuts := te_shortcuts e OR ShortcutBit (ke_scancode ev)\<rparr> else e)"
    have "IsPasswordInputType (fp_text_input_type (fs_properties (te_session e')))" "clipboard_writes e' = clipboard_writes e"
      using assms by (simp_all add: e'_def clip_simps)
    then show ?thesis
      unfolding HandleKey_def Let_def e'_def [symmetric] by (simp add: clip_simps)
  qed
  show ?thesis
  proof (cases x)
    case (BeginFocus session)
    then show ?thesis using clear by (simp add: BeginFocusSession_def Let_def clip_simps)
  next
    case (EngineText g t)
    then show ?thesis
      by (simp add: ReplaceFocusedTextFromEngine_def ConsumePendingNativeEchoLocked_def clip_simps)
  qed (simp_all add: key EndFocusSession_def UpdateFocusProperties_def HandleTextInput_def HandleTextEditing_def
      Let_def clip_simps)
qed

theorem password_never_copied_witness:
  "let e = sample_editor\<lparr>te_session := (sample_session [])\<lparr>fs_properties :=
         RobloxTextFocusProperties_default\<lparr>fp_text_input_type := 5\<rparr>\<rparr>, te_anchor := 0\<rparr>;
       copy = \<lparr>ke_pressed = True, ke_scancode = SCANCODE_C, ke_modifiers = 0x40\<rparr>
   in HasSelectionLocked e \<and> clipboard_writes (text_step strict_lib e (all_ok, Key copy)) = clipboard_writes e"
  unfolding Let_def
  by (intro conjI password_never_copied) code_simp+

text \<open>
  A committed text replaces the selection: when it is valid and fits and the native calls
  succeed, the text is spliced in, the cursor stands after it, and the engine receives exactly one
  sync and one pass with the new text and the cursor in UTF-16 units.
\<close>

theorem text_input_commits:
  assumes "utf8_decoder (iterate lib)" and "editor_inv sized (iterate lib) e"
    and "te_focused e" and "\<not> te_comp_active e" and "t \<noteq> []" and "utf8_ok (iterate lib) t"
    and "length (te_text e) - (SelectionEndLocked e - SelectionBeginLocked e) + length t \<le> kMaximumTextBytes"
    and "native_ok n" and "HandleTextInput lib n t e = (r, e')"
    and "new = take (SelectionBeginLocked e) (te_text e) @ t @ drop (SelectionEndLocked e) (te_text e)"
    and "pos = utf16_units (iterate lib) (take (SelectionBeginLocked e) (te_text e)) + utf16_units (iterate lib) t"
  shows "er_dispatched r \<and> te_text e' = new \<and> te_cursor e' = SelectionBeginLocked e + length t \<and>
    te_anchor e' = te_cursor e' \<and>
    engine_calls e' = engine_calls e @ [CSync new pos, CPass (fs_textbox_handle (te_session e)) new False pos]"
proof -
  have lib: "text_library lib" using assms(1) by (rule text_library.intro)
  note inv = assms(2)
  note sel = text_library.selection_bounds [OF lib assms(3) inv]
  have valid: "ly_valid (Layout lib t)"
    using assms(6,7) by (simp add: text_library.Layout_valid_bounded [OF lib])
  have fits: "length t \<le> size_sub kMaximumTextBytes (length (te_text e) - (SelectionEndLocked e - SelectionBeginLocked e))"
    using assms(7) by (simp add: size_sub_def)
  define e1 where "e1 = UpdateSelectionSnapshotLocked lib (set_text_bytes (reset_composition
    (e\<lparr>te_text := new, te_cursor := SelectionBeginLocked e + length t, te_anchor := SelectionBeginLocked e + length t\<rparr>)))"
  have run: "(r, e') = dispatch_edit n count_edit e1"
    using assms(3-5,9,10) valid fits
    by (simp add: HandleTextInput_def Let_def ReplaceLocked_def e1_def splice_bytes_def)
  have okb: "utf8_ok (iterate lib) (take (SelectionBeginLocked e) (te_text e))"
    using sel(1) by (simp add: boundary_def)
  have le: "SelectionBeginLocked e \<le> length (te_text e)" using sel(1) by (simp add: boundary_def)
  have "ts_cursor_utf16 (te_snapshot e1) = Utf16Cursor lib new (SelectionBeginLocked e + length t)"
    by (simp add: e1_def UpdateSelectionSnapshotLocked_def set_text_bytes_def reset_composition_def)
  also have "\<dots> = utf16_units (iterate lib) (take (SelectionBeginLocked e) (te_text e) @ t)"
    using le okb assms(6)
    by (simp add: Utf16Cursor_def assms(10) text_library.utf16_loop_units [OF lib] utf8_decoder.ok_append [OF assms(1)])
  also have "\<dots> = pos" using okb by (simp add: assms(11) utf8_decoder.units_append [OF assms(1)])
  finally have pos: "ts_cursor_utf16 (te_snapshot e1) = pos" .
  have e1: "te_text e1 = new" "te_cursor e1 = SelectionBeginLocked e + length t" "te_anchor e1 = te_cursor e1"
    "te_session e1 = te_session e" "engine_calls e1 = engine_calls e"
    by (simp_all add: e1_def UpdateSelectionSnapshotLocked_def set_text_bytes_def reset_composition_def engine_calls_def)
  show ?thesis
    using dispatch_edit_fields(1-3) [OF assms(8), of count_edit e1] engine_calls_dispatch [OF assms(8), of count_edit e1]
      e1 pos run by (metis fst_conv snd_conv)
qed


theorem text_input_commits_witness:
  "engine_calls (snd (HandleTextInput strict_lib all_ok [0xc3, 0xa9] sample_editor)) =
     [CSync [0x61, 0x62, 0xc3, 0xa9] 3, CPass 7 [0x61, 0x62, 0xc3, 0xa9] False 3]"
proof -
  have sel: "SelectionBeginLocked sample_editor = 2" "SelectionEndLocked sample_editor = 2"
    by (simp_all add: SelectionBeginLocked_def SelectionEndLocked_def sample_state)
  have "utf8_ok (iterate strict_lib) [0xc3, 0xa9]" "native_ok all_ok" "engine_calls sample_editor = []"
    "fs_textbox_handle (te_session sample_editor) = 7"
    "utf16_units (iterate strict_lib) [0x61, 0x62] = 2" "utf16_units (iterate strict_lib) [0xc3, 0xa9] = 1"
    by code_simp+
  then show ?thesis
    using text_input_commits [OF strict_lib_decoder sample_inv sample_state(1,2), of "[0xc3, 0xa9]" all_ok,
        OF _ _ _ _ prod.collapse [symmetric] refl refl]
    by (simp add: sel sample_state kMaximumTextBytes_def)
qed

text \<open>
  The size limit does not survive a newline: in a multi-line box whose text has the maximum
  size, the return key appends one byte more, and from then on the remaining room, computed in
  \<open>size_t\<close>, wraps, so that a further text of any length is accepted.
\<close>

theorem newline_defeats_limit:
  assumes "te_focused e" and "\<not> te_comp_active e" and "fp_multiline (fs_properties (te_session e))"
    and "length (te_text e) = kMaximumTextBytes" and "te_cursor e = kMaximumTextBytes" and "te_anchor e = kMaximumTextBytes"
    and "ke_pressed ev" and "ke_scancode ev = SCANCODE_RETURN" and "native_ok n" and "native_ok n'"
    and "t \<noteq> []" and "ly_valid (Layout lib t)" and "length t < 2 ^ 64"
    and "e' = text_step lib e (n, Key ev)"
  shows "te_text e' = te_text e @ [0x0a] \<and> te_text (text_step lib e' (n', TextInput t)) = te_text e @ [0x0a] @ t"
proof -
  have sel: "SelectionBeginLocked e = kMaximumTextBytes" "SelectionEndLocked e = kMaximumTextBytes" "\<not> HasSelectionLocked e"
    using assms(5,6) by (simp_all add: SelectionBeginLocked_def SelectionEndLocked_def HasSelectionLocked_def)
  have e': "e' = snd (ReplaceLocked lib n kMaximumTextBytes kMaximumTextBytes [0x0a] e)"
    using assms(1-3,7,8)
    by (simp add: assms(14) HandleKey_def ShortcutBit_def is_shortcut_def edit_scancode_def edit_key_def Let_def sel
        kShortcutSelectAll_def kShortcutCopy_def kShortcutPaste_def kShortcutCut_def)
  have f: "te_text e' = te_text e @ [0x0a]" "te_focused e'" "\<not> te_comp_active e'"
    "te_cursor e' = Suc kMaximumTextBytes" "te_anchor e' = Suc kMaximumTextBytes"
    using assms(1,4,9)
    by (simp_all add: e' ReplaceLocked_def Let_def dispatch_edit_fields step_simps splice_bytes_def)
      (simp_all add: reset_composition_def te_focused_def)
  have sel': "SelectionBeginLocked e' = Suc kMaximumTextBytes" "SelectionEndLocked e' = Suc kMaximumTextBytes"
    using f by (simp_all add: SelectionBeginLocked_def SelectionEndLocked_def)
  have "size_sub kMaximumTextBytes (Suc kMaximumTextBytes) = 2 ^ 64 - 1"
    by (simp add: size_sub_def kMaximumTextBytes_def)
  then have "te_text (text_step lib e' (n', TextInput t)) = te_text e @ [0x0a] @ t"
    using f sel' assms(4,10-13)
    by (simp add: HandleTextInput_def Let_def ReplaceLocked_def dispatch_edit_fields step_simps splice_bytes_def)
      (simp add: reset_composition_def)
  with f(1) show ?thesis by blast
qed

theorem newline_defeats_limit_witness:
  "\<exists>e. length (te_text e) = kMaximumTextBytes \<and>
     length (te_text (text_step strict_lib (text_step strict_lib e
       (all_ok, Key \<lparr>ke_pressed = True, ke_scancode = SCANCODE_RETURN, ke_modifiers = 0\<rparr>)) (all_ok, TextInput [0x62]))) =
       kMaximumTextBytes + 2"
proof -
  let ?ev = "\<lparr>ke_pressed = True, ke_scancode = SCANCODE_RETURN, ke_modifiers = 0\<rparr> :: KeyEvent"
  define e where "e = sample_editor\<lparr>te_text := replicate kMaximumTextBytes 0x61, te_cursor := kMaximumTextBytes,
    te_anchor := kMaximumTextBytes, te_session := (sample_session [])\<lparr>fs_properties :=
      RobloxTextFocusProperties_default\<lparr>fp_multiline := True\<rparr>\<rparr>\<rparr>"
  have e: "te_focused e" "\<not> te_comp_active e" "fp_multiline (fs_properties (te_session e))"
    "length (te_text e) = kMaximumTextBytes" "te_cursor e = kMaximumTextBytes" "te_anchor e = kMaximumTextBytes"
    using sample_state(1,2) by (simp_all add: e_def te_focused_def sample_session_def)
  have "native_ok all_ok" "ly_valid (Layout strict_lib [0x62])" by code_simp+
  then show ?thesis
    using newline_defeats_limit [OF e, of ?ev all_ok all_ok "[0x62]" strict_lib, OF _ _ _ _ _ _ _ refl] e(4)
    by (intro exI [of _ e]) simp
qed

end
