(* ===== verification/Jni_References.thy ===== *)
theory Jni_References
  imports Jni_Text "HOL-Library.Multiset"
begin

text \<open>
  The reference table of the emulated Java VM (\<open>src/jnivm/jni_references.cc\<close>,
  \<open>src/jnivm/jni_fields.cc\<close>, the string constructors of \<open>src/jnivm/jni_strings.cc\<close> and the
  reference functions of \<open>src/jnivm/jnivm.cc\<close>): handles into a segment table, reference counts,
  local frames, and objects and arrays that hold references themselves. An address is a natural
  number and 0 is null; the address of a fresh allocation is an argument of the operation. The hash
  tables are association lists. Reference counts are natural numbers (the code's 32-bit counters
  would need more than four billion holders to wrap). Destroying an object releases what it holds;
  the code does this by recursive destructor calls, here a work list is processed depth first.
  \<open>globals\<close> is a ghost field: the references held by native code through \<open>NewGlobalRef\<close> and in the
  local frames of other threads. The process-exit flag is not modelled: it only turns releases off.
\<close>

section \<open>Data\<close>

type_synonym jobject = nat

definition kJniSegmentCapacity :: nat where "kJniSegmentCapacity = 100000"
definition kJniHandleShift :: nat where "kJniHandleShift = 16"

datatype SegmentType = SegEmpty | SegObject | SegClass

record PseudoJavaObject =
  po_address :: nat
  po_class :: string
  po_string :: "PseudoStringObject option"
  po_objects :: "(string \<times> jobject) list"
  po_ints :: "(string \<times> int) list"
  po_longs :: "(string \<times> int) list"
  po_floats :: "(string \<times> cfloat) list"
  po_booleans :: "(string \<times> bool) list"

record PseudoArray =
  pa_bytes :: "int list"
  pa_floats :: "cfloat list"
  pa_objects :: "jobject list"

record Jni =
  my_segment :: "nat \<Rightarrow> nat"
  segment_owners :: "nat \<Rightarrow> string option"
  segment_types :: "nat \<Rightarrow> SegmentType"
  jni_ref_index :: nat
  free_slots :: "nat list"
  object_storage :: "(jobject \<times> PseudoJavaObject) list"
  array_storage :: "(jobject \<times> PseudoArray) list"
  jni_ref_counts :: "(jobject \<times> nat) list"
  local_frames :: "jobject list list"
  known_classes :: "jobject list"
  class_handle_cache :: "(string \<times> jobject) list"
  singleton_objects :: "(string \<times> jobject) list"
  fallback_classes :: "string list"
  known_strings :: "jobject list"
  static_object_fields :: "(string \<times> jobject) list"
  globals :: "jobject list"

definition Jni_new :: Jni where
  "Jni_new =
     \<lparr>my_segment = (\<lambda>_. 0), segment_owners = (\<lambda>_. None), segment_types = (\<lambda>_. SegEmpty),
      jni_ref_index = 1, free_slots = [], object_storage = [], array_storage = [], jni_ref_counts = [],
      local_frames = [], known_classes = [], class_handle_cache = [], singleton_objects = [],
      fallback_classes = [], known_strings = [], static_object_fields = [], globals = []\<rparr>"

definition del_key :: "'k \<Rightarrow> ('k \<times> 'v) list \<Rightarrow> ('k \<times> 'v) list" where
  "del_key k xs = filter (\<lambda>p. fst p \<noteq> k) xs"

definition put_key :: "'k \<Rightarrow> 'v \<Rightarrow> ('k \<times> 'v) list \<Rightarrow> ('k \<times> 'v) list" where
  "put_key k v xs = (k, v) # del_key k xs"

definition JniHandleFromIndex :: "nat \<Rightarrow> jobject" where
  "JniHandleFromIndex index = index * 2 ^ kJniHandleShift"

definition JniIndexFromHandle :: "jobject \<Rightarrow> nat" where
  "JniIndexFromHandle obj = obj div 2 ^ kJniHandleShift mod 2 ^ 32"

definition IsSegmentHandle :: "jobject \<Rightarrow> bool" where
  "IsSegmentHandle obj \<longleftrightarrow> obj \<noteq> 0 \<and> obj mod 2 ^ 16 = 0 \<and> obj div 2 ^ 16 < kJniSegmentCapacity"

section \<open>Local frames\<close>

text \<open>The innermost frame is the head of the list; a frame lists its references oldest first.\<close>

definition EnsureLocalFrame :: "Jni \<Rightarrow> Jni" where
  "EnsureLocalFrame s = (if local_frames s = [] then s\<lparr>local_frames := [[]]\<rparr> else s)"

definition RegisterLocalRef :: "jobject \<Rightarrow> Jni \<Rightarrow> Jni" where
  "RegisterLocalRef obj s =
     (if obj = 0 then s
      else let s = EnsureLocalFrame s
           in s\<lparr>local_frames := (hd (local_frames s) @ [obj]) # tl (local_frames s)\<rparr>)"

definition remove_last :: "'a \<Rightarrow> 'a list \<Rightarrow> 'a list" where
  "remove_last x xs = rev (remove1 x (rev xs))"

fun unregister_frames :: "jobject \<Rightarrow> jobject list list \<Rightarrow> jobject list list" where
  "unregister_frames obj [] = []"
| "unregister_frames obj (frame # frames) =
     (if obj \<in> set frame then remove_last obj frame # frames
      else frame # unregister_frames obj frames)"

definition UnregisterLocalRef :: "jobject \<Rightarrow> Jni \<Rightarrow> Jni" where
  "UnregisterLocalRef obj s =
     (if obj = 0 then s else s\<lparr>local_frames := unregister_frames obj (local_frames s)\<rparr>)"

section \<open>Counting and slots\<close>

definition RetainJniReference :: "jobject \<Rightarrow> Jni \<Rightarrow> Jni" where
  "RetainJniReference obj s =
     (if obj = 0 then s
      else case map_of (jni_ref_counts s) obj of
        Some c \<Rightarrow> s\<lparr>jni_ref_counts := put_key obj (c + 1) (jni_ref_counts s)\<rparr>
      | None \<Rightarrow> s\<lparr>jni_ref_counts := put_key obj 1 (jni_ref_counts s)\<rparr>)"

definition AllocateSegmentSlot :: "nat \<Rightarrow> string option \<Rightarrow> SegmentType \<Rightarrow> Jni \<Rightarrow> nat \<times> Jni" where
  "AllocateSegmentSlot v owner type s =
     (let store = (\<lambda>index s. (index, s\<lparr>my_segment := (my_segment s)(index := v),
              segment_owners := (segment_owners s)(index := owner),
              segment_types := (segment_types s)(index := type)\<rparr>))
      in if free_slots s \<noteq> []
         then store (last (free_slots s)) (s\<lparr>free_slots := butlast (free_slots s)\<rparr>)
         else if jni_ref_index s > 0 \<and> jni_ref_index s < kJniSegmentCapacity
         then store (jni_ref_index s) (s\<lparr>jni_ref_index := jni_ref_index s + 1\<rparr>)
         else (0, s))"

text \<open>A class is represented by its name.\<close>

definition FallbackClassForName :: "string \<Rightarrow> Jni \<Rightarrow> string \<times> Jni" where
  "FallbackClassForName name s =
     (name, if name \<in> set (fallback_classes s) then s else s\<lparr>fallback_classes := name # fallback_classes s\<rparr>)"

definition StoreClass :: "string option \<Rightarrow> nat \<Rightarrow> Jni \<Rightarrow> jobject \<times> Jni" where
  "StoreClass cls address s =
     (case cls of
        None \<Rightarrow> (0, s)
      | Some name \<Rightarrow>
          (case map_of (class_handle_cache s) name of
             Some handle \<Rightarrow> (handle, s)
           | None \<Rightarrow>
               (case AllocateSegmentSlot address (Some name) SegClass s of (index, s) \<Rightarrow>
                  if index = 0 then (0, s)
                  else let handle = JniHandleFromIndex index
                       in (handle, s\<lparr>known_classes := handle # known_classes s,
                             class_handle_cache := put_key name handle (class_handle_cache s)\<rparr>))))"

definition StoreObject :: "PseudoJavaObject \<Rightarrow> Jni \<Rightarrow> jobject \<times> Jni" where
  "StoreObject object s =
     (case AllocateSegmentSlot (po_address object) None SegObject s of (index, s) \<Rightarrow>
        if index = 0 then (0, s)
        else let handle = JniHandleFromIndex index
             in (handle, RegisterLocalRef handle
                   (s\<lparr>object_storage := put_key handle object (object_storage s),
                      jni_ref_counts := put_key handle 1 (jni_ref_counts s)\<rparr>)))"

section \<open>Releasing\<close>

text \<open>The last reference is gone: the references the destroyed object or array held are returned.\<close>

definition destroy :: "jobject \<Rightarrow> Jni \<Rightarrow> Jni \<times> jobject list" where
  "destroy obj s =
     (case map_of (array_storage s) obj of
        Some array \<Rightarrow> (s\<lparr>array_storage := del_key obj (array_storage s)\<rparr>, pa_objects array)
      | None \<Rightarrow>
         if obj \<in> set (known_classes s) then (s, [])
         else if obj \<in> snd ` set (singleton_objects s) then (s, [])
         else
          let index = JniIndexFromHandle obj;
              s = (if index > 0 \<and> index < kJniSegmentCapacity
                   then s\<lparr>segment_types := (segment_types s)(index := SegEmpty),
                          my_segment := (my_segment s)(index := 0),
                          segment_owners := (segment_owners s)(index := None),
                          free_slots := free_slots s @ [index]\<rparr>
                   else s);
              s = s\<lparr>known_strings := removeAll obj (known_strings s)\<rparr>
          in case map_of (object_storage s) obj of
               Some object \<Rightarrow> (s\<lparr>object_storage := del_key obj (object_storage s)\<rparr>,
                               map snd (po_objects object))
             | None \<Rightarrow> (s, []))"

definition release_one :: "jobject \<Rightarrow> Jni \<Rightarrow> Jni \<times> jobject list" where
  "release_one obj s =
     (if obj = 0 then (s, [])
      else case map_of (jni_ref_counts s) obj of
        Some c \<Rightarrow>
          if c > 1 then (s\<lparr>jni_ref_counts := put_key obj (c - 1) (jni_ref_counts s)\<rparr>, [])
          else destroy obj (s\<lparr>jni_ref_counts := del_key obj (jni_ref_counts s)\<rparr>)
      | None \<Rightarrow> destroy obj s)"

definition stored :: "Jni \<Rightarrow> nat" where
  "stored s = length (object_storage s) + length (array_storage s)"

lemma del_key_length: "length (del_key k xs) \<le> length xs"
  by (simp add: del_key_def)

lemma del_key_shorter: "map_of xs k = Some v \<Longrightarrow> length (del_key k xs) < length xs"
  unfolding del_key_def by (rule length_filter_less [of "(k, v)"]) (auto dest: map_of_SomeD)

lemma release_one_stored:
  "release_one obj s = (s', children) \<Longrightarrow> stored s' < stored s \<or> stored s' = stored s \<and> children = []"
  by (auto simp: release_one_def destroy_def stored_def Let_def del_key_shorter split: if_splits option.splits
      dest: del_key_shorter)

function release_work :: "jobject list \<Rightarrow> Jni \<Rightarrow> Jni" where
  "release_work [] s = s"
| "release_work (obj # rest) s =
     (case release_one obj s of (s', children) \<Rightarrow> release_work (children @ rest) s')"
  by pat_completeness auto
termination
  by (relation "measures [\<lambda>(_, s). stored s, \<lambda>(work, _). length work]")
    (auto dest!: release_one_stored [OF sym])

definition ReleaseJniReference :: "jobject \<Rightarrow> Jni \<Rightarrow> Jni" where
  "ReleaseJniReference obj s = release_work [obj] s"

section \<open>Objects and arrays\<close>

text \<open>The object whose address the segment table gives for a handle.\<close>

definition deref :: "Jni \<Rightarrow> nat \<Rightarrow> (jobject \<times> PseudoJavaObject) option" where
  "deref s address = find (\<lambda>(h, po). po_address po = address) (object_storage s)"

definition PseudoObjectFromRef :: "jobject \<Rightarrow> Jni \<Rightarrow> nat option" where
  "PseudoObjectFromRef obj s =
     (if obj = 0 then None
      else let index = JniIndexFromHandle obj in
        if index > 0 \<and> index < kJniSegmentCapacity \<and> segment_types s index = SegObject \<and>
           my_segment s index \<noteq> 0
        then Some (my_segment s index) else None)"

definition object_at :: "jobject \<Rightarrow> Jni \<Rightarrow> PseudoJavaObject option" where
  "object_at obj s =
     (case PseudoObjectFromRef obj s of None \<Rightarrow> None | Some a \<Rightarrow> map_option snd (deref s a))"

definition fresh_object :: "nat \<Rightarrow> string \<Rightarrow> PseudoStringObject option \<Rightarrow> PseudoJavaObject" where
  "fresh_object address cls str =
     \<lparr>po_address = address, po_class = cls, po_string = str, po_objects = [], po_ints = [], po_longs = [],
      po_floats = [], po_booleans = []\<rparr>"

definition MakeObjectForClass :: "string \<Rightarrow> nat \<Rightarrow> Jni \<Rightarrow> jobject \<times> Jni" where
  "MakeObjectForClass name address s =
     (case FallbackClassForName name s of (cls, s) \<Rightarrow> StoreObject (fresh_object address cls None) s)"

text \<open>\<open>name_at\<close> reads the name of a class object at a raw address: a class pointer that did not come
  from \<open>StoreClass\<close> is trusted.\<close>

definition ClassFromJClass :: "(nat \<Rightarrow> string) \<Rightarrow> jobject \<Rightarrow> Jni \<Rightarrow> string option \<times> Jni" where
  "ClassFromJClass name_at clazz s =
     (if clazz = 0 then (None, s)
      else let index = JniIndexFromHandle clazz;
               in_table = (index > 0 \<and> index < kJniSegmentCapacity);
               address = (if in_table then my_segment s index else clazz)
           in if in_table \<and> segment_owners s index \<noteq> None then (segment_owners s index, s)
              else if address = 0 then (None, s)
              else case FallbackClassForName (name_at address) s of (cls, s) \<Rightarrow> (Some cls, s))"

definition MakeObject :: "(nat \<Rightarrow> string) \<Rightarrow> jobject \<Rightarrow> nat \<Rightarrow> Jni \<Rightarrow> jobject \<times> Jni" where
  "MakeObject name_at clazz address s =
     (case ClassFromJClass name_at clazz s of (cls, s) \<Rightarrow>
      case (case cls of None \<Rightarrow> FallbackClassForName ''java/lang/Object'' s | Some c \<Rightarrow> (c, s)) of (c, s) \<Rightarrow>
        StoreObject (fresh_object address c None) s)"

definition SingletonObject :: "string \<Rightarrow> nat \<Rightarrow> Jni \<Rightarrow> jobject \<times> Jni" where
  "SingletonObject name address s =
     (case map_of (singleton_objects s) name of
        Some obj \<Rightarrow> (obj, s)
      | None \<Rightarrow>
          (case MakeObjectForClass name address s of (obj, s) \<Rightarrow>
             (obj, s\<lparr>singleton_objects := put_key name obj (singleton_objects s)\<rparr>)))"

definition ObjectClassName :: "jobject \<Rightarrow> Jni \<Rightarrow> string" where
  "ObjectClassName obj s = (case object_at obj s of None \<Rightarrow> [] | Some po \<Rightarrow> po_class po)"

definition MakeUtf16String :: "u16 list option \<Rightarrow> int \<Rightarrow> nat \<Rightarrow> Jni \<Rightarrow> jobject \<times> Jni" where
  "MakeUtf16String utf16 n address s =
     (case FallbackClassForName ''java/lang/String'' s of (cls, s) \<Rightarrow>
      case StoreObject (fresh_object address cls (Some (PseudoStringObject_utf16 utf16 n))) s of (handle, s) \<Rightarrow>
        (handle, s\<lparr>known_strings := handle # known_strings s\<rparr>))"

definition MakeString :: "u8 list option \<Rightarrow> nat \<Rightarrow> Jni \<Rightarrow> jobject \<times> Jni" where
  "MakeString utf address s =
     (case FallbackClassForName ''java/lang/String'' s of (cls, s) \<Rightarrow>
      case StoreObject (fresh_object address cls (Some (PseudoStringObject_utf utf))) s of (handle, s) \<Rightarrow>
        (handle, s\<lparr>known_strings := handle # known_strings s\<rparr>))"

definition ArrayFromRef :: "jobject \<Rightarrow> Jni \<Rightarrow> PseudoArray option" where
  "ArrayFromRef array s = map_of (array_storage s) array"

definition store_array :: "PseudoArray \<Rightarrow> nat \<Rightarrow> Jni \<Rightarrow> jobject \<times> Jni" where
  "store_array array ref s =
     (ref, RegisterLocalRef ref
        (s\<lparr>array_storage := put_key ref array (array_storage s),
           jni_ref_counts := put_key ref 1 (jni_ref_counts s)\<rparr>))"

definition MakeByteArray :: "int \<Rightarrow> nat \<Rightarrow> Jni \<Rightarrow> jobject \<times> Jni" where
  "MakeByteArray len ref s =
     store_array \<lparr>pa_bytes = (if len > 0 then replicate (nat len) 0 else []), pa_floats = [], pa_objects = []\<rparr> ref s"

definition MakeFloatArray :: "int \<Rightarrow> nat \<Rightarrow> Jni \<Rightarrow> jobject \<times> Jni" where
  "MakeFloatArray len ref s =
     store_array \<lparr>pa_bytes = [], pa_floats = (if len > 0 then replicate (nat len) (FNum 0) else []), pa_objects = []\<rparr> ref s"

fun retain_times :: "nat \<Rightarrow> jobject \<Rightarrow> Jni \<Rightarrow> Jni" where
  "retain_times 0 obj s = s"
| "retain_times (Suc n) obj s = retain_times n obj (RetainJniReference obj s)"

definition MakeObjectArray :: "int \<Rightarrow> jobject \<Rightarrow> nat \<Rightarrow> Jni \<Rightarrow> jobject \<times> Jni" where
  "MakeObjectArray len init ref s =
     (let s = (if len > 0 then retain_times (nat len) init s else s)
      in store_array \<lparr>pa_bytes = [], pa_floats = [],
           pa_objects = (if len > 0 then replicate (nat len) init else [])\<rparr> ref s)"

section \<open>References\<close>

definition NewLocalJniReference :: "jobject \<Rightarrow> Jni \<Rightarrow> jobject \<times> Jni" where
  "NewLocalJniReference obj s =
     (obj, if obj \<noteq> 0 then RegisterLocalRef obj (RetainJniReference obj s) else s)"

definition DeleteLocalJniReference :: "jobject \<Rightarrow> Jni \<Rightarrow> Jni" where
  "DeleteLocalJniReference obj s = ReleaseJniReference obj (UnregisterLocalRef obj s)"

definition PushLocalJniFrame :: "Jni \<Rightarrow> Jni" where
  "PushLocalJniFrame s = (let s = EnsureLocalFrame s in s\<lparr>local_frames := [] # local_frames s\<rparr>)"

definition PopLocalJniFrame :: "jobject \<Rightarrow> Jni \<Rightarrow> jobject \<times> Jni" where
  "PopLocalJniFrame result s =
     (let s = RetainJniReference result (EnsureLocalFrame s);
          frame = hd (local_frames s);
          s = s\<lparr>local_frames := (if length (local_frames s) > 1 then tl (local_frames s) else [[]])\<rparr>
      in (result, RegisterLocalRef result (release_work frame s)))"

definition NewGlobalRef :: "jobject \<Rightarrow> Jni \<Rightarrow> jobject \<times> Jni" where
  "NewGlobalRef obj s = (obj, (RetainJniReference obj s)\<lparr>globals := obj # globals s\<rparr>)"

definition DeleteGlobalRef :: "jobject \<Rightarrow> Jni \<Rightarrow> Jni" where
  "DeleteGlobalRef obj s = ReleaseJniReference obj (s\<lparr>globals := remove1 obj (globals s)\<rparr>)"

definition GetObjectArrayElement :: "jobject \<Rightarrow> int \<Rightarrow> Jni \<Rightarrow> jobject \<times> Jni" where
  "GetObjectArrayElement array index s =
     (case ArrayFromRef array s of
        None \<Rightarrow> (0, s)
      | Some a \<Rightarrow>
          if index < 0 \<or> nat index \<ge> length (pa_objects a) then (0, s)
          else NewLocalJniReference (pa_objects a ! nat index) s)"

definition SetObjectArrayElement :: "jobject \<Rightarrow> int \<Rightarrow> jobject \<Rightarrow> Jni \<Rightarrow> Jni" where
  "SetObjectArrayElement array index v s =
     (case ArrayFromRef array s of
        None \<Rightarrow> s
      | Some a \<Rightarrow>
          if index < 0 \<or> nat index \<ge> length (pa_objects a) then s
          else
           let s = RetainJniReference v s;
               prev = pa_objects a ! nat index;
               s = s\<lparr>array_storage := put_key array (a\<lparr>pa_objects := (pa_objects a)[nat index := v]\<rparr>) (array_storage s)\<rparr>
           in ReleaseJniReference prev s)"

section \<open>Fields\<close>

definition update_object :: "nat \<Rightarrow> (PseudoJavaObject \<Rightarrow> PseudoJavaObject) \<Rightarrow> Jni \<Rightarrow> Jni" where
  "update_object address f s =
     s\<lparr>object_storage := map (\<lambda>(h, po). (h, if po_address po = address then f po else po)) (object_storage s)\<rparr>"

definition field_value :: "string \<Rightarrow> (string \<times> jobject) list \<Rightarrow> jobject" where
  "field_value name fs = (case map_of fs name of None \<Rightarrow> 0 | Some v \<Rightarrow> v)"

definition SetStaticObjectFieldRaw :: "string option \<Rightarrow> jobject \<Rightarrow> Jni \<Rightarrow> Jni" where
  "SetStaticObjectFieldRaw name v s =
     (case name of
        None \<Rightarrow> s
      | Some f \<Rightarrow>
          let s = RetainJniReference v s;
              previous = field_value f (static_object_fields s);
              s = s\<lparr>static_object_fields := put_key f v (static_object_fields s)\<rparr>
          in ReleaseJniReference previous s)"

definition StaticObjectFieldValue :: "string option \<Rightarrow> Jni \<Rightarrow> jobject \<times> Jni" where
  "StaticObjectFieldValue name s =
     (case name of
        None \<Rightarrow> (0, s)
      | Some f \<Rightarrow> (case map_of (static_object_fields s) f of
           None \<Rightarrow> (0, s)
         | Some v \<Rightarrow> NewLocalJniReference v s))"

definition SetObjectFieldRaw :: "jobject \<Rightarrow> string option \<Rightarrow> jobject \<Rightarrow> Jni \<Rightarrow> Jni" where
  "SetObjectFieldRaw obj name v s =
     (case (PseudoObjectFromRef obj s, name) of
        (Some address, Some f) \<Rightarrow>
          let s = RetainJniReference v s;
              previous = (case deref s address of None \<Rightarrow> 0 | Some (h, po) \<Rightarrow> field_value f (po_objects po));
              s = update_object address (\<lambda>po. po\<lparr>po_objects := put_key f v (po_objects po)\<rparr>) s
          in if previous \<noteq> 0 then ReleaseJniReference previous s else s
      | _ \<Rightarrow> s)"

definition SetIntFieldRaw :: "jobject \<Rightarrow> string option \<Rightarrow> int \<Rightarrow> Jni \<Rightarrow> Jni" where
  "SetIntFieldRaw obj name v s =
     (case (PseudoObjectFromRef obj s, name) of
        (Some a, Some f) \<Rightarrow> update_object a (\<lambda>po. po\<lparr>po_ints := put_key f v (po_ints po)\<rparr>) s
      | _ \<Rightarrow> s)"

definition SetLongFieldRaw :: "jobject \<Rightarrow> string option \<Rightarrow> int \<Rightarrow> Jni \<Rightarrow> Jni" where
  "SetLongFieldRaw obj name v s =
     (case (PseudoObjectFromRef obj s, name) of
        (Some a, Some f) \<Rightarrow> update_object a (\<lambda>po. po\<lparr>po_longs := put_key f v (po_longs po)\<rparr>) s
      | _ \<Rightarrow> s)"

definition SetFloatFieldRaw :: "jobject \<Rightarrow> string option \<Rightarrow> cfloat \<Rightarrow> Jni \<Rightarrow> Jni" where
  "SetFloatFieldRaw obj name v s =
     (case (PseudoObjectFromRef obj s, name) of
        (Some a, Some f) \<Rightarrow> update_object a (\<lambda>po. po\<lparr>po_floats := put_key f v (po_floats po)\<rparr>) s
      | _ \<Rightarrow> s)"

definition SetBooleanFieldRaw :: "jobject \<Rightarrow> string option \<Rightarrow> bool \<Rightarrow> Jni \<Rightarrow> Jni" where
  "SetBooleanFieldRaw obj name v s =
     (case (PseudoObjectFromRef obj s, name) of
        (Some a, Some f) \<Rightarrow> update_object a (\<lambda>po. po\<lparr>po_booleans := put_key f v (po_booleans po)\<rparr>) s
      | _ \<Rightarrow> s)"

definition ObjectFieldValue :: "jobject \<Rightarrow> string option \<Rightarrow> Jni \<Rightarrow> jobject \<times> Jni" where
  "ObjectFieldValue obj name s =
     (case (object_at obj s, name) of
        (Some po, Some f) \<Rightarrow> (case map_of (po_objects po) f of
           None \<Rightarrow> (0, s)
         | Some v \<Rightarrow> NewLocalJniReference v s)
      | _ \<Rightarrow> (0, s))"

definition plain_field :: "(PseudoJavaObject \<Rightarrow> (string \<times> 'v) list) \<Rightarrow> 'v \<Rightarrow> jobject \<Rightarrow> string option \<Rightarrow> Jni \<Rightarrow> 'v" where
  "plain_field sel d obj name s =
     (case (object_at obj s, name) of
        (Some po, Some f) \<Rightarrow> (case map_of (sel po) f of None \<Rightarrow> d | Some v \<Rightarrow> v)
      | _ \<Rightarrow> d)"

definition IntFieldValue :: "jobject \<Rightarrow> string option \<Rightarrow> Jni \<Rightarrow> int" where
  "IntFieldValue = plain_field po_ints 0"

definition LongFieldValue :: "jobject \<Rightarrow> string option \<Rightarrow> Jni \<Rightarrow> int" where
  "LongFieldValue = plain_field po_longs 0"

definition FloatFieldValue :: "jobject \<Rightarrow> string option \<Rightarrow> Jni \<Rightarrow> cfloat" where
  "FloatFieldValue = plain_field po_floats (FNum 0)"

definition BooleanFieldValue :: "jobject \<Rightarrow> string option \<Rightarrow> Jni \<Rightarrow> bool" where
  "BooleanFieldValue = plain_field po_booleans False"

end
