(* ===== verification/Jni_Counting.thy ===== *)
theory Jni_Counting
  imports Jni_References
begin

text \<open>
  The reference counts of the emulated Java VM. A reference is held by a local frame, by native code
  (a global reference), by a static field, by a field of an object or by an array element; \<open>held\<close> is
  the multiset of all of them. The invariant \<open>jni_inv s E\<close> says that the slot table, the storages and
  the free list fit together and that the count of every managed reference is the number of its holders
  plus its occurrences in \<open>E\<close>, the references in flight. Every operation is then a move of references
  between holders and \<open>E\<close>: retaining adds one in flight, registering or storing one takes it out, and the
  release of a work list of references in flight, with the cascade of destroyed objects and arrays,
  keeps the invariant (\<open>release_work_inv\<close>).
\<close>

section \<open>Association lists\<close>

lemma keys_del [simp]: "fst ` set (del_key k xs) = fst ` set xs - {k}"
  by (auto simp: del_key_def image_iff)

lemma keys_put [simp]: "fst ` set (put_key k v xs) = insert k (fst ` set xs)"
  by (simp add: put_key_def)

lemma distinct_del [simp]: "distinct (map fst xs) \<Longrightarrow> distinct (map fst (del_key k xs))"
  by (simp add: del_key_def distinct_map_filter)

lemma distinct_put [simp]: "distinct (map fst xs) \<Longrightarrow> distinct (map fst (put_key k v xs))"
  by (simp add: put_key_def)

lemma map_of_del [simp]: "map_of (del_key k xs) k' = (if k' = k then None else map_of xs k')"
  by (induction xs) (auto simp: del_key_def)

lemma map_of_put [simp]: "map_of (put_key k v xs) k' = (if k' = k then Some v else map_of xs k')"
  by (simp add: put_key_def)

section \<open>Who holds a reference\<close>

definition table_refs :: "('v \<Rightarrow> jobject list) \<Rightarrow> ('k \<times> 'v) list \<Rightarrow> jobject multiset" where
  "table_refs f xs = mset (concat (map (f \<circ> snd) xs))"

abbreviation object_refs :: "PseudoJavaObject \<Rightarrow> jobject list" where
  "object_refs po \<equiv> map snd (po_objects po)"

definition held :: "Jni \<Rightarrow> jobject multiset" where
  "held s = mset (concat (local_frames s)) + mset (globals s) +
     table_refs (\<lambda>v. [v]) (static_object_fields s) +
     table_refs object_refs (object_storage s) + table_refs pa_objects (array_storage s)"

lemma table_refs_simps [simp]: "table_refs f [] = {#}" "table_refs f (p # xs) = mset (f (snd p)) + table_refs f xs"
  by (simp_all add: table_refs_def)

lemma del_absent: "k \<notin> fst ` set xs \<Longrightarrow> del_key k xs = xs"
  unfolding del_key_def by (rule filter_True) force

lemma table_refs_del:
  "distinct (map fst xs) \<Longrightarrow> map_of xs k = Some v \<Longrightarrow> table_refs f xs = mset (f v) + table_refs f (del_key k xs)"
proof (induction xs)
  case (Cons p xs)
  then show ?case
    by (cases "fst p = k") (auto simp: del_key_def del_absent [unfolded del_key_def] image_iff)
qed simp

lemma table_refs_values: "table_refs (\<lambda>v. [v]) fs = mset (map snd fs)"
  by (induction fs) auto

lemma table_refs_put: "table_refs f (put_key k v xs) = mset (f v) + table_refs f (del_key k xs)"
  by (simp add: put_key_def)

text \<open>Classes and singletons are never destroyed; every other reference is counted.\<close>

definition managed :: "Jni \<Rightarrow> jobject \<Rightarrow> bool" where
  "managed s h \<longleftrightarrow> h \<noteq> 0 \<and> h \<notin> set (known_classes s) \<and> h \<notin> snd ` set (singleton_objects s)"

definition ref_count :: "Jni \<Rightarrow> jobject \<Rightarrow> nat" where
  "ref_count s h = (case map_of (jni_ref_counts s) h of None \<Rightarrow> 0 | Some c \<Rightarrow> c)"

definition live :: "Jni \<Rightarrow> jobject \<Rightarrow> bool" where
  "live s h \<longleftrightarrow> h \<in> fst ` set (object_storage s) \<or> h \<in> fst ` set (array_storage s)"

text \<open>The slots: free, or used by a class or by the object its handle names.\<close>

definition slots_inv :: "Jni \<Rightarrow> bool" where
  "slots_inv s \<longleftrightarrow>
     0 < jni_ref_index s \<and> jni_ref_index s \<le> kJniSegmentCapacity \<and> distinct (free_slots s) \<and>
     (\<forall>i. i \<in> set (free_slots s) \<longleftrightarrow> 0 < i \<and> i < jni_ref_index s \<and> segment_types s i = SegEmpty) \<and>
     (\<forall>i. i = 0 \<or> jni_ref_index s \<le> i \<longrightarrow> segment_types s i = SegEmpty) \<and>
     (\<forall>h po. (h, po) \<in> set (object_storage s) \<longrightarrow>
        (\<exists>i. h = JniHandleFromIndex i \<and> segment_types s i = SegObject \<and> my_segment s i = po_address po \<and> po_address po \<noteq> 0)) \<and>
     (\<forall>i. segment_types s i = SegObject \<longrightarrow> JniHandleFromIndex i \<in> fst ` set (object_storage s)) \<and>
     (\<forall>h \<in> set (known_classes s). \<exists>i. h = JniHandleFromIndex i \<and> segment_types s i = SegClass) \<and>
     distinct (map (po_address \<circ> snd) (object_storage s))"

definition tables_inv :: "Jni \<Rightarrow> bool" where
  "tables_inv s \<longleftrightarrow>
     distinct (map fst (object_storage s)) \<and> distinct (map fst (array_storage s)) \<and>
     (\<forall>a \<in> fst ` set (array_storage s). a \<noteq> 0 \<and> kJniSegmentCapacity \<le> JniIndexFromHandle a) \<and>
     (\<forall>h \<in> snd ` set (singleton_objects s). h \<noteq> 0 \<longrightarrow> h \<in> fst ` set (object_storage s)) \<and>
     distinct (map fst (static_object_fields s)) \<and>
     (\<forall>(h, po) \<in> set (object_storage s). distinct (map fst (po_objects po)))"

text \<open>\<open>extra\<close> are references in flight: retained or taken out of a holder, and not yet released.\<close>

definition count_inv :: "Jni \<Rightarrow> jobject multiset \<Rightarrow> bool" where
  "count_inv s extra \<longleftrightarrow>
     (\<forall>h. managed s h \<longrightarrow> ref_count s h = count (held s + extra) h \<and> (live s h \<longleftrightarrow> 0 < ref_count s h))"

definition jni_inv :: "Jni \<Rightarrow> jobject multiset \<Rightarrow> bool" where
  "jni_inv s extra \<longleftrightarrow> slots_inv s \<and> tables_inv s \<and> count_inv s extra"

section \<open>Handles\<close>

lemma handle_index [simp]: "i < 2 ^ 32 \<Longrightarrow> JniIndexFromHandle (JniHandleFromIndex i) = i"
  by (simp add: JniIndexFromHandle_def JniHandleFromIndex_def)

lemma handle_inj [simp]: "JniHandleFromIndex i = JniHandleFromIndex j \<longleftrightarrow> i = j"
  by (simp add: JniHandleFromIndex_def)

lemma handle_zero [simp]: "JniHandleFromIndex i = 0 \<longleftrightarrow> i = 0"
  by (simp add: JniHandleFromIndex_def)

lemma slotsD:
  assumes "slots_inv s"
  shows "0 < jni_ref_index s" "jni_ref_index s \<le> kJniSegmentCapacity" "distinct (free_slots s)"
    "i \<in> set (free_slots s) \<longleftrightarrow> 0 < i \<and> i < jni_ref_index s \<and> segment_types s i = SegEmpty"
    "jni_ref_index s \<le> i \<Longrightarrow> segment_types s i = SegEmpty" "segment_types s 0 = SegEmpty"
    "segment_types s i = SegObject \<Longrightarrow> JniHandleFromIndex i \<in> fst ` set (object_storage s)"
    "distinct (map (po_address \<circ> snd) (object_storage s))"
  using assms unfolding slots_inv_def by blast+

lemma slotsI:
  assumes "0 < jni_ref_index s" "jni_ref_index s \<le> kJniSegmentCapacity" "distinct (free_slots s)"
    "\<And>i. i \<in> set (free_slots s) \<longleftrightarrow> 0 < i \<and> i < jni_ref_index s \<and> segment_types s i = SegEmpty"
    "\<And>i. i = 0 \<or> jni_ref_index s \<le> i \<Longrightarrow> segment_types s i = SegEmpty"
    "\<And>h po. (h, po) \<in> set (object_storage s) \<Longrightarrow>
       \<exists>i. h = JniHandleFromIndex i \<and> segment_types s i = SegObject \<and> my_segment s i = po_address po \<and> po_address po \<noteq> 0"
    "\<And>i. segment_types s i = SegObject \<Longrightarrow> JniHandleFromIndex i \<in> fst ` set (object_storage s)"
    "\<And>h. h \<in> set (known_classes s) \<Longrightarrow> \<exists>i. h = JniHandleFromIndex i \<and> segment_types s i = SegClass"
    "distinct (map (po_address \<circ> snd) (object_storage s))"
  shows "slots_inv s"
  unfolding slots_inv_def using assms by blast

lemma used_slot:
  assumes "slots_inv s" "segment_types s i \<noteq> SegEmpty"
  shows "0 < i" "i < jni_ref_index s" "i < kJniSegmentCapacity" "i < 2 ^ 32" "i \<notin> set (free_slots s)"
proof -
  note d = slotsD [OF assms(1)]
  show "0 < i" using d(6) assms(2) by (cases i) auto
  show less: "i < jni_ref_index s" using d(5) [of i] assms(2) by (meson not_le)
  then show "i < kJniSegmentCapacity" using d(2) by simp
  then show "i < 2 ^ 32" by (simp add: kJniSegmentCapacity_def)
  show "i \<notin> set (free_slots s)" using d(4) [of i] assms(2) by simp
qed

lemma object_slot:
  assumes "slots_inv s" "(h, po) \<in> set (object_storage s)"
  obtains i where "h = JniHandleFromIndex i" "segment_types s i = SegObject" "my_segment s i = po_address po"
    "po_address po \<noteq> 0" "0 < i" "i < jni_ref_index s" "i < kJniSegmentCapacity" "JniIndexFromHandle h = i" "i \<notin> set (free_slots s)"
proof -
  obtain i where i: "h = JniHandleFromIndex i" "segment_types s i = SegObject" "my_segment s i = po_address po" "po_address po \<noteq> 0"
    using assms unfolding slots_inv_def by blast
  then show thesis using that [of i] used_slot [OF assms(1), of i] by simp
qed

lemma class_slot:
  assumes "slots_inv s" "h \<in> set (known_classes s)"
  obtains i where "h = JniHandleFromIndex i" "segment_types s i = SegClass" "0 < i" "i < kJniSegmentCapacity"
    "JniIndexFromHandle h = i"
proof -
  obtain i where i: "h = JniHandleFromIndex i" "segment_types s i = SegClass"
    using assms unfolding slots_inv_def by blast
  then show thesis using that [of i] used_slot [OF assms(1), of i] by simp
qed

lemma array_not_object:
  assumes "slots_inv s" "tables_inv s" "h \<in> fst ` set (array_storage s)"
  shows "h \<notin> fst ` set (object_storage s)" "h \<notin> set (known_classes s)" "h \<notin> snd ` set (singleton_objects s)" "h \<noteq> 0"
proof -
  have a: "h \<noteq> 0" "kJniSegmentCapacity \<le> JniIndexFromHandle h" using assms(2,3) by (auto simp: tables_inv_def)
  show o: "h \<notin> fst ` set (object_storage s)"
  proof
    assume "h \<in> fst ` set (object_storage s)"
    then obtain po where "(h, po) \<in> set (object_storage s)" by auto
    from object_slot [OF assms(1) this] a(2) show False by (metis not_le)
  qed
  show "h \<notin> set (known_classes s)" using class_slot [OF assms(1)] a(2) by (metis not_le)
  show "h \<notin> snd ` set (singleton_objects s)" "h \<noteq> 0" using assms(2) o a(1) by (auto simp: tables_inv_def)
qed


section \<open>Frames of the invariant\<close>

lemma slots_frame [simp]:
  "slots_inv (s\<lparr>jni_ref_counts := a\<rparr>) = slots_inv s" "slots_inv (s\<lparr>local_frames := b\<rparr>) = slots_inv s"
  "slots_inv (s\<lparr>array_storage := c\<rparr>) = slots_inv s" "slots_inv (s\<lparr>globals := d\<rparr>) = slots_inv s"
  "slots_inv (s\<lparr>static_object_fields := e\<rparr>) = slots_inv s" "slots_inv (s\<lparr>known_strings := f\<rparr>) = slots_inv s"
  "slots_inv (s\<lparr>fallback_classes := g\<rparr>) = slots_inv s" "slots_inv (s\<lparr>singleton_objects := h\<rparr>) = slots_inv s"
  by (simp_all add: slots_inv_def)

lemma tables_frame [simp]:
  "tables_inv (s\<lparr>jni_ref_counts := a\<rparr>) = tables_inv s" "tables_inv (s\<lparr>local_frames := b\<rparr>) = tables_inv s"
  "tables_inv (s\<lparr>globals := d\<rparr>) = tables_inv s" "tables_inv (s\<lparr>known_strings := f\<rparr>) = tables_inv s"
  "tables_inv (s\<lparr>fallback_classes := g\<rparr>) = tables_inv s"
  by (simp_all add: tables_inv_def)

lemma tablesD:
  assumes "tables_inv s"
  shows "distinct (map fst (object_storage s))" "distinct (map fst (array_storage s))"
    "h \<in> snd ` set (singleton_objects s) \<Longrightarrow> h \<noteq> 0 \<Longrightarrow> h \<in> fst ` set (object_storage s)"
    "distinct (map fst (static_object_fields s))"
    "(h, po) \<in> set (object_storage s) \<Longrightarrow> distinct (map fst (po_objects po))"
  using assms unfolding tables_inv_def by blast+

lemma jniD:
  assumes "jni_inv s E" "managed s h"
  shows "ref_count s h = count (held s + E) h" "live s h \<longleftrightarrow> 0 < count (held s + E) h"
  using assms unfolding jni_inv_def count_inv_def by metis+

lemma jni_invI:
  assumes "slots_inv s" "tables_inv s"
    "\<And>h. managed s h \<Longrightarrow> ref_count s h = count (held s + E) h"
    "\<And>h. managed s h \<Longrightarrow> live s h \<longleftrightarrow> 0 < count (held s + E) h"
  shows "jni_inv s E"
  using assms by (simp add: jni_inv_def count_inv_def)

lemma jni_slots: "jni_inv s E \<Longrightarrow> slots_inv s" and jni_tables: "jni_inv s E \<Longrightarrow> tables_inv s"
  by (simp_all add: jni_inv_def)

text \<open>Only the count of one reference changes.\<close>

lemma recount:
  assumes inv: "jni_inv s E" and s': "s' = s\<lparr>jni_ref_counts := rc\<rparr>"
    and others: "\<And>k. k \<noteq> h \<Longrightarrow> map_of rc k = map_of (jni_ref_counts s) k"
    and E': "\<And>k. k \<noteq> h \<Longrightarrow> k \<noteq> 0 \<Longrightarrow> count E' k = count E k"
    and own: "managed s h \<Longrightarrow> (case map_of rc h of None \<Rightarrow> 0 | Some c \<Rightarrow> c) = count (held s + E') h \<and>
      (live s h \<longleftrightarrow> 0 < count (held s + E') h)"
  shows "jni_inv s' E'"
proof (rule jni_invI)
  show "slots_inv s'" "tables_inv s'" using inv by (simp_all add: s' jni_inv_def)
next
  fix k assume "managed s' k"
  then have k: "managed s k" "k \<noteq> 0" by (auto simp: s' managed_def)
  have held: "held s' = held s" by (simp add: s' held_def)
  have count: "ref_count s' k = (case map_of rc k of None \<Rightarrow> 0 | Some c \<Rightarrow> c)" by (simp add: s' ref_count_def)
  have live: "live s' k = live s k" by (simp add: s' live_def)
  show "ref_count s' k = count (held s' + E') k"
    using k jniD [OF inv k(1)] others [of k] E' [of k] own held count by (cases "k = h") (auto simp: ref_count_def)
  show "live s' k \<longleftrightarrow> 0 < count (held s' + E') k"
    using k jniD [OF inv k(1)] E' [of k] own held live by (cases "k = h") auto
qed


section \<open>Releasing a reference\<close>

lemma last_reference:
  assumes "jni_inv s (add_mset h E)" "managed s h" "ref_count s h \<le> 1"
  shows "count (held s + E) h = 0" "live s h"
proof -
  show "count (held s + E) h = 0" "live s h" using jniD [OF assms(1,2)] assms(3) by auto
qed

lemma release_drop_count:
  assumes "jni_inv s (add_mset h E)" "map_of (jni_ref_counts s) h = Some c" "1 < c"
  shows "jni_inv (s\<lparr>jni_ref_counts := put_key h (c - 1) (jni_ref_counts s)\<rparr>) E"
proof (rule recount [OF assms(1) refl, where h = h])
  assume m: "managed s h"
  have "ref_count s h = c" using assms(2) by (simp add: ref_count_def)
  then show "(case map_of (put_key h (c - 1) (jni_ref_counts s)) h of None \<Rightarrow> 0 | Some c \<Rightarrow> c) = count (held s + E) h \<and>
      live s h = (0 < count (held s + E) h)"
    using jniD [OF assms(1) m] assms(3) by auto
qed auto

lemma release_one_last:
  assumes "h \<noteq> 0" "ref_count s h \<le> 1"
  shows "release_one h s = destroy h (s\<lparr>jni_ref_counts := del_key h (jni_ref_counts s)\<rparr>)"
proof (cases "map_of (jni_ref_counts s) h")
  case None
  then have "del_key h (jni_ref_counts s) = jni_ref_counts s" by (simp add: del_absent map_of_eq_None_iff)
  then show ?thesis using None assms by (simp add: release_one_def)
qed (use assms in \<open>simp add: release_one_def ref_count_def\<close>)

lemma release_unmanaged:
  assumes "jni_inv s (add_mset h E)" "\<not> managed s h"
  shows "jni_inv (s\<lparr>jni_ref_counts := del_key h (jni_ref_counts s)\<rparr>) E"
  by (rule recount [OF assms(1) refl, where h = h]) (use assms(2) in auto)

lemma release_array:
  assumes inv: "jni_inv s (add_mset h E)" and a: "map_of (array_storage s) h = Some a"
    and none: "count (held s + E) h = 0"
  shows "jni_inv (s\<lparr>jni_ref_counts := del_key h (jni_ref_counts s), array_storage := del_key h (array_storage s)\<rparr>)
     (mset (pa_objects a) + E)" (is "jni_inv ?s _")
proof (rule jni_invI)
  note no = array_not_object [OF jni_slots [OF inv] jni_tables [OF inv]]
  have ha: "h \<in> fst ` set (array_storage s)" using a by (force dest: map_of_SomeD)
  show "slots_inv ?s" using jni_slots [OF inv] by (simp add: slots_inv_def)
  show "tables_inv ?s" using jni_tables [OF inv] by (auto simp: tables_inv_def)
  have held: "held ?s + (mset (pa_objects a) + E) = held s + E"
    using table_refs_del [OF tablesD(2) [OF jni_tables [OF inv]] a, of pa_objects] by (simp add: held_def ac_simps)
  fix k assume "managed ?s k"
  then have k: "managed s k" by (simp add: managed_def)
  have old: "k \<noteq> h \<Longrightarrow> ref_count ?s k = ref_count s k \<and> live ?s k = live s k"
    by (auto simp: ref_count_def live_def)
  show "ref_count ?s k = count (held ?s + (mset (pa_objects a) + E)) k"
    unfolding held using none jniD(1) [OF inv k] old by (cases "k = h") (auto simp: ref_count_def)
  show "live ?s k \<longleftrightarrow> 0 < count (held ?s + (mset (pa_objects a) + E)) k"
    unfolding held using none jniD [OF inv k] old no(1) [OF ha] by (cases "k = h") (auto simp: live_def)
qed

definition free_object :: "jobject \<Rightarrow> nat \<Rightarrow> Jni \<Rightarrow> Jni" where
  "free_object h i s = s\<lparr>jni_ref_counts := del_key h (jni_ref_counts s), segment_types := (segment_types s)(i := SegEmpty),
     my_segment := (my_segment s)(i := 0), segment_owners := (segment_owners s)(i := None),
     free_slots := free_slots s @ [i], known_strings := removeAll h (known_strings s),
     object_storage := del_key h (object_storage s)\<rparr>"

lemma free_object_slots:
  assumes inv: "slots_inv s" "tables_inv s" and po: "(h, po) \<in> set (object_storage s)" and i: "JniIndexFromHandle h = i"
    and ns: "h \<notin> snd ` set (singleton_objects s)"
  shows "slots_inv (free_object h i s)" "tables_inv (free_object h i s)"
proof -
  obtain i' where "h = JniHandleFromIndex i'" "JniIndexFromHandle h = i'" "segment_types s i' = SegObject"
    "0 < i'" "i' < jni_ref_index s" "i' \<notin> set (free_slots s)"
    by (rule object_slot [OF inv(1) po]) blast
  then have hi: "h = JniHandleFromIndex i" "segment_types s i = SegObject" "0 < i" "i < jni_ref_index s"
    "i \<notin> set (free_slots s)" using i by auto
  have objs: "set (del_key h (object_storage s)) \<subseteq> set (object_storage s)" by (auto simp: del_key_def)
  have objs': "(k, q) \<in> set (del_key h (object_storage s)) \<Longrightarrow> k \<noteq> h" for k q by (auto simp: del_key_def)
  show "tables_inv (free_object h i s)" using inv(2) ns objs by (auto simp: tables_inv_def free_object_def)
  have dist: "distinct (map (po_address \<circ> snd) (del_key h (object_storage s)))"
    using slotsD(8) [OF inv(1)] unfolding del_key_def by (rule distinct_map_filter)
  have cls: "i' \<noteq> i" if "segment_types s i' = SegClass" for i' using that hi(2) by auto
  show "slots_inv (free_object h i s)"
  proof (rule slotsI)
    note d = slotsD [OF inv(1)]
    show "0 < jni_ref_index (free_object h i s)" "jni_ref_index (free_object h i s) \<le> kJniSegmentCapacity"
      "distinct (free_slots (free_object h i s))"
      using d(1-3) hi by (auto simp: free_object_def)
    show "distinct (map (po_address \<circ> snd) (object_storage (free_object h i s)))"
      using dist by (simp add: free_object_def)
    fix j
    show "(j \<in> set (free_slots (free_object h i s))) = (0 < j \<and> j < jni_ref_index (free_object h i s) \<and>
      segment_types (free_object h i s) j = SegEmpty)"
      using d(4) [of j] hi by (auto simp: free_object_def)
    show "j = 0 \<or> jni_ref_index (free_object h i s) \<le> j \<Longrightarrow> segment_types (free_object h i s) j = SegEmpty"
      using d(5) [of j] d(6) by (auto simp: free_object_def)
    show "segment_types (free_object h i s) j = SegObject \<Longrightarrow>
      JniHandleFromIndex j \<in> fst ` set (object_storage (free_object h i s))"
      using d(7) [of j] hi(1) by (auto simp: free_object_def split: if_splits)
    fix k
    have "\<exists>j. k = JniHandleFromIndex j \<and> segment_types s j = SegClass" if "k \<in> set (known_classes s)"
      using class_slot [OF inv(1) that] by metis
    then show "k \<in> set (known_classes (free_object h i s)) \<Longrightarrow>
      \<exists>j. k = JniHandleFromIndex j \<and> segment_types (free_object h i s) j = SegClass"
      using cls by (simp add: free_object_def) metis
    fix q assume "(k, q) \<in> set (object_storage (free_object h i s))"
    then have kq: "(k, q) \<in> set (object_storage s)" "k \<noteq> h" by (auto simp: free_object_def del_key_def)
    show "\<exists>j. k = JniHandleFromIndex j \<and> segment_types (free_object h i s) j = SegObject \<and>
      my_segment (free_object h i s) j = po_address q \<and> po_address q \<noteq> 0"
      by (rule object_slot [OF inv(1) kq(1)]) (use kq(2) hi(1) in \<open>auto simp: free_object_def\<close>)
  qed
qed


lemma release_object:
  assumes inv: "jni_inv s (add_mset h E)" and m: "managed s h" and po: "map_of (object_storage s) h = Some po"
    and none: "count (held s + E) h = 0"
  shows "jni_inv (free_object h (JniIndexFromHandle h) s) (mset (object_refs po) + E)" (is "jni_inv ?s _")
proof (rule jni_invI)
  have po': "(h, po) \<in> set (object_storage s)" using po by (rule map_of_SomeD)
  note ft = free_object_slots [OF jni_slots [OF inv] jni_tables [OF inv] po' refl]
  show "slots_inv ?s" "tables_inv ?s" using ft m by (simp_all add: managed_def)
  have na: "h \<notin> fst ` set (array_storage s)"
    using array_not_object(1) [OF jni_slots [OF inv] jni_tables [OF inv], of h] po' by force
  have held: "held ?s + (mset (object_refs po) + E) = held s + E"
    using table_refs_del [OF tablesD(1) [OF jni_tables [OF inv]] po, of object_refs]
    by (simp add: held_def free_object_def ac_simps)
  fix k assume "managed ?s k"
  then have k: "managed s k" by (simp add: managed_def free_object_def)
  have old: "k \<noteq> h \<Longrightarrow> ref_count ?s k = ref_count s k \<and> live ?s k = live s k"
    by (auto simp: ref_count_def live_def free_object_def)
  have new: "ref_count ?s h = 0" "\<not> live ?s h" using na by (auto simp: ref_count_def live_def free_object_def)
  show "ref_count ?s k = count (held ?s + (mset (object_refs po) + E)) k"
    unfolding held using none jniD(1) [OF inv k] old new by (cases "k = h") auto
  show "live ?s k \<longleftrightarrow> 0 < count (held ?s + (mset (object_refs po) + E)) k"
    unfolding held using none jniD [OF inv k] old new by (cases "k = h") auto
qed

lemma release_one_unmanaged:
  assumes "jni_inv s (add_mset h E)" "\<not> managed s h" "ref_count s h \<le> 1" "h \<noteq> 0"
  shows "release_one h s = (s\<lparr>jni_ref_counts := del_key h (jni_ref_counts s)\<rparr>, [])"
proof -
  have "map_of (array_storage s) h = None"
    using array_not_object [OF jni_slots [OF assms(1)] jni_tables [OF assms(1)], of h] assms(2,4)
    by (fastforce simp: managed_def map_of_eq_None_iff)
  then show ?thesis using assms(2-4) by (auto simp: release_one_last destroy_def managed_def)
qed

lemma release_one_object:
  assumes "slots_inv s" "managed s h" "ref_count s h \<le> 1"
    "map_of (array_storage s) h = None" "map_of (object_storage s) h = Some po"
  shows "release_one h s = (free_object h (JniIndexFromHandle h) s, object_refs po)"
proof -
  obtain i where i: "0 < i" "i < kJniSegmentCapacity" "JniIndexFromHandle h = i"
    by (rule object_slot [OF assms(1) map_of_SomeD [OF assms(5)]]) blast
  show ?thesis using assms(2-5) i
    by (simp add: release_one_last destroy_def managed_def Let_def free_object_def)
qed

lemma release_one_array:
  assumes "managed s h" "ref_count s h \<le> 1" "map_of (array_storage s) h = Some a"
  shows "release_one h s =
    (s\<lparr>jni_ref_counts := del_key h (jni_ref_counts s), array_storage := del_key h (array_storage s)\<rparr>, pa_objects a)"
  using assms by (simp add: release_one_last destroy_def managed_def)

lemma release_one_inv:
  assumes inv: "jni_inv s (add_mset h E)" and r: "release_one h s = (s', children)"
  shows "jni_inv s' (mset children + E)"
proof -
  consider (zero) "h = 0" | (many) c where "h \<noteq> 0" "map_of (jni_ref_counts s) h = Some c" "1 < c"
    | (last) "h \<noteq> 0" "ref_count s h \<le> 1"
    by (cases "map_of (jni_ref_counts s) h"; cases "1 < the (map_of (jni_ref_counts s) h)")
      (auto simp: ref_count_def)
  then show ?thesis
  proof cases
    case zero
    then have "s' = s\<lparr>jni_ref_counts := jni_ref_counts s\<rparr>" "children = []" using r by (simp_all add: release_one_def)
    then show ?thesis using recount [OF inv, of s' "jni_ref_counts s" h E] zero by (auto simp: managed_def)
  next
    case many
    then show ?thesis using r release_drop_count [OF inv many(2,3)] by (auto simp: release_one_def)
  next
    case last
    show ?thesis
    proof (cases "managed s h")
      case False
      then show ?thesis using r release_one_unmanaged [OF inv False last(2,1)] release_unmanaged [OF inv False] by simp
    next
      case True
      note l = last_reference [OF inv True last(2)]
      show ?thesis
      proof (cases "map_of (array_storage s) h")
        case (Some a)
        then show ?thesis using r release_one_array [OF True last(2) Some] release_array [OF inv Some l(1)] by simp
      next
        case None
        then obtain po where po: "map_of (object_storage s) h = Some po"
          using l(2) by (cases "map_of (object_storage s) h") (auto simp: live_def map_of_eq_None_iff)
        then show ?thesis using r release_one_object [OF jni_slots [OF inv] True last(2) None po]
            release_object [OF inv True po l(1)] by simp
      qed
    qed
  qed
qed

theorem release_work_inv: "jni_inv s (mset work + E) \<Longrightarrow> jni_inv (release_work work s) E"
proof (induction work s rule: release_work.induct)
  case (2 obj rest s)
  obtain s' children where r: "release_one obj s = (s', children)" by force
  have "jni_inv s' (mset children + (mset rest + E))"
    by (rule release_one_inv [OF _ r]) (use 2(2) in \<open>simp add: ac_simps\<close>)
  then show ?case using 2(1) [OF r [symmetric]] r by (simp add: ac_simps)
qed simp


section \<open>Moving references between holders\<close>

lemma rehold:
  assumes inv: "jni_inv s E" and s': "slots_inv s'" "tables_inv s'"
    and same: "known_classes s' = known_classes s" "singleton_objects s' = singleton_objects s"
      "jni_ref_counts s' = jni_ref_counts s" "fst ` set (object_storage s') = fst ` set (object_storage s)"
      "fst ` set (array_storage s') = fst ` set (array_storage s)"
    and held: "\<And>k. k \<noteq> 0 \<Longrightarrow> count (held s' + E') k = count (held s + E) k"
  shows "jni_inv s' E'"
proof (rule jni_invI [OF s'])
  fix k assume "managed s' k"
  then have k: "managed s k" "k \<noteq> 0" by (auto simp: managed_def same)
  have "ref_count s' k = ref_count s k" "live s' k = live s k" by (simp_all add: ref_count_def live_def same)
  then show "ref_count s' k = count (held s' + E') k" "live s' k \<longleftrightarrow> 0 < count (held s' + E') k"
    using jniD [OF inv k(1)] held [OF k(2)] by simp_all
qed

lemma extra_unmanaged: "\<not> managed s h \<Longrightarrow> jni_inv s (add_mset h E) \<longleftrightarrow> jni_inv s E"
  by (auto simp: jni_inv_def count_inv_def)

lemma Retain_inv:
  assumes "jni_inv s E" "managed s h \<Longrightarrow> live s h"
  shows "jni_inv (RetainJniReference h s) (add_mset h E)"
proof (cases "h = 0")
  case True
  then show ?thesis using assms(1) extra_unmanaged [of s h E] by (simp add: RetainJniReference_def managed_def)
next
  case False
  have eq: "RetainJniReference h s = s\<lparr>jni_ref_counts := put_key h (ref_count s h + 1) (jni_ref_counts s)\<rparr>"
    using False by (auto simp: RetainJniReference_def ref_count_def split: option.splits)
  show ?thesis unfolding eq
    by (rule recount [OF assms(1) refl, where h = h]) (use assms(2) jniD [OF assms(1), of h] in auto)
qed

lemma EnsureLocalFrame_facts:
  "jni_inv (EnsureLocalFrame s) E = jni_inv s E" "held (EnsureLocalFrame s) = held s" "local_frames (EnsureLocalFrame s) \<noteq> []"
proof -
  show held: "held (EnsureLocalFrame s) = held s" by (auto simp: EnsureLocalFrame_def held_def)
  show "jni_inv (EnsureLocalFrame s) E = jni_inv s E"
    using held by (auto simp: jni_inv_def count_inv_def EnsureLocalFrame_def managed_def ref_count_def live_def)
  show "local_frames (EnsureLocalFrame s) \<noteq> []" by (simp add: EnsureLocalFrame_def)
qed

lemma Register_frames:
  "h \<noteq> 0 \<Longrightarrow> mset (concat (local_frames (RegisterLocalRef h s))) = add_mset h (mset (concat (local_frames s)))"
  by (cases "local_frames s") (auto simp: RegisterLocalRef_def EnsureLocalFrame_def Let_def)

lemma Register_same:
  "\<exists>fs. RegisterLocalRef h s = s\<lparr>local_frames := fs\<rparr>"
proof (cases "h = 0")
  case True
  then have "RegisterLocalRef h s = s\<lparr>local_frames := local_frames s\<rparr>" by (simp add: RegisterLocalRef_def)
  then show ?thesis by blast
qed (auto simp: RegisterLocalRef_def EnsureLocalFrame_def Let_def)

lemma local_frames_held: "held (s\<lparr>local_frames := fs\<rparr>) + mset (concat (local_frames s)) = held s + mset (concat fs)"
  by (simp add: held_def)

lemma frames_inv:
  assumes inv: "jni_inv s E" and fs: "\<And>k. k \<noteq> 0 \<Longrightarrow> count (mset (concat fs) + E') k = count (mset (concat (local_frames s)) + E) k"
  shows "jni_inv (s\<lparr>local_frames := fs\<rparr>) E'"
proof (rule rehold [OF inv])
  fix k :: nat assume "k \<noteq> 0"
  then show "count (held (s\<lparr>local_frames := fs\<rparr>) + E') k = count (held s + E) k"
    using fs [of k] by (simp add: held_def)
qed (use inv in \<open>simp_all add: jni_inv_def\<close>)

lemma Register_inv:
  assumes "jni_inv s (add_mset h E)"
  shows "jni_inv (RegisterLocalRef h s) E"
proof -
  obtain fs where fs: "RegisterLocalRef h s = s\<lparr>local_frames := fs\<rparr>" using Register_same by blast
  show ?thesis unfolding fs
  proof (rule frames_inv [OF assms])
    fix k :: nat assume k: "k \<noteq> 0"
    show "count (mset (concat fs) + E) k = count (mset (concat (local_frames s)) + add_mset h E) k"
      using Register_frames [of h s] k fs by (cases "h = 0") (auto simp: RegisterLocalRef_def dest: arg_cong [where f = local_frames])
  qed
qed

lemma remove_last_mset: "x \<in> set xs \<Longrightarrow> add_mset x (mset (remove_last x xs)) = mset xs"
  by (simp add: remove_last_def)

lemma unregister_mset: "h \<in> set (concat fs) \<Longrightarrow> add_mset h (mset (concat (unregister_frames h fs))) = mset (concat fs)"
proof (induction fs)
  case (Cons a fs)
  then show ?case using remove_last_mset [of h a, symmetric] by (cases "h \<in> set a") auto
qed simp

lemma unregister_absent: "h \<notin> set (concat fs) \<Longrightarrow> unregister_frames h fs = fs"
  by (induction fs) auto

definition local_ref :: "jobject \<Rightarrow> Jni \<Rightarrow> bool" where
  "local_ref h s \<longleftrightarrow> \<not> managed s h \<or> h \<in> set (concat (local_frames s))"

lemma Unregister_inv:
  assumes "jni_inv s E" "local_ref h s"
  shows "jni_inv (UnregisterLocalRef h s) (add_mset h E)"
proof (cases "h \<noteq> 0 \<and> h \<in> set (concat (local_frames s))")
  case True
  show ?thesis using True unregister_mset [of h "local_frames s", symmetric]
    by (auto simp: UnregisterLocalRef_def intro!: frames_inv [OF assms(1)])
next
  case False
  then have "UnregisterLocalRef h s = s\<lparr>local_frames := local_frames s\<rparr>" "\<not> managed s h"
    using unregister_absent [of h "local_frames s"] assms(2) by (auto simp: UnregisterLocalRef_def local_ref_def managed_def)
  then show ?thesis using assms(1) extra_unmanaged [of s h E] by simp
qed

lemma DeleteLocal_inv: "jni_inv s E \<Longrightarrow> local_ref h s \<Longrightarrow> jni_inv (DeleteLocalJniReference h s) E"
  unfolding DeleteLocalJniReference_def ReleaseJniReference_def
  by (rule release_work_inv) (simp add: Unregister_inv)

definition valid :: "jobject \<Rightarrow> Jni \<Rightarrow> bool" where
  "valid h s \<longleftrightarrow> \<not> managed s h \<or> h \<in># held s"

lemma valid_live: "jni_inv s E \<Longrightarrow> valid h s \<Longrightarrow> managed s h \<Longrightarrow> live s h"
  using jniD(2) [of s E h] by (auto simp: valid_def)

lemma NewLocal_inv: "jni_inv s E \<Longrightarrow> valid h s \<Longrightarrow> jni_inv (snd (NewLocalJniReference h s)) E"
  by (auto simp: NewLocalJniReference_def intro!: Register_inv Retain_inv dest: valid_live)

lemma Push_inv: "jni_inv s E \<Longrightarrow> jni_inv (PushLocalJniFrame s) E"
  by (auto simp: PushLocalJniFrame_def Let_def EnsureLocalFrame_facts intro!: frames_inv)

lemma held_Retain: "held (RetainJniReference h s) = held s" "local_frames (RetainJniReference h s) = local_frames s"
  by (auto simp: RetainJniReference_def held_def split: option.splits)

lemma Pop_inv:
  assumes "jni_inv s E" "valid h s"
  shows "jni_inv (snd (PopLocalJniFrame h s)) E"
proof -
  let ?s = "RetainJniReference h (EnsureLocalFrame s)"
  have "managed (EnsureLocalFrame s) = managed s" "live (EnsureLocalFrame s) = live s"
    by (auto simp: managed_def live_def EnsureLocalFrame_def fun_eq_iff)
  then have inv: "jni_inv ?s (add_mset h E)"
    using assms valid_live [of s E h] by (intro Retain_inv) (simp_all add: EnsureLocalFrame_facts)
  have ne: "local_frames ?s \<noteq> []" by (simp add: held_Retain EnsureLocalFrame_facts)
  let ?s' = "?s\<lparr>local_frames := (if length (local_frames ?s) > 1 then tl (local_frames ?s) else [[]])\<rparr>"
  have "jni_inv ?s' (mset (hd (local_frames ?s)) + add_mset h E)"
    by (rule frames_inv [OF inv]) (use ne in \<open>cases "local_frames ?s"; cases "tl (local_frames ?s)"; auto\<close>)
  from Register_inv [OF release_work_inv [OF this]] show ?thesis by (simp add: PopLocalJniFrame_def Let_def)
qed


lemma globals_inv:
  assumes inv: "jni_inv s E" and gs: "\<And>k. k \<noteq> 0 \<Longrightarrow> count (mset gs + E') k = count (mset (globals s) + E) k"
  shows "jni_inv (s\<lparr>globals := gs\<rparr>) E'"
proof (rule rehold [OF inv])
  fix k :: nat assume "k \<noteq> 0"
  then show "count (held (s\<lparr>globals := gs\<rparr>) + E') k = count (held s + E) k"
    using gs [of k] by (simp add: held_def)
qed (use inv in \<open>simp_all add: jni_inv_def\<close>)

lemma NewGlobal_inv:
  assumes "jni_inv s E" "valid h s"
  shows "jni_inv (snd (NewGlobalRef h s)) E"
proof -
  have "globals (RetainJniReference h s) = globals s" by (auto simp: RetainJniReference_def split: option.splits)
  then show ?thesis using Retain_inv [OF assms(1) valid_live [OF assms]]
    by (auto simp: NewGlobalRef_def intro!: globals_inv)
qed

definition global_ref :: "jobject \<Rightarrow> Jni \<Rightarrow> bool" where
  "global_ref h s \<longleftrightarrow> \<not> managed s h \<or> h \<in> set (globals s)"

lemma DeleteGlobal_inv:
  assumes "jni_inv s E" "global_ref h s"
  shows "jni_inv (DeleteGlobalRef h s) E"
  unfolding DeleteGlobalRef_def ReleaseJniReference_def
proof (rule release_work_inv)
  show "jni_inv (s\<lparr>globals := remove1 h (globals s)\<rparr>) (mset [h] + E)"
  proof (cases "h \<in> set (globals s)")
    case True
    then have "add_mset h (mset (remove1 h (globals s))) = mset (globals s)" by simp
    then have "count (mset (globals s)) k = count (mset [h] + mset (remove1 h (globals s))) k" for k by simp
    then show ?thesis by (intro globals_inv [OF assms(1)]) (simp del: mset_remove1)
  next
    case False
    then have "s\<lparr>globals := remove1 h (globals s)\<rparr> = s" by (simp add: remove1_idem)
    then show ?thesis using assms False extra_unmanaged [of s h E] by (simp add: global_ref_def)
  qed
qed

lemma statics_inv:
  assumes inv: "jni_inv s E" and dist: "distinct (map fst fs)"
    and fs: "\<And>k. k \<noteq> 0 \<Longrightarrow> count (table_refs (\<lambda>v. [v]) fs + E') k = count (table_refs (\<lambda>v. [v]) (static_object_fields s) + E) k"
  shows "jni_inv (s\<lparr>static_object_fields := fs\<rparr>) E'"
proof (rule rehold [OF inv])
  fix k :: nat assume "k \<noteq> 0"
  then show "count (held (s\<lparr>static_object_fields := fs\<rparr>) + E') k = count (held s + E) k"
    using fs [of k] by (simp add: held_def)
qed (use inv dist in \<open>simp_all add: jni_inv_def tables_inv_def\<close>)

text \<open>Writing a field of a table of references: the new value is held, the old one is in flight.\<close>

lemma put_field_refs:
  assumes "distinct (map fst fs)"
  shows "k \<noteq> 0 \<Longrightarrow> count (mset (map snd (put_key f v fs)) + {#field_value f fs#}) k = count (mset (map snd fs) + {#v#}) k"
proof (cases "map_of fs f")
  case None
  assume "k \<noteq> 0"
  moreover have "f \<notin> fst ` set fs" using None by (simp add: map_of_eq_None_iff)
  ultimately show ?thesis using None by (simp add: put_key_def field_value_def del_absent)
next
  case (Some w)
  have "mset (map snd fs) = add_mset w (mset (map snd (del_key f fs)))"
    using table_refs_del [OF assms Some, of "\<lambda>v. [v]"] by (simp add: table_refs_def comp_def)
  then show ?thesis using Some by (simp add: put_key_def field_value_def)
qed


lemma Retain_same: "\<exists>rc. RetainJniReference h s = s\<lparr>jni_ref_counts := rc\<rparr>"
proof (cases "h = 0")
  case True
  then have "RetainJniReference h s = s\<lparr>jni_ref_counts := jni_ref_counts s\<rparr>" by (simp add: RetainJniReference_def)
  then show ?thesis by blast
qed (auto simp: RetainJniReference_def split: option.splits)

lemma SetStatic_inv:
  assumes "jni_inv s E" "valid v s"
  shows "jni_inv (SetStaticObjectFieldRaw name v s) E"
proof (cases name)
  case None
  then show ?thesis using assms(1) by (simp add: SetStaticObjectFieldRaw_def)
next
  case (Some f)
  let ?s = "RetainJniReference v s" and ?old = "field_value f (static_object_fields (RetainJniReference v s))"
  have inv: "jni_inv ?s (add_mset v E)" by (rule Retain_inv [OF assms(1) valid_live [OF assms]])
  note d = tablesD(4) [OF jni_tables [OF inv]]
  have "jni_inv (?s\<lparr>static_object_fields := put_key f v (static_object_fields ?s)\<rparr>) (mset [?old] + E)"
  proof (rule statics_inv [OF inv distinct_put [OF d]])
    fix k :: nat assume "k \<noteq> 0"
    from put_field_refs [OF d this, of f v]
    show "count (table_refs (\<lambda>v. [v]) (put_key f v (static_object_fields ?s)) + (mset [?old] + E)) k =
      count (table_refs (\<lambda>v. [v]) (static_object_fields ?s) + add_mset v E) k"
      by (simp add: table_refs_values split: if_splits)
  qed
  from release_work_inv [OF this] show ?thesis using Some
    by (simp add: SetStaticObjectFieldRaw_def ReleaseJniReference_def Let_def)
qed

lemma held_static: "map_of (static_object_fields s) f = Some v \<Longrightarrow> v \<in># held s"
  by (force simp: held_def table_refs_values dest: map_of_SomeD)

lemma held_array: "map_of (array_storage s) h = Some a \<Longrightarrow> v \<in> set (pa_objects a) \<Longrightarrow> v \<in># held s"
  by (force simp: held_def table_refs_def dest: map_of_SomeD)

lemma held_object: "(h, po) \<in> set (object_storage s) \<Longrightarrow> (f, v) \<in> set (po_objects po) \<Longrightarrow> v \<in># held s"
  by (force simp: held_def table_refs_def)

lemma StaticValue_inv: "jni_inv s E \<Longrightarrow> jni_inv (snd (StaticObjectFieldValue name s)) E"
  by (auto simp: StaticObjectFieldValue_def valid_def held_static intro!: NewLocal_inv split: option.splits)

text \<open>Rewriting one array.\<close>

lemma arrays_inv:
  assumes inv: "jni_inv s E" and a: "map_of (array_storage s) h = Some a"
    and refs: "\<And>k. k \<noteq> 0 \<Longrightarrow> count (mset (pa_objects b) + E') k = count (mset (pa_objects a) + E) k"
  shows "jni_inv (s\<lparr>array_storage := put_key h b (array_storage s)\<rparr>) E'"
proof (rule rehold [OF inv])
  have ha: "h \<in> fst ` set (array_storage s)" using a by (force dest: map_of_SomeD)
  note d = tablesD(2) [OF jni_tables [OF inv]]
  show "tables_inv (s\<lparr>array_storage := put_key h b (array_storage s)\<rparr>)"
    using jni_tables [OF inv] ha by (auto simp: tables_inv_def)
  show "fst ` set (array_storage (s\<lparr>array_storage := put_key h b (array_storage s)\<rparr>)) = fst ` set (array_storage s)"
    using ha by auto
  fix k :: nat assume "k \<noteq> 0"
  then show "count (held (s\<lparr>array_storage := put_key h b (array_storage s)\<rparr>) + E') k = count (held s + E) k"
    using refs [of k] table_refs_del [OF d a, of pa_objects] by (simp add: held_def table_refs_put)
qed (use jni_slots [OF inv] in simp_all)

lemma list_update_count:
  "i < length xs \<Longrightarrow> count (mset (xs[i := v])) k + (if xs ! i = k then 1 else 0) = count (mset xs) k + (if v = k then 1 else 0)"
  by (auto simp: mset_update count_list_def [symmetric] dest: nth_mem)

lemma SetArrayElement_inv:
  assumes "jni_inv s E" "valid v s"
  shows "jni_inv (SetObjectArrayElement array index v s) E"
proof (cases "\<exists>a. ArrayFromRef array s = Some a \<and> \<not> (index < 0 \<or> nat index \<ge> length (pa_objects a))")
  case False
  then show ?thesis using assms(1) by (auto simp: SetObjectArrayElement_def split: option.splits)
next
  case True
  then obtain a where a: "map_of (array_storage s) array = Some a" and i: "0 \<le> index" "nat index < length (pa_objects a)"
    by (auto simp: ArrayFromRef_def)
  let ?s = "RetainJniReference v s" and ?old = "pa_objects a ! nat index"
  let ?b = "a\<lparr>pa_objects := (pa_objects a)[nat index := v]\<rparr>"
  have inv: "jni_inv ?s (add_mset v E)" by (rule Retain_inv [OF assms(1) valid_live [OF assms]])
  have same: "array_storage ?s = array_storage s" using Retain_same [of v s] by auto
  have "jni_inv (?s\<lparr>array_storage := put_key array ?b (array_storage ?s)\<rparr>) (mset [?old] + E)"
  proof (rule arrays_inv [OF inv])
    show "map_of (array_storage ?s) array = Some a" using a same by simp
    fix k :: nat
    show "count (mset (pa_objects ?b) + (mset [?old] + E)) k = count (mset (pa_objects a) + add_mset v E) k"
      using list_update_count [OF i(2), of v k] by (simp split: if_splits)
  qed
  from release_work_inv [OF this] show ?thesis using a i same
    by (simp add: SetObjectArrayElement_def ArrayFromRef_def ReleaseJniReference_def Let_def)
qed

lemma GetArrayElement_inv:
  assumes "jni_inv s E"
  shows "jni_inv (snd (GetObjectArrayElement array index s)) E"
proof -
  have "valid (pa_objects a ! i) s" if "map_of (array_storage s) array = Some a" "i < length (pa_objects a)" for a i
    using held_array [OF that(1) nth_mem [OF that(2)]] by (simp add: valid_def)
  then show ?thesis using assms
    by (auto simp: GetObjectArrayElement_def ArrayFromRef_def not_le intro!: NewLocal_inv split: option.splits)
qed

text \<open>Rewriting one object, found by its address.\<close>

lemma find_SomeD: "find P xs = Some x \<Longrightarrow> x \<in> set xs \<and> P x"
  by (induction xs) (auto split: if_splits)

lemma address_unique:
  assumes "slots_inv s" "(h, po) \<in> set (object_storage s)" "(k, q) \<in> set (object_storage s)" "po_address q = po_address po"
  shows "k = h \<and> q = po"
  using slotsD(8) [OF assms(1)] assms(2-4) inj_on_eq_iff [of "po_address \<circ> snd" "set (object_storage s)" "(k, q)" "(h, po)"]
  by (simp add: distinct_map)

lemma deref_object:
  assumes "slots_inv s" "(h, po) \<in> set (object_storage s)"
  shows "deref s (po_address po) = Some (h, po)"
proof (cases "deref s (po_address po)")
  case None
  then show ?thesis using assms(2) by (force simp: deref_def find_None_iff)
next
  case (Some x)
  then have "x \<in> set (object_storage s)" "po_address (snd x) = po_address po"
    by (auto simp: deref_def case_prod_beta dest: find_SomeD)
  then show ?thesis using Some address_unique [OF assms, of "fst x" "snd x"] by (cases x) auto
qed

lemma FromRef_object:
  assumes "slots_inv s" "PseudoObjectFromRef h s = Some a"
  obtains po k where "(k, po) \<in> set (object_storage s)" "po_address po = a" "k = JniHandleFromIndex (JniIndexFromHandle h)"
proof -
  have i: "segment_types s (JniIndexFromHandle h) = SegObject" "my_segment s (JniIndexFromHandle h) = a"
    using assms(2) by (auto simp: PseudoObjectFromRef_def Let_def split: if_splits)
  then obtain po where po: "(JniHandleFromIndex (JniIndexFromHandle h), po) \<in> set (object_storage s)"
    using slotsD(7) [OF assms(1)] by force
  moreover have "po_address po = a" by (rule object_slot [OF assms(1) po]) (use i in auto)
  ultimately show thesis using that by blast
qed

lemma object_at_managed:
  assumes "slots_inv s" "(h, po) \<in> set (object_storage s)"
  shows "object_at h s = Some po"
  by (rule object_slot [OF assms])
    (use deref_object [OF assms] in \<open>simp add: object_at_def PseudoObjectFromRef_def\<close>)

lemma object_at_stored:
  assumes "slots_inv s" "object_at h s = Some po"
  shows "\<exists>k. (k, po) \<in> set (object_storage s)"
proof -
  obtain a where a: "PseudoObjectFromRef h s = Some a" using assms(2) by (auto simp: object_at_def split: option.splits)
  obtain k q where q: "(k, q) \<in> set (object_storage s)" "po_address q = a" by (rule FromRef_object [OF assms(1) a]) blast
  then show ?thesis using assms(2) a deref_object [OF assms(1) q(1)] by (auto simp: object_at_def)
qed

lemma FieldValue_inv:
  assumes "jni_inv s E"
  shows "jni_inv (snd (ObjectFieldValue h name s)) E"
proof -
  have "valid v s" if "object_at h s = Some po" "map_of (po_objects po) f = Some v" for po f v
    using object_at_stored [OF jni_slots [OF assms] that(1)] map_of_SomeD [OF that(2)]
    by (auto simp: valid_def dest: held_object)
  then show ?thesis using assms by (auto simp: ObjectFieldValue_def intro!: NewLocal_inv split: option.splits)
qed


definition set_object :: "jobject \<Rightarrow> PseudoJavaObject \<Rightarrow> (jobject \<times> PseudoJavaObject) list \<Rightarrow> (jobject \<times> PseudoJavaObject) list" where
  "set_object h po' xs = map (\<lambda>(k, q). (k, if k = h then po' else q)) xs"

lemma update_object_eq:
  assumes "slots_inv s" "tables_inv s" "(h, po) \<in> set (object_storage s)" "po_address po = a"
  shows "update_object a f s = s\<lparr>object_storage := set_object h (f po) (object_storage s)\<rparr>"
proof -
  have "(if po_address q = a then f q else q) = (if k = h then f po else q)" if "(k, q) \<in> set (object_storage s)" for k q
    using address_unique [OF assms(1,3) that] assms(3,4) that tablesD(1) [OF assms(2)]
    by (auto dest: eq_key_imp_eq_value)
  then have "map (\<lambda>(k, q). (k, if po_address q = a then f q else q)) (object_storage s) = set_object h (f po) (object_storage s)"
    unfolding set_object_def by (intro map_cong) auto
  then show ?thesis by (simp add: update_object_def)
qed

lemma set_object_keys [simp]: "map fst (set_object h po' xs) = map fst xs" "fst ` set (set_object h po' xs) = fst ` set xs"
  by (induction xs) (auto simp: set_object_def)

lemma set_object_simps [simp]:
  "set_object h po' [] = []" "set_object h po' ((k, q) # xs) = (k, if k = h then po' else q) # set_object h po' xs"
  by (simp_all add: set_object_def)

lemma set_object_refs:
  "distinct (map fst xs) \<Longrightarrow> (h, po) \<in> set xs \<Longrightarrow> table_refs f (set_object h po' xs) + mset (f po) = table_refs f xs + mset (f po')"
proof (induction xs)
  case (Cons p xs)
  have "set_object h po' xs = xs" if "h \<notin> fst ` set xs"
    using that unfolding set_object_def by (intro map_idI) force
  then show ?case using Cons by (cases p; cases "fst p = h") (auto simp: image_iff ac_simps)
qed simp

lemma set_object_addresses:
  assumes "distinct (map fst xs)" "(h, po) \<in> set xs" "po_address po' = po_address po"
  shows "map (po_address \<circ> snd) (set_object h po' xs) = map (po_address \<circ> snd) xs"
    "(k, q) \<in> set (set_object h po' xs) \<Longrightarrow> \<exists>q'. (k, q') \<in> set xs \<and> po_address q' = po_address q \<and> (q = q' \<or> q = po')"
  using assms by (auto simp: set_object_def dest: eq_key_imp_eq_value split: if_splits)

lemma set_object_slots:
  assumes "slots_inv s" "tables_inv s" "(h, po) \<in> set (object_storage s)" "po_address po' = po_address po"
    "distinct (map fst (po_objects po'))"
  shows "slots_inv (s\<lparr>object_storage := set_object h po' (object_storage s)\<rparr>)" (is "slots_inv ?s")
    "tables_inv (s\<lparr>object_storage := set_object h po' (object_storage s)\<rparr>)"
proof -
  note d = tablesD(1) [OF assms(2)]
  note m = set_object_addresses [OF d assms(3,4)]
  show "tables_inv ?s" using assms(2,5) by (auto simp: tables_inv_def dest!: m(2))
  show "slots_inv ?s"
  proof (rule slotsI)
    fix k q assume "(k, q) \<in> set (object_storage ?s)"
    then obtain q' where "(k, q') \<in> set (object_storage s)" "po_address q' = po_address q" using m(2) by auto
    then show "\<exists>i. k = JniHandleFromIndex i \<and> segment_types ?s i = SegObject \<and> my_segment ?s i = po_address q \<and> po_address q \<noteq> 0"
      using object_slot [OF assms(1), of k q'] by auto
  next
    fix k show "k \<in> set (known_classes ?s) \<Longrightarrow> \<exists>i. k = JniHandleFromIndex i \<and> segment_types ?s i = SegClass"
      using class_slot [OF assms(1), of k] by auto
  qed (use slotsD [OF assms(1)] m(1) in auto)
qed

lemma objects_inv:
  assumes inv: "jni_inv s E" and po: "(h, po) \<in> set (object_storage s)"
    and po': "po_address po' = po_address po" "distinct (map fst (po_objects po'))"
    and refs: "\<And>k. k \<noteq> 0 \<Longrightarrow> count (mset (object_refs po') + E') k = count (mset (object_refs po) + E) k"
  shows "jni_inv (s\<lparr>object_storage := set_object h po' (object_storage s)\<rparr>) E'"
proof (rule rehold [OF inv set_object_slots [OF jni_slots [OF inv] jni_tables [OF inv] po po']])
  fix k :: nat assume k: "k \<noteq> 0"
  have "count (table_refs object_refs (set_object h po' (object_storage s)) + mset (object_refs po)) k =
    count (table_refs object_refs (object_storage s) + mset (object_refs po')) k"
    using set_object_refs [OF tablesD(1) [OF jni_tables [OF inv]] po, of object_refs po'] by simp
  then show "count (held (s\<lparr>object_storage := set_object h po' (object_storage s)\<rparr>) + E') k = count (held s + E) k"
    using refs [OF k] by (simp add: held_def)
qed simp_all


lemma SetObjectField_inv:
  assumes "jni_inv s E" "valid v s"
  shows "jni_inv (SetObjectFieldRaw h name v s) E"
proof (cases "PseudoObjectFromRef h s = None \<or> name = None")
  case True
  then show ?thesis using assms(1) by (auto simp: SetObjectFieldRaw_def split: option.splits)
next
  case False
  then obtain a f where a: "PseudoObjectFromRef h s = Some a" and f: "name = Some f" by auto
  obtain k po where po: "(k, po) \<in> set (object_storage s)" "po_address po = a"
    by (rule FromRef_object [OF jni_slots [OF assms(1)] a]) blast
  let ?s = "RetainJniReference v s" and ?old = "field_value f (po_objects po)"
  let ?po = "po\<lparr>po_objects := put_key f v (po_objects po)\<rparr>"
  have inv: "jni_inv ?s (add_mset v E)" by (rule Retain_inv [OF assms(1) valid_live [OF assms]])
  have po': "(k, po) \<in> set (object_storage ?s)" using Retain_same [of v s] po(1) by auto
  note d = tablesD(5) [OF jni_tables [OF inv] po']
  have "jni_inv (?s\<lparr>object_storage := set_object k ?po (object_storage ?s)\<rparr>) (mset [?old] + E)"
  proof (rule objects_inv [OF inv po'])
    fix j :: nat assume "j \<noteq> 0"
    from put_field_refs [OF d this, of f v]
    show "count (mset (object_refs ?po) + (mset [?old] + E)) j = count (mset (object_refs po) + add_mset v E) j"
      by (simp split: if_splits)
  qed (use d in simp_all)
  then have s': "jni_inv (update_object a (\<lambda>po. po\<lparr>po_objects := put_key f v (po_objects po)\<rparr>) ?s) (mset [?old] + E)"
    by (simp add: update_object_eq [OF jni_slots [OF inv] jni_tables [OF inv] po' po(2)])
  have old: "(case deref ?s a of None \<Rightarrow> 0 | Some (h, po) \<Rightarrow> field_value f (po_objects po)) = ?old"
    using deref_object [OF jni_slots [OF inv] po'] po(2) by simp
  show ?thesis
  proof (cases "?old = 0")
    case True
    then show ?thesis using s' a f old extra_unmanaged by (simp add: SetObjectFieldRaw_def Let_def managed_def)
  next
    case False
    then show ?thesis using release_work_inv [OF s'] a f old by (simp add: SetObjectFieldRaw_def ReleaseJniReference_def Let_def)
  qed
qed

lemma plain_set_inv:
  assumes "jni_inv s E" "PseudoObjectFromRef h s = Some a"
    "\<And>po. po_address (g po) = po_address po" "\<And>po. po_objects (g po) = po_objects po"
  shows "jni_inv (update_object a g s) E"
proof -
  obtain k po where po: "(k, po) \<in> set (object_storage s)" "po_address po = a"
    by (rule FromRef_object [OF jni_slots [OF assms(1)] assms(2)]) blast
  show ?thesis unfolding update_object_eq [OF jni_slots [OF assms(1)] jni_tables [OF assms(1)] po]
    by (rule objects_inv [OF assms(1) po(1)])
      (use assms(3,4) tablesD(5) [OF jni_tables [OF assms(1)] po(1)] in simp_all)
qed

lemma SetPlainFields_inv:
  assumes "jni_inv s E"
  shows "jni_inv (SetIntFieldRaw h name i s) E" "jni_inv (SetLongFieldRaw h name l s) E"
    "jni_inv (SetFloatFieldRaw h name f s) E" "jni_inv (SetBooleanFieldRaw h name b s) E"
  using assms by (auto simp: SetIntFieldRaw_def SetLongFieldRaw_def SetFloatFieldRaw_def SetBooleanFieldRaw_def
      intro!: plain_set_inv split: option.splits)

end
