(* ===== verification/Jni_Safety.thy ===== *)
theory Jni_Safety
  imports Jni_Counting
begin

text \<open>
  Allocation of slots, objects, strings, classes and arrays keeps the invariant of \<open>Jni_Counting\<close>; the
  calls native code makes are put together as \<open>exec\<close> with what the JNI asks of a caller as \<open>allowed\<close>,
  and the properties of the table after any sequence of permitted calls follow from \<open>reached_inv\<close>.
\<close>

section \<open>Allocation\<close>

definition slot_list_ok :: "Jni \<Rightarrow> bool" where
  "slot_list_ok s \<longleftrightarrow> 0 < jni_ref_index s \<and> jni_ref_index s \<le> kJniSegmentCapacity \<and> distinct (free_slots s) \<and>
     (\<forall>i. i \<in> set (free_slots s) \<longleftrightarrow> 0 < i \<and> i < jni_ref_index s \<and> segment_types s i = SegEmpty) \<and>
     (\<forall>i. i = 0 \<or> jni_ref_index s \<le> i \<longrightarrow> segment_types s i = SegEmpty)"

lemma Allocate_cases:
  assumes "slots_inv s" "AllocateSegmentSlot v own t s = (i, s')" "t \<noteq> SegEmpty"
  shows "i = 0 \<and> s' = s \<or>
    0 < i \<and> i < kJniSegmentCapacity \<and> segment_types s i = SegEmpty \<and> slot_list_ok s' \<and>
    (\<exists>n fs. s' = s\<lparr>jni_ref_index := n, free_slots := fs, my_segment := (my_segment s)(i := v),
       segment_owners := (segment_owners s)(i := own), segment_types := (segment_types s)(i := t)\<rparr>)"
proof -
  note d = slotsD [OF assms(1)]
  consider (free) "free_slots s \<noteq> []" | (new) "free_slots s = []" "jni_ref_index s < kJniSegmentCapacity"
    | (full) "free_slots s = []" "\<not> jni_ref_index s < kJniSegmentCapacity" by blast
  then show ?thesis
  proof cases
    case free
    then obtain fs j where fs: "free_slots s = fs @ [j]" by (metis rev_exhaust)
    then have j: "j = i" using assms(2) by (simp add: AllocateSegmentSlot_def Let_def)
    have mem: "k \<in> set fs \<or> k = i \<longleftrightarrow> 0 < k \<and> k < jni_ref_index s \<and> segment_types s k = SegEmpty" for k
      using d(4) [of k] fs j by auto
    have s': "s' = s\<lparr>jni_ref_index := jni_ref_index s, free_slots := fs, my_segment := (my_segment s)(i := v),
       segment_owners := (segment_owners s)(i := own), segment_types := (segment_types s)(i := t)\<rparr>"
      using assms(2) fs by (auto simp: AllocateSegmentSlot_def Let_def)
    have i: "0 < i" "i < jni_ref_index s" "segment_types s i = SegEmpty" "i \<notin> set fs" "distinct fs"
      using mem [of i] d(3) fs j by auto
    have ok: "slot_list_ok s'" using mem i d(1,2,5,6) assms(3) by (auto simp: s' slot_list_ok_def)
    have "i < kJniSegmentCapacity" using i(2) d(2) by simp
    with i ok show ?thesis by (intro disjI2 conjI exI) (assumption | rule s')+
  next
    case new
    then have i: "i = jni_ref_index s" and s': "s' = s\<lparr>jni_ref_index := Suc (jni_ref_index s), free_slots := free_slots s,
       my_segment := (my_segment s)(i := v), segment_owners := (segment_owners s)(i := own),
       segment_types := (segment_types s)(i := t)\<rparr>"
      using assms(2) d(1) by (auto simp: AllocateSegmentSlot_def Let_def)
    have "k < jni_ref_index s \<Longrightarrow> 0 < k \<Longrightarrow> segment_types s k \<noteq> SegEmpty" for k using d(4) [of k] new(1) by simp
    then have ok: "slot_list_ok s'" using d(1,2,5,6) new assms(3) by (auto simp: s' i slot_list_ok_def less_Suc_eq)
    have "0 < i" "i < kJniSegmentCapacity" "segment_types s i = SegEmpty" using i d(1) d(5) [of i] new(2) by simp_all
    with ok show ?thesis by (intro disjI2 conjI exI) (assumption | rule s')+
  qed (use assms d in \<open>auto simp: AllocateSegmentSlot_def Let_def slot_list_ok_def\<close>)
qed


lemma slots_of_list:
  assumes "slot_list_ok s"
    "\<And>h po. (h, po) \<in> set (object_storage s) \<Longrightarrow>
       \<exists>i. h = JniHandleFromIndex i \<and> segment_types s i = SegObject \<and> my_segment s i = po_address po \<and> po_address po \<noteq> 0"
    "\<And>i. segment_types s i = SegObject \<Longrightarrow> JniHandleFromIndex i \<in> fst ` set (object_storage s)"
    "\<And>h. h \<in> set (known_classes s) \<Longrightarrow> \<exists>i. h = JniHandleFromIndex i \<and> segment_types s i = SegClass"
    "distinct (map (po_address \<circ> snd) (object_storage s))"
  shows "slots_inv s"
  by (rule slotsI [OF _ _ _ _ _ assms(2-5)]) (use assms(1) [unfolded slot_list_ok_def] in blast)+

text \<open>A handle on an empty slot is neither stored nor counted nor held.\<close>

lemma empty_slot_unused:
  assumes inv: "jni_inv s E" and i: "0 < i" "i < kJniSegmentCapacity" "segment_types s i = SegEmpty"
  shows "JniHandleFromIndex i \<notin> fst ` set (object_storage s)" "JniHandleFromIndex i \<notin> fst ` set (array_storage s)"
    "JniHandleFromIndex i \<notin> set (known_classes s)" "managed s (JniHandleFromIndex i)"
    "count (held s + E) (JniHandleFromIndex i) = 0"
proof -
  note si = jni_slots [OF inv] and ti = jni_tables [OF inv]
  show o: "JniHandleFromIndex i \<notin> fst ` set (object_storage s)"
  proof
    assume "JniHandleFromIndex i \<in> fst ` set (object_storage s)"
    then obtain po where "(JniHandleFromIndex i, po) \<in> set (object_storage s)" by auto
    from object_slot [OF si this] i(3) show False by auto
  qed
  show c: "JniHandleFromIndex i \<notin> set (known_classes s)"
    using class_slot [OF si, of "JniHandleFromIndex i"] i(3) by auto
  have "JniIndexFromHandle (JniHandleFromIndex i) = i" using i(2) by (simp add: kJniSegmentCapacity_def)
  then show a: "JniHandleFromIndex i \<notin> fst ` set (array_storage s)"
    using ti i(2) unfolding tables_inv_def by (metis not_le)
  show m: "managed s (JniHandleFromIndex i)"
    using c i(1) tablesD(3) [OF ti, of "JniHandleFromIndex i"] o by (auto simp: managed_def)
  show "count (held s + E) (JniHandleFromIndex i) = 0" using jniD(2) [OF inv m] a o by (simp add: live_def not_in_iff)
qed

lemma Register_StoreObject_aux:
  assumes inv: "jni_inv s E" and i: "0 < i" "i < kJniSegmentCapacity" "segment_types s i = SegEmpty"
    and s': "s' = s\<lparr>jni_ref_index := n, free_slots := fs, my_segment := (my_segment s)(i := po_address po),
       segment_owners := (segment_owners s)(i := own), segment_types := (segment_types s)(i := SegObject)\<rparr>"
    and ok: "slot_list_ok s'" and h: "h = JniHandleFromIndex i"
    and fresh: "po_address po \<noteq> 0" "po_address po \<notin> (po_address \<circ> snd) ` set (object_storage s)" "po_objects po = []"
  shows "jni_inv (s'\<lparr>object_storage := put_key h po (object_storage s'), jni_ref_counts := put_key h 1 (jni_ref_counts s')\<rparr>)
    (add_mset h E)" (is "jni_inv ?s _")
proof (rule jni_invI)
  note e = empty_slot_unused [OF inv i, folded h]
  have put: "put_key h po (object_storage s) = (h, po) # object_storage s" using e(1) by (simp add: put_key_def del_absent)
  show "slots_inv ?s"
  proof (rule slots_of_list)
    show "slot_list_ok ?s" using ok by (simp add: slot_list_ok_def)
    fix k q assume "(k, q) \<in> set (object_storage ?s)"
    then consider "k = h" "q = po" | "(k, q) \<in> set (object_storage s)" "k \<noteq> h" using e(1) by (force simp: s' put)
    then show "\<exists>j. k = JniHandleFromIndex j \<and> segment_types ?s j = SegObject \<and> my_segment ?s j = po_address q \<and> po_address q \<noteq> 0"
    proof cases
      case 1
      then show ?thesis using fresh(1) by (intro exI [of _ i]) (simp add: s' h)
    next
      case 2
      show ?thesis by (rule object_slot [OF jni_slots [OF inv] 2(1)]) (use 2(2) in \<open>auto simp: s' h\<close>)
    qed
  next
    fix k assume "k \<in> set (known_classes ?s)"
    then have "k \<in> set (known_classes s)" by (simp add: s')
    then show "\<exists>j. k = JniHandleFromIndex j \<and> segment_types ?s j = SegClass"
      by (rule class_slot [OF jni_slots [OF inv]]) (use i(3) in \<open>auto simp: s'\<close>)
  qed (use slotsD(7,8) [OF jni_slots [OF inv]] fresh(2) in \<open>auto simp: s' put h [symmetric] split: if_splits\<close>)
  show "tables_inv ?s" using jni_tables [OF inv] e(1) fresh(3) by (auto simp: tables_inv_def s' put)
  have held: "held ?s = held s" using fresh(3) by (simp add: held_def s' put)
  fix k assume "managed ?s k"
  then have k: "managed s k" by (simp add: managed_def s')
  have new: "ref_count ?s h = 1" "live ?s h" by (simp_all add: ref_count_def live_def)
  have old: "k \<noteq> h \<Longrightarrow> ref_count ?s k = ref_count s k \<and> live ?s k = live s k" by (auto simp: ref_count_def live_def s')
  show "ref_count ?s k = count (held ?s + add_mset h E) k"
    unfolding held using e(5) jniD(1) [OF inv k] old new by (cases "k = h") auto
  show "live ?s k \<longleftrightarrow> 0 < count (held ?s + add_mset h E) k"
    unfolding held using e(5) jniD [OF inv k] old new by (cases "k = h") auto
qed


definition fresh_address :: "nat \<Rightarrow> Jni \<Rightarrow> bool" where
  "fresh_address a s \<longleftrightarrow> a \<noteq> 0 \<and> a \<notin> (po_address \<circ> snd) ` set (object_storage s)"

lemma StoreObject_inv:
  assumes inv: "jni_inv s E" and fresh: "fresh_address (po_address po) s" "po_objects po = []"
    and r: "StoreObject po s = (h, s')"
  shows "jni_inv s' E"
proof -
  obtain i s1 where a: "AllocateSegmentSlot (po_address po) None SegObject s = (i, s1)" by force
  show ?thesis
  proof (cases "i = 0")
    case True
    then show ?thesis using a r inv Allocate_cases [OF jni_slots [OF inv] a] by (auto simp: StoreObject_def)
  next
    case False
    then obtain n fs where s1: "0 < i" "i < kJniSegmentCapacity" "segment_types s i = SegEmpty" "slot_list_ok s1"
      "s1 = s\<lparr>jni_ref_index := n, free_slots := fs, my_segment := (my_segment s)(i := po_address po),
       segment_owners := (segment_owners s)(i := None), segment_types := (segment_types s)(i := SegObject)\<rparr>"
      using Allocate_cases [OF jni_slots [OF inv] a] by auto
    from Register_inv [OF Register_StoreObject_aux [OF inv s1(1-3,5,4) refl]] show ?thesis
      using False a r fresh by (auto simp: StoreObject_def fresh_address_def Let_def)
  qed
qed

lemma StoreClass_inv:
  assumes inv: "jni_inv s E" and r: "StoreClass cls address s = (h, s')"
  shows "jni_inv s' E"
proof (cases "\<exists>name. cls = Some name \<and> map_of (class_handle_cache s) name = None")
  case False
  then show ?thesis using r inv by (auto simp: StoreClass_def split: option.splits)
next
  case True
  then obtain name where name: "cls = Some name" "map_of (class_handle_cache s) name = None" by blast
  obtain i s1 where a: "AllocateSegmentSlot address (Some name) SegClass s = (i, s1)" by force
  show ?thesis
  proof (cases "i = 0")
    case True
    then show ?thesis using a r inv name Allocate_cases [OF jni_slots [OF inv] a] by (auto simp: StoreClass_def)
  next
    case False
    then obtain n fs where s1: "0 < i" "i < kJniSegmentCapacity" "segment_types s i = SegEmpty" "slot_list_ok s1"
      "s1 = s\<lparr>jni_ref_index := n, free_slots := fs, my_segment := (my_segment s)(i := address),
       segment_owners := (segment_owners s)(i := Some name), segment_types := (segment_types s)(i := SegClass)\<rparr>"
      using Allocate_cases [OF jni_slots [OF inv] a] by auto
    let ?s = "s1\<lparr>known_classes := JniHandleFromIndex i # known_classes s1,
      class_handle_cache := put_key name (JniHandleFromIndex i) (class_handle_cache s1)\<rparr>"
    have s': "s' = ?s" using False a r name by (auto simp: StoreClass_def Let_def)
    note d = slotsD [OF jni_slots [OF inv]]
    have "slots_inv ?s"
    proof (rule slots_of_list)
      show "slot_list_ok ?s" using s1(4) by (simp add: slot_list_ok_def)
      fix k q assume "(k, q) \<in> set (object_storage ?s)"
      then have "(k, q) \<in> set (object_storage s)" by (simp add: s1(5))
      then show "\<exists>j. k = JniHandleFromIndex j \<and> segment_types ?s j = SegObject \<and> my_segment ?s j = po_address q \<and> po_address q \<noteq> 0"
        by (rule object_slot [OF jni_slots [OF inv]]) (use s1(3) in \<open>auto simp: s1(5)\<close>)
    next
      fix k assume "k \<in> set (known_classes ?s)"
      then consider "k = JniHandleFromIndex i" | "k \<in> set (known_classes s)" by (auto simp: s1(5))
      then show "\<exists>j. k = JniHandleFromIndex j \<and> segment_types ?s j = SegClass"
      proof cases
        case 2
        then show ?thesis by (rule class_slot [OF jni_slots [OF inv]]) (auto simp: s1(5))
      qed (auto simp: s1(5))
    qed (use d(7,8) s1(3) in \<open>auto simp: s1(5) split: if_splits\<close>)
    moreover have "tables_inv ?s" using jni_tables [OF inv] by (simp add: tables_inv_def s1(5))
    moreover have "managed ?s k \<Longrightarrow> managed s k" for k by (simp add: managed_def s1(5))
    moreover have "held ?s = held s" "ref_count ?s = ref_count s" "live ?s = live s"
      by (simp_all add: held_def ref_count_def live_def s1(5) fun_eq_iff)
    ultimately show ?thesis using jniD [OF inv] unfolding s' by (intro jni_invI) simp_all
  qed
qed


lemma jni_inv_frame [simp]:
  "jni_inv (s\<lparr>fallback_classes := x\<rparr>) E = jni_inv s E" "jni_inv (s\<lparr>known_strings := y\<rparr>) E = jni_inv s E"
  by (simp_all add: jni_inv_def count_inv_def managed_def ref_count_def live_def held_def)

lemma fresh_address_frame [simp]: "fresh_address a (s\<lparr>fallback_classes := x\<rparr>) = fresh_address a s"
  by (simp add: fresh_address_def)

lemma fresh_object_fields [simp]: "po_address (fresh_object a c str) = a" "po_objects (fresh_object a c str) = []"
  by (simp_all add: fresh_object_def)

lemma Fallback_inv: "FallbackClassForName name s = (cls, s') \<Longrightarrow> jni_inv s' E = jni_inv s E \<and> fresh_address a s' = fresh_address a s"
  by (auto simp: FallbackClassForName_def split: if_splits)

lemma MakeObject_inv:
  assumes "jni_inv s E" "fresh_address a s"
  shows "jni_inv (snd (MakeObjectForClass name a s)) E"
proof -
  obtain cls s1 where f: "FallbackClassForName name s = (cls, s1)" by force
  obtain h s2 where "StoreObject (fresh_object a cls None) s1 = (h, s2)" by force
  then show ?thesis using f StoreObject_inv [of s1 E "fresh_object a cls None" h s2] Fallback_inv [OF f] assms
    by (auto simp: MakeObjectForClass_def)
qed

lemma ClassFromJClass_inv:
  "ClassFromJClass name_at clazz s = (cls, s') \<Longrightarrow> jni_inv s' E = jni_inv s E \<and> fresh_address a s' = fresh_address a s"
  by (auto simp: ClassFromJClass_def Let_def split: if_splits prod.splits dest: Fallback_inv)

lemma AllocObject_inv:
  assumes "jni_inv s E" "fresh_address a s"
  shows "jni_inv (snd (MakeObject name_at clazz a s)) E"
proof -
  obtain cls s1 where c: "ClassFromJClass name_at clazz s = (cls, s1)" by force
  obtain n s2 where n: "(case cls of None \<Rightarrow> FallbackClassForName ''java/lang/Object'' s1 | Some c \<Rightarrow> (c, s1)) = (n, s2)"
    by force
  have i2: "jni_inv s2 E" "fresh_address a s2"
    using ClassFromJClass_inv [OF c] n assms by (auto split: option.splits dest!: Fallback_inv)
  obtain h s3 where "StoreObject (fresh_object a n None) s2 = (h, s3)" by force
  then show ?thesis using StoreObject_inv [OF i2(1), of "fresh_object a n None" h s3] i2(2) c n
    by (simp add: MakeObject_def)
qed

lemma MakeString_inv:
  assumes "jni_inv s E" "fresh_address a s"
  shows "jni_inv (snd (MakeString utf a s)) E" "jni_inv (snd (MakeUtf16String utf16 n a s)) E"
proof -
  obtain cls s1 where f: "FallbackClassForName ''java/lang/String'' s = (cls, s1)" by force
  have "jni_inv s2 E" if "StoreObject (fresh_object a cls str) s1 = (h, s2)" for str h s2
    using StoreObject_inv [OF _ _ _ that] Fallback_inv [OF f] assms by auto
  then show "jni_inv (snd (MakeString utf a s)) E" "jni_inv (snd (MakeUtf16String utf16 n a s)) E"
    using f by (auto simp: MakeString_def MakeUtf16String_def split: prod.splits)
qed


lemma Register_storage [simp]: "object_storage (RegisterLocalRef h s) = object_storage s"
  by (simp add: RegisterLocalRef_def EnsureLocalFrame_def Let_def)

lemma StoreObject_handle: "StoreObject po s = (h, s') \<Longrightarrow> h \<noteq> 0 \<Longrightarrow> h \<in> fst ` set (object_storage s')"
  by (auto simp: StoreObject_def Let_def split: prod.splits if_splits)

lemma Singleton_inv:
  assumes inv: "jni_inv s E" and fresh: "fresh_address a s"
  shows "jni_inv (snd (SingletonObject name a s)) E"
proof (cases "map_of (singleton_objects s) name")
  case None
  obtain cls s1 where f: "FallbackClassForName name s = (cls, s1)" by force
  obtain h s2 where o: "StoreObject (fresh_object a cls None) s1 = (h, s2)" by force
  have m: "MakeObjectForClass name a s = (h, s2)" using f o by (simp add: MakeObjectForClass_def)
  have i2: "jni_inv s2 E" using MakeObject_inv [OF inv fresh, of name] m by simp
  let ?s = "s2\<lparr>singleton_objects := put_key name h (singleton_objects s2)\<rparr>"
  have "set (del_key name (singleton_objects s2)) \<subseteq> set (singleton_objects s2)" by (auto simp: del_key_def)
  moreover have "singleton_objects s2 = singleton_objects s"
  proof -
    have "singleton_objects s1 = singleton_objects s" using f by (auto simp: FallbackClassForName_def split: if_splits)
    moreover have "singleton_objects s2 = singleton_objects s1"
      using o by (auto simp: StoreObject_def AllocateSegmentSlot_def RegisterLocalRef_def EnsureLocalFrame_def Let_def
          split: if_splits)
    ultimately show ?thesis by simp
  qed
  moreover have "name \<notin> fst ` set (singleton_objects s)" using None by (simp add: map_of_eq_None_iff)
  ultimately have put: "put_key name h (singleton_objects s2) = (name, h) # singleton_objects s2"
    by (simp add: put_key_def del_absent)
  have "tables_inv ?s" using jni_tables [OF i2] StoreObject_handle [OF o] by (auto simp: tables_inv_def put)
  moreover have "managed ?s k \<Longrightarrow> managed s2 k" for k by (auto simp: managed_def put)
  moreover have "held ?s = held s2" "ref_count ?s = ref_count s2" "live ?s = live s2"
    by (simp_all add: held_def ref_count_def live_def fun_eq_iff)
  ultimately have "jni_inv ?s E" using jniD [OF i2] jni_slots [OF i2] by (intro jni_invI) simp_all
  then show ?thesis using None m by (simp add: SingletonObject_def)
qed (use inv in \<open>simp add: SingletonObject_def\<close>)

definition fresh_array :: "nat \<Rightarrow> Jni \<Rightarrow> bool" where
  "fresh_array a s \<longleftrightarrow> a \<noteq> 0 \<and> kJniSegmentCapacity \<le> JniIndexFromHandle a \<and> a \<notin> fst ` set (array_storage s)"

lemma fresh_array_unused:
  assumes inv: "jni_inv s E" and fresh: "fresh_array a s"
  shows "a \<notin> fst ` set (object_storage s)" "managed s a" "count (held s + E) a = 0"
proof -
  note si = jni_slots [OF inv] and ti = jni_tables [OF inv]
  have a: "kJniSegmentCapacity \<le> JniIndexFromHandle a" "a \<noteq> 0" using fresh by (simp_all add: fresh_array_def)
  show o: "a \<notin> fst ` set (object_storage s)"
  proof
    assume "a \<in> fst ` set (object_storage s)"
    then obtain po where "(a, po) \<in> set (object_storage s)" by auto
    from object_slot [OF si this] a(1) show False by (metis not_le)
  qed
  have "a \<notin> set (known_classes s)" using class_slot [OF si, of a] a(1) by (metis not_le)
  then show m: "managed s a" using a(2) tablesD(3) [OF ti, of a] o by (auto simp: managed_def)
  show "count (held s + E) a = 0" using jniD(2) [OF inv m] o fresh by (simp add: live_def not_in_iff fresh_array_def)
qed

lemma store_array_inv:
  assumes inv: "jni_inv s (mset (pa_objects arr) + E)" and fresh: "fresh_array a s"
  shows "jni_inv (snd (store_array arr a s)) E"
proof -
  let ?s = "s\<lparr>array_storage := put_key a arr (array_storage s), jni_ref_counts := put_key a 1 (jni_ref_counts s)\<rparr>"
  note u = fresh_array_unused [OF inv fresh]
  have put: "put_key a arr (array_storage s) = (a, arr) # array_storage s"
    using fresh by (simp add: put_key_def del_absent fresh_array_def)
  have held: "held ?s + add_mset a E = add_mset a (held s + (mset (pa_objects arr) + E))" by (simp add: held_def put ac_simps)
  have "jni_inv ?s (add_mset a E)"
  proof (rule jni_invI)
    show "slots_inv ?s" using jni_slots [OF inv] by (simp add: slots_inv_def)
    show "tables_inv ?s" using jni_tables [OF inv] fresh by (auto simp: tables_inv_def put fresh_array_def)
    fix k assume "managed ?s k"
    then have k: "managed s k" by (simp add: managed_def)
    have new: "ref_count ?s a = 1" "live ?s a" by (simp_all add: ref_count_def live_def)
    have old: "k \<noteq> a \<Longrightarrow> ref_count ?s k = ref_count s k \<and> live ?s k = live s k" by (auto simp: ref_count_def live_def)
    show "ref_count ?s k = count (held ?s + add_mset a E) k"
      unfolding held using u(3) jniD(1) [OF inv k] old new by (cases "k = a") auto
    show "live ?s k \<longleftrightarrow> 0 < count (held ?s + add_mset a E) k"
      unfolding held using u(3) jniD [OF inv k] old new by (cases "k = a") auto
  qed
  then show ?thesis using Register_inv by (simp add: store_array_def)
qed

lemma Retain_facts: "managed (RetainJniReference h s) = managed s" "live (RetainJniReference h s) = live s"
  "fresh_array a (RetainJniReference h s) = fresh_array a s"
  using Retain_same [of h s] by (auto simp: managed_def live_def fresh_array_def fun_eq_iff)

lemma retain_times_inv:
  "jni_inv s E \<Longrightarrow> (managed s h \<Longrightarrow> live s h) \<Longrightarrow> jni_inv (retain_times n h s) (replicate_mset n h + E)"
proof (induction n arbitrary: s E)
  case (Suc n)
  have "jni_inv (retain_times n h (RetainJniReference h s)) (replicate_mset n h + add_mset h E)"
    by (rule Suc.IH [OF Retain_inv [OF Suc.prems]]) (use Suc.prems in \<open>auto simp: Retain_facts\<close>)
  then show ?case by simp
qed simp

lemma retain_times_fresh: "fresh_array a (retain_times n h s) = fresh_array a s"
  by (induction n arbitrary: s) (simp_all add: Retain_facts)

lemma MakeArray_inv:
  assumes "jni_inv s E" "fresh_array a s"
  shows "jni_inv (snd (MakeByteArray len a s)) E" "jni_inv (snd (MakeFloatArray len a s)) E"
    "valid h s \<Longrightarrow> jni_inv (snd (MakeObjectArray len h a s)) E"
proof -
  show "jni_inv (snd (MakeByteArray len a s)) E" "jni_inv (snd (MakeFloatArray len a s)) E"
    unfolding MakeByteArray_def MakeFloatArray_def by (rule store_array_inv; use assms in simp)+
  assume "valid h s"
  then have "jni_inv (retain_times (nat len) h s) (replicate_mset (nat len) h + E)"
    by (intro retain_times_inv) (use assms valid_live in auto)
  then show "jni_inv (snd (MakeObjectArray len h a s)) E"
    unfolding MakeObjectArray_def Let_def using assms
    by (intro store_array_inv) (auto simp: retain_times_fresh)
qed


section \<open>Native code at the interface\<close>

text \<open>The calls native code makes, and what the JNI asks of them: a reference passed in is null, a
  class, a singleton, or still held somewhere; only a local reference is deleted as one; the address
  of a fresh allocation is not in use.\<close>

datatype JniCall =
    CFindClass "string option" nat
  | CNewObject string nat
  | CAllocObject string jobject nat
  | CSingleton string nat
  | CNewStringUTF "u8 list option" nat
  | CNewString "u16 list option" int nat
  | CNewByteArray int nat
  | CNewFloatArray int nat
  | CNewObjectArray int jobject nat
  | CNewLocalRef jobject
  | CDeleteLocalRef jobject
  | CPushLocalFrame
  | CPopLocalFrame jobject
  | CNewGlobalRef jobject
  | CDeleteGlobalRef jobject
  | CGetElement jobject int
  | CSetElement jobject int jobject
  | CSetStatic "string option" jobject
  | CGetStatic "string option"
  | CSetField jobject "string option" jobject
  | CGetField jobject "string option"
  | CSetInt jobject "string option" int
  | CSetLong jobject "string option" int
  | CSetFloat jobject "string option" cfloat
  | CSetBoolean jobject "string option" bool

primrec exec :: "Jni \<Rightarrow> JniCall \<Rightarrow> Jni" where
  "exec s (CFindClass cls a) = snd (StoreClass cls a s)"
| "exec s (CNewObject cls a) = snd (MakeObjectForClass cls a s)"
| "exec s (CAllocObject raw_name clazz a) = snd (MakeObject (\<lambda>_. raw_name) clazz a s)"
| "exec s (CSingleton cls a) = snd (SingletonObject cls a s)"
| "exec s (CNewStringUTF utf a) = snd (MakeString utf a s)"
| "exec s (CNewString utf16 n a) = snd (MakeUtf16String utf16 n a s)"
| "exec s (CNewByteArray n a) = snd (MakeByteArray n a s)"
| "exec s (CNewFloatArray n a) = snd (MakeFloatArray n a s)"
| "exec s (CNewObjectArray n h a) = snd (MakeObjectArray n h a s)"
| "exec s (CNewLocalRef h) = snd (NewLocalJniReference h s)"
| "exec s (CDeleteLocalRef h) = DeleteLocalJniReference h s"
| "exec s CPushLocalFrame = PushLocalJniFrame s"
| "exec s (CPopLocalFrame h) = snd (PopLocalJniFrame h s)"
| "exec s (CNewGlobalRef h) = snd (NewGlobalRef h s)"
| "exec s (CDeleteGlobalRef h) = DeleteGlobalRef h s"
| "exec s (CGetElement arr i) = snd (GetObjectArrayElement arr i s)"
| "exec s (CSetElement arr i v) = SetObjectArrayElement arr i v s"
| "exec s (CSetStatic f v) = SetStaticObjectFieldRaw f v s"
| "exec s (CGetStatic f) = snd (StaticObjectFieldValue f s)"
| "exec s (CSetField h f v) = SetObjectFieldRaw h f v s"
| "exec s (CGetField h f) = snd (ObjectFieldValue h f s)"
| "exec s (CSetInt h f i) = SetIntFieldRaw h f i s"
| "exec s (CSetLong h f l) = SetLongFieldRaw h f l s"
| "exec s (CSetFloat h f x) = SetFloatFieldRaw h f x s"
| "exec s (CSetBoolean h f b) = SetBooleanFieldRaw h f b s"

primrec allowed :: "Jni \<Rightarrow> JniCall \<Rightarrow> bool" where
  "allowed s (CFindClass cls a) = True"
| "allowed s (CNewObject cls a) = fresh_address a s"
| "allowed s (CAllocObject raw_name clazz a) = fresh_address a s"
| "allowed s (CSingleton cls a) = fresh_address a s"
| "allowed s (CNewStringUTF utf a) = fresh_address a s"
| "allowed s (CNewString utf16 n a) = fresh_address a s"
| "allowed s (CNewByteArray n a) = fresh_array a s"
| "allowed s (CNewFloatArray n a) = fresh_array a s"
| "allowed s (CNewObjectArray n h a) = (fresh_array a s \<and> valid h s)"
| "allowed s (CNewLocalRef h) = valid h s"
| "allowed s (CDeleteLocalRef h) = local_ref h s"
| "allowed s CPushLocalFrame = True"
| "allowed s (CPopLocalFrame h) = valid h s"
| "allowed s (CNewGlobalRef h) = valid h s"
| "allowed s (CDeleteGlobalRef h) = global_ref h s"
| "allowed s (CGetElement arr i) = True"
| "allowed s (CSetElement arr i v) = valid v s"
| "allowed s (CSetStatic f v) = valid v s"
| "allowed s (CGetStatic f) = True"
| "allowed s (CSetField h f v) = valid v s"
| "allowed s (CGetField h f) = True"
| "allowed s (CSetInt h f i) = True"
| "allowed s (CSetLong h f l) = True"
| "allowed s (CSetFloat h f x) = True"
| "allowed s (CSetBoolean h f b) = True"

lemma exec_inv: "jni_inv s {#} \<Longrightarrow> allowed s c \<Longrightarrow> jni_inv (exec s c) {#}"
  by (cases c) (auto intro: MakeObject_inv AllocObject_inv Singleton_inv MakeString_inv MakeArray_inv NewLocal_inv DeleteLocal_inv
      Push_inv Pop_inv NewGlobal_inv DeleteGlobal_inv GetArrayElement_inv SetArrayElement_inv SetStatic_inv
      StaticValue_inv SetObjectField_inv FieldValue_inv SetPlainFields_inv StoreClass_inv [OF _ surjective_pairing])

lemma Jni_new_inv: "jni_inv Jni_new {#}"
  by (rule jni_invI) (auto simp: Jni_new_def slots_inv_def tables_inv_def kJniSegmentCapacity_def held_def table_refs_def
      ref_count_def live_def)

interpretation jni: contracted_component exec allowed "\<lambda>s. jni_inv s {#}"
  by unfold_locales (rule exec_inv)

lemma reached_inv: "admitted exec allowed Jni_new cs \<Longrightarrow> jni_inv (run_ops exec Jni_new cs) {#}"
  by (rule jni.run_invar [OF Jni_new_inv])

lemmas jni_exec =
  StoreClass_def MakeObjectForClass_def MakeObject_def ClassFromJClass_def SingletonObject_def MakeString_def MakeUtf16String_def MakeByteArray_def
  MakeFloatArray_def MakeObjectArray_def NewLocalJniReference_def DeleteLocalJniReference_def PushLocalJniFrame_def
  PopLocalJniFrame_def NewGlobalRef_def DeleteGlobalRef_def GetObjectArrayElement_def SetObjectArrayElement_def
  SetStaticObjectFieldRaw_def StaticObjectFieldValue_def SetObjectFieldRaw_def ObjectFieldValue_def
  FallbackClassForName_def StoreObject_def AllocateSegmentSlot_def RegisterLocalRef_def EnsureLocalFrame_def
  UnregisterLocalRef_def remove_last_def RetainJniReference_def ReleaseJniReference_def
  release_one_def destroy_def deref_def update_object_def field_value_def PseudoObjectFromRef_def
  object_at_def fresh_object_def ArrayFromRef_def store_array_def fresh_address_def fresh_array_def valid_def
  local_ref_def global_ref_def managed_def held_def table_refs_def put_key_def del_key_def
  JniHandleFromIndex_def JniIndexFromHandle_def kJniSegmentCapacity_def kJniHandleShift_def


definition sample_calls :: "JniCall list" where
  "sample_calls = [CNewObject ''a'' 5, CNewStringUTF (Some [104, 105]) 6, CSetField 65536 (Some ''f'') 131072,
     CDeleteLocalRef 131072, CPushLocalFrame, CNewObject ''b'' 7, CPopLocalFrame 0]"

lemma sample_facts: "admitted exec allowed Jni_new sample_calls" "131072 \<in># held (run_ops exec Jni_new sample_calls)"
    "managed (run_ops exec Jni_new sample_calls) 131072" "fresh_address 8 (run_ops exec Jni_new sample_calls)"
    "free_slots (run_ops exec Jni_new sample_calls) = [3]"
  by (simp_all add: sample_calls_def jni_exec Jni_new_def Let_def)

text \<open>C33: native code that keeps to the JNI never holds a dangling reference. After any sequence of
  permitted calls every counted reference held in a local frame, as a global reference, in a static
  field, in an object field or in an array element resolves: the handle's slot leads to the object
  stored under it, or the reference names a stored array.\<close>

theorem held_reference_resolves:
  assumes "admitted exec allowed Jni_new cs" "s = run_ops exec Jni_new cs" "h \<in># held s" "managed s h"
  shows "(\<exists>po. map_of (object_storage s) h = Some po \<and> object_at h s = Some po) \<or> (\<exists>a. ArrayFromRef h s = Some a)"
proof -
  have inv: "jni_inv s {#}" using reached_inv [OF assms(1)] assms(2) by simp
  have "live s h" using valid_live [OF inv _ assms(4)] assms(3) by (simp add: valid_def)
  then consider po where "(h, po) \<in> set (object_storage s)" | a where "(h, a) \<in> set (array_storage s)"
    by (auto simp: live_def)
  then show ?thesis
  proof cases
    case 1
    then show ?thesis using object_at_managed [OF jni_slots [OF inv] 1] tablesD(1) [OF jni_tables [OF inv]] by simp
  next
    case 2
    then show ?thesis using tablesD(2) [OF jni_tables [OF inv]] by (simp add: ArrayFromRef_def)
  qed
qed

theorem held_reference_resolves_witness:
  "admitted exec allowed Jni_new sample_calls \<and> 131072 \<in># held (run_ops exec Jni_new sample_calls) \<and>
   ((\<exists>po. map_of (object_storage (run_ops exec Jni_new sample_calls)) 131072 = Some po \<and>
       object_at 131072 (run_ops exec Jni_new sample_calls) = Some po) \<or> (\<exists>a. ArrayFromRef 131072 (run_ops exec Jni_new sample_calls) = Some a))"
  using held_reference_resolves [OF sample_facts(1) refl sample_facts(2,3)] sample_facts by blast

text \<open>C34: the reference counts are exact. After any sequence of permitted calls the count of a
  reference is the number of its holders, and an object or array is stored exactly as long as somebody
  holds a reference to it: nothing that is referenced is freed, and nothing unreferenced is kept.\<close>

theorem reference_counts_exact:
  assumes "admitted exec allowed Jni_new cs" "s = run_ops exec Jni_new cs" "managed s h"
  shows "ref_count s h = count (held s) h \<and>
    (h \<in># held s \<longleftrightarrow> h \<in> fst ` set (object_storage s) \<or> h \<in> fst ` set (array_storage s))"
  using jniD [of s "{#}" h] reached_inv [OF assms(1)] assms(2,3) by (simp add: live_def)

theorem reference_counts_exact_witness:
  "admitted exec allowed Jni_new sample_calls \<and> managed (run_ops exec Jni_new sample_calls) 131072 \<and>
   ref_count (run_ops exec Jni_new sample_calls) 131072 = count (held (run_ops exec Jni_new sample_calls)) 131072"
  using reference_counts_exact [OF sample_facts(1) refl sample_facts(3)] sample_facts by blast

text \<open>The outcome of storing an object: the table is full, or the handle is new and leads to it.\<close>

lemma StoreObject_outcome:
  assumes inv: "jni_inv s E" and fresh: "fresh_address (po_address po) s" "po_objects po = []"
    and r: "StoreObject po s = (h, s')"
  shows "h = 0 \<and> s' = s \<and> free_slots s = [] \<and> jni_ref_index s = kJniSegmentCapacity \<or>
    h \<noteq> 0 \<and> map_of (object_storage s') h = Some po \<and> h \<notin># held s \<and> h \<notin> fst ` set (object_storage s) \<and>
    (\<forall>k. k \<noteq> h \<longrightarrow> map_of (object_storage s') k = map_of (object_storage s) k)"
proof -
  obtain i s1 where a: "AllocateSegmentSlot (po_address po) None SegObject s = (i, s1)" by force
  note c = Allocate_cases [OF jni_slots [OF inv] a] and d = slotsD [OF jni_slots [OF inv]]
  show ?thesis
  proof (cases "i = 0")
    case True
    have nz: "free_slots s \<noteq> [] \<Longrightarrow> last (free_slots s) \<noteq> 0" using d(4) [of 0] last_in_set by fastforce
    have "free_slots s = [] \<and> jni_ref_index s = kJniSegmentCapacity"
      using a True d(1,2) nz by (auto simp: AllocateSegmentSlot_def Let_def split: if_splits)
    then show ?thesis using True a r c by (auto simp: StoreObject_def)
  next
    case False
    then have i: "0 < i" "i < kJniSegmentCapacity" "segment_types s i = SegEmpty" "object_storage s1 = object_storage s"
      using c by auto
    note u = empty_slot_unused [OF inv i(1-3)]
    have h: "h = JniHandleFromIndex i" using False a r by (auto simp: StoreObject_def Let_def)
    have "object_storage s' = put_key h po (object_storage s)"
      using False a r i(4) h by (auto simp: StoreObject_def Let_def)
    then show ?thesis using u(1,5) h False by (auto simp: not_in_iff)
  qed
qed

text \<open>A new string reads back. \<open>NewStringUTF\<close> on a reachable table either returns null because
  all 100000 slots are in use, or returns a handle nobody held before, which leads to a string object with
  the decoded text, while every other stored object stays as it was.\<close>

theorem new_string_reads_back:
  assumes "admitted exec allowed Jni_new cs" "s = run_ops exec Jni_new cs" "fresh_address a s" "MakeString utf a s = (h, s')"
  shows "h = 0 \<and> free_slots s = [] \<and> jni_ref_index s = kJniSegmentCapacity \<or>
    h \<notin># held s \<and>
    object_at h s' = Some (fresh_object a ''java/lang/String'' (Some (PseudoStringObject_utf utf))) \<and>
    (\<forall>k. k \<noteq> h \<longrightarrow> map_of (object_storage s') k = map_of (object_storage s) k)"
proof -
  have inv: "jni_inv s {#}" using reached_inv [OF assms(1)] assms(2) by simp
  let ?po = "fresh_object a ''java/lang/String'' (Some (PseudoStringObject_utf utf))"
  obtain s1 s2 where f: "FallbackClassForName ''java/lang/String'' s = (''java/lang/String'', s1)"
    and o: "StoreObject ?po s1 = (h, s2)" and s': "s' = s2\<lparr>known_strings := h # known_strings s2\<rparr>"
    using assms(4) by (auto simp: MakeString_def FallbackClassForName_def split: prod.splits)
  have s1: "object_storage s1 = object_storage s" "held s1 = held s" "free_slots s1 = free_slots s"
    "jni_ref_index s1 = jni_ref_index s"
    using f by (auto simp: FallbackClassForName_def held_def split: if_splits)
  have i1: "jni_inv s1 {#}" "fresh_address a s1" using Fallback_inv [OF f] inv assms(3) by auto
  have "jni_inv s' {#}" using MakeString_inv(1) [OF inv assms(3), of utf] assms(4) by simp
  then have "object_at h s' = Some ?po" if "map_of (object_storage s2) h = Some ?po"
    using object_at_managed [OF jni_slots, of s' "{#}" h ?po] map_of_SomeD [OF that] s' by simp
  then show ?thesis using StoreObject_outcome [OF i1(1) _ _ o] i1(2) s1 s' by auto
qed

theorem new_string_reads_back_witness:
  "\<exists>h s'. MakeString (Some [104, 105]) 8 (run_ops exec Jni_new sample_calls) = (h, s') \<and>
     object_at h s' = Some (fresh_object 8 ''java/lang/String'' (Some (PseudoStringObject_utf (Some [104, 105]))))"
proof -
  obtain h s' where "MakeString (Some [104, 105]) 8 (run_ops exec Jni_new sample_calls) = (h, s')" by force
  with new_string_reads_back [OF sample_facts(1) refl sample_facts(4) this] sample_facts(5) show ?thesis by auto
qed

text \<open>One release of the cascade.\<close>

inductive release_step :: "jobject list \<times> Jni \<Rightarrow> jobject list \<times> Jni \<Rightarrow> bool" where
  "release_one obj s = (s', children) \<Longrightarrow> release_step (obj # rest, s) (children @ rest, s')"

inductive_cases release_step_E: "release_step p q"

lemma release_step_measure:
  "release_step p q \<Longrightarrow> (q, p) \<in> measures [\<lambda>(_, s). stored s, \<lambda>(work, _). length work]"
  by (erule release_step_E) (auto dest: release_one_stored)

text \<open>C36: the cascade of releases ends. Destroying an object or array releases what it held, which may
  destroy more objects; whatever the graph of references looks like, cycles included, there is no infinite
  chain of releases, and the chain from a list of references ends in the state \<open>release_work\<close> computes.\<close>

theorem release_cascade_ends:
  "wfp (\<lambda>q p. release_step p q) \<and> release_step\<^sup>*\<^sup>* (work, s) ([], release_work work s)"
proof
  show "wfp (\<lambda>q p. release_step p q)"
    unfolding wfp_def by (rule wf_subset [OF wf_measures]) (auto dest: release_step_measure)
  show "release_step\<^sup>*\<^sup>* (work, s) ([], release_work work s)"
  proof (induction work s rule: release_work.induct)
    case (2 obj rest s)
    obtain s' children where r: "release_one obj s = (s', children)" by force
    have "release_step (obj # rest, s) (children @ rest, s')" using r by (rule release_step.intros)
    then show ?case using 2 [OF r [symmetric]] r by (auto intro: converse_rtranclp_into_rtranclp)
  qed simp
qed

text \<open>A reference that is deleted twice corrupts the table. Releasing a handle whose slot is
  already free puts the slot on the free list a second time, so the next two objects share one handle.\<close>

theorem double_release_shares_handle:
  assumes "admitted exec allowed Jni_new cs" "s = run_ops exec Jni_new cs" "free_slots s \<noteq> []"
    "h = JniHandleFromIndex (last (free_slots s))"
    "MakeObjectForClass n1 a1 (ReleaseJniReference h s) = (h1, s1)" "MakeObjectForClass n2 a2 s1 = (h2, s2)"
  shows "h1 = h \<and> h2 = h"
proof -
  have inv: "jni_inv s {#}" using reached_inv [OF assms(1)] assms(2) by simp
  define i where "i = last (free_slots s)"
  have i: "0 < i" "i < jni_ref_index s" "segment_types s i = SegEmpty" "i < kJniSegmentCapacity"
    using slotsD(2,4) [OF jni_slots [OF inv]] last_in_set [OF assms(3)] unfolding i_def by force+
  have h: "h = JniHandleFromIndex i" "JniIndexFromHandle h = i"
    using assms(4) i(4) by (simp_all add: i_def kJniSegmentCapacity_def)
  note u = empty_slot_unused [OF inv i(1,4,3), folded h(1)]
  have none: "map_of (object_storage s) h = None" "map_of (array_storage s) h = None"
    using u(1,2) by (simp_all add: map_of_eq_None_iff)
  have "ref_count s h \<le> 1" using jniD(1) [OF inv u(4)] u(5) by simp
  then have "free_slots (fst (release_one h s)) = free_slots s @ [i] \<and> snd (release_one h s) = []"
    using u(1-4) i(1,4) h none by (auto simp: release_one_last destroy_def managed_def Let_def)
  then have f: "free_slots (ReleaseJniReference h s) = free_slots s @ [i]"
    by (cases "release_one h s") (simp add: ReleaseJniReference_def)
  have make: "h' = JniHandleFromIndex (last (free_slots t)) \<and> free_slots t' = butlast (free_slots t)"
    if "MakeObjectForClass n a t = (h', t')" "free_slots t \<noteq> []" "last (free_slots t) \<noteq> 0" for n a t h' t'
    using that by (auto simp: MakeObjectForClass_def FallbackClassForName_def StoreObject_def AllocateSegmentSlot_def
        RegisterLocalRef_def EnsureLocalFrame_def Let_def split: if_splits)
  have "h1 = h \<and> free_slots s1 = free_slots s" using make [OF assms(5)] f i(1) h(1) by simp
  then show ?thesis using make [OF assms(6)] assms(3,4) i(1) by (simp add: i_def)
qed

theorem double_release_shares_handle_witness:
  "\<exists>h1 s1 h2 s2. MakeObjectForClass ''x'' 8 (ReleaseJniReference 196608 (run_ops exec Jni_new sample_calls)) = (h1, s1) \<and>
     MakeObjectForClass ''y'' 9 s1 = (h2, s2) \<and> h1 = h2"
proof -
  have h: "196608 = JniHandleFromIndex (last (free_slots (run_ops exec Jni_new sample_calls)))"
    by (simp add: sample_facts JniHandleFromIndex_def kJniHandleShift_def)
  obtain h1 s1 where m1: "MakeObjectForClass ''x'' 8 (ReleaseJniReference 196608 (run_ops exec Jni_new sample_calls)) = (h1, s1)" by force
  obtain h2 s2 where m2: "MakeObjectForClass ''y'' 9 s1 = (h2, s2)" by force
  from double_release_shares_handle [OF sample_facts(1) refl _ h m1 m2] show ?thesis using m1 m2 sample_facts(5) by simp
qed

end
