(* ===== verification/Audio_Queue.thy ===== *)
theory Audio_Queue
  imports Mocktail_Prelude
begin

text \<open>
  The sound path of the client: the OpenSL buffer queue (\<open>src/audio/opensl_simple_buffer_queue.cc\<close>) over
  the SDL audio sink (\<open>src/audio/sdl_audio_sink.cc\<close>, \<open>src/audio/audio_sink.cc\<close>). The client's threads,
  the callback worker and SDL's audio thread run concurrently; each critical section of the queue's mutex
  is one step, \<open>bq_phase\<close> is the holder of \<open>sink_operation_mutex\<close> with the point it has reached, and
  \<open>bq_stage\<close> the point the shutting-down thread has reached; \<open>bq_worker\<close> is the point the callback worker has
  reached: it takes a job under the mutex and calls the client after releasing it, so that other threads run
  in between and during the call. SDL is the environment: it may release any
  buffer it borrows at any time (\<open>OpConsume\<close>), and its calls succeed or fail as given. The ticket that
  SDL passes back is the index into the ticket pool. Identifiers, generations and statistics are natural
  numbers: the code's 64-bit counters do not wrap within 2 to the 64 buffers. Device switching and the
  pull callback of the sink are not modelled.
\<close>

section \<open>PCM formats\<close>

datatype PcmSampleFormat =
    kUnsigned8 | kSigned16LittleEndian | kSigned32LittleEndian | kFloat32LittleEndian | PcmFormatOutOfRange

record PcmSpec =
  sample_rate_hz :: int
  pcm_channels :: nat
  pcm_format :: PcmSampleFormat

fun BytesPerSample :: "PcmSampleFormat \<Rightarrow> nat" where
  "BytesPerSample kUnsigned8 = 1"
| "BytesPerSample kSigned16LittleEndian = 2"
| "BytesPerSample kSigned32LittleEndian = 4"
| "BytesPerSample kFloat32LittleEndian = 4"
| "BytesPerSample PcmFormatOutOfRange = 0"

definition BytesPerFrame :: "PcmSpec \<Rightarrow> nat" where
  "BytesPerFrame spec =
     (let bytes_per_sample = BytesPerSample (pcm_format spec)
      in if bytes_per_sample = 0 \<or> pcm_channels spec = 0 \<or>
            bytes_per_sample > (2 ^ 64 - 1) div pcm_channels spec
         then 0 else bytes_per_sample * pcm_channels spec)"

definition ValidatePcmSpec :: "PcmSpec \<Rightarrow> Status" where
  "ValidatePcmSpec spec =
     (if sample_rate_hz spec < 8000 \<or> sample_rate_hz spec > 384000
      then Status_Error kInvalidArgument ''PCM sample rate must be between 8000 and 384000 Hz''
      else if pcm_channels spec = 0 \<or> pcm_channels spec > 8
      then Status_Error kInvalidArgument ''PCM channel count must be between 1 and 8''
      else if BytesPerFrame spec = 0
      then Status_Error kInvalidArgument ''PCM sample format is unsupported''
      else Status_Ok)"

section \<open>The SDL sink\<close>

text \<open>\<open>sk_borrowed\<close> is what SDL holds: the release context (a ticket) and size of each borrowed buffer.\<close>

record SdlAudioSink =
  sk_source_spec :: PcmSpec
  sk_stream :: bool
  sk_shutting_down :: bool
  sk_shutdown_complete :: bool
  sk_borrowed :: "(nat \<times> nat) list"

record PcmBuffer =
  pb_data :: nat
  pb_size_bytes :: nat
  pb_release :: "nat option"

definition SdlAudioSink_new :: "PcmSpec \<Rightarrow> SdlAudioSink" where
  "SdlAudioSink_new spec =
     \<lparr>sk_source_spec = spec, sk_stream = True, sk_shutting_down = False, sk_shutdown_complete = False, sk_borrowed = []\<rparr>"

definition SdlError :: "string \<Rightarrow> string \<Rightarrow> Status" where
  "SdlError operation detail =
     Status_Error kPlatformError (operation @ '': '' @ (if detail \<noteq> [] then detail else ''unknown SDL error''))"

definition BeginCall :: "SdlAudioSink \<Rightarrow> bool" where
  "BeginCall k \<longleftrightarrow> \<not> (sk_shutting_down k \<or> \<not> sk_stream k)"

text \<open>The outcomes: whether the release context could be allocated, whether SDL took the data, and the
  text of the SDL error.\<close>

definition SinkEnqueue :: "bool \<Rightarrow> bool \<Rightarrow> string \<Rightarrow> PcmBuffer \<Rightarrow> SdlAudioSink \<Rightarrow> Status \<times> SdlAudioSink" where
  "SinkEnqueue allocated queued detail buffer k =
     (let frame_size = BytesPerFrame (sk_source_spec k)
      in if pb_data buffer = 0 \<or> pb_size_bytes buffer = 0
         then (Status_Error kInvalidArgument ''PCM buffer must contain data'', k)
         else if frame_size = 0 \<or> pb_size_bytes buffer mod frame_size \<noteq> 0
         then (Status_Error kInvalidArgument ''PCM buffer size must contain complete frames'', k)
         else if pb_size_bytes buffer > 2 ^ 31 - 1
         then (Status_Error kInvalidArgument ''PCM buffer exceeds SDL's per-call byte limit'', k)
         else if \<not> BeginCall k
         then (Status_Error kFailedPrecondition ''audio sink is shut down'', k)
         else case pb_release buffer of
           None \<Rightarrow> (if queued then Status_Ok else SdlError ''SDL_PutAudioStreamData'' detail, k)
         | Some ticket \<Rightarrow>
             if \<not> allocated
             then (Status_Error kUnavailable ''unable to allocate SDL buffer release context'', k)
             else if queued
             then (Status_Ok, k\<lparr>sk_borrowed := sk_borrowed k @ [(ticket, pb_size_bytes buffer)]\<rparr>)
             else (SdlError ''SDL_PutAudioStreamDataNoCopy'' detail, k))"

definition WithStream :: "string \<Rightarrow> bool \<Rightarrow> string \<Rightarrow> SdlAudioSink \<Rightarrow> Status" where
  "WithStream name succeeded detail k =
     (if \<not> BeginCall k then Status_Error kFailedPrecondition ''audio sink is shut down''
      else if succeeded then Status_Ok else SdlError name detail)"

fun gain_valid :: "cfloat \<Rightarrow> bool" where
  "gain_valid (FNum r) = (r \<ge> 0)"
| "gain_valid _ = False"

definition SinkSetGain :: "cfloat \<Rightarrow> bool \<Rightarrow> string \<Rightarrow> SdlAudioSink \<Rightarrow> Status" where
  "SinkSetGain gain succeeded detail k =
     (if \<not> gain_valid gain then Status_Error kInvalidArgument ''audio gain must be finite and non-negative''
      else WithStream ''SDL_SetAudioStreamGain'' succeeded detail k)"

text \<open>Clearing and closing return the buffers whose release callbacks SDL runs.\<close>

definition SinkClear :: "bool \<Rightarrow> string \<Rightarrow> SdlAudioSink \<Rightarrow> Status \<times> (nat \<times> nat) list \<times> SdlAudioSink" where
  "SinkClear succeeded detail k =
     (let status = WithStream ''SDL_ClearAudioStream'' succeeded detail k
      in if status_ok status then (status, sk_borrowed k, k\<lparr>sk_borrowed := []\<rparr>) else (status, [], k))"

definition SinkShutdown :: "SdlAudioSink \<Rightarrow> (nat \<times> nat) list \<times> SdlAudioSink" where
  "SinkShutdown k =
     (if sk_shutting_down k then ([], k)
      else (if sk_stream k then sk_borrowed k else [],
            k\<lparr>sk_shutting_down := True, sk_stream := False, sk_shutdown_complete := True,
              sk_borrowed := (if sk_stream k then [] else sk_borrowed k)\<rparr>))"

section \<open>The buffer queue\<close>

datatype OpenSlResult =
    kResultSuccess | kResultPreconditionsViolated | kResultParameterInvalid | kResultResourceError | kResultIoError
  | kResultBufferInsufficient | kResultFeatureUnsupported

fun ToOpenSlResult_code :: "StatusCode \<Rightarrow> OpenSlResult" where
  "ToOpenSlResult_code kOk = kResultSuccess"
| "ToOpenSlResult_code kInvalidArgument = kResultParameterInvalid"
| "ToOpenSlResult_code kFailedPrecondition = kResultPreconditionsViolated"
| "ToOpenSlResult_code kUnavailable = kResultResourceError"
| "ToOpenSlResult_code kUnsupported = kResultFeatureUnsupported"
| "ToOpenSlResult_code kPlatformError = kResultIoError"

definition ToOpenSlResult :: "Status \<Rightarrow> OpenSlResult" where
  "ToOpenSlResult status = ToOpenSlResult_code (code status)"

datatype OpenSlBufferQueueEvent = kSubmitted | kConsumed | kDiscarded

record ReleaseTicket =
  rt_state :: bool
  rt_id :: nat
  rt_generation :: nat
  rt_in_use :: bool

record CallbackJob =
  cj_callback :: nat
  cj_context :: nat

datatype QueuePhase =
    QIdle
  | QSubmitting nat nat nat nat
  | QRollingBack nat nat Status
  | QClearing

datatype CallbackWorker = WkWaiting | WkPopped CallbackJob | WkInCallback | WkExited

datatype ShutdownStage = ShNone | ShSink | ShJoin | ShFinish | ShDone

record QueueState =
  bq_sink :: SdlAudioSink
  bq_max_buffers :: nat
  bq_ticket_pool :: "ReleaseTicket list"
  bq_free_tickets :: "nat list"
  bq_pending_count :: nat
  bq_callback_jobs :: "CallbackJob list"
  bq_callback :: nat
  bq_callback_context :: nat
  bq_last_status :: Status
  bq_next_id :: nat
  bq_generation :: nat
  bq_processed_buffers :: nat
  bq_submitted_buffers :: nat
  bq_consumed_buffers :: nat
  bq_discarded_buffers :: nat
  bq_consumed_bytes :: nat
  bq_stopping :: bool
  bq_callback_thread_started :: bool
  bq_shutdown_started :: bool
  bq_shutdown_complete :: bool
  bq_phase :: QueuePhase
  bq_stage :: ShutdownStage
  bq_worker :: CallbackWorker
  bq_events :: "(OpenSlBufferQueueEvent \<times> nat) list"
  bq_delivered :: "CallbackJob list"

definition QueueState_new :: "PcmSpec \<Rightarrow> nat \<Rightarrow> QueueState" where
  "QueueState_new spec max_buffers =
     \<lparr>bq_sink = SdlAudioSink_new spec, bq_max_buffers = max_buffers,
      bq_ticket_pool = replicate max_buffers \<lparr>rt_state = False, rt_id = 0, rt_generation = 0, rt_in_use = False\<rparr>,
      bq_free_tickets = rev [0..<max_buffers], bq_pending_count = 0, bq_callback_jobs = [], bq_callback = 0,
      bq_callback_context = 0, bq_last_status = Status_Ok, bq_next_id = 1, bq_generation = 1,
      bq_processed_buffers = 0, bq_submitted_buffers = 0, bq_consumed_buffers = 0, bq_discarded_buffers = 0,
      bq_consumed_bytes = 0, bq_stopping = False, bq_callback_thread_started = True, bq_shutdown_started = False,
      bq_shutdown_complete = False, bq_phase = QIdle, bq_stage = ShNone, bq_worker = WkWaiting, bq_events = [],
      bq_delivered = []\<rparr>"

text \<open>\<open>Create\<close> with the outcomes of the three allocations and of starting the callback thread (0, or the
  error number and its text).\<close>

definition QueueCreate :: "bool \<Rightarrow> bool \<Rightarrow> bool \<Rightarrow> int \<Rightarrow> string \<Rightarrow> bool \<Rightarrow> bool \<Rightarrow> PcmSpec \<Rightarrow> nat \<Rightarrow> Status \<times> QueueState option" where
  "QueueCreate output_given state_allocated holder_allocated create_result error_text adapter_allocated sink_given spec max_buffers =
     (if \<not> output_given then (Status_Error kInvalidArgument ''OpenSL adapter output pointer is null'', None)
      else if \<not> sink_given then (Status_Error kInvalidArgument ''OpenSL adapter requires an audio sink'', None)
      else if max_buffers = 0 then (Status_Error kInvalidArgument ''OpenSL queue capacity must be non-zero'', None)
      else if \<not> state_allocated then (Status_Error kUnavailable ''unable to allocate OpenSL queue state'', None)
      else if \<not> holder_allocated then (Status_Error kUnavailable ''unable to allocate OpenSL callback thread state'', None)
      else if create_result \<noteq> 0
      then (Status_Error kPlatformError (''unable to create OpenSL callback thread: '' @ error_text), None)
      else if \<not> adapter_allocated then (Status_Error kUnavailable ''unable to allocate OpenSL queue adapter'', None)
      else (Status_Ok, Some (QueueState_new spec max_buffers)))"

definition NotifyEvent :: "OpenSlBufferQueueEvent \<Rightarrow> nat \<Rightarrow> QueueState \<Rightarrow> QueueState" where
  "NotifyEvent event size_bytes s = s\<lparr>bq_events := bq_events s @ [(event, size_bytes)]\<rparr>"

subsection \<open>Enqueue\<close>

definition AbiEnqueue_reserve :: "bool \<Rightarrow> nat \<Rightarrow> nat \<Rightarrow> QueueState \<Rightarrow> OpenSlResult option \<times> QueueState" where
  "AbiEnqueue_reserve self buffer size_bytes s =
     (if \<not> self \<or> buffer = 0 \<or> size_bytes = 0 then (Some kResultParameterInvalid, s)
      else if bq_stopping s then (Some kResultPreconditionsViolated, s)
      else if bq_pending_count s \<ge> bq_max_buffers s \<or> bq_free_tickets s = []
      then (Some kResultBufferInsufficient, s)
      else let slot_index = last (bq_free_tickets s);
               tid = bq_next_id s;
               ticket = \<lparr>rt_state = True, rt_id = tid, rt_generation = bq_generation s, rt_in_use = True\<rparr>
           in (None, s\<lparr>bq_free_tickets := butlast (bq_free_tickets s),
                       bq_ticket_pool := (bq_ticket_pool s)[slot_index := ticket],
                       bq_next_id := tid + 1,
                       bq_pending_count := bq_pending_count s + 1,
                       bq_submitted_buffers := bq_submitted_buffers s + 1,
                       bq_phase := QSubmitting slot_index tid buffer size_bytes\<rparr>))"

definition AbiEnqueue_submit :: "bool \<Rightarrow> bool \<Rightarrow> string \<Rightarrow> QueueState \<Rightarrow> OpenSlResult option \<times> QueueState" where
  "AbiEnqueue_submit allocated queued detail s =
     (case bq_phase s of
        QSubmitting slot tid buffer size_bytes \<Rightarrow>
          (case SinkEnqueue allocated queued detail
                  \<lparr>pb_data = buffer, pb_size_bytes = size_bytes, pb_release = Some slot\<rparr> (bq_sink s) of
             (status, sink) \<Rightarrow>
               if status_ok status
               then (Some kResultSuccess, NotifyEvent kSubmitted size_bytes (s\<lparr>bq_sink := sink, bq_phase := QIdle\<rparr>))
               else (None, s\<lparr>bq_sink := sink, bq_phase := QRollingBack slot tid status\<rparr>))
      | _ \<Rightarrow> (None, s))"

definition detach :: "nat \<Rightarrow> QueueState \<Rightarrow> QueueState" where
  "detach slot s = s\<lparr>bq_ticket_pool := (bq_ticket_pool s)[slot := (bq_ticket_pool s ! slot)\<lparr>rt_in_use := False, rt_state := False\<rparr>]\<rparr>"

definition AbiEnqueue_rollback :: "QueueState \<Rightarrow> OpenSlResult option \<times> QueueState" where
  "AbiEnqueue_rollback s =
     (case bq_phase s of
        QRollingBack slot tid status \<Rightarrow>
          let ticket = bq_ticket_pool s ! slot;
              s = s\<lparr>bq_last_status := status, bq_phase := QIdle\<rparr>;
              s = (if rt_in_use ticket \<and> rt_id ticket = tid
                   then (detach slot s)\<lparr>bq_free_tickets := bq_free_tickets s @ [slot],
                          bq_pending_count := (if bq_pending_count s > 0 then bq_pending_count s - 1 else bq_pending_count s),
                          bq_submitted_buffers := (if bq_submitted_buffers s > 0 then bq_submitted_buffers s - 1 else bq_submitted_buffers s)\<rparr>
                   else s)
          in (Some (ToOpenSlResult status), s)
      | _ \<Rightarrow> (None, s))"

subsection \<open>Release\<close>

definition ReleaseBuffer :: "nat \<Rightarrow> nat \<Rightarrow> QueueState \<Rightarrow> QueueState" where
  "ReleaseBuffer slot size_bytes s =
     (let ticket = bq_ticket_pool s ! slot
      in if \<not> rt_state ticket then s
         else if \<not> rt_in_use ticket then s
         else
          let s = (detach slot s)\<lparr>bq_free_tickets := bq_free_tickets s @ [slot],
                    bq_pending_count := (if bq_pending_count s > 0 then bq_pending_count s - 1 else bq_pending_count s)\<rparr>
          in if \<not> bq_stopping s \<and> rt_generation ticket = bq_generation s
             then NotifyEvent kConsumed size_bytes
                    (s\<lparr>bq_processed_buffers := bq_processed_buffers s + 1,
                       bq_consumed_buffers := bq_consumed_buffers s + 1,
                       bq_consumed_bytes := bq_consumed_bytes s + size_bytes,
                       bq_callback_jobs := (if bq_callback s \<noteq> 0
                          then bq_callback_jobs s @ [\<lparr>cj_callback = bq_callback s, cj_context = bq_callback_context s\<rparr>]
                          else bq_callback_jobs s)\<rparr>)
             else NotifyEvent kDiscarded size_bytes (s\<lparr>bq_discarded_buffers := bq_discarded_buffers s + 1\<rparr>))"

primrec release_all :: "(nat \<times> nat) list \<Rightarrow> QueueState \<Rightarrow> QueueState" where
  "release_all [] s = s"
| "release_all (b # bs) s = release_all bs (ReleaseBuffer (fst b) (snd b) s)"

definition OnSdlBufferReleased :: "nat \<Rightarrow> QueueState \<Rightarrow> QueueState" where
  "OnSdlBufferReleased k s =
     (case sk_borrowed (bq_sink s) ! k of (slot, size_bytes) \<Rightarrow>
        ReleaseBuffer slot size_bytes
          (s\<lparr>bq_sink := (bq_sink s)\<lparr>sk_borrowed := take k (sk_borrowed (bq_sink s)) @ drop (Suc k) (sk_borrowed (bq_sink s))\<rparr>\<rparr>))"

subsection \<open>Clear\<close>

definition AbiClear_begin :: "bool \<Rightarrow> QueueState \<Rightarrow> OpenSlResult option \<times> QueueState" where
  "AbiClear_begin self s =
     (if \<not> self then (Some kResultParameterInvalid, s)
      else if bq_stopping s then (Some kResultPreconditionsViolated, s)
      else let discarded_count = length (filter rt_in_use (bq_ticket_pool s))
           in (None, s\<lparr>bq_generation := bq_generation s + 1,
                 bq_ticket_pool := map (\<lambda>t. if rt_in_use t then t\<lparr>rt_in_use := False, rt_state := False\<rparr> else t) (bq_ticket_pool s),
                 bq_free_tickets := rev [0..<bq_max_buffers s],
                 bq_discarded_buffers := bq_discarded_buffers s + discarded_count,
                 bq_pending_count := 0,
                 bq_phase := QClearing\<rparr>))"

definition AbiClear_sink :: "bool \<Rightarrow> string \<Rightarrow> QueueState \<Rightarrow> OpenSlResult option \<times> QueueState" where
  "AbiClear_sink succeeded detail s =
     (case SinkClear succeeded detail (bq_sink s) of (status, released, sink) \<Rightarrow>
        let s = release_all released (s\<lparr>bq_sink := sink, bq_phase := QIdle\<rparr>)
        in (Some (ToOpenSlResult status), if status_ok status then s else s\<lparr>bq_last_status := status\<rparr>))"

subsection \<open>State, callbacks and settings\<close>

definition AbiGetState :: "QueueState \<Rightarrow> nat \<times> nat" where
  "AbiGetState s = (min (bq_pending_count s) (2 ^ 32 - 1), min (bq_processed_buffers s) (2 ^ 32 - 1))"

definition AbiRegisterCallback :: "bool \<Rightarrow> nat \<Rightarrow> nat \<Rightarrow> QueueState \<Rightarrow> OpenSlResult \<times> QueueState" where
  "AbiRegisterCallback self registered_callback context s =
     (if \<not> self then (kResultParameterInvalid, s)
      else if bq_stopping s then (kResultPreconditionsViolated, s)
      else (kResultSuccess, s\<lparr>bq_callback := registered_callback, bq_callback_context := context\<rparr>))"

text \<open>The worker's loop: the section under the mutex (which waits while nothing is to do), the call of the
  client's callback after the mutex is released, and its return.\<close>

definition RunCallbacks_locked :: "QueueState \<Rightarrow> QueueState" where
  "RunCallbacks_locked s =
     (if bq_stopping s then s\<lparr>bq_callback_jobs := [], bq_worker := WkExited\<rparr>
      else case bq_callback_jobs s of
        [] \<Rightarrow> s
      | job # jobs \<Rightarrow> s\<lparr>bq_callback_jobs := jobs,
                       bq_worker := (if cj_callback job \<noteq> 0 then WkPopped job else WkWaiting)\<rparr>)"

definition RunCallbacks_call :: "QueueState \<Rightarrow> QueueState" where
  "RunCallbacks_call s =
     (case bq_worker s of
        WkPopped job \<Rightarrow> s\<lparr>bq_delivered := bq_delivered s @ [job], bq_worker := WkInCallback\<rparr>
      | _ \<Rightarrow> s)"

definition RunCallbacks_return :: "QueueState \<Rightarrow> QueueState" where
  "RunCallbacks_return s = (if bq_worker s = WkInCallback then s\<lparr>bq_worker := WkWaiting\<rparr> else s)"

definition sink_setting :: "(SdlAudioSink \<Rightarrow> Status) \<Rightarrow> QueueState \<Rightarrow> Status \<times> QueueState" where
  "sink_setting operation s =
     (if bq_stopping s then (Status_Error kFailedPrecondition ''OpenSL adapter is shut down'', s)
      else let status = operation (bq_sink s)
           in (status, if status_ok status then s else s\<lparr>bq_last_status := status\<rparr>))"

definition SetPlaying :: "bool \<Rightarrow> bool \<Rightarrow> string \<Rightarrow> QueueState \<Rightarrow> Status \<times> QueueState" where
  "SetPlaying playing succeeded detail =
     sink_setting (WithStream (if playing then ''SDL_ResumeAudioStreamDevice'' else ''SDL_PauseAudioStreamDevice'') succeeded detail)"

definition SetGain :: "cfloat \<Rightarrow> bool \<Rightarrow> string \<Rightarrow> QueueState \<Rightarrow> Status \<times> QueueState" where
  "SetGain linear_gain succeeded detail = sink_setting (SinkSetGain linear_gain succeeded detail)"

record OpenSlSimpleBufferQueueStats =
  st_submitted_buffers :: nat
  st_consumed_buffers :: nat
  st_discarded_buffers :: nat
  st_consumed_bytes :: nat
  st_pending_buffers :: nat

definition GetStats :: "QueueState \<Rightarrow> OpenSlSimpleBufferQueueStats" where
  "GetStats s =
     \<lparr>st_submitted_buffers = bq_submitted_buffers s, st_consumed_buffers = bq_consumed_buffers s,
      st_discarded_buffers = bq_discarded_buffers s, st_consumed_bytes = bq_consumed_bytes s,
      st_pending_buffers = bq_pending_count s\<rparr>"

subsection \<open>Shutdown\<close>

definition Shutdown_begin :: "QueueState \<Rightarrow> QueueState" where
  "Shutdown_begin s =
     (if bq_shutdown_started s then s
      else s\<lparr>bq_shutdown_started := True, bq_stopping := True, bq_generation := bq_generation s + 1,
             bq_callback := 0, bq_callback_context := 0, bq_callback_jobs := [], bq_stage := ShSink\<rparr>)"

definition Shutdown_sink :: "QueueState \<Rightarrow> QueueState" where
  "Shutdown_sink s =
     (case SinkShutdown (bq_sink s) of (released, sink) \<Rightarrow>
        release_all released (s\<lparr>bq_sink := sink, bq_stage := ShJoin\<rparr>))"

definition JoinCallbackThread :: "bool \<Rightarrow> int \<Rightarrow> string \<Rightarrow> QueueState \<Rightarrow> QueueState" where
  "JoinCallbackThread is_current_thread result error_text s =
     (if \<not> bq_callback_thread_started s then s\<lparr>bq_stage := ShFinish\<rparr>
      else let s = s\<lparr>bq_callback_thread_started := False, bq_stage := ShFinish\<rparr>
           in if result \<noteq> 0
              then s\<lparr>bq_last_status := Status_Error kPlatformError
                       ((if is_current_thread then ''unable to detach OpenSL callback thread: ''
                         else ''unable to join OpenSL callback thread: '') @ error_text)\<rparr>
              else s)"

definition unreleased_error :: Status where
  "unreleased_error = Status_Error kPlatformError ''audio sink did not release all borrowed OpenSL buffers''"

definition Shutdown_finish :: "QueueState \<Rightarrow> QueueState" where
  "Shutdown_finish s =
     (let s = (if bq_pending_count s > 0
               then s\<lparr>bq_last_status := unreleased_error,
                      bq_ticket_pool := map (\<lambda>t. t\<lparr>rt_in_use := False, rt_state := False\<rparr>) (bq_ticket_pool s),
                      bq_pending_count := 0\<rparr>
               else s)
      in s\<lparr>bq_shutdown_complete := True, bq_stage := ShDone\<rparr>)"

section \<open>Interleavings\<close>

datatype QueueOp =
    OpReserve bool nat nat
  | OpSubmit bool bool string
  | OpRollback
  | OpConsume nat
  | OpClear bool
  | OpClearSink bool string
  | OpRegisterCallback bool nat nat
  | OpWorker
  | OpCall
  | OpReturn
  | OpSetPlaying bool bool string
  | OpSetGain cfloat bool string
  | OpShutdown
  | OpShutdownSink
  | OpJoin bool int string
  | OpFinish

primrec queue_step :: "QueueState \<Rightarrow> QueueOp \<Rightarrow> QueueState" where
  "queue_step s (OpReserve self buffer n) = snd (AbiEnqueue_reserve self buffer n s)"
| "queue_step s (OpSubmit allocated queued detail) = snd (AbiEnqueue_submit allocated queued detail s)"
| "queue_step s OpRollback = snd (AbiEnqueue_rollback s)"
| "queue_step s (OpConsume k) = OnSdlBufferReleased k s"
| "queue_step s (OpClear self) = snd (AbiClear_begin self s)"
| "queue_step s (OpClearSink succeeded detail) = snd (AbiClear_sink succeeded detail s)"
| "queue_step s (OpRegisterCallback self callback context) = snd (AbiRegisterCallback self callback context s)"
| "queue_step s OpWorker = RunCallbacks_locked s"
| "queue_step s OpCall = RunCallbacks_call s"
| "queue_step s OpReturn = RunCallbacks_return s"
| "queue_step s (OpSetPlaying playing succeeded detail) = snd (SetPlaying playing succeeded detail s)"
| "queue_step s (OpSetGain gain succeeded detail) = snd (SetGain gain succeeded detail s)"
| "queue_step s OpShutdown = Shutdown_begin s"
| "queue_step s OpShutdownSink = Shutdown_sink s"
| "queue_step s (OpJoin current result error_text) = JoinCallbackThread current result error_text s"
| "queue_step s OpFinish = Shutdown_finish s"

text \<open>What the mutexes and the order of each thread's code let happen next. The joining thread is the
  callback thread itself only while that runs the client's callback; a join by another thread returns 0 only
  after the worker has left its loop.\<close>

primrec queue_enabled :: "QueueState \<Rightarrow> QueueOp \<Rightarrow> bool" where
  "queue_enabled s (OpReserve self buffer n) = (bq_phase s = QIdle)"
| "queue_enabled s (OpSubmit allocated queued detail) = (case bq_phase s of QSubmitting _ _ _ _ \<Rightarrow> True | _ \<Rightarrow> False)"
| "queue_enabled s OpRollback = (case bq_phase s of QRollingBack _ _ _ \<Rightarrow> True | _ \<Rightarrow> False)"
| "queue_enabled s (OpConsume k) = (k < length (sk_borrowed (bq_sink s)))"
| "queue_enabled s (OpClear self) = (bq_phase s = QIdle)"
| "queue_enabled s (OpClearSink succeeded detail) = (bq_phase s = QClearing)"
| "queue_enabled s (OpRegisterCallback self callback context) = True"
| "queue_enabled s OpWorker = (bq_worker s = WkWaiting \<and> (bq_stopping s \<or> bq_callback_jobs s \<noteq> []))"
| "queue_enabled s OpCall = (case bq_worker s of WkPopped _ \<Rightarrow> True | _ \<Rightarrow> False)"
| "queue_enabled s OpReturn = (bq_worker s = WkInCallback)"
| "queue_enabled s (OpSetPlaying playing succeeded detail) = (bq_phase s = QIdle)"
| "queue_enabled s (OpSetGain gain succeeded detail) = (bq_phase s = QIdle)"
| "queue_enabled s OpShutdown = True"
| "queue_enabled s OpShutdownSink = (bq_stage s = ShSink \<and> bq_phase s = QIdle)"
| "queue_enabled s (OpJoin current result error_text) = 
     (bq_stage s = ShJoin \<and> (if current then bq_worker s = WkInCallback else bq_worker s = WkExited \<or> result \<noteq> 0))"
| "queue_enabled s OpFinish = (bq_stage s = ShFinish)"

end
