(* ===== verification/Audio_Safety.thy ===== *)
theory Audio_Safety
  imports Audio_Queue
begin

text \<open>
  The invariants of the buffer queue. \<open>queue_inv\<close> is kept by every step of every thread, whether SDL's calls
  succeed or fail: every ticket in use belongs to a buffer SDL borrows or to the one being submitted, the free
  list is the rest, and the statistics account for every buffer. \<open>queue_exact\<close> adds the converse (every borrowed
  buffer has a ticket of its own); it is kept by every step but a clear that SDL fails, and the last property
  shows what goes wrong then.
\<close>

section \<open>The ticket pool\<close>

definition users :: "ReleaseTicket list \<Rightarrow> nat set" where
  "users pool = {i. i < length pool \<and> rt_in_use (pool ! i)}"

definition pool_inv :: "ReleaseTicket list \<Rightarrow> nat list \<Rightarrow> nat \<Rightarrow> nat \<Rightarrow> bool" where
  "pool_inv pool free pending n \<longleftrightarrow>
     length pool = n \<and> distinct free \<and> set free = {..<n} - users pool \<and>
     (\<forall>i < n. rt_state (pool ! i) = rt_in_use (pool ! i)) \<and> pending = card (users pool)"

lemma users_bound: "users pool \<subseteq> {..<length pool}"
  by (auto simp: users_def)

lemma users_finite [simp]: "finite (users pool)"
  by (rule finite_subset [OF users_bound]) simp

lemma users_update:
  "slot < length pool \<Longrightarrow> users (pool[slot := t]) = (if rt_in_use t then insert slot (users pool) else users pool - {slot})"
  by (auto simp: users_def nth_list_update)

lemma pool_take:
  assumes "pool_inv pool free pending n" "free \<noteq> []" "rt_in_use t" "rt_state t"
  shows "pool_inv (pool[last free := t]) (butlast free) (Suc pending) n"
    "users (pool[last free := t]) = insert (last free) (users pool)" "last free \<notin> users pool" "last free < n"
proof -
  obtain fs x where f: "free = fs @ [x]" using assms(2) by (metis rev_exhaust)
  have x: "x < n" "x \<notin> users pool" "x \<notin> set fs" "distinct fs" "set fs = {..<n} - users pool - {x}" and len: "length pool = n"
    using assms(1) f by (auto simp: pool_inv_def)
  show "last free \<notin> users pool" "last free < n" using x f by simp_all
  show u: "users (pool[last free := t]) = insert (last free) (users pool)"
    using users_update [of x pool t] x(1) len f assms(3) by simp
  show "pool_inv (pool[last free := t]) (butlast free) (Suc pending) n"
    using assms x len f u by (auto simp: pool_inv_def nth_list_update)
qed

lemma pool_give:
  assumes "pool_inv pool free pending n" "slot \<in> users pool" "\<not> rt_in_use t" "\<not> rt_state t"
  shows "pool_inv (pool[slot := t]) (free @ [slot]) (pending - 1) n" "users (pool[slot := t]) = users pool - {slot}"
    "0 < pending" "slot < n"
proof -
  have len: "length pool = n" and slot: "slot < n" "slot \<notin> set free"
    using assms(1,2) users_bound [of pool] by (auto simp: pool_inv_def)
  show "slot < n" by (rule slot)
  show u: "users (pool[slot := t]) = users pool - {slot}" using users_update [of slot pool t] slot len assms(3) by simp
  have "card (users pool - {slot}) = pending - 1" "0 < pending"
    using assms(1,2) card_gt_0_iff [of "users pool"] by (auto simp: pool_inv_def)
  then show "pool_inv (pool[slot := t]) (free @ [slot]) (pending - 1) n" "0 < pending"
    using assms slot u len by (auto simp: pool_inv_def nth_list_update)
qed

lemma pool_reset:
  assumes "length pool = n" "\<And>i. i < n \<Longrightarrow> \<not> rt_in_use (pool ! i) \<and> \<not> rt_state (pool ! i)"
  shows "pool_inv pool (rev [0..<n]) 0 n" "users pool = {}"
  using assms by (auto simp: pool_inv_def users_def)

lemma pool_full:
  assumes "pool_inv pool free pending n"
  shows "pending \<le> n" "free = [] \<longleftrightarrow> pending = n"
proof -
  have s: "users pool \<subseteq> {..<n}" "set free = {..<n} - users pool" "pending = card (users pool)"
    using assms users_bound [of pool] by (auto simp: pool_inv_def)
  show "pending \<le> n" using card_mono [OF _ s(1)] s(3) by simp
  have "free = [] \<longleftrightarrow> {..<n} - users pool = {}" using s(2) by (metis set_empty)
  also have "\<dots> \<longleftrightarrow> users pool = {..<n}" using s(1) by blast
  also have "\<dots> \<longleftrightarrow> pending = n" using card_subset_eq [OF _ s(1)] s(3) by fastforce
  finally show "free = [] \<longleftrightarrow> pending = n" .
qed

section \<open>The invariant\<close>

fun reserved :: "QueuePhase \<Rightarrow> nat list" where
  "reserved (QSubmitting slot tid buffer n) = [slot]"
| "reserved (QRollingBack slot tid status) = [slot]"
| "reserved _ = []"

fun reserved_id :: "QueuePhase \<Rightarrow> nat option" where
  "reserved_id (QSubmitting slot tid buffer n) = Some tid"
| "reserved_id (QRollingBack slot tid status) = Some tid"
| "reserved_id _ = None"

text \<open>\<open>B\<close> are the tickets of the buffers the sink has borrowed and not yet released.\<close>

definition queue_ok :: "nat list \<Rightarrow> QueueState \<Rightarrow> bool" where
  "queue_ok B s \<longleftrightarrow>
     pool_inv (bq_ticket_pool s) (bq_free_tickets s) (bq_pending_count s) (bq_max_buffers s) \<and>
     set (B @ reserved (bq_phase s)) \<subseteq> {..<bq_max_buffers s} \<and>
     users (bq_ticket_pool s) \<subseteq> set (B @ reserved (bq_phase s)) \<and>
     bq_submitted_buffers s = bq_consumed_buffers s + bq_discarded_buffers s + bq_pending_count s \<and>
     bq_processed_buffers s = bq_consumed_buffers s \<and>
     (\<forall>slot \<in> set (reserved (bq_phase s)). reserved_id (bq_phase s) = Some (rt_id (bq_ticket_pool s ! slot)))"

definition exact_ok :: "nat list \<Rightarrow> QueueState \<Rightarrow> bool" where
  "exact_ok B s \<longleftrightarrow>
     distinct (B @ reserved (bq_phase s)) \<and>
     (if bq_phase s = QClearing then users (bq_ticket_pool s) = {}
      else set (B @ reserved (bq_phase s)) \<subseteq> users (bq_ticket_pool s))"

definition stage_ok :: "QueueState \<Rightarrow> bool" where
  "stage_ok s \<longleftrightarrow>
     bq_stopping s = bq_shutdown_started s \<and> (bq_shutdown_started s \<longleftrightarrow> bq_stage s \<noteq> ShNone) \<and>
     (bq_shutdown_complete s \<longleftrightarrow> bq_stage s = ShDone) \<and>
     (if bq_stage s = ShNone \<or> bq_stage s = ShSink then BeginCall (bq_sink s)
      else sk_borrowed (bq_sink s) = [] \<and> bq_phase s = QIdle) \<and>
     (\<forall>job \<in> set (bq_callback_jobs s). \<not> bq_stopping s)"

definition borrowed_slots :: "QueueState \<Rightarrow> nat list" where
  "borrowed_slots s = map fst (sk_borrowed (bq_sink s))"

definition queue_inv :: "QueueState \<Rightarrow> bool" where
  "queue_inv s \<longleftrightarrow> queue_ok (borrowed_slots s) s \<and> stage_ok s"

definition queue_exact :: "QueueState \<Rightarrow> bool" where
  "queue_exact s \<longleftrightarrow> queue_inv s \<and> exact_ok (borrowed_slots s) s"

lemma ok_pick:
  "queue_ok (B @ slot # C) s \<Longrightarrow> queue_ok (slot # B @ C) s"
  "exact_ok (B @ slot # C) s \<Longrightarrow> exact_ok (slot # B @ C) s"
  by (auto simp: queue_ok_def exact_ok_def split: if_splits)

lemma new_inv: "queue_inv (QueueState_new spec n)"
  by (auto simp: queue_inv_def queue_ok_def stage_ok_def QueueState_new_def SdlAudioSink_new_def BeginCall_def
      borrowed_slots_def intro: pool_reset simp: pool_reset)

lemma new_exact: "queue_exact (QueueState_new spec n)"
  using new_inv [of spec n]
  by (simp add: queue_exact_def exact_ok_def QueueState_new_def SdlAudioSink_new_def borrowed_slots_def)

section \<open>Releasing\<close>

text \<open>The fields a release does not touch.\<close>

lemma Release_frame:
  "bq_sink (ReleaseBuffer slot n s) = bq_sink s" "bq_phase (ReleaseBuffer slot n s) = bq_phase s"
  "bq_stage (ReleaseBuffer slot n s) = bq_stage s" "bq_stopping (ReleaseBuffer slot n s) = bq_stopping s"
  "bq_shutdown_started (ReleaseBuffer slot n s) = bq_shutdown_started s"
  "bq_shutdown_complete (ReleaseBuffer slot n s) = bq_shutdown_complete s"
  "bq_max_buffers (ReleaseBuffer slot n s) = bq_max_buffers s" "bq_delivered (ReleaseBuffer slot n s) = bq_delivered s"
  "bq_submitted_buffers (ReleaseBuffer slot n s) = bq_submitted_buffers s"
  "bq_last_status (ReleaseBuffer slot n s) = bq_last_status s" "bq_worker (ReleaseBuffer slot n s) = bq_worker s"
  "bq_generation (ReleaseBuffer slot n s) = bq_generation s"
  by (simp_all add: ReleaseBuffer_def detach_def NotifyEvent_def Let_def)

lemma Release_all_frame:
  "bq_sink (release_all bs s) = bq_sink s" "bq_phase (release_all bs s) = bq_phase s"
  "bq_stage (release_all bs s) = bq_stage s" "bq_stopping (release_all bs s) = bq_stopping s"
  "bq_shutdown_started (release_all bs s) = bq_shutdown_started s"
  "bq_shutdown_complete (release_all bs s) = bq_shutdown_complete s" "bq_delivered (release_all bs s) = bq_delivered s"
  "bq_submitted_buffers (release_all bs s) = bq_submitted_buffers s"
  "bq_last_status (release_all bs s) = bq_last_status s" "bq_worker (release_all bs s) = bq_worker s"
  by (induction bs arbitrary: s) (simp_all add: Release_frame)

lemma Release_idle:
  assumes "pool_inv (bq_ticket_pool s) free pending n" "slot < n" "slot \<notin> users (bq_ticket_pool s)"
  shows "ReleaseBuffer slot k s = s"
  using assms by (auto simp: ReleaseBuffer_def pool_inv_def users_def)

lemma Release_busy:
  assumes "pool_inv (bq_ticket_pool s) (bq_free_tickets s) (bq_pending_count s) n" "slot \<in> users (bq_ticket_pool s)"
  shows "\<exists>t c d. \<not> rt_in_use t \<and> \<not> rt_state t \<and> rt_id t = rt_id (bq_ticket_pool s ! slot) \<and>
      bq_ticket_pool (ReleaseBuffer slot k s) = (bq_ticket_pool s)[slot := t] \<and>
      bq_free_tickets (ReleaseBuffer slot k s) = bq_free_tickets s @ [slot] \<and>
      bq_pending_count (ReleaseBuffer slot k s) = bq_pending_count s - 1 \<and>
      bq_consumed_buffers (ReleaseBuffer slot k s) = bq_consumed_buffers s + c \<and>
      bq_processed_buffers (ReleaseBuffer slot k s) = bq_processed_buffers s + c \<and>
      bq_discarded_buffers (ReleaseBuffer slot k s) = bq_discarded_buffers s + d \<and> c + d = 1"
proof -
  let ?t = "(bq_ticket_pool s ! slot)\<lparr>rt_in_use := False, rt_state := False\<rparr>"
  have use: "rt_in_use (bq_ticket_pool s ! slot)" "rt_state (bq_ticket_pool s ! slot)"
    using assms by (auto simp: pool_inv_def users_def)
  show ?thesis using use
    by (cases "\<not> bq_stopping s \<and> rt_generation (bq_ticket_pool s ! slot) = bq_generation s")
      (auto simp: ReleaseBuffer_def detach_def NotifyEvent_def Let_def intro!: exI [of _ ?t])
qed

lemma Release_ok:
  assumes "queue_ok (slot # B) s"
  shows "queue_ok B (ReleaseBuffer slot k s)" "exact_ok (slot # B) s \<Longrightarrow> exact_ok B (ReleaseBuffer slot k s)"
proof -
  have "queue_ok B (ReleaseBuffer slot k s) \<and> (exact_ok (slot # B) s \<longrightarrow> exact_ok B (ReleaseBuffer slot k s))"
  proof (cases "slot \<in> users (bq_ticket_pool s)")
    case False
    then have "ReleaseBuffer slot k s = s" using assms by (intro Release_idle) (auto simp: queue_ok_def)
    then show ?thesis using assms False by (auto simp: queue_ok_def exact_ok_def split: if_splits)
  next
    case True
    have p: "pool_inv (bq_ticket_pool s) (bq_free_tickets s) (bq_pending_count s) (bq_max_buffers s)"
      using assms by (simp add: queue_ok_def)
    obtain t c d where r: "\<not> rt_in_use t" "\<not> rt_state t" "rt_id t = rt_id (bq_ticket_pool s ! slot)"
        "bq_ticket_pool (ReleaseBuffer slot k s) = (bq_ticket_pool s)[slot := t]"
        "bq_free_tickets (ReleaseBuffer slot k s) = bq_free_tickets s @ [slot]"
        "bq_pending_count (ReleaseBuffer slot k s) = bq_pending_count s - 1"
        "bq_consumed_buffers (ReleaseBuffer slot k s) = bq_consumed_buffers s + c"
        "bq_processed_buffers (ReleaseBuffer slot k s) = bq_processed_buffers s + c"
        "bq_discarded_buffers (ReleaseBuffer slot k s) = bq_discarded_buffers s + d" "c + d = 1"
      using Release_busy [OF p True] by blast
    note g = pool_give [OF p True r(1,2)]
    have "length (bq_ticket_pool s) = bq_max_buffers s" using p by (simp add: pool_inv_def)
    then have "rt_id ((bq_ticket_pool s)[slot := t] ! j) = rt_id (bq_ticket_pool s ! j)" for j
      using r(3) g(4) by (auto simp: nth_list_update)
    then show ?thesis using assms True r g by (auto simp: queue_ok_def exact_ok_def Release_frame split: if_splits)
  qed
  then show "queue_ok B (ReleaseBuffer slot k s)" "exact_ok (slot # B) s \<Longrightarrow> exact_ok B (ReleaseBuffer slot k s)" by auto
qed

text \<open>While the queue is stopping, releases queue no callbacks and count nothing as consumed.\<close>

lemma release_all_stopping:
  "bq_stopping s \<Longrightarrow> bq_callback_jobs (release_all bs s) = bq_callback_jobs s"
  "bq_stopping s \<Longrightarrow> bq_consumed_buffers (release_all bs s) = bq_consumed_buffers s"
  by (induction bs arbitrary: s) (simp_all add: ReleaseBuffer_def detach_def NotifyEvent_def Let_def)

lemma release_all_ok: "queue_ok (map fst bs @ B) s \<Longrightarrow> queue_ok B (release_all bs s)"
  by (induction bs arbitrary: s) (auto intro: Release_ok)


section \<open>Every step keeps the invariant\<close>

lemma invD:
  assumes "queue_inv s"
  shows "queue_ok (borrowed_slots s) s" "stage_ok s"
    "pool_inv (bq_ticket_pool s) (bq_free_tickets s) (bq_pending_count s) (bq_max_buffers s)"
    "bq_phase s \<noteq> QIdle \<Longrightarrow> BeginCall (bq_sink s)"
  using assms by (auto simp: queue_inv_def queue_ok_def stage_ok_def split: if_splits)

lemma reserve_inv:
  assumes "queue_inv s" "bq_phase s = QIdle"
  shows "queue_inv (snd (AbiEnqueue_reserve self buffer n s))"
    "queue_exact s \<Longrightarrow> queue_exact (snd (AbiEnqueue_reserve self buffer n s))"
proof -
  have "queue_inv (snd (AbiEnqueue_reserve self buffer n s)) \<and>
    (queue_exact s \<longrightarrow> queue_exact (snd (AbiEnqueue_reserve self buffer n s)))"
  proof (cases "\<not> self \<or> buffer = 0 \<or> n = 0 \<or> bq_stopping s \<or> bq_pending_count s \<ge> bq_max_buffers s \<or> bq_free_tickets s = []")
    case True
    then have "snd (AbiEnqueue_reserve self buffer n s) = s" by (auto simp: AbiEnqueue_reserve_def)
    then show ?thesis using assms(1) by simp
  next
    case False
    let ?t = "\<lparr>rt_state = True, rt_id = bq_next_id s, rt_generation = bq_generation s, rt_in_use = True\<rparr>"
    let ?s = "snd (AbiEnqueue_reserve self buffer n s)"
    have f: "bq_free_tickets s \<noteq> []" using False by simp
    note t = pool_take [OF invD(3) [OF assms(1)] f, of ?t]
    have "bq_stage s = ShNone" using assms(1) False by (auto simp: queue_inv_def stage_ok_def)
    then have inv: "queue_inv ?s" using False assms t invD(3) [OF assms(1)]
      by (auto simp: AbiEnqueue_reserve_def Let_def queue_inv_def queue_ok_def stage_ok_def borrowed_slots_def pool_inv_def)
    moreover have "exact_ok (borrowed_slots ?s) ?s" if "queue_exact s"
      using that False assms t by (auto simp: AbiEnqueue_reserve_def Let_def queue_exact_def queue_inv_def queue_ok_def
          exact_ok_def borrowed_slots_def)
    ultimately show ?thesis by (simp add: queue_exact_def)
  qed
  then show "queue_inv (snd (AbiEnqueue_reserve self buffer n s))"
    "queue_exact s \<Longrightarrow> queue_exact (snd (AbiEnqueue_reserve self buffer n s))" by auto
qed

lemma SinkEnqueue_cases:
  assumes "SinkEnqueue allocated queued detail \<lparr>pb_data = buffer, pb_size_bytes = n, pb_release = Some slot\<rparr> k = (status, k')"
  shows "status_ok status \<and> k' = k\<lparr>sk_borrowed := sk_borrowed k @ [(slot, n)]\<rparr> \<or> \<not> status_ok status \<and> k' = k"
  using assms by (auto simp: SinkEnqueue_def SdlError_def Let_def split: if_splits)

lemma submit_inv:
  assumes "queue_inv s" "bq_phase s = QSubmitting slot tid buffer n"
  shows "queue_inv (snd (AbiEnqueue_submit allocated queued detail s))"
    "queue_exact s \<Longrightarrow> queue_exact (snd (AbiEnqueue_submit allocated queued detail s))"
proof -
  obtain status k where e: "SinkEnqueue allocated queued detail
      \<lparr>pb_data = buffer, pb_size_bytes = n, pb_release = Some slot\<rparr> (bq_sink s) = (status, k)" by force
  have started: "BeginCall (bq_sink s)" using invD(4) [OF assms(1)] assms(2) by simp
  from SinkEnqueue_cases [OF e] have "queue_inv (snd (AbiEnqueue_submit allocated queued detail s)) \<and>
    (queue_exact s \<longrightarrow> queue_exact (snd (AbiEnqueue_submit allocated queued detail s)))"
  proof
    assume a: "status_ok status \<and> k = (bq_sink s)\<lparr>sk_borrowed := sk_borrowed (bq_sink s) @ [(slot, n)]\<rparr>"
    then show ?thesis using assms e started
      by (auto simp: AbiEnqueue_submit_def NotifyEvent_def queue_inv_def queue_ok_def stage_ok_def borrowed_slots_def
          BeginCall_def queue_exact_def exact_ok_def)
  next
    assume "\<not> status_ok status \<and> k = bq_sink s"
    then show ?thesis using assms e
      by (auto simp: AbiEnqueue_submit_def queue_inv_def queue_ok_def stage_ok_def borrowed_slots_def
          queue_exact_def exact_ok_def)
  qed
  then show "queue_inv (snd (AbiEnqueue_submit allocated queued detail s))"
    "queue_exact s \<Longrightarrow> queue_exact (snd (AbiEnqueue_submit allocated queued detail s))" by auto
qed

lemma rollback_inv:
  assumes "queue_inv s" "bq_phase s = QRollingBack slot tid status"
  shows "queue_inv (snd (AbiEnqueue_rollback s))" "queue_exact s \<Longrightarrow> queue_exact (snd (AbiEnqueue_rollback s))"
proof -
  let ?t = "(bq_ticket_pool s ! slot)\<lparr>rt_in_use := False, rt_state := False\<rparr>"
  have id: "rt_id (bq_ticket_pool s ! slot) = tid" "slot < length (bq_ticket_pool s)"
    using assms invD(3) [OF assms(1)] by (auto simp: queue_inv_def queue_ok_def pool_inv_def)
  have "queue_inv (snd (AbiEnqueue_rollback s)) \<and> (queue_exact s \<longrightarrow> queue_exact (snd (AbiEnqueue_rollback s)))"
  proof (cases "slot \<in> users (bq_ticket_pool s)")
    case True
    note g = pool_give [OF invD(3) [OF assms(1)] True, of ?t]
    have use: "rt_in_use (bq_ticket_pool s ! slot)" using True by (simp add: users_def)
    show ?thesis using assms use id g
      by (auto simp: AbiEnqueue_rollback_def Let_def detach_def queue_inv_def queue_ok_def stage_ok_def borrowed_slots_def
          queue_exact_def exact_ok_def)
  next
    case False
    then have "\<not> rt_in_use (bq_ticket_pool s ! slot)" using id(2) by (simp add: users_def)
    then show ?thesis using assms False
      by (auto simp: AbiEnqueue_rollback_def Let_def queue_inv_def queue_ok_def stage_ok_def borrowed_slots_def
          queue_exact_def exact_ok_def)
  qed
  then show "queue_inv (snd (AbiEnqueue_rollback s))" "queue_exact s \<Longrightarrow> queue_exact (snd (AbiEnqueue_rollback s))" by auto
qed

lemma consume_inv:
  assumes "queue_inv s" "k < length (sk_borrowed (bq_sink s))"
  shows "queue_inv (OnSdlBufferReleased k s)" "queue_exact s \<Longrightarrow> queue_exact (OnSdlBufferReleased k s)"
proof -
  let ?bs = "sk_borrowed (bq_sink s)"
  let ?s = "s\<lparr>bq_sink := (bq_sink s)\<lparr>sk_borrowed := take k ?bs @ drop (Suc k) ?bs\<rparr>\<rparr>"
  have split: "map fst ?bs = map fst (take k ?bs) @ fst (?bs ! k) # map fst (drop (Suc k) ?bs)"
    by (metis assms(2) id_take_nth_drop list.simps(9) map_append)
  have eq: "OnSdlBufferReleased k s = ReleaseBuffer (fst (?bs ! k)) (snd (?bs ! k)) ?s"
    by (simp add: OnSdlBufferReleased_def case_prod_beta)
  have slots: "borrowed_slots (OnSdlBufferReleased k s) = borrowed_slots ?s" by (simp add: eq borrowed_slots_def Release_frame)
  have "queue_ok (fst (?bs ! k) # map fst (take k ?bs) @ map fst (drop (Suc k) ?bs)) s"
    using invD(1) [OF assms(1)] ok_pick(1) unfolding borrowed_slots_def split by blast
  then have ok: "queue_ok (fst (?bs ! k) # borrowed_slots ?s) ?s" by (simp add: queue_ok_def borrowed_slots_def)
  have "bq_stage s = ShNone \<or> bq_stage s = ShSink" using assms by (auto simp: queue_inv_def stage_ok_def split: if_splits)
  then have "stage_ok (OnSdlBufferReleased k s)" using assms(1)
    by (auto simp: queue_inv_def stage_ok_def OnSdlBufferReleased_def case_prod_beta Release_frame BeginCall_def
        ReleaseBuffer_def NotifyEvent_def detach_def Let_def)
  then show inv: "queue_inv (OnSdlBufferReleased k s)"
    unfolding queue_inv_def slots unfolding eq using Release_ok(1) [OF ok] by simp
  assume "queue_exact s"
  then have "exact_ok (fst (?bs ! k) # map fst (take k ?bs) @ map fst (drop (Suc k) ?bs)) s"
    using ok_pick(2) unfolding queue_exact_def borrowed_slots_def split by blast
  then have "exact_ok (fst (?bs ! k) # borrowed_slots ?s) ?s" by (simp add: exact_ok_def borrowed_slots_def split: if_splits)
  then have "exact_ok (borrowed_slots ?s) (OnSdlBufferReleased k s)" unfolding eq by (rule Release_ok(2) [OF ok])
  then show "queue_exact (OnSdlBufferReleased k s)" using inv by (simp add: queue_exact_def slots)
qed

lemma clear_begin_inv:
  assumes "queue_inv s" "bq_phase s = QIdle"
  shows "queue_inv (snd (AbiClear_begin self s))" "queue_exact s \<Longrightarrow> queue_exact (snd (AbiClear_begin self s))"
proof -
  have "queue_inv (snd (AbiClear_begin self s)) \<and> (queue_exact s \<longrightarrow> queue_exact (snd (AbiClear_begin self s)))"
  proof (cases "\<not> self \<or> bq_stopping s")
    case True
    then have "snd (AbiClear_begin self s) = s" by (auto simp: AbiClear_begin_def)
    then show ?thesis using assms(1) by simp
  next
    case False
    let ?pool = "map (\<lambda>t. if rt_in_use t then t\<lparr>rt_in_use := False, rt_state := False\<rparr> else t) (bq_ticket_pool s)"
    have card: "card (users (bq_ticket_pool s)) = length (filter rt_in_use (bq_ticket_pool s))"
      by (simp add: users_def length_filter_conv_card)
    have "pool_inv ?pool (rev [0..<bq_max_buffers s]) 0 (bq_max_buffers s) \<and> users ?pool = {}"
      using invD(3) [OF assms(1)] pool_reset [of ?pool "bq_max_buffers s"] by (auto simp: pool_inv_def)
    moreover have "bq_stage s = ShNone" using assms(1) False by (auto simp: queue_inv_def stage_ok_def)
    ultimately show ?thesis using assms False invD(3) [OF assms(1)] card
      by (auto simp: AbiClear_begin_def Let_def queue_inv_def queue_ok_def stage_ok_def borrowed_slots_def pool_inv_def
          queue_exact_def exact_ok_def)
  qed
  then show "queue_inv (snd (AbiClear_begin self s))" "queue_exact s \<Longrightarrow> queue_exact (snd (AbiClear_begin self s))" by auto
qed

text \<open>A clear that SDL performs releases every borrowed buffer; one that it fails leaves them borrowed.\<close>

lemma clear_sink_cases:
  assumes "queue_inv s" "bq_phase s = QClearing"
  shows "snd (AbiClear_sink succeeded detail s) =
    (if succeeded then release_all (sk_borrowed (bq_sink s)) (s\<lparr>bq_sink := (bq_sink s)\<lparr>sk_borrowed := []\<rparr>, bq_phase := QIdle\<rparr>)
     else s\<lparr>bq_phase := QIdle, bq_last_status := SdlError ''SDL_ClearAudioStream'' detail\<rparr>)"
  using invD(4) [OF assms(1)] assms(2)
  by (simp add: AbiClear_sink_def SinkClear_def WithStream_def SdlError_def Let_def)

lemma clear_sink_inv:
  assumes "queue_inv s" "bq_phase s = QClearing"
  shows "queue_inv (snd (AbiClear_sink succeeded detail s))"
    "succeeded \<Longrightarrow> queue_exact s \<Longrightarrow> queue_exact (snd (AbiClear_sink succeeded detail s))"
proof -
  let ?s = "s\<lparr>bq_sink := (bq_sink s)\<lparr>sk_borrowed := []\<rparr>, bq_phase := QIdle\<rparr>"
  let ?r = "release_all (sk_borrowed (bq_sink s)) ?s"
  have b: "BeginCall (bq_sink s)" "bq_stage s = ShNone \<or> bq_stage s = ShSink"
    using assms by (auto simp: queue_inv_def stage_ok_def split: if_splits)
  have "queue_ok (map fst (sk_borrowed (bq_sink s)) @ []) ?s"
    using assms by (simp add: queue_inv_def queue_ok_def borrowed_slots_def)
  from release_all_ok [OF this] have "queue_ok [] ?r" .
  moreover have "bq_stopping ?r \<Longrightarrow> bq_callback_jobs ?r = []"
    using assms(1) release_all_stopping(1) [of ?s] by (auto simp: queue_inv_def stage_ok_def Release_all_frame)
  ultimately have r: "queue_inv ?r" using assms(1) b
    by (auto simp: queue_inv_def stage_ok_def borrowed_slots_def Release_all_frame BeginCall_def)
  have f: "queue_inv (s\<lparr>bq_phase := QIdle, bq_last_status := status\<rparr>)" for status
    using assms b by (auto simp: queue_inv_def queue_ok_def stage_ok_def borrowed_slots_def)
  show "queue_inv (snd (AbiClear_sink succeeded detail s))"
    using r f unfolding clear_sink_cases [OF assms] by simp
  assume "succeeded" "queue_exact s"
  then show "queue_exact (snd (AbiClear_sink succeeded detail s))"
    using r unfolding clear_sink_cases [OF assms]
    by (simp add: queue_exact_def exact_ok_def borrowed_slots_def Release_all_frame)
qed

lemma settings_inv:
  assumes "queue_inv s"
  shows "queue_inv (snd (sink_setting f s))" "queue_inv (snd (AbiRegisterCallback self callback context s))"
    "queue_inv (RunCallbacks_locked s)" "queue_inv (RunCallbacks_call s)" "queue_inv (RunCallbacks_return s)"
    "queue_inv (Shutdown_begin s)"
  using assms by (auto simp: sink_setting_def AbiRegisterCallback_def RunCallbacks_locked_def RunCallbacks_call_def
      RunCallbacks_return_def Shutdown_begin_def Let_def
      queue_inv_def queue_ok_def stage_ok_def borrowed_slots_def split: list.splits if_splits CallbackWorker.splits)

text \<open>What the exact part of the invariant is about, and the steps that do not touch it.\<close>

lemma exact_cong:
  "queue_exact s \<Longrightarrow> queue_inv t \<Longrightarrow> bq_phase t = bq_phase s \<Longrightarrow> users (bq_ticket_pool t) = users (bq_ticket_pool s) \<Longrightarrow>
   sk_borrowed (bq_sink t) = sk_borrowed (bq_sink s) \<Longrightarrow> queue_exact t"
  by (simp add: queue_exact_def exact_ok_def borrowed_slots_def split: if_splits)

lemma settings_exact:
  assumes "queue_exact s"
  shows "queue_exact (snd (sink_setting f s))" "queue_exact (snd (AbiRegisterCallback self callback context s))"
    "queue_exact (RunCallbacks_locked s)" "queue_exact (RunCallbacks_call s)" "queue_exact (RunCallbacks_return s)"
    "queue_exact (Shutdown_begin s)"
proof -
  have inv: "queue_inv s" using assms by (simp add: queue_exact_def)
  note e = exact_cong [OF assms] and i = settings_inv [OF inv]
  show "queue_exact (snd (sink_setting f s))" by (rule e [OF i(1)]) (simp_all add: sink_setting_def Let_def)
  show "queue_exact (snd (AbiRegisterCallback self callback context s))" by (rule e [OF i(2)]) (simp_all add: AbiRegisterCallback_def)
  show "queue_exact (RunCallbacks_locked s)"
    by (rule e [OF i(3)]) (simp_all add: RunCallbacks_locked_def split: list.splits)
  show "queue_exact (RunCallbacks_call s)"
    by (rule e [OF i(4)]) (simp_all add: RunCallbacks_call_def split: CallbackWorker.splits)
  show "queue_exact (RunCallbacks_return s)" by (rule e [OF i(5)]) (simp_all add: RunCallbacks_return_def)
  show "queue_exact (Shutdown_begin s)" by (rule e [OF i(6)]) (simp_all add: Shutdown_begin_def)
qed

lemma shutdown_sink_inv:
  assumes "queue_inv s" "bq_stage s = ShSink" "bq_phase s = QIdle"
  shows "queue_inv (Shutdown_sink s)" "queue_exact (Shutdown_sink s)"
proof -
  let ?k = "(bq_sink s)\<lparr>sk_shutting_down := True, sk_stream := False, sk_shutdown_complete := True, sk_borrowed := []\<rparr>"
  let ?s = "s\<lparr>bq_sink := ?k, bq_stage := ShJoin\<rparr>"
  have b: "BeginCall (bq_sink s)" using assms by (auto simp: queue_inv_def stage_ok_def)
  have eq: "Shutdown_sink s = release_all (sk_borrowed (bq_sink s)) ?s"
    using b by (auto simp: Shutdown_sink_def SinkShutdown_def BeginCall_def)
  have "queue_ok (map fst (sk_borrowed (bq_sink s)) @ []) ?s"
    using assms by (simp add: queue_inv_def queue_ok_def borrowed_slots_def)
  from release_all_ok [OF this] have "queue_ok [] (Shutdown_sink s)" unfolding eq .
  then show inv: "queue_inv (Shutdown_sink s)" using assms release_all_stopping(1) [of ?s] unfolding eq
    by (auto simp: queue_inv_def stage_ok_def borrowed_slots_def Release_all_frame)
  show "queue_exact (Shutdown_sink s)" using inv assms unfolding eq
    by (simp add: queue_exact_def exact_ok_def borrowed_slots_def Release_all_frame)
qed

lemma finish_inv:
  assumes "queue_inv s"
  shows "bq_stage s = ShJoin \<Longrightarrow> queue_inv (JoinCallbackThread current result error_text s)"
    "bq_stage s = ShFinish \<Longrightarrow> bq_pending_count s = 0" "bq_stage s = ShFinish \<Longrightarrow> queue_inv (Shutdown_finish s)"
    "queue_exact s \<Longrightarrow> bq_stage s = ShJoin \<Longrightarrow> queue_exact (JoinCallbackThread current result error_text s)"
    "queue_exact s \<Longrightarrow> bq_stage s = ShFinish \<Longrightarrow> queue_exact (Shutdown_finish s)"
proof -
  show j: "bq_stage s = ShJoin \<Longrightarrow> queue_inv (JoinCallbackThread current result error_text s)"
    using assms by (auto simp: JoinCallbackThread_def Let_def queue_inv_def queue_ok_def stage_ok_def borrowed_slots_def)
  show p: "bq_stage s = ShFinish \<Longrightarrow> bq_pending_count s = 0"
    using assms by (auto simp: queue_inv_def queue_ok_def stage_ok_def borrowed_slots_def pool_inv_def)
  show f: "bq_stage s = ShFinish \<Longrightarrow> queue_inv (Shutdown_finish s)"
    using assms p by (auto simp: Shutdown_finish_def Let_def queue_inv_def queue_ok_def stage_ok_def borrowed_slots_def)
  show "queue_exact s \<Longrightarrow> bq_stage s = ShJoin \<Longrightarrow> queue_exact (JoinCallbackThread current result error_text s)"
    by (rule exact_cong [OF _ j]) (assumption | simp add: JoinCallbackThread_def Let_def)+
  show "queue_exact s \<Longrightarrow> bq_stage s = ShFinish \<Longrightarrow> queue_exact (Shutdown_finish s)"
    by (rule exact_cong [OF _ f]) (assumption | simp add: Shutdown_finish_def p Let_def)+
qed

lemma queue_step_inv: "queue_inv s \<Longrightarrow> queue_enabled s op \<Longrightarrow> queue_inv (queue_step s op)"
  by (cases op) (auto simp: SetPlaying_def SetGain_def finish_inv
      intro: reserve_inv submit_inv rollback_inv consume_inv clear_begin_inv clear_sink_inv settings_inv shutdown_sink_inv
      split: QueuePhase.splits)

text \<open>The steps that are not a clear SDL fails.\<close>

fun clear_succeeds :: "QueueOp \<Rightarrow> bool" where
  "clear_succeeds (OpClearSink succeeded detail) = succeeded"
| "clear_succeeds _ = True"

lemma queue_step_exact: "queue_exact s \<Longrightarrow> queue_enabled s op \<Longrightarrow> clear_succeeds op \<Longrightarrow> queue_exact (queue_step s op)"
  using queue_exact_def [of s]
  by (cases op) (auto simp: SetPlaying_def SetGain_def finish_inv
      intro: reserve_inv submit_inv rollback_inv consume_inv clear_begin_inv clear_sink_inv settings_exact shutdown_sink_inv
      split: QueuePhase.splits)

interpretation queue: contracted_component queue_step queue_enabled queue_inv
  by unfold_locales (rule queue_step_inv)

interpretation exact: contracted_component queue_step "\<lambda>s op. queue_enabled s op \<and> clear_succeeds op" queue_exact
  by unfold_locales (auto intro: queue_step_exact)

lemma queue_reached: "admitted queue_step queue_enabled (QueueState_new spec n) ops \<Longrightarrow>
    queue_inv (run_ops queue_step (QueueState_new spec n) ops)"
  by (rule queue.run_invar [OF new_inv])

lemma admitted_all: "admitted step ok s ops \<Longrightarrow> list_all P ops \<Longrightarrow> admitted step (\<lambda>s op. ok s op \<and> P op) s ops"
  by (induction ops arbitrary: s) simp_all

lemma exact_reached: "admitted queue_step queue_enabled (QueueState_new spec n) ops \<Longrightarrow> list_all clear_succeeds ops \<Longrightarrow>
    queue_exact (run_ops queue_step (QueueState_new spec n) ops)"
  by (rule exact.run_invar [OF new_exact admitted_all])

section \<open>Properties\<close>

text \<open>C38: the queue loses no buffer and invents none. Under every interleaving of the client's threads, the
  callback worker and SDL's audio thread, and whatever SDL's calls return, at most the capacity is pending,
  every submitted buffer has been consumed, discarded or is pending, and a submission finds a free ticket exactly
  when fewer than the capacity are pending. If in addition SDL has not failed to clear its stream, no ticket
  belongs to two buffers and the pending buffers are those SDL still borrows plus the one being submitted;
  between the two halves of a clear nothing is pending. (C40 shows that a failed clear does break this.)\<close>

theorem queue_accounts_for_buffers:
  assumes "admitted queue_step queue_enabled (QueueState_new spec n) ops"
    and "s = run_ops queue_step (QueueState_new spec n) ops"
  shows "bq_pending_count s \<le> bq_max_buffers s \<and>
    bq_submitted_buffers s = bq_consumed_buffers s + bq_discarded_buffers s + bq_pending_count s \<and>
    (bq_free_tickets s \<noteq> [] \<longleftrightarrow> bq_pending_count s < bq_max_buffers s) \<and>
    (list_all clear_succeeds ops \<longrightarrow>
       distinct (map fst (sk_borrowed (bq_sink s)) @ reserved (bq_phase s)) \<and>
       bq_pending_count s =
         (if bq_phase s = QClearing then 0 else length (sk_borrowed (bq_sink s)) + length (reserved (bq_phase s))))"
proof -
  let ?B = "map fst (sk_borrowed (bq_sink s)) @ reserved (bq_phase s)"
  have inv: "queue_inv s" using queue_reached [OF assms(1)] assms(2) by simp
  note ok = invD(1) [OF inv, unfolded queue_ok_def borrowed_slots_def] and full = pool_full [OF invD(3) [OF inv]]
  have "distinct ?B \<and> bq_pending_count s = (if bq_phase s = QClearing then 0 else length ?B)" if "list_all clear_succeeds ops"
  proof -
    have e: "exact_ok (map fst (sk_borrowed (bq_sink s))) s"
      using exact_reached [OF assms(1) that] assms(2) by (simp add: queue_exact_def borrowed_slots_def)
    then have "users (bq_ticket_pool s) = (if bq_phase s = QClearing then {} else set ?B)"
      using ok by (auto simp: exact_ok_def split: if_splits)
    then have "bq_pending_count s = (if bq_phase s = QClearing then 0 else card (set ?B))" using ok by (simp add: pool_inv_def)
    moreover have d: "distinct ?B" using e by (simp add: exact_ok_def)
    ultimately show ?thesis using distinct_card [OF d] by simp
  qed
  then show ?thesis using ok full by auto
qed

definition stereo :: PcmSpec where
  "stereo = \<lparr>sample_rate_hz = 48000, pcm_channels = 2, pcm_format = kSigned16LittleEndian\<rparr>"

definition sample_ops :: "QueueOp list" where
  "sample_ops = [OpRegisterCallback True 7 9, OpReserve True 100 8, OpSubmit True True [], OpReserve True 200 4,
     OpSubmit True True [], OpConsume 0, OpReserve True 300 3]"

lemmas queue_exec = AbiRegisterCallback_def AbiEnqueue_reserve_def AbiEnqueue_submit_def
  AbiEnqueue_rollback_def AbiClear_begin_def AbiClear_sink_def SinkClear_def OnSdlBufferReleased_def
  ReleaseBuffer_def detach_def NotifyEvent_def SinkEnqueue_def WithStream_def BeginCall_def BytesPerFrame_def
  QueueState_new_def SdlAudioSink_new_def RunCallbacks_locked_def RunCallbacks_call_def RunCallbacks_return_def
  Shutdown_begin_def Shutdown_sink_def SinkShutdown_def
  JoinCallbackThread_def Shutdown_finish_def SdlError_def Let_def upt_rec

lemma sample_admitted: "admitted queue_step queue_enabled (QueueState_new stereo 2) sample_ops"
  by (simp add: sample_ops_def stereo_def queue_exec)

theorem queue_accounts_for_buffers_witness:
  "admitted queue_step queue_enabled (QueueState_new stereo 2) sample_ops \<and> list_all clear_succeeds sample_ops \<and>
   bq_pending_count (run_ops queue_step (QueueState_new stereo 2) sample_ops) = 2"
proof -
  let ?s = "run_ops queue_step (QueueState_new stereo 2) sample_ops"
  have "length (sk_borrowed (bq_sink ?s)) = 1" "reserved (bq_phase ?s) = [0]" "bq_phase ?s \<noteq> QClearing"
      "list_all clear_succeeds sample_ops"
    by (simp_all add: sample_ops_def stereo_def queue_exec)
  then show ?thesis using queue_accounts_for_buffers [OF sample_admitted refl] sample_admitted by simp
qed

text \<open>After shutdown has begun: the job the worker took out of the queue before is all that is still to be
  delivered.\<close>

fun popped :: "CallbackWorker \<Rightarrow> CallbackJob list" where
  "popped (WkPopped job) = [job]"
| "popped _ = []"

definition still_delivering :: "QueueState \<Rightarrow> CallbackJob list" where
  "still_delivering s = bq_delivered s @ popped (bq_worker s)"

definition stopped_like :: "QueueState \<Rightarrow> QueueState \<Rightarrow> bool" where
  "stopped_like s t \<longleftrightarrow> bq_shutdown_started t \<and> still_delivering t = still_delivering s \<and>
     bq_consumed_buffers t = bq_consumed_buffers s \<and> bq_submitted_buffers t \<le> bq_submitted_buffers s \<and>
     (bq_worker s = WkExited \<longrightarrow> bq_worker t = WkExited)"

lemma stopped_step:
  assumes "queue_inv s" "bq_shutdown_started s" "queue_enabled s op"
  shows "stopped_like s (queue_step s op)"
proof -
  have stop: "bq_stopping s" using assms(1,2) by (simp add: queue_inv_def stage_ok_def)
  show ?thesis using assms(2,3) stop
    by (cases op) (auto simp: stopped_like_def still_delivering_def AbiEnqueue_reserve_def AbiEnqueue_submit_def AbiEnqueue_rollback_def
        OnSdlBufferReleased_def ReleaseBuffer_def detach_def NotifyEvent_def AbiClear_begin_def AbiClear_sink_def
        AbiRegisterCallback_def RunCallbacks_locked_def RunCallbacks_call_def RunCallbacks_return_def
        SetPlaying_def SetGain_def sink_setting_def Shutdown_begin_def
        Shutdown_sink_def JoinCallbackThread_def Shutdown_finish_def Let_def Release_all_frame release_all_stopping
        split: QueuePhase.splits CallbackWorker.splits prod.splits)
qed

lemma stopped_run:
  "queue_inv s \<Longrightarrow> bq_shutdown_started s \<Longrightarrow> admitted queue_step queue_enabled s ops \<Longrightarrow>
   stopped_like s (run_ops queue_step s ops)"
proof (induction ops arbitrary: s)
  case (Cons op ops)
  have e: "queue_enabled s op" "admitted queue_step queue_enabled (queue_step s op) ops" using Cons.prems by auto
  note st = stopped_step [OF Cons.prems(1,2) e(1)]
  then have "stopped_like (queue_step s op) (run_ops queue_step (queue_step s op) ops)"
    using Cons.IH [OF queue_step_inv [OF Cons.prems(1) e(1)] _ e(2)] by (simp add: stopped_like_def)
  with st show ?case by (auto simp: stopped_like_def)
qed (simp add: stopped_like_def)

text \<open>A join by another thread that returned 0 found the worker out of its loop, where it stays.\<close>

lemma joined_exited:
  assumes "queue_inv s" "admitted queue_step queue_enabled s ops" "OpJoin False 0 e \<in> set ops"
  shows "bq_worker (run_ops queue_step s ops) = WkExited"
proof -
  obtain us vs where ops: "ops = us @ OpJoin False 0 e # vs" using assms(3) by (meson split_list)
  let ?s = "run_ops queue_step s us"
  let ?t = "queue_step ?s (OpJoin False 0 e)"
  have adm: "admitted queue_step queue_enabled s us" "queue_enabled ?s (OpJoin False 0 e)" "admitted queue_step queue_enabled ?t vs"
    using assms(2) unfolding ops by (auto simp: admitted_append)
  have inv: "queue_inv ?s" by (rule queue.run_invar [OF assms(1) adm(1)])
  have st: "bq_worker ?s = WkExited" "bq_stage ?s = ShJoin" using adm(2) by simp_all
  have "bq_shutdown_started ?s" using inv st(2) by (simp add: queue_inv_def stage_ok_def)
  then have t: "bq_worker ?t = WkExited" "bq_shutdown_started ?t"
    using st by (simp_all add: JoinCallbackThread_def Let_def)
  have "run_ops queue_step s ops = run_ops queue_step ?t vs" by (simp add: ops run_ops_append)
  moreover have "stopped_like ?t (run_ops queue_step ?t vs)"
    by (rule stopped_run [OF queue_step_inv [OF inv adm(2)] t(2) adm(3)])
  ultimately show ?thesis using t(1) by (simp add: stopped_like_def)
qed

text \<open>C39: shutdown is clean. From the moment shutdown has begun, whatever the other threads still do and
  whatever SDL's calls return, no buffer is accepted or reported as consumed, and the only callback that can
  still be delivered is the one whose job the worker had taken from the queue before: what has been delivered
  together with that job stays the same. A join by another thread that returned 0 means that the worker has left
  its loop, with nothing left to deliver. When shutdown has completed, SDL borrows no buffer, none is pending and
  every buffer that was submitted was consumed or discarded.\<close>

theorem queue_shutdown_is_clean:
  assumes "admitted queue_step queue_enabled (QueueState_new spec n) (before @ after)"
    and "s = run_ops queue_step (QueueState_new spec n) before" "bq_shutdown_started s"
    and "t = run_ops queue_step s after"
  shows "bq_delivered t @ popped (bq_worker t) = bq_delivered s @ popped (bq_worker s) \<and>
    bq_consumed_buffers t = bq_consumed_buffers s \<and> bq_submitted_buffers t \<le> bq_submitted_buffers s \<and>
    (OpJoin False 0 e \<in> set (before @ after) \<longrightarrow> bq_worker t = WkExited) \<and>
    (bq_shutdown_complete t \<longrightarrow> sk_borrowed (bq_sink t) = [] \<and> bq_pending_count t = 0 \<and>
       bq_submitted_buffers t = bq_consumed_buffers t + bq_discarded_buffers t)"
proof -
  have adm: "admitted queue_step queue_enabled (QueueState_new spec n) before" "admitted queue_step queue_enabled s after"
    using assms(1,2) by (simp_all add: admitted_append)
  have inv: "queue_inv s" using queue_reached [OF adm(1)] assms(2) by simp
  have inv': "queue_inv t" using queue.run_invar [OF inv adm(2)] assms(4) by simp
  have "sk_borrowed (bq_sink t) = [] \<and> bq_pending_count t = 0 \<and>
       bq_submitted_buffers t = bq_consumed_buffers t + bq_discarded_buffers t" if "bq_shutdown_complete t"
    using inv' that by (auto simp: queue_inv_def queue_ok_def stage_ok_def borrowed_slots_def pool_inv_def)
  moreover have "bq_worker t = WkExited" if "OpJoin False 0 e \<in> set (before @ after)"
    using joined_exited [OF new_inv assms(1) that] assms(2,4) by (simp add: run_ops_append)
  ultimately show ?thesis using stopped_run [OF inv assms(3) adm(2)] assms(4)
    by (auto simp: stopped_like_def still_delivering_def)
qed

definition ops_until_shutdown :: "QueueOp list" where
  "ops_until_shutdown = [OpRegisterCallback True 7 9, OpReserve True 100 8, OpSubmit True True [], OpReserve True 200 4,
     OpSubmit True True [], OpConsume 0, OpWorker, OpShutdown]"

definition ops_after_shutdown :: "QueueOp list" where
  "ops_after_shutdown = [OpReserve True 200 4, OpCall, OpShutdownSink, OpReturn, OpWorker, OpJoin False 0 [], OpFinish]"

lemma shutdown_sample:
  "admitted queue_step queue_enabled (QueueState_new stereo 2) (ops_until_shutdown @ ops_after_shutdown)"
  "bq_shutdown_started (run_ops queue_step (QueueState_new stereo 2) ops_until_shutdown)"
  "bq_shutdown_complete (run_ops queue_step (run_ops queue_step (QueueState_new stereo 2) ops_until_shutdown) ops_after_shutdown)"
  "bq_delivered (run_ops queue_step (QueueState_new stereo 2) ops_until_shutdown) = []"
  "bq_worker (run_ops queue_step (QueueState_new stereo 2) ops_until_shutdown) = WkPopped \<lparr>cj_callback = 7, cj_context = 9\<rparr>"
  by (simp_all add: ops_until_shutdown_def ops_after_shutdown_def stereo_def queue_exec)

theorem queue_shutdown_is_clean_witness:
  "bq_shutdown_complete (run_ops queue_step (run_ops queue_step (QueueState_new stereo 2) ops_until_shutdown) ops_after_shutdown) \<and>
   bq_delivered (run_ops queue_step (run_ops queue_step (QueueState_new stereo 2) ops_until_shutdown) ops_after_shutdown) =
     [\<lparr>cj_callback = 7, cj_context = 9\<rparr>] \<and>
   bq_pending_count (run_ops queue_step (run_ops queue_step (QueueState_new stereo 2) ops_until_shutdown) ops_after_shutdown) = 0"
proof -
  have "OpJoin False 0 [] \<in> set (ops_until_shutdown @ ops_after_shutdown)" by (simp add: ops_after_shutdown_def)
  then show ?thesis
    using queue_shutdown_is_clean [OF shutdown_sample(1) refl shutdown_sample(2) refl, of "[]"] shutdown_sample(3-5)
    by (metis append.right_neutral append_Nil popped.simps(1,4))
qed

text \<open>C40: when SDL fails to clear its stream, the queue has already given all tickets back although SDL
  keeps the old buffers. The next submission reuses ticket 0, and the release of the old buffer is taken
  for the release of the new one: the new buffer is reported as consumed and its ticket freed while SDL
  still borrows it.\<close>

theorem failed_clear_releases_new_buffer:
  assumes "admitted queue_step queue_enabled (QueueState_new spec n) ops"
    and "s = run_ops queue_step (QueueState_new spec n) ops" "bq_phase s = QIdle" "\<not> bq_stopping s"
    and "k < length (sk_borrowed (bq_sink s))" "fst (sk_borrowed (bq_sink s) ! k) = 0"
    and "buffer \<noteq> 0" "0 < m" "m < 2 ^ 31"
    and "0 < BytesPerFrame (sk_source_spec (bq_sink s))" "m mod BytesPerFrame (sk_source_spec (bq_sink s)) = 0"
    and "t = run_ops queue_step s [OpClear True, OpClearSink False d, OpReserve True buffer m, OpSubmit True True e, OpConsume k]"
  shows "bq_consumed_buffers t = bq_consumed_buffers s + 1 \<and> bq_pending_count t = 0 \<and> 0 \<in> set (bq_free_tickets t) \<and>
    (0, m) \<in> set (sk_borrowed (bq_sink t))"
proof -
  have inv: "queue_inv s" using queue_reached [OF assms(1)] assms(2) by simp
  let ?bs = "sk_borrowed (bq_sink s)"
  have "0 \<in> set (borrowed_slots s)" using assms(5,6) by (force simp: borrowed_slots_def dest: nth_mem)
  then have max: "0 < bq_max_buffers s" and len: "length (bq_ticket_pool s) = bq_max_buffers s"
    using inv by (auto simp: queue_inv_def queue_ok_def pool_inv_def)
  have stage: "BeginCall (bq_sink s)" using inv assms(4) by (auto simp: queue_inv_def stage_ok_def)
  have free: "rev [0..<bq_max_buffers s] = rev [1..<bq_max_buffers s] @ [0]" using max by (simp add: upt_conv_Cons)
  have nth: "(?bs @ [(0, m)]) ! k = (0, snd (?bs ! k))" using assms(5,6) by (simp add: nth_append prod_eq_iff)
  have drop: "(0, m) \<in> set (drop (Suc k) (?bs @ [(0, m)]))" using assms(5) by simp
  show ?thesis unfolding assms(12) using assms(3,4,7-11) stage max len nth drop
    by (simp add: AbiClear_begin_def AbiClear_sink_def SinkClear_def WithStream_def SdlError_def BeginCall_def
        AbiEnqueue_reserve_def AbiEnqueue_submit_def SinkEnqueue_def OnSdlBufferReleased_def ReleaseBuffer_def detach_def
        NotifyEvent_def Let_def free)
qed

definition clear_sample :: "QueueOp list" where
  "clear_sample = [OpReserve True 100 8, OpSubmit True True []]"

theorem failed_clear_releases_new_buffer_witness:
  "(0, 4) \<in> set (sk_borrowed (bq_sink (run_ops queue_step (run_ops queue_step (QueueState_new stereo 2) clear_sample)
      [OpClear True, OpClearSink False [], OpReserve True 200 4, OpSubmit True True [], OpConsume 0])))"
proof -
  have "admitted queue_step queue_enabled (QueueState_new stereo 2) clear_sample"
    by (simp add: clear_sample_def stereo_def queue_exec)
  moreover have "bq_phase (run_ops queue_step (QueueState_new stereo 2) clear_sample) = QIdle"
      "\<not> bq_stopping (run_ops queue_step (QueueState_new stereo 2) clear_sample)"
      "0 < length (sk_borrowed (bq_sink (run_ops queue_step (QueueState_new stereo 2) clear_sample)))"
      "fst (sk_borrowed (bq_sink (run_ops queue_step (QueueState_new stereo 2) clear_sample)) ! 0) = 0"
      "sk_source_spec (bq_sink (run_ops queue_step (QueueState_new stereo 2) clear_sample)) = stereo"
    by (simp_all add: clear_sample_def stereo_def queue_exec)
  moreover have "BytesPerFrame stereo = 4" by (simp add: stereo_def BytesPerFrame_def)
  ultimately show ?thesis
    using failed_clear_releases_new_buffer [of stereo 2 clear_sample, OF _ refl _ _ _ _ _ _ _ _ _ refl, of 0 200 4 "[]" "[]"]
    by simp
qed

end
