(* ===== verification/Input_Router.thy ===== *)
theory Input_Router
  imports Text_Editor
begin

text \<open>
  The input router (\<open>src/runtime/roblox_input_router.cc\<close>, \<open>src/runtime/roblox_gamepad_input.cc\<close> and the
  coordinate transform of \<open>include/mocktail/platform/platform_runtime.h\<close>): host events become calls of
  the game's native input functions, and the router remembers what it has pressed, so that it can let go
  of it when the window loses the focus. Every native call is appended to \<open>ri_calls\<close> with its outcome;
  the outcome of the n-th call is given by the environment. SDL's constants are parameters, found by their
  names. C floats are the values of \<open>cfloat\<close> with the rounding function as a parameter.
\<close>

section \<open>Float arithmetic\<close>

record FloatEnv =
  f_round :: "rat \<Rightarrow> cfloat"
  f_sqrt :: "cfloat \<Rightarrow> cfloat"
  f_lround_special :: "cfloat \<Rightarrow> int"

fun f_neg :: "cfloat \<Rightarrow> cfloat" where
  "f_neg FNaN = FNaN"
| "f_neg FNegInf = FPosInf"
| "f_neg FPosInf = FNegInf"
| "f_neg (FNum r) = FNum (- r)"

fun f_add :: "FloatEnv \<Rightarrow> cfloat \<Rightarrow> cfloat \<Rightarrow> cfloat" where
  "f_add fe (FNum a) (FNum b) = f_round fe (a + b)"
| "f_add fe FNaN _ = FNaN"
| "f_add fe _ FNaN = FNaN"
| "f_add fe FPosInf FNegInf = FNaN"
| "f_add fe FNegInf FPosInf = FNaN"
| "f_add fe FPosInf _ = FPosInf"
| "f_add fe FNegInf _ = FNegInf"
| "f_add fe _ b = b"

definition f_sub :: "FloatEnv \<Rightarrow> cfloat \<Rightarrow> cfloat \<Rightarrow> cfloat" where
  "f_sub fe a b = f_add fe a (f_neg b)"

definition f_infinity :: "rat \<Rightarrow> cfloat" where
  "f_infinity sign = (if sign > 0 then FPosInf else if sign < 0 then FNegInf else FNaN)"

fun f_sign :: "cfloat \<Rightarrow> rat" where
  "f_sign FPosInf = 1"
| "f_sign FNegInf = - 1"
| "f_sign (FNum r) = r"
| "f_sign FNaN = 0"

fun f_mul :: "FloatEnv \<Rightarrow> cfloat \<Rightarrow> cfloat \<Rightarrow> cfloat" where
  "f_mul fe (FNum a) (FNum b) = f_round fe (a * b)"
| "f_mul fe FNaN _ = FNaN"
| "f_mul fe _ FNaN = FNaN"
| "f_mul fe a b = f_infinity (f_sign a * f_sign b)"

text \<open>Both zeros are the number 0; a quotient by it is taken as one by the positive zero.\<close>

fun f_div :: "FloatEnv \<Rightarrow> cfloat \<Rightarrow> cfloat \<Rightarrow> cfloat" where
  "f_div fe (FNum a) (FNum b) = (if b = 0 then f_infinity a else f_round fe (a / b))"
| "f_div fe FNaN _ = FNaN"
| "f_div fe _ FNaN = FNaN"
| "f_div fe (FNum a) _ = FNum 0"
| "f_div fe a (FNum b) = f_infinity (f_sign a * (if b = 0 then 1 else b))"
| "f_div fe _ _ = FNaN"

fun f_less :: "cfloat \<Rightarrow> cfloat \<Rightarrow> bool" where
  "f_less (FNum a) (FNum b) = (a < b)"
| "f_less FNegInf b = (b \<noteq> FNaN \<and> b \<noteq> FNegInf)"
| "f_less (FNum a) FPosInf = True"
| "f_less _ _ = False"

definition f_le :: "cfloat \<Rightarrow> cfloat \<Rightarrow> bool" where
  "f_le a b \<longleftrightarrow> f_less a b \<or> f_eq a b"

definition f_max :: "cfloat \<Rightarrow> cfloat \<Rightarrow> cfloat" where
  "f_max a b = (if f_less a b then b else a)"

definition f_min :: "cfloat \<Rightarrow> cfloat \<Rightarrow> cfloat" where
  "f_min a b = (if f_less b a then b else a)"

definition f_clamp :: "cfloat \<Rightarrow> cfloat \<Rightarrow> cfloat \<Rightarrow> cfloat" where
  "f_clamp v lo hi = (if f_less v lo then lo else if f_less hi v then hi else v)"

fun f_finite :: "cfloat \<Rightarrow> bool" where
  "f_finite (FNum r) = True"
| "f_finite _ = False"

definition f_of_int :: "FloatEnv \<Rightarrow> int \<Rightarrow> cfloat" where
  "f_of_int fe i = f_round fe (of_int i)"

definition to_int32 :: "int \<Rightarrow> int" where
  "to_int32 i = (i + 2 ^ 31) mod 2 ^ 32 - 2 ^ 31"

fun f_lround :: "FloatEnv \<Rightarrow> cfloat \<Rightarrow> int" where
  "f_lround fe (FNum r) = (if r \<ge> 0 then \<lfloor>r + 1 / 2\<rfloor> else - \<lfloor>1 / 2 - r\<rfloor>)"
| "f_lround fe f = f_lround_special fe f"

section \<open>Constants\<close>

datatype GamepadButton =
    GpSouth | GpEast | GpWest | GpNorth | GpDpadUp | GpDpadDown | GpDpadLeft | GpDpadRight
  | GpRightShoulder | GpLeftShoulder | GpLeftStick | GpRightStick | GpBack | GpStart

record SdlConstants =
  sdl_scancode :: "string \<Rightarrow> u32"
  sdl_button :: "string \<Rightarrow> nat"
  sdl_gamepad_button :: "GamepadButton \<Rightarrow> nat"

definition kAndroidTouchDown :: int where "kAndroidTouchDown = 0"
definition kAndroidTouchMove :: int where "kAndroidTouchMove = 1"
definition kAndroidTouchUp :: int where "kAndroidTouchUp = 2"
definition kMaximumAndroidPointers :: int where "kMaximumAndroidPointers = 32"

definition kAndroidAxes :: "int list" where "kAndroidAxes = [0, 1, 11, 14, 17, 18]"

definition kButtons :: "GamepadButton list" where
  "kButtons =
     [GpSouth, GpEast, GpWest, GpNorth, GpDpadUp, GpDpadDown, GpDpadLeft, GpDpadRight,
      GpRightShoulder, GpLeftShoulder, GpLeftStick, GpRightStick, GpBack, GpStart]"

section \<open>Events and calls\<close>

record RobloxInputViewport =
  vp_logical_width :: int
  vp_logical_height :: int
  vp_pixel_width :: int
  vp_pixel_height :: int
  vp_density_scale :: cfloat

record AndroidKeyMapping =
  km_scan_code :: int
  km_key_code :: int

record HostKey =
  hk_pressed :: bool
  hk_repeat :: bool
  hk_scancode :: u32
  hk_keycode :: u32
  hk_modifiers :: u32

record MouseMotion =
  mm_x :: cfloat
  mm_y :: cfloat
  mm_delta_x :: cfloat
  mm_delta_y :: cfloat
  mm_relative_mode :: bool

record MouseButton =
  mb_pressed :: bool
  mb_button :: nat
  mb_x :: cfloat
  mb_y :: cfloat
  mb_relative_mode :: bool

record MouseWheel =
  mw_delta_y :: cfloat
  mw_mouse_x :: cfloat
  mw_mouse_y :: cfloat
  mw_relative_mode :: bool

datatype TouchAction = TouchDown | TouchMove | TouchUp | TouchCancelled

record Touch =
  tv_action :: TouchAction
  tv_touch_id :: int
  tv_finger_id :: int
  tv_x :: cfloat
  tv_y :: cfloat

datatype GamepadFamily = kUnknownPad | kXbox | kPlayStation4 | kPlayStation5

record GamepadDescriptor =
  gd_family :: GamepadFamily
  gd_name :: bytes
  gd_buttons :: u32
  gd_axes :: u32

record GamepadConnection =
  gc_instance_id :: int
  gc_connected :: bool
  gc_descriptor :: GamepadDescriptor
  gc_remapped :: bool

datatype PlatformEvent =
    QuitEvent
  | WindowResizedEvent RobloxInputViewport
  | WindowFocusEvent bool
  | HostKeyEvent HostKey
  | TextInputEvent bytes
  | TextEditingEvent bytes int
  | MouseMotionEvent MouseMotion
  | MouseButtonEvent MouseButton
  | MouseWheelEvent MouseWheel
  | TouchEvent Touch
  | GamepadConnectionEvent GamepadConnection
  | GamepadAxisEvent int nat int
  | GamepadButtonEvent int nat bool

datatype InputCall =
    CMouseMove cfloat cfloat cfloat cfloat
  | CMouseButton cfloat cfloat bool int
  | CMouseWheel cfloat cfloat cfloat
  | CTouch int cfloat cfloat int int int
  | CKey bool int int bool
  | CSupportedKey int int bool int
  | CSupportedMotion int int int bool int
  | CConnect int int
  | CDisconnect int
  | CButton int int bool
  | CAxis int int cfloat cfloat cfloat

record RobloxInputSink =
  is_mouse_move :: bool
  is_mouse_button :: bool
  is_mouse_wheel :: bool
  is_touch :: bool
  is_key :: bool
  is_gamepad :: bool

datatype RobloxInputEventKind =
    KNone | KMouseMotion | KMouseButton | KMouseWheel | KTouch | KKeyboard | KText | KFocus | KViewport
  | KGamepadConnection | KGamepadButton | KGamepadAxis

datatype RobloxInputDispatchState =
    DsDispatched | DsStateUpdated | DsIgnoredInactive | DsIgnoredUnfocused | DsIgnoredUnsupported
  | DsRejectedInvalid | DsNativeError

record RobloxInputDispatchResult =
  dr_state :: RobloxInputDispatchState
  dr_kind :: RobloxInputEventKind
  dr_status :: Status

record RobloxInputSnapshot =
  sn_active :: bool
  sn_focused :: bool
  sn_viewport :: RobloxInputViewport
  sn_mouse_events :: u64
  sn_touch_events :: u64
  sn_keyboard_events :: u64
  sn_ignored_text_events :: u64
  sn_text_events :: u64
  sn_text_focus_generation :: u64
  sn_native_errors :: u64
  sn_active_mouse_buttons :: u32
  sn_active_touches :: u32
  sn_active_keys :: u32
  sn_gamepad_events :: u64
  sn_detected_gamepads :: u32
  sn_connected_gamepads :: u32

record ActiveTouch =
  at_touch_id :: int
  at_finger_id :: int
  at_pointer_id :: int
  at_x :: cfloat
  at_y :: cfloat

record ActiveKey =
  ak_sdl_scancode :: u32
  ak_android :: AndroidKeyMapping

record ActiveGamepad =
  gp_instance_id :: int
  gp_device_id :: int
  gp_descriptor :: GamepadDescriptor
  gp_connected :: bool
  gp_pressed_buttons :: u32
  gp_raw_axes :: "int list"
  gp_sent_axes :: "cfloat list"

record RobloxInputRouter =
  ri_sink :: RobloxInputSink
  ri_text_editor :: RobloxTextEditor
  ri_snapshot :: RobloxInputSnapshot
  ri_mouse_buttons :: "int list"
  ri_touches :: "ActiveTouch list"
  ri_keys :: "ActiveKey list"
  ri_gamepads :: "ActiveGamepad list"
  ri_mouse_x :: cfloat
  ri_mouse_y :: cfloat
  ri_calls :: "(InputCall \<times> Status) list"

record InputEnv =
  ie_lib :: TextLib
  ie_native :: "nat \<Rightarrow> Status"
  ie_float :: FloatEnv
  ie_sdl :: SdlConstants

definition RobloxInputViewport_default :: RobloxInputViewport where
  "RobloxInputViewport_default =
     \<lparr>vp_logical_width = 0, vp_logical_height = 0, vp_pixel_width = 0, vp_pixel_height = 0, vp_density_scale = FNum 1\<rparr>"

definition RobloxInputSnapshot_default :: RobloxInputSnapshot where
  "RobloxInputSnapshot_default =
     \<lparr>sn_active = False, sn_focused = False, sn_viewport = RobloxInputViewport_default, sn_mouse_events = 0,
      sn_touch_events = 0, sn_keyboard_events = 0, sn_ignored_text_events = 0, sn_text_events = 0,
      sn_text_focus_generation = 0, sn_native_errors = 0, sn_active_mouse_buttons = 0, sn_active_touches = 0,
      sn_active_keys = 0, sn_gamepad_events = 0, sn_detected_gamepads = 0, sn_connected_gamepads = 0\<rparr>"

definition RobloxInputRouter_new :: "RobloxInputSink \<Rightarrow> RobloxTextEditor \<Rightarrow> RobloxInputRouter" where
  "RobloxInputRouter_new sink editor =
     \<lparr>ri_sink = sink, ri_text_editor = editor, ri_snapshot = RobloxInputSnapshot_default, ri_mouse_buttons = [],
      ri_touches = [], ri_keys = [], ri_gamepads = [], ri_mouse_x = FNum 0, ri_mouse_y = FNum 0, ri_calls = []\<rparr>"

section \<open>Coordinates and mappings\<close>

definition viewport_valid :: "RobloxInputViewport \<Rightarrow> bool" where
  "viewport_valid v \<longleftrightarrow>
     vp_logical_width v > 0 \<and> vp_logical_height v > 0 \<and> vp_pixel_width v > 0 \<and> vp_pixel_height v > 0 \<and>
     f_finite (vp_density_scale v) \<and> f_less (FNum 0) (vp_density_scale v)"

definition guest_width :: "FloatEnv \<Rightarrow> RobloxInputViewport \<Rightarrow> cfloat" where
  "guest_width fe v = (if viewport_valid v then f_div fe (f_of_int fe (vp_pixel_width v)) (vp_density_scale v) else FNum 0)"

definition guest_height :: "FloatEnv \<Rightarrow> RobloxInputViewport \<Rightarrow> cfloat" where
  "guest_height fe v = (if viewport_valid v then f_div fe (f_of_int fe (vp_pixel_height v)) (vp_density_scale v) else FNum 0)"

definition rounded_guest_width :: "FloatEnv \<Rightarrow> RobloxInputViewport \<Rightarrow> int" where
  "rounded_guest_width fe v = (if viewport_valid v then to_int32 (f_lround fe (guest_width fe v)) else 0)"

definition rounded_guest_height :: "FloatEnv \<Rightarrow> RobloxInputViewport \<Rightarrow> int" where
  "rounded_guest_height fe v = (if viewport_valid v then to_int32 (f_lround fe (guest_height fe v)) else 0)"

definition HostLogicalToGuestX :: "FloatEnv \<Rightarrow> RobloxInputViewport \<Rightarrow> cfloat \<Rightarrow> cfloat" where
  "HostLogicalToGuestX fe v c =
     (if viewport_valid v
      then f_div fe (f_div fe (f_mul fe c (f_of_int fe (vp_pixel_width v))) (f_of_int fe (vp_logical_width v))) (vp_density_scale v)
      else c)"

definition HostLogicalToGuestY :: "FloatEnv \<Rightarrow> RobloxInputViewport \<Rightarrow> cfloat \<Rightarrow> cfloat" where
  "HostLogicalToGuestY fe v c =
     (if viewport_valid v
      then f_div fe (f_div fe (f_mul fe c (f_of_int fe (vp_pixel_height v))) (f_of_int fe (vp_logical_height v))) (vp_density_scale v)
      else c)"

definition key_table :: "(string \<times> int \<times> int) list" where
  "key_table =
     [(''A'', 30, 29), (''B'', 48, 30), (''C'', 46, 31), (''D'', 32, 32), (''E'', 18, 33), (''F'', 33, 34),
      (''G'', 34, 35), (''H'', 35, 36), (''I'', 23, 37), (''J'', 36, 38), (''K'', 37, 39), (''L'', 38, 40),
      (''M'', 50, 41), (''N'', 49, 42), (''O'', 24, 43), (''P'', 25, 44), (''Q'', 16, 45), (''R'', 19, 46),
      (''S'', 31, 47), (''T'', 20, 48), (''U'', 22, 49), (''V'', 47, 50), (''W'', 17, 51), (''X'', 45, 52),
      (''Y'', 21, 53), (''Z'', 44, 54), (''1'', 2, 8), (''2'', 3, 9), (''3'', 4, 10), (''4'', 5, 11),
      (''5'', 6, 12), (''6'', 7, 13), (''7'', 8, 14), (''8'', 9, 15), (''9'', 10, 16), (''0'', 11, 7),
      (''RETURN'', 28, 66), (''ESCAPE'', 1, 111), (''BACKSPACE'', 14, 67), (''TAB'', 15, 61),
      (''SPACE'', 57, 62), (''MINUS'', 12, 69), (''EQUALS'', 13, 70), (''LEFTBRACKET'', 26, 71),
      (''RIGHTBRACKET'', 27, 72), (''BACKSLASH'', 43, 73), (''SEMICOLON'', 39, 74),
      (''APOSTROPHE'', 40, 75), (''GRAVE'', 41, 68), (''COMMA'', 51, 55), (''PERIOD'', 52, 56),
      (''SLASH'', 53, 76), (''CAPSLOCK'', 58, 115), (''F1'', 59, 131), (''F2'', 60, 132), (''F3'', 61, 133),
      (''F4'', 62, 134), (''F5'', 63, 135), (''F6'', 64, 136), (''F7'', 65, 137), (''F8'', 66, 138),
      (''F9'', 67, 139), (''F10'', 68, 140), (''F11'', 87, 141), (''F12'', 88, 142),
      (''PRINTSCREEN'', 99, 120), (''SCROLLLOCK'', 70, 116), (''PAUSE'', 119, 121), (''INSERT'', 110, 124),
      (''HOME'', 102, 122), (''PAGEUP'', 104, 92), (''DELETE'', 111, 112), (''END'', 107, 123),
      (''PAGEDOWN'', 109, 93), (''RIGHT'', 106, 22), (''LEFT'', 105, 21), (''DOWN'', 108, 20),
      (''UP'', 103, 19), (''NUMLOCKCLEAR'', 69, 143), (''KP_DIVIDE'', 98, 154), (''KP_MULTIPLY'', 55, 155),
      (''KP_MINUS'', 74, 156), (''KP_PLUS'', 78, 157), (''KP_ENTER'', 96, 160), (''KP_1'', 79, 145),
      (''KP_2'', 80, 146), (''KP_3'', 81, 147), (''KP_4'', 75, 148), (''KP_5'', 76, 149),
      (''KP_6'', 77, 150), (''KP_7'', 71, 151), (''KP_8'', 72, 152), (''KP_9'', 73, 153),
      (''KP_0'', 82, 144), (''KP_PERIOD'', 83, 158), (''LCTRL'', 29, 113), (''LSHIFT'', 42, 59),
      (''LALT'', 56, 57), (''LGUI'', 125, 117), (''RCTRL'', 97, 114), (''RSHIFT'', 54, 60),
      (''RALT'', 100, 58), (''RGUI'', 126, 118), (''APPLICATION'', 127, 82)]"

definition MapSdlKeyToAndroid :: "SdlConstants \<Rightarrow> u32 \<Rightarrow> u32 \<Rightarrow> AndroidKeyMapping" where
  "MapSdlKeyToAndroid sdl scancode key =
     (case find (\<lambda>(name, _). sdl_scancode sdl name = scancode) key_table of
        Some (_, scan, keycode) \<Rightarrow> \<lparr>km_scan_code = scan, km_key_code = keycode\<rparr>
      | None \<Rightarrow>
         let fallback_keycode =
               (if key \<ge> 48 \<and> key \<le> 57 then 7 + (sint key - 48)
                else if key \<ge> 97 \<and> key \<le> 122 then 29 + (sint key - 97)
                else if key \<ge> 65 \<and> key \<le> 90 then 29 + (sint key - 65)
                else 0)
         in if fallback_keycode > 0
            then \<lparr>km_scan_code = (if scancode > 0 then sint scancode else fallback_keycode),
                  km_key_code = fallback_keycode\<rparr>
            else if scancode > 0 then \<lparr>km_scan_code = sint scancode, km_key_code = sint scancode\<rparr>
            else \<lparr>km_scan_code = 0, km_key_code = 0\<rparr>)"

definition mapping_valid :: "AndroidKeyMapping \<Rightarrow> bool" where
  "mapping_valid m \<longleftrightarrow> km_scan_code m > 0 \<and> km_key_code m > 0"

definition MapSdlMouseButtonToRoblox :: "SdlConstants \<Rightarrow> nat \<Rightarrow> int" where
  "MapSdlMouseButtonToRoblox sdl button =
     (if button = sdl_button sdl ''LEFT'' then 0
      else if button = sdl_button sdl ''RIGHT'' then 1
      else if button = sdl_button sdl ''MIDDLE'' then 2
      else if button = sdl_button sdl ''X1'' then 7
      else if button = sdl_button sdl ''X2'' then 15
      else - 1)"

fun android_button :: "GamepadButton \<Rightarrow> int" where
  "android_button GpSouth = 96" | "android_button GpEast = 97" | "android_button GpWest = 99"
| "android_button GpNorth = 100" | "android_button GpDpadUp = 19" | "android_button GpDpadDown = 20"
| "android_button GpDpadLeft = 21" | "android_button GpDpadRight = 22" | "android_button GpLeftShoulder = 102"
| "android_button GpRightShoulder = 103" | "android_button GpLeftStick = 106" | "android_button GpRightStick = 107"
| "android_button GpStart = 108" | "android_button GpBack = 109"

definition MapSdlGamepadButtonToAndroid :: "SdlConstants \<Rightarrow> nat \<Rightarrow> int" where
  "MapSdlGamepadButtonToAndroid sdl button =
     (case find (\<lambda>g. sdl_gamepad_button sdl g = button) kButtons of Some g \<Rightarrow> android_button g | None \<Rightarrow> - 1)"

fun RobloxGamepadType :: "GamepadFamily \<Rightarrow> int" where
  "RobloxGamepadType kPlayStation4 = 1"
| "RobloxGamepadType kPlayStation5 = 2"
| "RobloxGamepadType kXbox = 3"
| "RobloxGamepadType kUnknownPad = 0"

text \<open>The text editor's view of a key event.\<close>

definition text_scancode :: "SdlConstants \<Rightarrow> u32 \<Rightarrow> SDL_Scancode" where
  "text_scancode sdl v =
     (if v = sdl_scancode sdl ''A'' then SCANCODE_A
      else if v = sdl_scancode sdl ''C'' then SCANCODE_C
      else if v = sdl_scancode sdl ''V'' then SCANCODE_V
      else if v = sdl_scancode sdl ''X'' then SCANCODE_X
      else if v = sdl_scancode sdl ''BACKSPACE'' then SCANCODE_BACKSPACE
      else if v = sdl_scancode sdl ''DELETE'' then SCANCODE_DELETE
      else if v = sdl_scancode sdl ''LEFT'' then SCANCODE_LEFT
      else if v = sdl_scancode sdl ''RIGHT'' then SCANCODE_RIGHT
      else if v = sdl_scancode sdl ''HOME'' then SCANCODE_HOME
      else if v = sdl_scancode sdl ''END'' then SCANCODE_END
      else if v = sdl_scancode sdl ''RETURN'' then SCANCODE_RETURN
      else if v = sdl_scancode sdl ''KP_ENTER'' then SCANCODE_KP_ENTER
      else if v = sdl_scancode sdl ''ESCAPE'' then SCANCODE_ESCAPE
      else SCANCODE_OTHER v)"

definition text_key :: "SdlConstants \<Rightarrow> HostKey \<Rightarrow> KeyEvent" where
  "text_key sdl ev =
     \<lparr>ke_pressed = hk_pressed ev, ke_scancode = text_scancode sdl (hk_scancode ev), ke_modifiers = hk_modifiers ev\<rparr>"

section \<open>Elementary steps\<close>

definition sink_call :: "InputEnv \<Rightarrow> InputCall \<Rightarrow> RobloxInputRouter \<Rightarrow> Status \<times> RobloxInputRouter" where
  "sink_call env c s =
     (let status = ie_native env (length (ri_calls s)) in (status, s\<lparr>ri_calls := ri_calls s @ [(c, status)]\<rparr>))"

abbreviation upd_snapshot :: "(RobloxInputSnapshot \<Rightarrow> RobloxInputSnapshot) \<Rightarrow> RobloxInputRouter \<Rightarrow> RobloxInputRouter" where
  "upd_snapshot f s \<equiv> s\<lparr>ri_snapshot := f (ri_snapshot s)\<rparr>"

definition KeepFirstError :: "Status \<Rightarrow> Status \<Rightarrow> Status" where
  "KeepFirstError status first_error = (if status_ok first_error then status else first_error)"

definition DispatchResult :: "RobloxInputDispatchState \<Rightarrow> RobloxInputEventKind \<Rightarrow> Status \<Rightarrow> RobloxInputDispatchResult" where
  "DispatchResult state kind status = \<lparr>dr_state = state, dr_kind = kind, dr_status = status\<rparr>"

definition Ignored :: "RobloxInputEventKind \<Rightarrow> string \<Rightarrow> RobloxInputDispatchResult" where
  "Ignored kind msg = DispatchResult DsIgnoredUnsupported kind (Status_Error kUnsupported msg)"

definition Rejected :: "RobloxInputEventKind \<Rightarrow> string \<Rightarrow> RobloxInputDispatchResult" where
  "Rejected kind msg = DispatchResult DsRejectedInvalid kind (Status_Error kInvalidArgument msg)"

fun count_event :: "RobloxInputEventKind \<Rightarrow> RobloxInputSnapshot \<Rightarrow> RobloxInputSnapshot" where
  "count_event KMouseMotion sn = sn\<lparr>sn_mouse_events := sn_mouse_events sn + 1\<rparr>"
| "count_event KMouseButton sn = sn\<lparr>sn_mouse_events := sn_mouse_events sn + 1\<rparr>"
| "count_event KMouseWheel sn = sn\<lparr>sn_mouse_events := sn_mouse_events sn + 1\<rparr>"
| "count_event KTouch sn = sn\<lparr>sn_touch_events := sn_touch_events sn + 1\<rparr>"
| "count_event KKeyboard sn = sn\<lparr>sn_keyboard_events := sn_keyboard_events sn + 1\<rparr>"
| "count_event KGamepadButton sn = sn\<lparr>sn_gamepad_events := sn_gamepad_events sn + 1\<rparr>"
| "count_event KGamepadAxis sn = sn\<lparr>sn_gamepad_events := sn_gamepad_events sn + 1\<rparr>"
| "count_event _ sn = sn"

definition NativeResultLocked ::
  "Status \<Rightarrow> RobloxInputEventKind \<Rightarrow> RobloxInputRouter \<Rightarrow> RobloxInputDispatchResult \<times> RobloxInputRouter" where
  "NativeResultLocked status kind s =
     (if \<not> status_ok status
      then (DispatchResult DsNativeError kind status,
            upd_snapshot (\<lambda>sn. sn\<lparr>sn_native_errors := sn_native_errors sn + 1\<rparr>) s)
      else (DispatchResult DsDispatched kind Status_Ok, upd_snapshot (count_event kind) s))"

text \<open>Erasing, finding and changing the first element of a vector that satisfies a predicate.\<close>

fun erase_first :: "('a \<Rightarrow> bool) \<Rightarrow> 'a list \<Rightarrow> 'a list" where
  "erase_first P [] = []"
| "erase_first P (x # xs) = (if P x then xs else x # erase_first P xs)"

fun update_first :: "('a \<Rightarrow> bool) \<Rightarrow> ('a \<Rightarrow> 'a) \<Rightarrow> 'a list \<Rightarrow> 'a list" where
  "update_first P f [] = []"
| "update_first P f (x # xs) = (if P x then f x # xs else x # update_first P f xs)"

section \<open>Gamepads\<close>

definition Has :: "u32 \<Rightarrow> nat \<Rightarrow> bool" where
  "Has bits index \<longleftrightarrow> index < 32 \<and> bits AND push_bit index 1 \<noteq> 0"

definition SignedAxis :: "FloatEnv \<Rightarrow> int \<Rightarrow> cfloat" where
  "SignedAxis fe v = f_div fe (f_of_int fe v) (if v < 0 then FNum 32768 else FNum 32767)"

definition Stick :: "FloatEnv \<Rightarrow> int \<Rightarrow> int \<Rightarrow> cfloat \<times> cfloat" where
  "Stick fe raw_x raw_y =
     (let deadzone = f_round fe (1 / 5);
          x = SignedAxis fe raw_x;
          y = f_neg (SignedAxis fe raw_y);
          len = f_sqrt fe (f_add fe (f_mul fe x x) (f_mul fe y y))
      in if f_le len deadzone then (FNum 0, FNum 0)
         else let scale = f_div fe (f_sub fe (f_min len (FNum 1)) deadzone) (f_mul fe (f_sub fe (FNum 1) deadzone) len)
              in (f_mul fe x scale, f_mul fe y scale))"

definition Trigger :: "FloatEnv \<Rightarrow> int \<Rightarrow> cfloat" where
  "Trigger fe raw =
     (let deadzone = f_round fe (1 / 50);
          v = f_max (FNum 0) (f_div fe (f_of_int fe raw) (FNum 32767))
      in if f_le v deadzone then FNum 0
         else f_div fe (f_sub fe v deadzone) (f_sub fe (FNum 1) deadzone))"

fun call_all :: "InputEnv \<Rightarrow> InputCall list \<Rightarrow> Status \<Rightarrow> RobloxInputRouter \<Rightarrow> Status \<times> RobloxInputRouter" where
  "call_all env [] first_error s = (first_error, s)"
| "call_all env (c # cs) first_error s =
     (case sink_call env c s of (status, s) \<Rightarrow> call_all env cs (KeepFirstError status first_error) s)"

definition ConfigureGamepadLocked ::
  "InputEnv \<Rightarrow> ActiveGamepad \<Rightarrow> bool \<Rightarrow> RobloxInputRouter \<Rightarrow> Status \<times> RobloxInputRouter" where
  "ConfigureGamepadLocked env g available s =
     (let type = (if available then RobloxGamepadType (gd_family (gp_descriptor g)) else 0);
          dev = gp_device_id g;
          keys = map (\<lambda>b. let v = sdl_gamepad_button (ie_sdl env) b in
                    CSupportedKey dev (MapSdlGamepadButtonToAndroid (ie_sdl env) v)
                      (available \<and> Has (gd_buttons (gp_descriptor g)) v) type) kButtons;
          axes = map (\<lambda>axis. CSupportedMotion dev (kAndroidAxes ! axis) (- 1)
                    (available \<and> Has (gd_axes (gp_descriptor g)) axis) type) [0..<length kAndroidAxes];
          others = concat (map (\<lambda>axis. CSupportedMotion dev axis (- 1) False type #
                    (if axis = 15 \<or> axis = 16 then [CSupportedMotion dev axis 1 False type] else [])) [22, 23, 15, 16])
      in call_all env (keys @ axes @ others) Status_Ok s)"

definition ConnectGamepadLocked ::
  "InputEnv \<Rightarrow> ActiveGamepad \<Rightarrow> RobloxInputRouter \<Rightarrow> Status \<times> ActiveGamepad \<times> RobloxInputRouter" where
  "ConnectGamepadLocked env g s =
     (if gp_connected g then (Status_Ok, g, s)
      else
       case ConfigureGamepadLocked env g True s of (status, s) \<Rightarrow>
       case (if status_ok status
             then sink_call env (CConnect (gp_device_id g) (RobloxGamepadType (gd_family (gp_descriptor g)))) s
             else (status, s)) of (status, s) \<Rightarrow>
       if \<not> status_ok status
       then (status, g, snd (sink_call env (CDisconnect (gp_device_id g)) (snd (ConfigureGamepadLocked env g False s))))
       else (Status_Ok, g\<lparr>gp_connected := True\<rparr>,
             upd_snapshot (\<lambda>sn. sn\<lparr>sn_connected_gamepads := sn_connected_gamepads sn + 1\<rparr>) s))"

fun dispatch_axes ::
  "InputEnv \<Rightarrow> ActiveGamepad \<Rightarrow> cfloat \<Rightarrow> cfloat \<Rightarrow> cfloat \<Rightarrow> nat list \<Rightarrow> bool \<Rightarrow> RobloxInputRouter \<Rightarrow>
   Status \<times> bool \<times> RobloxInputRouter" where
  "dispatch_axes env g vx vy vz [] dispatched s = (Status_Ok, dispatched, s)"
| "dispatch_axes env g vx vy vz (index # rest) dispatched s =
     (if \<not> Has (gd_axes (gp_descriptor g)) index then dispatch_axes env g vx vy vz rest dispatched s
      else case sink_call env (CAxis (gp_device_id g) (kAndroidAxes ! index) vx vy vz) s of (status, s) \<Rightarrow>
        if \<not> status_ok status then (status, dispatched, s) else dispatch_axes env g vx vy vz rest True s)"

definition DispatchGamepadAxesLocked ::
  "InputEnv \<Rightarrow> nat \<Rightarrow> ActiveGamepad \<Rightarrow> RobloxInputRouter \<Rightarrow> Status \<times> bool \<times> ActiveGamepad \<times> RobloxInputRouter" where
  "DispatchGamepadAxesLocked env axis g s =
     (let fe = ie_float env;
          first = (if axis < 4 then axis - axis mod 2 else axis);
          two = axis < 4;
          v = (if two then Stick fe (gp_raw_axes g ! first) (gp_raw_axes g ! (first + 1))
               else (Trigger fe (gp_raw_axes g ! axis), FNum 0))
      in if f_eq (gp_sent_axes g ! first) (fst v) \<and> (\<not> two \<or> f_eq (gp_sent_axes g ! (first + 1)) (snd v))
         then (Status_Ok, False, g, s)
         else case ConnectGamepadLocked env g s of (status, g, s) \<Rightarrow>
           if \<not> status_ok status then (status, False, g, s)
           else case dispatch_axes env g (if two then fst v else FNum 0) (if two then snd v else FNum 0)
                       (if two then FNum 0 else fst v) (if two then [first, first + 1] else [first]) False s of
             (status, dispatched, s) \<Rightarrow>
               if \<not> status_ok status then (status, dispatched, g, s)
               else (Status_Ok, dispatched,
                     g\<lparr>gp_sent_axes := (if two then (gp_sent_axes g)[first := fst v, first + 1 := snd v]
                                        else (gp_sent_axes g)[first := fst v])\<rparr>, s))"

fun release_buttons ::
  "InputEnv \<Rightarrow> ActiveGamepad \<Rightarrow> GamepadButton list \<Rightarrow> Status \<Rightarrow> RobloxInputRouter \<Rightarrow> Status \<times> RobloxInputRouter" where
  "release_buttons env g [] first_error s = (first_error, s)"
| "release_buttons env g (b # bs) first_error s =
     (let v = sdl_gamepad_button (ie_sdl env) b
      in if Has (gp_pressed_buttons g) v
         then case sink_call env (CButton (gp_device_id g) (MapSdlGamepadButtonToAndroid (ie_sdl env) v) False) s of
                (status, s) \<Rightarrow>
                  let s = (if status_ok status
                           then upd_snapshot (\<lambda>sn. sn\<lparr>sn_gamepad_events := sn_gamepad_events sn + 1\<rparr>) s else s)
                  in release_buttons env g bs (KeepFirstError status first_error) s
         else release_buttons env g bs first_error s)"

fun release_axes ::
  "InputEnv \<Rightarrow> nat list \<Rightarrow> Status \<Rightarrow> ActiveGamepad \<Rightarrow> RobloxInputRouter \<Rightarrow> Status \<times> ActiveGamepad \<times> RobloxInputRouter" where
  "release_axes env [] first_error g s = (first_error, g, s)"
| "release_axes env (axis # rest) first_error g s =
     (case DispatchGamepadAxesLocked env axis g s of (status, dispatched, g, s) \<Rightarrow>
        let s = (if status_ok status \<and> dispatched
                 then upd_snapshot (\<lambda>sn. sn\<lparr>sn_gamepad_events := sn_gamepad_events sn + 1\<rparr>) s else s)
        in release_axes env rest (KeepFirstError status first_error) g s)"

definition ReleaseGamepadInputsLocked ::
  "InputEnv \<Rightarrow> ActiveGamepad \<Rightarrow> RobloxInputRouter \<Rightarrow> Status \<times> ActiveGamepad \<times> RobloxInputRouter" where
  "ReleaseGamepadInputsLocked env g s =
     (case (if gp_connected g
            then case release_buttons env g kButtons Status_Ok s of (first_error, s) \<Rightarrow>
                   release_axes env [0, 2, 4, 5] first_error (g\<lparr>gp_raw_axes := replicate 6 0\<rparr>) s
            else (Status_Ok, g, s)) of (first_error, g, s) \<Rightarrow>
        (first_error,
         g\<lparr>gp_pressed_buttons := 0, gp_raw_axes := replicate 6 0, gp_sent_axes := replicate 6 (FNum 0)\<rparr>, s))"

definition DisconnectGamepadLocked ::
  "InputEnv \<Rightarrow> ActiveGamepad \<Rightarrow> RobloxInputRouter \<Rightarrow> Status \<times> ActiveGamepad \<times> RobloxInputRouter" where
  "DisconnectGamepadLocked env g s =
     (case ReleaseGamepadInputsLocked env g s of (first_error, g, s) \<Rightarrow>
        if gp_connected g
        then case ConfigureGamepadLocked env g False s of (status, s) \<Rightarrow>
             let first_error = KeepFirstError status first_error
             in case sink_call env (CDisconnect (gp_device_id g)) s of (status, s) \<Rightarrow>
                (KeepFirstError status first_error, g\<lparr>gp_connected := False\<rparr>,
                 upd_snapshot (\<lambda>sn. sn\<lparr>sn_connected_gamepads := sn_connected_gamepads sn - 1\<rparr>) s)
        else (first_error, g, s))"

fun disconnect_all :: "InputEnv \<Rightarrow> ActiveGamepad list \<Rightarrow> Status \<Rightarrow> RobloxInputRouter \<Rightarrow> Status \<times> RobloxInputRouter" where
  "disconnect_all env [] first_error s = (first_error, s)"
| "disconnect_all env (g # gs) first_error s =
     (case DisconnectGamepadLocked env g s of (status, _, s) \<Rightarrow>
        disconnect_all env gs (KeepFirstError status first_error) s)"

definition DisconnectGamepadsLocked :: "InputEnv \<Rightarrow> RobloxInputRouter \<Rightarrow> Status \<times> RobloxInputRouter" where
  "DisconnectGamepadsLocked env s =
     (case disconnect_all env (ri_gamepads s) Status_Ok s of (first_error, s) \<Rightarrow>
        (first_error, upd_snapshot (\<lambda>sn. sn\<lparr>sn_detected_gamepads := 0\<rparr>) (s\<lparr>ri_gamepads := []\<rparr>)))"

definition FindGamepadLocked :: "int \<Rightarrow> RobloxInputRouter \<Rightarrow> ActiveGamepad option" where
  "FindGamepadLocked instance_id s = find (\<lambda>g. gp_instance_id g = instance_id) (ri_gamepads s)"

definition store_gamepad :: "ActiveGamepad \<Rightarrow> RobloxInputRouter \<Rightarrow> RobloxInputRouter" where
  "store_gamepad g s =
     s\<lparr>ri_gamepads := update_first (\<lambda>h. gp_instance_id h = gp_instance_id g) (\<lambda>_. g) (ri_gamepads s)\<rparr>"

function device_id_from :: "int list \<Rightarrow> int \<Rightarrow> int option" where
  "device_id_from used device_id =
     (if device_id \<in> set used
      then if device_id \<ge> 2 ^ 31 - 1 then None else device_id_from used (device_id + 1)
      else Some device_id)"
  by pat_completeness auto
termination
  by (relation "measure (\<lambda>(_, device_id). nat (2 ^ 31 - device_id))") auto

declare device_id_from.simps [simp del]

definition detach_gamepad ::
  "InputEnv \<Rightarrow> ActiveGamepad \<Rightarrow> RobloxInputRouter \<Rightarrow> Status \<times> RobloxInputRouter" where
  "detach_gamepad env g s =
     (case DisconnectGamepadLocked env g s of (status, _, s) \<Rightarrow>
        let gs = erase_first (\<lambda>h. gp_instance_id h = gp_instance_id g) (ri_gamepads s)
        in (status, upd_snapshot (\<lambda>sn. sn\<lparr>sn_detected_gamepads := of_nat (length gs)\<rparr>) (s\<lparr>ri_gamepads := gs\<rparr>)))"

definition ActiveGamepad_new :: "GamepadConnection \<Rightarrow> int \<Rightarrow> ActiveGamepad" where
  "ActiveGamepad_new event device_id =
     \<lparr>gp_instance_id = gc_instance_id event, gp_device_id = device_id, gp_descriptor = gc_descriptor event,
      gp_connected = False, gp_pressed_buttons = 0, gp_raw_axes = replicate 6 0, gp_sent_axes = replicate 6 (FNum 0)\<rparr>"

definition push_gamepad :: "ActiveGamepad \<Rightarrow> RobloxInputRouter \<Rightarrow> RobloxInputRouter" where
  "push_gamepad g s =
     (let gs = ri_gamepads s @ [g]
      in upd_snapshot (\<lambda>sn. sn\<lparr>sn_detected_gamepads := of_nat (length gs)\<rparr>) (s\<lparr>ri_gamepads := gs\<rparr>))"

definition connection_result :: "Status \<Rightarrow> RobloxInputRouter \<Rightarrow> RobloxInputDispatchResult \<times> RobloxInputRouter" where
  "connection_result status s =
     (if status_ok status then (DispatchResult DsStateUpdated KGamepadConnection Status_Ok, s)
      else NativeResultLocked status KGamepadConnection s)"

definition HandleGamepadConnectionLocked ::
  "InputEnv \<Rightarrow> GamepadConnection \<Rightarrow> RobloxInputRouter \<Rightarrow> RobloxInputDispatchResult \<times> RobloxInputRouter" where
  "HandleGamepadConnectionLocked env event s =
     (if \<not> is_gamepad (ri_sink s) then (Ignored KGamepadConnection ''Roblox gamepad export table is incomplete'', s)
      else if gc_instance_id event \<le> 0 then (Rejected KGamepadConnection ''invalid gamepad ID'', s)
      else
       let found = FindGamepadLocked (gc_instance_id event) s
       in if found \<noteq> None \<and> gc_connected event \<and> \<not> gc_remapped event
          then (DispatchResult DsStateUpdated KGamepadConnection Status_Ok, s)
          else
           case (case found of None \<Rightarrow> (Status_Ok, s) | Some g \<Rightarrow> detach_gamepad env g s) of (status, s) \<Rightarrow>
             if gc_connected event
             then case device_id_from (map gp_device_id (ri_gamepads s)) 1 of
                    None \<Rightarrow> (DispatchResult DsRejectedInvalid KGamepadConnection
                              (Status_Error kUnavailable ''Roblox gamepad device IDs exhausted''), s)
                  | Some device_id \<Rightarrow> connection_result status (push_gamepad (ActiveGamepad_new event device_id) s)
             else connection_result status s)"

definition HandleGamepadButtonLocked ::
  "InputEnv \<Rightarrow> int \<Rightarrow> nat \<Rightarrow> bool \<Rightarrow> RobloxInputRouter \<Rightarrow> RobloxInputDispatchResult \<times> RobloxInputRouter" where
  "HandleGamepadButtonLocked env instance_id button pressed s =
     (case FindGamepadLocked instance_id s of
        None \<Rightarrow> (Ignored KGamepadButton ''gamepad is not available'', s)
      | Some g \<Rightarrow>
         if \<not> is_gamepad (ri_sink s) then (Ignored KGamepadButton ''gamepad is not available'', s)
         else if \<not> sn_focused (ri_snapshot s) then (DispatchResult DsIgnoredUnfocused KGamepadButton Status_Ok, s)
         else
          let key = MapSdlGamepadButtonToAndroid (ie_sdl env) button
          in if key < 0 \<or> \<not> Has (gd_buttons (gp_descriptor g)) button
             then (Ignored KGamepadButton ''gamepad button is not supported'', s)
             else if Has (gp_pressed_buttons g) button = pressed
             then (DispatchResult DsStateUpdated KGamepadButton Status_Ok, s)
             else
              case ConnectGamepadLocked env g s of (status, g, s) \<Rightarrow>
              case (if status_ok status then sink_call env (CButton (gp_device_id g) key pressed) s else (status, s)) of
                (status, s) \<Rightarrow>
                  let button_bit = push_bit button 1;
                      g = (if status_ok status
                           then g\<lparr>gp_pressed_buttons := (if pressed then gp_pressed_buttons g OR button_bit
                                                          else gp_pressed_buttons g AND NOT button_bit)\<rparr>
                           else g)
                  in NativeResultLocked status KGamepadButton (store_gamepad g s))"

definition HandleGamepadAxisLocked ::
  "InputEnv \<Rightarrow> int \<Rightarrow> nat \<Rightarrow> int \<Rightarrow> RobloxInputRouter \<Rightarrow> RobloxInputDispatchResult \<times> RobloxInputRouter" where
  "HandleGamepadAxisLocked env instance_id axis v s =
     (case FindGamepadLocked instance_id s of
        None \<Rightarrow> (Ignored KGamepadAxis ''gamepad is not available'', s)
      | Some g \<Rightarrow>
         if \<not> is_gamepad (ri_sink s) then (Ignored KGamepadAxis ''gamepad is not available'', s)
         else if \<not> sn_focused (ri_snapshot s) then (DispatchResult DsIgnoredUnfocused KGamepadAxis Status_Ok, s)
         else if axis \<ge> length kAndroidAxes \<or> \<not> Has (gd_axes (gp_descriptor g)) axis
         then (Ignored KGamepadAxis ''gamepad axis is not supported'', s)
         else
          case DispatchGamepadAxesLocked env axis (g\<lparr>gp_raw_axes := (gp_raw_axes g)[axis := v]\<rparr>) s of
            (status, dispatched, g, s) \<Rightarrow>
              let s = store_gamepad g s
              in if status_ok status \<and> \<not> dispatched then (DispatchResult DsStateUpdated KGamepadAxis Status_Ok, s)
                 else NativeResultLocked status KGamepadAxis s)"

section \<open>Mouse, touch and keyboard\<close>

definition guest_limits :: "FloatEnv \<Rightarrow> RobloxInputViewport \<Rightarrow> cfloat \<times> cfloat" where
  "guest_limits fe v = (f_max (FNum 0) (f_sub fe (guest_width fe v) (FNum 1)), f_max (FNum 0) (f_sub fe (guest_height fe v) (FNum 1)))"

definition HandleMouseMotionLocked ::
  "InputEnv \<Rightarrow> MouseMotion \<Rightarrow> RobloxInputRouter \<Rightarrow> RobloxInputDispatchResult \<times> RobloxInputRouter" where
  "HandleMouseMotionLocked env event s =
     (if \<not> is_mouse_move (ri_sink s) then (Ignored KMouseMotion ''native mouse motion is unavailable'', s)
      else
       let fe = ie_float env; v = sn_viewport (ri_snapshot s);
           delta_x = HostLogicalToGuestX fe v (mm_delta_x event);
           delta_y = HostLogicalToGuestY fe v (mm_delta_y event);
           x = (if mm_relative_mode event then f_add fe (ri_mouse_x s) delta_x else HostLogicalToGuestX fe v (mm_x event));
           y = (if mm_relative_mode event then f_add fe (ri_mouse_y s) delta_y else HostLogicalToGuestY fe v (mm_y event));
           (max_x, max_y) = guest_limits fe v;
           s = s\<lparr>ri_mouse_x := x, ri_mouse_y := y\<rparr>
       in case sink_call env
                 (CMouseMove (if mm_relative_mode event then x else f_clamp x (FNum 0) max_x)
                             (if mm_relative_mode event then y else f_clamp y (FNum 0) max_y) delta_x delta_y) s of
            (status, s) \<Rightarrow> NativeResultLocked status KMouseMotion s)"

definition track_button :: "bool \<Rightarrow> int \<Rightarrow> RobloxInputRouter \<Rightarrow> RobloxInputRouter" where
  "track_button pressed button s =
     (let active = button \<in> set (ri_mouse_buttons s);
          bs = (if pressed \<and> \<not> active then ri_mouse_buttons s @ [button]
                else if \<not> pressed \<and> active then erase_first (\<lambda>b. b = button) (ri_mouse_buttons s)
                else ri_mouse_buttons s)
      in upd_snapshot (\<lambda>sn. sn\<lparr>sn_active_mouse_buttons := of_nat (length bs)\<rparr>) (s\<lparr>ri_mouse_buttons := bs\<rparr>))"

definition HandleMouseButtonLocked ::
  "InputEnv \<Rightarrow> MouseButton \<Rightarrow> RobloxInputRouter \<Rightarrow> RobloxInputDispatchResult \<times> RobloxInputRouter" where
  "HandleMouseButtonLocked env event s =
     (if \<not> is_mouse_button (ri_sink s) then (Ignored KMouseButton ''native mouse buttons are unavailable'', s)
      else
       let button = MapSdlMouseButtonToRoblox (ie_sdl env) (mb_button event)
       in if button < 0 then (Ignored KMouseButton ''SDL mouse button has no Roblox mapping'', s)
          else
           let fe = ie_float env; v = sn_viewport (ri_snapshot s);
               s = (if \<not> mb_relative_mode event
                    then s\<lparr>ri_mouse_x := HostLogicalToGuestX fe v (mb_x event), ri_mouse_y := HostLogicalToGuestY fe v (mb_y event)\<rparr>
                    else s);
               (max_x, max_y) = guest_limits fe v
           in case sink_call env (CMouseButton (f_clamp (ri_mouse_x s) (FNum 0) max_x) (f_clamp (ri_mouse_y s) (FNum 0) max_y)
                      (mb_pressed event) button) s of
                (status, s) \<Rightarrow>
                  NativeResultLocked status KMouseButton (if status_ok status then track_button (mb_pressed event) button s else s))"

definition HandleMouseWheelLocked ::
  "InputEnv \<Rightarrow> MouseWheel \<Rightarrow> RobloxInputRouter \<Rightarrow> RobloxInputDispatchResult \<times> RobloxInputRouter" where
  "HandleMouseWheelLocked env event s =
     (if \<not> is_mouse_wheel (ri_sink s) \<or> f_eq (mw_delta_y event) (FNum 0)
      then (Ignored KMouseWheel ''vertical native mouse wheel is unavailable'', s)
      else
       let fe = ie_float env; v = sn_viewport (ri_snapshot s);
           s = (if \<not> mw_relative_mode event
                then s\<lparr>ri_mouse_x := HostLogicalToGuestX fe v (f_max (FNum 0) (mw_mouse_x event)),
                       ri_mouse_y := HostLogicalToGuestY fe v (f_max (FNum 0) (mw_mouse_y event))\<rparr>
                else s)
       in case sink_call env (CMouseWheel (f_max (FNum 0) (ri_mouse_x s)) (f_max (FNum 0) (ri_mouse_y s)) (mw_delta_y event)) s of
            (status, s) \<Rightarrow> NativeResultLocked status KMouseWheel s)"

definition AllocatePointerIdLocked :: "RobloxInputRouter \<Rightarrow> int" where
  "AllocatePointerIdLocked s =
     (case find (\<lambda>candidate. \<forall>t \<in> set (ri_touches s). at_pointer_id t \<noteq> candidate) [0..kMaximumAndroidPointers - 1] of
        Some candidate \<Rightarrow> candidate | None \<Rightarrow> - 1)"

definition same_touch :: "int \<Rightarrow> int \<Rightarrow> ActiveTouch \<Rightarrow> bool" where
  "same_touch touch_id finger_id t \<longleftrightarrow> at_touch_id t = touch_id \<and> at_finger_id t = finger_id"

definition FindTouchIteratorLocked :: "int \<Rightarrow> int \<Rightarrow> RobloxInputRouter \<Rightarrow> ActiveTouch option" where
  "FindTouchIteratorLocked touch_id finger_id s = find (same_touch touch_id finger_id) (ri_touches s)"

definition track_touch :: "Touch \<Rightarrow> Status \<Rightarrow> int \<Rightarrow> cfloat \<Rightarrow> cfloat \<Rightarrow> RobloxInputRouter \<Rightarrow> RobloxInputRouter" where
  "track_touch event status pointer_id x y s =
     (let this = same_touch (tv_touch_id event) (tv_finger_id event);
          ts = (if tv_action event = TouchDown
                then if status_ok status
                     then ri_touches s @ [\<lparr>at_touch_id = tv_touch_id event, at_finger_id = tv_finger_id event,
                                            at_pointer_id = pointer_id, at_x = x, at_y = y\<rparr>]
                     else ri_touches s
                else if tv_action event = TouchMove
                then if status_ok status then update_first this (\<lambda>t. t\<lparr>at_x := x, at_y := y\<rparr>) (ri_touches s)
                     else ri_touches s
                else erase_first this (ri_touches s))
      in upd_snapshot (\<lambda>sn. sn\<lparr>sn_active_touches := of_nat (length ts)\<rparr>) (s\<lparr>ri_touches := ts\<rparr>))"

definition HandleTouchLocked ::
  "InputEnv \<Rightarrow> Touch \<Rightarrow> RobloxInputRouter \<Rightarrow> RobloxInputDispatchResult \<times> RobloxInputRouter" where
  "HandleTouchLocked env event s =
     (if \<not> is_touch (ri_sink s) then (Ignored KTouch ''native touch input is unavailable'', s)
      else
       let fe = ie_float env; v = sn_viewport (ri_snapshot s);
           width = rounded_guest_width fe v; height = rounded_guest_height fe v;
           x = f_mul fe (f_clamp (tv_x event) (FNum 0) (FNum 1)) (f_of_int fe width);
           y = f_mul fe (f_clamp (tv_y event) (FNum 0) (FNum 1)) (f_of_int fe height);
           active = FindTouchIteratorLocked (tv_touch_id event) (tv_finger_id event) s;
           send = (\<lambda>pointer_id action.
             case sink_call env (CTouch pointer_id x y action width height) s of
               (status, s) \<Rightarrow> NativeResultLocked status KTouch (track_touch event status pointer_id x y s))
       in if tv_action event = TouchDown
          then if active \<noteq> None then (Rejected KTouch ''duplicate touch down was rejected'', s)
               else if AllocatePointerIdLocked s < 0 then (Rejected KTouch ''Android pointer limit was reached'', s)
               else send (AllocatePointerIdLocked s) kAndroidTouchDown
          else case active of
                 None \<Rightarrow> (Rejected KTouch ''touch event has no active pointer'', s)
               | Some t \<Rightarrow> send (at_pointer_id t) (if tv_action event = TouchMove then kAndroidTouchMove else kAndroidTouchUp))"

definition FindKeyIteratorLocked :: "u32 \<Rightarrow> RobloxInputRouter \<Rightarrow> ActiveKey option" where
  "FindKeyIteratorLocked scancode s = find (\<lambda>k. ak_sdl_scancode k = scancode) (ri_keys s)"

definition track_key :: "HostKey \<Rightarrow> AndroidKeyMapping \<Rightarrow> RobloxInputRouter \<Rightarrow> RobloxInputRouter" where
  "track_key event android s =
     (let active = FindKeyIteratorLocked (hk_scancode event) s;
          ks = (if hk_pressed event \<and> active = None
                then ri_keys s @ [\<lparr>ak_sdl_scancode = hk_scancode event, ak_android = android\<rparr>]
                else if \<not> hk_pressed event \<and> active \<noteq> None
                then erase_first (\<lambda>k. ak_sdl_scancode k = hk_scancode event) (ri_keys s)
                else ri_keys s)
      in upd_snapshot (\<lambda>sn. sn\<lparr>sn_active_keys := of_nat (length ks)\<rparr>) (s\<lparr>ri_keys := ks\<rparr>))"

definition HandleKeyLocked ::
  "InputEnv \<Rightarrow> HostKey \<Rightarrow> RobloxInputRouter \<Rightarrow> RobloxInputDispatchResult \<times> RobloxInputRouter" where
  "HandleKeyLocked env event s =
     (if \<not> is_key (ri_sink s) then (Ignored KKeyboard ''native hardware keyboard is unavailable'', s)
      else
       let android = MapSdlKeyToAndroid (ie_sdl env) (hk_scancode event) (hk_keycode event)
       in if \<not> mapping_valid android then (Ignored KKeyboard ''SDL key has no Android mapping'', s)
          else case sink_call env (CKey (hk_pressed event) (km_scan_code android) (km_key_code android) (hk_repeat event)) s of
            (status, s) \<Rightarrow>
              NativeResultLocked status KKeyboard (if status_ok status then track_key event android s else s))"

section \<open>Letting go\<close>

fun release_gamepads ::
  "InputEnv \<Rightarrow> ActiveGamepad list \<Rightarrow> Status \<Rightarrow> RobloxInputRouter \<Rightarrow> Status \<times> ActiveGamepad list \<times> RobloxInputRouter" where
  "release_gamepads env [] first_error s = (first_error, [], s)"
| "release_gamepads env (g # gs) first_error s =
     (case ReleaseGamepadInputsLocked env g s of (status, g, s) \<Rightarrow>
      case release_gamepads env gs (KeepFirstError status first_error) s of (first_error, gs, s) \<Rightarrow>
        (first_error, g # gs, s))"

text \<open>One release call per active input; \<open>kind\<close> selects the counter of the successful ones.\<close>

fun release_calls ::
  "InputEnv \<Rightarrow> RobloxInputEventKind \<Rightarrow> InputCall list \<Rightarrow> Status \<Rightarrow> RobloxInputRouter \<Rightarrow> Status \<times> RobloxInputRouter" where
  "release_calls env kind [] first_error s = (first_error, s)"
| "release_calls env kind (c # cs) first_error s =
     (case sink_call env c s of (status, s) \<Rightarrow>
        if status_ok status then release_calls env kind cs first_error (upd_snapshot (count_event kind) s)
        else release_calls env kind cs (KeepFirstError status first_error) s)"

definition ReleasePressedInputsLocked :: "InputEnv \<Rightarrow> RobloxInputRouter \<Rightarrow> Status \<times> RobloxInputRouter" where
  "ReleasePressedInputsLocked env s =
     (case release_gamepads env (ri_gamepads s) Status_Ok s of (first_error, gs, s) \<Rightarrow>
      let s = s\<lparr>ri_gamepads := gs\<rparr>;
          buttons = (if is_mouse_button (ri_sink s)
                     then map (\<lambda>b. CMouseButton (ri_mouse_x s) (ri_mouse_y s) False b) (ri_mouse_buttons s) else [])
      in case release_calls env KMouseButton buttons first_error s of (first_error, s) \<Rightarrow>
      let s = s\<lparr>ri_mouse_buttons := []\<rparr>;
          fe = ie_float env; v = sn_viewport (ri_snapshot s);
          touches = (if is_touch (ri_sink s)
                     then map (\<lambda>t. CTouch (at_pointer_id t) (at_x t) (at_y t) kAndroidTouchUp
                            (rounded_guest_width fe v) (rounded_guest_height fe v)) (ri_touches s) else [])
      in case release_calls env KTouch touches first_error s of (first_error, s) \<Rightarrow>
      let s = s\<lparr>ri_touches := []\<rparr>;
          keys = (if is_key (ri_sink s)
                  then map (\<lambda>k. CKey False (km_scan_code (ak_android k)) (km_key_code (ak_android k)) False) (ri_keys s) else [])
      in case release_calls env KKeyboard keys first_error s of (first_error, s) \<Rightarrow>
        (first_error,
         upd_snapshot (\<lambda>sn. sn\<lparr>sn_active_mouse_buttons := 0, sn_active_touches := 0, sn_active_keys := 0\<rparr>) (s\<lparr>ri_keys := []\<rparr>)))"

section \<open>Operations\<close>

definition end_text :: "TextNative \<Rightarrow> Status \<Rightarrow> RobloxInputRouter \<Rightarrow> Status \<times> RobloxInputRouter" where
  "end_text n status s =
     (let text_snapshot = te_snapshot (ri_text_editor s)
      in if te_focused (ri_text_editor s)
         then case EndFocusSession n (ts_textbox_handle text_snapshot) (ts_generation text_snapshot) True (ri_text_editor s) of
                (text_status, e) \<Rightarrow> (if status_ok status then text_status else status, s\<lparr>ri_text_editor := e\<rparr>)
         else (status, s))"

definition Activate_router :: "RobloxInputViewport \<Rightarrow> bool \<Rightarrow> RobloxInputRouter \<Rightarrow> Status \<times> RobloxInputRouter" where
  "Activate_router v initially_focused s =
     (if sn_active (ri_snapshot s) then (Status_Error kFailedPrecondition ''Roblox input router is already active'', s)
      else if \<not> viewport_valid v then (Status_Error kInvalidArgument ''input viewport dimensions must be positive'', s)
      else (Status_Ok, s\<lparr>ri_snapshot := RobloxInputSnapshot_default\<lparr>sn_active := True, sn_focused := initially_focused, sn_viewport := v\<rparr>,
              ri_mouse_buttons := [], ri_touches := [], ri_keys := [], ri_gamepads := [], ri_mouse_x := FNum 0, ri_mouse_y := FNum 0\<rparr>))"

definition Deactivate_router :: "InputEnv \<Rightarrow> TextNative \<Rightarrow> RobloxInputRouter \<Rightarrow> Status \<times> RobloxInputRouter" where
  "Deactivate_router env n s =
     (if \<not> sn_active (ri_snapshot s) then (Status_Ok, s)
      else case ReleasePressedInputsLocked env s of (status, s) \<Rightarrow>
           case DisconnectGamepadsLocked env s of (gamepad_status, s) \<Rightarrow>
           case end_text n (if status_ok status then gamepad_status else status) s of (status, s) \<Rightarrow>
             (status, upd_snapshot (\<lambda>sn. sn\<lparr>sn_active := False, sn_focused := False, sn_active_mouse_buttons := 0,
                        sn_active_touches := 0, sn_active_keys := 0\<rparr>) s))"

definition BeginTextFocusSession ::
  "InputEnv \<Rightarrow> RobloxTextFocusSession \<Rightarrow> RobloxInputRouter \<Rightarrow> Status \<times> RobloxInputRouter" where
  "BeginTextFocusSession env session s =
     (if \<not> sn_active (ri_snapshot s) then (Status_Error kFailedPrecondition ''Roblox input router is inactive'', s)
      else case BeginFocusSession (ie_lib env) session (ri_text_editor s) of (status, e) \<Rightarrow> (status, s\<lparr>ri_text_editor := e\<rparr>))"

definition on_editor :: "(RobloxTextEditor \<Rightarrow> Status \<times> RobloxTextEditor) \<Rightarrow> RobloxInputRouter \<Rightarrow> Status \<times> RobloxInputRouter" where
  "on_editor f s = (case f (ri_text_editor s) of (status, e) \<Rightarrow> (status, s\<lparr>ri_text_editor := e\<rparr>))"

definition text_outcome :: "RobloxTextEditResult \<Rightarrow> RobloxInputRouter \<Rightarrow> RobloxInputDispatchResult \<times> RobloxInputRouter" where
  "text_outcome r s =
     (if \<not> status_ok (er_status r)
      then (DispatchResult DsNativeError KText (er_status r), upd_snapshot (\<lambda>sn. sn\<lparr>sn_native_errors := sn_native_errors sn + 1\<rparr>) s)
      else (DispatchResult (if er_dispatched r then DsDispatched else DsStateUpdated) KText Status_Ok,
            if er_dispatched r then upd_snapshot (\<lambda>sn. sn\<lparr>sn_text_events := sn_text_events sn + 1\<rparr>) s else s))"

definition text_event ::
  "(RobloxTextEditor \<Rightarrow> RobloxTextEditResult \<times> RobloxTextEditor) \<Rightarrow> RobloxInputRouter \<Rightarrow> RobloxInputDispatchResult \<times> RobloxInputRouter" where
  "text_event f s =
     (case f (ri_text_editor s) of (r, e) \<Rightarrow>
        let s = s\<lparr>ri_text_editor := e\<rparr>
        in if \<not> er_handled r
           then (Ignored KText ''text input has no focused Roblox TextBox'',
                 upd_snapshot (\<lambda>sn. sn\<lparr>sn_ignored_text_events := sn_ignored_text_events sn + 1\<rparr>) s)
           else text_outcome r s)"

definition key_event ::
  "InputEnv \<Rightarrow> TextNative \<Rightarrow> HostKey \<Rightarrow> RobloxInputRouter \<Rightarrow> RobloxInputDispatchResult \<times> RobloxInputRouter" where
  "key_event env n key s =
     (case HandleKey (ie_lib env) n (text_key (ie_sdl env) key) (ri_text_editor s) of (r, e) \<Rightarrow>
        let s = s\<lparr>ri_text_editor := e\<rparr>
        in if er_handled r then text_outcome r s else HandleKeyLocked env key s)"

definition focus_event ::
  "InputEnv \<Rightarrow> TextNative \<Rightarrow> bool \<Rightarrow> RobloxInputRouter \<Rightarrow> RobloxInputDispatchResult \<times> RobloxInputRouter" where
  "focus_event env n focused s =
     (if \<not> focused \<and> sn_focused (ri_snapshot s)
      then case ReleasePressedInputsLocked env s of (status, s) \<Rightarrow>
           case end_text n status s of (status, s) \<Rightarrow>
           let s = upd_snapshot (\<lambda>sn. sn\<lparr>sn_focused := False\<rparr>) s
           in if \<not> status_ok status
              then (DispatchResult DsNativeError KFocus status,
                    upd_snapshot (\<lambda>sn. sn\<lparr>sn_native_errors := sn_native_errors sn + 1\<rparr>) s)
              else (DispatchResult DsStateUpdated KFocus Status_Ok, s)
      else (DispatchResult DsStateUpdated KFocus Status_Ok, upd_snapshot (\<lambda>sn. sn\<lparr>sn_focused := focused\<rparr>) s))"

definition take_focus :: "RobloxInputRouter \<Rightarrow> RobloxInputRouter" where
  "take_focus s = (if \<not> sn_focused (ri_snapshot s) then upd_snapshot (\<lambda>sn. sn\<lparr>sn_focused := True\<rparr>) s else s)"

definition HandleEvent ::
  "InputEnv \<Rightarrow> TextNative \<Rightarrow> PlatformEvent \<Rightarrow> RobloxInputRouter \<Rightarrow> RobloxInputDispatchResult \<times> RobloxInputRouter" where
  "HandleEvent env n event s =
     (if \<not> sn_active (ri_snapshot s) then (DispatchResult DsIgnoredInactive KNone Status_Ok, s)
      else case event of
        WindowResizedEvent v \<Rightarrow>
          if \<not> viewport_valid v then (Rejected KViewport ''resized input viewport is invalid'', s)
          else (DispatchResult DsStateUpdated KViewport Status_Ok, upd_snapshot (\<lambda>sn. sn\<lparr>sn_viewport := v\<rparr>) s)
      | WindowFocusEvent focused \<Rightarrow> focus_event env n focused s
      | GamepadConnectionEvent c \<Rightarrow> HandleGamepadConnectionLocked env c s
      | GamepadButtonEvent i button pressed \<Rightarrow> HandleGamepadButtonLocked env i button pressed s
      | GamepadAxisEvent i axis v \<Rightarrow> HandleGamepadAxisLocked env i axis v s
      | QuitEvent \<Rightarrow> (Ignored KNone ''platform event has no Roblox input route'', s)
      | MouseMotionEvent m \<Rightarrow> HandleMouseMotionLocked env m (take_focus s)
      | MouseButtonEvent m \<Rightarrow> HandleMouseButtonLocked env m (take_focus s)
      | MouseWheelEvent m \<Rightarrow> HandleMouseWheelLocked env m (take_focus s)
      | TouchEvent t \<Rightarrow> HandleTouchLocked env t (take_focus s)
      | HostKeyEvent key \<Rightarrow> key_event env n key (take_focus s)
      | TextInputEvent input \<Rightarrow> text_event (HandleTextInput (ie_lib env) n input) (take_focus s)
      | TextEditingEvent input start \<Rightarrow> text_event (HandleTextEditing (ie_lib env) n input start) (take_focus s))"

definition router_Snapshot :: "RobloxInputRouter \<Rightarrow> RobloxInputSnapshot" where
  "router_Snapshot s =
     (ri_snapshot s)\<lparr>sn_text_focus_generation :=
        (if te_focused (ri_text_editor s) then ts_generation (te_snapshot (ri_text_editor s)) else 0)\<rparr>"

fun RobloxInputDispatchStateName :: "RobloxInputDispatchState \<Rightarrow> string" where
  "RobloxInputDispatchStateName DsDispatched = ''Dispatched''"
| "RobloxInputDispatchStateName DsStateUpdated = ''StateUpdated''"
| "RobloxInputDispatchStateName DsIgnoredInactive = ''IgnoredInactive''"
| "RobloxInputDispatchStateName DsIgnoredUnfocused = ''IgnoredUnfocused''"
| "RobloxInputDispatchStateName DsIgnoredUnsupported = ''IgnoredUnsupported''"
| "RobloxInputDispatchStateName DsRejectedInvalid = ''RejectedInvalid''"
| "RobloxInputDispatchStateName DsNativeError = ''NativeError''"

fun RobloxInputEventKindName :: "RobloxInputEventKind \<Rightarrow> string" where
  "RobloxInputEventKindName KNone = ''None''"
| "RobloxInputEventKindName KMouseMotion = ''MouseMotion''"
| "RobloxInputEventKindName KMouseButton = ''MouseButton''"
| "RobloxInputEventKindName KMouseWheel = ''MouseWheel''"
| "RobloxInputEventKindName KTouch = ''Touch''"
| "RobloxInputEventKindName KKeyboard = ''Keyboard''"
| "RobloxInputEventKindName KText = ''Text''"
| "RobloxInputEventKindName KFocus = ''Focus''"
| "RobloxInputEventKindName KViewport = ''Viewport''"
| "RobloxInputEventKindName KGamepadConnection = ''GamepadConnection''"
| "RobloxInputEventKindName KGamepadButton = ''GamepadButton''"
| "RobloxInputEventKindName KGamepadAxis = ''GamepadAxis''"

section \<open>Runs\<close>

datatype RouterOp =
    RActivate RobloxInputViewport bool
  | RDeactivate
  | RBeginText RobloxTextFocusSession
  | REndText int u64 bool
  | REngineText u64 bytes
  | RTextProperties u64 RobloxTextFocusProperties
  | REvent PlatformEvent

fun router_step :: "InputEnv \<Rightarrow> RobloxInputRouter \<Rightarrow> TextNative \<times> RouterOp \<Rightarrow> RobloxInputRouter" where
  "router_step env s (n, RActivate v focused) = snd (Activate_router v focused s)"
| "router_step env s (n, RDeactivate) = snd (Deactivate_router env n s)"
| "router_step env s (n, RBeginText session) = snd (BeginTextFocusSession env session s)"
| "router_step env s (n, REndText h g notify) = snd (on_editor (EndFocusSession n h g notify) s)"
| "router_step env s (n, REngineText g t) = snd (on_editor (ReplaceFocusedTextFromEngine (ie_lib env) g t) s)"
| "router_step env s (n, RTextProperties g p) = snd (on_editor (UpdateFocusProperties g p) s)"
| "router_step env s (n, REvent event) = snd (HandleEvent env n event s)"

end
