(* ===== verification/Input_Safety.thy ===== *)
theory Input_Safety
  imports Input_Router Text_Editor_Safety
begin

text \<open>
  What the input router keeps true: the tables of active inputs are well formed and agree with the counts
  of the snapshot whatever the native calls return (\<open>tables_ok\<close>), and, when the native calls succeed, what
  the game sees as held down is what the tables remember (\<open>follows\<close>), so that losing the focus or
  deactivating the router lets go of everything.
\<close>

section \<open>Lists\<close>

lemma set_erase_first: "set (erase_first P xs) \<subseteq> set xs"
  by (induction xs) auto

lemma erase_first_eq_filter:
  assumes "distinct (map f xs)" and "\<And>x. P x \<longleftrightarrow> f x = k"
  shows "erase_first P xs = filter (\<lambda>x. \<not> P x) xs"
  using assms(1)
proof (induction xs)
  case (Cons x xs)
  show ?case
  proof (cases "P x")
    case True
    then have "\<forall>y\<in>set xs. \<not> P y" using Cons.prems by (auto simp: assms(2) image_iff)
    then show ?thesis using True by (simp add: filter_id_conv)
  qed (use Cons in simp)
qed simp

lemma distinct_erase_first: "distinct (map f xs) \<Longrightarrow> distinct (map f (erase_first P xs))"
proof (induction xs)
  case (Cons x xs)
  have "f ` set (erase_first P xs) \<subseteq> f ` set xs" by (intro image_mono set_erase_first)
  then have "f x \<notin> f ` set (erase_first P xs)" using Cons.prems by (simp add: subset_iff) blast
  with Cons show ?case by (cases "P x") simp_all
qed simp

lemma map_update_first [simp]: "(\<And>x. g (f x) = g x) \<Longrightarrow> map g (update_first P f xs) = map g xs"
  by (induction xs) auto

lemma length_update_first [simp]: "length (update_first P f xs) = length xs"
  by (induction xs) auto

lemma find_Some_iff_mem: "find P xs = Some x \<Longrightarrow> x \<in> set xs \<and> P x"
  by (auto simp: find_Some_iff)

section \<open>What a gamepad step leaves alone\<close>

definition router_core where
  "router_core s =
     (ri_sink s, ri_text_editor s, ri_mouse_buttons s, ri_touches s, ri_keys s, ri_gamepads s, ri_mouse_x s, ri_mouse_y s,
      sn_active (ri_snapshot s), sn_focused (ri_snapshot s), sn_viewport (ri_snapshot s),
      sn_active_mouse_buttons (ri_snapshot s), sn_active_touches (ri_snapshot s), sn_active_keys (ri_snapshot s),
      sn_detected_gamepads (ri_snapshot s))"

abbreviation connected_count :: "RobloxInputRouter \<Rightarrow> u32" where
  "connected_count s \<equiv> sn_connected_gamepads (ri_snapshot s)"

definition quiet :: "RobloxInputRouter \<Rightarrow> RobloxInputRouter \<Rightarrow> bool" where
  "quiet s s' \<longleftrightarrow> router_core s' = router_core s \<and> connected_count s' = connected_count s"

definition pad_id where
  "pad_id g = (gp_instance_id g, gp_device_id g, gp_descriptor g)"

definition pad_ok :: "ActiveGamepad \<Rightarrow> bool" where
  "pad_ok g \<longleftrightarrow> gp_device_id g \<ge> 1 \<and> length (gp_raw_axes g) = 6 \<and> length (gp_sent_axes g) = 6 \<and>
     (\<not> gp_connected g \<longrightarrow> gp_pressed_buttons g = 0)"

definition pad_effect where
  "pad_effect g s g' s' \<longleftrightarrow>
     router_core s' = router_core s \<and> pad_id g' = pad_id g \<and> (pad_ok g \<longrightarrow> pad_ok g') \<and>
     connected_count s' - of_bool (gp_connected g') = connected_count s - of_bool (gp_connected g)"

lemma quiet_refl [simp]: "quiet s s"
  by (simp add: quiet_def)

lemma quiet_trans: "quiet s s' \<Longrightarrow> quiet s' s'' \<Longrightarrow> quiet s s''"
  by (simp add: quiet_def)

lemma quiet_sink_call: "sink_call env c s = (st, s') \<Longrightarrow> quiet s s'"
  by (auto simp: sink_call_def quiet_def router_core_def Let_def)

lemma quiet_gamepad_event [simp]:
  "quiet s (upd_snapshot (\<lambda>sn. sn\<lparr>sn_gamepad_events := sn_gamepad_events sn + 1\<rparr>) s')  \<longleftrightarrow> quiet s s'"
  by (simp add: quiet_def router_core_def)

lemma quiet_count_event [simp]: "quiet s (upd_snapshot (count_event kind) s') \<longleftrightarrow> quiet s s'"
  by (cases kind) (simp_all add: quiet_def router_core_def)

lemma quiet_native_error [simp]:
  "quiet s (upd_snapshot (\<lambda>sn. sn\<lparr>sn_native_errors := sn_native_errors sn + 1\<rparr>) s') \<longleftrightarrow> quiet s s'"
  by (simp add: quiet_def router_core_def)

lemma quiet_NativeResultLocked [simp]: "quiet s (snd (NativeResultLocked st kind s')) \<longleftrightarrow> quiet s s'"
  by (simp add: NativeResultLocked_def)

lemma pad_effect_refl [simp]: "pad_effect g s g s"
  by (simp add: pad_effect_def)

lemma pad_effect_trans: "pad_effect g s g' s' \<Longrightarrow> pad_effect g' s' g'' s'' \<Longrightarrow> pad_effect g s g'' s''"
  by (simp add: pad_effect_def)

lemma pad_effect_quiet: "quiet s s' \<Longrightarrow> pad_effect g s g s'"
  by (simp add: pad_effect_def quiet_def)

lemma pad_effect_event [simp]:
  "pad_effect g s g' (upd_snapshot (\<lambda>sn. sn\<lparr>sn_gamepad_events := sn_gamepad_events sn + 1\<rparr>) s') \<longleftrightarrow> pad_effect g s g' s'"
  by (simp add: pad_effect_def router_core_def)

lemma quiet_call_all: "call_all env cs e s = (st, s') \<Longrightarrow> quiet s s'"
proof (induction cs arbitrary: e s)
  case (Cons c cs)
  obtain st1 s1 where c: "sink_call env c s = (st1, s1)" by (cases "sink_call env c s")
  have "quiet s1 s'" using Cons.prems by (intro Cons.IH) (simp add: c)
  with quiet_sink_call [OF c] show ?case by (rule quiet_trans)
qed simp

lemma quiet_ConfigureGamepadLocked: "ConfigureGamepadLocked env g available s = (st, s') \<Longrightarrow> quiet s s'"
  unfolding ConfigureGamepadLocked_def Let_def by (rule quiet_call_all)

lemma ConnectGamepadLocked_effect:
  assumes "ConnectGamepadLocked env g s = (st, g', s')"
  shows "pad_effect g s g' s' \<and> gp_pressed_buttons g' = gp_pressed_buttons g \<and>
    gp_raw_axes g' = gp_raw_axes g \<and> gp_sent_axes g' = gp_sent_axes g \<and> (status_ok st \<longrightarrow> gp_connected g')"
proof (cases "gp_connected g")
  case True
  then show ?thesis using assms by (simp add: ConnectGamepadLocked_def)
next
  case False
  obtain st1 s1 where c: "ConfigureGamepadLocked env g True s = (st1, s1)"
    by (cases "ConfigureGamepadLocked env g True s")
  obtain st2 s2 where n: "(if status_ok st1
      then sink_call env (CConnect (gp_device_id g) (RobloxGamepadType (gd_family (gp_descriptor g)))) s1
      else (st1, s1)) = (st2, s2)" by (metis surj_pair)
  have q: "quiet s s2"
    using quiet_ConfigureGamepadLocked [OF c] quiet_sink_call n by (auto split: if_splits intro: quiet_trans)
  show ?thesis
  proof (cases "status_ok st2")
    case True
    have "g' = g\<lparr>gp_connected := True\<rparr>"
      "s' = upd_snapshot (\<lambda>sn. sn\<lparr>sn_connected_gamepads := sn_connected_gamepads sn + 1\<rparr>) s2"
      using assms False True c n by (simp_all add: ConnectGamepadLocked_def)
    then show ?thesis using q False by (simp add: pad_effect_def quiet_def router_core_def pad_id_def pad_ok_def)
  next
    case notok: False
    obtain st3 s3 where c3: "ConfigureGamepadLocked env g False s2 = (st3, s3)"
      by (cases "ConfigureGamepadLocked env g False s2")
    obtain st4 s4 where c4: "sink_call env (CDisconnect (gp_device_id g)) s3 = (st4, s4)"
      by (cases "sink_call env (CDisconnect (gp_device_id g)) s3")
    have "g' = g" "s' = s4" "st = st2" using assms False notok c n c3 c4 by (simp_all add: ConnectGamepadLocked_def)
    moreover have "quiet s s4"
      using q quiet_ConfigureGamepadLocked [OF c3] quiet_sink_call [OF c4] by (blast intro: quiet_trans)
    ultimately show ?thesis using notok by (simp add: pad_effect_quiet)
  qed
qed

lemma quiet_dispatch_axes: "dispatch_axes env g vx vy vz is d s = (st, d', s') \<Longrightarrow> quiet s s'"
proof (induction "is" arbitrary: d s)
  case (Cons i rest)
  show ?case
  proof (cases "Has (gd_axes (gp_descriptor g)) i")
    case True
    obtain st1 s1 where c: "sink_call env (CAxis (gp_device_id g) (kAndroidAxes ! i) vx vy vz) s = (st1, s1)"
      by (cases "sink_call env (CAxis (gp_device_id g) (kAndroidAxes ! i) vx vy vz) s")
    have "quiet s1 s'" using Cons.prems True c by (auto split: if_splits dest: Cons.IH)
    with quiet_sink_call [OF c] show ?thesis by (rule quiet_trans)
  qed (use Cons in simp)
qed simp

lemma DispatchGamepadAxesLocked_effect:
  assumes "DispatchGamepadAxesLocked env axis g s = (st, d, g', s')"
  shows "pad_effect g s g' s' \<and> gp_pressed_buttons g' = gp_pressed_buttons g \<and> (gp_connected g \<longrightarrow> gp_connected g')"
proof -
  obtain st1 g1 s1 where c: "ConnectGamepadLocked env g s = (st1, g1, s1)"
    by (cases "ConnectGamepadLocked env g s") auto
  note e = ConnectGamepadLocked_effect [OF c]
  have mono: "gp_connected g \<longrightarrow> gp_connected g1" using c by (auto simp: ConnectGamepadLocked_def)
  have upd: "pad_effect g s (g1\<lparr>gp_sent_axes := xs\<rparr>) s'"
    if "quiet s1 s'" "length xs = length (gp_sent_axes g1)" for xs
    using e that by (auto simp: pad_effect_def quiet_def pad_id_def pad_ok_def)
  show ?thesis
    using assms c e mono
    by (auto simp: DispatchGamepadAxesLocked_def Let_def simp del: dispatch_axes.simps split: if_splits prod.splits
        dest!: quiet_dispatch_axes intro!: upd intro: pad_effect_trans [OF _ pad_effect_quiet])
qed

lemma quiet_release_buttons: "release_buttons env g bs e s = (st, s') \<Longrightarrow> quiet s s'"
proof (induction bs arbitrary: e s)
  case (Cons b bs)
  show ?case
  proof (cases "Has (gp_pressed_buttons g) (sdl_gamepad_button (ie_sdl env) b)")
    case True
    obtain st1 s1 where c: "sink_call env (CButton (gp_device_id g)
        (MapSdlGamepadButtonToAndroid (ie_sdl env) (sdl_gamepad_button (ie_sdl env) b)) False) s = (st1, s1)"
      by (metis surj_pair)
    let ?s2 = "if status_ok st1 then upd_snapshot (\<lambda>sn. sn\<lparr>sn_gamepad_events := sn_gamepad_events sn + 1\<rparr>) s1 else s1"
    have "quiet ?s2 s'" using Cons.prems True c by (intro Cons.IH) (simp add: Let_def)
    moreover have "quiet s ?s2" using quiet_sink_call [OF c] by simp
    ultimately show ?thesis by (blast intro: quiet_trans)
  qed (use Cons in \<open>simp add: Let_def\<close>)
qed simp

lemma release_axes_effect:
  assumes "release_axes env axes e g s = (st, g', s')"
  shows "pad_effect g s g' s' \<and> gp_pressed_buttons g' = gp_pressed_buttons g \<and> (gp_connected g \<longrightarrow> gp_connected g')"
  using assms
proof (induction axes arbitrary: e g s)
  case (Cons axis rest)
  obtain st1 d g1 s1 where c: "DispatchGamepadAxesLocked env axis g s = (st1, d, g1, s1)" by (metis prod_cases4)
  note e = DispatchGamepadAxesLocked_effect [OF c]
  define s2 where "s2 = (if status_ok st1 \<and> d
     then upd_snapshot (\<lambda>sn. sn\<lparr>sn_gamepad_events := sn_gamepad_events sn + 1\<rparr>) s1 else s1)"
  have "pad_effect g1 s2 g' s' \<and> gp_pressed_buttons g' = gp_pressed_buttons g1 \<and> (gp_connected g1 \<longrightarrow> gp_connected g')"
    using Cons.prems c by (intro Cons.IH) (simp add: Let_def s2_def)
  moreover have "pad_effect g s g1 s2" using e by (simp add: s2_def)
  ultimately show ?case using e by (auto intro: pad_effect_trans)
qed simp

lemma ReleaseGamepadInputsLocked_effect:
  assumes "ReleaseGamepadInputsLocked env g s = (st, g', s')"
  shows "pad_effect g s g' s' \<and> gp_pressed_buttons g' = 0 \<and> gp_connected g' = gp_connected g"
proof (cases "gp_connected g")
  case True
  obtain st1 s1 where b: "release_buttons env g kButtons Status_Ok s = (st1, s1)" by (metis surj_pair)
  obtain st2 g2 s2 where a: "release_axes env [0, 2, 4, 5] st1 (g\<lparr>gp_raw_axes := replicate 6 0\<rparr>) s1 = (st2, g2, s2)"
    by (metis prod_cases3)
  have e: "pad_effect (g\<lparr>gp_raw_axes := replicate 6 0\<rparr>) s1 g2 s2" "gp_connected g2"
    using release_axes_effect [OF a] True by simp_all
  have "g' = g2\<lparr>gp_pressed_buttons := 0, gp_raw_axes := replicate 6 0, gp_sent_axes := replicate 6 (FNum 0)\<rparr>" "s' = s2"
    using assms True a b by (simp_all add: ReleaseGamepadInputsLocked_def)
  then show ?thesis
    using e quiet_release_buttons [OF b] True by (auto simp: pad_effect_def quiet_def pad_id_def pad_ok_def)
qed (use assms in \<open>auto simp: ReleaseGamepadInputsLocked_def pad_effect_def pad_id_def pad_ok_def\<close>)

lemma DisconnectGamepadLocked_effect:
  assumes "DisconnectGamepadLocked env g s = (st, g', s')"
  shows "pad_effect g s g' s' \<and> gp_pressed_buttons g' = 0 \<and> \<not> gp_connected g'"
proof -
  obtain st1 g1 s1 where r: "ReleaseGamepadInputsLocked env g s = (st1, g1, s1)" by (metis prod_cases3)
  note e = ReleaseGamepadInputsLocked_effect [OF r]
  show ?thesis
  proof (cases "gp_connected g1")
    case True
    obtain st2 s2 where c: "ConfigureGamepadLocked env g1 False s1 = (st2, s2)" by (metis surj_pair)
    obtain st3 s3 where d: "sink_call env (CDisconnect (gp_device_id g1)) s2 = (st3, s3)" by (metis surj_pair)
    have "quiet s1 s3" using quiet_ConfigureGamepadLocked [OF c] quiet_sink_call [OF d] by (rule quiet_trans)
    moreover have "g' = g1\<lparr>gp_connected := False\<rparr>"
      "s' = upd_snapshot (\<lambda>sn. sn\<lparr>sn_connected_gamepads := sn_connected_gamepads sn - 1\<rparr>) s3"
      using assms True r c d by (simp_all add: DisconnectGamepadLocked_def Let_def)
    ultimately show ?thesis using e True
      by (simp add: pad_effect_def quiet_def pad_id_def pad_ok_def router_core_def)
  qed (use assms r e in \<open>simp add: DisconnectGamepadLocked_def\<close>)
qed

section \<open>The tables of active inputs\<close>

definition mouse_ok :: "RobloxInputRouter \<Rightarrow> bool" where
  "mouse_ok s \<longleftrightarrow> distinct (ri_mouse_buttons s) \<and> (\<forall>b\<in>set (ri_mouse_buttons s). 0 \<le> b) \<and>
     sn_active_mouse_buttons (ri_snapshot s) = of_nat (length (ri_mouse_buttons s))"

definition touches_ok :: "RobloxInputRouter \<Rightarrow> bool" where
  "touches_ok s \<longleftrightarrow>
     distinct (map (\<lambda>t. (at_touch_id t, at_finger_id t)) (ri_touches s)) \<and>
     distinct (map at_pointer_id (ri_touches s)) \<and>
     (\<forall>t\<in>set (ri_touches s). 0 \<le> at_pointer_id t \<and> at_pointer_id t < kMaximumAndroidPointers) \<and>
     sn_active_touches (ri_snapshot s) = of_nat (length (ri_touches s))"

definition keys_ok :: "RobloxInputRouter \<Rightarrow> bool" where
  "keys_ok s \<longleftrightarrow> distinct (map ak_sdl_scancode (ri_keys s)) \<and> (\<forall>k\<in>set (ri_keys s). mapping_valid (ak_android k)) \<and>
     sn_active_keys (ri_snapshot s) = of_nat (length (ri_keys s))"

definition gamepads_ok :: "RobloxInputRouter \<Rightarrow> bool" where
  "gamepads_ok s \<longleftrightarrow>
     distinct (map gp_instance_id (ri_gamepads s)) \<and> distinct (map gp_device_id (ri_gamepads s)) \<and>
     (\<forall>g\<in>set (ri_gamepads s). pad_ok g) \<and>
     sn_detected_gamepads (ri_snapshot s) = of_nat (length (ri_gamepads s)) \<and>
     sn_connected_gamepads (ri_snapshot s) = of_nat (length (filter gp_connected (ri_gamepads s)))"

definition idle_ok :: "RobloxInputRouter \<Rightarrow> bool" where
  "idle_ok s \<longleftrightarrow>
     (sn_active (ri_snapshot s) \<or> ri_mouse_buttons s = [] \<and> ri_touches s = [] \<and> ri_keys s = [] \<and> ri_gamepads s = []) \<and>
     (sn_focused (ri_snapshot s) \<or>
      ri_mouse_buttons s = [] \<and> ri_touches s = [] \<and> ri_keys s = [] \<and> (\<forall>g\<in>set (ri_gamepads s). gp_pressed_buttons g = 0)) \<and>
     (ri_mouse_buttons s = [] \<or> is_mouse_button (ri_sink s)) \<and> (ri_touches s = [] \<or> is_touch (ri_sink s)) \<and>
     (ri_keys s = [] \<or> is_key (ri_sink s)) \<and> (ri_gamepads s = [] \<or> is_gamepad (ri_sink s))"

definition tables_ok :: "RobloxInputRouter \<Rightarrow> bool" where
  "tables_ok s \<longleftrightarrow> mouse_ok s \<and> touches_ok s \<and> keys_ok s \<and> gamepads_ok s \<and> idle_ok s"

lemmas table_defs = mouse_ok_def touches_ok_def keys_ok_def gamepads_ok_def idle_ok_def

lemma tables_ok_quiet: "quiet s s' \<Longrightarrow> tables_ok s' \<longleftrightarrow> tables_ok s"
  by (simp add: quiet_def router_core_def tables_ok_def table_defs)

lemma tables_ok_editor [simp]: "tables_ok (s\<lparr>ri_text_editor := e\<rparr>) \<longleftrightarrow> tables_ok s"
  by (simp add: tables_ok_def table_defs)

lemma tables_ok_editor_snapshot [simp]:
  "tables_ok (s\<lparr>ri_text_editor := e, ri_snapshot := sn\<rparr>) \<longleftrightarrow> tables_ok (s\<lparr>ri_snapshot := sn\<rparr>)"
  by (simp add: tables_ok_def table_defs)

lemma tables_ok_pointer [simp]: "tables_ok (s\<lparr>ri_mouse_x := x, ri_mouse_y := y\<rparr>) \<longleftrightarrow> tables_ok s"
  by (simp add: tables_ok_def table_defs)

lemma tables_ok_NativeResultLocked [simp]: "tables_ok (snd (NativeResultLocked st kind s)) \<longleftrightarrow> tables_ok s"
  by (rule tables_ok_quiet) simp

lemma tables_ok_sink_call: "sink_call env c s = (st, s') \<Longrightarrow> tables_ok s' \<longleftrightarrow> tables_ok s"
  by (rule tables_ok_quiet) (rule quiet_sink_call)

lemma tables_ok_focused: "tables_ok s \<Longrightarrow> tables_ok (upd_snapshot (\<lambda>sn. sn\<lparr>sn_focused := True\<rparr>) s)"
  by (simp add: tables_ok_def table_defs)

lemma tables_ok_take_focus: "tables_ok s \<Longrightarrow> tables_ok (take_focus s)"
  by (simp add: take_focus_def tables_ok_focused)

abbreviation live_input :: "RobloxInputRouter \<Rightarrow> bool" where
  "live_input s \<equiv> sn_active (ri_snapshot s) \<and> sn_focused (ri_snapshot s)"

lemma tables_ok_count:
  "tables_ok (upd_snapshot (\<lambda>sn. sn\<lparr>sn_native_errors := sn_native_errors sn + 1\<rparr>) s) \<longleftrightarrow> tables_ok s"
  "tables_ok (upd_snapshot (\<lambda>sn. sn\<lparr>sn_text_events := sn_text_events sn + 1\<rparr>) s) \<longleftrightarrow> tables_ok s"
  "tables_ok (upd_snapshot (\<lambda>sn. sn\<lparr>sn_ignored_text_events := sn_ignored_text_events sn + 1\<rparr>) s) \<longleftrightarrow> tables_ok s"
  "tables_ok (upd_snapshot (\<lambda>sn. sn\<lparr>sn_viewport := v\<rparr>) s) \<longleftrightarrow> tables_ok s"
  by (simp_all add: tables_ok_def table_defs)

lemma track_button_ok:
  assumes "tables_ok s" "0 \<le> button" "is_mouse_button (ri_sink s)" "live_input s"
  shows "tables_ok (track_button pressed button s)"
proof -
  have "distinct (map (\<lambda>b. b) (erase_first (\<lambda>b. b = button) (ri_mouse_buttons s)))"
    using assms(1) by (intro distinct_erase_first) (simp add: tables_ok_def mouse_ok_def)
  then show ?thesis
    using assms set_erase_first [of "\<lambda>b. b = button" "ri_mouse_buttons s"]
    by (auto simp: track_button_def Let_def tables_ok_def table_defs)
qed

lemma AllocatePointerIdLocked_fresh:
  assumes "AllocatePointerIdLocked s \<ge> 0"
  shows "AllocatePointerIdLocked s < kMaximumAndroidPointers \<and> AllocatePointerIdLocked s \<notin> at_pointer_id ` set (ri_touches s)"
  using assms by (fastforce simp: AllocatePointerIdLocked_def kMaximumAndroidPointers_def
      split: option.splits dest: find_Some_iff_mem)

lemma FindTouchIteratorLocked_None:
  "FindTouchIteratorLocked i f s = None \<longleftrightarrow> (i, f) \<notin> (\<lambda>t. (at_touch_id t, at_finger_id t)) ` set (ri_touches s)"
  by (auto simp: FindTouchIteratorLocked_def find_None_iff same_touch_def)

lemma set_update_first: "set (update_first P f xs) \<subseteq> set xs \<union> f ` {x \<in> set xs. P x}"
  by (induction xs) auto

lemma track_touch_ok:
  assumes ok: "tables_ok s" and sink: "is_touch (ri_sink s)" and act: "live_input s"
    and down: "tv_action event = TouchDown \<Longrightarrow>
       FindTouchIteratorLocked (tv_touch_id event) (tv_finger_id event) s = None \<and>
       0 \<le> p \<and> p < kMaximumAndroidPointers \<and> p \<notin> at_pointer_id ` set (ri_touches s)"
  shows "tables_ok (track_touch event st p x y s)"
proof -
  let ?sel = "same_touch (tv_touch_id event) (tv_finger_id event)"
  have t: "touches_ok s" using ok by (simp add: tables_ok_def)
  have e: "distinct (map at_pointer_id (erase_first ?sel (ri_touches s)))"
    "distinct (map (\<lambda>t. (at_touch_id t, at_finger_id t)) (erase_first ?sel (ri_touches s)))"
    using t by (auto simp: touches_ok_def intro: distinct_erase_first)
  have "touches_ok (track_touch event st p x y s)"
    using t down e set_erase_first [of ?sel "ri_touches s"]
      set_update_first [of ?sel "\<lambda>t. t\<lparr>at_x := x, at_y := y\<rparr>" "ri_touches s"]
    by (fastforce simp: track_touch_def Let_def touches_ok_def FindTouchIteratorLocked_None)
  then show ?thesis using ok sink act by (simp add: track_touch_def Let_def tables_ok_def table_defs)
qed

lemma track_key_ok:
  assumes ok: "tables_ok s" and sink: "is_key (ri_sink s)" and act: "live_input s" and m: "mapping_valid android"
  shows "tables_ok (track_key event android s)"
proof -
  let ?sel = "\<lambda>k. ak_sdl_scancode k = hk_scancode event"
  have k: "keys_ok s" using ok by (simp add: tables_ok_def)
  have "distinct (map ak_sdl_scancode (erase_first ?sel (ri_keys s)))"
    using k by (auto simp: keys_ok_def intro: distinct_erase_first)
  then have "keys_ok (track_key event android s)"
    using k m set_erase_first [of ?sel "ri_keys s"]
    by (auto simp: track_key_def Let_def keys_ok_def FindKeyIteratorLocked_def find_None_iff)
  then show ?thesis using ok sink act by (simp add: track_key_def Let_def tables_ok_def table_defs)
qed

subsection \<open>Pointer and keyboard events\<close>

lemma sink_call_same:
  "sink_call env c s = (st, s') \<Longrightarrow>
   ri_sink s' = ri_sink s \<and> ri_snapshot s' = ri_snapshot s \<and> ri_touches s' = ri_touches s \<and> st = ie_native env (length (ri_calls s))"
  by (auto simp: sink_call_def Let_def)

lemma HandleMouseMotionLocked_ok: "tables_ok s \<Longrightarrow> tables_ok (snd (HandleMouseMotionLocked env m s))"
  by (auto simp: HandleMouseMotionLocked_def Let_def guest_limits_def dest: tables_ok_sink_call split: prod.splits)

lemma HandleMouseWheelLocked_ok: "tables_ok s \<Longrightarrow> tables_ok (snd (HandleMouseWheelLocked env m s))"
  by (auto simp: HandleMouseWheelLocked_def Let_def dest: tables_ok_sink_call split: prod.splits)

lemma HandleMouseButtonLocked_ok:
  assumes "tables_ok s" "live_input s"
  shows "tables_ok (snd (HandleMouseButtonLocked env m s))"
  using assms
  by (auto simp: HandleMouseButtonLocked_def Let_def guest_limits_def dest: tables_ok_sink_call sink_call_same
      intro!: track_button_ok split: prod.splits)

lemma HandleTouchLocked_ok:
  assumes "tables_ok s" "live_input s"
  shows "tables_ok (snd (HandleTouchLocked env event s))"
proof -
  have ok: "tables_ok (snd (case sink_call env c s of (st, s) \<Rightarrow> NativeResultLocked st KTouch (track_touch event st p x y s)))"
    if "is_touch (ri_sink s)"
      "tv_action event = TouchDown \<Longrightarrow>
         FindTouchIteratorLocked (tv_touch_id event) (tv_finger_id event) s = None \<and>
         0 \<le> p \<and> p < kMaximumAndroidPointers \<and> p \<notin> at_pointer_id ` set (ri_touches s)" for c p x y
    using assms that
    by (auto dest: tables_ok_sink_call sink_call_same simp: FindTouchIteratorLocked_def intro!: track_touch_ok split: prod.splits)
  show ?thesis
    using assms AllocatePointerIdLocked_fresh [of s]
    by (auto simp: HandleTouchLocked_def Let_def split: option.splits intro!: ok)
qed

lemma HandleKeyLocked_ok:
  assumes "tables_ok s" "live_input s"
  shows "tables_ok (snd (HandleKeyLocked env event s))"
  using assms
  by (auto simp: HandleKeyLocked_def Let_def dest: tables_ok_sink_call sink_call_same intro!: track_key_ok split: prod.splits)

lemma text_outcome_ok: "tables_ok s \<Longrightarrow> tables_ok (snd (text_outcome r s))"
  by (simp add: text_outcome_def tables_ok_count)

lemma text_event_ok: "tables_ok s \<Longrightarrow> tables_ok (snd (text_event f s))"
  by (auto simp: text_event_def Let_def tables_ok_count intro!: text_outcome_ok split: prod.splits)

lemma key_event_ok:
  assumes "tables_ok s" "live_input s"
  shows "tables_ok (snd (key_event env n key s))"
  using assms by (auto simp: key_event_def Let_def intro!: text_outcome_ok HandleKeyLocked_ok split: prod.splits)

subsection \<open>Gamepad events\<close>

lemma pad_effect_gamepads: "pad_effect g s g' s' \<Longrightarrow> ri_gamepads s' = ri_gamepads s"
  by (simp add: pad_effect_def router_core_def)

text \<open>What holds of the tables when gamepad \<open>g\<close> has become \<open>g'\<close> and is not stored yet.\<close>

lemma split_gamepad:
  assumes "FindGamepadLocked i s = Some g" "tables_ok s"
  obtains gs1 gs2 where "ri_gamepads s = gs1 @ g # gs2" "gp_instance_id g = i"
    "\<And>f. update_first (\<lambda>h. gp_instance_id h = i) f (ri_gamepads s) = gs1 @ f g # gs2"
    "erase_first (\<lambda>h. gp_instance_id h = i) (ri_gamepads s) = gs1 @ gs2"
proof -
  have upd: "update_first P f (gs1 @ g # gs2) = gs1 @ f g # gs2" "erase_first P (gs1 @ g # gs2) = gs1 @ gs2"
    if "\<forall>h\<in>set gs1. \<not> P h" "P g" for P f gs1 and gs2 :: "ActiveGamepad list"
    using that by (induction gs1) auto
  have "distinct (map gp_instance_id (ri_gamepads s))" using assms(2) by (simp add: tables_ok_def gamepads_ok_def)
  moreover have g: "g \<in> set (ri_gamepads s)" "gp_instance_id g = i"
    using assms(1) by (auto simp: FindGamepadLocked_def dest: find_Some_iff_mem)
  moreover obtain gs1 gs2 where s: "ri_gamepads s = gs1 @ g # gs2" using g(1) by (metis split_list)
  ultimately have "\<forall>h\<in>set gs1. gp_instance_id h \<noteq> i" by (auto simp: image_iff)
  then show thesis using that s g(2) upd by simp
qed

lemma gamepad_replaced_ok:
  assumes ok: "tables_ok s" and s: "ri_gamepads s = gs1 @ g # gs2" and e: "pad_effect g s g' s'"
    and f: "sn_focused (ri_snapshot s)"
  shows "tables_ok (s'\<lparr>ri_gamepads := gs1 @ g' # gs2\<rparr>)"
proof -
  have "connected_count s' = connected_count s - of_bool (gp_connected g) + of_bool (gp_connected g')"
    using e by (simp add: pad_effect_def algebra_simps)
  then show ?thesis
    using ok s e f
    by (simp add: tables_ok_def table_defs pad_effect_def router_core_def pad_id_def split: if_splits)
qed

lemma device_id_from_fresh:
  "device_id_from used start = Some d \<Longrightarrow> start \<ge> 1 \<Longrightarrow> d \<ge> 1 \<and> d \<notin> set used"
proof (induction used start rule: device_id_from.induct)
  case (1 used start)
  then show ?case by (subst (asm) (2) device_id_from.simps) (auto split: if_splits)
qed

lemma push_gamepad_ok:
  assumes "tables_ok s" "sn_active (ri_snapshot s)" "is_gamepad (ri_sink s)" "FindGamepadLocked (gc_instance_id event) s = None"
    "device_id_from (map gp_device_id (ri_gamepads s)) 1 = Some d"
  shows "tables_ok (push_gamepad (ActiveGamepad_new event d) s)"
  using assms(1-4) device_id_from_fresh [OF assms(5)]
  by (auto simp: push_gamepad_def ActiveGamepad_new_def Let_def tables_ok_def table_defs FindGamepadLocked_def
      find_None_iff pad_ok_def)

lemma detach_gamepad_ok:
  assumes ok: "tables_ok s" and f: "FindGamepadLocked i s = Some g" and d: "detach_gamepad env g s = (st, s1)"
  shows "tables_ok s1 \<and> FindGamepadLocked i s1 = None \<and> sn_active (ri_snapshot s1) = sn_active (ri_snapshot s) \<and>
    ri_sink s1 = ri_sink s"
proof -
  obtain gs1 gs2 where s: "ri_gamepads s = gs1 @ g # gs2" "gp_instance_id g = i"
    "erase_first (\<lambda>h. gp_instance_id h = i) (ri_gamepads s) = gs1 @ gs2"
    using split_gamepad [OF f ok] by metis
  obtain st' g' s' where c: "DisconnectGamepadLocked env g s = (st', g', s')" by (metis prod_cases3)
  note e = DisconnectGamepadLocked_effect [OF c]
  have s1: "s1 = upd_snapshot (\<lambda>sn. sn\<lparr>sn_detected_gamepads := of_nat (length (gs1 @ gs2))\<rparr>) (s'\<lparr>ri_gamepads := gs1 @ gs2\<rparr>)"
    using d c s pad_effect_gamepads [OF conjunct1 [OF e]] by (auto simp: detach_gamepad_def Let_def)
  have n: "connected_count s' = connected_count s - of_bool (gp_connected g)"
    using e by (simp add: pad_effect_def algebra_simps)
  have "tables_ok s1"
    using ok s(1) e n unfolding s1 by (auto simp: tables_ok_def table_defs pad_effect_def router_core_def pad_id_def)
  moreover have "FindGamepadLocked i s1 = None"
    using ok s unfolding s1 by (auto simp: FindGamepadLocked_def find_None_iff tables_ok_def gamepads_ok_def image_iff)
  ultimately show ?thesis using e unfolding s1 by (simp add: pad_effect_def router_core_def)
qed

lemma store_gamepad_ok:
  assumes "tables_ok s" "FindGamepadLocked i s = Some g" "pad_effect g s g' s'" "sn_focused (ri_snapshot s)"
  shows "tables_ok (store_gamepad g' s')"
proof -
  obtain gs1 gs2 where s: "ri_gamepads s = gs1 @ g # gs2" "gp_instance_id g = i"
    "\<And>f. update_first (\<lambda>h. gp_instance_id h = i) f (ri_gamepads s) = gs1 @ f g # gs2"
    using split_gamepad [OF assms(2,1)] by metis
  have "gp_instance_id g' = i" using assms(3) s(2) by (simp add: pad_effect_def pad_id_def)
  then have "store_gamepad g' s' = s'\<lparr>ri_gamepads := gs1 @ g' # gs2\<rparr>"
    using s(3) by (simp add: store_gamepad_def pad_effect_gamepads [OF assms(3)])
  then show ?thesis using gamepad_replaced_ok [OF assms(1) s(1) assms(3,4)] by simp
qed

lemma raw_axes_effect: "pad_effect g s (g\<lparr>gp_raw_axes := (gp_raw_axes g)[axis := v]\<rparr>) s"
  by (simp add: pad_effect_def pad_id_def pad_ok_def)

lemma HandleGamepadAxisLocked_ok:
  assumes "tables_ok s"
  shows "tables_ok (snd (HandleGamepadAxisLocked env i axis v s))"
proof (cases "FindGamepadLocked i s")
  case (Some g)
  obtain st d g' s' where c: "DispatchGamepadAxesLocked env axis (g\<lparr>gp_raw_axes := (gp_raw_axes g)[axis := v]\<rparr>) s = (st, d, g', s')"
    by (metis prod_cases4)
  have "tables_ok (store_gamepad g' s')" if "sn_focused (ri_snapshot s)"
    using raw_axes_effect DispatchGamepadAxesLocked_effect [OF c] that
    by (intro store_gamepad_ok [OF assms Some]) (blast intro: pad_effect_trans)+
  then show ?thesis using assms Some c by (simp add: HandleGamepadAxisLocked_def Let_def)
qed (use assms in \<open>simp add: HandleGamepadAxisLocked_def\<close>)

lemma HandleGamepadButtonLocked_ok:
  assumes "tables_ok s"
  shows "tables_ok (snd (HandleGamepadButtonLocked env i button pressed s))"
proof (cases "FindGamepadLocked i s")
  case (Some g)
  obtain st1 g1 s1 where c: "ConnectGamepadLocked env g s = (st1, g1, s1)" by (metis prod_cases3)
  note e = ConnectGamepadLocked_effect [OF c]
  define key where "key = MapSdlGamepadButtonToAndroid (ie_sdl env) button"
  obtain st2 s2 where b: "(if status_ok st1 then sink_call env (CButton (gp_device_id g1) key pressed) s1 else (st1, s1)) = (st2, s2)"
    by (metis surj_pair)
  have q: "pad_effect g s g1 s2" "status_ok st2 \<Longrightarrow> gp_connected g1"
    using b e by (auto split: if_splits intro: pad_effect_trans pad_effect_quiet quiet_sink_call)
  have "pad_effect g s (if status_ok st2 then g1\<lparr>gp_pressed_buttons := bits\<rparr> else g1) s2" for bits
    using q by (auto simp: pad_effect_def pad_id_def pad_ok_def)
  then have "tables_ok (store_gamepad (if status_ok st2 then g1\<lparr>gp_pressed_buttons := bits\<rparr> else g1) s2)"
    if "sn_focused (ri_snapshot s)" for bits
    using that by (rule store_gamepad_ok [OF assms Some])
  note this [of "if pressed then gp_pressed_buttons g1 OR push_bit button 1 else gp_pressed_buttons g1 AND NOT (push_bit button 1)"]
  then show ?thesis using assms Some c b
    by (cases pressed; cases "status_ok st1"; cases "status_ok st2") (simp_all add: HandleGamepadButtonLocked_def Let_def flip: key_def)
qed (use assms in \<open>simp add: HandleGamepadButtonLocked_def\<close>)

lemma connection_result_ok [simp]: "tables_ok (snd (connection_result st s)) \<longleftrightarrow> tables_ok s"
  by (simp add: connection_result_def)

lemma HandleGamepadConnectionLocked_ok:
  assumes ok: "tables_ok s" and act: "sn_active (ri_snapshot s)"
  shows "tables_ok (snd (HandleGamepadConnectionLocked env event s))"
proof -
  obtain st s1 where c: "(case FindGamepadLocked (gc_instance_id event) s of None \<Rightarrow> (Status_Ok, s)
      | Some g \<Rightarrow> detach_gamepad env g s) = (st, s1)" by (metis surj_pair)
  have "tables_ok s1 \<and> FindGamepadLocked (gc_instance_id event) s1 = None \<and> sn_active (ri_snapshot s1) \<and> ri_sink s1 = ri_sink s"
  proof (cases "FindGamepadLocked (gc_instance_id event) s")
    case None
    then show ?thesis using c ok act by simp
  next
    case (Some g)
    then show ?thesis using c act detach_gamepad_ok [OF ok Some, of env st s1] by simp
  qed
  then show ?thesis
    using ok c by (auto simp: HandleGamepadConnectionLocked_def Let_def split: option.splits intro: push_gamepad_ok)
qed

subsection \<open>Letting go\<close>

text \<open>Gamepads are released in place: the list changes element by element.\<close>

definition pads_effect where
  "pads_effect gs s gs' s' \<longleftrightarrow>
     router_core s' = router_core s \<and> map pad_id gs' = map pad_id gs \<and> (\<forall>g\<in>set gs'. gp_pressed_buttons g = 0) \<and>
     map gp_connected gs' = map gp_connected gs \<and> connected_count s' = connected_count s \<and>
     ((\<forall>g\<in>set gs. pad_ok g) \<longrightarrow> (\<forall>g\<in>set gs'. pad_ok g))"

lemma release_gamepads_effect: "release_gamepads env gs e s = (st, gs', s') \<Longrightarrow> pads_effect gs s gs' s'"
proof (induction gs arbitrary: e s gs')
  case (Cons g gs)
  obtain st1 g1 s1 where r: "ReleaseGamepadInputsLocked env g s = (st1, g1, s1)" by (metis prod_cases3)
  obtain st2 gs2 s2 where rs: "release_gamepads env gs (KeepFirstError st1 e) s1 = (st2, gs2, s2)" by (metis prod_cases3)
  have eq: "gs' = g1 # gs2" "s' = s2" "st = st2" using Cons.prems r rs by simp_all
  show ?case
    using Cons.IH [OF rs [folded eq]] ReleaseGamepadInputsLocked_effect [OF r] unfolding eq(1)
    by (auto simp: pads_effect_def pad_effect_def)
qed (simp add: pads_effect_def)

lemma quiet_release_calls: "release_calls env kind cs e s = (st, s') \<Longrightarrow> quiet s s'"
proof (induction cs arbitrary: e s)
  case (Cons c cs)
  obtain st1 s1 where c: "sink_call env c s = (st1, s1)" by (metis surj_pair)
  note q = quiet_sink_call [OF c]
  show ?case
  proof (cases "status_ok st1")
    case True
    then have "quiet (upd_snapshot (count_event kind) s1) s'" using Cons.prems c by (intro Cons.IH) simp
    moreover have "quiet s (upd_snapshot (count_event kind) s1)" using q by simp
    ultimately show ?thesis by (rule quiet_trans [rotated])
  next
    case False
    then have "quiet s1 s'" using Cons.prems c by (intro Cons.IH) simp
    with q show ?thesis by (rule quiet_trans)
  qed
qed simp

lemma length_filter_map_eq:
  "map f xs = map f ys \<Longrightarrow> length (filter f xs) = length (filter f ys)"
proof -
  have "length (filter f zs) = length (filter id (map f zs))" for zs by (simp add: filter_map)
  then show "map f xs = map f ys \<Longrightarrow> length (filter f xs) = length (filter f ys)" by metis
qed

definition mouse_releases :: "RobloxInputRouter \<Rightarrow> InputCall list" where
  "mouse_releases s = (if is_mouse_button (ri_sink s)
     then map (\<lambda>b. CMouseButton (ri_mouse_x s) (ri_mouse_y s) False b) (ri_mouse_buttons s) else [])"

definition touch_releases :: "FloatEnv \<Rightarrow> RobloxInputRouter \<Rightarrow> InputCall list" where
  "touch_releases fe s = (if is_touch (ri_sink s)
     then map (\<lambda>t. CTouch (at_pointer_id t) (at_x t) (at_y t) kAndroidTouchUp
       (rounded_guest_width fe (sn_viewport (ri_snapshot s))) (rounded_guest_height fe (sn_viewport (ri_snapshot s)))) (ri_touches s)
     else [])"

definition key_releases :: "RobloxInputRouter \<Rightarrow> InputCall list" where
  "key_releases s = (if is_key (ri_sink s)
     then map (\<lambda>k. CKey False (km_scan_code (ak_android k)) (km_key_code (ak_android k)) False) (ri_keys s) else [])"

text \<open>The four phases in sequence, and what they leave.\<close>

lemma ReleasePressedInputsLocked_phases:
  assumes "ReleasePressedInputsLocked env s = (st, s')"
  obtains e1 gs s1 e2 s2 e3 s3 s4 where
    "release_gamepads env (ri_gamepads s) Status_Ok s = (e1, gs, s1)"
    "release_calls env KMouseButton (mouse_releases s) e1 (s1\<lparr>ri_gamepads := gs\<rparr>) = (e2, s2)"
    "release_calls env KTouch (touch_releases (ie_float env) s) e2 (s2\<lparr>ri_mouse_buttons := []\<rparr>) = (e3, s3)"
    "release_calls env KKeyboard (key_releases s) e3 (s3\<lparr>ri_touches := []\<rparr>) = (st, s4)"
    "s' = upd_snapshot (\<lambda>sn. sn\<lparr>sn_active_mouse_buttons := 0, sn_active_touches := 0, sn_active_keys := 0\<rparr>) (s4\<lparr>ri_keys := []\<rparr>)"
    "pads_effect (ri_gamepads s) s gs s1"
    "quiet (s\<lparr>ri_gamepads := gs, ri_mouse_buttons := [], ri_touches := []\<rparr>) s4"
proof -
  obtain e1 gs s1 where p1: "release_gamepads env (ri_gamepads s) Status_Ok s = (e1, gs, s1)" by (metis prod_cases3)
  note pe = release_gamepads_effect [OF p1]
  obtain e2 s2 where p2: "release_calls env KMouseButton (mouse_releases s) e1 (s1\<lparr>ri_gamepads := gs\<rparr>) = (e2, s2)" by (metis surj_pair)
  have q2: "quiet (s\<lparr>ri_gamepads := gs\<rparr>) s2"
    using pe quiet_release_calls [OF p2] by (simp add: pads_effect_def quiet_def router_core_def)
  obtain e3 s3 where p3: "release_calls env KTouch (touch_releases (ie_float env) s) e2 (s2\<lparr>ri_mouse_buttons := []\<rparr>) = (e3, s3)"
    by (metis surj_pair)
  have q3: "quiet (s\<lparr>ri_gamepads := gs, ri_mouse_buttons := []\<rparr>) s3"
    using q2 quiet_release_calls [OF p3] by (simp add: quiet_def router_core_def)
  obtain e4 s4 where p4: "release_calls env KKeyboard (key_releases s) e3 (s3\<lparr>ri_touches := []\<rparr>) = (e4, s4)"
    by (metis surj_pair)
  have q4: "quiet (s\<lparr>ri_gamepads := gs, ri_mouse_buttons := [], ri_touches := []\<rparr>) s4"
    using q3 quiet_release_calls [OF p4] by (simp add: quiet_def router_core_def)
  have r: "mouse_releases (s1\<lparr>ri_gamepads := gs\<rparr>) = mouse_releases s"
    "touch_releases (ie_float env) (s2\<lparr>ri_mouse_buttons := []\<rparr>) = touch_releases (ie_float env) s"
    "key_releases (s3\<lparr>ri_touches := []\<rparr>) = key_releases s"
    using pe q2 q3
    by (simp_all add: mouse_releases_def touch_releases_def key_releases_def pads_effect_def quiet_def router_core_def)
  have "ReleasePressedInputsLocked env s =
      (e4, upd_snapshot (\<lambda>sn. sn\<lparr>sn_active_mouse_buttons := 0, sn_active_touches := 0, sn_active_keys := 0\<rparr>) (s4\<lparr>ri_keys := []\<rparr>))"
    using p1 p2 p3 p4 unfolding r [symmetric]
    by (simp add: ReleasePressedInputsLocked_def Let_def mouse_releases_def touch_releases_def key_releases_def)
  with assms show thesis using that p1 p2 p3 p4 pe q4 by simp
qed

lemma ReleasePressedInputsLocked_effect:
  assumes r: "ReleasePressedInputsLocked env s = (st, s')" and ok: "tables_ok s"
  shows "tables_ok s' \<and> ri_mouse_buttons s' = [] \<and> ri_touches s' = [] \<and> ri_keys s' = [] \<and>
    (\<forall>g\<in>set (ri_gamepads s'). gp_pressed_buttons g = 0) \<and>
    sn_active (ri_snapshot s') = sn_active (ri_snapshot s) \<and> ri_text_editor s' = ri_text_editor s \<and> ri_sink s' = ri_sink s"
proof -
  obtain e1 gs s1 e2 s2 e3 s3 s4 where
    s': "s' = upd_snapshot (\<lambda>sn. sn\<lparr>sn_active_mouse_buttons := 0, sn_active_touches := 0, sn_active_keys := 0\<rparr>) (s4\<lparr>ri_keys := []\<rparr>)"
    and pe: "pads_effect (ri_gamepads s) s gs s1"
    and q: "quiet (s\<lparr>ri_gamepads := gs, ri_mouse_buttons := [], ri_touches := []\<rparr>) s4"
    using ReleasePressedInputsLocked_phases [OF r] by metis
  have m: "map gp_instance_id gs = map gp_instance_id (ri_gamepads s)" "map gp_device_id gs = map gp_device_id (ri_gamepads s)"
    using pe map_map [of fst pad_id] map_map [of "fst \<circ> snd" pad_id]
    by (auto simp: pads_effect_def pad_id_def map_eq_conv o_def dest: arg_cong [where f = "map fst"] arg_cong [where f = "map (fst \<circ> snd)"])
  have "length (filter gp_connected gs) = length (filter gp_connected (ri_gamepads s))" "length gs = length (ri_gamepads s)"
    "gs = [] \<longleftrightarrow> ri_gamepads s = []"
    using pe by (auto simp: pads_effect_def dest: length_filter_map_eq map_eq_imp_length_eq)
  then show ?thesis
    using pe q ok m unfolding s' by (auto simp: tables_ok_def table_defs pads_effect_def quiet_def router_core_def)
qed

lemma disconnect_all_effect:
  assumes "disconnect_all env gs e s = (st, s')"
  shows "router_core s' = router_core s \<and> connected_count s' = connected_count s - of_nat (length (filter gp_connected gs))"
  using assms
proof (induction gs arbitrary: e s)
  case (Cons g gs)
  obtain st1 g1 s1 where d: "DisconnectGamepadLocked env g s = (st1, g1, s1)" by (metis prod_cases3)
  have "router_core s' = router_core s1 \<and> connected_count s' = connected_count s1 - of_nat (length (filter gp_connected gs))"
    using Cons.prems d by (intro Cons.IH) simp
  then show ?case using DisconnectGamepadLocked_effect [OF d] by (auto simp: pad_effect_def algebra_simps)
qed simp

lemma DisconnectGamepadsLocked_effect:
  assumes "DisconnectGamepadsLocked env s = (st, s')" and ok: "tables_ok s"
  shows "tables_ok s' \<and> ri_gamepads s' = [] \<and> ri_mouse_buttons s' = ri_mouse_buttons s \<and> ri_touches s' = ri_touches s \<and>
    ri_keys s' = ri_keys s \<and> ri_text_editor s' = ri_text_editor s \<and> sn_active (ri_snapshot s') = sn_active (ri_snapshot s)"
proof -
  obtain st1 s1 where d: "disconnect_all env (ri_gamepads s) Status_Ok s = (st1, s1)" by (metis surj_pair)
  have s': "s' = upd_snapshot (\<lambda>sn. sn\<lparr>sn_detected_gamepads := 0\<rparr>) (s1\<lparr>ri_gamepads := []\<rparr>)"
    using assms(1) d by (simp add: DisconnectGamepadsLocked_def)
  have "connected_count s1 = 0" "router_core s1 = router_core s"
    using disconnect_all_effect [OF d] ok by (simp_all add: tables_ok_def gamepads_ok_def)
  then show ?thesis
    using ok unfolding s' by (auto simp: tables_ok_def table_defs router_core_def)
qed

lemma end_text_same:
  "end_text n status s = (st, s') \<Longrightarrow> \<exists>e. s' = s\<lparr>ri_text_editor := e\<rparr>"
  by (auto simp: end_text_def Let_def split: if_splits prod.splits intro: exI [of _ "ri_text_editor s"])

lemma Activate_router_ok: "tables_ok s \<Longrightarrow> tables_ok (snd (Activate_router v f s))"
proof -
  have "tables_ok (s\<lparr>ri_snapshot := RobloxInputSnapshot_default\<lparr>sn_active := True, sn_focused := f, sn_viewport := v\<rparr>,
      ri_mouse_buttons := [], ri_touches := [], ri_keys := [], ri_gamepads := [], ri_mouse_x := FNum 0, ri_mouse_y := FNum 0\<rparr>)"
    by (simp add: tables_ok_def table_defs RobloxInputSnapshot_default_def)
  then show "tables_ok s \<Longrightarrow> tables_ok (snd (Activate_router v f s))" by (simp add: Activate_router_def)
qed

lemma Deactivate_router_ok:
  assumes ok: "tables_ok s"
  shows "tables_ok (snd (Deactivate_router env n s)) \<and> \<not> sn_active (ri_snapshot (snd (Deactivate_router env n s)))"
proof (cases "sn_active (ri_snapshot s)")
  case True
  obtain st1 s1 where r: "ReleasePressedInputsLocked env s = (st1, s1)" by (metis surj_pair)
  note e1 = ReleasePressedInputsLocked_effect [OF r ok]
  obtain st2 s2 where d: "DisconnectGamepadsLocked env s1 = (st2, s2)" by (metis surj_pair)
  note e2 = DisconnectGamepadsLocked_effect [OF d conjunct1 [OF e1]]
  obtain st3 s3 where t: "end_text n (if status_ok st1 then st2 else st1) s2 = (st3, s3)" by (metis surj_pair)
  obtain e where s3: "s3 = s2\<lparr>ri_text_editor := e\<rparr>" using end_text_same [OF t] by blast
  have "snd (Deactivate_router env n s) = upd_snapshot (\<lambda>sn. sn\<lparr>sn_active := False, sn_focused := False,
      sn_active_mouse_buttons := 0, sn_active_touches := 0, sn_active_keys := 0\<rparr>) s3"
    using True r d t by (simp add: Deactivate_router_def)
  then show ?thesis using e1 e2 s3 by (simp add: tables_ok_def table_defs)
qed (use ok in \<open>simp add: Deactivate_router_def\<close>)

lemma focus_event_ok:
  assumes ok: "tables_ok s"
  shows "tables_ok (snd (focus_event env n f s))"
proof (cases "\<not> f \<and> sn_focused (ri_snapshot s)")
  case True
  obtain st1 s1 where r: "ReleasePressedInputsLocked env s = (st1, s1)" by (metis surj_pair)
  note e1 = ReleasePressedInputsLocked_effect [OF r ok]
  obtain st3 s3 where t: "end_text n st1 s1 = (st3, s3)" by (metis surj_pair)
  obtain e where s3: "s3 = s1\<lparr>ri_text_editor := e\<rparr>" using end_text_same [OF t] by blast
  have "tables_ok (snd (focus_event env n f s)) \<longleftrightarrow> tables_ok (upd_snapshot (\<lambda>sn. sn\<lparr>sn_focused := False\<rparr>) s3)"
    using True r t by (simp add: focus_event_def Let_def) (simp add: tables_ok_def table_defs)
  also have "\<dots>" using e1 unfolding s3 by (auto simp: tables_ok_def table_defs)
  finally show ?thesis .
next
  case False
  have "tables_ok (upd_snapshot (\<lambda>sn. sn\<lparr>sn_focused := f\<rparr>) s)"
    using ok False by (cases f) (auto simp: tables_ok_def table_defs)
  then show ?thesis using False by (auto simp: focus_event_def)
qed

lemma HandleEvent_ok:
  assumes "tables_ok s"
  shows "tables_ok (snd (HandleEvent env n event s))"
proof (cases "sn_active (ri_snapshot s)")
  case True
  then have "live_input (take_focus s)" by (simp add: take_focus_def)
  then show ?thesis
    using True assms tables_ok_take_focus [OF assms]
    by (cases event)
      (simp_all add: HandleEvent_def focus_event_ok HandleGamepadConnectionLocked_ok HandleGamepadButtonLocked_ok
        HandleGamepadAxisLocked_ok HandleMouseMotionLocked_ok HandleMouseButtonLocked_ok HandleMouseWheelLocked_ok
        HandleTouchLocked_ok key_event_ok text_event_ok tables_ok_count)
qed (use assms in \<open>simp add: HandleEvent_def\<close>)

lemma router_step_ok: "tables_ok s \<Longrightarrow> tables_ok (router_step env s x)"
  by (cases "(env, s, x)" rule: router_step.cases)
    (simp_all add: Activate_router_ok Deactivate_router_ok HandleEvent_ok BeginTextFocusSession_def on_editor_def
      split: prod.splits)

interpretation router: guarded_component "router_step env" tables_ok
  by unfold_locales (rule router_step_ok)

section \<open>What the game sees\<close>

text \<open>
  The inputs the game regards as held down and the gamepads it regards as connected, after the calls it was
  given; a call that failed has no effect.
\<close>

record GameView =
  gv_buttons :: "int set"
  gv_pointers :: "int set"
  gv_keys :: "(int \<times> int) set"
  gv_pads :: "(int \<times> int) set"
  gv_connected :: "int set"

definition hold :: "bool \<Rightarrow> 'a \<Rightarrow> 'a set \<Rightarrow> 'a set" where
  "hold pressed x A = (if pressed then insert x A else A - {x})"

fun game_call :: "GameView \<Rightarrow> InputCall \<Rightarrow> GameView" where
  "game_call v (CMouseButton x y pressed b) = v\<lparr>gv_buttons := hold pressed b (gv_buttons v)\<rparr>"
| "game_call v (CTouch p x y action w h) =
     (if action = kAndroidTouchMove then v else v\<lparr>gv_pointers := hold (action = kAndroidTouchDown) p (gv_pointers v)\<rparr>)"
| "game_call v (CKey pressed scan key rep) = v\<lparr>gv_keys := hold pressed (scan, key) (gv_keys v)\<rparr>"
| "game_call v (CButton dev key pressed) = v\<lparr>gv_pads := hold pressed (dev, key) (gv_pads v)\<rparr>"
| "game_call v (CConnect dev type) = v\<lparr>gv_connected := insert dev (gv_connected v)\<rparr>"
| "game_call v (CDisconnect dev) = v\<lparr>gv_connected := gv_connected v - {dev}\<rparr>"
| "game_call v _ = v"

definition game_step :: "GameView \<Rightarrow> InputCall \<times> Status \<Rightarrow> GameView" where
  "game_step v c = (if status_ok (snd c) then game_call v (fst c) else v)"

definition nothing_held :: GameView where
  "nothing_held = \<lparr>gv_buttons = {}, gv_pointers = {}, gv_keys = {}, gv_pads = {}, gv_connected = {}\<rparr>"

definition game :: "RobloxInputRouter \<Rightarrow> GameView" where
  "game s = foldl game_step nothing_held (ri_calls s)"

lemma game_same [simp]:
  "game (s\<lparr>ri_snapshot := sn\<rparr>) = game s" "game (s\<lparr>ri_gamepads := gs\<rparr>) = game s" "game (s\<lparr>ri_mouse_buttons := bs\<rparr>) = game s"
  "game (s\<lparr>ri_touches := ts\<rparr>) = game s" "game (s\<lparr>ri_keys := ks\<rparr>) = game s" "game (s\<lparr>ri_text_editor := e\<rparr>) = game s"
  "game (s\<lparr>ri_mouse_x := x\<rparr>) = game s" "game (s\<lparr>ri_mouse_y := y\<rparr>) = game s"
  by (simp_all add: game_def)

lemma game_more_same [simp]:
  "game (s\<lparr>ri_gamepads := gs, ri_snapshot := sn\<rparr>) = game s" "game (s\<lparr>ri_mouse_buttons := bs, ri_snapshot := sn\<rparr>) = game s"
  "game (s\<lparr>ri_touches := ts, ri_snapshot := sn\<rparr>) = game s" "game (s\<lparr>ri_keys := ks, ri_snapshot := sn\<rparr>) = game s"
  "game (s\<lparr>ri_mouse_x := x, ri_mouse_y := y\<rparr>) = game s" "game (s\<lparr>ri_text_editor := e, ri_snapshot := sn\<rparr>) = game s"
  by (simp_all add: game_def)

definition succeeding :: "InputEnv \<Rightarrow> bool" where
  "succeeding env \<longleftrightarrow> (\<forall>n. status_ok (ie_native env n))"

lemma game_sink_call:
  "succeeding env \<Longrightarrow> sink_call env c s = (st, s') \<Longrightarrow> status_ok st \<and> game s' = game_call (game s) c"
  by (auto simp: sink_call_def Let_def game_def game_step_def succeeding_def)

lemma KeepFirstError_ok [simp]: "status_ok (KeepFirstError st e) \<longleftrightarrow> status_ok e \<and> status_ok st"
  by (simp add: KeepFirstError_def)

lemma game_call_all:
  assumes "succeeding env" "\<And>c v. c \<in> set cs \<Longrightarrow> game_call v c = v" "call_all env cs e s = (st, s')" "status_ok e"
  shows "status_ok st \<and> game s' = game s"
  using assms(2-4)
proof (induction cs arbitrary: e s)
  case (Cons c cs)
  obtain st1 s1 where c: "sink_call env c s = (st1, s1)" by (metis surj_pair)
  note g = game_sink_call [OF assms(1) c]
  have "status_ok st \<and> game s' = game s1"
    using Cons.prems g c by (intro Cons.IH [where e = "KeepFirstError st1 e"]) auto
  then show ?case using g Cons.prems(1) by simp
qed simp

lemma game_ConfigureGamepadLocked:
  assumes "succeeding env" "ConfigureGamepadLocked env g available s = (st, s')"
  shows "status_ok st \<and> game s' = game s"
  by (rule game_call_all [OF assms(1) _ assms(2) [unfolded ConfigureGamepadLocked_def Let_def]]) auto

definition joins :: "ActiveGamepad \<Rightarrow> ActiveGamepad \<Rightarrow> GameView \<Rightarrow> GameView" where
  "joins g g' v = (if gp_connected g' \<and> \<not> gp_connected g
     then v\<lparr>gv_connected := insert (gp_device_id g) (gv_connected v)\<rparr> else v)"

lemma game_ConnectGamepadLocked:
  assumes ok: "succeeding env" and c: "ConnectGamepadLocked env g s = (st, g', s')"
  shows "status_ok st \<and> gp_connected g' \<and> game s' = joins g g' (game s)"
proof (cases "gp_connected g")
  case False
  obtain st1 s1 where c1: "ConfigureGamepadLocked env g True s = (st1, s1)" by (metis surj_pair)
  obtain st2 s2 where c2: "sink_call env (CConnect (gp_device_id g) (RobloxGamepadType (gd_family (gp_descriptor g)))) s1 = (st2, s2)"
    by (metis surj_pair)
  show ?thesis
    using c c1 c2 False game_ConfigureGamepadLocked [OF ok c1] game_sink_call [OF ok c2]
    by (auto simp: ConnectGamepadLocked_def joins_def)
qed (use c in \<open>auto simp: ConnectGamepadLocked_def joins_def\<close>)

lemma game_dispatch_axes:
  assumes ok: "succeeding env" and "dispatch_axes env g vx vy vz is d s = (st, d', s')"
  shows "status_ok st \<and> game s' = game s"
  using assms(2)
proof (induction "is" arbitrary: d s)
  case (Cons i rest)
  obtain st1 s1 where c: "sink_call env (CAxis (gp_device_id g) (kAndroidAxes ! i) vx vy vz) s = (st1, s1)" by (metis surj_pair)
  show ?case
    using Cons.prems Cons.IH c game_sink_call [OF ok c]
    by (cases "Has (gd_axes (gp_descriptor g)) i") auto
qed simp

lemma game_DispatchGamepadAxesLocked:
  assumes ok: "succeeding env" and "DispatchGamepadAxesLocked env axis g s = (st, d, g', s')"
  shows "status_ok st \<and> game s' = joins g g' (game s)"
proof -
  obtain st1 g1 s1 where c: "ConnectGamepadLocked env g s = (st1, g1, s1)" by (metis prod_cases3)
  have "joins g (g1\<lparr>gp_sent_axes := xs\<rparr>) v = joins g g1 v" for xs v by (simp add: joins_def)
  then show ?thesis
    using assms(2) c game_ConnectGamepadLocked [OF ok c]
    by (auto simp: DispatchGamepadAxesLocked_def Let_def joins_def simp del: dispatch_axes.simps split: if_splits prod.splits
        dest!: game_dispatch_axes [OF ok])
qed

definition sdl_ok :: "SdlConstants \<Rightarrow> bool" where
  "sdl_ok sdl \<longleftrightarrow> inj (sdl_gamepad_button sdl) \<and> (\<forall>b. sdl_gamepad_button sdl b < 32)"

lemma MapSdlGamepadButton_of: "sdl_ok sdl \<Longrightarrow> MapSdlGamepadButtonToAndroid sdl (sdl_gamepad_button sdl b) = android_button b"
  by (cases b) (auto simp: MapSdlGamepadButtonToAndroid_def sdl_ok_def kButtons_def dest: injD)

lemma MapSdlGamepadButton_valid:
  "\<not> MapSdlGamepadButtonToAndroid sdl v < 0 \<Longrightarrow> \<exists>b. sdl_gamepad_button sdl b = v"
  by (auto simp: MapSdlGamepadButtonToAndroid_def split: option.splits dest: find_Some_iff_mem)

lemma inj_android_button: "android_button a = android_button b \<longleftrightarrow> a = b"
  by (cases a; cases b) simp_all

lemma all_kButtons: "b \<in> set kButtons"
  by (cases b) (simp_all add: kButtons_def)

text \<open>The buttons a gamepad's mask remembers, as the game knows them.\<close>

definition pad_held :: "SdlConstants \<Rightarrow> ActiveGamepad \<Rightarrow> (int \<times> int) set" where
  "pad_held sdl g = {(gp_device_id g, android_button b) | b. Has (gp_pressed_buttons g) (sdl_gamepad_button sdl b)}"

lemma game_release_buttons:
  assumes ok: "succeeding env" and sdl: "sdl_ok (ie_sdl env)" and "release_buttons env g bs e s = (st, s')" "status_ok e"
  shows "status_ok st \<and> game s' = (game s)\<lparr>gv_pads := gv_pads (game s) -
    {(gp_device_id g, android_button b) | b. b \<in> set bs \<and> Has (gp_pressed_buttons g) (sdl_gamepad_button (ie_sdl env) b)}\<rparr>"
  using assms(3,4)
proof (induction bs arbitrary: e s)
  case (Cons b bs)
  let ?v = "sdl_gamepad_button (ie_sdl env) b"
  show ?case
  proof (cases "Has (gp_pressed_buttons g) ?v")
    case True
    obtain st1 s1 where c: "sink_call env (CButton (gp_device_id g) (android_button b) False) s = (st1, s1)" by (metis surj_pair)
    note gc = game_sink_call [OF ok c]
    let ?s2 = "upd_snapshot (\<lambda>sn. sn\<lparr>sn_gamepad_events := sn_gamepad_events sn + 1\<rparr>) s1"
    have "release_buttons env g bs (KeepFirstError st1 e) ?s2 = (st, s')"
      using Cons.prems True c gc by (simp add: Let_def MapSdlGamepadButton_of [OF sdl])
    from Cons.IH [OF this] show ?thesis
      using gc Cons.prems(2) True by (auto simp: hold_def intro!: arg_cong [where f = "\<lambda>A. gv_pads_update (\<lambda>_. A) (game s)"])
  next
    case False
    have "release_buttons env g bs e s = (st, s')" using Cons.prems False by (simp add: Let_def)
    from Cons.IH [OF this Cons.prems(2)] show ?thesis using False
      by (auto intro!: arg_cong [where f = "\<lambda>A. gv_pads_update (\<lambda>_. A) (game s)"])
  qed
qed simp

lemma game_release_axes:
  assumes ok: "succeeding env" and "release_axes env axes e g s = (st, g', s')" "status_ok e" "gp_connected g"
  shows "status_ok st \<and> game s' = game s"
  using assms(2-)
proof (induction axes arbitrary: e g s)
  case (Cons axis rest)
  obtain st1 d g1 s1 where c: "DispatchGamepadAxesLocked env axis g s = (st1, d, g1, s1)" by (metis prod_cases4)
  note gd = game_DispatchGamepadAxesLocked [OF ok c] and e = DispatchGamepadAxesLocked_effect [OF c]
  define s2 where "s2 = (if status_ok st1 \<and> d
     then upd_snapshot (\<lambda>sn. sn\<lparr>sn_gamepad_events := sn_gamepad_events sn + 1\<rparr>) s1 else s1)"
  have "game s2 = game s" using gd Cons.prems by (simp add: s2_def joins_def)
  moreover have "status_ok st \<and> game s' = game s2"
    using Cons.prems c gd e by (intro Cons.IH [where e = "KeepFirstError st1 e" and g = g1]) (simp_all add: Let_def s2_def)
  ultimately show ?case by simp
qed simp

lemma game_ReleaseGamepadInputsLocked:
  assumes ok: "succeeding env" and sdl: "sdl_ok (ie_sdl env)" and r: "ReleaseGamepadInputsLocked env g s = (st, g', s')"
    and p: "pad_ok g"
  shows "status_ok st \<and> game s' = (game s)\<lparr>gv_pads := gv_pads (game s) - pad_held (ie_sdl env) g\<rparr>"
proof (cases "gp_connected g")
  case True
  obtain st1 s1 where b: "release_buttons env g kButtons Status_Ok s = (st1, s1)" by (metis surj_pair)
  obtain st2 g2 s2 where a: "release_axes env [0, 2, 4, 5] st1 (g\<lparr>gp_raw_axes := replicate 6 0\<rparr>) s1 = (st2, g2, s2)"
    by (metis prod_cases3)
  have gb: "status_ok st1 \<and> game s1 = (game s)\<lparr>gv_pads := gv_pads (game s) - pad_held (ie_sdl env) g\<rparr>"
    using game_release_buttons [OF ok sdl b] by (simp add: pad_held_def all_kButtons)
  have "status_ok st2 \<and> game s2 = game s1" using game_release_axes [OF ok a] gb True by simp
  then show ?thesis using gb r True a b by (simp add: ReleaseGamepadInputsLocked_def)
next
  case False
  then have "gp_pressed_buttons g = 0" using p by (simp add: pad_ok_def)
  then have "pad_held (ie_sdl env) g = {}" by (simp add: pad_held_def Has_def)
  then show ?thesis using r False by (auto simp: ReleaseGamepadInputsLocked_def)
qed

lemma game_DisconnectGamepadLocked:
  assumes ok: "succeeding env" and sdl: "sdl_ok (ie_sdl env)" and r: "DisconnectGamepadLocked env g s = (st, g', s')" and p: "pad_ok g"
  shows "status_ok st \<and> game s' = (game s)\<lparr>gv_pads := gv_pads (game s) - pad_held (ie_sdl env) g,
    gv_connected := gv_connected (game s) - (if gp_connected g then {gp_device_id g} else {})\<rparr>"
proof -
  obtain st1 g1 s1 where c: "ReleaseGamepadInputsLocked env g s = (st1, g1, s1)" by (metis prod_cases3)
  note gr = game_ReleaseGamepadInputsLocked [OF ok sdl c p] and e = ReleaseGamepadInputsLocked_effect [OF c]
  obtain st2 s2 where c2: "ConfigureGamepadLocked env g1 False s1 = (st2, s2)" by (metis surj_pair)
  obtain st3 s3 where c3: "sink_call env (CDisconnect (gp_device_id g1)) s2 = (st3, s3)" by (metis surj_pair)
  show ?thesis
    using r c c2 c3 gr e game_ConfigureGamepadLocked [OF ok c2] game_sink_call [OF ok c3]
    by (auto simp: DisconnectGamepadLocked_def Let_def pad_effect_def pad_id_def)
qed

section \<open>The game follows the tables\<close>

definition pads_held :: "SdlConstants \<Rightarrow> ActiveGamepad list \<Rightarrow> (int \<times> int) set" where
  "pads_held sdl gs = \<Union> (pad_held sdl ` set gs)"

definition pads_connected :: "ActiveGamepad list \<Rightarrow> int set" where
  "pads_connected gs = gp_device_id ` {g \<in> set gs. gp_connected g}"

definition android_key :: "ActiveKey \<Rightarrow> int \<times> int" where
  "android_key k = (km_scan_code (ak_android k), km_key_code (ak_android k))"

text \<open>
  \<open>layout\<close> is the keyboard layout in force: the key code of each scan code. Every key the game sees as pressed is
  in the table, and every key of the table is pressed in the game, unless a second key shares its Android
  mapping: then the release of the one is taken by the game for the release of both.
\<close>

definition layout_key :: "SdlConstants \<Rightarrow> (u32 \<Rightarrow> u32) \<Rightarrow> u32 \<Rightarrow> AndroidKeyMapping" where
  "layout_key sdl layout scancode = MapSdlKeyToAndroid sdl scancode (layout scancode)"

definition unshared :: "SdlConstants \<Rightarrow> (u32 \<Rightarrow> u32) \<Rightarrow> ActiveKey \<Rightarrow> bool" where
  "unshared sdl layout k \<longleftrightarrow>
     (\<forall>sc. (km_scan_code (layout_key sdl layout sc), km_key_code (layout_key sdl layout sc)) = android_key k \<longrightarrow>
        sc = ak_sdl_scancode k)"

definition keys_follow :: "SdlConstants \<Rightarrow> (u32 \<Rightarrow> u32) \<Rightarrow> ActiveKey list \<Rightarrow> (int \<times> int) set \<Rightarrow> bool" where
  "keys_follow sdl layout ks held \<longleftrightarrow>
     held \<subseteq> android_key ` set ks \<and>
     (\<forall>k\<in>set ks. ak_android k = layout_key sdl layout (ak_sdl_scancode k)) \<and>
     (\<forall>k\<in>set ks. unshared sdl layout k \<longrightarrow> android_key k \<in> held)"

definition follows :: "SdlConstants \<Rightarrow> (u32 \<Rightarrow> u32) \<Rightarrow> RobloxInputRouter \<Rightarrow> bool" where
  "follows sdl layout s \<longleftrightarrow>
     gv_buttons (game s) = set (ri_mouse_buttons s) \<and>
     gv_pointers (game s) = at_pointer_id ` set (ri_touches s) \<and>
     keys_follow sdl layout (ri_keys s) (gv_keys (game s)) \<and>
     gv_pads (game s) = pads_held sdl (ri_gamepads s) \<and>
     gv_connected (game s) = pads_connected (ri_gamepads s)"

lemma keys_follow_Nil [simp]: "keys_follow sdl layout [] held \<longleftrightarrow> held = {}"
  by (simp add: keys_follow_def)

lemma follows_cong:
  assumes "game s' = game s" "ri_mouse_buttons s' = ri_mouse_buttons s" "ri_touches s' = ri_touches s" "ri_keys s' = ri_keys s"
    "ri_gamepads s' = ri_gamepads s"
  shows "follows sdl layout s' \<longleftrightarrow> follows sdl layout s"
  using assms by (simp add: follows_def)

lemma follows_snapshot [simp]: "follows sdl layout (s\<lparr>ri_snapshot := sn\<rparr>) \<longleftrightarrow> follows sdl layout s"
  by (rule follows_cong) simp_all

lemma follows_editor [simp]: "follows sdl layout (s\<lparr>ri_text_editor := e\<rparr>) \<longleftrightarrow> follows sdl layout s"
  "follows sdl layout (s\<lparr>ri_text_editor := e, ri_snapshot := sn\<rparr>) \<longleftrightarrow> follows sdl layout s"
  by (rule follows_cong; simp)+

lemma follows_pointer [simp]: "follows sdl layout (s\<lparr>ri_mouse_x := x, ri_mouse_y := y\<rparr>) \<longleftrightarrow> follows sdl layout s"
  by (rule follows_cong) simp_all

lemma follows_NativeResultLocked [simp]: "follows sdl layout (snd (NativeResultLocked st kind s)) \<longleftrightarrow> follows sdl layout s"
  by (simp add: NativeResultLocked_def)

lemma follows_take_focus [simp]: "follows sdl layout (take_focus s) \<longleftrightarrow> follows sdl layout s"
  by (simp add: take_focus_def)

lemma sink_call_tables:
  "sink_call env c s = (st, s') \<Longrightarrow> ri_mouse_buttons s' = ri_mouse_buttons s \<and> ri_touches s' = ri_touches s \<and>
     ri_keys s' = ri_keys s \<and> ri_gamepads s' = ri_gamepads s"
  by (auto simp: sink_call_def Let_def)

lemma follows_neutral_call:
  assumes "succeeding env" "sink_call env c s = (st, s')" "game_call (game s) c = game s"
  shows "follows sdl layout s' \<longleftrightarrow> follows sdl layout s"
  using game_sink_call [OF assms(1,2)] sink_call_tables [OF assms(2)] assms(3) by (intro follows_cong) simp_all

lemma HandleMouseMotionLocked_follows:
  "succeeding env \<Longrightarrow> follows sdl layout s \<Longrightarrow> follows sdl layout (snd (HandleMouseMotionLocked env m s))"
  by (auto simp: HandleMouseMotionLocked_def Let_def guest_limits_def follows_neutral_call split: prod.splits)

lemma HandleMouseWheelLocked_follows:
  "succeeding env \<Longrightarrow> follows sdl layout s \<Longrightarrow> follows sdl layout (snd (HandleMouseWheelLocked env m s))"
  by (auto simp: HandleMouseWheelLocked_def Let_def follows_neutral_call split: prod.splits)

lemma set_track_button:
  "distinct (ri_mouse_buttons s) \<Longrightarrow> set (ri_mouse_buttons (track_button pressed b s)) = hold pressed b (set (ri_mouse_buttons s))"
  using erase_first_eq_filter [of "\<lambda>x. x" "ri_mouse_buttons s" "\<lambda>x. x = b" b]
  by (auto simp: track_button_def Let_def hold_def)

lemma track_button_follows:
  assumes "succeeding env" "follows sdl layout s" "mouse_ok s" "sink_call env (CMouseButton x y pressed b) s = (st, s')"
  shows "follows sdl layout (track_button pressed b s')"
proof -
  have g: "game (track_button pressed b s') = (game s)\<lparr>gv_buttons := hold pressed b (gv_buttons (game s))\<rparr>"
    using game_sink_call [OF assms(1,4)] by (simp add: track_button_def Let_def)
  have "set (ri_mouse_buttons (track_button pressed b s')) = hold pressed b (set (ri_mouse_buttons s))"
    using set_track_button [of s'] assms(3) sink_call_tables [OF assms(4)] by (simp add: mouse_ok_def)
  then show ?thesis
    using assms(2) g sink_call_tables [OF assms(4)] by (simp add: follows_def) (simp add: track_button_def Let_def)
qed

lemma HandleMouseButtonLocked_follows:
  assumes "succeeding env" "tables_ok s" "follows sdl layout s"
  shows "follows sdl layout (snd (HandleMouseButtonLocked env m s))"
proof -
  have step: "follows sdl layout (snd (case sink_call env (CMouseButton x y pressed b) s2 of (st, s) \<Rightarrow>
      NativeResultLocked st KMouseButton (if status_ok st then track_button pressed b s else s)))"
    if "follows sdl layout s2" "mouse_ok s2" for x y pressed b s2
  proof -
    obtain st s' where c: "sink_call env (CMouseButton x y pressed b) s2 = (st, s')" by (metis surj_pair)
    show ?thesis using c game_sink_call [OF assms(1) c] track_button_follows [OF assms(1) that c] by simp
  qed
  have "mouse_ok s" "\<And>x y. mouse_ok (s\<lparr>ri_mouse_x := x, ri_mouse_y := y\<rparr>)"
    using assms(2) by (simp_all add: tables_ok_def mouse_ok_def)
  then show ?thesis
    using assms(3) by (simp add: HandleMouseButtonLocked_def Let_def guest_limits_def step)
qed

lemma pointers_track_touch:
  assumes ok: "touches_ok s" and "status_ok st"
    and t: "tv_action event \<noteq> TouchDown \<Longrightarrow> FindTouchIteratorLocked (tv_touch_id event) (tv_finger_id event) s = Some t \<and> p = at_pointer_id t"
  shows "at_pointer_id ` set (ri_touches (track_touch event st p x y s)) =
    (if tv_action event = TouchMove then id else hold (tv_action event = TouchDown) p) (at_pointer_id ` set (ri_touches s))"
proof -
  let ?sel = "same_touch (tv_touch_id event) (tv_finger_id event)"
  have m: "at_pointer_id ` set (update_first ?sel (\<lambda>t. t\<lparr>at_x := x, at_y := y\<rparr>) (ri_touches s)) = at_pointer_id ` set (ri_touches s)"
    by (simp flip: set_map)
  have "at_pointer_id ` set (erase_first ?sel (ri_touches s)) = at_pointer_id ` set (ri_touches s) - {p}"
    if "FindTouchIteratorLocked (tv_touch_id event) (tv_finger_id event) s = Some t" "p = at_pointer_id t"
  proof -
    have e: "erase_first ?sel (ri_touches s) = filter (\<lambda>u. \<not> ?sel u) (ri_touches s)"
      using ok by (intro erase_first_eq_filter [where f = "\<lambda>t. (at_touch_id t, at_finger_id t)" and k = "(tv_touch_id event, tv_finger_id event)"])
        (auto simp: touches_ok_def same_touch_def)
    have tin: "t \<in> set (ri_touches s)" "?sel t"
      using that by (auto simp: FindTouchIteratorLocked_def dest: find_Some_iff_mem)
    have "?sel u \<longleftrightarrow> at_pointer_id u = p" if "u \<in> set (ri_touches s)" for u
      using ok tin that \<open>p = at_pointer_id t\<close>
      by (auto simp: touches_ok_def distinct_map inj_on_def same_touch_def)
    then show ?thesis using e by auto
  qed
  then show ?thesis using t m assms(2)
    by (cases "tv_action event") (auto simp: track_touch_def Let_def hold_def)
qed

lemma HandleTouchLocked_follows:
  assumes ok: "succeeding env" and "tables_ok s" "follows sdl layout s"
  shows "follows sdl layout (snd (HandleTouchLocked env event s))"
proof -
  have step: "follows sdl layout (snd (case sink_call env (CTouch p x y action w h) s of (st, s) \<Rightarrow>
      NativeResultLocked st KTouch (track_touch event st p x y s)))"
    if "tv_action event \<noteq> TouchDown \<Longrightarrow> FindTouchIteratorLocked (tv_touch_id event) (tv_finger_id event) s = Some t \<and> p = at_pointer_id t"
      "action = (if tv_action event = TouchDown then kAndroidTouchDown
         else if tv_action event = TouchMove then kAndroidTouchMove else kAndroidTouchUp)" for p x y action w h t
  proof -
    obtain st s' where c: "sink_call env (CTouch p x y action w h) s = (st, s')" by (metis surj_pair)
    note g = game_sink_call [OF ok c] and t = sink_call_tables [OF c]
    have "touches_ok s'" using assms(2) tables_ok_sink_call [OF c] by (simp add: tables_ok_def)
    then have "at_pointer_id ` set (ri_touches (track_touch event st p x y s')) =
        (if tv_action event = TouchMove then id else hold (tv_action event = TouchDown) p) (at_pointer_id ` set (ri_touches s))"
      using g t that(1) pointers_track_touch [of s' st event t p x y] by (simp add: FindTouchIteratorLocked_def)
    moreover have "game (track_touch event st p x y s') = game_call (game s) (CTouch p x y action w h)"
      using g by (simp add: track_touch_def Let_def)
    ultimately have "follows sdl layout (track_touch event st p x y s')"
      using assms(3) t that(2) unfolding follows_def
      by (simp add: kAndroidTouchDown_def kAndroidTouchMove_def kAndroidTouchUp_def) (simp add: track_touch_def Let_def)
    then show ?thesis using c by simp
  qed
  show ?thesis
    using assms(3) by (auto simp: HandleTouchLocked_def Let_def split: option.splits intro!: step)
qed

lemma set_track_key:
  assumes "keys_ok s"
  shows "set (ri_keys (track_key event android s)) =
    (if hk_pressed event
     then (if FindKeyIteratorLocked (hk_scancode event) s = None
           then insert \<lparr>ak_sdl_scancode = hk_scancode event, ak_android = android\<rparr> (set (ri_keys s)) else set (ri_keys s))
     else {k \<in> set (ri_keys s). ak_sdl_scancode k \<noteq> hk_scancode event})"
proof -
  have "erase_first (\<lambda>k. ak_sdl_scancode k = hk_scancode event) (ri_keys s) =
      filter (\<lambda>k. ak_sdl_scancode k \<noteq> hk_scancode event) (ri_keys s)"
    using assms by (intro erase_first_eq_filter [where f = ak_sdl_scancode]) (simp_all add: keys_ok_def)
  then show ?thesis
    by (auto simp: track_key_def Let_def FindKeyIteratorLocked_def find_None_iff)
qed

lemma HandleKeyLocked_follows:
  assumes ok: "succeeding env" and t: "tables_ok s" and f: "follows (ie_sdl env) layout s"
    and l: "hk_keycode event = layout (hk_scancode event)"
  shows "follows (ie_sdl env) layout (snd (HandleKeyLocked env event s))"
proof -
  define android where "android = MapSdlKeyToAndroid (ie_sdl env) (hk_scancode event) (hk_keycode event)"
  obtain st s' where c: "sink_call env (CKey (hk_pressed event) (km_scan_code android) (km_key_code android) (hk_repeat event)) s = (st, s')"
    by (metis surj_pair)
  note g = game_sink_call [OF ok c] and same = sink_call_tables [OF c]
  have k: "keys_ok s'" using t tables_ok_sink_call [OF c] by (simp add: tables_ok_def)
  let ?x = "(km_scan_code android, km_key_code android)" and ?ks = "ri_keys (track_key event android s')"
  have kf: "keys_follow (ie_sdl env) layout (ri_keys s) (gv_keys (game s))" using f by (simp add: follows_def)
  have an: "android = layout_key (ie_sdl env) layout (hk_scancode event)" using l by (simp add: android_def layout_key_def)
  have here: "ak_android k = android" if "k \<in> set (ri_keys s)" "ak_sdl_scancode k = hk_scancode event" for k
    using kf that an by (simp add: keys_follow_def)
  have other: "ak_sdl_scancode k = hk_scancode event" if "unshared (ie_sdl env) layout k" "android_key k = ?x" for k
    using that an unfolding unshared_def by metis
  have "keys_follow (ie_sdl env) layout ?ks (gv_keys (game s'))"
  proof (cases "hk_pressed event")
    case True
    have keys: "set ?ks = (if \<exists>h\<in>set (ri_keys s). ak_sdl_scancode h = hk_scancode event then set (ri_keys s)
        else insert \<lparr>ak_sdl_scancode = hk_scancode event, ak_android = android\<rparr> (set (ri_keys s)))"
      using True same by (auto simp: set_track_key [OF k] FindKeyIteratorLocked_def find_None_iff)
    have "gv_keys (game s') = insert ?x (gv_keys (game s))" using g True by (simp add: hold_def)
    moreover have "?x \<in> android_key ` set ?ks"
      using keys here by (auto simp: android_key_def image_iff split: if_splits)
    ultimately show ?thesis using kf keys an unfolding keys_follow_def
      by (auto simp: android_key_def split: if_splits)
  next
    case False
    have keys: "set ?ks = {h \<in> set (ri_keys s). ak_sdl_scancode h \<noteq> hk_scancode event}"
      using False same by (simp add: set_track_key [OF k])
    have held: "gv_keys (game s') = gv_keys (game s) - {?x}" using g False by (simp add: hold_def)
    have "y \<in> android_key ` set ?ks" if y: "y \<in> gv_keys (game s)" and ne: "y \<noteq> ?x" for y
    proof -
      obtain h where "h \<in> set (ri_keys s)" "y = android_key h" using kf y by (auto simp: keys_follow_def)
      then show ?thesis using here [of h] ne keys by (auto simp: android_key_def)
    qed
    then show ?thesis using kf keys held other unfolding keys_follow_def by auto
  qed
  then have "follows (ie_sdl env) layout (track_key event android s')"
    using f g same unfolding follows_def by (simp add: track_key_def Let_def)
  then show ?thesis
    using f c g by (simp add: HandleKeyLocked_def Let_def flip: android_def)
qed

lemma text_outcome_follows [simp]: "follows sdl layout (snd (text_outcome r s)) \<longleftrightarrow> follows sdl layout s"
  by (simp add: text_outcome_def)

lemma text_event_follows [simp]: "follows sdl layout (snd (text_event f s)) \<longleftrightarrow> follows sdl layout s"
  by (auto simp: text_event_def Let_def split: prod.splits)

lemma key_event_follows:
  assumes "succeeding env" "tables_ok s" "follows (ie_sdl env) layout s" "hk_keycode event = layout (hk_scancode event)"
  shows "follows (ie_sdl env) layout (snd (key_event env n event s))"
  using assms by (auto simp: key_event_def Let_def intro: HandleKeyLocked_follows split: prod.splits)

subsection \<open>Gamepads\<close>

lemma pads_split:
  "pads_held sdl (gs1 @ g # gs2) = pads_held sdl (gs1 @ gs2) \<union> pad_held sdl g"
  "pads_connected (gs1 @ g # gs2) = pads_connected (gs1 @ gs2) \<union> (if gp_connected g then {gp_device_id g} else {})"
  by (auto simp: pads_held_def pads_connected_def)

lemma pads_others:
  assumes "distinct (map gp_device_id (gs1 @ g # gs2))"
  shows "(gp_device_id g, key) \<notin> pads_held sdl (gs1 @ gs2)" "gp_device_id g \<notin> pads_connected (gs1 @ gs2)"
  using assms by (force simp: pads_held_def pad_held_def pads_connected_def)+

lemma pads_others_held:
  assumes "distinct (map gp_device_id (gs1 @ g # gs2))"
  shows "pads_held sdl (gs1 @ gs2) \<inter> pad_held sdl g = {}"
  using pads_others(1) [OF assms] by (auto simp: pad_held_def)

lemma pad_held_changed:
  assumes "sdl_ok sdl" "gp_device_id g' = gp_device_id g"
    "gp_pressed_buttons g' = (if pressed then gp_pressed_buttons g OR push_bit (sdl_gamepad_button sdl b) 1
       else gp_pressed_buttons g AND NOT (push_bit (sdl_gamepad_button sdl b) 1))"
  shows "pad_held sdl g' = hold pressed (gp_device_id g, android_button b) (pad_held sdl g)"
proof -
  have Has_bit: "Has w i \<longleftrightarrow> bit w i" if "i < 32" for w i
    using that by (simp add: Has_def)
  have "sdl_gamepad_button sdl c < 32" "sdl_gamepad_button sdl c = sdl_gamepad_button sdl b \<longleftrightarrow> c = b" for c
    using assms(1) by (auto simp: sdl_ok_def dest: injD)
  then have "Has (gp_pressed_buttons g') (sdl_gamepad_button sdl c) \<longleftrightarrow>
      (if c = b then pressed else Has (gp_pressed_buttons g) (sdl_gamepad_button sdl c))" for c
    using assms(3) by (auto simp: Has_bit bit_or_iff bit_and_iff bit_not_iff bit_exp_iff)
  then show ?thesis using assms(2) by (auto simp: pad_held_def hold_def inj_android_button)
qed

lemma follows_replace_gamepad:
  assumes f: "follows sdl layout s" and s: "ri_gamepads s = gs1 @ g # gs2" and d: "distinct (map gp_device_id (gs1 @ g # gs2))"
    and core: "ri_mouse_buttons s' = ri_mouse_buttons s \<and> ri_touches s' = ri_touches s \<and> ri_keys s' = ri_keys s"
    and gs: "ri_gamepads s' = gs1 @ g' # gs2" and dev: "gp_device_id g' = gp_device_id g"
    and game: "game s' = (joins g g' (game s))\<lparr>gv_pads := pads\<rparr>" and mono: "gp_connected g \<longrightarrow> gp_connected g'"
    and pads: "pads = pads_held sdl (gs1 @ gs2) \<union> pad_held sdl g'"
  shows "follows sdl layout s'"
  using assms by (auto simp: follows_def pads_split joins_def)

lemma found_gamepad:
  assumes "FindGamepadLocked i s = Some g" "tables_ok s"
  obtains gs1 gs2 where "ri_gamepads s = gs1 @ g # gs2" "gp_instance_id g = i" "pad_ok g"
    "distinct (map gp_device_id (gs1 @ g # gs2))"
    "\<And>g' s'. pad_effect g s g' s' \<Longrightarrow> ri_gamepads (store_gamepad g' s') = gs1 @ g' # gs2"
    "erase_first (\<lambda>h. gp_instance_id h = i) (ri_gamepads s) = gs1 @ gs2"
proof -
  obtain gs1 gs2 where s: "ri_gamepads s = gs1 @ g # gs2" "gp_instance_id g = i"
    "\<And>f. update_first (\<lambda>h. gp_instance_id h = i) f (ri_gamepads s) = gs1 @ f g # gs2"
    "erase_first (\<lambda>h. gp_instance_id h = i) (ri_gamepads s) = gs1 @ gs2"
    using split_gamepad [OF assms] by metis
  have "ri_gamepads (store_gamepad g' s') = gs1 @ g' # gs2" if "pad_effect g s g' s'" for g' s'
    using that s by (auto simp: store_gamepad_def pad_effect_def pad_id_def router_core_def)
  then show thesis using that s assms(2) by (auto simp: tables_ok_def gamepads_ok_def)
qed

lemma store_gamepad_same [simp]:
  "game (store_gamepad g s) = game s" "ri_mouse_buttons (store_gamepad g s) = ri_mouse_buttons s"
  "ri_touches (store_gamepad g s) = ri_touches s" "ri_keys (store_gamepad g s) = ri_keys s"
  by (simp_all add: store_gamepad_def)

lemma HandleGamepadAxisLocked_follows:
  assumes ok: "succeeding env" and t: "tables_ok s" and f: "follows sdl layout s"
  shows "follows sdl layout (snd (HandleGamepadAxisLocked env i axis v s))"
proof (cases "FindGamepadLocked i s")
  case (Some g)
  let ?g = "g\<lparr>gp_raw_axes := (gp_raw_axes g)[axis := v]\<rparr>"
  obtain st d g' s' where c: "DispatchGamepadAxesLocked env axis ?g s = (st, d, g', s')" by (metis prod_cases4)
  note e = DispatchGamepadAxesLocked_effect [OF c] and gm = game_DispatchGamepadAxesLocked [OF ok c]
  obtain gs1 gs2 where s: "ri_gamepads s = gs1 @ g # gs2" "distinct (map gp_device_id (gs1 @ g # gs2))"
    and st: "\<And>g' s'. pad_effect g s g' s' \<Longrightarrow> ri_gamepads (store_gamepad g' s') = gs1 @ g' # gs2"
    using found_gamepad [OF Some t] by metis
  have e': "pad_effect g s g' s'" using raw_axes_effect e by (blast intro: pad_effect_trans)
  have same: "gp_device_id g' = gp_device_id g" "pad_held sdl g' = pad_held sdl g"
    using e by (simp_all add: pad_effect_def pad_id_def pad_held_def)
  have "follows sdl layout (store_gamepad g' s')"
    using f s st [OF e'] e e' gm same
    by (intro follows_replace_gamepad [OF f s, where g' = g' and pads = "gv_pads (game s)"])
      (simp_all add: joins_def pad_effect_def router_core_def, simp add: follows_def pads_split)
  then show ?thesis using f Some c by (simp add: HandleGamepadAxisLocked_def Let_def)
qed (use f in \<open>simp add: HandleGamepadAxisLocked_def\<close>)

lemma HandleGamepadButtonLocked_follows:
  assumes ok: "succeeding env" and sdl: "sdl_ok (ie_sdl env)" and t: "tables_ok s" and f: "follows (ie_sdl env) layout s"
  shows "follows (ie_sdl env) layout (snd (HandleGamepadButtonLocked env i button pressed s))"
proof (cases "\<exists>g. FindGamepadLocked i s = Some g \<and> \<not> MapSdlGamepadButtonToAndroid (ie_sdl env) button < 0")
  case True
  then obtain g where fg: "FindGamepadLocked i s = Some g" and v: "\<not> MapSdlGamepadButtonToAndroid (ie_sdl env) button < 0" by blast
  obtain b where b: "sdl_gamepad_button (ie_sdl env) b = button" using MapSdlGamepadButton_valid [OF v] by blast
  have key: "MapSdlGamepadButtonToAndroid (ie_sdl env) button = android_button b" using MapSdlGamepadButton_of [OF sdl] b by blast
  obtain st1 g1 s1 where c: "ConnectGamepadLocked env g s = (st1, g1, s1)" by (metis prod_cases3)
  note e = ConnectGamepadLocked_effect [OF c] and gm = game_ConnectGamepadLocked [OF ok c]
  obtain st2 s2 where c2: "sink_call env (CButton (gp_device_id g1) (android_button b) pressed) s1 = (st2, s2)" by (metis surj_pair)
  note gm2 = game_sink_call [OF ok c2]
  define g2 where "g2 = g1\<lparr>gp_pressed_buttons := (if pressed then gp_pressed_buttons g1 OR push_bit button 1
     else gp_pressed_buttons g1 AND NOT (push_bit button 1))\<rparr>"
  obtain gs1 gs2 where s: "ri_gamepads s = gs1 @ g # gs2" "distinct (map gp_device_id (gs1 @ g # gs2))"
    and st: "\<And>g' s'. pad_effect g s g' s' \<Longrightarrow> ri_gamepads (store_gamepad g' s') = gs1 @ g' # gs2"
    using found_gamepad [OF fg t] by metis
  have e2: "pad_effect g s g2 s2"
    using e gm quiet_sink_call [OF c2] by (auto simp: g2_def pad_effect_def pad_id_def pad_ok_def quiet_def)
  have dev: "gp_device_id g1 = gp_device_id g" using e by (simp add: pad_effect_def pad_id_def)
  have held: "pad_held (ie_sdl env) g2 = hold pressed (gp_device_id g, android_button b) (pad_held (ie_sdl env) g)"
    using e dev by (intro pad_held_changed [OF sdl]) (simp_all add: g2_def b)
  have "game s2 = (joins g g2 (game s))\<lparr>gv_pads := hold pressed (gp_device_id g, android_button b) (gv_pads (game s))\<rparr>"
    using gm gm2 dev by (simp add: joins_def g2_def)
  moreover have "hold pressed (gp_device_id g, android_button b) (gv_pads (game s)) =
      pads_held (ie_sdl env) (gs1 @ gs2) \<union> pad_held (ie_sdl env) g2"
    using f s(1) pads_others(1) [OF s(2)] unfolding held by (auto simp: follows_def pads_split hold_def)
  ultimately have "follows (ie_sdl env) layout (store_gamepad g2 s2)"
    using st [OF e2] e2 dev gm
    by (intro follows_replace_gamepad [OF f s, where g' = g2]) (simp_all add: pad_effect_def router_core_def g2_def)
  then show ?thesis
    using f fg c c2 gm gm2 key
    by (cases pressed) (simp_all add: HandleGamepadButtonLocked_def Let_def g2_def)
next
  case False
  then show ?thesis using f by (auto simp: HandleGamepadButtonLocked_def Let_def split: option.splits)
qed

lemma pad_held_released: "gp_pressed_buttons g = 0 \<Longrightarrow> pad_held sdl g = {}"
  by (simp add: pad_held_def Has_def)

lemma detach_gamepad_follows:
  assumes ok: "succeeding env" and sdl: "sdl_ok (ie_sdl env)" and t: "tables_ok s" and f: "follows (ie_sdl env) layout s"
    and fg: "FindGamepadLocked i s = Some g" and d: "detach_gamepad env g s = (st, s1)"
  shows "status_ok st \<and> follows (ie_sdl env) layout s1"
proof -
  obtain gs1 gs2 where s: "ri_gamepads s = gs1 @ g # gs2" "gp_instance_id g = i" "pad_ok g"
    "distinct (map gp_device_id (gs1 @ g # gs2))" "erase_first (\<lambda>h. gp_instance_id h = i) (ri_gamepads s) = gs1 @ gs2"
    using found_gamepad [OF fg t] by metis
  obtain st' g' s' where c: "DisconnectGamepadLocked env g s = (st', g', s')" by (metis prod_cases3)
  note e = DisconnectGamepadLocked_effect [OF c] and gm = game_DisconnectGamepadLocked [OF ok sdl c s(3)]
  have s1: "s1 = upd_snapshot (\<lambda>sn. sn\<lparr>sn_detected_gamepads := of_nat (length (gs1 @ gs2))\<rparr>) (s'\<lparr>ri_gamepads := gs1 @ gs2\<rparr>)" "st = st'"
    using d c s pad_effect_gamepads [OF conjunct1 [OF e]] by (auto simp: detach_gamepad_def Let_def)
  have "gv_pads (game s') = pads_held (ie_sdl env) (gs1 @ gs2)" "gv_connected (game s') = pads_connected (gs1 @ gs2)"
    using f gm s(1) pads_others_held [OF s(4)] pads_others(2) [OF s(4)] by (auto simp: follows_def pads_split)
  then show ?thesis
    using f gm e unfolding s1 by (simp add: follows_def pad_effect_def router_core_def)
qed

lemma push_gamepad_follows:
  "follows sdl layout s \<Longrightarrow> follows sdl layout (push_gamepad (ActiveGamepad_new event d) s)"
  by (auto simp: push_gamepad_def Let_def follows_def pads_held_def pads_connected_def ActiveGamepad_new_def pad_held_released)

lemma HandleGamepadConnectionLocked_follows:
  assumes ok: "succeeding env" and sdl: "sdl_ok (ie_sdl env)" and t: "tables_ok s" and f: "follows (ie_sdl env) layout s"
  shows "follows (ie_sdl env) layout (snd (HandleGamepadConnectionLocked env event s))"
proof -
  obtain st s1 where c: "(case FindGamepadLocked (gc_instance_id event) s of None \<Rightarrow> (Status_Ok, s)
      | Some g \<Rightarrow> detach_gamepad env g s) = (st, s1)" by (metis surj_pair)
  have f1: "follows (ie_sdl env) layout s1"
  proof (cases "FindGamepadLocked (gc_instance_id event) s")
    case (Some g)
    then show ?thesis using c detach_gamepad_follows [OF ok sdl t f Some, of st s1] by simp
  qed (use c f in simp)
  then show ?thesis
    using f c push_gamepad_follows [OF f1]
    by (auto simp: HandleGamepadConnectionLocked_def Let_def connection_result_def split: option.splits)
qed

subsection \<open>Letting go\<close>

lemma game_release_gamepads:
  assumes ok: "succeeding env" and sdl: "sdl_ok (ie_sdl env)"
    and "release_gamepads env gs e s = (st, gs', s')" "status_ok e" "\<forall>g\<in>set gs. pad_ok g"
  shows "status_ok st \<and> game s' = (game s)\<lparr>gv_pads := gv_pads (game s) - pads_held (ie_sdl env) gs\<rparr>"
  using assms(3-)
proof (induction gs arbitrary: e s gs')
  case (Cons g gs)
  obtain st1 g1 s1 where r: "ReleaseGamepadInputsLocked env g s = (st1, g1, s1)" by (metis prod_cases3)
  obtain st2 gs2 s2 where rs: "release_gamepads env gs (KeepFirstError st1 e) s1 = (st2, gs2, s2)" by (metis prod_cases3)
  have eq: "st = st2" "s' = s2" using Cons.prems(1) r rs by simp_all
  have g1: "status_ok st1 \<and> game s1 = (game s)\<lparr>gv_pads := gv_pads (game s) - pad_held (ie_sdl env) g\<rparr>"
    using game_ReleaseGamepadInputsLocked [OF ok sdl r] Cons.prems by simp
  have "status_ok st2 \<and> game s2 = (game s1)\<lparr>gv_pads := gv_pads (game s1) - pads_held (ie_sdl env) gs\<rparr>"
    using Cons.IH [OF rs [folded eq]] Cons.prems g1 eq by simp
  then show ?case unfolding eq using g1 by (simp add: pads_held_def Diff_Un set_diff_eq Int_def)
qed (simp add: pads_held_def)

lemma game_disconnect_all:
  assumes ok: "succeeding env" and sdl: "sdl_ok (ie_sdl env)"
    and "disconnect_all env gs e s = (st, s')" "\<forall>g\<in>set gs. pad_ok g"
  shows "game s' = (game s)\<lparr>gv_pads := gv_pads (game s) - pads_held (ie_sdl env) gs,
    gv_connected := gv_connected (game s) - pads_connected gs\<rparr>"
  using assms(3-)
proof (induction gs arbitrary: e s)
  case (Cons g gs)
  obtain st1 g1 s1 where d: "DisconnectGamepadLocked env g s = (st1, g1, s1)" by (metis prod_cases3)
  have g1: "game s1 = (game s)\<lparr>gv_pads := gv_pads (game s) - pad_held (ie_sdl env) g,
      gv_connected := gv_connected (game s) - (if gp_connected g then {gp_device_id g} else {})\<rparr>"
    using game_DisconnectGamepadLocked [OF ok sdl d] Cons.prems by simp
  have "game s' = (game s1)\<lparr>gv_pads := gv_pads (game s1) - pads_held (ie_sdl env) gs,
      gv_connected := gv_connected (game s1) - pads_connected gs\<rparr>"
    using Cons.prems d by (intro Cons.IH) simp_all
  moreover have "A - pad_held (ie_sdl env) g - pads_held (ie_sdl env) gs = A - pads_held (ie_sdl env) (g # gs)"
    "B - (if gp_connected g then {gp_device_id g} else {}) - pads_connected gs = B - pads_connected (g # gs)" for A B
    by (auto simp: pads_held_def pads_connected_def)
  ultimately show ?case using g1 by simp
qed (simp add: pads_held_def pads_connected_def)

lemma game_release_calls:
  assumes ok: "succeeding env" and "release_calls env kind cs e s = (st, s')" "status_ok e"
  shows "status_ok st \<and> game s' = foldl game_call (game s) cs"
  using assms(2-)
proof (induction cs arbitrary: e s)
  case (Cons c cs)
  obtain st1 s1 where c: "sink_call env c s = (st1, s1)" by (metis surj_pair)
  note g = game_sink_call [OF ok c]
  have "release_calls env kind cs e (upd_snapshot (count_event kind) s1) = (st, s')" using Cons.prems c g by simp
  from Cons.IH [OF this Cons.prems(2)] show ?case using g by simp
qed simp

lemma pads_connected_Cons:
  "pads_connected (g # gs) = (if gp_connected g then insert (gp_device_id g) (pads_connected gs) else pads_connected gs)"
  by (auto simp: pads_connected_def)

lemma pads_connected_maps:
  "map pad_id gs' = map pad_id gs \<Longrightarrow> map gp_connected gs' = map gp_connected gs \<Longrightarrow> pads_connected gs' = pads_connected gs"
proof (induction gs arbitrary: gs')
  case (Cons g gs)
  then obtain h hs where "gs' = h # hs" by (cases gs') auto
  then show ?case using Cons.prems Cons.IH [of hs] by (simp add: pads_connected_Cons pad_id_def)
qed simp

lemma pads_connected_same: "pads_effect gs s gs' s' \<Longrightarrow> pads_connected gs' = pads_connected gs"
  unfolding pads_effect_def by (rule pads_connected_maps) simp_all

lemma fold_mouse_releases:
  "foldl game_call v (map (\<lambda>b. CMouseButton x y False b) bs) = v\<lparr>gv_buttons := gv_buttons v - set bs\<rparr>"
  by (induction bs arbitrary: v) (simp_all flip: Diff_insert2 add: hold_def)

lemma fold_touch_releases:
  "foldl game_call v (map (\<lambda>t. CTouch (at_pointer_id t) (at_x t) (at_y t) kAndroidTouchUp w h) ts) =
   v\<lparr>gv_pointers := gv_pointers v - at_pointer_id ` set ts\<rparr>"
  by (induction ts arbitrary: v)
    (simp_all flip: Diff_insert2 add: hold_def kAndroidTouchUp_def kAndroidTouchMove_def kAndroidTouchDown_def)

lemma fold_key_releases:
  "foldl game_call v (map (\<lambda>k. CKey False (km_scan_code (ak_android k)) (km_key_code (ak_android k)) False) ks) =
   v\<lparr>gv_keys := gv_keys v - android_key ` set ks\<rparr>"
  by (induction ks arbitrary: v) (simp_all flip: Diff_insert2 add: hold_def android_key_def)

lemma game_ReleasePressedInputsLocked:
  assumes ok: "succeeding env" and sdl: "sdl_ok (ie_sdl env)" and t: "tables_ok s" and f: "follows (ie_sdl env) layout s"
    and r: "ReleasePressedInputsLocked env s = (st, s')"
  shows "status_ok st \<and> game s' = nothing_held\<lparr>gv_connected := gv_connected (game s)\<rparr> \<and> follows (ie_sdl env) layout s'"
proof -
  obtain e1 gs s1 e2 s2 e3 s3 s4 where
    p1: "release_gamepads env (ri_gamepads s) Status_Ok s = (e1, gs, s1)" and
    p2: "release_calls env KMouseButton (mouse_releases s) e1 (s1\<lparr>ri_gamepads := gs\<rparr>) = (e2, s2)" and
    p3: "release_calls env KTouch (touch_releases (ie_float env) s) e2 (s2\<lparr>ri_mouse_buttons := []\<rparr>) = (e3, s3)" and
    p4: "release_calls env KKeyboard (key_releases s) e3 (s3\<lparr>ri_touches := []\<rparr>) = (st, s4)" and
    s': "s' = upd_snapshot (\<lambda>sn. sn\<lparr>sn_active_mouse_buttons := 0, sn_active_touches := 0, sn_active_keys := 0\<rparr>) (s4\<lparr>ri_keys := []\<rparr>)" and
    pe: "pads_effect (ri_gamepads s) s gs s1" and
    q: "quiet (s\<lparr>ri_gamepads := gs, ri_mouse_buttons := [], ri_touches := []\<rparr>) s4"
    using ReleasePressedInputsLocked_phases [OF r] by metis
  have pok: "\<forall>g\<in>set (ri_gamepads s). pad_ok g" using t by (simp add: tables_ok_def gamepads_ok_def)
  have g1: "status_ok e1 \<and> game s1 = (game s)\<lparr>gv_pads := {}\<rparr>"
    using game_release_gamepads [OF ok sdl p1 _ pok] f by (simp add: follows_def)
  have m: "foldl game_call v (mouse_releases s) = v\<lparr>gv_buttons := gv_buttons v - set (ri_mouse_buttons s)\<rparr>" for v
    using t by (auto simp: mouse_releases_def tables_ok_def idle_ok_def fold_mouse_releases)
  have g2: "status_ok e2 \<and> game s2 = (game s)\<lparr>gv_pads := {}, gv_buttons := {}\<rparr>"
    using game_release_calls [OF ok p2] g1 f by (simp add: m follows_def)
  have h: "foldl game_call v (touch_releases (ie_float env) s) = v\<lparr>gv_pointers := gv_pointers v - at_pointer_id ` set (ri_touches s)\<rparr>" for v
    using t by (auto simp: touch_releases_def tables_ok_def idle_ok_def fold_touch_releases)
  have g3: "status_ok e3 \<and> game s3 = (game s)\<lparr>gv_pads := {}, gv_buttons := {}, gv_pointers := {}\<rparr>"
    using game_release_calls [OF ok p3] g2 f by (simp add: h follows_def)
  have k: "foldl game_call v (key_releases s) = v\<lparr>gv_keys := gv_keys v - android_key ` set (ri_keys s)\<rparr>" for v
    using t by (auto simp: key_releases_def tables_ok_def idle_ok_def fold_key_releases)
  have "gv_keys (game s) - android_key ` set (ri_keys s) = {}" using f by (auto simp: follows_def keys_follow_def)
  then have g4: "status_ok st \<and> game s4 = (game s)\<lparr>gv_pads := {}, gv_buttons := {}, gv_pointers := {}, gv_keys := {}\<rparr>"
    using game_release_calls [OF ok p4] g3 by (simp add: k)
  have "pads_held (ie_sdl env) gs = {}" using pe by (auto simp: pads_effect_def pads_held_def pad_held_released)
  moreover have "pads_connected gs = pads_connected (ri_gamepads s)" using pe by (rule pads_connected_same)
  ultimately show ?thesis
    using g4 f q unfolding s' by (auto simp: follows_def quiet_def router_core_def nothing_held_def)
qed

lemma game_DisconnectGamepadsLocked:
  assumes ok: "succeeding env" and sdl: "sdl_ok (ie_sdl env)" and t: "tables_ok s" and f: "follows (ie_sdl env) layout s"
    and d: "DisconnectGamepadsLocked env s = (st, s')"
  shows "game s' = (game s)\<lparr>gv_pads := {}, gv_connected := {}\<rparr> \<and> follows (ie_sdl env) layout s'"
proof -
  obtain st1 s1 where c: "disconnect_all env (ri_gamepads s) Status_Ok s = (st1, s1)" by (metis surj_pair)
  have "\<forall>g\<in>set (ri_gamepads s). pad_ok g" using t by (simp add: tables_ok_def gamepads_ok_def)
  then have "game s1 = (game s)\<lparr>gv_pads := {}, gv_connected := {}\<rparr>"
    using game_disconnect_all [OF ok sdl c] f by (simp add: follows_def)
  then show ?thesis
    using d c f disconnect_all_effect [OF c]
    by (auto simp: DisconnectGamepadsLocked_def follows_def router_core_def pads_held_def pads_connected_def)
qed

lemma game_Deactivate_router:
  assumes ok: "succeeding env" and sdl: "sdl_ok (ie_sdl env)" and t: "tables_ok s" and f: "follows (ie_sdl env) layout s"
    and act: "sn_active (ri_snapshot s)"
  shows "game (snd (Deactivate_router env n s)) = nothing_held \<and> follows (ie_sdl env) layout (snd (Deactivate_router env n s))"
proof -
  obtain st1 s1 where r: "ReleasePressedInputsLocked env s = (st1, s1)" by (metis surj_pair)
  note g1 = game_ReleasePressedInputsLocked [OF ok sdl t f r]
  have t1: "tables_ok s1" using ReleasePressedInputsLocked_effect [OF r t] by simp
  obtain st2 s2 where d: "DisconnectGamepadsLocked env s1 = (st2, s2)" by (metis surj_pair)
  note g2 = game_DisconnectGamepadsLocked [OF ok sdl t1 conjunct2 [OF conjunct2 [OF g1]] d]
  obtain st3 s3 where x: "end_text n (if status_ok st1 then st2 else st1) s2 = (st3, s3)" by (metis surj_pair)
  obtain e where s3: "s3 = s2\<lparr>ri_text_editor := e\<rparr>" using end_text_same [OF x] by blast
  show ?thesis using act r d x s3 g1 g2 by (simp add: Deactivate_router_def nothing_held_def)
qed

lemma game_focus_event:
  assumes ok: "succeeding env" and sdl: "sdl_ok (ie_sdl env)" and t: "tables_ok s" and f: "follows (ie_sdl env) layout s"
  shows "follows (ie_sdl env) layout (snd (focus_event env n b s)) \<and>
    (\<not> b \<longrightarrow> game (snd (focus_event env n b s)) = nothing_held\<lparr>gv_connected := gv_connected (game s)\<rparr>)"
proof (cases "\<not> b \<and> sn_focused (ri_snapshot s)")
  case True
  obtain st1 s1 where r: "ReleasePressedInputsLocked env s = (st1, s1)" by (metis surj_pair)
  note g1 = game_ReleasePressedInputsLocked [OF ok sdl t f r]
  obtain st3 s3 where x: "end_text n st1 s1 = (st3, s3)" by (metis surj_pair)
  obtain e where s3: "s3 = s1\<lparr>ri_text_editor := e\<rparr>" using end_text_same [OF x] by blast
  show ?thesis using True r x s3 g1 by (simp add: focus_event_def Let_def)
next
  case False
  have "game s = nothing_held\<lparr>gv_connected := gv_connected (game s)\<rparr>" if "\<not> sn_focused (ri_snapshot s)"
    using t f that by (auto simp: tables_ok_def idle_ok_def follows_def pads_held_def pad_held_released nothing_held_def
        intro!: GameView.equality)
  then show ?thesis using False f by (auto simp: focus_event_def)
qed

text \<open>The calls whose key events agree with the keyboard layout.\<close>

fun layout_op :: "(u32 \<Rightarrow> u32) \<Rightarrow> RobloxInputRouter \<Rightarrow> TextNative \<times> RouterOp \<Rightarrow> bool" where
  "layout_op layout s (n, REvent (HostKeyEvent key)) = (hk_keycode key = layout (hk_scancode key))"
| "layout_op layout s _ = True"

lemma HandleEvent_follows:
  assumes ok: "succeeding env" and sdl: "sdl_ok (ie_sdl env)" and t: "tables_ok s" and f: "follows (ie_sdl env) layout s"
    and l: "layout_op layout s (n, REvent event)"
  shows "follows (ie_sdl env) layout (snd (HandleEvent env n event s))"
  using f l game_focus_event [OF ok sdl t f] tables_ok_take_focus [OF t]
  by (cases event)
    (auto simp: HandleEvent_def intro: ok sdl t HandleGamepadConnectionLocked_follows HandleGamepadButtonLocked_follows
      HandleGamepadAxisLocked_follows HandleMouseMotionLocked_follows HandleMouseButtonLocked_follows
      HandleMouseWheelLocked_follows HandleTouchLocked_follows key_event_follows)

lemma Activate_router_follows:
  assumes "tables_ok s" "follows sdl layout s"
  shows "follows sdl layout (snd (Activate_router v b s))"
  using assms by (auto simp: Activate_router_def tables_ok_def idle_ok_def follows_def game_def)

lemma router_step_follows:
  assumes ok: "succeeding env" and sdl: "sdl_ok (ie_sdl env)" and t: "tables_ok s" and f: "follows (ie_sdl env) layout s"
    and l: "layout_op layout s x"
  shows "follows (ie_sdl env) layout (router_step env s x)"
proof -
  have "follows (ie_sdl env) layout (snd (Deactivate_router env n s))" for n
    using game_Deactivate_router [OF ok sdl t f] f by (cases "sn_active (ri_snapshot s)") (simp_all add: Deactivate_router_def)
  then show ?thesis
    using f l t by (cases "(env, s, x)" rule: router_step.cases)
      (auto simp: BeginTextFocusSession_def on_editor_def intro: Activate_router_follows HandleEvent_follows [OF ok sdl t f]
        split: prod.splits)
qed

interpretation layout_router: contracted_component "router_step env" "layout_op layout"
  "\<lambda>s. succeeding env \<and> sdl_ok (ie_sdl env) \<and> tables_ok s \<and> follows (ie_sdl env) layout s"
  by unfold_locales (blast intro: router_step_ok router_step_follows)

lemma tables_ok_new: "tables_ok (RobloxInputRouter_new sink editor)"
  by (simp add: RobloxInputRouter_new_def RobloxInputSnapshot_default_def tables_ok_def table_defs)

lemma follows_new: "follows sdl layout (RobloxInputRouter_new sink editor)"
  by (simp add: RobloxInputRouter_new_def follows_def game_def nothing_held_def pads_held_def pads_connected_def)

lemmas reachable_router = layout_router.run_invar [OF conjI [OF _ conjI [OF _ conjI [OF tables_ok_new follows_new]]]]

section \<open>Properties\<close>

lemma touch_limit:
  assumes "tables_ok s"
  shows "length (ri_touches s) \<le> nat kMaximumAndroidPointers"
proof -
  have d: "distinct (map at_pointer_id (ri_touches s))" and sub: "at_pointer_id ` set (ri_touches s) \<subseteq> {0..<kMaximumAndroidPointers}"
    using assms by (auto simp: tables_ok_def touches_ok_def)
  have "length (ri_touches s) = card (at_pointer_id ` set (ri_touches s))"
    using distinct_card [OF d] by simp
  also have "\<dots> \<le> card {0..<kMaximumAndroidPointers}" using sub by (intro card_mono) simp_all
  finally show ?thesis by simp
qed

subsection \<open>A sample environment\<close>

text \<open>SDL's values for the constants the samples use, and native functions that succeed.\<close>

fun sample_pad_button :: "GamepadButton \<Rightarrow> nat" where
  "sample_pad_button GpSouth = 0" | "sample_pad_button GpEast = 1" | "sample_pad_button GpWest = 2"
| "sample_pad_button GpNorth = 3" | "sample_pad_button GpBack = 4" | "sample_pad_button GpStart = 6"
| "sample_pad_button GpLeftStick = 7" | "sample_pad_button GpRightStick = 8" | "sample_pad_button GpLeftShoulder = 9"
| "sample_pad_button GpRightShoulder = 10" | "sample_pad_button GpDpadUp = 11" | "sample_pad_button GpDpadDown = 12"
| "sample_pad_button GpDpadLeft = 13" | "sample_pad_button GpDpadRight = 14"

definition sample_sdl :: SdlConstants where
  "sample_sdl =
     \<lparr>sdl_scancode = (\<lambda>name. if name = ''A'' then 4 else if name = ''LEFT'' then 80 else 0),
      sdl_button = (\<lambda>name. if name = ''LEFT'' then 1 else if name = ''MIDDLE'' then 2 else if name = ''RIGHT'' then 3 else 4),
      sdl_gamepad_button = sample_pad_button\<rparr>"

definition sample_input :: InputEnv where
  "sample_input =
     \<lparr>ie_lib = strict_lib, ie_native = (\<lambda>_. Status_Ok),
      ie_float = \<lparr>f_round = FNum, f_sqrt = (\<lambda>x. x), f_lround_special = (\<lambda>_. 0)\<rparr>, ie_sdl = sample_sdl\<rparr>"

definition sample_router :: RobloxInputRouter where
  "sample_router = RobloxInputRouter_new
     \<lparr>is_mouse_move = True, is_mouse_button = True, is_mouse_wheel = True, is_touch = True, is_key = True, is_gamepad = True\<rparr>
     (RobloxTextEditor_new full_sink True True)"

definition sample_left :: "bool \<Rightarrow> PlatformEvent" where
  "sample_left pressed = HostKeyEvent
     \<lparr>hk_pressed = pressed, hk_repeat = False, hk_scancode = 80, hk_keycode = 0, hk_modifiers = 0\<rparr>"

definition sample_ops :: "(TextNative \<times> RouterOp) list" where
  "sample_ops =
     [(all_ok, RActivate \<lparr>vp_logical_width = 800, vp_logical_height = 600, vp_pixel_width = 800, vp_pixel_height = 600,
                 vp_density_scale = FNum 1\<rparr> True),
      (all_ok, REvent (sample_left True)),
      (all_ok, REvent (MouseButtonEvent \<lparr>mb_pressed = True, mb_button = 1, mb_x = FNum 3, mb_y = FNum 4, mb_relative_mode = False\<rparr>))]"

lemma sample_input_ok: "succeeding sample_input" "sdl_ok (ie_sdl sample_input)"
proof -
  have "inj sample_pad_button"
  proof (rule injI)
    show "sample_pad_button a = sample_pad_button b \<Longrightarrow> a = b" for a b by (cases a; cases b) simp_all
  qed
  moreover have "sample_pad_button b < 32" for b by (cases b) simp_all
  ultimately show "succeeding sample_input" "sdl_ok (ie_sdl sample_input)"
    by (simp_all add: succeeding_def sdl_ok_def sample_input_def sample_sdl_def)
qed

lemma sample_ops_layout: "admitted (router_step sample_input) (layout_op (\<lambda>_. 0)) s sample_ops"
  by (simp add: sample_ops_def sample_left_def)

lemma sample_held:
  "map android_key (ri_keys (run_ops (router_step sample_input) sample_router sample_ops)) = [(105, 21)]"
  "ri_mouse_buttons (run_ops (router_step sample_input) sample_router sample_ops) = [0]"
  "sn_active (ri_snapshot (run_ops (router_step sample_input) sample_router sample_ops))"
  by code_simp+

subsection \<open>Theorems\<close>


text \<open>
  C6. The game holds down what the router remembers: when the native calls succeed and the keyboard layout
  does not change (every key event carries the key code that the layout gives its scan code), after every sequence
  of calls the mouse buttons, touch pointers and gamepad buttons the game sees as pressed and the gamepads it
  sees as connected are exactly those of the router's tables; every key the game sees as pressed is in the table of
  keys, with its mapping in the layout, and every key of that table is pressed in the game, except that a key
  whose Android mapping another scan code shares may already have been released with the other one.
\<close>

theorem game_follows_router:
  assumes "succeeding env" and "sdl_ok (ie_sdl env)"
    and "admitted (router_step env) (layout_op layout) (RobloxInputRouter_new sink editor) ops"
  shows "follows (ie_sdl env) layout (run_ops (router_step env) (RobloxInputRouter_new sink editor) ops)"
  using reachable_router [OF assms] by blast

theorem game_follows_router_witness:
  "follows sample_sdl (\<lambda>_. 0) (run_ops (router_step sample_input) sample_router sample_ops) \<and>
   map android_key (ri_keys (run_ops (router_step sample_input) sample_router sample_ops)) = [(105, 21)] \<and>
   ri_mouse_buttons (run_ops (router_step sample_input) sample_router sample_ops) = [0]"
  using game_follows_router [OF sample_input_ok sample_ops_layout] sample_held
  unfolding sample_router_def by (simp add: sample_input_def)

text \<open>
  C9. Losing the window focus lets go of everything: when the native calls succeed and the keyboard layout does
  not change, after a focus-lost event on an active router no button, pointer, key or gamepad button is held, and
  after \<open>Deactivate\<close> of an active router no gamepad is connected either. (With a layout that changes while a key is
  held this fails for the keys: the table is looked up by scan code, the game is told the mapped key.)
\<close>

theorem nothing_held_without_focus:
  assumes "succeeding env" and "sdl_ok (ie_sdl env)"
    and "admitted (router_step env) (layout_op layout) (RobloxInputRouter_new sink editor) ops"
    and "s = run_ops (router_step env) (RobloxInputRouter_new sink editor) ops" and "sn_active (ri_snapshot s)"
  shows "game (snd (HandleEvent env n (WindowFocusEvent False) s)) = nothing_held\<lparr>gv_connected := gv_connected (game s)\<rparr> \<and>
    game (snd (Deactivate_router env n s)) = nothing_held"
proof -
  have i: "tables_ok s \<and> follows (ie_sdl env) layout s" using reachable_router [OF assms(1-3)] assms(4) by blast
  show ?thesis
    using game_focus_event [OF assms(1,2) conjunct1 [OF i] conjunct2 [OF i], of n False]
      game_Deactivate_router [OF assms(1,2) conjunct1 [OF i] conjunct2 [OF i] assms(5), of n] assms(5)
    by (simp add: HandleEvent_def)
qed

theorem nothing_held_without_focus_witness:
  "game (snd (HandleEvent sample_input all_ok (WindowFocusEvent False)
     (run_ops (router_step sample_input) sample_router sample_ops))) =
   nothing_held\<lparr>gv_connected := gv_connected (game (run_ops (router_step sample_input) sample_router sample_ops))\<rparr>"
  using nothing_held_without_focus [OF sample_input_ok sample_ops_layout refl sample_held(3) [unfolded sample_router_def], of all_ok]
  unfolding sample_router_def by (rule conjunct1)

text \<open>
  An editing key that is released while a text box has the focus is swallowed by the text editor, even
  when the game was told that it is pressed: the game keeps holding it and the router keeps remembering it.
\<close>

theorem editing_key_release_swallowed:
  assumes "sn_active (ri_snapshot s)" and "te_focused (ri_text_editor s)" and "\<not> hk_pressed key"
    and "edit_scancode (text_scancode (ie_sdl env) (hk_scancode key))"
  shows "game (snd (HandleEvent env n (HostKeyEvent key) s)) = game s \<and>
    ri_keys (snd (HandleEvent env n (HostKeyEvent key) s)) = ri_keys s \<and>
    dr_state (fst (HandleEvent env n (HostKeyEvent key) s)) = DsStateUpdated"
proof -
  have e: "te_focused (ri_text_editor (take_focus s))" "ri_keys (take_focus s) = ri_keys s" "game (take_focus s) = game s"
    using assms(2) by (simp_all add: take_focus_def)
  obtain r e' where h: "HandleKey (ie_lib env) n (text_key (ie_sdl env) key) (ri_text_editor (take_focus s)) = (r, e')"
    by (metis surj_pair)
  have r: "er_handled r" "\<not> er_dispatched r" "er_status r = Status_Ok"
    using h e(1) assms(3,4) by (auto simp: HandleKey_def Let_def text_key_def EditResult_def split: if_splits)
  then show ?thesis
    using assms(1) e h by (simp add: HandleEvent_def key_event_def text_outcome_def DispatchResult_def Let_def)
qed

definition stuck_ops :: "(TextNative \<times> RouterOp) list" where
  "stuck_ops = sample_ops @ [(all_ok, RBeginText (sample_session [0x61, 0x62]))]"

theorem editing_key_release_swallowed_witness:
  "let s = run_ops (router_step sample_input) sample_router stuck_ops;
       s' = snd (HandleEvent sample_input all_ok (sample_left False) s)
   in game s' = game s \<and> map android_key (ri_keys s') = [(105, 21)]"
proof -
  define s where "s = run_ops (router_step sample_input) sample_router stuck_ops"
  have "sn_active (ri_snapshot s)" "te_focused (ri_text_editor s)" "map android_key (ri_keys s) = [(105, 21)]"
    unfolding s_def by code_simp+
  moreover have "edit_scancode (text_scancode (ie_sdl sample_input) 80)" by code_simp
  ultimately show ?thesis
    unfolding Let_def s_def [symmetric] sample_left_def using editing_key_release_swallowed [of s _ sample_input all_ok] by simp
qed

end
