(* ===== verification/Partial_Reads.thy ===== *)
theory Partial_Reads
  imports Mocktail_Prelude
begin

text \<open>
  Reads of a buffer whose contents nobody vouches for: an index out of range is the outcome \<open>OutOfBounds\<close>, which
  a C++ program must never reach; a read that the code's own checks refuse is \<open>Refused\<close>. \<open>safe\<close> excludes the
  first, \<open>answered\<close> both.
\<close>

datatype 'a outcome = Got 'a | Refused | OutOfBounds

fun and_then :: "'a outcome \<Rightarrow> ('a \<Rightarrow> 'b outcome) \<Rightarrow> 'b outcome" where
  "and_then (Got x) f = f x"
| "and_then Refused f = Refused"
| "and_then OutOfBounds f = OutOfBounds"

text \<open>A refusal becomes the value \<open>y\<close>, as an error return does.\<close>

fun or_else :: "'a outcome \<Rightarrow> 'b \<Rightarrow> ('a \<Rightarrow> 'b outcome) \<Rightarrow> 'b outcome" where
  "or_else (Got x) y f = f x"
| "or_else Refused y f = Got y"
| "or_else OutOfBounds y f = OutOfBounds"

definition byte_at :: "bytes \<Rightarrow> nat \<Rightarrow> u8 outcome" where
  "byte_at bs i = (if i < length bs then Got (bs ! i) else OutOfBounds)"

definition require :: "bool \<Rightarrow> 'a outcome \<Rightarrow> 'a outcome" where
  "require b m = (if b then m else Refused)"

section \<open>Results\<close>

lemma and_then_Got: "and_then m f = Got y \<longleftrightarrow> (\<exists>x. m = Got x \<and> f x = Got y)"
  by (cases m) auto

lemma require_Got [simp]: "require b m = Got y \<longleftrightarrow> b \<and> m = Got y"
  by (simp add: require_def)

definition safe :: "'a outcome \<Rightarrow> bool" where
  "safe m \<longleftrightarrow> m \<noteq> OutOfBounds"

named_theorems safe_intros

lemma safe_Got [simp]: "safe (Got x)" and safe_Refused [simp]: "safe Refused"
  by (simp_all add: safe_def)

lemma safe_and_then [safe_intros]: "safe m \<Longrightarrow> (\<And>x. m = Got x \<Longrightarrow> safe (f x)) \<Longrightarrow> safe (and_then m f)"
  by (cases m) (simp_all add: safe_def)

lemma safe_or_else [safe_intros]: "safe m \<Longrightarrow> (\<And>x. m = Got x \<Longrightarrow> safe (f x)) \<Longrightarrow> safe (or_else m y f)"
  by (cases m) (simp_all add: safe_def)

lemma safe_require [safe_intros]: "(b \<Longrightarrow> safe m) \<Longrightarrow> safe (require b m)"
  by (simp add: require_def)

lemma safe_byte_at [safe_intros]: "i < length bs \<Longrightarrow> safe (byte_at bs i)"
  by (simp add: byte_at_def)

definition answered :: "'a outcome \<Rightarrow> bool" where
  "answered m \<longleftrightarrow> (\<exists>x. m = Got x)"

lemma answered_or_else: "safe m \<Longrightarrow> (\<And>x. m = Got x \<Longrightarrow> answered (f x)) \<Longrightarrow> answered (or_else m y f)"
  by (cases m) (auto simp: safe_def answered_def)

lemma answered_and_then: "answered m \<Longrightarrow> (\<And>x. m = Got x \<Longrightarrow> answered (f x)) \<Longrightarrow> answered (and_then m f)"
  by (auto simp: answered_def)

lemma answered_byte: "safe (byte_at bs i) \<Longrightarrow> answered (byte_at bs i)"
  by (simp add: byte_at_def answered_def safe_def split: if_splits)

lemma answered_Got [simp]: "answered (Got x)"
  by (simp add: answered_def)

end
