(* ===== verification/Android_Manifest.thy ===== *)
theory Android_Manifest
  imports Partial_Reads
begin

text \<open>
  The reader of binary Android manifests (\<open>src/update/android_manifest.cc\<close>): the chunks of the file, the string
  pool, and the attributes of the \<open>manifest\<close> element. The bytes come from a downloaded package, so every index
  into them is a partial read: an index out of range is the outcome \<open>OutOfBounds\<close>, a read that the code's own
  checks refuse is \<open>Refused\<close>. Offsets are natural numbers: they stay below 2^34, far from wrapping a
  \<open>size_t\<close>. The product \<open>index * attribute_size\<close> is an \<open>int\<close>; it stays below the size of the file.
\<close>

section \<open>Reads\<close>

definition le16 :: "u8 \<Rightarrow> u8 \<Rightarrow> u16" where
  "le16 b0 b1 = ucast b0 OR push_bit 8 (ucast b1)"

definition le32 :: "u8 \<Rightarrow> u8 \<Rightarrow> u8 \<Rightarrow> u8 \<Rightarrow> u32" where
  "le32 b0 b1 b2 b3 = ucast b0 OR push_bit 8 (ucast b1) OR push_bit 16 (ucast b2) OR push_bit 24 (ucast b3)"

definition Bytes_U16 :: "bytes \<Rightarrow> nat \<Rightarrow> u16 outcome" where
  "Bytes_U16 bs offset =
     (if offset > length bs \<or> length bs - offset < 2 then Refused
      else and_then (byte_at bs offset) (\<lambda>b0. and_then (byte_at bs (offset + 1)) (\<lambda>b1. Got (le16 b0 b1))))"

definition Bytes_U32 :: "bytes \<Rightarrow> nat \<Rightarrow> u32 outcome" where
  "Bytes_U32 bs offset =
     (if offset > length bs \<or> length bs - offset < 4 then Refused
      else and_then (byte_at bs offset) (\<lambda>b0. and_then (byte_at bs (offset + 1)) (\<lambda>b1.
           and_then (byte_at bs (offset + 2)) (\<lambda>b2. and_then (byte_at bs (offset + 3)) (\<lambda>b3. Got (le32 b0 b1 b2 b3))))))"

definition Bytes_Slice :: "bytes \<Rightarrow> nat \<Rightarrow> nat \<Rightarrow> bytes" where
  "Bytes_Slice bs offset len =
     (if offset > length bs \<or> len > length bs - offset then [] else take len (drop offset bs))"

section \<open>Chunks\<close>

definition kStringPoolChunk :: u16 where "kStringPoolChunk = 0x0001"
definition kXmlChunk :: u16 where "kXmlChunk = 0x0003"
definition kStartElementChunk :: u16 where "kStartElementChunk = 0x0102"
definition kUtf8Flag :: u32 where "kUtf8Flag = 0x00000100"
definition kNoIndex :: u32 where "kNoIndex = 0xffffffff"
definition kTypeString :: u8 where "kTypeString = 0x03"

record Chunk =
  ch_type :: u16
  ch_header_size :: u16
  ch_size :: u32

definition ReadChunk :: "bytes \<Rightarrow> nat \<Rightarrow> Chunk outcome" where
  "ReadChunk bs offset =
     and_then (Bytes_U16 bs offset) (\<lambda>type. and_then (Bytes_U16 bs (offset + 2)) (\<lambda>header_size.
     and_then (Bytes_U32 bs (offset + 4)) (\<lambda>size.
       require (unat header_size \<ge> 8 \<and> unat size \<ge> unat header_size \<and> offset \<le> length bs \<and> unat size \<le> length bs - offset)
         (Got \<lparr>ch_type = type, ch_header_size = header_size, ch_size = size\<rparr>))))"

section \<open>The string pool\<close>

definition ReadUtf8Length :: "bytes \<Rightarrow> nat \<Rightarrow> (nat \<times> nat) outcome" where
  "ReadUtf8Length bs offset =
     (if offset \<ge> length bs then Refused
      else and_then (byte_at bs offset) (\<lambda>first.
        if first AND 0x80 = 0 then Got (offset + 1, unat first)
        else if offset + 1 \<ge> length bs then Refused
        else and_then (byte_at bs (offset + 1)) (\<lambda>second. Got (offset + 2, unat (first AND 0x7f) * 2 ^ 8 + unat second))))"

definition ReadUtf16Length :: "bytes \<Rightarrow> nat \<Rightarrow> (nat \<times> nat) outcome" where
  "ReadUtf16Length bs offset =
     (if offset > length bs \<or> length bs - offset < 2 then Refused
      else and_then (byte_at bs offset) (\<lambda>b0. and_then (byte_at bs (offset + 1)) (\<lambda>b1.
        let first = le16 b0 b1
        in if first AND 0x8000 = 0 then Got (offset + 2, unat first)
           else if offset + 2 > length bs \<or> length bs - (offset + 2) < 2 then Refused
           else and_then (byte_at bs (offset + 2)) (\<lambda>c0. and_then (byte_at bs (offset + 3)) (\<lambda>c1.
             Got (offset + 4, unat (first AND 0x7fff) * 2 ^ 16 + unat (le16 c0 c1)))))))"

definition AppendUtf8 :: "u16 \<Rightarrow> bytes" where
  "AppendUtf8 point =
     (if point \<le> 0x7f then [ucast point]
      else if point \<le> 0x7ff then [0xc0 OR ucast (drop_bit 6 point), 0x80 OR ucast (point AND 0x3f)]
      else [0xe0 OR ucast (drop_bit 12 point), 0x80 OR ucast (drop_bit 6 point AND 0x3f), 0x80 OR ucast (point AND 0x3f)])"

fun utf16_value :: "bytes \<Rightarrow> nat \<Rightarrow> nat \<Rightarrow> bytes \<Rightarrow> (string + bytes) outcome" where
  "utf16_value storage position 0 value = Got (Inr value)"
| "utf16_value storage position (Suc n) value =
     and_then (byte_at storage position) (\<lambda>b0. and_then (byte_at storage (position + 1)) (\<lambda>b1.
       let point = le16 b0 b1
       in if point \<ge> 0xd800 \<and> point \<le> 0xdfff then Got (Inl ''Android manifest contains unsupported UTF-16 surrogate'')
          else utf16_value storage (position + 2) n (value @ AppendUtf8 point)))"

definition utf8_value :: "bytes \<Rightarrow> bytes outcome" where
  "utf8_value storage =
     and_then (ReadUtf8Length storage 0) (\<lambda>(cursor, _). and_then (ReadUtf8Length storage cursor) (\<lambda>(cursor, byte_length).
       require (cursor \<le> length storage \<and> byte_length < length storage - cursor)
         (and_then (byte_at storage (cursor + byte_length)) (\<lambda>last.
           require (last = 0) (Got (take byte_length (drop cursor storage)))))))"

definition pool_value :: "bool \<Rightarrow> bytes \<Rightarrow> (string + bytes) outcome" where
  "pool_value utf8 storage =
     (if utf8 then or_else (utf8_value storage) (Inl ''Android UTF-8 string is malformed'') (\<lambda>v. Got (Inr v))
      else or_else
        (and_then (ReadUtf16Length storage 0) (\<lambda>(cursor, character_length).
          require (character_length \<le> (length storage - cursor) div 2) (Got (cursor, character_length))))
        (Inl ''Android UTF-16 string is malformed'')
        (\<lambda>(cursor, character_length). utf16_value storage cursor character_length []))"

fun pool_strings ::
  "bytes \<Rightarrow> nat \<Rightarrow> Chunk \<Rightarrow> nat \<Rightarrow> bool \<Rightarrow> nat list \<Rightarrow> bytes list \<Rightarrow> (string + bytes list) outcome" where
  "pool_strings bs chunk_offset chunk strings_start utf8 [] strings = Got (Inr strings)"
| "pool_strings bs chunk_offset chunk strings_start utf8 (index # rest) strings =
     or_else
       (and_then (Bytes_U32 bs (chunk_offset + unat (ch_header_size chunk) + index * 4)) (\<lambda>relative.
         require (unat relative < unat (ch_size chunk) - strings_start) (Got (unat relative))))
       (Inl ''Android string pool offset is invalid'')
       (\<lambda>relative.
         and_then (pool_value utf8 (Bytes_Slice bs (chunk_offset + strings_start + relative)
                                     (unat (ch_size chunk) - strings_start - relative)))
           (\<lambda>v. case v of
              Inl e \<Rightarrow> Got (Inl e)
            | Inr s \<Rightarrow> pool_strings bs chunk_offset chunk strings_start utf8 rest (strings @ [s])))"

definition ParseStringPool :: "bytes \<Rightarrow> nat \<Rightarrow> Chunk \<Rightarrow> (string + bytes list) outcome" where
  "ParseStringPool bs chunk_offset chunk =
     or_else
       (require (unat (ch_header_size chunk) \<ge> 28)
         (and_then (Bytes_U32 bs (chunk_offset + 8)) (\<lambda>count. require (unat count \<le> 1000000)
         (and_then (Bytes_U32 bs (chunk_offset + 16)) (\<lambda>flags. and_then (Bytes_U32 bs (chunk_offset + 20)) (\<lambda>strings_start.
           require (unat strings_start < unat (ch_size chunk) \<and>
                    unat count * 4 \<le> unat (ch_size chunk) - unat (ch_header_size chunk))
             (Got (unat count, flags, unat strings_start))))))))
       (Inl ''Android string pool header is invalid'')
       (\<lambda>(count, flags, strings_start).
          pool_strings bs chunk_offset chunk strings_start (flags AND kUtf8Flag \<noteq> 0) [0..<count] [])"

definition PoolString :: "bytes list \<Rightarrow> u32 \<Rightarrow> bytes option" where
  "PoolString pool index =
     (if index = kNoIndex then None else if unat index \<ge> length pool then None else Some (pool ! unat index))"

section \<open>The manifest element\<close>

record AndroidManifestIdentity =
  am_package_name :: bytes
  am_version_name :: bytes
  am_split_name :: bytes
  am_version_code :: u64
  am_error :: string

definition AndroidManifestIdentity_default :: AndroidManifestIdentity where
  "AndroidManifestIdentity_default =
     \<lparr>am_package_name = [], am_version_name = [], am_split_name = [], am_version_code = 0, am_error = []\<rparr>"

definition set_attribute ::
  "bytes \<Rightarrow> bytes option \<Rightarrow> u8 \<Rightarrow> u32 \<Rightarrow> AndroidManifestIdentity \<Rightarrow> AndroidManifestIdentity" where
  "set_attribute name v data_type typed_data result =
     (if name = ascii ''package'' \<and> v \<noteq> None then result\<lparr>am_package_name := the v\<rparr>
      else if name = ascii ''versionName'' \<and> v \<noteq> None then result\<lparr>am_version_name := the v\<rparr>
      else if name = ascii ''split'' \<and> v \<noteq> None then result\<lparr>am_split_name := the v\<rparr>
      else if name = ascii ''versionCode'' \<and> data_type \<ge> 0x10 \<and> data_type \<le> 0x1f then result\<lparr>am_version_code := ucast typed_data\<rparr>
      else result)"

text \<open>The loop over the attributes: \<open>Inl\<close> when it returns early, \<open>Inr\<close> when it ends.\<close>

fun manifest_attributes ::
  "bytes \<Rightarrow> bytes list \<Rightarrow> nat \<Rightarrow> nat \<Rightarrow> nat list \<Rightarrow> AndroidManifestIdentity \<Rightarrow>
   (AndroidManifestIdentity + AndroidManifestIdentity) outcome" where
  "manifest_attributes bs pool attributes attribute_size [] result = Got (Inr result)"
| "manifest_attributes bs pool attributes attribute_size (index # rest) result =
     (let attribute = attributes + index * attribute_size
      in or_else
           (and_then (Bytes_U32 bs (attribute + 4)) (\<lambda>name_index. and_then (Bytes_U32 bs (attribute + 8)) (\<lambda>raw_index.
            and_then (Bytes_U32 bs (attribute + 16)) (\<lambda>typed_data. Got (name_index, raw_index, typed_data)))))
           (Inl (result\<lparr>am_error := ''Android manifest attribute is truncated''\<rparr>))
           (\<lambda>(name_index, raw_index, typed_data).
             case PoolString pool name_index of
               None \<Rightarrow> manifest_attributes bs pool attributes attribute_size rest result
             | Some name \<Rightarrow>
                 and_then (byte_at bs (attribute + 15)) (\<lambda>data_type.
                   let v = (case PoolString pool raw_index of
                              Some s \<Rightarrow> Some s
                            | None \<Rightarrow> if data_type = kTypeString then PoolString pool typed_data else None)
                   in manifest_attributes bs pool attributes attribute_size rest
                        (set_attribute name v data_type typed_data result))))"

definition manifest_element ::
  "bytes \<Rightarrow> bytes list \<Rightarrow> nat \<Rightarrow> Chunk \<Rightarrow> u16 \<Rightarrow> u16 \<Rightarrow> u16 \<Rightarrow> AndroidManifestIdentity \<Rightarrow> AndroidManifestIdentity outcome" where
  "manifest_element bs pool offset chunk attribute_start attribute_size attribute_count result =
     (let attributes = offset + 16 + unat attribute_start
      in if attributes > offset + unat (ch_size chunk) \<or>
            unat attribute_count * unat attribute_size > offset + unat (ch_size chunk) - attributes
         then Got (result\<lparr>am_error := ''Android manifest attributes exceed their chunk''\<rparr>)
         else and_then (manifest_attributes bs pool attributes (unat attribute_size) [0..<unat attribute_count] result)
           (\<lambda>r. case r of
              Inl result \<Rightarrow> Got result
            | Inr result \<Rightarrow>
                Got (if am_package_name result = [] \<or> am_version_code result = 0
                     then result\<lparr>am_error := ''Android manifest has no package or versionCode''\<rparr> else result)))"

text \<open>The header of a start element: the tag's index and the place of its attributes.\<close>

definition start_element :: "bytes \<Rightarrow> nat \<Rightarrow> Chunk \<Rightarrow> (u32 \<times> u16 \<times> u16 \<times> u16) outcome" where
  "start_element bs offset chunk =
     require (ch_header_size chunk = 16 \<and> unat (ch_size chunk) \<ge> 36)
       (and_then (Bytes_U32 bs (offset + 20)) (\<lambda>tag_index. and_then (Bytes_U16 bs (offset + 24)) (\<lambda>attribute_start.
        and_then (Bytes_U16 bs (offset + 26)) (\<lambda>attribute_size. and_then (Bytes_U16 bs (offset + 28)) (\<lambda>attribute_count.
          require (unat attribute_size \<ge> 20) (Got (tag_index, attribute_start, attribute_size, attribute_count)))))))"

lemma ReadChunk_Got:
  "ReadChunk bs offset = Got chunk \<Longrightarrow>
   unat (ch_header_size chunk) \<ge> 8 \<and> unat (ch_size chunk) \<ge> unat (ch_header_size chunk) \<and> offset + unat (ch_size chunk) \<le> length bs"
  by (auto simp: ReadChunk_def and_then_Got)

function parse_chunks ::
  "bytes \<Rightarrow> nat \<Rightarrow> nat \<Rightarrow> bytes list option \<Rightarrow> AndroidManifestIdentity \<Rightarrow> AndroidManifestIdentity outcome" where
  "parse_chunks bs xml_size offset pool result =
     (if offset < xml_size
      then case ReadChunk bs offset of
             OutOfBounds \<Rightarrow> OutOfBounds
           | Refused \<Rightarrow> Got (result\<lparr>am_error := ''AndroidManifest.xml contains an invalid chunk''\<rparr>)
           | Got chunk \<Rightarrow>
              if ch_type chunk = kStringPoolChunk
              then if pool \<noteq> None then Got (result\<lparr>am_error := ''duplicate Android string pool''\<rparr>)
                   else (case ParseStringPool bs offset chunk of
                           OutOfBounds \<Rightarrow> OutOfBounds
                         | Refused \<Rightarrow> Refused
                         | Got (Inl e) \<Rightarrow> Got (result\<lparr>am_error := e\<rparr>)
                         | Got (Inr strings) \<Rightarrow> parse_chunks bs xml_size (offset + unat (ch_size chunk)) (Some strings) result)
              else if ch_type chunk = kStartElementChunk \<and> pool \<noteq> None
              then case start_element bs offset chunk of
                     OutOfBounds \<Rightarrow> OutOfBounds
                   | Refused \<Rightarrow> Got (result\<lparr>am_error := ''Android XML start element is malformed''\<rparr>)
                   | Got (tag_index, attribute_start, attribute_size, attribute_count) \<Rightarrow>
                       if PoolString (the pool) tag_index \<noteq> Some (ascii ''manifest'')
                       then parse_chunks bs xml_size (offset + unat (ch_size chunk)) pool result
                       else manifest_element bs (the pool) offset chunk attribute_start attribute_size attribute_count result
              else parse_chunks bs xml_size (offset + unat (ch_size chunk)) pool result
      else Got (result\<lparr>am_error := ''Android manifest element is missing''\<rparr>))"
  by pat_completeness auto
termination
  by (relation "measure (\<lambda>(_, xml_size, offset, _). xml_size - offset)")
    (auto dest!: ReadChunk_Got)

declare parse_chunks.simps [simp del]

definition ParseAndroidManifest :: "bytes \<Rightarrow> AndroidManifestIdentity outcome" where
  "ParseAndroidManifest binary_xml =
     or_else
       (and_then (ReadChunk binary_xml 0) (\<lambda>xml.
         require (ch_type xml = kXmlChunk \<and> unat (ch_size xml) = length binary_xml) (Got xml)))
       (AndroidManifestIdentity_default\<lparr>am_error := ''AndroidManifest.xml is not valid binary XML''\<rparr>)
       (\<lambda>xml. parse_chunks binary_xml (unat (ch_size xml)) (unat (ch_header_size xml)) None AndroidManifestIdentity_default)"

end
