(* ===== verification/Manifest_Safety.thy ===== *)
theory Manifest_Safety
  imports Android_Manifest Jni_Text
begin

text \<open>
  The manifest reader on every input, and on the files of the format: it never indexes out of bounds and always
  returns a result, and from a file laid out as the format prescribes it reads what the \<open>manifest\<close> element says.
\<close>

section \<open>Every input\<close>

lemma safe_Bytes_U16 [simp]: "safe (Bytes_U16 bs offset)"
  by (auto simp: Bytes_U16_def intro!: safe_intros)

lemma safe_Bytes_U32 [simp]: "safe (Bytes_U32 bs offset)"
  by (auto simp: Bytes_U32_def intro!: safe_intros)

lemma safe_ReadChunk [simp]: "safe (ReadChunk bs offset)"
  by (auto simp: ReadChunk_def intro!: safe_intros)

lemma safe_ReadUtf8Length [simp]: "safe (ReadUtf8Length bs offset)"
  by (auto simp: ReadUtf8Length_def intro!: safe_intros)

lemma safe_ReadUtf16Length [simp]: "safe (ReadUtf16Length bs offset)"
  by (auto simp: ReadUtf16Length_def Let_def intro!: safe_intros)

lemma ReadUtf16Length_cursor: "ReadUtf16Length bs offset = Got (cursor, n) \<Longrightarrow> cursor \<le> length bs"
  by (auto simp: ReadUtf16Length_def and_then_Got Let_def split: if_splits)

lemma safe_utf8_value [simp]: "safe (utf8_value storage)"
  by (auto simp: utf8_value_def intro!: safe_intros)

lemma Bytes_U32_Got: "Bytes_U32 bs offset = Got w \<Longrightarrow> offset + 4 \<le> length bs"
  by (auto simp: Bytes_U32_def split: if_splits)

lemma safe_start_element [simp]: "safe (start_element bs offset chunk)"
  by (auto simp: start_element_def intro!: safe_intros)

section \<open>No refusal escapes\<close>

lemma answered_utf16_value: "position + 2 * n \<le> length storage \<Longrightarrow> answered (utf16_value storage position n acc)"
  by (induction n arbitrary: position acc)
    (auto simp: Let_def intro!: answered_and_then answered_byte safe_byte_at)

lemma answered_pool_value: "answered (pool_value utf8 storage)"
proof -
  have "answered (utf16_value storage cursor n [])"
    if "ReadUtf16Length storage 0 = Got (cursor, n)" "n \<le> (length storage - cursor) div 2" for cursor n
    using ReadUtf16Length_cursor [OF that(1)] that(2) by (intro answered_utf16_value) linarith
  then show ?thesis
    by (auto simp: pool_value_def and_then_Got intro!: answered_or_else safe_and_then safe_require)
qed

lemma answered_pool_strings: "answered (pool_strings bs offset chunk start utf8 indices strings)"
  by (induction indices arbitrary: strings)
    (auto intro!: answered_or_else answered_and_then answered_pool_value safe_and_then safe_require split: sum.splits)

lemma answered_ParseStringPool: "answered (ParseStringPool bs offset chunk)"
  by (auto simp: ParseStringPool_def intro!: answered_or_else answered_pool_strings safe_and_then safe_require)

text \<open>The type byte of an attribute lies between two words that were read before it.\<close>

lemma answered_manifest_attributes: "answered (manifest_attributes bs pool attributes sz indices result)"
proof (induction indices arbitrary: result)
  case (Cons index rest)
  have "answered (byte_at bs (a + 15))" if "Bytes_U32 bs (a + 16) = Got w" for a w
    using Bytes_U32_Got [OF that] by (intro answered_byte safe_byte_at) simp
  then show ?case using Cons
    by (auto simp: Let_def and_then_Got intro!: answered_or_else answered_and_then safe_and_then split: option.splits)
qed simp

lemma answered_manifest_element: "answered (manifest_element bs pool offset chunk start sz count result)"
  by (auto simp: manifest_element_def Let_def intro!: answered_and_then answered_manifest_attributes split: sum.splits)

lemma answered_parse_chunks: "answered (parse_chunks bs xml_size offset pool result)"
proof (induction bs xml_size offset pool result rule: parse_chunks.induct)
  case (1 bs xml_size offset pool result)
  have s: "ReadChunk bs offset \<noteq> OutOfBounds" "start_element bs offset chunk \<noteq> OutOfBounds" for chunk
    using safe_ReadChunk [of bs offset] safe_start_element [of bs offset chunk] by (simp_all add: safe_def)
  have p: "\<exists>r. ParseStringPool bs offset chunk = Got r" for chunk
    using answered_ParseStringPool [of bs offset chunk] by (simp add: answered_def)
  show ?case
    using 1 s p answered_manifest_element
    by (subst parse_chunks.simps) (auto split: outcome.splits sum.splits; metis outcome.distinct)
qed

section \<open>No error goes unnamed\<close>

definition identified :: "AndroidManifestIdentity \<Rightarrow> bool" where
  "identified r \<longleftrightarrow> (if am_error r = [] then am_package_name r \<noteq> [] \<and> am_version_code r \<noteq> 0 else True)"

lemma or_else_Got: "or_else m d f = Got r \<longleftrightarrow> (m = Refused \<and> d = r) \<or> (\<exists>x. m = Got x \<and> f x = Got r)"
  by (cases m) auto

lemma utf16_value_error [simp]: "utf16_value storage position n acc \<noteq> Got (Inl [])"
  by (induction n arbitrary: position acc) (auto simp: and_then_Got Let_def split: if_splits)

lemma pool_value_error [simp]: "pool_value utf8 storage \<noteq> Got (Inl [])"
  by (auto simp: pool_value_def or_else_Got and_then_Got split: if_splits)

lemma pool_strings_error [simp]: "pool_strings bs offset chunk start utf8 indices strings \<noteq> Got (Inl [])"
  by (induction indices arbitrary: strings) (auto simp: or_else_Got and_then_Got split: sum.split_asm)

lemma ParseStringPool_error [simp]: "ParseStringPool bs offset chunk \<noteq> Got (Inl [])"
  by (auto simp: ParseStringPool_def or_else_Got)

lemma manifest_attributes_error:
  "manifest_attributes bs pool attributes sz indices result = Got (Inl r) \<Longrightarrow> am_error r \<noteq> []"
  by (induction indices arbitrary: result)
    (auto simp: or_else_Got and_then_Got Let_def split: option.splits)

lemma manifest_element_identified:
  "manifest_element bs pool offset chunk start sz count result = Got r \<Longrightarrow> identified r"
  unfolding manifest_element_def Let_def
  by (cases "manifest_attributes bs pool (offset + 16 + unat start) (unat sz) [0..<unat count] result")
    (auto simp: identified_def dest: manifest_attributes_error split: if_splits sum.split_asm)

lemma parse_chunks_identified: "parse_chunks bs xml_size offset pool result = Got r \<Longrightarrow> identified r"
proof (induction bs xml_size offset pool result rule: parse_chunks.induct)
  case (1 bs xml_size offset pool result)
  have named: "identified (result\<lparr>am_error := e\<rparr>)" if "e \<noteq> []" for e
    using that by (simp add: identified_def)
  show ?case
    using 1(4) 1(1-3) manifest_element_identified ParseStringPool_error [of bs offset]
    by (subst (asm) parse_chunks.simps)
      (auto split: if_splits outcome.splits sum.splits prod.splits intro!: named)
qed

section \<open>The format\<close>

text \<open>
  Binary XML as the Android tools document it (\<open>ResChunk_header\<close>, \<open>ResStringPool_header\<close>, \<open>ResXMLTree_attrExt\<close>), as a
  predicate on the bytes of a file, with the freedom a writer has: the sizes of the headers, the order and place of the
  strings, the encoding of the pool, chunks of other types, the place and size of the attributes, what stands in the
  fields the reader does not use, and whatever follows the element. \<open>stands bs n xs\<close>: the bytes \<open>xs\<close> stand at offset \<open>n\<close>.
\<close>

definition enc16 :: "u16 \<Rightarrow> bytes" where
  "enc16 w = [ucast w, ucast (drop_bit 8 w)]"

definition enc32 :: "u32 \<Rightarrow> bytes" where
  "enc32 w = [ucast w, ucast (drop_bit 8 w), ucast (drop_bit 16 w), ucast (drop_bit 24 w)]"

definition enc_len :: "nat \<Rightarrow> bytes" where
  "enc_len n = (if n < 128 then [of_nat n] else [of_nat (128 + n div 256), of_nat (n mod 256)])"

definition enc_len16 :: "nat \<Rightarrow> bytes" where
  "enc_len16 n = (if n < 2 ^ 15 then enc16 (of_nat n) else enc16 (of_nat (2 ^ 15 + n div 2 ^ 16)) @ enc16 (of_nat (n mod 2 ^ 16)))"

definition stands :: "bytes \<Rightarrow> nat \<Rightarrow> bytes \<Rightarrow> bool" where
  "stands bs n xs \<longleftrightarrow> (\<exists>pre post. bs = pre @ xs @ post \<and> length pre = n)"

text \<open>
  A string of the pool: in a UTF-8 pool its length in characters, its length in bytes, its bytes and a zero; in a
  UTF-16 pool its length and its units, none of them a surrogate (the reader supports the basic plane), and a zero.
\<close>

definition string_bytes :: "bool \<Rightarrow> bytes \<Rightarrow> bytes \<Rightarrow> bool" where
  "string_bytes utf8 s xs \<longleftrightarrow>
     (if utf8 then \<exists>characters. characters < 2 ^ 15 \<and> length s < 2 ^ 15 \<and>
                     xs = enc_len characters @ enc_len (length s) @ s @ [0]
      else \<exists>units. length units < 2 ^ 31 \<and> list_all (\<lambda>u. \<not> is_surrogate u) units \<and> s = Utf16ToUtf8 units \<and>
             xs = enc_len16 (length units) @ concat (map enc16 units) @ enc16 0)"

definition chunk_at :: "bytes \<Rightarrow> nat \<Rightarrow> u16 \<Rightarrow> u16 \<Rightarrow> u32 \<Rightarrow> bool" where
  "chunk_at bs n type header extent \<longleftrightarrow>
     stands bs n (enc16 type) \<and> stands bs (n + 2) (enc16 header) \<and> stands bs (n + 4) (enc32 extent) \<and>
     8 \<le> unat header \<and> unat header \<le> unat extent \<and> n + unat extent \<le> length bs"

definition pool_at :: "bytes \<Rightarrow> nat \<Rightarrow> bool \<Rightarrow> bytes list \<Rightarrow> u32 \<Rightarrow> bool" where
  "pool_at bs n utf8 strings extent \<longleftrightarrow>
     (\<exists>header flags start. chunk_at bs n 0x0001 header extent \<and> 28 \<le> unat header \<and> length strings \<le> 1000000 \<and>
        stands bs (n + 8) (enc32 (of_nat (length strings))) \<and> stands bs (n + 16) (enc32 flags) \<and>
        (flags AND 0x100 \<noteq> 0) = utf8 \<and> stands bs (n + 20) (enc32 start) \<and>
        unat header + length strings * 4 \<le> unat extent \<and> unat start < unat extent \<and>
        (\<forall>i < length strings. \<exists>offset xs. stands bs (n + unat header + i * 4) (enc32 offset) \<and>
           string_bytes utf8 (strings ! i) xs \<and> stands bs (n + unat start + unat offset) xs \<and>
           unat start + unat offset + length xs \<le> unat extent))"

text \<open>An attribute: the indices of its name and of its text in the pool, its type and its data.\<close>

type_synonym attribute = "u32 \<times> u32 \<times> u8 \<times> u32"

fun attr_at :: "bytes \<Rightarrow> nat \<Rightarrow> attribute \<Rightarrow> bool" where
  "attr_at bs n (name, raw, type, data) \<longleftrightarrow>
     stands bs (n + 4) (enc32 name) \<and> stands bs (n + 8) (enc32 raw) \<and> stands bs (n + 15) [type] \<and> stands bs (n + 16) (enc32 data)"

definition element_at :: "bytes \<Rightarrow> nat \<Rightarrow> u32 \<Rightarrow> attribute list \<Rightarrow> u32 \<Rightarrow> bool" where
  "element_at bs n tag attrs extent \<longleftrightarrow>
     (\<exists>start asize. chunk_at bs n 0x0102 16 extent \<and> 36 \<le> unat extent \<and> stands bs (n + 20) (enc32 tag) \<and>
        stands bs (n + 24) (enc16 start) \<and> stands bs (n + 26) (enc16 asize) \<and> 20 \<le> unat asize \<and>
        length attrs < 2 ^ 16 \<and> stands bs (n + 28) (enc16 (of_nat (length attrs))) \<and>
        16 + unat start + length attrs * unat asize \<le> unat extent \<and>
        (\<forall>i < length attrs. attr_at bs (n + 16 + unat start + i * unat asize) (attrs ! i)))"

inductive other_chunks :: "bytes \<Rightarrow> nat \<Rightarrow> nat \<Rightarrow> bool" for bs where
  no_chunk: "other_chunks bs n n"
| other_chunk: "chunk_at bs n type header extent \<Longrightarrow> type \<noteq> 0x0001 \<Longrightarrow> type \<noteq> 0x0102 \<Longrightarrow>
    other_chunks bs (n + unat extent) m \<Longrightarrow> other_chunks bs n m"

definition string_ref :: "bytes list \<Rightarrow> u32 \<Rightarrow> bytes option" where
  "string_ref strings i = (if unat i < length strings then Some (strings ! unat i) else None)"

definition manifest_file :: "bool \<Rightarrow> bytes list \<Rightarrow> attribute list \<Rightarrow> bytes \<Rightarrow> bool" where
  "manifest_file utf8 strings attrs bs \<longleftrightarrow>
     (\<exists>header extent pool pool_total element tag element_total.
        chunk_at bs 0 0x0003 header extent \<and> unat extent = length bs \<and> other_chunks bs (unat header) pool \<and>
        pool_at bs pool utf8 strings pool_total \<and> other_chunks bs (pool + unat pool_total) element \<and>
        element_at bs element tag attrs element_total \<and> string_ref strings tag = Some (ascii ''manifest''))"

text \<open>
  What the element says: the text of an attribute is its raw text or, for one of string type, the string its data
  refers to; its number is the data of one of integer type. Of several attributes with the name the last one counts.
\<close>

fun attribute_text :: "bytes list \<Rightarrow> bytes \<Rightarrow> attribute \<Rightarrow> bytes option" where
  "attribute_text strings name (n, raw, type, data) =
     (if string_ref strings n \<noteq> Some name then None
      else case string_ref strings raw of Some s \<Rightarrow> Some s | None \<Rightarrow> if type = 0x03 then string_ref strings data else None)"

fun attribute_number :: "bytes list \<Rightarrow> bytes \<Rightarrow> attribute \<Rightarrow> u64 option" where
  "attribute_number strings name (n, raw, type, data) =
     (if string_ref strings n = Some name \<and> 0x10 \<le> type \<and> type \<le> 0x1f then Some (ucast data) else None)"

definition manifest_text :: "bytes list \<Rightarrow> attribute list \<Rightarrow> bytes \<Rightarrow> bytes" where
  "manifest_text strings attrs name = last ([] # List.map_filter (attribute_text strings name) attrs)"

definition manifest_number :: "bytes list \<Rightarrow> attribute list \<Rightarrow> bytes \<Rightarrow> u64" where
  "manifest_number strings attrs name = last (0 # List.map_filter (attribute_number strings name) attrs)"

lemma length_enc [simp]: "length (enc16 w) = 2" "length (enc32 v) = 4"
  by (simp_all add: enc16_def enc32_def)

subsection \<open>Reading what stands at an offset\<close>

lemma stands_append: "stands bs n (xs @ ys) \<longleftrightarrow> stands bs n xs \<and> stands bs (n + length xs) ys"
proof
  assume "stands bs n (xs @ ys)"
  then obtain pre post where "bs = pre @ xs @ ys @ post" "length pre = n" by (auto simp: stands_def)
  then show "stands bs n xs \<and> stands bs (n + length xs) ys"
    unfolding stands_def by (metis append_assoc length_append)
next
  assume "stands bs n xs \<and> stands bs (n + length xs) ys"
  then obtain pre post pre' post' where e: "bs = pre @ xs @ post" "length pre = n" "bs = pre' @ ys @ post'" "length pre' = n + length xs"
    unfolding stands_def by blast
  then have "pre' = pre @ xs" by (metis append.assoc append_eq_append_conv length_append)
  then show "stands bs n (xs @ ys)" using e unfolding stands_def by (metis append_assoc)
qed

lemma stands_within: "stands bs n xs \<Longrightarrow> n + length xs \<le> length bs"
  by (auto simp: stands_def)

lemma stands_nth: "stands bs n xs \<Longrightarrow> i < length xs \<Longrightarrow> bs ! (n + i) = xs ! i"
  by (auto simp: stands_def nth_append)

lemma le16_enc: "le16 (ucast w) (ucast (drop_bit 8 w)) = w"
  by (intro bit_word_eqI) (auto simp: le16_def bit_or_iff bit_push_bit_iff bit_unsigned_iff bit_drop_bit_eq)

lemma le32_enc: "le32 (ucast w) (ucast (drop_bit 8 w)) (ucast (drop_bit 16 w)) (ucast (drop_bit 24 w)) = w"
proof (rule bit_word_eqI)
  fix n assume n: "n < LENGTH(32)"
  then consider "n < 8" | "8 \<le> n \<and> n < 16" | "16 \<le> n \<and> n < 24" | "24 \<le> n \<and> n < 32" by fastforce
  then show "bit (le32 (ucast w) (ucast (drop_bit 8 w)) (ucast (drop_bit 16 w)) (ucast (drop_bit 24 w))) n = bit w n"
    using n by cases (auto simp: le32_def bit_or_iff bit_push_bit_iff bit_unsigned_iff bit_drop_bit_eq)
qed

lemma stands_U16: "stands bs n (enc16 w) \<Longrightarrow> Bytes_U16 bs n = Got w"
  using stands_within [of bs n "enc16 w"] stands_nth [of bs n "enc16 w" 0] stands_nth [of bs n "enc16 w" 1]
  by (simp add: Bytes_U16_def byte_at_def enc16_def le16_enc)

lemma stands_U32: "stands bs n (enc32 w) \<Longrightarrow> Bytes_U32 bs n = Got w"
  using stands_within [of bs n "enc32 w"] stands_nth [of bs n "enc32 w" 0] stands_nth [of bs n "enc32 w" 1]
    stands_nth [of bs n "enc32 w" 2] stands_nth [of bs n "enc32 w" 3]
  by (simp add: Bytes_U32_def byte_at_def enc32_def le32_enc)

lemma stands_byte: "stands bs n [b] \<Longrightarrow> byte_at bs n = Got b"
  using stands_within [of bs n "[b]"] stands_nth [of bs n "[b]" 0] by (simp add: byte_at_def)

lemma stands_slice:
  assumes "stands bs n xs" "length xs \<le> k" "n + k \<le> length bs"
  shows "\<exists>rest. Bytes_Slice bs n k = xs @ rest"
  using assms by (auto simp: stands_def Bytes_Slice_def)

subsection \<open>The string pool\<close>

lemma u8_low7: "unat ((w::u8) AND 0x7f) = unat w mod 128"
proof -
  have "unat w AND 127 = take_bit 7 (unat w)" by (simp only: take_bit_eq_mask) (simp add: mask_eq_exp_minus_1)
  then show ?thesis by (simp add: unsigned_and_eq take_bit_eq_mod)
qed

lemma u8_high: "(w::u8) AND 0x80 = 0 \<longleftrightarrow> unat w < 128"
proof -
  have "(w::u8) AND 0x80 = 0 \<longleftrightarrow> \<not> bit w 7"
    using and_exp_eq_0_iff_not_bit [of w 7] by simp
  also have "\<dots> \<longleftrightarrow> \<not> odd (unat w div 128)"
    using bit_unsigned_iff [of w 7, where ?'a = nat] by (simp add: bit_iff_odd)
  also have "\<dots> \<longleftrightarrow> unat w div 128 = 0"
  proof -
    have "unat w < 256" using unsigned_less [of w, where ?'a = nat] by simp
    then have "unat w div 128 < 2" by (simp add: less_mult_imp_div_less)
    then show ?thesis by (auto simp: less_2_cases_iff)
  qed
  also have "\<dots> \<longleftrightarrow> unat w < 128" by (simp add: div_eq_0_iff)
  finally show ?thesis .
qed

lemma ReadUtf8Length_enc:
  assumes "n < 2 ^ 15" "stands bs k (enc_len n)"
  shows "ReadUtf8Length bs k = Got (k + length (enc_len n), n)"
proof (cases "n < 128")
  case True
  then have b: "unat (of_nat n :: u8) = n" by (simp add: unat_of_nat)
  then have "of_nat n AND (0x80 :: u8) = 0" using True by (simp add: u8_high)
  then show ?thesis
    using assms(2) True stands_within [OF assms(2)] stands_byte [of bs k "of_nat n"] b
    by (simp add: ReadUtf8Length_def enc_len_def)
next
  case False
  let ?a = "of_nat (128 + n div 256) :: u8" and ?b = "of_nat (n mod 256) :: u8"
  have d: "n div 256 < 128" using assms(1) by simp
  have st: "stands bs k [?a]" "stands bs (k + 1) [?b]"
    using assms(2) False stands_append [of bs k "[?a]" "[?b]"] by (simp_all add: enc_len_def)
  have u: "unat ?a = 128 + n div 256" "unat ?b = n mod 256" using d by (simp_all add: unat_of_nat del: of_nat_add)
  then have "?a AND 0x80 \<noteq> 0" "unat (?a AND 0x7f) = n div 256" using d by (simp_all add: u8_high u8_low7 del: of_nat_add)
  then show ?thesis
    using False u stands_byte [OF st(1)] stands_byte [OF st(2)] stands_within [OF st(2)]
    by (simp add: ReadUtf8Length_def enc_len_def del: of_nat_add)
qed

lemma utf8_value_enc:
  assumes "k < 2 ^ 15" "length s < 2 ^ 15"
  shows "utf8_value (enc_len k @ enc_len (length s) @ s @ [0] @ rest) = Got s"
proof -
  let ?bs = "enc_len k @ enc_len (length s) @ s @ [0] @ rest" and ?k = "length (enc_len k)" and ?l = "length (enc_len (length s))"
  have "stands ?bs 0 (enc_len k @ enc_len (length s) @ s @ [0])" unfolding stands_def
    by (rule exI [of _ "[]"], rule exI [of _ rest]) simp
  then have st: "stands ?bs 0 (enc_len k)" "stands ?bs ?k (enc_len (length s))" "stands ?bs (?k + ?l + length s) [0]"
    by (simp_all add: stands_append)
  show ?thesis
    using ReadUtf8Length_enc [OF assms(1) st(1)] ReadUtf8Length_enc [OF assms(2) st(2)] stands_byte [OF st(3)] stands_within [OF st(3)]
    by (simp add: utf8_value_def require_def)
qed

lemma u16_low15: "unat ((w::u16) AND 0x7fff) = unat w mod 2 ^ 15"
proof -
  have "unat w AND 32767 = take_bit 15 (unat w)" by (simp only: take_bit_eq_mask) (simp add: mask_eq_exp_minus_1)
  then show ?thesis by (simp add: unsigned_and_eq take_bit_eq_mod)
qed

lemma u16_high: "(w::u16) AND 0x8000 = 0 \<longleftrightarrow> unat w < 2 ^ 15"
proof -
  have "(w::u16) AND 0x8000 = 0 \<longleftrightarrow> \<not> bit w 15"
    using and_exp_eq_0_iff_not_bit [of w 15] by simp
  also have "\<dots> \<longleftrightarrow> \<not> odd (unat w div 2 ^ 15)"
    using bit_unsigned_iff [of w 15, where ?'a = nat] by (simp add: bit_iff_odd)
  also have "\<dots> \<longleftrightarrow> unat w div 2 ^ 15 = 0"
  proof -
    have "unat w < 2 ^ 16" using unsigned_less [of w, where ?'a = nat] by simp
    then have "unat w div 2 ^ 15 < 2" by (simp add: less_mult_imp_div_less)
    then show ?thesis by (auto simp: less_2_cases_iff)
  qed
  also have "\<dots> \<longleftrightarrow> unat w < 2 ^ 15" by (simp add: div_eq_0_iff)
  finally show ?thesis .
qed

lemma enc16_bytes: "stands bs k (enc16 w) \<Longrightarrow> byte_at bs k = Got (ucast w) \<and> byte_at bs (k + 1) = Got (ucast (drop_bit 8 w))"
  using stands_append [of bs k "[ucast w]" "[ucast (drop_bit 8 w)]"] stands_byte by (auto simp: enc16_def)

lemma ReadUtf16Length_enc:
  assumes "n < 2 ^ 31" "stands bs k (enc_len16 n)"
  shows "ReadUtf16Length bs k = Got (k + length (enc_len16 n), n)"
proof (cases "n < 2 ^ 15")
  case True
  let ?w = "of_nat n :: u16"
  have st: "stands bs k (enc16 ?w)" using assms(2) True by (simp add: enc_len16_def)
  have "unat ?w = n" using True by (simp add: unat_of_nat)
  then have "?w AND 0x8000 = 0" using True by (simp add: u16_high)
  then show ?thesis
    using True enc16_bytes [OF st] stands_within [OF st] \<open>unat ?w = n\<close>
    by (simp add: ReadUtf16Length_def enc_len16_def le16_enc Let_def)
next
  case False
  let ?a = "of_nat (2 ^ 15 + n div 2 ^ 16) :: u16" and ?b = "of_nat (n mod 2 ^ 16) :: u16"
  have d: "n div 2 ^ 16 < 2 ^ 15" using assms(1) by (simp add: less_mult_imp_div_less)
  have st: "stands bs k (enc16 ?a)" "stands bs (k + 2) (enc16 ?b)"
    using assms(2) False by (simp_all add: enc_len16_def stands_append del: of_nat_add)
  have u: "unat ?a = 2 ^ 15 + n div 2 ^ 16" "unat ?b = n mod 2 ^ 16" using d by (simp_all add: unat_of_nat del: of_nat_add)
  then have "?a AND 0x8000 \<noteq> 0" "unat (?a AND 0x7fff) = n div 2 ^ 16" using d by (simp_all add: u16_high u16_low15 del: of_nat_add)
  moreover have "byte_at bs (k + 3) = Got (ucast (drop_bit 8 ?b))" using enc16_bytes [OF st(2)] by (simp add: numeral_3_eq_3)
  moreover have "\<not> length bs < k" "\<not> length bs < k + 2" "\<not> length bs - k < 2" "\<not> length bs - (k + 2) < 2"
    using stands_within [OF st(2)] by auto
  ultimately show ?thesis
    using False u enc16_bytes [OF st(1)] enc16_bytes [OF st(2)]
    by (simp add: ReadUtf16Length_def enc_len16_def le16_enc Let_def del: of_nat_add)
qed

text \<open>The reader's own UTF-8 encoder agrees with the one of the JNI strings.\<close>

lemma AppendUtf8_unit: "AppendUtf8 u = AppendUtf8CodePoint (ucast u)"
proof -
  have same: "unat (ucast m :: u32) = unat m" for m :: u16
    using unsigned_less [of m, where ?'a = nat] by (simp add: unsigned_ucast_eq take_bit_nat_eq_self)
  have "(ucast u :: u32) \<le> 0x7f \<longleftrightarrow> u \<le> 0x7f" "(ucast u :: u32) \<le> 0x7ff \<longleftrightarrow> u \<le> 0x7ff" "(ucast u :: u32) \<le> 0xffff"
    using same [of u] unsigned_less [of u, where ?'a = nat] by (simp_all add: word_le_nat_alt)
  then show ?thesis
    by (auto simp: AppendUtf8_def AppendUtf8CodePoint_def byte_def intro!: bit_word_eqI
        simp: bit_simps)
qed

lemma high_is_surrogate: "is_high_surrogate u \<Longrightarrow> is_surrogate u"
  by (auto simp: is_surrogate_def is_high_surrogate_def intro: order_trans)

lemma encode_units_plain:
  "list_all (\<lambda>u. \<not> is_surrogate u) us \<Longrightarrow> encode_units bad us = concat (map AppendUtf8 us)"
  by (induction bad us rule: encode_units.induct)
    (auto simp: AppendUtf8_unit dest: high_is_surrogate)

lemma utf16_value_enc:
  assumes "stands bs k (concat (map enc16 us))" "list_all (\<lambda>u. \<not> is_surrogate u) us"
  shows "utf16_value bs k (length us) acc = Got (Inr (acc @ concat (map AppendUtf8 us)))"
  using assms
proof (induction us arbitrary: k acc)
  case (Cons u us)
  then have st: "stands bs k (enc16 u)" "stands bs (k + 2) (concat (map enc16 us))" by (simp_all add: stands_append)
  then show ?case
    using Cons enc16_bytes [OF st(1)] by (simp add: le16_enc is_surrogate_def Let_def)
qed simp

lemma pool_value_enc:
  assumes "string_bytes utf8 s xs"
  shows "pool_value utf8 (xs @ rest) = Got (Inr s)" "xs \<noteq> []"
proof -
  have "pool_value utf8 (xs @ rest) = Got (Inr s) \<and> xs \<noteq> []"
  proof (cases utf8)
    case True
    then show ?thesis using assms utf8_value_enc by (auto simp: string_bytes_def pool_value_def)
  next
    case False
    then obtain us where us: "length us < 2 ^ 31" "list_all (\<lambda>u. \<not> is_surrogate u) us" "s = concat (map AppendUtf8 us)"
        "xs = enc_len16 (length us) @ concat (map enc16 us) @ enc16 0"
      using assms by (auto simp: string_bytes_def Utf16ToUtf8_def encode_units_plain)
    let ?bs = "xs @ rest" and ?l = "length (enc_len16 (length us))"
    have "stands ?bs 0 xs" unfolding stands_def by (rule exI [of _ "[]"], rule exI [of _ rest]) simp
    then have st: "stands ?bs 0 (enc_len16 (length us))" "stands ?bs ?l (concat (map enc16 us))"
      unfolding us(4) by (simp_all add: stands_append)
    have "length (concat (map enc16 us)) = 2 * length us" by (induction us) simp_all
    then have "length us \<le> (length ?bs - ?l) div 2" by (simp add: us(4))
    then have "pool_value utf8 ?bs = Got (Inr s)"
      using False ReadUtf16Length_enc [OF us(1) st(1)] utf16_value_enc [OF st(2) us(2), of "[]"] us(3)
      by (simp add: pool_value_def require_def)
    then show ?thesis by (simp add: us(4) enc16_def)
  qed
  then show "pool_value utf8 (xs @ rest) = Got (Inr s)" "xs \<noteq> []" by auto
qed

subsection \<open>Chunks\<close>

lemma chunk_read: "chunk_at bs n type header extent \<Longrightarrow> ReadChunk bs n = Got \<lparr>ch_type = type, ch_header_size = header, ch_size = extent\<rparr>"
  using stands_U16 [of bs n type] stands_U16 [of bs "n + 2" header] stands_U32 [of bs "n + 4" extent]
  by (auto simp: chunk_at_def ReadChunk_def require_def)

lemma chunk_bound: "chunk_at bs n type header extent \<Longrightarrow> n < length bs"
  by (auto simp: chunk_at_def)

lemma other_chunks_read:
  "other_chunks bs n m \<Longrightarrow> parse_chunks bs (length bs) n pool r = parse_chunks bs (length bs) m pool r"
proof (induction rule: other_chunks.induct)
  case (other_chunk n type header extent m)
  then show ?case
    using chunk_read [OF other_chunk(1)] chunk_bound [OF other_chunk(1)]
    by (subst parse_chunks.simps) (simp add: kStringPoolChunk_def kStartElementChunk_def)
qed simp

lemma pool_strings_read:
  assumes "\<And>i. i < length strings \<Longrightarrow> \<exists>offset xs. stands bs (n + unat header + i * 4) (enc32 offset) \<and>
      string_bytes utf8 (strings ! i) xs \<and> stands bs (n + unat start + unat offset) xs \<and>
      unat start + unat offset + length xs \<le> unat extent"
    and "n + unat extent \<le> length bs" "i \<le> length strings"
  shows "pool_strings bs n \<lparr>ch_type = type, ch_header_size = header, ch_size = extent\<rparr> (unat start) utf8 [i..<length strings]
    (take i strings) = Got (Inr strings)"
  using assms(3)
proof (induction rule: inc_induct)
  case (step i)
  obtain offset xs where o: "stands bs (n + unat header + i * 4) (enc32 offset)" "string_bytes utf8 (strings ! i) xs"
      "stands bs (n + unat start + unat offset) xs" "unat start + unat offset + length xs \<le> unat extent"
    using assms(1) [OF step(2)] by blast
  note v = pool_value_enc [OF o(2)]
  have "length xs \<le> unat extent - unat start - unat offset" "n + unat start + unat offset + (unat extent - unat start - unat offset) \<le> length bs"
    using o(4) assms(2) by linarith+
  then obtain rest where "Bytes_Slice bs (n + unat start + unat offset) (unat extent - unat start - unat offset) = xs @ rest"
    using stands_slice [OF o(3)] by blast
  moreover have "unat offset < unat extent - unat start" using o(4) v(2) by (cases xs) simp_all
  ultimately show ?case
    using step v(1) stands_U32 [OF o(1)] by (simp add: upt_conv_Cons require_def take_Suc_conv_app_nth)
qed simp

lemma pool_read:
  assumes "pool_at bs n utf8 strings extent"
  shows "parse_chunks bs (length bs) n None r = parse_chunks bs (length bs) (n + unat extent) (Some strings) r"
    "length strings \<le> 1000000"
proof -
  obtain header flags start where p: "chunk_at bs n 0x0001 header extent" "28 \<le> unat header" "length strings \<le> 1000000"
      "stands bs (n + 8) (enc32 (of_nat (length strings)))" "stands bs (n + 16) (enc32 flags)" "(flags AND 0x100 \<noteq> 0) = utf8"
      "stands bs (n + 20) (enc32 start)" "unat header + length strings * 4 \<le> unat extent" "unat start < unat extent"
    and strs: "\<And>i. i < length strings \<Longrightarrow> \<exists>offset xs. stands bs (n + unat header + i * 4) (enc32 offset) \<and>
      string_bytes utf8 (strings ! i) xs \<and> stands bs (n + unat start + unat offset) xs \<and>
      unat start + unat offset + length xs \<le> unat extent"
    using assms unfolding pool_at_def by blast
  let ?c = "\<lparr>ch_type = 0x0001, ch_header_size = header, ch_size = extent\<rparr>"
  have "n + unat extent \<le> length bs" using p(1) by (simp add: chunk_at_def)
  then have "pool_strings bs n ?c (unat start) utf8 [0..<length strings] [] = Got (Inr strings)"
    using pool_strings_read [OF strs _ le0] by simp
  moreover have "unat (of_nat (length strings) :: u32) = length strings" using p(3) by (simp add: unat_of_nat)
  ultimately have "ParseStringPool bs n ?c = Got (Inr strings)"
    using p(2,3,6,8,9) stands_U32 [OF p(4)] stands_U32 [OF p(5)] stands_U32 [OF p(7)]
    by (simp add: ParseStringPool_def require_def kUtf8Flag_def)
  then show "parse_chunks bs (length bs) n None r = parse_chunks bs (length bs) (n + unat extent) (Some strings) r"
    using chunk_read [OF p(1)] chunk_bound [OF p(1)] by (subst parse_chunks.simps) (simp add: kStringPoolChunk_def)
  show "length strings \<le> 1000000" by (rule p(3))
qed

subsection \<open>The element\<close>

lemma PoolString_ref: "length strings \<le> 1000000 \<Longrightarrow> PoolString strings i = string_ref strings i"
  by (auto simp: PoolString_def string_ref_def kNoIndex_def)

text \<open>What one attribute contributes.\<close>

fun apply_attr :: "bytes list \<Rightarrow> attribute \<Rightarrow> AndroidManifestIdentity \<Rightarrow> AndroidManifestIdentity" where
  "apply_attr pool (name, raw, type, data) result =
     (case PoolString pool name of
        None \<Rightarrow> result
      | Some n \<Rightarrow>
          set_attribute n (case PoolString pool raw of Some s \<Rightarrow> Some s
                           | None \<Rightarrow> if type = kTypeString then PoolString pool data else None) type data result)"

lemma attributes_read:
  assumes "\<And>i. i < length attrs \<Longrightarrow> attr_at bs (n + i * k) (attrs ! i)" and "i \<le> length attrs"
  shows "manifest_attributes bs pool n k [i..<length attrs] (fold (apply_attr pool) (take i attrs) r) =
    Got (Inr (fold (apply_attr pool) attrs r))"
  using assms(2)
proof (induction rule: inc_induct)
  case (step i)
  obtain name raw type data where a: "attrs ! i = (name, raw, type, data)" by (metis prod_cases4)
  then have s: "stands bs (n + i * k + 4) (enc32 name)" "stands bs (n + i * k + 8) (enc32 raw)"
      "stands bs (n + i * k + 15) [type]" "stands bs (n + i * k + 16) (enc32 data)"
    using assms(1) [OF step(2)] by simp_all
  show ?case
    using step stands_U32 [OF s(1)] stands_U32 [OF s(2)] stands_U32 [OF s(4)] stands_byte [OF s(3)] a
    by (cases "PoolString pool name"; cases "PoolString pool raw")
      (simp_all add: upt_conv_Cons take_Suc_conv_app_nth Let_def)
qed simp

definition manifest_result :: "AndroidManifestIdentity \<Rightarrow> AndroidManifestIdentity" where
  "manifest_result r = (if am_package_name r = [] \<or> am_version_code r = 0
     then r\<lparr>am_error := ''Android manifest has no package or versionCode''\<rparr> else r)"

lemma element_read:
  assumes "element_at bs n tag attrs extent" "PoolString pool tag = Some (ascii ''manifest'')"
  shows "parse_chunks bs (length bs) n (Some pool) r = Got (manifest_result (fold (apply_attr pool) attrs r))"
proof -
  obtain start asize where e: "chunk_at bs n 0x0102 16 extent" "36 \<le> unat extent" "stands bs (n + 20) (enc32 tag)"
      "stands bs (n + 24) (enc16 start)" "stands bs (n + 26) (enc16 asize)" "20 \<le> unat asize" "length attrs < 2 ^ 16"
      "stands bs (n + 28) (enc16 (of_nat (length attrs)))" "16 + unat start + length attrs * unat asize \<le> unat extent"
    and a: "\<And>i. i < length attrs \<Longrightarrow> attr_at bs (n + 16 + unat start + i * unat asize) (attrs ! i)"
    using assms(1) unfolding element_at_def by blast
  let ?c = "\<lparr>ch_type = 0x0102, ch_header_size = 16, ch_size = extent\<rparr>"
  have u: "unat (of_nat (length attrs) :: u16) = length attrs" using e(7) by (simp add: unat_of_nat)
  have s: "start_element bs n ?c = Got (tag, start, asize, of_nat (length attrs))"
    using e(2,6) stands_U32 [OF e(3)] stands_U16 [OF e(4)] stands_U16 [OF e(5)] stands_U16 [OF e(8)]
    by (simp add: start_element_def require_def)
  have "manifest_attributes bs pool (n + 16 + unat start) (unat asize) [0..<length attrs] r = Got (Inr (fold (apply_attr pool) attrs r))"
    using attributes_read [OF a le0] by simp
  then have m: "manifest_element bs pool n ?c start asize (of_nat (length attrs)) r = Got (manifest_result (fold (apply_attr pool) attrs r))"
    using u e(9) by (simp add: manifest_element_def manifest_result_def Let_def)
  show ?thesis
    using chunk_read [OF e(1)] chunk_bound [OF e(1)] s m assms(2)
    by (subst parse_chunks.simps) (simp add: kStringPoolChunk_def kStartElementChunk_def)
qed

text \<open>The attributes together give what the element says.\<close>

lemma last_filtered: "last (x # List.map_filter f (a # as)) = last ((case f a of None \<Rightarrow> x | Some v \<Rightarrow> v) # List.map_filter f as)"
  by (simp add: List.map_filter_simps split: option.split)

lemma attributes_identity:
  assumes "length strings \<le> 1000000"
  shows "fold (apply_attr strings) attrs r =
    \<lparr>am_package_name = last (am_package_name r # List.map_filter (attribute_text strings (ascii ''package'')) attrs),
     am_version_name = last (am_version_name r # List.map_filter (attribute_text strings (ascii ''versionName'')) attrs),
     am_split_name = last (am_split_name r # List.map_filter (attribute_text strings (ascii ''split'')) attrs),
     am_version_code = last (am_version_code r # List.map_filter (attribute_number strings (ascii ''versionCode'')) attrs),
     am_error = am_error r\<rparr>"
proof (induction attrs arbitrary: r)
  case Nil
  then show ?case by (simp add: List.map_filter_simps)
next
  case (Cons a attrs)
  obtain n raw type data where a: "a = (n, raw, type, data)" by (metis prod_cases4)
  have names: "ascii ''package'' \<noteq> ascii ''versionName''" "ascii ''package'' \<noteq> ascii ''split''" "ascii ''package'' \<noteq> ascii ''versionCode''"
      "ascii ''versionName'' \<noteq> ascii ''split''" "ascii ''versionName'' \<noteq> ascii ''versionCode''" "ascii ''split'' \<noteq> ascii ''versionCode''"
    by (simp_all add: ascii_def)
  have "apply_attr strings a r =
      \<lparr>am_package_name = (case attribute_text strings (ascii ''package'') a of None \<Rightarrow> am_package_name r | Some v \<Rightarrow> v),
       am_version_name = (case attribute_text strings (ascii ''versionName'') a of None \<Rightarrow> am_version_name r | Some v \<Rightarrow> v),
       am_split_name = (case attribute_text strings (ascii ''split'') a of None \<Rightarrow> am_split_name r | Some v \<Rightarrow> v),
       am_version_code = (case attribute_number strings (ascii ''versionCode'') a of None \<Rightarrow> am_version_code r | Some v \<Rightarrow> v),
       am_error = am_error r\<rparr>"
    using names unfolding a
    by (cases r) (auto simp: PoolString_ref [OF assms] set_attribute_def kTypeString_def split: option.splits)
  then show ?case unfolding last_filtered fold_Cons comp_def Cons.IH by simp
qed

section \<open>Properties\<close>

text \<open>
  C14. The manifest reader is total and memory safe: on every input it returns a result, no index it uses is out
  of bounds, and a result without an error names a package and has a version code.
\<close>

theorem manifest_reader_total:
  "\<exists>result. ParseAndroidManifest bs = Got result \<and>
     (if am_error result = [] then am_package_name result \<noteq> [] \<and> am_version_code result \<noteq> 0 else True)"
proof -
  have "answered (ParseAndroidManifest bs)"
    unfolding ParseAndroidManifest_def by (intro answered_or_else answered_parse_chunks safe_and_then safe_require) simp_all
  then obtain result where r: "ParseAndroidManifest bs = Got result" by (auto simp: answered_def)
  then have "identified result"
    by (auto simp: ParseAndroidManifest_def or_else_Got identified_def [of "_\<lparr>am_error := _\<rparr>"] intro: parse_chunks_identified)
  with r show ?thesis by (auto simp: identified_def)
qed

text \<open>
  C16. The manifest reader reads the format: from every file in the documented binary format (either encoding of the
  string pool, any order of strings and attributes, any other chunks and any sizes and fields the format leaves open;
  UTF-16 strings without surrogates) it reads exactly the package, version name, split name and version code
  that the attributes of the \<open>manifest\<close> element give, and it reports a missing package or version code as an error.
\<close>

theorem manifest_format_read:
  assumes "manifest_file utf8 strings attrs bs"
  shows "ParseAndroidManifest bs =
    Got \<lparr>am_package_name = manifest_text strings attrs (ascii ''package''),
         am_version_name = manifest_text strings attrs (ascii ''versionName''),
         am_split_name = manifest_text strings attrs (ascii ''split''),
         am_version_code = manifest_number strings attrs (ascii ''versionCode''),
         am_error = (if manifest_text strings attrs (ascii ''package'') = [] \<or> manifest_number strings attrs (ascii ''versionCode'') = 0
                     then ''Android manifest has no package or versionCode'' else [])\<rparr>"
proof -
  obtain header extent pool pool_total element tag element_total where
    m: "chunk_at bs 0 0x0003 header extent" "unat extent = length bs" "other_chunks bs (unat header) pool"
      "pool_at bs pool utf8 strings pool_total" "other_chunks bs (pool + unat pool_total) element"
      "element_at bs element tag attrs element_total" "string_ref strings tag = Some (ascii ''manifest'')"
    using assms unfolding manifest_file_def by blast
  note p = pool_read [OF m(4)]
  have "PoolString strings tag = Some (ascii ''manifest'')" using m(7) PoolString_ref [OF p(2)] by simp
  then have "parse_chunks bs (length bs) (unat header) None AndroidManifestIdentity_default =
      Got (manifest_result (fold (apply_attr strings) attrs AndroidManifestIdentity_default))"
    using other_chunks_read [OF m(3)] p(1) other_chunks_read [OF m(5)] element_read [OF m(6)] by simp
  moreover have "fold (apply_attr strings) attrs AndroidManifestIdentity_default =
    \<lparr>am_package_name = manifest_text strings attrs (ascii ''package''),
     am_version_name = manifest_text strings attrs (ascii ''versionName''),
     am_split_name = manifest_text strings attrs (ascii ''split''),
     am_version_code = manifest_number strings attrs (ascii ''versionCode''), am_error = []\<rparr>"
    unfolding attributes_identity [OF p(2)]
    by (simp add: manifest_text_def manifest_number_def AndroidManifestIdentity_default_def)
  ultimately show ?thesis
    using chunk_read [OF m(1)] m(2)
    by (simp add: ParseAndroidManifest_def require_def kXmlChunk_def manifest_result_def)
qed

text \<open>
  A file with a UTF-16 pool, a chunk between the pool and the element, and the attributes in an order of its own; the
  name of the package is one character that takes two bytes in UTF-8.
\<close>

definition sample_units :: "u16 list list" where
  "sample_units = map (map (\<lambda>c. ucast (of_char c :: u8))) [''manifest'', ''package'', ''versionCode''] @ [[0xe9]]"

definition sample_string :: "u16 list \<Rightarrow> bytes" where
  "sample_string units = enc_len16 (length units) @ concat (map enc16 units) @ enc16 0"

definition sample_pool :: bytes where
  "sample_pool = enc16 1 @ enc16 28 @ enc32 114 @ enc32 4 @ enc32 0 @ enc32 0 @ enc32 44 @ enc32 0 @
     concat (map enc32 [0, 20, 38, 64]) @ concat (map sample_string sample_units)"

definition sample_attr :: "attribute \<Rightarrow> bytes" where
  "sample_attr a = (case a of (name, raw, type, data) \<Rightarrow>
     enc32 0xffffffff @ enc32 name @ enc32 raw @ [8, 0, 0, type] @ enc32 data)"

definition sample_attrs :: "attribute list" where
  "sample_attrs = [(2, 0xffffffff, 0x10, 7), (1, 3, 3, 3)]"

definition sample_manifest :: bytes where
  "sample_manifest = enc16 3 @ enc16 8 @ enc32 206 @ sample_pool @ enc16 0x180 @ enc16 8 @ enc32 8 @
     enc16 0x102 @ enc16 16 @ enc32 76 @ enc32 1 @ enc32 0xffffffff @ enc32 0xffffffff @ enc32 0 @
     enc16 20 @ enc16 20 @ enc16 2 @ enc16 0 @ enc16 0 @ enc16 0 @ concat (map sample_attr sample_attrs)"

lemma stands_self: "bs = xs \<Longrightarrow> stands bs 0 xs"
  unfolding stands_def by (intro exI [of _ "[]"]) simp

lemma stands_Cons:
  "stands bs n (x # y # ys) \<longleftrightarrow> stands bs n [x] \<and> stands bs (n + 1) (y # ys)"
  "stands bs n (x # enc32 w @ ys) \<longleftrightarrow> stands bs n [x] \<and> stands bs (n + 1) (enc32 w @ ys)"
  "stands bs n (x # enc32 w) \<longleftrightarrow> stands bs n [x] \<and> stands bs (n + 1) (enc32 w)"
  using stands_append [of bs n "[x]" "y # ys"] stands_append [of bs n "[x]" "enc32 w @ ys"] stands_append [of bs n "[x]" "enc32 w"]
  by simp_all

lemma length_sample_string [simp]: "length units < 2 ^ 15 \<Longrightarrow> length (sample_string units) = 4 + 2 * length units"
proof -
  have "length (concat (map enc16 units)) = 2 * length units" by (induction units) simp_all
  then show "length units < 2 ^ 15 \<Longrightarrow> ?thesis" by (simp add: sample_string_def enc_len16_def)
qed

lemma sample_string_bytes:
  "length units < 2 ^ 15 \<Longrightarrow> list_all (\<lambda>u. \<not> is_surrogate u) units \<Longrightarrow> string_bytes False (Utf16ToUtf8 units) (sample_string units)"
  unfolding string_bytes_def sample_string_def by (simp only: if_False) (intro exI [of _ units], simp)

lemma Suc_4: "Suc (Suc (Suc (Suc 0))) = 4"
  by simp

text \<open>Every part of the file at its offset.\<close>

lemmas sample_stands = stands_self [OF sample_manifest_def, unfolded sample_pool_def sample_attrs_def sample_attr_def sample_units_def,
  simplified, simplified stands_append stands_Cons, simplified, unfolded Suc_4]

lemma length_sample_manifest: "length sample_manifest = 206"
  by (simp add: sample_manifest_def sample_pool_def sample_attrs_def sample_attr_def sample_units_def)

lemma sample_strings:
  assumes "i < length sample_units"
  shows "\<exists>offset xs. stands sample_manifest (36 + i * 4) (enc32 offset) \<and> string_bytes False (Utf16ToUtf8 (sample_units ! i)) xs \<and>
    stands sample_manifest (52 + unat offset) xs \<and> 44 + unat offset + length xs \<le> 114"
proof -
  have "i < 4" using assms by (simp add: sample_units_def)
  then consider "i = 0" | "i = 1" | "i = 2" | "i = 3" by linarith
  then obtain offset where "stands sample_manifest (36 + i * 4) (enc32 offset)" "stands sample_manifest (52 + unat offset) (sample_string (sample_units ! i))"
    "44 + unat offset + length (sample_string (sample_units ! i)) \<le> 114"
  proof cases
    case 1
    then show ?thesis using that [of 0] sample_stands by (simp add: sample_units_def)
  next
    case 2
    then show ?thesis using that [of 20] sample_stands by (simp add: sample_units_def)
  next
    case 3
    then show ?thesis using that [of 38] sample_stands by (simp add: sample_units_def)
  next
    case 4
    then show ?thesis using that [of 64] sample_stands by (simp add: sample_units_def)
  qed
  moreover have "\<forall>units \<in> set sample_units. length units < 2 ^ 15 \<and> list_all (\<lambda>u. \<not> is_surrogate u) units"
    by (simp add: sample_units_def is_surrogate_def)
  ultimately show ?thesis using sample_string_bytes [of "sample_units ! i"] assms nth_mem by blast
qed

lemma sample_file: "manifest_file False (map Utf16ToUtf8 sample_units) sample_attrs sample_manifest"
proof -
  let ?bs = sample_manifest and ?strings = "map Utf16ToUtf8 sample_units"
  have n: "length ?strings = 4" "length sample_attrs = 2" by (simp_all add: sample_units_def sample_attrs_def)
  have outer: "chunk_at ?bs 0 0x0003 8 206" "unat (206 :: u32) = length ?bs"
    using sample_stands by (simp_all add: chunk_at_def length_sample_manifest)
  have "chunk_at ?bs 8 0x0001 28 114" using sample_stands by (simp add: chunk_at_def length_sample_manifest)
  then have pool: "pool_at ?bs 8 False ?strings 114"
    unfolding pool_at_def using sample_strings sample_stands n
    by (intro exI [of _ 28] exI [of _ 0] exI [of _ 44]) simp
  have "chunk_at ?bs 122 0x180 8 8" using sample_stands by (simp add: chunk_at_def length_sample_manifest)
  then have other: "other_chunks ?bs 122 130" using other_chunk [of ?bs 122 _ _ 8 130] no_chunk by simp
  have "attr_at ?bs 166 (sample_attrs ! 0)" "attr_at ?bs 186 (sample_attrs ! 1)"
    using sample_stands by (simp_all add: sample_attrs_def)
  then have attrs: "attr_at ?bs (166 + i * 20) (sample_attrs ! i)" if "i < 2" for i
    using less_2_cases [OF that] by auto
  have "chunk_at ?bs 130 0x0102 16 76" using sample_stands by (simp add: chunk_at_def length_sample_manifest)
  then have element: "element_at ?bs 130 0 sample_attrs 76"
    unfolding element_at_def using sample_stands n attrs by (intro exI [of _ 20]) simp
  have "string_ref ?strings 0 = Some (ascii ''manifest'')" by code_simp
  moreover have "other_chunks ?bs (unat (8 :: u16)) 8" "other_chunks ?bs (8 + unat (114 :: u32)) 130"
    using other no_chunk by simp_all
  ultimately show ?thesis unfolding manifest_file_def using outer pool element by blast
qed

theorem manifest_format_read_witness:
  "manifest_file False (map Utf16ToUtf8 sample_units) sample_attrs sample_manifest \<and>
   ParseAndroidManifest sample_manifest = Got \<lparr>am_package_name = [0xc3, 0xa9], am_version_name = [], am_split_name = [],
     am_version_code = 7, am_error = []\<rparr>"
proof -
  have "manifest_text (map Utf16ToUtf8 sample_units) sample_attrs (ascii ''package'') = [0xc3, 0xa9]"
    "manifest_text (map Utf16ToUtf8 sample_units) sample_attrs (ascii ''versionName'') = []"
    "manifest_text (map Utf16ToUtf8 sample_units) sample_attrs (ascii ''split'') = []"
    "manifest_number (map Utf16ToUtf8 sample_units) sample_attrs (ascii ''versionCode'') = 7"
    by code_simp+
  then show ?thesis using manifest_format_read [OF sample_file] sample_file by simp
qed

end
