(* ===== verification/Zip_Archive.thy ===== *)
theory Zip_Archive
  imports Mocktail_Prelude
begin

text \<open>
  The package archives (\<open>src/update/zip_archive.cc\<close>): which entry names are acceptable, and the listing, reading
  and extraction of entries. minizip is the parameter \<open>Minizip\<close>: a handle and the outcomes of the calls on it,
  which may be anything a hostile archive makes them; the k-th opening of the same path may give a different
  archive. The calls on the file system are appended to a log, their outcomes given by the environment as a
  function of the length of the log. The loop that repeats \<open>write\<close> may not end: a function that does not
  return is \<open>None\<close>.
\<close>

section \<open>Acceptable names\<close>

text \<open>\<open>find\<close> of a character from a position on, and the length when there is none.\<close>

fun find_from :: "u8 \<Rightarrow> bytes \<Rightarrow> nat \<Rightarrow> nat" where
  "find_from c path start = start + length (takeWhile (\<lambda>b. b \<noteq> c) (drop start path))"

function safe_components :: "bytes \<Rightarrow> nat \<Rightarrow> bool" where
  "safe_components path start =
     (if start < length path
      then let stop = find_from 0x2f path start;
               component = take (stop - start) (drop start path)
           in if component = [] \<or> component = ascii ''.'' \<or> component = ascii ''..''
              then stop = length path \<and> component = []
              else safe_components path (stop + 1)
      else True)"
  by pat_completeness auto
termination
  by (relation "measure (\<lambda>(path, start). length path - start)") auto

declare safe_components.simps [simp del]

definition IsSafeArchivePath :: "bytes \<Rightarrow> bool" where
  "IsSafeArchivePath path =
     (if path = [] \<or> hd path = 0x2f \<or> 0 \<in> set path \<or> 0x5c \<in> set path then False else safe_components path 0)"

section \<open>minizip and the file system\<close>

datatype UnzStatus = UNZ_OK | UNZ_END_OF_LIST_OF_FILE | UNZ_ERROR

record unz_file_info64 =
  ui_size_filename :: u64
  ui_uncompressed_size :: u64
  ui_external_fa :: u64

text \<open>A read gives bytes, none at the end of the entry, or fails.\<close>

datatype UnzRead = UnzData bytes | UnzFailed

record 'z Minizip =
  zip_regular :: "bytes \<Rightarrow> bool"
  unzOpen64 :: "nat \<Rightarrow> bytes \<Rightarrow> 'z option"
  unzGetGlobalInfo64 :: "'z \<Rightarrow> u64 option"
  unzGoToFirstFile :: "'z \<Rightarrow> UnzStatus \<times> 'z"
  unzGoToNextFile :: "'z \<Rightarrow> UnzStatus \<times> 'z"
  unzLocateFile :: "'z \<Rightarrow> bytes \<Rightarrow> UnzStatus \<times> 'z"
  unzGetCurrentFileInfo64 :: "'z \<Rightarrow> unz_file_info64 option"
  unzCurrentName :: "'z \<Rightarrow> bytes option"
  unzOpenCurrentFile :: "'z \<Rightarrow> bool \<times> 'z"
  unzReadCurrentFile :: "'z \<Rightarrow> UnzRead \<times> 'z"
  unzCloseCurrentFile :: "'z \<Rightarrow> bool \<times> 'z"

datatype FsCall =
    FsMakeDirs bytes | FsCreate bytes | FsWrote bytes | FsInterrupted | FsWriteFailed | FsSync | FsClose | FsRemove bytes

datatype WriteOutcome = Wrote nat | Interrupted | WriteFailed

record FsEnv =
  fs_ok :: "nat \<Rightarrow> bool"
  fs_write :: "nat \<Rightarrow> WriteOutcome"

type_synonym fslog = "FsCall list"

definition fs_call :: "FsEnv \<Rightarrow> FsCall \<Rightarrow> fslog \<Rightarrow> bool \<times> fslog" where
  "fs_call env c fl = (fs_ok env (length fl), fl @ [c])"

section \<open>Entries\<close>

record ZipEntry =
  ze_name :: bytes
  ze_uncompressed_size :: u64
  ze_directory :: bool
  ze_symbolic_link :: bool

record ZipListResult =
  zl_entries :: "ZipEntry list"
  zl_error :: bytes

record ZipReadResult =
  zr_bytes :: bytes
  zr_error :: bytes

definition OpenArchive :: "'z Minizip \<Rightarrow> nat \<Rightarrow> bytes \<Rightarrow> bytes + 'z" where
  "OpenArchive mz k path =
     (if \<not> zip_regular mz path then Inl (ascii ''ZIP archive is not a regular file: '' @ path)
      else case unzOpen64 mz k path of None \<Rightarrow> Inl (ascii ''cannot open ZIP archive: '' @ path) | Some z \<Rightarrow> Inr z)"

definition is_link :: "u64 \<Rightarrow> bool" where
  "is_link external_fa \<longleftrightarrow> (drop_bit 16 external_fa AND 0xffff) AND 0xf000 = 0xa000"

definition CurrentInfo :: "'z Minizip \<Rightarrow> 'z \<Rightarrow> bytes + ZipEntry" where
  "CurrentInfo mz z =
     (case unzGetCurrentFileInfo64 mz z of
        None \<Rightarrow> Inl (ascii ''cannot read ZIP entry metadata'')
      | Some info \<Rightarrow>
         if ui_size_filename info = 0 \<or> ui_size_filename info > 64 * 1024
         then Inl (ascii ''cannot read ZIP entry metadata'')
         else (case unzCurrentName mz z of
                 None \<Rightarrow> Inl (ascii ''cannot read ZIP entry name'')
               | Some name \<Rightarrow>
                   Inr \<lparr>ze_name = name, ze_uncompressed_size = ui_uncompressed_size info,
                        ze_directory = (name \<noteq> [] \<and> last name = 0x2f), ze_symbolic_link = is_link (ui_external_fa info)\<rparr>))"

definition FirstFile :: "'z Minizip \<Rightarrow> 'z \<Rightarrow> bool \<times> bytes \<times> 'z" where
  "FirstFile mz z =
     (case unzGoToFirstFile mz z of
        (UNZ_END_OF_LIST_OF_FILE, z) \<Rightarrow> (False, [], z)
      | (UNZ_OK, z) \<Rightarrow> (True, [], z)
      | (UNZ_ERROR, z) \<Rightarrow> (False, ascii ''cannot enumerate ZIP archive'', z))"

definition Locate :: "'z Minizip \<Rightarrow> 'z \<Rightarrow> bytes \<Rightarrow> (bytes + ZipEntry) \<times> 'z" where
  "Locate mz z entry =
     (if entry = [] \<or> 0 \<in> set entry then (Inl (ascii ''ZIP entry is missing: '' @ entry), z)
      else (case unzLocateFile mz z entry of (status, z) \<Rightarrow>
              if status = UNZ_OK then (CurrentInfo mz z, z) else (Inl (ascii ''ZIP entry is missing: '' @ entry), z)))"

fun list_entries :: "'z Minizip \<Rightarrow> 'z \<Rightarrow> nat \<Rightarrow> ZipEntry list \<Rightarrow> ZipListResult" where
  "list_entries mz z 0 entries = \<lparr>zl_entries = entries, zl_error = []\<rparr>"
| "list_entries mz z (Suc n) entries =
     (case CurrentInfo mz z of
        Inl e \<Rightarrow> \<lparr>zl_entries = entries, zl_error = e\<rparr>
      | Inr entry \<Rightarrow>
         if \<not> IsSafeArchivePath (ze_name entry) \<or> ze_symbolic_link entry
         then \<lparr>zl_entries = entries, zl_error = ascii ''ZIP archive contains an unsafe entry: '' @ ze_name entry\<rparr>
         else if n = 0 then \<lparr>zl_entries = entries @ [entry], zl_error = []\<rparr>
         else (case unzGoToNextFile mz z of (status, z) \<Rightarrow>
                 if status = UNZ_OK then list_entries mz z n (entries @ [entry])
                 else \<lparr>zl_entries = entries @ [entry], zl_error = ascii ''ZIP archive ended before its declared entry count''\<rparr>))"

definition ListZipEntries :: "'z Minizip \<Rightarrow> nat \<Rightarrow> bytes \<Rightarrow> nat \<Rightarrow> ZipListResult" where
  "ListZipEntries mz k archive_path maximum_entries =
     (case OpenArchive mz k archive_path of
        Inl e \<Rightarrow> \<lparr>zl_entries = [], zl_error = e\<rparr>
      | Inr z \<Rightarrow>
         (case unzGetGlobalInfo64 mz z of
            None \<Rightarrow> \<lparr>zl_entries = [], zl_error = ascii ''ZIP archive has an invalid or excessive entry count''\<rparr>
          | Some number_entry \<Rightarrow>
             if unat number_entry > maximum_entries
             then \<lparr>zl_entries = [], zl_error = ascii ''ZIP archive has an invalid or excessive entry count''\<rparr>
             else if number_entry = 0 then \<lparr>zl_entries = [], zl_error = []\<rparr>
             else (case FirstFile mz z of (found, e, z) \<Rightarrow>
                     if found then list_entries mz z (unat number_entry) [] else \<lparr>zl_entries = [], zl_error = e\<rparr>)))"

section \<open>Reading an entry\<close>

function read_entry :: "'z Minizip \<Rightarrow> 'z \<Rightarrow> nat \<Rightarrow> bytes \<Rightarrow> ZipReadResult" where
  "read_entry mz z maximum_bytes acc =
     (case unzReadCurrentFile mz z of
        (UnzFailed, z) \<Rightarrow> \<lparr>zr_bytes = [], zr_error = ascii ''cannot decompress ZIP entry''\<rparr>
      | (UnzData data, z) \<Rightarrow>
         if data = [] then (if fst (unzCloseCurrentFile mz z) then \<lparr>zr_bytes = acc, zr_error = []\<rparr>
                            else \<lparr>zr_bytes = [], zr_error = ascii ''ZIP entry failed its CRC check''\<rparr>)
         else if length data > maximum_bytes \<or> length acc > maximum_bytes - length data
         then \<lparr>zr_bytes = [], zr_error = ascii ''ZIP entry exceeds its size limit''\<rparr>
         else read_entry mz z maximum_bytes (acc @ data))"
  by pat_completeness auto
termination
  by (relation "measure (\<lambda>(_, _, maximum_bytes, acc). maximum_bytes - length acc)") (auto simp: neq_Nil_conv)

declare read_entry.simps [simp del]

definition ReadZipEntry :: "'z Minizip \<Rightarrow> nat \<Rightarrow> bytes \<Rightarrow> bytes \<Rightarrow> nat \<Rightarrow> ZipReadResult" where
  "ReadZipEntry mz k archive_path entry maximum_bytes =
     (case OpenArchive mz k archive_path of
        Inl e \<Rightarrow> \<lparr>zr_bytes = [], zr_error = e\<rparr>
      | Inr z \<Rightarrow>
         (case Locate mz z entry of
            (Inl e, z) \<Rightarrow> \<lparr>zr_bytes = [], zr_error = e\<rparr>
          | (Inr metadata, z) \<Rightarrow>
             if ze_directory metadata \<or> ze_symbolic_link metadata \<or> unat (ze_uncompressed_size metadata) > maximum_bytes
             then \<lparr>zr_bytes = [], zr_error = ascii ''ZIP entry is invalid or too large''\<rparr>
             else (case unzOpenCurrentFile mz z of (opened, z) \<Rightarrow>
                     if opened then read_entry mz z maximum_bytes []
                     else \<lparr>zr_bytes = [], zr_error = ascii ''cannot open compressed ZIP entry''\<rparr>)))"

section \<open>Writing an entry\<close>

text \<open>The loop around \<open>write\<close>; a successful call writes at most what it was given.\<close>

partial_function (option) write_all :: "FsEnv \<Rightarrow> bytes \<Rightarrow> fslog \<Rightarrow> (bool \<times> fslog) option" where
  "write_all env data fl =
     (if data = [] then Some (True, fl)
      else case fs_write env (length fl) of
             Interrupted \<Rightarrow> write_all env data (fl @ [FsInterrupted])
           | WriteFailed \<Rightarrow> Some (False, fl @ [FsWriteFailed])
           | Wrote n \<Rightarrow> write_all env (drop n data) (fl @ [FsWrote (take n data)]))"

declare write_all.simps [code]

text \<open>The error texts of \<open>WriteCurrent\<close>; the one of a failed write ends with the text of \<open>errno\<close>.\<close>

function copy_entry ::
  "FsEnv \<Rightarrow> 'z Minizip \<Rightarrow> 'z \<Rightarrow> nat \<Rightarrow> nat \<Rightarrow> fslog \<Rightarrow> (bool \<times> bytes \<times> nat \<times> 'z \<times> fslog) option" where
  "copy_entry env mz z maximum written fl =
     (case unzReadCurrentFile mz z of
        (UnzFailed, z) \<Rightarrow> Some (False, ascii ''cannot decompress ZIP entry'', written, z, fl)
      | (UnzData data, z) \<Rightarrow>
         if data = [] then Some (True, [], written, z, fl)
         else if length data > maximum \<or> written > maximum - length data
         then Some (False, ascii ''decompressed ZIP data exceeds its size limit'', written, z, fl)
         else (case write_all env data fl of
                 None \<Rightarrow> None
               | Some (success, fl) \<Rightarrow>
                   if success then copy_entry env mz z maximum (written + length data) fl
                   else Some (False, ascii ''cannot write decompressed ZIP entry: '', written + length data, z, fl)))"
  by pat_completeness auto
termination
  by (relation "measure (\<lambda>(_, _, _, maximum, written, _). maximum - written)") (auto simp: neq_Nil_conv)

declare copy_entry.simps [simp del]

definition WriteCurrent ::
  "FsEnv \<Rightarrow> 'z Minizip \<Rightarrow> 'z \<Rightarrow> nat \<Rightarrow> fslog \<Rightarrow> (bool \<times> bytes \<times> nat \<times> 'z \<times> fslog) option" where
  "WriteCurrent env mz z maximum fl =
     (case unzOpenCurrentFile mz z of (opened, z) \<Rightarrow>
        if \<not> opened then Some (False, ascii ''cannot open compressed ZIP entry'', 0, z, fl)
        else (case copy_entry env mz z maximum 0 fl of
                None \<Rightarrow> None
              | Some (success, error, written, z, fl) \<Rightarrow>
                  (case unzCloseCurrentFile mz z of (close_ok, z) \<Rightarrow>
                     if success \<and> \<not> close_ok then Some (False, ascii ''ZIP entry failed its CRC check'', written, z, fl)
                     else Some (success, error, written, z, fl))))"

section \<open>Extraction\<close>

definition path_join :: "bytes \<Rightarrow> bytes \<Rightarrow> bytes" where
  "path_join base relative = (if base = [] \<or> last base = 0x2f then base @ relative else base @ [0x2f] @ relative)"

text \<open>The path without its last component: what stands before the last slash, without the slashes at its end.\<close>

definition parent_path :: "bytes \<Rightarrow> bytes" where
  "parent_path path = rev (dropWhile (\<lambda>b. b = 0x2f) (dropWhile (\<lambda>b. b \<noteq> 0x2f) (rev path)))"

definition ExtractZipEntry ::
  "FsEnv \<Rightarrow> 'z Minizip \<Rightarrow> nat \<Rightarrow> bytes \<Rightarrow> bytes \<Rightarrow> bytes \<Rightarrow> nat \<Rightarrow> fslog \<Rightarrow> (bool \<times> bytes \<times> fslog) option" where
  "ExtractZipEntry env mz k archive_path entry destination maximum_bytes fl =
     (case OpenArchive mz k archive_path of
        Inl e \<Rightarrow> Some (False, e, fl)
      | Inr z \<Rightarrow>
         (case Locate mz z entry of
            (Inl e, z) \<Rightarrow> Some (False, e, fl)
          | (Inr metadata, z) \<Rightarrow>
             if ze_directory metadata \<or> ze_symbolic_link metadata \<or> unat (ze_uncompressed_size metadata) > maximum_bytes
             then Some (False, ascii ''ZIP entry is invalid or too large'', fl)
             else (case fs_call env (FsMakeDirs (parent_path destination)) fl of (made, fl) \<Rightarrow>
               if \<not> made then Some (False, ascii ''cannot create ZIP extraction directory'', fl)
               else (case fs_call env (FsCreate destination) fl of (created, fl) \<Rightarrow>
                 if \<not> created then Some (False, ascii ''cannot create extracted ZIP entry'', fl)
                 else (case WriteCurrent env mz z maximum_bytes fl of
                         None \<Rightarrow> None
                       | Some (extracted, error, written, z, fl) \<Rightarrow>
                           (case fs_call env FsSync fl of (synced, fl) \<Rightarrow>
                            let fl = fl @ [FsClose]
                            in if \<not> extracted \<or> \<not> synced \<or> written \<noteq> unat (ze_uncompressed_size metadata)
                               then Some (False, if extracted then ascii ''extracted ZIP entry is truncated'' else error,
                                          fl @ [FsRemove destination])
                               else Some (True, [], fl)))))))"

text \<open>One entry of the prefix: \<open>Inl\<close> an error, \<open>Inr\<close> the new total and count.\<close>

definition extract_one ::
  "FsEnv \<Rightarrow> 'z Minizip \<Rightarrow> 'z \<Rightarrow> ZipEntry \<Rightarrow> bytes \<Rightarrow> bytes \<Rightarrow> nat \<Rightarrow> nat \<Rightarrow> nat \<Rightarrow> fslog \<Rightarrow>
   ((bytes + nat \<times> nat \<times> 'z) \<times> fslog) option" where
  "extract_one env mz z entry relative destination maximum_total_bytes total_bytes files fl =
     (if \<not> IsSafeArchivePath relative \<or> ze_symbolic_link entry \<or>
         unat (ze_uncompressed_size entry) > maximum_total_bytes \<or>
         total_bytes > maximum_total_bytes - unat (ze_uncompressed_size entry)
      then Some (Inl (ascii ''ZIP prefix contains an unsafe or oversized entry''), fl)
      else
       let out = path_join destination relative
       in if ze_directory entry
          then (case fs_call env (FsMakeDirs out) fl of (made, fl) \<Rightarrow>
                  if made then Some (Inr (total_bytes, files, z), fl)
                  else Some (Inl (ascii ''cannot create extracted ZIP directory''), fl))
          else (case fs_call env (FsMakeDirs (parent_path out)) fl of (made, fl) \<Rightarrow>
            if \<not> made then Some (Inl (ascii ''cannot create extracted ZIP directory''), fl)
            else (case fs_call env (FsCreate out) fl of (created, fl) \<Rightarrow>
              if \<not> created then Some (Inl (ascii ''cannot create extracted ZIP entry''), fl)
              else (case WriteCurrent env mz z (unat (ze_uncompressed_size entry)) fl of
                      None \<Rightarrow> None
                    | Some (extracted, error, written, z, fl) \<Rightarrow>
                        let fl = fl @ [FsClose]
                        in if \<not> extracted \<or> written \<noteq> unat (ze_uncompressed_size entry)
                           then Some (Inl (if extracted then ascii ''extracted ZIP entry is truncated'' else error), fl @ [FsRemove out])
                           else Some (Inr (total_bytes + unat (ze_uncompressed_size entry), files + 1, z), fl)))))"

fun extract_entries ::
  "FsEnv \<Rightarrow> 'z Minizip \<Rightarrow> bytes \<Rightarrow> bytes \<Rightarrow> nat \<Rightarrow> 'z \<Rightarrow> ZipEntry list \<Rightarrow> nat \<Rightarrow> nat \<Rightarrow> fslog \<Rightarrow> ((bytes + nat) \<times> fslog) option" where
  "extract_entries env mz prefix destination maximum_total_bytes z [] total_bytes files fl = Some (Inr files, fl)"
| "extract_entries env mz prefix destination maximum_total_bytes z (entry # rest) total_bytes files fl =
     (case CurrentInfo mz z of
        Inl e \<Rightarrow> Some (Inl e, fl)
      | Inr current \<Rightarrow>
         if current \<noteq> entry then Some (Inl (ascii ''ZIP archive changed during extraction''), fl)
         else
          let relative = drop (length prefix) (ze_name entry)
          in (case (if take (length prefix) (ze_name entry) \<noteq> prefix \<or> relative = [] then Some (Inr (total_bytes, files, z), fl)
                   else extract_one env mz z entry relative destination maximum_total_bytes total_bytes files fl) of
               None \<Rightarrow> None
             | Some (Inl e, fl) \<Rightarrow> Some (Inl e, fl)
             | Some (Inr (total_bytes, files, z), fl) \<Rightarrow>
                 if rest = [] then Some (Inr files, fl)
                 else (case unzGoToNextFile mz z of (status, z) \<Rightarrow>
                         if status = UNZ_OK
                         then extract_entries env mz prefix destination maximum_total_bytes z rest total_bytes files fl
                         else Some (Inl (ascii ''ZIP archive ended during extraction''), fl))))"

definition ExtractZipPrefix ::
  "FsEnv \<Rightarrow> 'z Minizip \<Rightarrow> nat \<Rightarrow> bytes \<Rightarrow> bytes \<Rightarrow> bytes \<Rightarrow> nat \<Rightarrow> fslog \<Rightarrow> ((bytes + nat) \<times> fslog) option" where
  "ExtractZipPrefix env mz k archive_path prefix destination maximum_total_bytes fl =
     (let listed = ListZipEntries mz k archive_path 100000
      in if zl_error listed \<noteq> [] then Some (Inl (zl_error listed), fl)
         else (case OpenArchive mz (k + 1) archive_path of
                 Inl e \<Rightarrow> Some (Inl e, fl)
               | Inr z \<Rightarrow>
                  if zl_entries listed = [] then Some (Inr 0, fl)
                  else (case FirstFile mz z of (found, e, z) \<Rightarrow>
                          if found
                          then extract_entries env mz prefix destination maximum_total_bytes z (zl_entries listed) 0 0 fl
                          else Some (Inl e, fl))))"

end
