(* ===== verification/Zip_Safety.thy ===== *)
theory Zip_Safety
  imports Zip_Archive
begin

text \<open>
  What the archive code guarantees against any archive: the names it accepts are the ones without empty, \<open>.\<close> or
  \<open>..\<close> components, everything it creates lies beneath the destination, it writes no more bytes than it was
  allowed, and it returns whenever the \<open>write\<close> calls make progress.
\<close>

section \<open>Paths\<close>

fun parts_on :: "'a \<Rightarrow> 'a list \<Rightarrow> 'a list list" where
  "parts_on c [] = [[]]"
| "parts_on c (x # xs) = (if x = c then [] # parts_on c xs else (x # hd (parts_on c xs)) # tl (parts_on c xs))"

lemma parts_on_nonempty [simp]: "parts_on c xs \<noteq> []"
  by (induction xs) auto

lemma parts_on_append: "parts_on c (xs @ c # ys) = parts_on c xs @ parts_on c ys"
  by (induction xs) auto

lemma parts_on_none: "c \<notin> set xs \<Longrightarrow> parts_on c xs = [xs]"
  by (induction xs) auto

lemma parts_on_unfold:
  "parts_on c xs = takeWhile (\<lambda>x. x \<noteq> c) xs #
     (if c \<in> set xs then parts_on c (drop (length (takeWhile (\<lambda>x. x \<noteq> c) xs) + 1) xs) else [])"
  by (induction xs) auto

abbreviation slash :: u8 where "slash \<equiv> 0x2f"

definition bad_component :: "bytes \<Rightarrow> bool" where
  "bad_component c \<longleftrightarrow> c = [] \<or> c = ascii ''.'' \<or> c = ascii ''..''"

text \<open>The components of a path; a slash at the end adds none.\<close>

definition path_names :: "bytes \<Rightarrow> bytes list" where
  "path_names path = (if last (parts_on slash path) = [] then butlast (parts_on slash path) else parts_on slash path)"

text \<open>Where a path leads, starting from a directory: \<open>..\<close> leaves it, empty components and \<open>.\<close> stay.\<close>

fun resolve :: "bytes list \<Rightarrow> bytes list \<Rightarrow> bytes list" where
  "resolve dir [] = dir"
| "resolve dir (c # cs) =
     resolve (if c = [] \<or> c = ascii ''.'' then dir else if c = ascii ''..'' then butlast dir else dir @ [c]) cs"

definition leads_to :: "bytes \<Rightarrow> bytes list" where
  "leads_to path = resolve [] (parts_on slash path)"

definition beneath :: "bytes \<Rightarrow> bytes \<Rightarrow> bool" where
  "beneath base path \<longleftrightarrow> (\<exists>names. leads_to path = leads_to base @ names)"

lemma resolve_append [simp]: "resolve dir (xs @ ys) = resolve (resolve dir xs) ys"
  by (induction xs arbitrary: dir) auto

lemma resolve_names: "\<forall>c\<in>set cs. \<not> bad_component c \<Longrightarrow> resolve dir cs = dir @ cs"
  by (induction cs arbitrary: dir) (auto simp: bad_component_def)

lemma path_names_resolve: "resolve dir (parts_on slash path) = resolve dir (path_names path)"
proof (cases "last (parts_on slash path) = []")
  case True
  then have "parts_on slash path = path_names path @ [[]]"
    by (metis append_butlast_last_id path_names_def parts_on_nonempty)
  then show ?thesis by simp
qed (simp add: path_names_def)

lemma path_names_unfold:
  assumes "xs \<noteq> []"
  shows "path_names xs = takeWhile (\<lambda>x. x \<noteq> slash) xs # path_names (drop (length (takeWhile (\<lambda>x. x \<noteq> slash) xs) + 1) xs)"
proof (cases "slash \<in> set xs")
  case True
  then show ?thesis by (subst (1) path_names_def, subst (1 2 3) parts_on_unfold) (simp add: path_names_def)
next
  case False
  then have tw: "takeWhile (\<lambda>x. x \<noteq> slash) xs = xs" by (auto simp: takeWhile_eq_all_conv)
  show ?thesis unfolding tw using False assms by (simp add: path_names_def parts_on_none)
qed

lemma path_names_Nil [simp]: "path_names [] = []"
  by (simp add: path_names_def)

lemma safe_components_spec: "safe_components path start \<longleftrightarrow> (\<forall>c\<in>set (path_names (drop start path)). \<not> bad_component c)"
proof (induction path start rule: safe_components.induct)
  case (1 path start)
  let ?c = "takeWhile (\<lambda>b. b \<noteq> slash) (drop start path)"
  show ?case
  proof (cases "start < length path")
    case True
    have c: "take (find_from slash path start - start) (drop start path) = ?c"
      by (metis add_diff_cancel_left' find_from.simps takeWhile_eq_take)
    have n: "path_names (drop start path) = ?c # path_names (drop (start + length ?c + 1) path)"
      using path_names_unfold [of "drop start path"] True by (simp add: ac_simps)
    have step: "safe_components path start =
        (if bad_component ?c then find_from slash path start = length path \<and> ?c = []
         else safe_components path (find_from slash path start + 1))"
      using True unfolding safe_components.simps [of path start] bad_component_def Let_def c by (simp del: find_from.simps)
    show ?thesis
    proof (cases "bad_component ?c")
      case bad: True
      have "\<not> (find_from slash path start = length path \<and> ?c = [])" using True by auto
      then show ?thesis using bad step unfolding n by simp
    next
      case good: False
      then have "safe_components path (find_from slash path start + 1) \<longleftrightarrow>
          (\<forall>c\<in>set (path_names (drop (find_from slash path start + 1) path)). \<not> bad_component c)"
        using 1 [OF True refl refl] unfolding c bad_component_def by simp
      then show ?thesis using step good unfolding n by (simp add: ac_simps)
    qed
  next
    case False
    then show ?thesis by (subst safe_components.simps) simp
  qed
qed

definition safe_path :: "bytes \<Rightarrow> bool" where
  "safe_path path \<longleftrightarrow> path \<noteq> [] \<and> 0 \<notin> set path \<and> 0x5c \<notin> set path \<and> (\<forall>c\<in>set (path_names path). \<not> bad_component c)"

lemma IsSafeArchivePath_spec: "IsSafeArchivePath path \<longleftrightarrow> safe_path path"
proof -
  have "bad_component (hd (path_names path))" "path_names path \<noteq> []" if "path \<noteq> []" "hd path = slash"
    using that path_names_unfold [OF that(1)] by (auto simp: neq_Nil_conv bad_component_def)
  then have "\<exists>c\<in>set (path_names path). bad_component c" if "path \<noteq> []" "hd path = slash"
    using that by (metis hd_in_set)
  then show ?thesis by (auto simp: IsSafeArchivePath_def safe_path_def safe_components_spec)
qed

lemma leads_to_slash: "leads_to (xs @ slash # ys) = resolve (leads_to xs) (parts_on slash ys)"
  by (simp add: leads_to_def parts_on_append)

lemma leads_to_join: "leads_to (path_join base relative) = resolve (leads_to base) (parts_on slash relative)"
proof -
  consider "base = []" | xs where "base = xs @ [slash]" | "base \<noteq> []" "last base \<noteq> slash"
    by (metis append_butlast_last_id)
  then show ?thesis
  proof cases
    case 2
    then have "path_join base relative = xs @ slash # relative" by (simp add: path_join_def)
    moreover have "leads_to base = leads_to xs" using 2 leads_to_slash [of xs "[]"] by simp
    ultimately show ?thesis by (simp add: leads_to_slash)
  qed (simp_all add: path_join_def leads_to_def parts_on_append)
qed

lemma join_beneath:
  assumes "safe_path relative"
  shows "leads_to (path_join base relative) = leads_to base @ path_names relative"
  using assms by (simp add: leads_to_join path_names_resolve resolve_names safe_path_def)

lemma leads_to_strip: "leads_to (rev (dropWhile (\<lambda>b. b = slash) (rev path))) = leads_to path"
proof (induction path rule: rev_induct)
  case (snoc x path)
  then show ?case using leads_to_slash [of path "[]"] by (cases "x = slash") simp_all
qed simp

text \<open>The parent of a joined path: the base when the relative path is one name, else its directory beneath it.\<close>

lemma parent_beneath:
  assumes safe: "safe_path relative" and "last relative \<noteq> slash"
  shows "leads_to (parent_path (path_join base relative)) = leads_to base @ butlast (path_names relative)"
proof -
  have ne: "relative \<noteq> []" using safe by (simp add: safe_path_def)
  obtain pre name where r: "relative = pre @ name" "slash \<notin> set name" "pre = [] \<or> last pre = slash"
  proof -
    let ?n = "rev (takeWhile (\<lambda>b. b \<noteq> slash) (rev relative))" and ?p = "rev (dropWhile (\<lambda>b. b \<noteq> slash) (rev relative))"
    have "relative = ?p @ ?n" by (metis rev_append rev_rev_ident takeWhile_dropWhile_id)
    moreover have "slash \<notin> set ?n" by (auto dest: set_takeWhileD)
    moreover have "?p = [] \<or> last ?p = slash" 
      using hd_dropWhile [of "\<lambda>b. b \<noteq> slash" "rev relative"] by (auto simp: last_rev)
    ultimately show thesis by (rule that)
  qed
  have name: "name \<noteq> []" using r ne assms(2) by (metis append_Nil2)
  have j: "path_join base relative = path_join base pre @ name" using r by (simp add: path_join_def)
  have "leads_to (parent_path (path_join base relative)) = leads_to (path_join base pre)"
  proof -
    have "path_join base pre = [] \<or> last (path_join base pre) = slash"
      using r(3) by (auto simp: path_join_def)
    then have "dropWhile (\<lambda>b. b \<noteq> slash) (rev name @ rev (path_join base pre)) = rev (path_join base pre)"
      using r(2) by (cases "path_join base pre" rule: rev_cases) (auto simp: dropWhile_append2 dropWhile_append)
    then show ?thesis unfolding j parent_path_def by (simp add: leads_to_strip)
  qed
  also have "\<dots> = resolve (leads_to base) (parts_on slash pre)" by (rule leads_to_join)
  also have "parts_on slash relative = butlast (parts_on slash pre) @ [name]"
  proof (cases "pre = []")
    case False
    then obtain ys where "pre = ys @ [slash]" using r(3) by (metis append_butlast_last_id)
    then show ?thesis using r(1,2) by (simp add: parts_on_append parts_on_none)
  qed (use r in \<open>simp add: parts_on_none\<close>)
  then have n: "path_names relative = butlast (parts_on slash pre) @ [name]" using name by (simp add: path_names_def)
  have "path_names pre = butlast (parts_on slash pre)"
  proof (cases "pre = []")
    case False
    then obtain ys where "pre = ys @ [slash]" using r(3) by (metis append_butlast_last_id)
    then show ?thesis by (simp add: path_names_def parts_on_append)
  qed simp
  then have "resolve (leads_to base) (parts_on slash pre) = leads_to base @ butlast (parts_on slash pre)"
    using safe n by (simp add: path_names_resolve resolve_names safe_path_def)
  finally show ?thesis using n by simp
qed

section \<open>What the calls do\<close>

fun wrote :: "FsCall \<Rightarrow> bytes" where
  "wrote (FsWrote bs) = bs"
| "wrote _ = []"

fun touched :: "FsCall \<Rightarrow> bytes option" where
  "touched (FsMakeDirs p) = Some p"
| "touched (FsCreate p) = Some p"
| "touched (FsRemove p) = Some p"
| "touched _ = None"

fun creates :: "FsCall \<Rightarrow> bool" where
  "creates (FsCreate p) = True"
| "creates _ = False"

definition written_bytes :: "fslog \<Rightarrow> bytes" where
  "written_bytes fl = concat (map wrote fl)"

definition files_created :: "fslog \<Rightarrow> nat" where
  "files_created fl = length (filter creates fl)"

definition confined :: "bytes \<Rightarrow> fslog \<Rightarrow> bool" where
  "confined base fl \<longleftrightarrow> (\<forall>c\<in>set fl. \<forall>p. touched c = Some p \<longrightarrow> beneath base p)"

definition only_writes :: "fslog \<Rightarrow> bool" where
  "only_writes fl \<longleftrightarrow> (\<forall>c\<in>set fl. touched c = None \<and> \<not> creates c)"

lemma log_simps [simp]:
  "written_bytes [] = []" "written_bytes (c # fl) = wrote c @ written_bytes fl"
  "written_bytes (fl @ fl') = written_bytes fl @ written_bytes fl'"
  "files_created [] = 0" "files_created (c # fl) = (if creates c then Suc (files_created fl) else files_created fl)"
  "files_created (fl @ fl') = files_created fl + files_created fl'"
  "confined base []" "confined base (c # fl) \<longleftrightarrow> (\<forall>p. touched c = Some p \<longrightarrow> beneath base p) \<and> confined base fl"
  "confined base (fl @ fl') \<longleftrightarrow> confined base fl \<and> confined base fl'"
  "only_writes []" "only_writes (c # fl) \<longleftrightarrow> touched c = None \<and> \<not> creates c \<and> only_writes fl"
  "only_writes (fl @ fl') \<longleftrightarrow> only_writes fl \<and> only_writes fl'"
  by (auto simp: written_bytes_def files_created_def confined_def only_writes_def)

lemma only_writes_confined: "only_writes fl \<Longrightarrow> confined base fl \<and> files_created fl = 0"
  by (induction fl) auto

lemma write_all_spec_aux:
  assumes "write_all env data fl = Some r"
  shows "\<exists>new. snd r = fl @ new \<and> only_writes new \<and> length (written_bytes new) \<le> length data \<and> (fst r \<longrightarrow> written_bytes new = data)"
  using assms
proof (rule write_all.raw_induct [rotated])
  fix write_all env data fl r
  assume IH: "\<And>env data fl r. write_all env data fl = Some r \<Longrightarrow>
      \<exists>new. snd r = fl @ new \<and> only_writes new \<and> length (written_bytes new) \<le> length data \<and> (fst r \<longrightarrow> written_bytes new = data)"
    and step: "(if data = [] then Some (True, fl)
        else case fs_write env (length fl) of
               Wrote n \<Rightarrow> write_all env (drop n data) (fl @ [FsWrote (take n data)])
             | Interrupted \<Rightarrow> write_all env data (fl @ [FsInterrupted])
             | WriteFailed \<Rightarrow> Some (False, fl @ [FsWriteFailed])) = Some r"
  show "\<exists>new. snd r = fl @ new \<and> only_writes new \<and> length (written_bytes new) \<le> length data \<and> (fst r \<longrightarrow> written_bytes new = data)"
  proof (cases "data = []")
    case False
    show ?thesis
    proof (cases "fs_write env (length fl)")
      case (Wrote n)
      then have "write_all env (drop n data) (fl @ [FsWrote (take n data)]) = Some r" using step False by simp
      from IH [OF this] obtain new where n: "snd r = (fl @ [FsWrote (take n data)]) @ new" "only_writes new"
        "length (written_bytes new) \<le> length (drop n data)" "fst r \<longrightarrow> written_bytes new = drop n data" by blast
      show ?thesis using n by (intro exI [of _ "FsWrote (take n data) # new"]) auto
    next
      case Interrupted
      then have "write_all env data (fl @ [FsInterrupted]) = Some r" using step False by simp
      from IH [OF this] obtain new where n: "snd r = (fl @ [FsInterrupted]) @ new" "only_writes new"
        "length (written_bytes new) \<le> length data" "fst r \<longrightarrow> written_bytes new = data" by blast
      show ?thesis using n by (intro exI [of _ "FsInterrupted # new"]) auto
    next
      case WriteFailed
      then show ?thesis using step False by (intro exI [of _ "[FsWriteFailed]"]) auto
    qed
  qed (use step in auto)
qed

lemmas write_all_spec = write_all_spec_aux [of _ _ _ "(ok, fl')" for ok fl', simplified]

lemma copy_entry_spec:
  assumes "copy_entry env mz z maximum w0 fl = Some (ok, e, w, z', fl')" "w0 \<le> maximum"
  shows "\<exists>new. fl' = fl @ new \<and> only_writes new \<and> w0 + length (written_bytes new) \<le> maximum \<and>
    (ok \<longrightarrow> w = w0 + length (written_bytes new))"
  using assms
proof (induction env mz z maximum w0 fl rule: copy_entry.induct)
  case (1 env mz z maximum w0 fl)
  obtain r z1 where r: "unzReadCurrentFile mz z = (r, z1)" by (metis surj_pair)
  show ?case
  proof (cases r)
    case (UnzData data)
    show ?thesis
    proof (cases "data \<noteq> [] \<and> \<not> (length data > maximum \<or> w0 > maximum - length data)")
      case True
      then obtain ok1 fl1 where w: "write_all env data fl = Some (ok1, fl1)"
        using "1.prems"(1) r UnzData by (subst (asm) copy_entry.simps) (auto split: option.splits)
      from write_all_spec [OF w] obtain new where n: "fl1 = fl @ new" "only_writes new"
        "length (written_bytes new) \<le> length data" "ok1 \<longrightarrow> written_bytes new = data" by blast
      show ?thesis
      proof (cases ok1)
        case ok1: True
        have c: "copy_entry env mz z1 maximum (w0 + length data) fl1 = Some (ok, e, w, z', fl')"
          using "1.prems"(1) r UnzData True w ok1 by (subst (asm) copy_entry.simps) auto
        have "\<exists>new'. fl' = fl1 @ new' \<and> only_writes new' \<and> (w0 + length data) + length (written_bytes new') \<le> maximum \<and>
            (ok \<longrightarrow> w = (w0 + length data) + length (written_bytes new'))"
          using "1.IH" [OF r [symmetric] UnzData _ _ w refl ok1 c] True by auto
        then obtain new' where "fl' = fl1 @ new'" "only_writes new'" "(w0 + length data) + length (written_bytes new') \<le> maximum"
          "ok \<longrightarrow> w = (w0 + length data) + length (written_bytes new')" by blast
        then show ?thesis using n ok1 by (intro exI [of _ "new @ new'"]) auto
      next
        case False
        then show ?thesis
          using "1.prems"(1) r UnzData True w n by (subst (asm) copy_entry.simps) (auto intro!: exI [of _ new])
      qed
    next
      case False
      then show ?thesis using "1.prems" r UnzData by (subst (asm) copy_entry.simps) (auto split: if_splits)
    qed
  next
    case UnzFailed
    then show ?thesis using "1.prems" r by (subst (asm) copy_entry.simps) auto
  qed
qed

lemma WriteCurrent_spec:
  assumes "WriteCurrent env mz z maximum fl = Some (ok, e, w, z', fl')"
  shows "\<exists>new. fl' = fl @ new \<and> only_writes new \<and> length (written_bytes new) \<le> maximum \<and> (ok \<longrightarrow> w = length (written_bytes new))"
proof -
  obtain opened z1 where o: "unzOpenCurrentFile mz z = (opened, z1)" by (metis surj_pair)
  show ?thesis
  proof (cases opened)
    case True
    then obtain ok1 e1 w1 z2 fl1 where c: "copy_entry env mz z1 maximum 0 fl = Some (ok1, e1, w1, z2, fl1)"
      using assms o by (auto simp: WriteCurrent_def split: option.splits)
    from copy_entry_spec [OF c] show ?thesis
      using assms o True c by (auto simp: WriteCurrent_def split: prod.splits if_splits)
  qed (use assms o in \<open>auto simp: WriteCurrent_def\<close>)
qed

lemma CurrentInfo_directory: "CurrentInfo mz z = Inr entry \<Longrightarrow> ze_directory entry \<longleftrightarrow> ze_name entry \<noteq> [] \<and> last (ze_name entry) = slash"
  by (auto simp: CurrentInfo_def split: option.splits if_splits)

lemma extract_one_spec:
  assumes x: "extract_one env mz z entry relative base maximum total_bytes files fl = Some (r, fl')" and "total_bytes \<le> maximum"
    and dir: "ze_directory entry \<or> last relative \<noteq> slash"
  shows "\<exists>new. fl' = fl @ new \<and> confined base new \<and> total_bytes + length (written_bytes new) \<le> maximum \<and>
    (\<forall>t n z'. r = Inr (t, n, z') \<longrightarrow> t = total_bytes + length (written_bytes new) \<and> n = files + files_created new)"
proof (cases "\<not> IsSafeArchivePath relative \<or> ze_symbolic_link entry \<or> unat (ze_uncompressed_size entry) > maximum \<or>
    total_bytes > maximum - unat (ze_uncompressed_size entry)")
  case True
  then show ?thesis using x \<open>total_bytes \<le> maximum\<close> by (auto simp: extract_one_def)
next
  case False
  then have safe: "safe_path relative" by (simp add: IsSafeArchivePath_spec)
  have out: "beneath base (path_join base relative)" using join_beneath [OF safe] by (simp add: beneath_def)
  show ?thesis
  proof (cases "ze_directory entry")
    case True
    then show ?thesis
      using x False out \<open>total_bytes \<le> maximum\<close>
      by (intro exI [of _ "[FsMakeDirs (path_join base relative)]"])
        (auto simp: extract_one_def Let_def fs_call_def split: if_splits)
  next
    case plain: False
    let ?out = "path_join base relative" and ?dirs = "FsMakeDirs (parent_path (path_join base relative))"
    have par: "beneath base (parent_path ?out)" using parent_beneath [OF safe] dir plain by (auto simp: beneath_def)
    show ?thesis
    proof (cases "fs_ok env (length fl) \<and> fs_ok env (Suc (length fl))")
      case True
      obtain ok e w z' fl1 where wc: "WriteCurrent env mz z (unat (ze_uncompressed_size entry)) (fl @ [?dirs, FsCreate ?out]) = Some (ok, e, w, z', fl1)"
        using x False plain True by (auto simp: extract_one_def Let_def fs_call_def split: option.splits if_splits)
      from WriteCurrent_spec [OF wc] obtain new where n: "fl1 = (fl @ [?dirs, FsCreate ?out]) @ new" "only_writes new"
        "length (written_bytes new) \<le> unat (ze_uncompressed_size entry)" "ok \<longrightarrow> w = length (written_bytes new)" by blast
      note c = only_writes_confined [OF n(2), of base]
      show ?thesis
        using x False plain True wc n c par out
        by (intro exI [of _ "[?dirs, FsCreate ?out] @ new @ (if \<not> ok \<or> w \<noteq> unat (ze_uncompressed_size entry) then [FsClose, FsRemove ?out] else [FsClose])"])
          (auto simp: extract_one_def Let_def fs_call_def split: if_splits)
    next
      case False': False
      then show ?thesis
        using x False plain par out \<open>total_bytes \<le> maximum\<close>
        by (intro exI [of _ "?dirs # (if fs_ok env (length fl) then [FsCreate ?out] else [])"])
          (auto simp: extract_one_def Let_def fs_call_def split: if_splits)
    qed
  qed
qed

lemma extract_entries_spec:
  assumes "extract_entries env mz prefix base maximum z entries total_bytes files fl = Some (r, fl')" "total_bytes \<le> maximum"
  shows "\<exists>new. fl' = fl @ new \<and> confined base new \<and> total_bytes + length (written_bytes new) \<le> maximum \<and>
    (\<forall>n. r = Inr n \<longrightarrow> n = files + files_created new)"
  using assms
proof (induction entries arbitrary: z total_bytes files fl)
  case (Cons entry rest)
  let ?rel = "drop (length prefix) (ze_name entry)"
  show ?case
  proof (cases "CurrentInfo mz z = Inr entry")
    case False
    then show ?thesis using Cons.prems by (cases "CurrentInfo mz z") auto
  next
    case True
    let ?skip = "take (length prefix) (ze_name entry) \<noteq> prefix \<or> ?rel = []"
    let ?one = "if ?skip then Some (Inr (total_bytes, files, z), fl)
      else extract_one env mz z entry ?rel base maximum total_bytes files fl"
    obtain r1 fl1 where o: "?one = Some (r1, fl1)"
      using Cons.prems(1) True by (auto simp: Let_def split: option.splits)
    have "\<exists>new. fl1 = fl @ new \<and> confined base new \<and> total_bytes + length (written_bytes new) \<le> maximum \<and>
        (\<forall>t n z'. r1 = Inr (t, n, z') \<longrightarrow> t = total_bytes + length (written_bytes new) \<and> n = files + files_created new)"
    proof (cases ?skip)
      case False
      have "ze_directory entry \<or> last ?rel \<noteq> slash" using CurrentInfo_directory [OF True] False by (auto simp: last_drop)
      then show ?thesis using o False Cons.prems(2) extract_one_spec [of env mz z entry ?rel base maximum total_bytes files fl r1 fl1] by simp
    qed (use o Cons.prems(2) in auto)
    then obtain new where n: "fl1 = fl @ new" "confined base new" "total_bytes + length (written_bytes new) \<le> maximum"
      "\<forall>t n z'. r1 = Inr (t, n, z') \<longrightarrow> t = total_bytes + length (written_bytes new) \<and> n = files + files_created new" by blast
    show ?thesis
    proof (cases r1)
      case (Inl e)
      then show ?thesis using Cons.prems(1) True o n by (intro exI [of _ new]) (auto simp: Let_def)
    next
      case (Inr t)
      then obtain t1 f1 z1 where r1: "r1 = Inr (t1, f1, z1)" by (cases t) auto
      obtain status z2 where nx: "unzGoToNextFile mz z1 = (status, z2)" by (metis surj_pair)
      show ?thesis
      proof (cases "rest \<noteq> [] \<and> status = UNZ_OK")
        case True': True
        have "extract_entries env mz prefix base maximum z2 rest t1 f1 fl1 = Some (r, fl')"
          using Cons.prems(1) True o r1 nx True' by (auto simp: Let_def)
        from Cons.IH [OF this] n r1 obtain new' where "fl' = fl1 @ new'" "confined base new'"
          "t1 + length (written_bytes new') \<le> maximum" "\<forall>n. r = Inr n \<longrightarrow> n = f1 + files_created new'" by auto
        then show ?thesis using n r1 by (intro exI [of _ "new @ new'"]) auto
      next
        case False
        then show ?thesis using Cons.prems(1) True o r1 nx n by (intro exI [of _ new]) (auto simp: Let_def split: if_splits)
      qed
    qed
  qed
qed auto

section \<open>The loops return\<close>

text \<open>The \<open>write\<close> calls make progress: they do not return \<open>EINTR\<close> or zero for ever.\<close>

definition writes_progress :: "FsEnv \<Rightarrow> bool" where
  "writes_progress env \<longleftrightarrow> (\<forall>n. \<exists>m\<ge>n. fs_write env m \<noteq> Interrupted \<and> fs_write env m \<noteq> Wrote 0)"

lemma write_all_until:
  assumes m: "fs_write env m \<noteq> Interrupted" "fs_write env m \<noteq> Wrote 0" "length fl \<le> m"
    and shorter: "\<And>rest fl. length rest < length data \<Longrightarrow> write_all env rest fl \<noteq> None"
  shows "write_all env data fl \<noteq> None"
  using m(3)
proof (induction "m - length fl" arbitrary: fl)
  case 0
  then have "fs_write env (length fl) = fs_write env m" by simp
  then show ?case using m(1,2) shorter by (subst write_all.simps) (auto split: WriteOutcome.split)
next
  case (Suc k)
  have later: "write_all env data (fl @ [c]) \<noteq> None" for c using Suc by simp
  have less: "write_all env (drop (Suc n) data) fl1 \<noteq> None" if "data \<noteq> []" for n fl1 using that by (intro shorter) simp
  show ?case
  proof (cases "fs_write env (length fl)")
    case (Wrote n)
    then show ?thesis using later less by (subst write_all.simps) (cases n, auto)
  next
    case Interrupted
    then show ?thesis using later by (subst write_all.simps) auto
  next
    case WriteFailed
    then show ?thesis by (subst write_all.simps) auto
  qed
qed

lemma write_all_returns: "writes_progress env \<Longrightarrow> write_all env data fl \<noteq> None"
proof (induction data arbitrary: fl rule: length_induct)
  case (1 data)
  obtain m where m: "length fl \<le> m" "fs_write env m \<noteq> Interrupted" "fs_write env m \<noteq> Wrote 0"
    using 1(2) unfolding writes_progress_def by blast
  have "write_all env rest fl' \<noteq> None" if "length rest < length data" for rest fl' using 1 that by blast
  then show ?case by (rule write_all_until [OF m(2,3,1)])
qed

lemma copy_entry_returns: "writes_progress env \<Longrightarrow> copy_entry env mz z maximum w fl \<noteq> None"
proof (induction env mz z maximum w fl rule: copy_entry.induct)
  case (1 env mz z maximum w fl)
  obtain r z1 where r: "unzReadCurrentFile mz z = (r, z1)" by (metis surj_pair)
  show ?case
  proof (cases r)
    case (UnzData data)
    obtain ok fl1 where w: "write_all env data fl = Some (ok, fl1)" using write_all_returns [OF "1.prems"] by fast
    show ?thesis
      using r UnzData w "1.IH" [OF r [symmetric] UnzData _ _ w refl _ "1.prems"]
      by (subst copy_entry.simps) (auto split: if_splits)
  next
    case UnzFailed
    then show ?thesis using r by (subst copy_entry.simps) auto
  qed
qed

lemma WriteCurrent_returns: "writes_progress env \<Longrightarrow> WriteCurrent env mz z maximum fl \<noteq> None"
  by (auto simp: WriteCurrent_def copy_entry_returns simp del: not_None_eq split: prod.split option.split)

lemma extract_one_returns:
  "writes_progress env \<Longrightarrow> extract_one env mz z entry relative base maximum total_bytes files fl \<noteq> None"
  by (auto simp: extract_one_def Let_def fs_call_def WriteCurrent_returns simp del: not_None_eq split: prod.split option.split)

lemma extract_entries_returns:
  assumes "writes_progress env"
  shows "extract_entries env mz prefix base maximum z entries total_bytes files fl \<noteq> None"
proof (induction entries arbitrary: z total_bytes files fl)
  case (Cons entry rest)
  show ?case
    by (auto simp: Let_def extract_one_returns [OF assms] Cons.IH simp del: not_None_eq split: sum.split prod.split option.split)
qed simp

section \<open>Reading\<close>

lemma read_entry_bounded:
  "length acc \<le> maximum \<Longrightarrow> length (zr_bytes (read_entry mz z maximum acc)) \<le> maximum \<and>
   (zr_error (read_entry mz z maximum acc) = [] \<or> zr_bytes (read_entry mz z maximum acc) = [])"
proof (induction mz z maximum acc rule: read_entry.induct)
  case (1 mz z maximum acc)
  obtain r z1 where r: "unzReadCurrentFile mz z = (r, z1)" by (metis surj_pair)
  show ?case
  proof (cases r)
    case (UnzData data)
    then show ?thesis
      using r "1.prems" "1.IH" [OF r [symmetric] UnzData] by (subst (1 2 3) read_entry.simps) (auto split: if_splits)
  next
    case UnzFailed
    then show ?thesis using r by (subst (1 2 3) read_entry.simps) simp
  qed
qed

section \<open>A sample archive\<close>

text \<open>One entry of two bytes; the handle is the number of bytes read. The file system takes one byte at a time.\<close>

definition sample_zip :: "nat Minizip" where
  "sample_zip =
     \<lparr>zip_regular = (\<lambda>_. True), unzOpen64 = (\<lambda>_ _. Some 0), unzGetGlobalInfo64 = (\<lambda>_. Some 1),
      unzGoToFirstFile = (\<lambda>_. (UNZ_OK, 0)), unzGoToNextFile = (\<lambda>z. (UNZ_END_OF_LIST_OF_FILE, z)),
      unzLocateFile = (\<lambda>z _. (UNZ_OK, z)),
      unzGetCurrentFileInfo64 = (\<lambda>_. Some \<lparr>ui_size_filename = 8, ui_uncompressed_size = 2, ui_external_fa = 0\<rparr>),
      unzCurrentName = (\<lambda>_. Some (ascii ''assets/a'')),
      unzOpenCurrentFile = (\<lambda>_. (True, 0)),
      unzReadCurrentFile = (\<lambda>z. (UnzData (drop z [1, 2]), 2)), unzCloseCurrentFile = (\<lambda>z. (True, z))\<rparr>"

definition sample_fs :: FsEnv where
  "sample_fs = \<lparr>fs_ok = (\<lambda>_. True), fs_write = (\<lambda>_. Wrote 1)\<rparr>"

definition sample_log :: fslog where
  "sample_log = [FsMakeDirs (ascii ''/p''), FsCreate (ascii ''/p/a''), FsWrote [1], FsWrote [2], FsClose]"

definition sample_entry :: ZipEntry where
  "sample_entry = \<lparr>ze_name = ascii ''assets/a'', ze_uncompressed_size = 2, ze_directory = False, ze_symbolic_link = False\<rparr>"

lemma sample_listed: "ListZipEntries sample_zip 0 [] 100000 = \<lparr>zl_entries = [sample_entry], zl_error = []\<rparr>"
proof -
  have l: "list_entries sample_zip 0 (Suc 0) [] = \<lparr>zl_entries = [sample_entry], zl_error = []\<rparr>" by code_simp
  have "OpenArchive sample_zip 0 [] = Inr 0" "unzGetGlobalInfo64 sample_zip 0 = Some 1" "FirstFile sample_zip 0 = (True, [], 0)"
    by (simp_all add: OpenArchive_def FirstFile_def sample_zip_def)
  then show ?thesis using l by (simp add: ListZipEntries_def)
qed

lemma sample_extract: "ExtractZipPrefix sample_fs sample_zip 0 [] (ascii ''assets/'') (ascii ''/p'') 9 [] = Some (Inr 1, sample_log)"
proof -
  have "OpenArchive sample_zip (0 + 1) [] = Inr 0" "FirstFile sample_zip 0 = (True, [], 0)"
    by (simp_all add: OpenArchive_def FirstFile_def sample_zip_def)
  moreover have "extract_entries sample_fs sample_zip (ascii ''assets/'') (ascii ''/p'') 9 0 [sample_entry] 0 0 [] = Some (Inr 1, sample_log)"
    by code_simp
  ultimately show ?thesis by (simp add: ExtractZipPrefix_def sample_listed Let_def)
qed

section \<open>Properties\<close>

text \<open>
  An archive name is accepted exactly when it is not empty, has no NUL and no backslash, and none of its
  components is empty, \<open>.\<close> or \<open>..\<close> (one slash at the end is allowed); an accepted name, joined to a directory,
  leads to the place beneath that directory that its components name.
\<close>

theorem safe_archive_path:
  "(IsSafeArchivePath path \<longleftrightarrow>
      path \<noteq> [] \<and> 0 \<notin> set path \<and> 0x5c \<notin> set path \<and> list_all (\<lambda>c. c \<notin> {[], ascii ''.'', ascii ''..''}) (path_names path)) \<and>
   (if IsSafeArchivePath path then leads_to (path_join base path) = leads_to base @ path_names path else True)"
proof -
  have "list_all (\<lambda>c. c \<notin> {[], ascii ''.'', ascii ''..''}) cs \<longleftrightarrow> (\<forall>c\<in>set cs. \<not> bad_component c)" for cs
    by (simp add: list_all_iff bad_component_def)
  then show ?thesis by (simp add: IsSafeArchivePath_spec join_beneath) (simp add: safe_path_def)
qed

text \<open>
  C18. Extraction is confined and bounded against every archive: each directory and file that \<open>ExtractZipPrefix\<close>
  creates or removes lies beneath the destination, the bytes it writes are at most the limit, and a success
  reports the number of files it created.
\<close>

theorem extraction_confined:
  assumes "ExtractZipPrefix env mz k archive_path prefix destination maximum fl = Some (r, fl')"
  shows "\<exists>new. fl' = fl @ new \<and> confined destination new \<and> length (written_bytes new) \<le> maximum \<and>
    (\<forall>n. r = Inr n \<longrightarrow> n = files_created new)"
proof -
  let ?listed = "ListZipEntries mz k archive_path 100000"
  consider (idle) "fl' = fl \<and> (\<forall>n. r = Inr n \<longrightarrow> n = 0)"
    | (run) z where "extract_entries env mz prefix destination maximum z (zl_entries ?listed) 0 0 fl = Some (r, fl')"
    using assms by (auto simp: ExtractZipPrefix_def Let_def split: if_splits sum.splits prod.splits)
  then show ?thesis
  proof cases
    case idle
    then show ?thesis by (intro exI [of _ "[]"]) simp
  next
    case run
    then show ?thesis using extract_entries_spec [OF run] by simp
  qed
qed

theorem extraction_confined_witness:
  "ExtractZipPrefix sample_fs sample_zip 0 [] (ascii ''assets/'') (ascii ''/p'') 9 [] = Some (Inr 1, sample_log) \<and>
   confined (ascii ''/p'') sample_log \<and> files_created sample_log = 1"
  using sample_extract extraction_confined [OF sample_extract] by auto

text \<open>
  C20. Extraction returns: whatever the archive contains, \<open>ExtractZipPrefix\<close> gives a result when the \<open>write\<close>
  calls make progress.
\<close>

theorem extraction_returns:
  assumes "writes_progress env"
  shows "\<exists>r fl'. ExtractZipPrefix env mz k archive_path prefix destination maximum fl = Some (r, fl')"
proof -
  have "ExtractZipPrefix env mz k archive_path prefix destination maximum fl \<noteq> None"
    by (auto simp: ExtractZipPrefix_def Let_def extract_entries_returns [OF assms] simp del: not_None_eq
        split: sum.split prod.split)
  then show ?thesis by fast
qed

theorem extraction_returns_witness:
  "\<exists>r fl'. ExtractZipPrefix sample_fs sample_zip 0 [] (ascii ''assets/'') (ascii ''/p'') 9 [] = Some (r, fl')"
  by (rule extraction_returns) (auto simp: writes_progress_def sample_fs_def)

text \<open>
  \<open>ReadZipEntry\<close> returns at most the allowed number of bytes for every archive, and none together with an
  error.
\<close>

theorem read_zip_entry_bounded:
  "length (zr_bytes (ReadZipEntry mz k archive_path entry maximum)) \<le> maximum \<and>
   (zr_error (ReadZipEntry mz k archive_path entry maximum) = [] \<or> zr_bytes (ReadZipEntry mz k archive_path entry maximum) = [])"
proof -
  have "length (zr_bytes (read_entry mz z maximum [])) \<le> maximum \<and>
      (zr_error (read_entry mz z maximum []) = [] \<or> zr_bytes (read_entry mz z maximum []) = [])" for z
    by (rule read_entry_bounded) simp
  then show ?thesis by (auto simp: ReadZipEntry_def split: sum.split prod.split)
qed

end
