(* ===== verification/Elf_Build_Id.thy ===== *)
theory Elf_Build_Id
  imports Partial_Reads
begin

text \<open>
  The build id of an ELF object (\<open>src/compat/elf_build_id.cc\<close>). libelf is the parameter \<open>Libelf\<close>: its calls may
  fail and a note it describes may lie anywhere, so the code's own bounds checks are what keeps its reads inside
  the section.
\<close>

section \<open>libelf\<close>

definition NT_GNU_BUILD_ID :: u32 where "NT_GNU_BUILD_ID = 3"
definition SHT_NOTE :: u32 where "SHT_NOTE = 7"

record GElf_Nhdr =
  n_namesz :: u32
  n_descsz :: u32
  n_type :: u32

text \<open>The data of a section: no buffer, or the bytes of it.\<close>

type_synonym Elf_Data = "bytes option"

record Elf_Section =
  es_sh_type :: u32
  es_data :: "Elf_Data list"

text \<open>A section that cannot be obtained is \<open>None\<close>, one without a header \<open>Some None\<close>.\<close>

record Libelf =
  gelf_getnote :: "bytes \<Rightarrow> nat \<Rightarrow> nat \<times> GElf_Nhdr \<times> nat \<times> nat"
  elf_version_ok :: bool
  elf_open :: "string \<Rightarrow> string option"
  elf_begin_ok :: "string \<Rightarrow> bool"
  elf_is_object :: "string \<Rightarrow> bool"
  elf_sections :: "string \<Rightarrow> Elf_Section option option list option"
  elf_errmsg :: "string option"

section \<open>Reading\<close>

definition kHex :: "nat \<Rightarrow> u8" where
  "kHex d = ascii ''0123456789abcdef'' ! d"

fun BytesToHex :: "bytes \<Rightarrow> bytes" where
  "BytesToHex [] = []"
| "BytesToHex (b # bs) = kHex (unat (drop_bit 4 b AND 0x0f)) # kHex (unat (b AND 0x0f)) # BytesToHex bs"

text \<open>The \<open>n\<close> bytes from an offset on.\<close>

fun read_bytes :: "bytes \<Rightarrow> nat \<Rightarrow> nat \<Rightarrow> bytes outcome" where
  "read_bytes raw offset 0 = Got []"
| "read_bytes raw offset (Suc n) =
     and_then (byte_at raw offset) (\<lambda>b. and_then (read_bytes raw (offset + 1) n) (\<lambda>bs. Got (b # bs)))"

function find_note :: "Libelf \<Rightarrow> bytes \<Rightarrow> nat \<Rightarrow> bytes outcome" where
  "find_note lib raw offset =
     (if offset < length raw
      then case gelf_getnote lib raw offset of (after, header, name_offset, descriptor_offset) \<Rightarrow>
        if after = 0 \<or> after \<le> offset then Got []
        else
         let name_in_bounds = name_offset \<le> length raw \<and> unat (n_namesz header) \<le> length raw - name_offset;
             descriptor_in_bounds = descriptor_offset \<le> length raw \<and> unat (n_descsz header) \<le> length raw - descriptor_offset
         in if n_type header = NT_GNU_BUILD_ID \<and> unat (n_namesz header) \<ge> 3 \<and> unat (n_descsz header) > 0 \<and>
               name_in_bounds \<and> descriptor_in_bounds
            then and_then (read_bytes raw name_offset 3) (\<lambda>name.
                   if name = ascii ''GNU''
                   then and_then (read_bytes raw descriptor_offset (unat (n_descsz header))) (\<lambda>bs. Got (BytesToHex bs))
                   else find_note lib raw after)
            else find_note lib raw after
      else Got [])"
  by pat_completeness auto
termination
  by (relation "measure (\<lambda>(_, raw, offset). length raw - offset)") auto

declare find_note.simps [simp del]

fun FindBuildId :: "Libelf \<Rightarrow> Elf_Data \<Rightarrow> bytes outcome" where
  "FindBuildId lib None = Got []"
| "FindBuildId lib (Some raw) = find_note lib raw 0"

definition IsValidBuildId :: "bytes \<Rightarrow> bool" where
  "IsValidBuildId build_id \<longleftrightarrow>
     \<not> (length build_id < 8 \<or> length build_id > 128 \<or> length build_id mod 2 \<noteq> 0) \<and>
     list_all (\<lambda>c. 0x30 \<le> c \<and> c \<le> 0x39 \<or> 0x61 \<le> c \<and> c \<le> 0x66 \<or> 0x41 \<le> c \<and> c \<le> 0x46) build_id"

record BuildIdResult =
  bi_build_id :: bytes
  bi_error :: string

definition Failure :: "string \<Rightarrow> BuildIdResult" where
  "Failure error = \<lparr>bi_build_id = [], bi_error = error\<rparr>"

definition ElfError :: "Libelf \<Rightarrow> string \<Rightarrow> string" where
  "ElfError lib operation =
     operation @ '': '' @ (case elf_errmsg lib of Some detail \<Rightarrow> detail | None \<Rightarrow> ''unknown libelf error'')"

fun scan_data :: "Libelf \<Rightarrow> Elf_Data list \<Rightarrow> bytes outcome" where
  "scan_data lib [] = Got []"
| "scan_data lib (d # ds) = and_then (FindBuildId lib d) (\<lambda>build_id. if build_id \<noteq> [] then Got build_id else scan_data lib ds)"

fun scan_sections :: "Libelf \<Rightarrow> string \<Rightarrow> Elf_Section option option list \<Rightarrow> BuildIdResult outcome" where
  "scan_sections lib path [] = Got (Failure (path @ '' has no GNU build ID''))"
| "scan_sections lib path (None # rest) = Got (Failure (ElfError lib ''elf_getscn''))"
| "scan_sections lib path (Some None # rest) = Got (Failure (ElfError lib ''gelf_getshdr''))"
| "scan_sections lib path (Some (Some sec) # rest) =
     (if es_sh_type sec \<noteq> SHT_NOTE then scan_sections lib path rest
      else and_then (scan_data lib (es_data sec)) (\<lambda>build_id.
             if build_id \<noteq> [] then Got \<lparr>bi_build_id = build_id, bi_error = []\<rparr> else scan_sections lib path rest))"

definition ReadElfBuildId :: "Libelf \<Rightarrow> string \<Rightarrow> BuildIdResult outcome" where
  "ReadElfBuildId lib path =
     (if path = [] then Got (Failure ''ELF path is empty'')
      else if \<not> elf_version_ok lib then Got (Failure (ElfError lib ''elf_version''))
      else case elf_open lib path of
             Some errno_text \<Rightarrow> Got (Failure (''open('' @ path @ ''): '' @ errno_text))
           | None \<Rightarrow>
              if \<not> elf_begin_ok lib path then Got (Failure (ElfError lib ''elf_begin''))
              else if \<not> elf_is_object lib path then Got (Failure (path @ '' is not an ELF object''))
              else (case elf_sections lib path of
                      None \<Rightarrow> Got (Failure (ElfError lib ''elf_getshdrnum''))
                    | Some sections \<Rightarrow> scan_sections lib path sections))"

section \<open>Bounds\<close>

lemma read_bytes_within:
  "offset + n \<le> length raw \<Longrightarrow> read_bytes raw offset n = Got (take n (drop offset raw))"
proof (induction n arbitrary: offset)
  case (Suc n)
  then have "byte_at raw offset = Got (raw ! offset)" "read_bytes raw (offset + 1) n = Got (take n (drop (Suc offset) raw))"
    by (simp_all add: byte_at_def)
  moreover have "drop offset raw = raw ! offset # drop (Suc offset) raw" using Suc.prems by (simp add: Cons_nth_drop_Suc)
  ultimately show ?case by simp
qed simp

text \<open>The specification of a build id, independent of the loop: the notes of a section's data are those that
  libelf describes when it is asked at offset 0 and then at each offset it returned before; a GNU build id is the
  descriptor of a note of type \<open>NT_GNU_BUILD_ID\<close> whose name begins with \<open>GNU\<close>, both inside the data.\<close>

inductive note_from :: "Libelf \<Rightarrow> bytes \<Rightarrow> nat \<Rightarrow> nat \<Rightarrow> bool" for lib raw where
  note_here: "note_from lib raw offset offset"
| note_next: "offset < length raw \<Longrightarrow> gelf_getnote lib raw offset = (after, header, no, dof) \<Longrightarrow> offset < after \<Longrightarrow>
    note_from lib raw after there \<Longrightarrow> note_from lib raw offset there"

inductive_cases note_fromE: "note_from lib raw offset there"

definition gnu_note :: "Libelf \<Rightarrow> bytes \<Rightarrow> nat \<Rightarrow> bytes \<Rightarrow> bool" where
  "gnu_note lib raw offset descriptor \<longleftrightarrow> offset < length raw \<and>
     (case gelf_getnote lib raw offset of (after, header, no, dof) \<Rightarrow>
        offset < after \<and> n_type header = NT_GNU_BUILD_ID \<and> 3 \<le> unat (n_namesz header) \<and> descriptor \<noteq> [] \<and>
        no + unat (n_namesz header) \<le> length raw \<and> take 3 (drop no raw) = ascii ''GNU'' \<and>
        dof + unat (n_descsz header) \<le> length raw \<and> descriptor = take (unat (n_descsz header)) (drop dof raw))"

definition has_build_id :: "Libelf \<Rightarrow> bytes \<Rightarrow> bool" where
  "has_build_id lib raw \<longleftrightarrow> (\<exists>offset descriptor. note_from lib raw 0 offset \<and> gnu_note lib raw offset descriptor)"

definition first_note :: "Libelf \<Rightarrow> bytes \<Rightarrow> nat \<Rightarrow> bytes \<Rightarrow> bool" where
  "first_note lib raw start descriptor \<longleftrightarrow>
     (\<exists>offset. note_from lib raw start offset \<and> gnu_note lib raw offset descriptor \<and>
        (\<forall>offset' descriptor'. note_from lib raw start offset' \<longrightarrow> gnu_note lib raw offset' descriptor' \<longrightarrow> offset \<le> offset'))"

definition build_id_at :: "Libelf \<Rightarrow> bytes \<Rightarrow> bytes \<Rightarrow> bool" where
  "build_id_at lib raw out \<longleftrightarrow> (\<exists>descriptor. first_note lib raw 0 descriptor \<and> out = BytesToHex descriptor)"

lemma BytesToHex_Nil: "BytesToHex bs = [] \<longleftrightarrow> bs = []"
  by (cases bs) auto

lemma note_from_le: "note_from lib raw offset there \<Longrightarrow> offset \<le> there"
  by (induction rule: note_from.induct) auto

text \<open>What one round of the loop does.\<close>

lemma find_note_stop:
  assumes "gelf_getnote lib raw offset = (after, header, no, dof)" "\<not> (offset < length raw \<and> offset < after)"
  shows "find_note lib raw offset = Got []" "note_from lib raw offset there \<Longrightarrow> \<not> gnu_note lib raw there descriptor"
  using assms by (auto simp: find_note.simps [of lib raw offset] gnu_note_def elim: note_fromE)

lemma find_note_found:
  assumes "gnu_note lib raw offset descriptor"
  shows "find_note lib raw offset = Got (BytesToHex descriptor)"
proof -
  obtain after header no dof where g: "gelf_getnote lib raw offset = (after, header, no, dof)" by (metis prod_cases4)
  have b: "no + 3 \<le> length raw" "dof + unat (n_descsz header) \<le> length raw" "0 < unat (n_descsz header)"
    using assms g by (auto simp: gnu_note_def)
  show ?thesis using assms g read_bytes_within [OF b(1)] read_bytes_within [OF b(2)] b
    by (subst find_note.simps) (auto simp: gnu_note_def)
qed

lemma find_note_skip:
  assumes "gelf_getnote lib raw offset = (after, header, no, dof)" "offset < length raw" "offset < after"
    and "\<And>descriptor. \<not> gnu_note lib raw offset descriptor"
  shows "find_note lib raw offset = find_note lib raw after"
proof (cases "n_type header = NT_GNU_BUILD_ID \<and> unat (n_namesz header) \<ge> 3 \<and> unat (n_descsz header) > 0 \<and>
      no + unat (n_namesz header) \<le> length raw \<and> dof + unat (n_descsz header) \<le> length raw")
  case True
  then have n: "read_bytes raw no 3 = Got (take 3 (drop no raw))" by (intro read_bytes_within) auto
  have "take (unat (n_descsz header)) (drop dof raw) \<noteq> []" using True by auto
  then have "take 3 (drop no raw) \<noteq> ascii ''GNU''"
    using assms(4) [of "take (unat (n_descsz header)) (drop dof raw)"] assms(1-3) True by (auto simp: gnu_note_def)
  then show ?thesis using assms(1-3) n True by (subst find_note.simps) auto
next
  case False
  then show ?thesis using assms(1-3) by (subst find_note.simps) auto
qed

lemma find_note_result:
  "\<exists>descriptor. find_note lib raw offset = Got (BytesToHex descriptor) \<and>
     (if descriptor = [] then \<forall>there d. note_from lib raw offset there \<longrightarrow> \<not> gnu_note lib raw there d
      else first_note lib raw offset descriptor)"
proof (induction "length raw - offset" arbitrary: offset rule: less_induct)
  case less
  obtain after header no dof where g: "gelf_getnote lib raw offset = (after, header, no, dof)" by (metis prod_cases4)
  consider (stop) "\<not> (offset < length raw \<and> offset < after)" | (found) d where "gnu_note lib raw offset d"
    | (skip) "offset < length raw" "offset < after" "\<And>d. \<not> gnu_note lib raw offset d" by blast
  then show ?case
  proof cases
    case stop
    then show ?thesis using find_note_stop [OF g] by (intro exI [of _ "[]"]) auto
  next
    case found
    then have "d \<noteq> []" by (auto simp: gnu_note_def)
    moreover have "first_note lib raw offset d"
      using found note_here note_from_le unfolding first_note_def by blast
    ultimately show ?thesis using find_note_found [OF found] by (intro exI [of _ d]) simp
  next
    case skip
    have "length raw - after < length raw - offset" using skip(1,2) by simp
    from less [OF this] obtain d where d: "find_note lib raw after = Got (BytesToHex d)"
        "if d = [] then \<forall>there d. note_from lib raw after there \<longrightarrow> \<not> gnu_note lib raw there d else first_note lib raw after d"
      by blast
    have on: "note_from lib raw after there" if "note_from lib raw offset there" "gnu_note lib raw there e" for there e
      using that g skip(3) by (auto elim: note_fromE)
    show ?thesis
    proof (intro exI [of _ d] conjI)
      show "find_note lib raw offset = Got (BytesToHex d)" using find_note_skip [OF g skip] d(1) by simp
      show "if d = [] then \<forall>there d. note_from lib raw offset there \<longrightarrow> \<not> gnu_note lib raw there d else first_note lib raw offset d"
      proof (cases "d = []")
        case True
        then show ?thesis using d(2) on by auto
      next
        case False
        then show ?thesis using d(2) on note_next [OF skip(1) g skip(2)] unfolding first_note_def by (simp) blast
      qed
    qed
  qed
qed

text \<open>The id found in a list of section data, or that there is none.\<close>

definition data_outcome :: "Libelf \<Rightarrow> bytes set \<Rightarrow> bytes \<Rightarrow> bool" where
  "data_outcome lib raws out \<longleftrightarrow>
     (if out = [] then \<forall>raw \<in> raws. \<not> has_build_id lib raw else \<exists>raw \<in> raws. build_id_at lib raw out)"

lemma data_outcome_mono:
  "data_outcome lib raws out \<Longrightarrow> out \<noteq> [] \<Longrightarrow> data_outcome lib (raws \<union> others) out"
  "data_outcome lib raws [] \<Longrightarrow> data_outcome lib others out \<Longrightarrow> data_outcome lib (raws \<union> others) out"
  by (auto simp: data_outcome_def)

lemma FindBuildId_result: "\<exists>out. FindBuildId lib d = Got out \<and> data_outcome lib (set_option d) out"
proof (cases d)
  case (Some raw)
  obtain b where b: "find_note lib raw 0 = Got (BytesToHex b)"
      "if b = [] then \<forall>there d. note_from lib raw 0 there \<longrightarrow> \<not> gnu_note lib raw there d else first_note lib raw 0 b"
    using find_note_result by blast
  have "data_outcome lib {raw} (BytesToHex b)"
  proof (cases "b = []")
    case True
    then show ?thesis using b(2) by (auto simp: data_outcome_def has_build_id_def)
  next
    case False
    then show ?thesis using b(2) by (auto simp: data_outcome_def BytesToHex_Nil build_id_at_def)
  qed
  then show ?thesis using b(1) Some by simp
qed (simp add: data_outcome_def)

lemma scan_data_result: "\<exists>out. scan_data lib ds = Got out \<and> data_outcome lib {raw. Some raw \<in> set ds} out"
proof (induction ds)
  case (Cons d ds)
  have all: "{raw. Some raw \<in> set (d # ds)} = set_option d \<union> {raw. Some raw \<in> set ds}" by auto
  obtain out where o: "FindBuildId lib d = Got out" "data_outcome lib (set_option d) out" using FindBuildId_result by blast
  show ?case
  proof (cases "out = []")
    case True
    then show ?thesis using o Cons.IH data_outcome_mono(2) unfolding all by auto
  next
    case False
    then show ?thesis using o data_outcome_mono(1) [OF o(2)] unfolding all by auto
  qed
qed (simp add: data_outcome_def)

definition note_data :: "Elf_Section option option list \<Rightarrow> bytes \<Rightarrow> bool" where
  "note_data sections raw \<longleftrightarrow>
     (\<exists>sec. Some (Some sec) \<in> set sections \<and> es_sh_type sec = SHT_NOTE \<and> Some raw \<in> set (es_data sec))"

text \<open>An error is reported only if a section could not be read or no note section has a build id.\<close>

definition good_result :: "Libelf \<Rightarrow> Elf_Section option option list \<Rightarrow> BuildIdResult \<Rightarrow> bool" where
  "good_result lib sections r \<longleftrightarrow>
     (if bi_error r = [] then \<exists>raw. note_data sections raw \<and> build_id_at lib raw (bi_build_id r)
      else bi_build_id r = [] \<and>
        (None \<in> set sections \<or> Some None \<in> set sections \<or> (\<forall>raw. note_data sections raw \<longrightarrow> \<not> has_build_id lib raw)))"

lemma ElfError_nonempty [simp]: "ElfError lib operation \<noteq> []"
  by (simp add: ElfError_def)

lemma note_data_Cons:
  "note_data (Some (Some sec) # rest) raw \<longleftrightarrow> es_sh_type sec = SHT_NOTE \<and> Some raw \<in> set (es_data sec) \<or> note_data rest raw"
  by (auto simp: note_data_def)

lemma scan_sections_result: "\<exists>r. scan_sections lib path sections = Got r \<and> good_result lib sections r"
proof (induction sections rule: scan_sections.induct [of "\<lambda>lib path sections. \<exists>r. scan_sections lib path sections = Got r \<and> good_result lib sections r"])
  case (4 lib path sec rest)
  obtain out where o: "scan_data lib (es_data sec) = Got out" "data_outcome lib {raw. Some raw \<in> set (es_data sec)} out"
    using scan_data_result by blast
  show ?case
  proof (cases "es_sh_type sec = SHT_NOTE \<and> out \<noteq> []")
    case True
    then show ?thesis using o by (auto simp: good_result_def note_data_Cons data_outcome_def)
  next
    case False
    then have eq: "scan_sections lib path (Some (Some sec) # rest) = scan_sections lib path rest" using o by auto
    obtain r where r: "scan_sections lib path rest = Got r" "good_result lib rest r" using False 4 o by auto
    have "good_result lib (Some (Some sec) # rest) r"
      using r(2) False o(2) by (auto simp: good_result_def note_data_Cons data_outcome_def split: if_splits)
    then show ?thesis using eq r(1) by auto
  qed
qed (auto simp: good_result_def Failure_def note_data_def)

lemma BytesToHex_length: "length (BytesToHex bs) = 2 * length bs"
  by (induction bs) auto

definition lower_hex :: "u8 \<Rightarrow> bool" where
  "lower_hex c \<longleftrightarrow> 0x30 \<le> c \<and> c \<le> 0x39 \<or> 0x61 \<le> c \<and> c \<le> 0x66"

lemma kHex_lower: "d < 16 \<Longrightarrow> lower_hex (kHex d)"
proof -
  have "list_all (\<lambda>d. lower_hex (kHex d)) [0..<16]" by code_simp
  then show "d < 16 \<Longrightarrow> lower_hex (kHex d)" by (simp add: list_all_iff)
qed

lemma nibble_bound: "unat ((b :: u8) AND 0x0f) < 16"
proof -
  have "b AND 0x0f \<le> 0x0f" by (rule word_and_le1)
  then show ?thesis by (simp add: word_le_nat_alt)
qed

lemma BytesToHex_lower: "list_all lower_hex (BytesToHex bs)"
  by (induction bs) (simp_all add: kHex_lower nibble_bound)

section \<open>Properties\<close>

text \<open>The file can be opened and its sections listed.\<close>

definition elf_listed :: "Libelf \<Rightarrow> string \<Rightarrow> Elf_Section option option list \<Rightarrow> bool" where
  "elf_listed lib path sections \<longleftrightarrow> path \<noteq> [] \<and> elf_version_ok lib \<and> elf_open lib path = None \<and> elf_begin_ok lib path \<and>
     elf_is_object lib path \<and> elf_sections lib path = Some sections"

text \<open>
  C26. Reading a build id is total, memory safe and exact whatever libelf reports: \<open>ReadElfBuildId\<close> returns and
  no index it uses lies outside a section's data. With no error it gives the non-empty lowercase hexadecimal form
  of the descriptor of the first GNU build id note (type \<open>NT_GNU_BUILD_ID\<close>, a name that begins with \<open>GNU\<close>) that
  libelf describes in the data of a note section; otherwise it gives an error and no id, and if the file's sections
  could all be read then no note section has a GNU build id note.
\<close>

theorem build_id_reader_total:
  "\<exists>r. ReadElfBuildId lib path = Got r \<and>
     (if bi_error r = []
      then bi_build_id r \<noteq> [] \<and> list_all lower_hex (bi_build_id r) \<and>
           (\<exists>sections raw. elf_listed lib path sections \<and> note_data sections raw \<and> build_id_at lib raw (bi_build_id r))
      else bi_build_id r = [] \<and>
           (\<forall>sections raw. elf_listed lib path sections \<longrightarrow> None \<notin> set sections \<longrightarrow> Some None \<notin> set sections \<longrightarrow>
              note_data sections raw \<longrightarrow> \<not> has_build_id lib raw))"
proof (cases "\<exists>sections. elf_listed lib path sections")
  case True
  then obtain sections where s: "elf_listed lib path sections" by blast
  obtain r where r: "scan_sections lib path sections = Got r" "good_result lib sections r" using scan_sections_result by blast
  have read: "ReadElfBuildId lib path = Got r" using s r(1) by (simp add: ReadElfBuildId_def elf_listed_def)
  have only: "elf_listed lib path sections' \<Longrightarrow> sections' = sections" for sections' using s by (simp add: elf_listed_def)
  have hex: "out \<noteq> [] \<and> list_all lower_hex out" if "build_id_at lib raw out" for raw out
    using that by (auto simp: build_id_at_def first_note_def gnu_note_def BytesToHex_Nil BytesToHex_lower)
  show ?thesis
  proof (intro exI [of _ r] conjI read)
    show "if bi_error r = [] then bi_build_id r \<noteq> [] \<and> list_all lower_hex (bi_build_id r) \<and>
        (\<exists>sections raw. elf_listed lib path sections \<and> note_data sections raw \<and> build_id_at lib raw (bi_build_id r))
      else bi_build_id r = [] \<and> (\<forall>sections raw. elf_listed lib path sections \<longrightarrow> None \<notin> set sections \<longrightarrow>
        Some None \<notin> set sections \<longrightarrow> note_data sections raw \<longrightarrow> \<not> has_build_id lib raw)"
    proof (cases "bi_error r = []")
      case True
      then show ?thesis using r(2) s hex unfolding good_result_def by (simp) blast
    next
      case False
      then show ?thesis using r(2) only unfolding good_result_def by (simp) blast
    qed
  qed
next
  case False
  then have "\<exists>e. ReadElfBuildId lib path = Got (Failure e) \<and> e \<noteq> []"
    by (cases "elf_open lib path"; cases "elf_sections lib path") (auto simp: ReadElfBuildId_def elf_listed_def)
  then obtain e where "ReadElfBuildId lib path = Got (Failure e)" "e \<noteq> []" by blast
  then show ?thesis using False by (intro exI [of _ "Failure e"]) (simp add: Failure_def)
qed

definition sample_notes :: bytes where
  "sample_notes = [4, 0, 0, 0, 4, 0, 0, 0, 3, 0, 0, 0] @ ascii ''GNU'' @ [0, 0xde, 0xad, 0xbe, 0xef]"

definition sample_libelf :: Libelf where
  "sample_libelf =
     \<lparr>gelf_getnote = (\<lambda>raw offset. (offset + 20, \<lparr>n_namesz = 4, n_descsz = 4, n_type = 3\<rparr>, offset + 12, offset + 16)),
      elf_version_ok = True, elf_open = (\<lambda>_. None), elf_begin_ok = (\<lambda>_. True), elf_is_object = (\<lambda>_. True),
      elf_sections = (\<lambda>_. Some [Some (Some \<lparr>es_sh_type = 7, es_data = [Some sample_notes]\<rparr>)]), elf_errmsg = None\<rparr>"

text \<open>A note section with one build id note: the file is readable and has an id, so reading gives it.\<close>

theorem build_id_reader_total_witness:
  "elf_listed sample_libelf ''lib.so'' [Some (Some \<lparr>es_sh_type = 7, es_data = [Some sample_notes]\<rparr>)] \<and>
   has_build_id sample_libelf sample_notes \<and>
   (\<exists>r. ReadElfBuildId sample_libelf ''lib.so'' = Got r \<and> bi_error r = [] \<and> bi_build_id r \<noteq> [])"
proof -
  let ?sections = "[Some (Some \<lparr>es_sh_type = 7, es_data = [Some sample_notes]\<rparr>)]"
  have l: "elf_listed sample_libelf ''lib.so'' ?sections" by (simp add: elf_listed_def sample_libelf_def)
  have "gnu_note sample_libelf sample_notes 0 [0xde, 0xad, 0xbe, 0xef]"
    by (simp add: gnu_note_def sample_libelf_def sample_notes_def NT_GNU_BUILD_ID_def ascii_def)
  then have h: "has_build_id sample_libelf sample_notes" using note_here unfolding has_build_id_def by blast
  have "note_data ?sections sample_notes" by (simp add: note_data_def SHT_NOTE_def)
  then have "note_data ?sections sample_notes \<and> None \<notin> set ?sections \<and> Some None \<notin> set ?sections" by simp
  then show ?thesis using l h build_id_reader_total [of sample_libelf "''lib.so''"] by metis
qed

text \<open>The hexadecimal form of a build id is a valid one exactly when the id has 4 to 64 bytes.\<close>

lemma hex_valid: "IsValidBuildId (BytesToHex bs) \<longleftrightarrow> 4 \<le> length bs \<and> length bs \<le> 64"
proof -
  have "list_all (\<lambda>c. 0x30 \<le> c \<and> c \<le> 0x39 \<or> 0x61 \<le> c \<and> c \<le> 0x66 \<or> 0x41 \<le> c \<and> c \<le> 0x46) (BytesToHex bs)"
    using BytesToHex_lower [of bs] by (auto simp: list_all_iff lower_hex_def)
  then show ?thesis by (auto simp: IsValidBuildId_def BytesToHex_length)
qed

end
