(* ===== verification/Fresh_Launch.thy ===== *)
theory Fresh_Launch
  imports Surface_Bridge Text_Layout
begin

text \<open>
  Launching a game from the app (\<open>src/runtime/roblox_fresh_game_launch_controller.cc\<close>) and the gate through
  which the window reports presented frames (\<open>src/window/present_observer.h\<close>). A launch checks the request,
  builds the Java object \<open>StartGameParams\<close>, creates a game-session runtime, registers it with the gate and starts
  it. A runtime has a serial number as its address, so that a frame reported to a runtime that is gone is visible:
  it sets \<open>fl_dangling\<close>. JNI calls have the outcomes the environment gives (a null result, a pending exception);
  the local references the code makes are tracked. \<open>fl_history\<close> holds the native calls of the ended sessions.
\<close>

section \<open>The present gate\<close>

record PresentObserverRegistry =
  pr_observer :: "nat option"

text \<open>\<open>None\<close> as the target of a registration is a null observer or context.\<close>

definition Registry_Register :: "nat option \<Rightarrow> PresentObserverRegistry \<Rightarrow> bool \<times> PresentObserverRegistry" where
  "Registry_Register target r =
     (if target = None then (False, r)
      else if pr_observer r \<noteq> None then (False, r)
      else (True, r\<lparr>pr_observer := target\<rparr>))"

definition Registry_Clear :: "PresentObserverRegistry \<Rightarrow> PresentObserverRegistry" where
  "Registry_Clear r = r\<lparr>pr_observer := None\<rparr>"

record PresentLifecycleGate =
  pg_observers :: PresentObserverRegistry
  pg_active :: bool

definition PresentLifecycleGate_new :: PresentLifecycleGate where
  "PresentLifecycleGate_new = \<lparr>pg_observers = \<lparr>pr_observer = None\<rparr>, pg_active = False\<rparr>"

definition Gate_Activate :: "PresentLifecycleGate \<Rightarrow> bool \<times> PresentLifecycleGate" where
  "Gate_Activate g =
     (if pg_active g then (False, g) else (True, g\<lparr>pg_observers := Registry_Clear (pg_observers g), pg_active := True\<rparr>))"

definition Gate_Deactivate :: "PresentLifecycleGate \<Rightarrow> PresentLifecycleGate" where
  "Gate_Deactivate g = g\<lparr>pg_active := False, pg_observers := Registry_Clear (pg_observers g)\<rparr>"

definition Gate_Register :: "nat option \<Rightarrow> PresentLifecycleGate \<Rightarrow> bool \<times> PresentLifecycleGate" where
  "Gate_Register target g =
     (if \<not> pg_active g then (False, g)
      else case Registry_Register target (pg_observers g) of (ok, r) \<Rightarrow> (ok, g\<lparr>pg_observers := r\<rparr>))"

definition Gate_Clear :: "PresentLifecycleGate \<Rightarrow> PresentLifecycleGate" where
  "Gate_Clear g = g\<lparr>pg_observers := Registry_Clear (pg_observers g)\<rparr>"

text \<open>\<open>EnterPresent\<close> and \<open>NotifyObserver\<close>: the observer that is called, if any.\<close>

definition Gate_Notify :: "PresentLifecycleGate \<Rightarrow> nat option" where
  "Gate_Notify g = (if \<not> pg_active g then None else pr_observer (pg_observers g))"

section \<open>JNI calls\<close>

record JniOutcome =
  jo_null :: bool
  jo_throws :: bool

datatype JniValue = JvObject u64 | JvLong int | JvInt int | JvBoolean bool | JvString "u16 list"

record JniLocals =
  jl_outcomes :: "nat \<Rightarrow> JniOutcome"
  jl_calls :: nat
  jl_pending :: bool
  jl_live :: "nat list"
  jl_next :: nat
  jl_fields :: "(nat \<times> string \<times> JniValue) list"

text \<open>A call: whether its result is non-null.\<close>

definition jni_call :: "JniLocals \<Rightarrow> bool \<times> JniLocals" where
  "jni_call j =
     (let r = jl_outcomes j (jl_calls j)
      in (\<not> jo_null r, j\<lparr>jl_calls := jl_calls j + 1, jl_pending := (jl_pending j \<or> jo_throws r)\<rparr>))"

definition new_local :: "JniLocals \<Rightarrow> nat option \<times> JniLocals" where
  "new_local j =
     (case jni_call j of (ok, j) \<Rightarrow>
        if ok then (Some (jl_next j), j\<lparr>jl_next := jl_next j + 1, jl_live := jl_live j @ [jl_next j]\<rparr>) else (None, j))"

definition DeleteLocalRef :: "nat \<Rightarrow> JniLocals \<Rightarrow> JniLocals" where
  "DeleteLocalRef r j = j\<lparr>jl_live := filter (\<lambda>x. x \<noteq> r) (jl_live j)\<rparr>"

definition CheckJni :: "string \<Rightarrow> JniLocals \<Rightarrow> Status \<times> JniLocals" where
  "CheckJni operation j =
     (if \<not> jl_pending j then (Status_Ok, j)
      else (Status_Error kPlatformError (operation @ '' failed while building fresh StartGameParams''),
            j\<lparr>jl_pending := False\<rparr>))"

definition check_or :: "string \<Rightarrow> Status \<Rightarrow> JniLocals \<Rightarrow> Status \<times> JniLocals" where
  "check_or operation otherwise j =
     (case CheckJni operation j of (status, j) \<Rightarrow> (if status_ok status then otherwise else status, j))"

definition kMaximumLaunchFieldBytes :: nat where "kMaximumLaunchFieldBytes = 16 * 1024"

text \<open>The UTF-16 units of a text; \<open>None\<close> when the decoder rejects it.\<close>

function launch_units :: "TextLib \<Rightarrow> u16 list \<Rightarrow> bytes \<Rightarrow> u16 list option" where
  "launch_units lib utf16 s =
     (if s = [] then Some utf16
      else case iterate lib s of (count, codepoint) \<Rightarrow>
        if count \<le> 0 \<or> codepoint < 0 \<or> codepoint > 0x10ffff then None
        else launch_units lib
               (utf16 @ (if codepoint \<le> 0xffff then [word_of_int codepoint]
                         else let c = codepoint - 0x10000
                              in [word_of_int (0xd800 + c div 1024), word_of_int (0xdc00 + c mod 1024)]))
               (drop (nat count) s))"
  by pat_completeness auto
termination
  by (relation "measure (\<lambda>(_, _, s). length s)") auto

declare launch_units.simps [simp del]

text \<open>The new string and its units.\<close>

definition NewJavaString :: "TextLib \<Rightarrow> bytes \<Rightarrow> JniLocals \<Rightarrow> (nat \<times> u16 list) option \<times> JniLocals" where
  "NewJavaString lib utf8 j =
     (if length utf8 > kMaximumLaunchFieldBytes then (None, j)
      else case launch_units lib [] utf8 of
        None \<Rightarrow> (None, j)
      | Some utf16 \<Rightarrow>
          if length utf16 > 2 ^ 31 - 1 then (None, j)
          else case new_local j of (r, j) \<Rightarrow> (map_option (\<lambda>r. (r, utf16)) r, j))"

text \<open>\<open>SetObject\<close>, \<open>SetLong\<close>, \<open>SetInt\<close> and \<open>SetBoolean\<close> differ in the type of the field.\<close>

definition SetField :: "nat \<Rightarrow> string \<Rightarrow> JniValue \<Rightarrow> JniLocals \<Rightarrow> Status \<times> JniLocals" where
  "SetField object name v j =
     (case jni_call j of (found, j) \<Rightarrow>
        if \<not> found
        then check_or name (Status_Error kUnavailable (''StartGameParams field is unavailable: '' @ name)) j
        else case jni_call j of (_, j) \<Rightarrow> CheckJni name (j\<lparr>jl_fields := jl_fields j @ [(object, name, v)]\<rparr>))"

definition SetString :: "TextLib \<Rightarrow> nat \<Rightarrow> string \<Rightarrow> bytes \<Rightarrow> JniLocals \<Rightarrow> Status \<times> JniLocals" where
  "SetString lib object name v j =
     (case NewJavaString lib v j of
        (None, j) \<Rightarrow> check_or name (Status_Error kInvalidArgument (''StartGameParams string is invalid or too large: '' @ name)) j
      | (Some (local, units), j) \<Rightarrow>
          (case SetField object name (JvString units) j of (status, j) \<Rightarrow> (status, DeleteLocalRef local j)))"

section \<open>Requests and contexts\<close>

definition same_launch_fields :: "RobloxExperienceLaunchRequest \<Rightarrow> RobloxExperienceLaunchRequest \<Rightarrow> bool" where
  "same_launch_fields canonical request \<longleftrightarrow>
     rl_place_id canonical = rl_place_id request \<and> rl_user_id canonical = rl_user_id request \<and>
     rl_conversation_id canonical = rl_conversation_id request \<and>
     rl_referred_by_player_id canonical = rl_referred_by_player_id request \<and>
     rl_game_instance_id canonical = rl_game_instance_id request \<and>
     rl_reserved_server_access_code canonical = rl_reserved_server_access_code request \<and>
     rl_call_id canonical = rl_call_id request \<and> rl_referral_page canonical = rl_referral_page request \<and>
     rl_access_code canonical = rl_access_code request \<and> rl_link_code canonical = rl_link_code request \<and>
     rl_launch_data canonical = rl_launch_data request \<and> rl_event_id canonical = rl_event_id request \<and>
     rl_game_join_context canonical = rl_game_join_context request \<and>
     rl_join_attempt_id canonical = rl_join_attempt_id request \<and>
     rl_join_attempt_origin canonical = rl_join_attempt_origin request \<and>
     rl_iso_context canonical = rl_iso_context request"

definition launch_texts :: "RobloxExperienceLaunchRequest \<Rightarrow> bytes list" where
  "launch_texts request =
     [rl_game_instance_id request, rl_reserved_server_access_code request, rl_call_id request, rl_referral_page request,
      rl_access_code request, rl_link_code request, rl_launch_data request, rl_event_id request,
      rl_game_join_context request, rl_join_attempt_id request, rl_join_attempt_origin request, rl_iso_context request]"

definition ValidateRequest :: "LaunchEnv \<Rightarrow> RobloxExperienceLaunchRequest \<Rightarrow> Status" where
  "ValidateRequest env request =
     (if rl_place_id request \<le> 0 \<or> rl_user_id request < 0 \<or> rl_conversation_id request < 0 \<or>
         rl_referred_by_player_id request < 0
      then Status_Error kInvalidArgument ''fresh game launch identifiers are invalid''
      else if rl_canonical_json request = [] \<or> length (rl_canonical_json request) > kMaximumExperienceLaunchJsonBytes
      then Status_Error kInvalidArgument ''fresh game launch canonical JSON is unavailable''
      else if list_ex (\<lambda>field. length field > kMaximumLaunchFieldBytes) (launch_texts request)
      then Status_Error kInvalidArgument ''fresh game launch string field is too large''
      else case ParseRobloxExperienceLaunchJson env (rl_canonical_json request) of
        Inl _ \<Rightarrow> Status_Error kInvalidArgument ''fresh game launch canonical JSON is invalid''
      | Inr canonical \<Rightarrow>
          if \<not> same_launch_fields canonical request
          then Status_Error kInvalidArgument ''fresh game launch fields do not match their canonical JSON''
          else Status_Ok)"

record RobloxFreshGameLaunchContext =
  fx_request_id :: u64
  fx_native_gl_class :: u64
  fx_surface :: u64
  fx_platform_params :: u64
  fx_activity :: u64
  fx_device_params :: u64
  fx_vr_context :: u64
  fx_principal :: GameSessionPrincipal
  fx_game_surface :: GameSurface
  fx_username :: bytes
  fx_is_under_13 :: bool
  fx_join_request_type :: int

definition context_complete :: "RobloxFreshGameLaunchContext \<Rightarrow> bool" where
  "context_complete x \<longleftrightarrow>
     fx_request_id x \<noteq> 0 \<and> fx_native_gl_class x \<noteq> 0 \<and> fx_surface x \<noteq> 0 \<and> fx_platform_params x \<noteq> 0 \<and>
     (gp_kind (fx_principal x) = kAuthenticated \<and> gp_generation (fx_principal x) \<noteq> 0 \<and>
      gp_principal_id (fx_principal x) \<noteq> [] \<and> gp_base_url (fx_principal x) \<noteq> []) \<and>
     gf_generation (fx_game_surface x) \<noteq> 0 \<and> gf_native_window (fx_game_surface x) \<noteq> 0 \<and>
     gf_width (fx_game_surface x) \<noteq> 0 \<and> gf_height (fx_game_surface x) \<noteq> 0"

datatype LaunchField = PlainField string JniValue | TextField string bytes

definition start_game_fields :: "RobloxExperienceLaunchRequest \<Rightarrow> RobloxFreshGameLaunchContext \<Rightarrow> LaunchField list" where
  "start_game_fields request x =
     [PlainField ''surface'' (JvObject (fx_surface x)), PlainField ''platformParams'' (JvObject (fx_platform_params x)),
      PlainField ''deviceParams'' (JvObject (fx_device_params x)), PlainField ''placeId'' (JvLong (rl_place_id request)),
      PlainField ''userId'' (JvLong (rl_user_id request)), TextField ''accessCode'' (rl_access_code request),
      TextField ''callId'' (rl_call_id request), TextField ''linkCode'' (rl_link_code request),
      TextField ''reservedServerAccessCode'' (rl_reserved_server_access_code request),
      PlainField ''conversationId'' (JvLong (rl_conversation_id request)),
      PlainField ''joinRequestType'' (JvInt (fx_join_request_type x)), TextField ''gameId'' (rl_game_instance_id request),
      PlainField ''isUnder13'' (JvBoolean (fx_is_under_13 x)), TextField ''username'' (fx_username x),
      TextField ''referralPage'' (rl_referral_page request), TextField ''launchData'' (rl_launch_data request),
      TextField ''gameJoinContext'' (rl_game_join_context request), TextField ''eventId'' (rl_event_id request),
      TextField ''joinAttemptId'' (rl_join_attempt_id request),
      TextField ''joinAttemptOrigin'' (rl_join_attempt_origin request), TextField ''isoContext'' (rl_iso_context request),
      PlainField ''referredByPlayerId'' (JvLong (rl_referred_by_player_id request)),
      PlainField ''vrContext'' (JvObject (fx_vr_context x))]"

fun set_field :: "TextLib \<Rightarrow> nat \<Rightarrow> LaunchField \<Rightarrow> JniLocals \<Rightarrow> Status \<times> JniLocals" where
  "set_field lib object (PlainField name v) j = SetField object name v j"
| "set_field lib object (TextField name v) j = SetString lib object name v j"

text \<open>The chain \<open>if (status.ok()) status = Set...\<close>.\<close>

fun set_fields :: "TextLib \<Rightarrow> nat \<Rightarrow> LaunchField list \<Rightarrow> Status \<Rightarrow> JniLocals \<Rightarrow> Status \<times> JniLocals" where
  "set_fields lib object [] status j = (status, j)"
| "set_fields lib object (f # fs) status j =
     (if status_ok status then case set_field lib object f j of (status, j) \<Rightarrow> set_fields lib object fs status j
      else set_fields lib object fs status j)"

definition BuildFreshStartGameParams ::
  "LaunchEnv \<Rightarrow> TextLib \<Rightarrow> RobloxExperienceLaunchRequest \<Rightarrow> RobloxFreshGameLaunchContext \<Rightarrow> JniLocals \<Rightarrow>
     (Status + nat) \<times> JniLocals" where
  "BuildFreshStartGameParams env lib request x j =
     (if \<not> context_complete x then (Inl (Status_Error kInvalidArgument ''fresh StartGameParams context is incomplete''), j)
      else let status = ValidateRequest env request
      in if \<not> status_ok status then (Inl status, j)
      else if length (fx_username x) > kMaximumLaunchFieldBytes
      then (Inl (Status_Error kInvalidArgument ''fresh StartGameParams username is too large''), j)
      else case new_local j of
        (None, j) \<Rightarrow> map_prod Inl id (check_or ''find StartGameParams class''
             (Status_Error kUnavailable ''StartGameParams class is unavailable'') j)
      | (Some clazz, j) \<Rightarrow>
         (case new_local j of
            (None, j) \<Rightarrow> map_prod Inl id (check_or ''allocate StartGameParams''
                 (Status_Error kUnavailable ''could not allocate StartGameParams'') (DeleteLocalRef clazz j))
          | (Some params, j) \<Rightarrow>
             (case set_fields lib params (start_game_fields request x) Status_Ok j of (status, j) \<Rightarrow>
                let j = DeleteLocalRef clazz j
                in if \<not> status_ok status then (Inl status, DeleteLocalRef params j) else (Inr params, j))))"

section \<open>The controller\<close>

record FreshLaunchConfig =
  fc_environment_valid :: bool
  fc_symbols_complete :: bool
  fc_boundary_complete :: bool
  fc_surface_config_complete :: bool
  fc_observer_valid :: bool

text \<open>The outcomes of one launch: attaching the thread, the adapter's initialisation, the native calls.\<close>

record LaunchOutcome =
  lo_acquire :: Status
  lo_initialize :: Status
  lo_natives :: "nat \<Rightarrow> NativeOutcome"

definition adapter_capabilities :: GameSessionCapabilities where
  "adapter_capabilities = \<lparr>cap_set_game_foreground = True, cap_start_game = True, cap_update_surface = True,
     cap_pause_game = True, cap_resume_game = True, cap_leave_game = True, cap_shutdown_runtime = True\<rparr>"

definition GameSessionSnapshot_default :: GameSessionSnapshot where
  "GameSessionSnapshot_default =
     \<lparr>sn_state = GsCreated, sn_revision = 0, sn_principal_ready = False, sn_principal_kind = kLocalGuest,
      sn_join_request_queued = False, sn_surface_created = False, sn_pending_surface_available = False,
      sn_active_surface_available = False, sn_initial_start_completed = False, sn_game_running = False,
      sn_game_paused = False, sn_game_present_pending = False, sn_game_presented = False,
      sn_returned_to_lua_app = False, sn_stopped = False, sn_principal_generation = 0, sn_request_id = 0,
      sn_prepared_surface_generation = 0, sn_pending_surface_generation = 0, sn_active_surface_generation = 0,
      sn_active_surface_width = 0, sn_active_surface_height = 0, sn_first_presented_frame = 0, sn_failure_reason = []\<rparr>"

record RobloxFreshGameLaunchController =
  fl_runtime :: "(nat \<times> RobloxGameSessionRuntime) option"
  fl_last_snapshot :: GameSessionSnapshot
  fl_observer_registered :: bool
  fl_active :: bool
  fl_app_shutdown :: bool
  fl_gate :: PresentLifecycleGate
  fl_jni :: JniLocals
  fl_serial :: nat
  fl_history :: "(NativeCall \<times> bool) list list"
  fl_dangling :: bool

definition RobloxFreshGameLaunchController_new :: "PresentLifecycleGate \<Rightarrow> JniLocals \<Rightarrow> RobloxFreshGameLaunchController" where
  "RobloxFreshGameLaunchController_new g j =
     \<lparr>fl_runtime = None, fl_last_snapshot = GameSessionSnapshot_default, fl_observer_registered = False, fl_active = False,
      fl_app_shutdown = False, fl_gate = g, fl_jni = j, fl_serial = 0, fl_history = [], fl_dangling = False\<rparr>"

text \<open>\<open>runtime_.reset()\<close>.\<close>

definition reset_runtime :: "RobloxFreshGameLaunchController \<Rightarrow> RobloxFreshGameLaunchController" where
  "reset_runtime c =
     (case fl_runtime c of
        None \<Rightarrow> c
      | Some (_, rt) \<Rightarrow> c\<lparr>fl_runtime := None, fl_history := fl_history c @ [gs_calls (rt_coordinator rt)]\<rparr>)"

definition clear_observer :: "RobloxFreshGameLaunchController \<Rightarrow> RobloxFreshGameLaunchController" where
  "clear_observer c =
     (if fl_observer_registered c then c\<lparr>fl_gate := Gate_Clear (fl_gate c), fl_observer_registered := False\<rparr> else c)"

definition upd_runtime :: "RobloxGameSessionRuntime \<Rightarrow> RobloxFreshGameLaunchController \<Rightarrow> RobloxFreshGameLaunchController" where
  "upd_runtime rt c = c\<lparr>fl_runtime := map_option (\<lambda>(i, _). (i, rt)) (fl_runtime c)\<rparr>"

definition take_snapshot :: "RobloxFreshGameLaunchController \<Rightarrow> RobloxFreshGameLaunchController" where
  "take_snapshot c =
     (case fl_runtime c of None \<Rightarrow> c | Some (_, rt) \<Rightarrow> c\<lparr>fl_last_snapshot := SnapshotLocked (rt_coordinator rt)\<rparr>)"

text \<open>The new runtime, registered with the gate and started; \<open>params\<close> is the object the session starts with.\<close>

definition start_runtime ::
  "RobloxExperienceLaunchRequest \<Rightarrow> RobloxFreshGameLaunchContext \<Rightarrow> LaunchOutcome \<Rightarrow> nat \<Rightarrow>
     RobloxFreshGameLaunchController \<Rightarrow> Status \<times> RobloxFreshGameLaunchController" where
  "start_runtime request x out params c =
     (let rt = RobloxGameSessionRuntime_new adapter_capabilities (lo_natives out);
          c = c\<lparr>fl_runtime := Some (fl_serial c, rt), fl_serial := fl_serial c + 1\<rparr>
      in case Gate_Register (map_option fst (fl_runtime c)) (fl_gate c) of (registered, g) \<Rightarrow>
         let c = c\<lparr>fl_gate := g, fl_observer_registered := registered\<rparr>
         in if \<not> registered
            then (Status_Error kUnavailable ''could not register fresh-game host present observer'',
                  reset_runtime (c\<lparr>fl_jni := DeleteLocalRef params (fl_jni c)\<rparr>))
            else case InitializeAndStart rt (lo_initialize out) (fx_principal x)
                   (MakeGameJoinRequest (fx_request_id x) request) (fx_game_surface x) of (status, rt) \<Rightarrow>
              let c = (upd_runtime rt c)\<lparr>fl_jni := DeleteLocalRef params (fl_jni c)\<rparr>
              in if \<not> status_ok status
                 then let c = c\<lparr>fl_gate := Gate_Clear (fl_gate c), fl_observer_registered := False\<rparr>;
                          c = take_snapshot (upd_runtime (snd (RuntimeShutdown rt)) c)
                      in (status, reset_runtime (c\<lparr>fl_app_shutdown := True\<rparr>))
                 else (Status_Ok, c\<lparr>fl_active := True, fl_last_snapshot := GameSessionSnapshot_default\<rparr>))"

definition Launch ::
  "FreshLaunchConfig \<Rightarrow> LaunchEnv \<Rightarrow> TextLib \<Rightarrow> RobloxExperienceLaunchRequest \<Rightarrow> RobloxFreshGameLaunchContext \<Rightarrow> LaunchOutcome \<Rightarrow>
     RobloxFreshGameLaunchController \<Rightarrow> Status \<times> RobloxFreshGameLaunchController" where
  "Launch cfg env lib request x out c =
     (if fl_app_shutdown c
      then (Status_Error kFailedPrecondition ''fresh game launch is unavailable after app runtime shutdown'', c)
      else if fl_active c \<or> fl_runtime c \<noteq> None \<or> fl_observer_registered c
      then (Status_Error kFailedPrecondition ''a fresh game launch is already active'', c)
      else if \<not> fc_environment_valid cfg \<or> \<not> fc_symbols_complete cfg \<or> \<not> fc_boundary_complete cfg \<or>
              \<not> fc_surface_config_complete cfg \<or> \<not> context_complete x
      then (Status_Error kFailedPrecondition ''fresh game launch prerequisites are incomplete'', c)
      else let status = ValidateRequest env request
      in if \<not> status_ok status then (status, c)
      else if \<not> status_ok (lo_acquire out) then (lo_acquire out, c)
      else case BuildFreshStartGameParams env lib request x (fl_jni c) of
             (Inl status, j) \<Rightarrow> (status, c\<lparr>fl_jni := j\<rparr>)
           | (Inr params, j) \<Rightarrow> start_runtime request x out params (c\<lparr>fl_jni := j\<rparr>))"

definition Leave :: "RobloxFreshGameLaunchController \<Rightarrow> Status \<times> RobloxFreshGameLaunchController" where
  "Leave c =
     (case fl_runtime c of
        Some (_, rt) \<Rightarrow>
          if \<not> fl_active c then (Status_Error kFailedPrecondition ''no fresh game session is active'', c)
          else (case RuntimeLeaveGame rt of (r, rt) \<Rightarrow>
            let c = upd_runtime rt c
            in if \<not> gu_ok r then (ResultStatus r, c)
               else (Status_Ok, (reset_runtime (take_snapshot (clear_observer c)))\<lparr>fl_active := False\<rparr>))
      | None \<Rightarrow> (Status_Error kFailedPrecondition ''no fresh game session is active'', c))"

definition returned_snapshot :: "GameSessionSnapshot \<Rightarrow> GameSessionSnapshot" where
  "returned_snapshot s =
     s\<lparr>sn_state := GsReturnedToLuaApp, sn_returned_to_lua_app := True, sn_game_running := False, sn_game_paused := False,
       sn_game_present_pending := False, sn_active_surface_available := False, sn_surface_created := False\<rparr>"

definition ObserveLuaAppReturn :: "RobloxFreshGameLaunchController \<Rightarrow> Status \<times> RobloxFreshGameLaunchController" where
  "ObserveLuaAppReturn c =
     (if \<not> fl_active c \<and> fl_runtime c = None \<and> \<not> fl_observer_registered c then (Status_Ok, c)
      else let c = clear_observer c;
               c = (if fl_runtime c \<noteq> None
                    then reset_runtime ((take_snapshot c)\<lparr>fl_last_snapshot := returned_snapshot (fl_last_snapshot (take_snapshot c))\<rparr>)
                    else c)
      in (Status_Ok, c\<lparr>fl_active := False\<rparr>))"

definition FreshShutdown :: "RobloxFreshGameLaunchController \<Rightarrow> Status \<times> RobloxFreshGameLaunchController" where
  "FreshShutdown c =
     (let c = clear_observer (c\<lparr>fl_app_shutdown := True\<rparr>)
      in case (case fl_runtime c of
                 None \<Rightarrow> (Status_Ok, c)
               | Some (_, rt) \<Rightarrow>
                   (case RuntimeShutdown rt of (r, rt) \<Rightarrow> (ResultStatus r, reset_runtime (take_snapshot (upd_runtime rt c)))))
         of (status, c) \<Rightarrow> (status, c\<lparr>fl_active := False\<rparr>))"

definition RejectSurfaceEvent :: "string \<Rightarrow> GameSessionUpdateResult" where
  "RejectSurfaceEvent reason =
     \<lparr>gu_status = GuRejected, gu_state = GsCreated, gu_cause = Status_Error kFailedPrecondition reason, gu_message = reason\<rparr>"

definition on_runtime ::
  "string \<Rightarrow> (RobloxGameSessionRuntime \<Rightarrow> runtime_call) \<Rightarrow> RobloxFreshGameLaunchController \<Rightarrow>
     GameSessionUpdateResult \<times> RobloxFreshGameLaunchController" where
  "on_runtime reason f c =
     (case fl_runtime c of
        Some (_, rt) \<Rightarrow> if fl_active c then (case f rt of (r, rt) \<Rightarrow> (r, upd_runtime rt c)) else (RejectSurfaceEvent reason, c)
      | None \<Rightarrow> (RejectSurfaceEvent reason, c))"

definition FreshSurfaceCreated :: "u64 \<Rightarrow> RobloxFreshGameLaunchController \<Rightarrow> GameSessionUpdateResult \<times> RobloxFreshGameLaunchController" where
  "FreshSurfaceCreated g = on_runtime ''cannot create a surface without an active fresh game'' (\<lambda>rt. RuntimeSurfaceCreated rt g)"

definition FreshSurfaceChanged :: "GameSurface \<Rightarrow> RobloxFreshGameLaunchController \<Rightarrow> GameSessionUpdateResult \<times> RobloxFreshGameLaunchController" where
  "FreshSurfaceChanged f = on_runtime ''cannot change a surface without an active fresh game'' (\<lambda>rt. RuntimeSurfaceChanged rt f)"

definition FreshRebindSurface :: "GameSurface \<Rightarrow> RobloxFreshGameLaunchController \<Rightarrow> GameSessionUpdateResult \<times> RobloxFreshGameLaunchController" where
  "FreshRebindSurface f = on_runtime ''cannot rebind a surface without an active fresh game'' (\<lambda>rt. RuntimeRebindSurface rt f)"

definition FreshSurfaceDestroyed :: "u64 \<Rightarrow> RobloxFreshGameLaunchController \<Rightarrow> GameSessionUpdateResult \<times> RobloxFreshGameLaunchController" where
  "FreshSurfaceDestroyed g = on_runtime ''cannot destroy a surface without an active fresh game'' (\<lambda>rt. RuntimeSurfaceDestroyed rt g)"

definition FreshSnapshot :: "RobloxFreshGameLaunchController \<Rightarrow> GameSessionSnapshot" where
  "FreshSnapshot c = (case fl_runtime c of Some (_, rt) \<Rightarrow> SnapshotLocked (rt_coordinator rt) | None \<Rightarrow> fl_last_snapshot c)"

text \<open>A presented frame: the gate calls the registered runtime, which must still be there.\<close>

definition deliver_present :: "FreshLaunchConfig \<Rightarrow> u64 \<Rightarrow> RobloxFreshGameLaunchController \<Rightarrow> RobloxFreshGameLaunchController" where
  "deliver_present cfg frame_serial c =
     (case Gate_Notify (fl_gate c) of
        None \<Rightarrow> c
      | Some target \<Rightarrow>
         (case fl_runtime c of
            Some (i, rt) \<Rightarrow>
              if i = target then upd_runtime (SuccessfulPresentCallback (fc_observer_valid cfg) rt frame_serial) c
              else c\<lparr>fl_dangling := True\<rparr>
          | None \<Rightarrow> c\<lparr>fl_dangling := True\<rparr>))"

section \<open>Runs\<close>

datatype FreshOp =
    FLaunch RobloxExperienceLaunchRequest RobloxFreshGameLaunchContext LaunchOutcome
  | FLeave
  | FLuaAppReturn
  | FShutdown
  | FSurfaceCreated u64
  | FSurfaceChanged GameSurface
  | FRebindSurface GameSurface
  | FSurfaceDestroyed u64
  | FPresent u64
  | FWindowOpens
  | FWindowCloses

fun fresh_step ::
  "FreshLaunchConfig \<Rightarrow> LaunchEnv \<Rightarrow> TextLib \<Rightarrow> RobloxFreshGameLaunchController \<Rightarrow> FreshOp \<Rightarrow> RobloxFreshGameLaunchController" where
  "fresh_step cfg env lib c (FLaunch request x out) = snd (Launch cfg env lib request x out c)"
| "fresh_step cfg env lib c FLeave = snd (Leave c)"
| "fresh_step cfg env lib c FLuaAppReturn = snd (ObserveLuaAppReturn c)"
| "fresh_step cfg env lib c FShutdown = snd (FreshShutdown c)"
| "fresh_step cfg env lib c (FSurfaceCreated g) = snd (FreshSurfaceCreated g c)"
| "fresh_step cfg env lib c (FSurfaceChanged f) = snd (FreshSurfaceChanged f c)"
| "fresh_step cfg env lib c (FRebindSurface f) = snd (FreshRebindSurface f c)"
| "fresh_step cfg env lib c (FSurfaceDestroyed g) = snd (FreshSurfaceDestroyed g c)"
| "fresh_step cfg env lib c (FPresent frame) = deliver_present cfg frame c"
| "fresh_step cfg env lib c FWindowOpens = c\<lparr>fl_gate := snd (Gate_Activate (fl_gate c))\<rparr>"
| "fresh_step cfg env lib c FWindowCloses = c\<lparr>fl_gate := Gate_Deactivate (fl_gate c)\<rparr>"

end
