(* ===== verification/Fresh_Safety.thy ===== *)
theory Fresh_Safety
  imports Fresh_Launch
begin

text \<open>
  What the launch controller keeps true over any number of launches, whatever JNI and the native calls return:
  a frame never reaches a runtime that is gone, no local reference is leaked, every session follows the native
  protocol and the native runtime is shut down at most once, last of all. And a link from the website that the
  parser accepts starts the game it names.
\<close>

section \<open>Local references\<close>

definition locals_ok :: "JniLocals \<Rightarrow> bool" where
  "locals_ok j \<longleftrightarrow> list_all (\<lambda>r. r < jl_next j) (jl_live j)"

text \<open>The calls that leave the local references as they were.\<close>

definition keeps :: "JniLocals \<Rightarrow> JniLocals \<Rightarrow> bool" where
  "keeps j j' \<longleftrightarrow> jl_live j' = jl_live j \<and> jl_next j \<le> jl_next j' \<and> jl_outcomes j' = jl_outcomes j"

lemma keeps_refl [simp]: "keeps j j"
  by (simp add: keeps_def)

lemma keeps_trans: "keeps j j' \<Longrightarrow> keeps j' j'' \<Longrightarrow> keeps j j''"
  by (simp add: keeps_def)

lemma keeps_locals: "keeps j j' \<Longrightarrow> locals_ok j \<Longrightarrow> locals_ok j'"
  by (auto simp: keeps_def locals_ok_def list_all_iff)

lemma delete_fresh: "locals_ok j \<Longrightarrow> jl_next j \<le> r \<Longrightarrow> filter (\<lambda>x. x \<noteq> r) (jl_live j) = jl_live j"
  by (auto simp: locals_ok_def list_all_iff intro!: filter_True)

lemma jni_call_keeps: "jni_call j = (b, j') \<Longrightarrow> keeps j j'"
  by (auto simp: jni_call_def keeps_def Let_def)

lemma CheckJni_keeps: "CheckJni operation j = (st, j') \<Longrightarrow> keeps j j'"
  by (auto simp: CheckJni_def keeps_def split: if_splits)

lemma check_or_keeps: "check_or operation other j = (st, j') \<Longrightarrow> keeps j j'"
  by (auto simp: check_or_def CheckJni_def keeps_def split: if_splits)

lemma new_local_None: "new_local j = (None, j') \<Longrightarrow> keeps j j'"
  by (auto simp: new_local_def jni_call_def keeps_def Let_def split: if_splits)

lemma new_local_Some:
  "new_local j = (Some r, j') \<Longrightarrow>
   r = jl_next j \<and> jl_live j' = jl_live j @ [r] \<and> jl_next j' = Suc r \<and> jl_outcomes j' = jl_outcomes j"
  by (auto simp: new_local_def jni_call_def Let_def split: if_splits)

lemma NewJavaString_None: "NewJavaString lib t j = (None, j') \<Longrightarrow> keeps j j'"
  by (auto simp: NewJavaString_def dest: new_local_None split: if_splits option.splits prod.splits)

lemma NewJavaString_Some:
  "NewJavaString lib t j = (Some (r, u), j') \<Longrightarrow>
   r = jl_next j \<and> jl_live j' = jl_live j @ [r] \<and> jl_next j' = Suc r \<and> jl_outcomes j' = jl_outcomes j \<and>
   launch_units lib [] t = Some u"
  by (auto simp: NewJavaString_def dest: new_local_Some split: if_splits option.splits prod.splits)

lemma SetField_keeps: "SetField object name v j = (st, j') \<Longrightarrow> keeps j j'"
  by (auto simp: SetField_def jni_call_def Let_def check_or_def CheckJni_def keeps_def split: if_splits)

lemma SetString_keeps:
  assumes "SetString lib object name v j = (st, j')" and "locals_ok j"
  shows "keeps j j'"
proof -
  obtain r j1 where n: "NewJavaString lib v j = (r, j1)" by fastforce
  show ?thesis
  proof (cases r)
    case None
    then show ?thesis
      using assms n NewJavaString_None [of lib v j j1] by (auto simp: SetString_def dest: check_or_keeps intro: keeps_trans)
  next
    case (Some p)
    obtain l u where p: "p = (l, u)" by fastforce
    obtain st2 j2 where f: "SetField object name (JvString u) j1 = (st2, j2)" by fastforce
    have "j' = DeleteLocalRef l j2" using assms(1) n Some p f by (simp add: SetString_def)
    then show ?thesis
      using NewJavaString_Some [of lib v j l u j1] n Some p SetField_keeps [OF f] delete_fresh [OF assms(2)]
      by (simp add: DeleteLocalRef_def keeps_def)
  qed
qed

lemma set_field_keeps: "set_field lib object f j = (st, j') \<Longrightarrow> locals_ok j \<Longrightarrow> keeps j j'"
  by (cases f) (auto dest: SetField_keeps SetString_keeps)

lemma set_fields_keeps: "set_fields lib object fs st j = (st', j') \<Longrightarrow> locals_ok j \<Longrightarrow> keeps j j'"
proof (induction fs arbitrary: st j)
  case (Cons f fs)
  obtain st1 j1 where f: "set_field lib object f j = (st1, j1)" by fastforce
  show ?case
  proof (cases "status_ok st")
    case True
    have k: "keeps j j1" using set_field_keeps [OF f Cons.prems(2)] .
    then show ?thesis
      using Cons.IH [of st1 j1] Cons.prems True f keeps_locals [OF k Cons.prems(2)] keeps_trans [OF k] by simp
  qed (use Cons in simp)
qed simp

text \<open>Building the parameters leaks nothing: a failure keeps the references, a success adds the new object.\<close>

lemma build_refs:
  assumes "BuildFreshStartGameParams env lib request x j = (r, j')" and "locals_ok j"
  shows "case r of Inl _ \<Rightarrow> keeps j j'
    | Inr params \<Rightarrow> jl_live j' = jl_live j @ [params] \<and> jl_next j \<le> params \<and> params < jl_next j' \<and> jl_outcomes j' = jl_outcomes j"
proof (cases "context_complete x \<and> status_ok (ValidateRequest env request) \<and> length (fx_username x) \<le> kMaximumLaunchFieldBytes")
  case True
  obtain a j1 where n1: "new_local j = (a, j1)" by fastforce
  show ?thesis
  proof (cases a)
    case None
    then show ?thesis
      using assms True n1 new_local_None [of j j1]
      by (cases r) (auto simp: BuildFreshStartGameParams_def Let_def not_less map_prod_def
          split: prod.splits dest: check_or_keeps intro: keeps_trans)
  next
    case (Some clazz)
    have c: "clazz = jl_next j" "jl_live j1 = jl_live j @ [clazz]" "jl_next j1 = Suc clazz" "jl_outcomes j1 = jl_outcomes j"
      using new_local_Some [of j clazz j1] n1 Some by auto
    obtain b j2 where n2: "new_local j1 = (b, j2)" by fastforce
    show ?thesis
    proof (cases b)
      case None
      have k: "keeps j (DeleteLocalRef clazz j2)"
        using new_local_None [of j1 j2] n2 None c delete_fresh [OF assms(2)] by (simp add: keeps_def DeleteLocalRef_def)
      then show ?thesis
        using assms True n1 Some n2 None
        by (cases r) (auto simp: BuildFreshStartGameParams_def Let_def not_less map_prod_def
            split: prod.splits dest: check_or_keeps intro: keeps_trans)
    next
      case (Some params)
      have p: "params = Suc clazz" "jl_live j2 = jl_live j @ [clazz, params]" "jl_next j2 = Suc params" "jl_outcomes j2 = jl_outcomes j"
        using new_local_Some [of j1 params j2] n2 Some c by auto
      have "locals_ok j2" using assms(2) c p by (auto simp: locals_ok_def list_all_iff)
      obtain st j3 where f: "set_fields lib params (start_game_fields request x) Status_Ok j2 = (st, j3)" by fastforce
      have k: "keeps j2 j3" using set_fields_keeps [OF f \<open>locals_ok j2\<close>] .
      have d: "filter (\<lambda>x. x \<noteq> clazz) (jl_live j3) = jl_live j @ [params]"
        "filter (\<lambda>x. x \<noteq> params) (jl_live j @ [params]) = jl_live j"
        using k p c delete_fresh [OF assms(2)] by (simp_all add: keeps_def)
      show ?thesis
        using assms(1) True n1 \<open>a = Some clazz\<close> n2 Some f k p c d
        by (auto simp: BuildFreshStartGameParams_def Let_def not_less keeps_def DeleteLocalRef_def split: if_splits)
    qed
  qed
next
  case False
  then show ?thesis using assms by (cases r) (auto simp: BuildFreshStartGameParams_def Let_def not_le split: if_splits)
qed

section \<open>Sessions\<close>

definition shuts_down :: "(NativeCall \<times> bool) list \<Rightarrow> bool" where
  "shuts_down calls \<longleftrightarrow> list_ex (\<lambda>c. fst c = NcShutdownRuntime) calls"

definition live_session :: "RobloxGameSessionRuntime \<Rightarrow> bool" where
  "live_session rt \<longleftrightarrow> session_inv (rt_coordinator rt) \<and> \<not> gs_shutdown_attempted (rt_coordinator rt)"

lemma native_run_down: "native_run NDown cs = (if cs = [] then Some NDown else None)"
  by (cases cs rule: list.exhaust [case_product prod.exhaust]) (auto elim: native_step.elims split: option.splits)

lemma shuts_down_phase: "shuts_down cs \<Longrightarrow> native_run ph cs \<in> {None, Some NDown}"
proof (induction cs arbitrary: ph)
  case (Cons c cs)
  show ?case
  proof (cases "fst c = NcShutdownRuntime")
    case True
    then show ?thesis by (cases c) (simp add: native_run_down)
  next
    case False
    then have "shuts_down cs" using Cons.prems by (simp add: shuts_down_def)
    then show ?thesis using Cons.IH by (simp split: option.split)
  qed
qed (simp add: shuts_down_def)

lemma live_phase:
  assumes "session_inv s" "\<not> gs_shutdown_attempted s"
  shows "native_run NIdle (gs_calls s) \<notin> {None, Some NDown}"
  using assms by (cases "gs_state s") (auto simp: session_inv_def state_inv_def)

lemma inv_phase: "session_inv s \<Longrightarrow> native_run NIdle (gs_calls s) \<noteq> None"
  using stable_fail_ok [of s] by (auto simp: fail_ok_def split: if_splits)

lemma live_calls:
  "live_session rt \<Longrightarrow> \<not> shuts_down (gs_calls (rt_coordinator rt)) \<and> native_run NIdle (gs_calls (rt_coordinator rt)) \<noteq> None"
  using live_phase [of "rt_coordinator rt"] shuts_down_phase [of "gs_calls (rt_coordinator rt)" NIdle]
  by (auto simp: live_session_def)

text \<open>Only \<open>Shutdown\<close> attempts the shutdown of the native runtime.\<close>

lemma fail_shutdown_kept [simp]: "gs_shutdown_attempted (snd (FailLocked s cause reason)) = gs_shutdown_attempted s"
  by (simp add: FailLocked_def Let_def)

lemma discard_shutdown_kept [simp]:
  "gs_shutdown_attempted (DiscardPendingPresentLocked s) = gs_shutdown_attempted s"
  "gs_shutdown_attempted (DiscardPendingSurfaceLocked s) = gs_shutdown_attempted s"
  "gs_shutdown_attempted (CommitPendingPresentLocked s) = gs_shutdown_attempted s"
  "gs_shutdown_attempted (PromotePendingSurfaceLocked s) = gs_shutdown_attempted s"
  by (simp_all add: DiscardPendingPresentLocked_def DiscardPendingSurfaceLocked_def CommitPendingPresentLocked_def
      PromotePendingSurfaceLocked_def Let_def)

lemma shutdown_attempted_kept [simp]:
  "gs_shutdown_attempted (snd (SetPrincipal s p)) = gs_shutdown_attempted s"
  "gs_shutdown_attempted (snd (QueueJoinRequest s r x)) = gs_shutdown_attempted s"
  "gs_shutdown_attempted (snd (SurfaceCreated s g x)) = gs_shutdown_attempted s"
  "gs_shutdown_attempted (snd (UpdateSurface s f b x)) = gs_shutdown_attempted s"
  "gs_shutdown_attempted (snd (SurfaceDestroyed s g x)) = gs_shutdown_attempted s"
  "gs_shutdown_attempted (snd (LeaveGame s x)) = gs_shutdown_attempted s"
  "gs_shutdown_attempted (snd (RecordGamePresent s e)) = gs_shutdown_attempted s"
  by (simp_all add: SetPrincipal_def QueueJoinRequest_def StartIfReadyLocked_def SurfaceCreated_def UpdateSurface_def
      SurfaceDestroyed_def LeaveGame_def Let_def if_distrib [of snd] if_distrib [of gs_shutdown_attempted]
      cong: if_cong split del: if_split)

lemma live_runtime_calls:
  assumes "live_session rt"
  shows "live_session (snd (RuntimeSurfaceCreated rt g))" "live_session (snd (RuntimeSurfaceChanged rt f))"
    "live_session (snd (RuntimeRebindSurface rt f))" "live_session (snd (RuntimeSurfaceDestroyed rt g))"
    "live_session (snd (RuntimeLeaveGame rt))" "live_session (SuccessfulPresentCallback ob rt frame)"
proof -
  note i = conjunct1 [OF assms [unfolded live_session_def]] conjunct2 [OF assms [unfolded live_session_def]]
  note inv = surface_created_inv [OF i(1)] update_surface_inv [OF i(1)] surface_destroyed_inv [OF i(1)] leave_inv [OF i(1)]
    record_present_inv [OF i(1)]
  show "live_session (snd (RuntimeSurfaceCreated rt g))" "live_session (snd (RuntimeSurfaceChanged rt f))"
    "live_session (snd (RuntimeRebindSurface rt f))" "live_session (snd (RuntimeSurfaceDestroyed rt g))"
    "live_session (snd (RuntimeLeaveGame rt))"
    using i(2) inv
    by (simp_all add: live_session_def RuntimeSurfaceCreated_def RuntimeSurfaceChanged_def RuntimeRebindSurface_def
        RuntimeSurfaceDestroyed_def RuntimeLeaveGame_def SurfaceChanged_def RebindSurface_def)
  have "live_session (snd (RecordPresent rt frame))"
    using i(2) inv by (simp add: live_session_def RecordPresent_def Let_def)
  then show "live_session (SuccessfulPresentCallback ob rt frame)"
    using assms by (simp add: SuccessfulPresentCallback_def Let_def case_prod_beta live_session_def)
qed

lemma runtime_shutdown_inv:
  assumes "session_inv (rt_coordinator rt)"
  shows "session_inv (rt_coordinator (snd (RuntimeShutdown rt)))"
proof -
  have l: "session_inv (rt_coordinator (snd (RuntimeLeaveGame rt)))" if "session_inv (rt_coordinator rt)" for rt
    using leave_inv [OF that] by (simp add: RuntimeLeaveGame_def)
  have d: "session_inv (rt_coordinator (snd (RuntimeSurfaceDestroyed rt g)))" for g
    using surface_destroyed_inv [OF assms] by (simp add: RuntimeSurfaceDestroyed_def)
  show ?thesis
    by (auto simp: RuntimeShutdown_def Let_def case_prod_beta assms l d shutdown_inv split del: if_split
        intro!: if_bool_eq_conj [THEN iffD2] split: if_split)
qed

lemma initialize_live: "live_session (snd (InitializeAndStart (RobloxGameSessionRuntime_new caps out) init p r f))"
proof -
  let ?rt = "(RobloxGameSessionRuntime_new caps out)\<lparr>rt_present_evidence_recorded := False\<rparr>"
  let ?step = "\<lambda>f (st, rt). if status_ok st then case f rt of (r, rt1) \<Rightarrow> (ResultStatus r, rt1) else (st, rt)"
  have step: "live_session (snd (?step g q))"
    if "live_session (snd q)" "\<And>rt. live_session rt \<Longrightarrow> live_session (snd (g rt))"
    for q and g :: "RobloxGameSessionRuntime \<Rightarrow> runtime_call"
    using that by (cases q) (simp add: case_prod_beta)
  have "live_session (snd (?step (\<lambda>rt. RuntimeSurfaceChanged rt f) (?step (\<lambda>rt. RuntimeSurfaceCreated rt (gf_generation f))
      (?step (\<lambda>rt. on_coordinator (\<lambda>s. QueueJoinRequest s r (next_outcome rt)) rt)
        (?step (on_coordinator (\<lambda>s. SetPrincipal s p)) (init, ?rt))))))"
  proof (intro step live_runtime_calls)
    show "live_session (snd (init, ?rt))"
      by (simp add: live_session_def RobloxGameSessionRuntime_new_def session_init_inv) (simp add: GameSessionCoordinator_new_def)
  qed (auto simp: live_session_def set_principal_inv queue_join_inv)
  then show ?thesis
    by (simp add: InitializeAndStart_def Let_def case_prod_beta live_session_def)
qed

section \<open>The invariant of the controller\<close>

definition sessions :: "RobloxFreshGameLaunchController \<Rightarrow> (NativeCall \<times> bool) list list" where
  "sessions c = fl_history c @ (case fl_runtime c of None \<Rightarrow> [] | Some (_, rt) \<Rightarrow> [gs_calls (rt_coordinator rt)])"

definition history_ok :: "RobloxFreshGameLaunchController \<Rightarrow> bool" where
  "history_ok c \<longleftrightarrow> list_all (\<lambda>calls. native_run NIdle calls \<noteq> None) (fl_history c) \<and>
     list_all (\<lambda>calls. \<not> shuts_down calls) (butlast (fl_history c)) \<and>
     (\<not> fl_app_shutdown c \<longrightarrow> list_all (\<lambda>calls. \<not> shuts_down calls) (fl_history c))"

definition fresh_inv :: "RobloxFreshGameLaunchController \<Rightarrow> bool" where
  "fresh_inv c \<longleftrightarrow>
     (fl_active c \<longleftrightarrow> fl_runtime c \<noteq> None) \<and> (fl_observer_registered c \<longleftrightarrow> fl_runtime c \<noteq> None) \<and>
     (fl_app_shutdown c \<longrightarrow> fl_runtime c = None) \<and>
     (\<forall>t. pr_observer (pg_observers (fl_gate c)) = Some t \<longrightarrow> map_option fst (fl_runtime c) = Some t) \<and>
     \<not> fl_dangling c \<and> jl_live (fl_jni c) = [] \<and>
     (\<forall>i rt. fl_runtime c = Some (i, rt) \<longrightarrow> live_session rt) \<and> history_ok c"

lemmas controller_defs = reset_runtime_def clear_observer_def upd_runtime_def take_snapshot_def
  Gate_Clear_def Registry_Clear_def

text \<open>A controller without a runtime, an observer or references.\<close>

definition idle :: "RobloxFreshGameLaunchController \<Rightarrow> bool" where
  "idle c \<longleftrightarrow> fl_runtime c = None \<and> \<not> fl_active c \<and> \<not> fl_observer_registered c \<and>
     pr_observer (pg_observers (fl_gate c)) = None \<and> \<not> fl_dangling c \<and> jl_live (fl_jni c) = [] \<and> history_ok c"

lemma idle_inv: "idle c \<Longrightarrow> fresh_inv c"
  by (simp add: idle_def fresh_inv_def)

lemma inv_idle: "fresh_inv c \<Longrightarrow> fl_runtime c = None \<Longrightarrow> idle c"
  by (auto simp: idle_def fresh_inv_def)

lemma history_add:
  assumes "history_ok c" "\<not> fl_app_shutdown c" "native_run NIdle calls \<noteq> None" "shuts_down calls \<longrightarrow> b"
    "fl_history c' = fl_history c @ [calls]" "fl_app_shutdown c' = b"
  shows "history_ok c'"
  using assms by (auto simp: history_ok_def)

lemma upd_runtime_inv: "fresh_inv c \<Longrightarrow> live_session rt \<Longrightarrow> fresh_inv (upd_runtime rt c)"
  by (auto simp: fresh_inv_def upd_runtime_def history_ok_def option.map_comp comp_def split_beta split: option.splits)

lemma register_result:
  assumes "Gate_Register (Some t) g = (ok, g')" "pr_observer (pg_observers g) = None"
  shows "pr_observer (pg_observers g') = (if ok then Some t else None)"
  using assms by (auto simp: Gate_Register_def Registry_Register_def split: if_splits)

lemma start_runtime_inv:
  assumes "idle c" "\<not> fl_app_shutdown c" "jl_live j = [params]"
  shows "fresh_inv (snd (start_runtime request x out params (c\<lparr>fl_jni := j\<rparr>)))"
proof -
  let ?rt = "RobloxGameSessionRuntime_new adapter_capabilities (lo_natives out)"
  obtain ok g where reg: "Gate_Register (Some (fl_serial c)) (fl_gate c) = (ok, g)" by fastforce
  obtain st rt where ini: "InitializeAndStart ?rt (lo_initialize out) (fx_principal x)
      (MakeGameJoinRequest (fx_request_id x) request) (fx_game_surface x) = (st, rt)" by fastforce
  have live: "live_session rt" using initialize_live [of adapter_capabilities "lo_natives out"] ini by (metis snd_conv)
  have obs: "pr_observer (pg_observers g) = (if ok then Some (fl_serial c) else None)"
    using register_result [OF reg] assms(1) by (simp add: idle_def)
  have calls: "gs_calls (rt_coordinator ?rt) = []"
    by (simp add: RobloxGameSessionRuntime_new_def GameSessionCoordinator_new_def)
  have down: "native_run NIdle (gs_calls (rt_coordinator (snd (RuntimeShutdown rt)))) \<noteq> None"
    using live by (intro inv_phase runtime_shutdown_inv) (simp add: live_session_def)
  have hist: "history_ok c" using assms(1) by (simp add: idle_def)
  let ?done = "snd (start_runtime request x out params (c\<lparr>fl_jni := j\<rparr>))"
  consider (unregistered) "\<not> ok" | (failed) "ok" "\<not> status_ok st" | (started) "ok" "status_ok st" by blast
  then show ?thesis
  proof cases
    case unregistered
    then have "idle ?done"
      using assms reg obs calls history_add [OF hist assms(2), of "[]" False ?done]
      by (auto simp: start_runtime_def Let_def idle_def controller_defs DeleteLocalRef_def shuts_down_def)
    then show ?thesis by (rule idle_inv)
  next
    case failed
    then have "idle ?done"
      using assms reg obs ini down history_add [OF hist assms(2) down, of True ?done]
      by (auto simp: start_runtime_def Let_def idle_def controller_defs DeleteLocalRef_def)
    then show ?thesis by (rule idle_inv)
  next
    case started
    then show ?thesis
      using assms reg obs ini live hist
      by (auto simp: start_runtime_def Let_def idle_def fresh_inv_def controller_defs DeleteLocalRef_def history_ok_def)
  qed
qed

lemma Launch_inv:
  assumes "fresh_inv c"
  shows "fresh_inv (snd (Launch cfg env lib request x out c))"
proof (cases "fl_app_shutdown c \<or> fl_active c \<or> fl_runtime c \<noteq> None \<or> fl_observer_registered c")
  case False
  then have idle: "idle c" using assms inv_idle by blast
  obtain r j where b: "BuildFreshStartGameParams env lib request x (fl_jni c) = (r, j)" by fastforce
  have refs: "case r of Inl _ \<Rightarrow> keeps (fl_jni c) j | Inr params \<Rightarrow> jl_live j = [params]"
    using build_refs [OF b] idle by (auto simp: locals_ok_def idle_def split: sum.splits)
  have "fresh_inv (c\<lparr>fl_jni := j\<rparr>)" if "keeps (fl_jni c) j"
    using that idle by (intro idle_inv) (simp add: idle_def keeps_def history_ok_def)
  then show ?thesis
    using False assms b refs start_runtime_inv [OF idle, of j _ request x out]
    by (auto simp: Launch_def Let_def split: sum.splits)
qed (use assms in \<open>auto simp: Launch_def\<close>)

lemma end_runtime:
  assumes "fresh_inv c" "fl_runtime c = Some (i, rt)" "session_inv (rt_coordinator rt')"
    "shuts_down (gs_calls (rt_coordinator rt')) \<longrightarrow> fl_app_shutdown c'"
    "fl_runtime c' = None" "\<not> fl_active c'" "\<not> fl_observer_registered c'" "fl_gate c' = Gate_Clear (fl_gate c)"
    "fl_jni c' = fl_jni c" "fl_dangling c' = fl_dangling c" "fl_history c' = fl_history c @ [gs_calls (rt_coordinator rt')]"
  shows "fresh_inv c'"
proof -
  have "history_ok c'"
    by (rule history_add [of c]) (use assms inv_phase [OF assms(3)] in \<open>auto simp: fresh_inv_def\<close>)
  then show ?thesis
    using assms by (intro idle_inv) (auto simp: idle_def fresh_inv_def Gate_Clear_def Registry_Clear_def)
qed

lemma inv_runtime:
  assumes "fresh_inv c" "fl_runtime c = Some (i, rt)"
  shows "fl_active c" "fl_observer_registered c" "live_session rt" "\<not> fl_app_shutdown c"
  using assms by (auto simp: fresh_inv_def)

lemma Leave_inv:
  assumes "fresh_inv c"
  shows "fresh_inv (snd (Leave c))"
proof (cases "fl_runtime c")
  case (Some p)
  obtain i rt where p: "p = (i, rt)" by fastforce
  note f = inv_runtime [OF assms Some [unfolded p]]
  have live: "live_session (snd (RuntimeLeaveGame rt))" by (rule live_runtime_calls) (rule f)
  show ?thesis
  proof (cases "gu_ok (fst (RuntimeLeaveGame rt))")
    case True
    then show ?thesis
      using f Some p live live_calls [OF live]
      by (intro end_runtime [OF assms, of i rt "snd (RuntimeLeaveGame rt)"])
        (auto simp: Leave_def Let_def case_prod_beta controller_defs live_session_def)
  next
    case False
    then show ?thesis using f Some p upd_runtime_inv [OF assms live] by (simp add: Leave_def Let_def case_prod_beta)
  qed
qed (use assms in \<open>simp add: Leave_def\<close>)

lemma ObserveLuaAppReturn_inv:
  assumes "fresh_inv c"
  shows "fresh_inv (snd (ObserveLuaAppReturn c))"
proof (cases "fl_runtime c")
  case (Some p)
  obtain i rt where p: "p = (i, rt)" by fastforce
  note f = inv_runtime [OF assms Some [unfolded p]]
  then show ?thesis
    using Some p live_calls [of rt]
    by (intro end_runtime [OF assms, of i rt rt])
      (auto simp: ObserveLuaAppReturn_def Let_def controller_defs live_session_def)
next
  case None
  then have "snd (ObserveLuaAppReturn c) = c" using assms by (simp add: ObserveLuaAppReturn_def fresh_inv_def)
  then show ?thesis using assms by simp
qed

lemma FreshShutdown_inv:
  assumes "fresh_inv c"
  shows "fresh_inv (snd (FreshShutdown c))"
proof (cases "fl_runtime c")
  case (Some p)
  obtain i rt where p: "p = (i, rt)" by fastforce
  note f = inv_runtime [OF assms Some [unfolded p]]
  have "session_inv (rt_coordinator (snd (RuntimeShutdown rt)))"
    by (rule runtime_shutdown_inv) (use f(3) in \<open>simp add: live_session_def\<close>)
  then show ?thesis
    using f Some p
    by (intro end_runtime [OF assms, of i rt "snd (RuntimeShutdown rt)"])
      (auto simp: FreshShutdown_def Let_def case_prod_beta controller_defs)
next
  case None
  then show ?thesis
    using inv_idle [OF assms]
    by (intro idle_inv) (auto simp: FreshShutdown_def Let_def clear_observer_def idle_def history_ok_def)
qed

lemma on_runtime_inv:
  assumes "fresh_inv c" "\<And>rt. live_session rt \<Longrightarrow> live_session (snd (f rt))"
  shows "fresh_inv (snd (on_runtime reason f c))"
  using assms inv_runtime [OF assms(1)] upd_runtime_inv [OF assms(1)]
  by (auto simp: on_runtime_def case_prod_beta split: option.split)

lemma deliver_present_inv:
  assumes "fresh_inv c"
  shows "fresh_inv (deliver_present cfg frame c)"
proof (cases "Gate_Notify (fl_gate c)")
  case (Some t)
  then have "pr_observer (pg_observers (fl_gate c)) = Some t" by (simp add: Gate_Notify_def split: if_splits)
  then obtain rt where r: "fl_runtime c = Some (t, rt)" using assms by (auto simp: fresh_inv_def)
  show ?thesis
    using Some r upd_runtime_inv [OF assms live_runtime_calls(6) [OF inv_runtime(3) [OF assms r]]]
    by (simp add: deliver_present_def)
qed (use assms in \<open>simp add: deliver_present_def\<close>)

lemma fresh_step_inv: "fresh_inv c \<Longrightarrow> fresh_inv (fresh_step cfg env lib c op)"
proof (cases op)
  case FWindowOpens
  then show "fresh_inv c \<Longrightarrow> ?thesis"
    by (auto simp: Gate_Activate_def Registry_Clear_def fresh_inv_def history_ok_def)
next
  case FWindowCloses
  then show "fresh_inv c \<Longrightarrow> ?thesis"
    by (auto simp: Gate_Deactivate_def Registry_Clear_def fresh_inv_def history_ok_def)
qed (simp_all add: Launch_inv Leave_inv ObserveLuaAppReturn_inv FreshShutdown_inv on_runtime_inv deliver_present_inv
    live_runtime_calls FreshSurfaceCreated_def FreshSurfaceChanged_def FreshRebindSurface_def FreshSurfaceDestroyed_def)

interpretation fresh: guarded_component "fresh_step cfg env lib" fresh_inv for cfg env lib
  by unfold_locales (rule fresh_step_inv)

definition JniLocals_new :: "(nat \<Rightarrow> JniOutcome) \<Rightarrow> JniLocals" where
  "JniLocals_new out = \<lparr>jl_outcomes = out, jl_calls = 0, jl_pending = False, jl_live = [], jl_next = 0, jl_fields = []\<rparr>"

abbreviation fresh_start :: "(nat \<Rightarrow> JniOutcome) \<Rightarrow> RobloxFreshGameLaunchController" where
  "fresh_start out \<equiv> RobloxFreshGameLaunchController_new PresentLifecycleGate_new (JniLocals_new out)"

lemma fresh_start_inv: "fresh_inv (fresh_start out)"
  by (intro idle_inv) (simp add: idle_def RobloxFreshGameLaunchController_new_def PresentLifecycleGate_new_def
      JniLocals_new_def history_ok_def)

lemma sessions_follow_protocol:
  assumes inv: "fresh_inv c"
  shows "list_all (\<lambda>calls. native_run NIdle calls \<noteq> None) (sessions c) \<and>
    list_all (\<lambda>calls. \<not> shuts_down calls) (butlast (sessions c)) \<and>
    (if fl_app_shutdown c
     then fl_runtime c = None \<and> snd (Launch cfg env lib request x out c) = c \<and> \<not> status_ok (fst (Launch cfg env lib request x out c))
     else list_all (\<lambda>calls. \<not> shuts_down calls) (sessions c))"
proof (cases "fl_runtime c")
  case None
  then show ?thesis using inv by (auto simp: fresh_inv_def history_ok_def sessions_def Launch_def)
next
  case (Some p)
  obtain i rt where p: "p = (i, rt)" by fastforce
  note f = inv_runtime [OF inv Some [unfolded p]]
  show ?thesis using f Some p live_calls [OF f(3)] inv by (auto simp: fresh_inv_def history_ok_def sessions_def)
qed

section \<open>A launch that succeeds\<close>

text \<open>Documented behaviour of utf8proc: it reads valid UTF-8, and what it reads are code points.\<close>

definition utf8proc_ok :: "TextLib \<Rightarrow> bool" where
  "utf8proc_ok lib \<longleftrightarrow> (\<forall>t. IsValidUtf8 t \<longrightarrow> utf8_ok (iterate lib) t) \<and>
     (\<forall>t. t \<noteq> [] \<and> 0 < fst (iterate lib t) \<longrightarrow> 0 \<le> snd (iterate lib t) \<and> snd (iterate lib t) \<le> 0x10ffff)"

lemma launch_units_ok:
  assumes "utf8proc_ok lib" "utf8_ok (iterate lib) t"
  shows "\<exists>u. launch_units lib acc t = Some u \<and> length u \<le> length acc + 2 * length t"
  using assms(2)
proof (induction "length t" arbitrary: t acc rule: less_induct)
  case less
  show ?case
  proof (cases "t = []")
    case True
    then show ?thesis by (simp add: launch_units.simps)
  next
    case False
    obtain n cp where i: "iterate lib t = (n, cp)" by fastforce
    have n: "0 < n" "utf8_ok (iterate lib) (drop (nat n) t)"
      using less.prems False i by (auto simp: utf8_ok.simps [of "iterate lib" t] not_le split: if_splits)
    have cp: "0 \<le> cp" "cp \<le> 0x10ffff" using assms(1) False i n(1) by (auto simp: utf8proc_ok_def)
    define acc' where "acc' = acc @ (if cp \<le> 0xffff then [word_of_int cp]
        else let c = cp - 0x10000 in [word_of_int (0xd800 + c div 1024), word_of_int (0xdc00 + c mod 1024)])"
    have "length (drop (nat n) t) < length t" using False n(1) by simp
    then obtain u where u: "launch_units lib acc' (drop (nat n) t) = Some u"
        "length u \<le> length acc' + 2 * length (drop (nat n) t)"
      using less.hyps n(2) by blast
    have "length acc' \<le> length acc + 2" by (simp add: acc'_def Let_def)
    moreover have "length (drop (nat n) t) + 1 \<le> length t" using False n(1) by (cases t) auto
    ultimately have "length u \<le> length acc + 2 * length t" using u(2) by linarith
    moreover have "launch_units lib acc t = Some u"
      using u(1) False n(1) cp i by (subst launch_units.simps) (simp add: acc'_def)
    ultimately show ?thesis by blast
  qed
qed

text \<open>JNI calls that never fail.\<close>

definition jni_willing :: "JniLocals \<Rightarrow> bool" where
  "jni_willing j \<longleftrightarrow> (\<forall>n. \<not> jo_null (jl_outcomes j n) \<and> \<not> jo_throws (jl_outcomes j n)) \<and> \<not> jl_pending j"

definition text_ok :: "bytes \<Rightarrow> bool" where
  "text_ok t \<longleftrightarrow> IsValidUtf8 t \<and> length t \<le> kMaximumLaunchFieldBytes"

fun field_ok :: "LaunchField \<Rightarrow> bool" where
  "field_ok (PlainField name v) = True"
| "field_ok (TextField name t) = text_ok t"

text \<open>What a field of the built object holds.\<close>

fun field_entry :: "TextLib \<Rightarrow> LaunchField \<Rightarrow> string \<times> JniValue" where
  "field_entry lib (PlainField name v) = (name, v)"
| "field_entry lib (TextField name t) = (name, JvString (the (launch_units lib [] t)))"

lemma new_local_willing:
  assumes "jni_willing j"
  shows "\<exists>j'. new_local j = (Some (jl_next j), j') \<and> jni_willing j' \<and> jl_fields j' = jl_fields j"
  using assms by (simp add: new_local_def jni_call_def Let_def jni_willing_def)

lemma SetField_willing:
  assumes "jni_willing j"
  shows "\<exists>j'. SetField object name v j = (Status_Ok, j') \<and> jni_willing j' \<and> jl_fields j' = jl_fields j @ [(object, name, v)]"
  using assms by (simp add: SetField_def jni_call_def CheckJni_def Let_def jni_willing_def)

lemma set_field_willing:
  assumes "jni_willing j" "utf8proc_ok lib" "field_ok f"
  shows "\<exists>j'. set_field lib object f j = (Status_Ok, j') \<and> jni_willing j' \<and>
    jl_fields j' = jl_fields j @ [(object, field_entry lib f)]"
proof (cases f)
  case (PlainField name v)
  then show ?thesis using SetField_willing [OF assms(1)] by simp
next
  case (TextField name t)
  then have t: "text_ok t" using assms(3) by simp
  then obtain u where u: "launch_units lib [] t = Some u" "length u \<le> 2 * length t"
    using launch_units_ok [OF assms(2), of t "[]"] assms(2) by (auto simp: text_ok_def utf8proc_ok_def)
  obtain j1 where n: "new_local j = (Some (jl_next j), j1)" "jni_willing j1" "jl_fields j1 = jl_fields j"
    using new_local_willing [OF assms(1)] by blast
  obtain j2 where f: "SetField object name (JvString u) j1 = (Status_Ok, j2)" "jni_willing j2"
      "jl_fields j2 = jl_fields j @ [(object, name, JvString u)]"
    using SetField_willing [OF n(2), of object name "JvString u"] n(3) by auto
  have "NewJavaString lib t j = (Some (jl_next j, u), j1)"
    using t u n(1) by (simp add: NewJavaString_def text_ok_def kMaximumLaunchFieldBytes_def)
  then show ?thesis
    using TextField f u by (simp add: SetString_def DeleteLocalRef_def jni_willing_def)
qed

lemma set_fields_willing:
  assumes "jni_willing j" "utf8proc_ok lib" "list_all field_ok fs"
  shows "\<exists>j'. set_fields lib object fs Status_Ok j = (Status_Ok, j') \<and> jni_willing j' \<and>
    jl_fields j' = jl_fields j @ map (\<lambda>f. (object, field_entry lib f)) fs"
  using assms(1,3)
proof (induction fs arbitrary: j)
  case (Cons f fs)
  then obtain j1 where "set_field lib object f j = (Status_Ok, j1)" "jni_willing j1"
      "jl_fields j1 = jl_fields j @ [(object, field_entry lib f)]"
    using set_field_willing [OF _ assms(2), of j f object] by auto
  then show ?case using Cons.IH [of j1] Cons.prems by auto
qed simp

lemma build_willing:
  assumes "jni_willing j" "utf8proc_ok lib" "context_complete x" "ValidateRequest env request = Status_Ok"
    "text_ok (fx_username x)" "list_all text_ok (launch_texts request)"
  shows "\<exists>params j'. BuildFreshStartGameParams env lib request x j = (Inr params, j') \<and>
    jl_fields j' = jl_fields j @ map (\<lambda>f. (params, field_entry lib f)) (start_game_fields request x)"
proof -
  obtain j1 where n1: "new_local j = (Some (jl_next j), j1)" "jni_willing j1" "jl_fields j1 = jl_fields j"
    using new_local_willing [OF assms(1)] by blast
  obtain j2 where n2: "new_local j1 = (Some (jl_next j1), j2)" "jni_willing j2" "jl_fields j2 = jl_fields j"
    using new_local_willing [OF n1(2)] n1(3) by auto
  have "list_all field_ok (start_game_fields request x)"
    using assms(5,6) by (simp add: start_game_fields_def launch_texts_def)
  then obtain j3 where f: "set_fields lib (jl_next j1) (start_game_fields request x) Status_Ok j2 = (Status_Ok, j3)"
      "jl_fields j3 = jl_fields j @ map (\<lambda>f. (jl_next j1, field_entry lib f)) (start_game_fields request x)"
    using set_fields_willing [OF n2(2) assms(2)] n2(3) by metis
  then show ?thesis
    using assms(3-5) n1(1) n2(1)
    by (simp add: BuildFreshStartGameParams_def Let_def text_ok_def not_less DeleteLocalRef_def)
qed

text \<open>A request that came out of a link passes the controller's checks.\<close>

lemma uri_request_valid:
  assumes "json_reads_back env" "resolver_ok env" "ParseRobloxLaunchUri env uri = Inr request"
  shows "ValidateRequest env request = Status_Ok \<and> list_all text_ok (launch_texts request) \<and> rl_canonical_json request \<noteq> [] \<and>
    0 < rl_place_id request"
proof -
  obtain lf0 where "fields_ok lf0" "MakeRequest env lf0 = Inr request" using parse_uri_fields [OF assms(3)] by blast
  then obtain lf where lf: "fields_ok lf" "0 < lf_place_id lf" "request = request_of_fields env lf"
      "rl_canonical_json request \<noteq> []" "ParseRobloxExperienceLaunchJson env (rl_canonical_json request) = Inr request"
    using make_request_fields [OF assms(1,2)] by blast
  have texts: "list_all text_ok (launch_texts request)"
    using lf(1) by (auto simp: lf(3) request_of_fields_def launch_texts_def fields_ok_def field_texts_def clean_def text_ok_def
        kMaximumLaunchFieldBytes_def kMaximumParameterValueBytes_def)
  have ids: "0 < rl_place_id request" "0 \<le> rl_user_id request" "0 \<le> rl_conversation_id request"
      "0 \<le> rl_referred_by_player_id request"
    using lf(1,2) by (auto simp: lf(3) request_of_fields_def fields_ok_def field_ids_def int64_id_def)
  have "length (rl_canonical_json request) \<le> kMaximumExperienceLaunchJsonBytes"
    using lf(5) by (auto simp: ParseRobloxExperienceLaunchJson_def split: if_splits)
  moreover have "\<not> list_ex (\<lambda>field. length field > kMaximumLaunchFieldBytes) (launch_texts request)"
    using texts by (auto simp: list_all_iff list_ex_iff text_ok_def)
  ultimately show ?thesis
    using ids lf(4,5) texts by (simp add: ValidateRequest_def same_launch_fields_def not_less)
qed

text \<open>
  What a \<open>StartGameParams\<close> object has to hold, from the request's canonical JSON document and the launch context:
  which member of the document each text and integer field stands for, and which fields come from the context. A
  member that is absent is the empty text, or 0.
\<close>

definition json_text :: "(string \<times> Json) list \<Rightarrow> string \<Rightarrow> bytes" where
  "json_text ms name = (case map_of ms name of Some (JString t) \<Rightarrow> t | _ \<Rightarrow> [])"

definition json_integer :: "(string \<times> Json) list \<Rightarrow> string \<Rightarrow> int" where
  "json_integer ms name = (case map_of ms name of Some (JInteger v) \<Rightarrow> v | _ \<Rightarrow> 0)"

definition text_fields :: "(string \<times> string) list" where
  "text_fields = (''gameId'', ''gameInstanceId'') #
     map (\<lambda>n. (n, n)) [''accessCode'', ''callId'', ''linkCode'', ''reservedServerAccessCode'', ''referralPage'', ''launchData'',
       ''gameJoinContext'', ''eventId'', ''joinAttemptId'', ''joinAttemptOrigin'', ''isoContext'']"

definition integer_fields :: "string list" where
  "integer_fields = [''placeId'', ''userId'', ''conversationId'', ''referredByPlayerId'']"

definition context_fields :: "TextLib \<Rightarrow> RobloxFreshGameLaunchContext \<Rightarrow> (string \<times> JniValue) list" where
  "context_fields lib x =
     [(''surface'', JvObject (fx_surface x)), (''platformParams'', JvObject (fx_platform_params x)),
      (''deviceParams'', JvObject (fx_device_params x)), (''vrContext'', JvObject (fx_vr_context x)),
      (''joinRequestType'', JvInt (fx_join_request_type x)), (''isUnder13'', JvBoolean (fx_is_under_13 x)),
      (''username'', JvString (the (launch_units lib [] (fx_username x))))]"

definition params_hold ::
  "TextLib \<Rightarrow> (string \<times> Json) list \<Rightarrow> RobloxFreshGameLaunchContext \<Rightarrow> (string \<times> JniValue) list \<Rightarrow> bool" where
  "params_hold lib ms x fs \<longleftrightarrow>
     distinct (map fst fs) \<and>
     (\<forall>(field, member) \<in> set text_fields. map_of fs field = Some (JvString (the (launch_units lib [] (json_text ms member))))) \<and>
     (\<forall>field \<in> set integer_fields. map_of fs field = Some (JvLong (json_integer ms field))) \<and>
     (\<forall>(field, v) \<in> set (context_fields lib x). map_of fs field = Some v)"

lemma document_values:
  assumes "fields_ok lf"
  shows "json_integer (doc_members lf) ''placeId'' = lf_place_id lf" "json_integer (doc_members lf) ''userId'' = lf_user_id lf"
    "json_integer (doc_members lf) ''conversationId'' = lf_conversation_id lf"
    "json_integer (doc_members lf) ''referredByPlayerId'' = lf_referred_by_player_id lf"
  using assms by (auto simp: json_integer_def doc_lookup_integer fields_ok_def field_ids_def int64_id_def)

lemma document_texts:
  "json_text (doc_members lf) ''gameInstanceId'' = lf_game_instance_id lf"
  "json_text (doc_members lf) ''reservedServerAccessCode'' = lf_reserved_server_access_code lf"
  "json_text (doc_members lf) ''callId'' = lf_call_id lf" "json_text (doc_members lf) ''referralPage'' = lf_referral_page lf"
  "json_text (doc_members lf) ''accessCode'' = lf_access_code lf" "json_text (doc_members lf) ''linkCode'' = lf_link_code lf"
  "json_text (doc_members lf) ''launchData'' = lf_launch_data lf" "json_text (doc_members lf) ''eventId'' = lf_event_id lf"
  "json_text (doc_members lf) ''gameJoinContext'' = lf_game_join_context lf"
  "json_text (doc_members lf) ''joinAttemptId'' = lf_join_attempt_id lf"
  "json_text (doc_members lf) ''joinAttemptOrigin'' = lf_join_attempt_origin lf"
  "json_text (doc_members lf) ''isoContext'' = lf_iso_context lf"
  by (simp_all add: json_text_def doc_lookup_string)

lemma uri_params_hold:
  assumes "json_reads_back env" "resolver_ok env" "ParseRobloxLaunchUri env uri = Inr request"
  shows "\<exists>ms. le_json_parse env (rl_canonical_json request) = Some (JObject ms) \<and>
    params_hold lib ms x (map (field_entry lib) (start_game_fields request x))"
proof -
  obtain lf0 where "fields_ok lf0" "MakeRequest env lf0 = Inr request" using parse_uri_fields [OF assms(3)] by blast
  then obtain lf where lf: "fields_ok lf" "request = request_of_fields env lf"
    using make_request_fields [OF assms(1,2)] by blast
  let ?fs = "map (field_entry lib) (start_game_fields request x)"
  have "le_json_parse env (rl_canonical_json request) = Some (JObject (doc_members lf))"
    using assms(1) lf by (simp add: json_reads_back_def request_of_fields_def launch_document_members)
  moreover have "distinct (map fst ?fs)" by (simp add: start_game_fields_def)
  moreover have "\<forall>(field, member) \<in> set text_fields.
      map_of ?fs field = Some (JvString (the (launch_units lib [] (json_text (doc_members lf) member))))"
    by (simp add: text_fields_def start_game_fields_def document_texts lf(2) request_of_fields_def)
  moreover have "\<forall>field \<in> set integer_fields. map_of ?fs field = Some (JvLong (json_integer (doc_members lf) field))"
    by (simp add: integer_fields_def start_game_fields_def document_values [OF lf(1)] lf(2) request_of_fields_def)
  moreover have "\<forall>(field, v) \<in> set (context_fields lib x). map_of ?fs field = Some v"
    by (simp add: context_fields_def start_game_fields_def)
  ultimately show ?thesis unfolding params_hold_def by blast
qed

definition config_complete :: "FreshLaunchConfig \<Rightarrow> bool" where
  "config_complete cfg \<longleftrightarrow> fc_environment_valid cfg \<and> fc_symbols_complete cfg \<and> fc_boundary_complete cfg \<and> fc_surface_config_complete cfg"

definition outcomes_ok :: "LaunchOutcome \<Rightarrow> bool" where
  "outcomes_ok out \<longleftrightarrow> status_ok (lo_acquire out) \<and> status_ok (lo_initialize out) \<and> (\<forall>n. status_ok (no_status (lo_natives out n)))"

lemma start_runtime_ok:
  assumes "idle c" "pg_active (fl_gate c)" "outcomes_ok out" "context_complete x"
    "0 < rl_place_id request" "rl_canonical_json request \<noteq> []"
  shows "\<exists>c' rt. start_runtime request x out params (c\<lparr>fl_jni := j\<rparr>) = (Status_Ok, c') \<and> fl_active c' \<and>
    fl_runtime c' = Some (fl_serial c, rt) \<and> jl_fields (fl_jni c') = jl_fields j \<and> gs_state (rt_coordinator rt) = GsRunning \<and>
    gs_active_surface (rt_coordinator rt) = fx_game_surface x \<and>
    gs_calls (rt_coordinator rt) = [(NcSetGameForeground, True),
      (NcStartGame (fx_principal x) (MakeGameJoinRequest (fx_request_id x) request) (fx_game_surface x), True)]"
proof -
  let ?join = "MakeGameJoinRequest (fx_request_id x) request"
  have d: "start_data adapter_capabilities (fx_principal x) ?join (fx_game_surface x)"
    using assms(4-6) by (auto simp: start_data_def adapter_capabilities_def caps_complete_def context_complete_def
        ValidPrincipal_def ValidRequest_def ValidSurface_def MakeGameJoinRequest_def chars_def)
  note i = initialize_and_start [OF d, of "lo_natives out" "lo_initialize out"]
  obtain st rt where r: "InitializeAndStart (RobloxGameSessionRuntime_new adapter_capabilities (lo_natives out))
      (lo_initialize out) (fx_principal x) ?join (fx_game_surface x) = (st, rt)" by fastforce
  obtain ok g where g: "Gate_Register (Some (fl_serial c)) (fl_gate c) = (ok, g)" by fastforce
  have "ok" using g assms(1,2) by (auto simp: Gate_Register_def Registry_Register_def idle_def)
  then show ?thesis
    using i assms(3) r g
    by (simp add: start_runtime_def Let_def outcomes_ok_def upd_runtime_def DeleteLocalRef_def)
qed

section \<open>Properties\<close>

text \<open>
  C35. Over any number of launches, leaves, returns to the app, surface events, presented frames and window
  changes, whatever JNI and the native calls return: no frame is ever delivered to a runtime that is gone, no
  local reference is left behind, and the controller has a session exactly when it is active and observes frames.
\<close>

theorem fresh_launch_safe:
  "let c = run_ops (fresh_step cfg env lib) (fresh_start out) ops
   in \<not> fl_dangling c \<and> jl_live (fl_jni c) = [] \<and> (fl_active c \<longleftrightarrow> fl_runtime c \<noteq> None) \<and>
      (fl_observer_registered c \<longleftrightarrow> fl_runtime c \<noteq> None)"
proof -
  have "fresh_inv (run_ops (fresh_step cfg env lib) (fresh_start out) ops)" by (rule fresh.run_invar [OF fresh_start_inv])
  then show ?thesis by (simp add: fresh_inv_def Let_def)
qed

text \<open>
  C13. The native runtime is shut down at most once, last of all: in every run each session's native calls follow
  the protocol, only the last session may shut the runtime down, and once the app is shut down there is no session
  and a launch is refused without any effect.
\<close>

theorem native_runtime_shut_down_last:
  "let c = run_ops (fresh_step cfg env lib) (fresh_start out) ops
   in list_all (\<lambda>calls. native_run NIdle calls \<noteq> None) (sessions c) \<and>
      list_all (\<lambda>calls. \<not> shuts_down calls) (butlast (sessions c)) \<and>
      (if fl_app_shutdown c
       then fl_runtime c = None \<and> snd (Launch cfg env lib request x o' c) = c \<and> \<not> status_ok (fst (Launch cfg env lib request x o' c))
       else list_all (\<lambda>calls. \<not> shuts_down calls) (sessions c))"
  unfolding Let_def by (rule sessions_follow_protocol [OF fresh.run_invar [OF fresh_start_inv]])

text \<open>
  C31. A link starts its game: from every idle controller whose window is open and whose runtime was not shut
  down, with a complete configuration and launch context, a link that the URI parser accepts is launched
  when JNI and the native calls cooperate. The game runs on the given surface and the native calls are the foreground
  call and one start with the link's request. The launch sets each field of the new \<open>StartGameParams\<close> object once:
  every text and integer field to the member of the request's canonical JSON document it stands for (the empty text
  or 0 where that is absent), the others to the values of the launch context. Assumed of the libraries: the JSON
  library reads back what it writes, utf8proc reads valid UTF-8, the presence service returns identifiers.
\<close>

theorem link_starts_game:
  assumes "json_reads_back env" "resolver_ok env" "utf8proc_ok lib" "ParseRobloxLaunchUri env uri = Inr request"
    and "config_complete cfg" "context_complete x" "text_ok (fx_username x)" "outcomes_ok o'"
    and "c = run_ops (fresh_step cfg env lib) (fresh_start out) ops" "\<not> fl_active c" "\<not> fl_app_shutdown c"
    and "pg_active (fl_gate c)" "jni_willing (fl_jni c)"
  shows "\<exists>c' params fs ms i rt. Launch cfg env lib request x o' c = (Status_Ok, c') \<and> fl_active c' \<and> fl_runtime c' = Some (i, rt) \<and>
    jl_fields (fl_jni c') = jl_fields (fl_jni c) @ map (Pair params) fs \<and>
    le_json_parse env (rl_canonical_json request) = Some (JObject ms) \<and> params_hold lib ms x fs \<and>
    gs_state (rt_coordinator rt) = GsRunning \<and> gs_active_surface (rt_coordinator rt) = fx_game_surface x \<and>
    gs_calls (rt_coordinator rt) = [(NcSetGameForeground, True),
      (NcStartGame (fx_principal x) (MakeGameJoinRequest (fx_request_id x) request) (fx_game_surface x), True)]"
proof -
  have inv: "fresh_inv c" unfolding assms(9) by (rule fresh.run_invar [OF fresh_start_inv])
  then have idle: "idle c" using assms(10) by (intro inv_idle) (auto simp: fresh_inv_def)
  note v = uri_request_valid [OF assms(1,2,4)]
  obtain ms where ms: "le_json_parse env (rl_canonical_json request) = Some (JObject ms)"
      "params_hold lib ms x (map (field_entry lib) (start_game_fields request x))"
    using uri_params_hold [OF assms(1,2,4)] by blast
  obtain params j where b: "BuildFreshStartGameParams env lib request x (fl_jni c) = (Inr params, j)"
      "jl_fields j = jl_fields (fl_jni c) @ map (\<lambda>f. (params, field_entry lib f)) (start_game_fields request x)"
    using build_willing [OF assms(13,3,6) _ assms(7), of env request] v by blast
  have launch: "Launch cfg env lib request x o' c = start_runtime request x o' params (c\<lparr>fl_jni := j\<rparr>)"
    using assms(5,6,8,11) v idle b(1) by (simp add: Launch_def Let_def config_complete_def outcomes_ok_def idle_def)
  have started: "\<exists>c' rt. start_runtime request x o' params (c\<lparr>fl_jni := j\<rparr>) = (Status_Ok, c') \<and> fl_active c' \<and>
      fl_runtime c' = Some (fl_serial c, rt) \<and> jl_fields (fl_jni c') = jl_fields j \<and>
      gs_state (rt_coordinator rt) = GsRunning \<and> gs_active_surface (rt_coordinator rt) = fx_game_surface x \<and>
      gs_calls (rt_coordinator rt) = [(NcSetGameForeground, True),
        (NcStartGame (fx_principal x) (MakeGameJoinRequest (fx_request_id x) request) (fx_game_surface x), True)]"
    using start_runtime_ok [OF idle assms(12,8,6), of request params j] v by fastforce
  have fs: "jl_fields j = jl_fields (fl_jni c) @ map (Pair params) (map (field_entry lib) (start_game_fields request x))"
    using b(2) by simp
  show ?thesis using started ms unfolding launch fs by blast
qed

lemma strict_lib_ok: "utf8proc_ok strict_lib"
proof -
  have "0 \<le> snd (utf8_head t) \<and> snd (utf8_head t) \<le> 0x10ffff" if pos: "0 < fst (utf8_head t)" for t
  proof (cases t)
    case (Cons first rest)
    show ?thesis
    proof (cases rule: utf8_head_cases [where first = first and rest = rest])
      case ascii
      then show ?thesis using Cons by (simp add: utf8_head_ascii word_le_def)
    next
      case (lead n c cp)
      then have "cp \<le> 0x10ffff" by (auto simp: not_less)
      then show ?thesis by (simp add: Cons utf8_head_lead [OF lead] word_le_def)
    qed (use pos Cons in simp)
  qed (use pos in \<open>simp add: utf8_head_Nil\<close>)
  then show ?thesis by (simp add: utf8proc_ok_def strict_lib_def strict_valid)
qed

definition sample_context :: RobloxFreshGameLaunchContext where
  "sample_context = \<lparr>fx_request_id = 1, fx_native_gl_class = 2, fx_surface = 3, fx_platform_params = 4, fx_activity = 0,
     fx_device_params = 0, fx_vr_context = 0, fx_principal = sample_principal,
     fx_game_surface = \<lparr>gf_generation = 1, gf_native_window = 5, gf_width = 640, gf_height = 480, gf_dpi_scale = FNum 1\<rparr>,
     fx_username = ascii ''ann'', fx_is_under_13 = False, fx_join_request_type = -1\<rparr>"

definition sample_config :: FreshLaunchConfig where
  "sample_config = \<lparr>fc_environment_valid = True, fc_symbols_complete = True, fc_boundary_complete = True,
     fc_surface_config_complete = True, fc_observer_valid = True\<rparr>"

definition sample_outcome :: LaunchOutcome where
  "sample_outcome = \<lparr>lo_acquire = Status_Ok, lo_initialize = Status_Ok, lo_natives = (\<lambda>n. sample_ok)\<rparr>"

abbreviation sample_open :: RobloxFreshGameLaunchController where
  "sample_open \<equiv> run_ops (fresh_step sample_config sample_env strict_lib)
     (fresh_start (\<lambda>n. \<lparr>jo_null = False, jo_throws = False\<rparr>)) [FWindowOpens]"

theorem link_starts_game_witness:
  "\<exists>c' params fs ms i rt. Launch sample_config sample_env strict_lib (request_of_fields sample_env sample_fields) sample_context
      sample_outcome sample_open = (Status_Ok, c') \<and> fl_runtime c' = Some (i, rt) \<and> gs_state (rt_coordinator rt) = GsRunning \<and>
      jl_fields (fl_jni c') = map (Pair params) fs \<and> params_hold strict_lib ms sample_context fs"
proof -
  have env: "json_reads_back sample_env" "resolver_ok sample_env"
    by (simp_all add: json_reads_back_def resolver_ok_def sample_env_def sample_reads_back)
  have x: "context_complete sample_context" by (simp add: context_complete_def sample_context_def sample_principal_def)
  have name: "text_ok (fx_username sample_context)" by code_simp
  have cfg: "config_complete sample_config" "outcomes_ok sample_outcome"
    by (simp_all add: config_complete_def sample_config_def outcomes_ok_def sample_outcome_def sample_ok_def)
  have c: "\<not> fl_active sample_open" "\<not> fl_app_shutdown sample_open" "pg_active (fl_gate sample_open)" "jni_willing (fl_jni sample_open)"
    by (simp_all add: RobloxFreshGameLaunchController_new_def Gate_Activate_def PresentLifecycleGate_new_def
        jni_willing_def JniLocals_new_def)
  have jni: "jl_fields (fl_jni sample_open) = []"
    by (simp add: RobloxFreshGameLaunchController_new_def JniLocals_new_def)
  show ?thesis
    using link_starts_game [OF env strict_lib_ok sample_uri cfg(1) x name cfg(2) refl c] jni by fastforce
qed

end
