(* ===== verification/Bionic_Futex.thy ===== *)
theory Bionic_Futex
  imports Mocktail_Prelude
begin

text \<open>
  What the locks of the Bionic compatibility layer share: the error numbers they return and the contract of a
  word that threads sleep on. \<open>FUTEX_WAIT\<close> compares the word and falls asleep in one step, \<open>FUTEX_WAKE\<close> wakes
  every sleeper, and a sleeper may wake for no reason. A thread must not sleep on when its reason to wait is gone
  and nobody is about to wake it.
\<close>

section \<open>Error numbers\<close>

datatype Errno = ESuccess | EINVAL | EBUSY | EAGAIN | EDEADLK | EPERM | EOVERFLOW

section \<open>Sleeping on a word\<close>

locale futex_word = contracted_component step ok invar
  for step :: "'s \<Rightarrow> 'op \<Rightarrow> 's" and ok :: "'s \<Rightarrow> 'op \<Rightarrow> bool" and invar :: "'s \<Rightarrow> bool" +
  fixes asleep :: "'s \<Rightarrow> nat \<Rightarrow> bool"
    and blocked :: "'s \<Rightarrow> nat \<Rightarrow> bool"
    and waker :: "'s \<Rightarrow> nat \<Rightarrow> bool"
  assumes falls_asleep: "invar s \<Longrightarrow> ok s x \<Longrightarrow> \<not> asleep s t \<Longrightarrow> asleep (step s x) t \<Longrightarrow> blocked (step s x) t"
    and unblocks: "invar s \<Longrightarrow> ok s x \<Longrightarrow> asleep s t \<Longrightarrow> asleep (step s x) t \<Longrightarrow> blocked s t \<Longrightarrow>
      blocked (step s x) t \<or> (\<exists>u. waker (step s x) u)"
    and wakes_all: "invar s \<Longrightarrow> ok s x \<Longrightarrow> waker s u \<Longrightarrow> asleep (step s x) t \<Longrightarrow> waker (step s x) u"
begin

definition attended :: "'s \<Rightarrow> bool" where
  "attended s \<longleftrightarrow> (\<forall>t. asleep s t \<longrightarrow> blocked s t \<or> (\<exists>u. waker s u))"

lemma step_attended: "invar s \<Longrightarrow> ok s x \<Longrightarrow> attended s \<Longrightarrow> attended (step s x)"
  unfolding attended_def by (metis falls_asleep unblocks wakes_all)

lemma run_attended: "invar s \<Longrightarrow> attended s \<Longrightarrow> admitted step ok s xs \<Longrightarrow> attended (run_ops step s xs)"
  by (induction xs arbitrary: s) (simp_all add: step_attended step_invar)

lemma no_lost_wakeup:
  assumes "invar s" "\<And>t. \<not> asleep s t" "admitted step ok s xs" "asleep (run_ops step s xs) t"
  shows "blocked (run_ops step s xs) t \<or> (\<exists>u. waker (run_ops step s xs) u)"
  using run_attended [OF assms(1) _ assms(3)] assms(2,4) by (simp add: attended_def)

end

end
