(* ===== verification/Bionic_Rwlock.thy ===== *)
theory Bionic_Rwlock
  imports Bionic_Futex
begin

text \<open>
  The read-write lock of the Bionic compatibility layer (\<open>src/compat/bionic_rwlock_runtime.cc\<close>), one atomic
  access per step. Every thread has a program counter; a step of a thread is its next load, store,
  compare-and-exchange or futex call together with the local computation up to the next one. Threads interleave
  freely, a weak compare-and-exchange may fail for no reason, and a sleeper may wake for no reason. The accesses
  to one word are totally ordered by the C++ memory model even when relaxed; the owner word is only written by the
  thread that holds the write lock.

  \<open>rw_readers\<close> and \<open>rw_writer\<close> record who holds the lock from the exchange that takes it to the one that gives
  it back; \<open>rw_reads\<close> and \<open>rw_writes\<close> record what a caller holds, from the return of a lock call to the call of
  \<open>unlock\<close>. The code reads none of the four. Reader counts add with wrap-around.
\<close>

section \<open>The state word\<close>

definition kRwlockWriterFlag :: u32 where "kRwlockWriterFlag = push_bit 31 1"
definition kRwlockPendingWritersFlag :: u32 where "kRwlockPendingWritersFlag = push_bit 1 1"
definition kRwlockPendingReadersFlag :: u32 where "kRwlockPendingReadersFlag = push_bit 0 1"
definition kRwlockReaderStep :: u32 where "kRwlockReaderStep = push_bit 2 1"
definition kRwlockPendingMask :: u32 where
  "kRwlockPendingMask = kRwlockPendingWritersFlag OR kRwlockPendingReadersFlag"

definition OwnedByWriter :: "u32 \<Rightarrow> bool" where
  "OwnedByWriter state \<longleftrightarrow> sint state < 0"

definition OwnedByReaders :: "u32 \<Rightarrow> bool" where
  "OwnedByReaders state \<longleftrightarrow> sint state \<ge> sint kRwlockReaderStep"

section \<open>Threads\<close>

datatype RwOp = RwRdlock | RwWrlock | RwUnlock

text \<open>
  The flag of \<open>RdTry\<close>, \<open>RdCas\<close>, \<open>WrTry\<close> and \<open>WrCas\<close> tells the first attempt from those of the loop. The words
  are the local variables \<open>old_state\<close> and \<open>pending\<close>.
\<close>

datatype RwPc =
    RwIdle
  | RdTry bool | RdCas bool u32 | RdPendLoad | RdPendCas u32 | RdWait u32 | RdSleep
  | WrCheck | WrTry bool | WrCas bool u32 | WrTid | WrPendLoad | WrPendCas u32 | WrWait u32 | WrSleep
  | UnLoad | UnTid | UnTidStore | UnAnd | UnSub | UnWake

record Rwlock =
  rw_state :: u32
  rw_writer_tid :: nat
  rw_pc :: "nat \<Rightarrow> RwPc"
  rw_returns :: "(nat \<times> RwOp \<times> Errno) list"
  rw_readers :: "nat list"
  rw_writer :: "nat option"
  rw_reads :: "nat \<Rightarrow> nat"
  rw_writes :: "nat \<Rightarrow> nat"

definition goto :: "nat \<Rightarrow> RwPc \<Rightarrow> Rwlock \<Rightarrow> Rwlock" where
  "goto t p s = s\<lparr>rw_pc := (rw_pc s)(t := p)\<rparr>"

definition rw_return :: "nat \<Rightarrow> RwOp \<Rightarrow> Errno \<Rightarrow> Rwlock \<Rightarrow> Rwlock" where
  "rw_return t f e s =
     s\<lparr>rw_pc := (rw_pc s)(t := RwIdle), rw_returns := rw_returns s @ [(t, f, e)],
       rw_reads := (if f = RwRdlock \<and> e = ESuccess then (rw_reads s)(t := rw_reads s t + 1) else rw_reads s),
       rw_writes := (if f = RwWrlock \<and> e = ESuccess then (rw_writes s)(t := rw_writes s t + 1) else rw_writes s)\<rparr>"

text \<open>The head of \<open>TryRdlock\<close>'s loop, with the value \<open>old_state\<close> that was just read, and what its result leads to.\<close>

definition rd_loop :: "nat \<Rightarrow> bool \<Rightarrow> u32 \<Rightarrow> Rwlock \<Rightarrow> Rwlock" where
  "rd_loop t first old_state s =
     (if OwnedByWriter old_state then goto t (if first then RdTry False else RdPendLoad) s
      else if \<not> OwnedByReaders (old_state + kRwlockReaderStep)
      then if first then goto t (RdTry False) s else rw_return t RwRdlock EAGAIN s
      else goto t (RdCas first old_state) s)"

definition wr_loop :: "nat \<Rightarrow> bool \<Rightarrow> u32 \<Rightarrow> Rwlock \<Rightarrow> Rwlock" where
  "wr_loop t first old_state s =
     (if \<not> OwnedByWriter old_state \<and> \<not> OwnedByReaders old_state then goto t (WrCas first old_state) s
      else goto t (if first then WrTry False else WrPendLoad) s)"

text \<open>\<open>weak\<close>: the exchange fails, or the wait returns at once, for no reason.\<close>

fun rd_step :: "nat \<Rightarrow> bool \<Rightarrow> RwPc \<Rightarrow> Rwlock \<Rightarrow> Rwlock" where
  "rd_step t weak (RdTry first) s = rd_loop t first (rw_state s) s"
| "rd_step t weak (RdCas first old_state) s =
     (if rw_state s = old_state \<and> \<not> weak
      then rw_return t RwRdlock ESuccess
             (s\<lparr>rw_state := old_state + kRwlockReaderStep, rw_readers := t # rw_readers s\<rparr>)
      else rd_loop t first (rw_state s) s)"
| "rd_step t weak RdPendLoad s =
     (if \<not> OwnedByWriter (rw_state s) then goto t (RdTry False) s else goto t (RdPendCas (rw_state s)) s)"
| "rd_step t weak (RdPendCas old_state) s =
     (let pending = old_state OR kRwlockPendingReadersFlag
      in if rw_state s = old_state \<and> \<not> weak then goto t (RdWait pending) (s\<lparr>rw_state := pending\<rparr>)
         else goto t (RdTry False) s)"
| "rd_step t weak (RdWait pending) s =
     (if rw_state s = pending \<and> \<not> weak then goto t RdSleep s else goto t (RdTry False) s)"
| "rd_step t weak p s = s"

fun wr_step :: "nat \<Rightarrow> bool \<Rightarrow> RwPc \<Rightarrow> Rwlock \<Rightarrow> Rwlock" where
  "wr_step t weak WrCheck s =
     (if rw_writer_tid s = t then rw_return t RwWrlock EDEADLK s else goto t (WrTry True) s)"
| "wr_step t weak (WrTry first) s = wr_loop t first (rw_state s) s"
| "wr_step t weak (WrCas first old_state) s =
     (if rw_state s = old_state \<and> \<not> weak
      then goto t WrTid (s\<lparr>rw_state := old_state OR kRwlockWriterFlag, rw_writer := Some t\<rparr>)
      else wr_loop t first (rw_state s) s)"
| "wr_step t weak WrTid s = rw_return t RwWrlock ESuccess (s\<lparr>rw_writer_tid := t\<rparr>)"
| "wr_step t weak WrPendLoad s =
     (if \<not> OwnedByWriter (rw_state s) \<and> \<not> OwnedByReaders (rw_state s) then goto t (WrTry False) s
      else goto t (WrPendCas (rw_state s)) s)"
| "wr_step t weak (WrPendCas old_state) s =
     (let pending = old_state OR kRwlockPendingWritersFlag
      in if rw_state s = old_state \<and> \<not> weak then goto t (WrWait pending) (s\<lparr>rw_state := pending\<rparr>)
         else goto t (WrTry False) s)"
| "wr_step t weak (WrWait pending) s =
     (if rw_state s = pending \<and> \<not> weak then goto t WrSleep s else goto t (WrTry False) s)"
| "wr_step t weak p s = s"

text \<open>\<open>FUTEX_WAKE\<close> with \<open>INT_MAX\<close>.\<close>

fun woken :: "RwPc \<Rightarrow> RwPc" where
  "woken RdSleep = RdTry False"
| "woken WrSleep = WrTry False"
| "woken p = p"

fun un_step :: "nat \<Rightarrow> RwPc \<Rightarrow> Rwlock \<Rightarrow> Rwlock" where
  "un_step t UnLoad s =
     (if OwnedByWriter (rw_state s) then goto t UnTid s
      else if OwnedByReaders (rw_state s) then goto t UnSub s
      else rw_return t RwUnlock EPERM s)"
| "un_step t UnTid s = (if rw_writer_tid s \<noteq> t then rw_return t RwUnlock EPERM s else goto t UnTidStore s)"
| "un_step t UnTidStore s = goto t UnAnd (s\<lparr>rw_writer_tid := 0\<rparr>)"
| "un_step t UnAnd s =
     goto t UnWake (s\<lparr>rw_state := rw_state s AND NOT kRwlockWriterFlag, rw_writer := None\<rparr>)"
| "un_step t UnSub s =
     (let old_state = rw_state s;
          s = s\<lparr>rw_state := old_state - kRwlockReaderStep, rw_readers := remove1 t (rw_readers s)\<rparr>
      in if drop_bit 2 (sint old_state) \<noteq> 1 then rw_return t RwUnlock ESuccess s else goto t UnWake s)"
| "un_step t UnWake s = rw_return t RwUnlock ESuccess (s\<lparr>rw_pc := woken \<circ> rw_pc s\<rparr>)"
| "un_step t p s = s"

section \<open>Calls\<close>

definition rwlock_init :: "nat \<Rightarrow> Errno \<times> Rwlock option" where
  "rwlock_init address =
     (if address = 0 \<or> address < 4096 then (EINVAL, None)
      else (ESuccess, Some \<lparr>rw_state = 0, rw_writer_tid = 0, rw_pc = \<lambda>_. RwIdle, rw_returns = [], rw_readers = [],
              rw_writer = None, rw_reads = \<lambda>_. 0, rw_writes = \<lambda>_. 0\<rparr>))"

definition rwlock_destroy :: "nat \<Rightarrow> Rwlock \<Rightarrow> Errno" where
  "rwlock_destroy address s =
     (if address = 0 then EINVAL
      else if rw_state s AND NOT kRwlockPendingMask \<noteq> 0 then EBUSY
      else ESuccess)"

fun rw_entry :: "RwOp \<Rightarrow> RwPc" where
  "rw_entry RwRdlock = RdTry True"
| "rw_entry RwWrlock = WrCheck"
| "rw_entry RwUnlock = UnLoad"

text \<open>A thread calls an operation; with a call of \<open>unlock\<close> the caller no longer holds the lock.\<close>

definition rw_call :: "nat \<Rightarrow> RwOp \<Rightarrow> nat \<Rightarrow> Rwlock \<Rightarrow> Rwlock" where
  "rw_call t f address s =
     (if address = 0 \<or> address < 4096 then rw_return t f EINVAL s
      else let s = goto t (rw_entry f) s
      in if f \<noteq> RwUnlock then s
         else if rw_writes s t > 0 then s\<lparr>rw_writes := (rw_writes s)(t := rw_writes s t - 1)\<rparr>
         else s\<lparr>rw_reads := (rw_reads s)(t := rw_reads s t - 1)\<rparr>)"

datatype RwEvent = RwCall nat RwOp nat | RwStep nat bool | RwSpurious nat

fun is_rd :: "RwPc \<Rightarrow> bool" where
  "is_rd (RdTry _) = True" | "is_rd (RdCas _ _) = True" | "is_rd RdPendLoad = True" | "is_rd (RdPendCas _) = True"
| "is_rd (RdWait _) = True" | "is_rd RdSleep = True" | "is_rd _ = False"

fun is_wr :: "RwPc \<Rightarrow> bool" where
  "is_wr WrCheck = True" | "is_wr (WrTry _) = True" | "is_wr (WrCas _ _) = True" | "is_wr WrTid = True"
| "is_wr WrPendLoad = True" | "is_wr (WrPendCas _) = True" | "is_wr (WrWait _) = True" | "is_wr WrSleep = True"
| "is_wr _ = False"

fun rw_step :: "Rwlock \<Rightarrow> RwEvent \<Rightarrow> Rwlock" where
  "rw_step s (RwCall t f address) = rw_call t f address s"
| "rw_step s (RwStep t weak) =
     (let p = rw_pc s t in if is_rd p then rd_step t weak p s else if is_wr p then wr_step t weak p s else un_step t p s)"
| "rw_step s (RwSpurious t) = goto t (woken (rw_pc s t)) s"

text \<open>
  A thread that makes a call is not inside another one, has a positive thread id, and calls \<open>unlock\<close> only when
  it holds the lock.
\<close>

fun rw_admits :: "Rwlock \<Rightarrow> RwEvent \<Rightarrow> bool" where
  "rw_admits s (RwCall t f address) \<longleftrightarrow>
     0 < t \<and> rw_pc s t = RwIdle \<and> (f = RwUnlock \<longrightarrow> 0 < rw_reads s t + rw_writes s t)"
| "rw_admits s _ \<longleftrightarrow> True"

end
