(* ===== verification/Rwlock_Safety.thy ===== *)
theory Rwlock_Safety
  imports Bionic_Rwlock
begin

text \<open>
  The invariant of the read-write lock: the word counts the holders, readers and a writer exclude each other, and
  what callers hold is what the lock has given out. Sleepers are attended by the contract of \<open>Bionic_Futex\<close>.
\<close>

section \<open>The count in the word\<close>

definition holders :: "u32 \<Rightarrow> nat" where "holders w = unat w div 4"

lemma rwlock_constants [simp]:
  "kRwlockWriterFlag = 0x80000000" "kRwlockPendingWritersFlag = 2" "kRwlockPendingReadersFlag = 1"
  "kRwlockReaderStep = 4" "kRwlockPendingMask = 3"
  by (simp_all add: kRwlockWriterFlag_def kRwlockPendingWritersFlag_def kRwlockPendingReadersFlag_def
      kRwlockReaderStep_def kRwlockPendingMask_def push_bit_eq_mult)

lemma uint_u32: "0 \<le> uint (w :: u32)" "uint (w :: u32) < 4294967296"
  using unsigned_less [of w, where ?'a = int] by simp_all

lemma sint_u32: "sint (w :: u32) = (if uint w < 2147483648 then uint w else uint w - 4294967296)"
proof -
  have "sint w = (uint w + 2147483648) mod 4294967296 - 2147483648"
    by (simp add: sint_uint signed_take_bit_eq_take_bit_shift take_bit_eq_mod)
  also have "\<dots> = (if uint w < 2147483648 then uint w else uint w - 4294967296)"
  proof (cases "uint w < 2147483648")
    case False
    then have "(uint w - 2147483648 + 4294967296) mod 4294967296 = uint w - 2147483648"
      unfolding mod_add_self2 using uint_u32 [of w] by (intro mod_pos_pos_trivial) simp_all
    then show ?thesis using False by (simp add: algebra_simps)
  qed (use uint_u32 [of w] in \<open>simp add: mod_pos_pos_trivial\<close>)
  finally show ?thesis .
qed

lemma uint_holders: "uint w div 4 = int (holders w)"
  by (simp add: holders_def zdiv_int)

lemma owned_holders:
  "OwnedByWriter w \<longleftrightarrow> 2 ^ 29 \<le> holders w" "OwnedByReaders w \<longleftrightarrow> 1 \<le> holders w \<and> holders w < 2 ^ 29"
proof -
  have h: "536870912 \<le> holders w \<longleftrightarrow> 2147483648 \<le> uint w" "1 \<le> holders w \<longleftrightarrow> 4 \<le> uint w"
    using uint_holders [of w] by linarith+
  then show "OwnedByWriter w \<longleftrightarrow> 2 ^ 29 \<le> holders w" using uint_u32 [of w] by (simp add: OwnedByWriter_def sint_u32)
  show "OwnedByReaders w \<longleftrightarrow> 1 \<le> holders w \<and> holders w < 2 ^ 29"
    using h uint_u32 [of w] by (auto simp: OwnedByReaders_def sint_u32)
qed

lemma holders_add: "holders w < 2 ^ 29 \<Longrightarrow> holders (w + 4) = holders w + 1"
proof -
  assume "holders w < 2 ^ 29"
  then have "unat w + 4 < 2 ^ 32" by (simp add: holders_def)
  then have "unat (w + 4) = unat w + 4" by (simp add: unat_word_ariths)
  then show ?thesis by (simp add: holders_def)
qed

lemma holders_sub: "0 < holders w \<Longrightarrow> holders (w - 4) = holders w - 1"
proof -
  assume "0 < holders w"
  then have "4 \<le> unat w" by (simp add: holders_def)
  then have "unat (w - 4) = unat w - 4" by (simp add: unat_sub word_le_nat_alt)
  then show ?thesis by (simp add: holders_def)
qed

lemma holders_bits: "holders w = unat (drop_bit 2 w)"
  unfolding holders_def unat_drop_bit_eq by (simp add: drop_bit_eq_div)

lemma holders_or: "holders (w OR 1) = holders w" "holders (w OR 2) = holders w"
proof -
  have "drop_bit 2 (w OR c) = drop_bit 2 w OR drop_bit 2 c" for c by (rule drop_bit_or)
  moreover have "drop_bit 2 (1 :: u32) = 0" "drop_bit 2 (2 :: u32) = 0" by (simp_all add: drop_bit_eq_div)
  ultimately show "holders (w OR 1) = holders w" "holders (w OR 2) = holders w" by (simp_all add: holders_bits)
qed

lemma holders_writer: "holders w = 0 \<Longrightarrow> holders (w OR 0x80000000) = 2 ^ 29"
  unfolding holders_bits drop_bit_or unat_eq_0 by simp

lemma holders_leave:
  assumes "holders w = 2 ^ 29" shows "holders (w AND NOT 0x80000000) = 0"
proof -
  have "drop_bit 2 w = 0x20000000" using assms unfolding holders_bits word_unat_eq_iff by simp
  then show ?thesis unfolding holders_bits drop_bit_and by simp
qed

lemma and_not_mask: "(w :: u32) AND NOT (mask k) = push_bit k (drop_bit k w)"
  by (rule bit_eqI) (auto simp: bit_simps)

lemma holders_destroy: "w AND NOT 3 = 0 \<longleftrightarrow> holders w = 0"
proof -
  have mask: "(3 :: u32) = mask 2" by (simp add: mask_eq_exp_minus_1)
  have "w AND NOT 3 = push_bit 2 (drop_bit 2 w)" unfolding mask by (rule and_not_mask)
  moreover have "push_bit 2 (drop_bit 2 w) = 0 \<longleftrightarrow> drop_bit 2 w = 0"
    by (metis add_0 bits_ident push_bit_of_0 take_bit_eq_self_iff_drop_bit_eq_0)
  ultimately show ?thesis by (simp add: holders_bits unat_eq_0)
qed

lemma shift_holders: "holders w < 2 ^ 29 \<Longrightarrow> drop_bit 2 (sint w) = int (holders w)"
proof -
  assume "holders w < 2 ^ 29"
  then have "holders w < 536870912" by simp
  then have "uint w < 2147483648" using uint_holders [of w] by linarith
  then show ?thesis by (simp add: sint_u32 drop_bit_eq_div uint_holders del: uint_nat)
qed

section \<open>The invariant\<close>

fun releasing :: "RwPc \<Rightarrow> bool" where
  "releasing UnLoad = True" | "releasing UnTid = True" | "releasing UnTidStore = True" | "releasing UnAnd = True"
| "releasing UnSub = True" | "releasing _ = False"

text \<open>What a thread knows from its local variables.\<close>

fun pc_ok :: "bool \<Rightarrow> RwPc \<Rightarrow> bool" where
  "pc_ok w (RdCas first old) \<longleftrightarrow> holders old + 1 < 2 ^ 29"
| "pc_ok w (RdPendCas old) \<longleftrightarrow> 2 ^ 29 \<le> holders old"
| "pc_ok w (RdWait pending) \<longleftrightarrow> 2 ^ 29 \<le> holders pending"
| "pc_ok w (WrCas first old) \<longleftrightarrow> holders old = 0"
| "pc_ok w (WrPendCas old) \<longleftrightarrow> 0 < holders old"
| "pc_ok w (WrWait pending) \<longleftrightarrow> 0 < holders pending"
| "pc_ok w WrTid \<longleftrightarrow> w"
| "pc_ok w UnTid \<longleftrightarrow> w"
| "pc_ok w UnTidStore \<longleftrightarrow> w"
| "pc_ok w UnAnd \<longleftrightarrow> w"
| "pc_ok w UnSub \<longleftrightarrow> \<not> w"
| "pc_ok w p \<longleftrightarrow> True"

definition thread_ok :: "Rwlock \<Rightarrow> nat \<Rightarrow> bool" where
  "thread_ok s t \<longleftrightarrow>
     (let w = (rw_writer s = Some t); p = rw_pc s t
      in pc_ok w p \<and> (t = 0 \<longrightarrow> p = RwIdle \<and> \<not> w) \<and>
         rw_writes s t = of_bool (w \<and> p \<noteq> WrTid \<and> \<not> releasing p) \<and>
         count_list (rw_readers s) t = rw_reads s t + of_bool (\<not> w \<and> releasing p) \<and>
         (w \<longrightarrow> rw_writer_tid s = (if p = WrTid \<or> p = UnAnd then 0 else t)))"

definition word_ok :: "Rwlock \<Rightarrow> bool" where
  "word_ok s \<longleftrightarrow>
     holders (rw_state s) = (if rw_writer s \<noteq> None then 2 ^ 29 else length (rw_readers s)) \<and>
     length (rw_readers s) < 2 ^ 29 \<and> (rw_writer s \<noteq> None \<longrightarrow> rw_readers s = []) \<and>
     (rw_writer s = None \<longrightarrow> rw_writer_tid s = 0)"

definition rw_inv :: "Rwlock \<Rightarrow> bool" where
  "rw_inv s \<longleftrightarrow> word_ok s \<and> (\<forall>t. thread_ok s t) \<and> (\<forall>(t, f, e) \<in> set (rw_returns s). f = RwUnlock \<longrightarrow> e \<noteq> EPERM)"

lemmas rw_defs = rw_inv_def word_ok_def thread_ok_def Let_def

text \<open>A step of \<open>t\<close> that another thread does not see.\<close>

lemma inv_stepI:
  assumes "rw_inv s" "word_ok s'" "thread_ok s' t" "\<And>u. u \<noteq> t \<Longrightarrow> thread_ok s u \<Longrightarrow> thread_ok s' u"
    and "rw_returns s' = rw_returns s \<or> (\<exists>f e. rw_returns s' = rw_returns s @ [(t, f, e)] \<and> \<not> (f = RwUnlock \<and> e = EPERM))"
  shows "rw_inv s'"
  using assms unfolding rw_inv_def by fastforce

lemma inv_wordD: "rw_inv s \<Longrightarrow> word_ok s" and inv_threadD: "rw_inv s \<Longrightarrow> thread_ok s t"
  by (simp_all add: rw_inv_def)

lemma goto_inv:
  assumes "rw_inv s" "0 < t" "pc_ok (rw_writer s = Some t) p" "releasing p = releasing (rw_pc s t)"
    and "p = WrTid \<longleftrightarrow> rw_pc s t = WrTid" "p = UnAnd \<longleftrightarrow> rw_pc s t = UnAnd"
  shows "rw_inv (goto t p s)"
  using assms by (auto simp: rw_defs goto_def)

lemma state_inv: "rw_inv s \<Longrightarrow> holders v = holders (rw_state s) \<Longrightarrow> rw_inv (s\<lparr>rw_state := v\<rparr>)"
  by (simp add: rw_defs)

lemma lock_fail_inv:
  assumes "rw_inv s" "0 < t" "\<not> releasing (rw_pc s t)" "rw_pc s t \<noteq> WrTid" "e \<noteq> ESuccess" "f = RwUnlock \<longrightarrow> e \<noteq> EPERM"
  shows "rw_inv (rw_return t f e s)"
  using assms by (auto simp: rw_defs rw_return_def)

lemma pc_positive: "rw_inv s \<Longrightarrow> rw_pc s t \<noteq> RwIdle \<Longrightarrow> 0 < t"
  unfolding rw_inv_def thread_ok_def Let_def by (metis gr0I)

lemma thread_pc_ok: "rw_inv s \<Longrightarrow> pc_ok (rw_writer s = Some t) (rw_pc s t)"
  by (auto simp: rw_defs)

lemma rd_loop_inv:
  assumes "rw_inv s" "is_rd (rw_pc s t)"
  shows "rw_inv (rd_loop t first v s)"
proof -
  have "0 < t" "\<not> releasing (rw_pc s t)" "rw_pc s t \<noteq> WrTid" "rw_pc s t \<noteq> UnAnd"
    using assms pc_positive [OF assms(1), of t] by (cases "rw_pc s t"; simp)+
  then show ?thesis using assms(1)
    by (auto simp: rd_loop_def owned_holders holders_add intro!: goto_inv lock_fail_inv)
qed

lemma rd_take_inv:
  assumes "rw_inv s" "rw_pc s t = RdCas first old" "rw_state s = old"
  shows "rw_inv (rw_return t RwRdlock ESuccess (s\<lparr>rw_state := old + 4, rw_readers := t # rw_readers s\<rparr>))"
proof -
  have h: "holders old + 1 < 2 ^ 29" using thread_pc_ok [OF assms(1), of t] assms(2) by simp
  then have w: "rw_writer s = None" using assms(1,3) by (auto simp: rw_defs split: if_splits)
  have "holders (old + 4) = holders old + 1" using h by (intro holders_add) simp
  moreover have "0 < t" using pc_positive assms(1,2) by fastforce
  ultimately show ?thesis using assms h w by (auto simp: rw_defs rw_return_def)
qed

lemma rd_step_inv:
  assumes "rw_inv s" "is_rd (rw_pc s t)"
  shows "rw_inv (rd_step t weak (rw_pc s t) s)"
proof -
  note k = pc_positive [OF assms(1), of t] thread_pc_ok [OF assms(1), of t]
  show ?thesis
    using assms k rd_take_inv [OF assms(1)] rd_loop_inv [OF assms]
    by (cases "rw_pc s t") (auto simp: Let_def owned_holders holders_or intro!: goto_inv state_inv)
qed

lemma wr_loop_inv:
  assumes "rw_inv s" "is_wr (rw_pc s t)" "rw_pc s t \<noteq> WrTid"
  shows "rw_inv (wr_loop t first v s)"
proof -
  have "0 < t" "\<not> releasing (rw_pc s t)" "rw_pc s t \<noteq> UnAnd"
    using assms pc_positive [OF assms(1), of t] by (cases "rw_pc s t"; simp)+
  then show ?thesis using assms(1,3) by (auto simp: wr_loop_def owned_holders intro!: goto_inv)
qed

lemma wr_take_inv:
  assumes "rw_inv s" "rw_pc s t = WrCas first old" "rw_state s = old"
  shows "rw_inv (goto t WrTid (s\<lparr>rw_state := old OR 0x80000000, rw_writer := Some t\<rparr>))"
proof -
  have h: "holders old = 0" using thread_pc_ok [OF assms(1), of t] assms(2) by simp
  then have "rw_writer s = None" "rw_readers s = []" using assms(1,3) by (auto simp: rw_defs split: if_splits)
  then show ?thesis using assms h holders_writer [OF h] pc_positive [OF assms(1), of t]
    by (auto simp: rw_defs goto_def)
qed

lemma wr_tid_inv:
  assumes "rw_inv s" "rw_pc s t = WrTid"
  shows "rw_inv (rw_return t RwWrlock ESuccess (s\<lparr>rw_writer_tid := t\<rparr>))"
proof -
  have "rw_writer s = Some t" using thread_pc_ok [OF assms(1), of t] assms(2) by simp
  then show ?thesis using inv_wordD [OF assms(1)] inv_threadD [OF assms(1), of t] assms(2)
    by (intro inv_stepI [OF assms(1)]) (auto simp: word_ok_def thread_ok_def Let_def rw_return_def)
qed

lemma wr_step_inv:
  assumes "rw_inv s" "is_wr (rw_pc s t)"
  shows "rw_inv (wr_step t weak (rw_pc s t) s)"
proof -
  note k = pc_positive [OF assms(1), of t] thread_pc_ok [OF assms(1), of t]
  show ?thesis
    using assms k wr_take_inv [OF assms(1)] wr_loop_inv [OF assms] wr_tid_inv [OF assms(1)]
    by (cases "rw_pc s t") (auto simp: Let_def owned_holders holders_or intro!: goto_inv state_inv lock_fail_inv)
qed

lemma count_positive: "0 < count_list xs t \<Longrightarrow> t \<in> set xs"
  by (metis count_notin less_irrefl)

lemma count_remove1: "count_list (remove1 t xs) u = count_list xs u - (if u = t then 1 else 0)"
  by (induction xs) auto

lemma length_less_count: "0 < count_list xs t \<Longrightarrow> length (remove1 t xs) = length xs - 1"
  by (simp add: length_remove1 count_positive)

text \<open>A thread that releases the lock holds it.\<close>

lemma releasing_holds:
  assumes "rw_inv s" "releasing (rw_pc s t)"
  shows "rw_writer s = Some t \<or> rw_writer s = None \<and> 0 < count_list (rw_readers s) t"
  using inv_wordD [OF assms(1)] inv_threadD [OF assms(1), of t] assms(2)
  by (cases "rw_writer s") (auto simp: word_ok_def thread_ok_def Let_def)

lemma un_sub_inv:
  assumes "rw_inv s" "rw_pc s t = UnSub"
  shows "rw_inv (un_step t UnSub s)"
proof -
  have h: "rw_writer s = None" "0 < count_list (rw_readers s) t"
    using releasing_holds [OF assms(1), of t] thread_pc_ok [OF assms(1), of t] assms(2) by auto
  then have l: "0 < length (rw_readers s)" by (metis count_list.simps(1) length_greater_0_conv less_irrefl)
  then have "holders (rw_state s - 4) = holders (rw_state s) - 1" using assms(1) h by (intro holders_sub) (auto simp: rw_defs)
  then show ?thesis using inv_wordD [OF assms(1)] inv_threadD [OF assms(1), of t] assms(2) h l
    by (intro inv_stepI [OF assms(1), where t = t])
       (simp_all add: word_ok_def thread_ok_def Let_def goto_def rw_return_def count_remove1 length_less_count less_imp_diff_less)
qed

lemma un_and_inv:
  assumes "rw_inv s" "rw_pc s t = UnAnd"
  shows "rw_inv (un_step t UnAnd s)"
proof -
  have w: "rw_writer s = Some t" using thread_pc_ok [OF assms(1), of t] assms(2) by simp
  then have "holders (rw_state s AND NOT 0x80000000) = 0" using assms(1) by (intro holders_leave) (auto simp: rw_defs)
  then show ?thesis using w inv_wordD [OF assms(1)] inv_threadD [OF assms(1), of t] assms(2)
    by (intro inv_stepI [OF assms(1)]) (auto simp: word_ok_def thread_ok_def Let_def goto_def)
qed

lemma un_tid_store_inv:
  assumes "rw_inv s" "rw_pc s t = UnTidStore"
  shows "rw_inv (un_step t UnTidStore s)"
proof -
  have w: "rw_writer s = Some t" using thread_pc_ok [OF assms(1), of t] assms(2) by simp
  then show ?thesis using inv_wordD [OF assms(1)] inv_threadD [OF assms(1), of t] assms(2)
    by (intro inv_stepI [OF assms(1)]) (auto simp: word_ok_def thread_ok_def Let_def goto_def)
qed

lemma un_load_inv:
  assumes "rw_inv s" "rw_pc s t = UnLoad"
  shows "rw_inv (un_step t UnLoad s)"
proof -
  have "rw_writer s = Some t \<or> rw_writer s = None \<and> rw_readers s \<noteq> []"
    using releasing_holds [OF assms(1), of t] assms(2) by auto
  then show ?thesis using assms inv_wordD [OF assms(1)] pc_positive [OF assms(1), of t]
    by (auto simp: owned_holders word_ok_def Suc_le_eq intro!: goto_inv)
qed

lemma un_tid_inv:
  assumes "rw_inv s" "rw_pc s t = UnTid"
  shows "rw_inv (un_step t UnTid s)"
  using assms inv_threadD [OF assms(1), of t] pc_positive [OF assms(1), of t]
  by (auto simp: thread_ok_def Let_def intro!: goto_inv)

lemma woken_simps [simp]:
  "releasing (woken p) = releasing p" "woken p = WrTid \<longleftrightarrow> p = WrTid" "woken p = UnAnd \<longleftrightarrow> p = UnAnd"
  "woken p = RwIdle \<longleftrightarrow> p = RwIdle" "pc_ok w (woken p) = pc_ok w p"
  by (cases p; simp)+

lemma un_wake_inv:
  assumes "rw_inv s" "rw_pc s t = UnWake"
  shows "rw_inv (un_step t UnWake s)"
  using inv_wordD [OF assms(1)] inv_threadD [OF assms(1), of t] assms(2)
  by (intro inv_stepI [OF assms(1)]) (auto simp: word_ok_def thread_ok_def Let_def rw_return_def)

lemma un_step_inv: "rw_inv s \<Longrightarrow> rw_inv (un_step t (rw_pc s t) s)"
  using un_load_inv un_tid_inv un_tid_store_inv un_and_inv un_sub_inv un_wake_inv
  by (cases "rw_pc s t") (metis | simp)+

lemma rw_call_inv:
  assumes "rw_inv s" "rw_admits s (RwCall t f address)"
  shows "rw_inv (rw_call t f address s)"
proof -
  have t: "0 < t" "rw_pc s t = RwIdle" using assms(2) by auto
  show ?thesis
  proof (cases "address < 4096")
    case True
    then show ?thesis using assms(1) t by (auto simp: rw_call_def intro!: lock_fail_inv)
  next
    case False
    show ?thesis
    proof (cases f)
      case RwUnlock
      then show ?thesis using False assms t inv_wordD [OF assms(1)] inv_threadD [OF assms(1), of t]
        by (intro inv_stepI [OF assms(1), where t = t])
           (simp_all add: rw_call_def word_ok_def thread_ok_def Let_def goto_def split: if_splits)
    qed (use False assms(1) t in \<open>auto simp: rw_call_def Let_def intro!: goto_inv\<close>)
  qed
qed

lemma goto_idle: "rw_pc s t = RwIdle \<Longrightarrow> goto t RwIdle s = s"
  by (simp add: goto_def fun_upd_idem)

lemma rw_step_inv: "rw_inv s \<Longrightarrow> rw_admits s x \<Longrightarrow> rw_inv (rw_step s x)"
proof (cases x)
  case (RwSpurious t)
  assume "rw_inv s"
  then show ?thesis using RwSpurious pc_positive [of s t] thread_pc_ok [of s t]
    by (cases "rw_pc s t = RwIdle") (auto simp: goto_idle intro!: goto_inv)
qed (auto simp: Let_def rw_call_inv rd_step_inv wr_step_inv un_step_inv)

section \<open>Sleepers\<close>

definition rw_asleep :: "Rwlock \<Rightarrow> nat \<Rightarrow> bool" where
  "rw_asleep s t \<longleftrightarrow> rw_pc s t = RdSleep \<or> rw_pc s t = WrSleep"

text \<open>A reader waits for a writer, a writer for anybody.\<close>

definition rw_blocked :: "Rwlock \<Rightarrow> nat \<Rightarrow> bool" where
  "rw_blocked s t \<longleftrightarrow> rw_writer s \<noteq> None \<or> rw_pc s t = WrSleep \<and> rw_readers s \<noteq> []"

definition rw_waker :: "Rwlock \<Rightarrow> nat \<Rightarrow> bool" where
  "rw_waker s u \<longleftrightarrow> rw_pc s u = UnWake"

lemmas sleep_defs = rw_asleep_def rw_blocked_def rw_waker_def

text \<open>The other threads' program counters change only when they are woken.\<close>

lemma other_pc:
  assumes "u \<noteq> t"
  shows "rw_pc (rd_step t weak p s) u = rw_pc s u" "rw_pc (wr_step t weak p s) u = rw_pc s u"
    "rw_pc (un_step t p s) u = (if p = UnWake then woken (rw_pc s u) else rw_pc s u)"
    "rw_pc (rw_call t f address s) u = rw_pc s u" "rw_pc (goto t p s) u = rw_pc s u"
  using assms by (cases p; simp add: goto_def rw_return_def rd_loop_def wr_loop_def Let_def rw_call_def)+

lemma woken_awake: "woken p \<noteq> RdSleep" "woken p \<noteq> WrSleep"
  by (cases p; simp)+

lemma rd_step_sleep:
  assumes "rw_inv s" "is_rd p" "rw_pc s t = p"
  shows "rw_writer (rd_step t weak p s) = rw_writer s" "rw_readers s \<noteq> [] \<Longrightarrow> rw_readers (rd_step t weak p s) \<noteq> []"
    "rw_pc (rd_step t weak p s) t \<noteq> WrSleep"
    "rw_pc (rd_step t weak p s) t = RdSleep \<Longrightarrow> p = RdSleep \<or> rw_writer s \<noteq> None"
  using assms thread_pc_ok [OF assms(1), of t] inv_wordD [OF assms(1)]
  by (cases p; auto simp: goto_def rw_return_def rd_loop_def Let_def word_ok_def split: if_splits)+

lemma wr_step_sleep:
  assumes "rw_inv s" "is_wr p" "rw_pc s t = p"
  shows "rw_writer s \<noteq> None \<Longrightarrow> rw_writer (wr_step t weak p s) \<noteq> None" "rw_readers (wr_step t weak p s) = rw_readers s"
    "rw_pc (wr_step t weak p s) t \<noteq> RdSleep"
    "rw_pc (wr_step t weak p s) t = WrSleep \<Longrightarrow> p = WrSleep \<or> rw_writer (wr_step t weak p s) \<noteq> None \<or> rw_readers s \<noteq> []"
  using assms thread_pc_ok [OF assms(1), of t] inv_wordD [OF assms(1)]
  by (cases p; auto simp: goto_def rw_return_def wr_loop_def Let_def word_ok_def split: if_splits)+

lemma un_step_sleep:
  assumes "\<not> is_rd p" "\<not> is_wr p" "rw_pc s t = p"
  shows "rw_pc (un_step t p s) t \<noteq> RdSleep" "rw_pc (un_step t p s) t \<noteq> WrSleep"
    "rw_writer s \<noteq> None \<Longrightarrow> rw_writer (un_step t p s) \<noteq> None \<or> rw_waker (un_step t p s) t"
  using assms by (cases p; auto simp: goto_def rw_return_def Let_def rw_waker_def)+

lemma un_sub_wakes:
  assumes "rw_inv s" "rw_pc s t = UnSub"
  shows "rw_readers (un_step t UnSub s) \<noteq> [] \<or> rw_waker (un_step t UnSub s) t"
proof -
  have h: "rw_writer s = None" "0 < count_list (rw_readers s) t"
    using releasing_holds [OF assms(1), of t] thread_pc_ok [OF assms(1), of t] assms(2) by auto
  then have "drop_bit 2 (sint (rw_state s)) = int (length (rw_readers s))"
    using inv_wordD [OF assms(1)] by (subst shift_holders) (auto simp: word_ok_def)
  moreover have "length (remove1 t (rw_readers s)) = length (rw_readers s) - 1" using h(2) by (rule length_less_count)
  ultimately show ?thesis
    using h(2) by (cases "rw_readers s") (auto simp: Let_def rw_waker_def goto_def rw_return_def)
qed

lemma un_step_readers:
  assumes "rw_inv s" "rw_pc s t = p" "rw_readers s \<noteq> []"
  shows "rw_readers (un_step t p s) \<noteq> [] \<or> rw_waker (un_step t p s) t"
  using assms un_sub_wakes [OF assms(1), of t] by (cases p) (auto simp: goto_def rw_return_def rw_waker_def)

lemma call_sleep:
  "rw_writer (rw_call t f address s) = rw_writer s" "rw_readers (rw_call t f address s) = rw_readers s"
  "rw_pc (rw_call t f address s) t \<noteq> RdSleep" "rw_pc (rw_call t f address s) t \<noteq> WrSleep"
  by (cases f; simp add: rw_call_def rw_return_def goto_def Let_def)+

lemma step_thread:
  "rw_step s (RwStep t weak) = rd_step t weak (rw_pc s t) s \<and> is_rd (rw_pc s t) \<or>
   rw_step s (RwStep t weak) = wr_step t weak (rw_pc s t) s \<and> is_wr (rw_pc s t) \<or>
   rw_step s (RwStep t weak) = un_step t (rw_pc s t) s \<and> \<not> is_rd (rw_pc s t) \<and> \<not> is_wr (rw_pc s t)"
  by (simp add: Let_def)

lemma step_other:
  assumes "u \<noteq> t" "rw_asleep (rw_step s (RwStep u weak)) t"
  shows "rw_pc (rw_step s (RwStep u weak)) t = rw_pc s t" "rw_pc s u \<noteq> UnWake"
  using assms woken_awake by (auto simp: Let_def other_pc rw_asleep_def split: if_splits)

lemma call_spurious_other:
  "u \<noteq> t \<Longrightarrow> rw_pc (rw_step s (RwCall u f address)) t = rw_pc s t"
  "u \<noteq> t \<Longrightarrow> rw_pc (rw_step s (RwSpurious u)) t = rw_pc s t"
  by (simp_all add: other_pc)

lemma rw_falls_asleep:
  assumes inv: "rw_inv s" and a: "\<not> rw_asleep s t" "rw_asleep (rw_step s x) t"
  shows "rw_blocked (rw_step s x) t"
proof (cases x)
  case (RwCall u f address)
  then show ?thesis using a call_sleep [of u f address s] other_pc(4) [of t u f address s]
    by (cases "u = t") (auto simp: rw_asleep_def)
next
  case (RwSpurious u)
  then show ?thesis using a woken_awake other_pc(5) [of t u _ s]
    by (cases "u = t") (auto simp: rw_asleep_def goto_def)
next
  case (RwStep u weak)
  then have "u = t" using a step_other(1) [of u t s weak] unfolding rw_asleep_def by metis
  then show ?thesis
    using a RwStep step_thread [of s t weak] rd_step_sleep [OF inv _ refl, of t weak]
      wr_step_sleep [OF inv _ refl, of t weak] un_step_sleep [OF _ _ refl, of s t]
    by (auto simp: rw_asleep_def rw_blocked_def)
qed

text \<open>The holders a sleeper waits for leave only towards a wake-up.\<close>

lemma holders_stay:
  assumes inv: "rw_inv s"
  shows "rw_writer s \<noteq> None \<Longrightarrow> rw_writer (rw_step s x) \<noteq> None \<or> (\<exists>u. rw_waker (rw_step s x) u)"
    "rw_readers s \<noteq> [] \<Longrightarrow> rw_readers (rw_step s x) \<noteq> [] \<or> (\<exists>u. rw_waker (rw_step s x) u)"
proof -
  have *: "(rw_writer s \<noteq> None \<longrightarrow> rw_writer (rw_step s x) \<noteq> None \<or> (\<exists>u. rw_waker (rw_step s x) u)) \<and>
    (rw_readers s \<noteq> [] \<longrightarrow> rw_readers (rw_step s x) \<noteq> [] \<or> (\<exists>u. rw_waker (rw_step s x) u))"
  proof (cases x)
    case (RwStep u weak)
    then show ?thesis
      using step_thread [of s u weak] rd_step_sleep [OF inv _ refl, of u weak] wr_step_sleep [OF inv _ refl, of u weak]
        un_step_sleep [OF _ _ refl, of s u] un_step_readers [OF inv refl, of u] by metis
  qed (simp_all add: call_sleep goto_def)
  then show "rw_writer s \<noteq> None \<Longrightarrow> rw_writer (rw_step s x) \<noteq> None \<or> (\<exists>u. rw_waker (rw_step s x) u)"
    "rw_readers s \<noteq> [] \<Longrightarrow> rw_readers (rw_step s x) \<noteq> [] \<or> (\<exists>u. rw_waker (rw_step s x) u)" by auto
qed

lemma sleeper_pc:
  assumes "rw_admits s x" "rw_asleep s t" "rw_asleep (rw_step s x) t"
  shows "rw_pc (rw_step s x) t = rw_pc s t"
proof (cases x)
  case (RwStep u weak)
  then show ?thesis using assms(2,3) step_other [of u t s weak] by (cases "u = t") (auto simp: rw_asleep_def)
next
  case (RwSpurious u)
  then show ?thesis using assms(3) woken_awake by (cases "u = t") (auto simp: rw_asleep_def goto_def)
next
  case (RwCall u f address)
  then have "u \<noteq> t" using assms(1,2) by (auto simp: rw_asleep_def)
  then show ?thesis using RwCall by (simp add: other_pc)
qed

lemma rw_wakes_all:
  assumes "rw_admits s x" "rw_waker s u" "rw_asleep (rw_step s x) t"
  shows "rw_waker (rw_step s x) u"
proof (cases x)
  case (RwStep v weak)
  show ?thesis
  proof (cases "v = u")
    case True
    then show ?thesis using assms RwStep step_other(2) [of u t s weak]
      by (cases "u = t") (auto simp: rw_waker_def rw_asleep_def rw_return_def)
  next
    case False
    then show ?thesis using assms(2) RwStep by (simp add: Let_def other_pc rw_waker_def)
  qed
next
  case (RwSpurious v)
  then show ?thesis using assms(2) by (cases "u = v") (auto simp: rw_waker_def goto_def)
next
  case (RwCall v f address)
  then have "v \<noteq> u" using assms(1,2) by (auto simp: rw_waker_def)
  then show ?thesis using RwCall assms(2) by (simp add: other_pc rw_waker_def)
qed

interpretation rw_futex: futex_word rw_step rw_admits rw_inv rw_asleep rw_blocked rw_waker
proof
  fix s x t assume inv: "rw_inv s" and ok: "rw_admits s x"
    and a: "rw_asleep s t" "rw_asleep (rw_step s x) t" "rw_blocked s t"
  show "rw_blocked (rw_step s x) t \<or> (\<exists>u. rw_waker (rw_step s x) u)"
    using a holders_stay [OF inv] sleeper_pc [OF ok a(1,2)] unfolding rw_blocked_def by metis
qed (use rw_step_inv rw_falls_asleep rw_wakes_all in metis)+

section \<open>Progress\<close>

text \<open>Alone and with nobody holding the lock, a thread takes it in three (reader) or four (writer) steps.\<close>

lemma rw_init_inv: "rwlock_init address = (e, Some s) \<Longrightarrow> rw_inv s \<and> (\<forall>t. \<not> rw_asleep s t)"
  by (auto simp: rwlock_init_def rw_defs rw_asleep_def holders_def split: if_splits)

lemma replicate_3_4: "replicate 3 x = [x, x, x]" "replicate 4 x = [x, x, x, x]"
  by (simp_all add: eval_nat_numeral)

lemma rd_solo:
  assumes "holders (rw_state s) = 0" "is_rd (rw_pc s t)" "rw_pc s t \<noteq> RdSleep" "pc_ok w (rw_pc s t)"
  shows "let s' = run_ops rw_step s (replicate 3 (RwStep t False))
    in rw_pc s' t = RwIdle \<and> rw_reads s' t = rw_reads s t + 1"
  using assms holders_add [of "rw_state s"]
  by (cases "rw_pc s t")
     (auto simp: replicate_3_4 Let_def goto_def rw_return_def rd_loop_def owned_holders split: if_splits)

lemma wr_solo:
  assumes "holders (rw_state s) = 0" "is_wr (rw_pc s t)" "rw_pc s t \<noteq> WrSleep" "rw_pc s t \<noteq> WrTid" "pc_ok w (rw_pc s t)"
    "0 < t" "rw_writer_tid s = 0"
  shows "let s' = run_ops rw_step s (replicate 4 (RwStep t False))
    in rw_pc s' t = RwIdle \<and> rw_writes s' t = rw_writes s t + 1"
  using assms
  by (cases "rw_pc s t")
     (auto simp: replicate_3_4 Let_def goto_def rw_return_def wr_loop_def owned_holders split: if_splits)

lemma writer_excludes:
  assumes "rw_inv s" "0 < rw_writes s t"
  shows "rw_writer s = Some t" "rw_writes s t = 1" "rw_reads s u = 0" "u = t \<or> rw_writes s u = 0"
proof -
  show w: "rw_writer s = Some t" using inv_threadD [OF assms(1), of t] assms(2) by (simp add: thread_ok_def Let_def)
  show "rw_writes s t = 1" "rw_reads s u = 0" "u = t \<or> rw_writes s u = 0"
    using w inv_wordD [OF assms(1)] inv_threadD [OF assms(1), of t] inv_threadD [OF assms(1), of u] assms(2)
    by (auto simp: thread_ok_def word_ok_def Let_def)
qed

lemma deadlock_reported:
  assumes "rw_inv s" "rw_pc s t = WrCheck"
  shows "rw_step s (RwStep t weak) = rw_return t RwWrlock EDEADLK s \<longleftrightarrow> 0 < rw_writes s t"
proof -
  have "rw_returns (goto t (WrTry True) s) \<noteq> rw_returns (rw_return t RwWrlock EDEADLK s)"
    by (simp add: goto_def rw_return_def)
  then have "goto t (WrTry True) s \<noteq> rw_return t RwWrlock EDEADLK s" by metis
  moreover have "rw_writer_tid s = t \<longleftrightarrow> 0 < rw_writes s t"
    using inv_wordD [OF assms(1)] inv_threadD [OF assms(1), of t] inv_threadD [OF assms(1), of "the (rw_writer s)"] assms(2)
    by (cases "rw_writer s") (auto simp: thread_ok_def word_ok_def Let_def split: if_splits)
  ultimately show ?thesis using assms(2) by simp
qed

lemma holder_busy:
  assumes "rw_inv s" "0 < rw_reads s t + rw_writes s t" "address \<noteq> 0"
  shows "rwlock_destroy address s = EBUSY"
proof -
  have "rw_writer s \<noteq> None \<or> rw_readers s \<noteq> []"
    using inv_threadD [OF assms(1), of t] assms(2) by (auto simp: thread_ok_def Let_def)
  then have "holders (rw_state s) \<noteq> 0" using inv_wordD [OF assms(1)] by (auto simp: word_ok_def)
  then show ?thesis using assms(3) holders_destroy [of "rw_state s"] by (simp add: rwlock_destroy_def)
qed

lemma free_solo:
  assumes "rw_inv s" "rw_writer s = None" "rw_readers s = []" "\<not> rw_asleep s t"
  shows "is_rd (rw_pc s t) \<Longrightarrow> let s' = run_ops rw_step s (replicate 3 (RwStep t False))
      in rw_pc s' t = RwIdle \<and> rw_reads s' t = rw_reads s t + 1"
    and "is_wr (rw_pc s t) \<Longrightarrow> let s' = run_ops rw_step s (replicate 4 (RwStep t False))
      in rw_pc s' t = RwIdle \<and> rw_writes s' t = rw_writes s t + 1"
proof -
  have h: "holders (rw_state s) = 0" "rw_writer_tid s = 0" using inv_wordD [OF assms(1)] assms(2,3) by (auto simp: word_ok_def)
  note k = thread_pc_ok [OF assms(1), of t] and p = pc_positive [OF assms(1), of t]
  show "let s' = run_ops rw_step s (replicate 3 (RwStep t False)) in rw_pc s' t = RwIdle \<and> rw_reads s' t = rw_reads s t + 1"
    if "is_rd (rw_pc s t)" using rd_solo [OF h(1) that _ k] assms(4) by (auto simp: rw_asleep_def)
  show "let s' = run_ops rw_step s (replicate 4 (RwStep t False)) in rw_pc s' t = RwIdle \<and> rw_writes s' t = rw_writes s t + 1"
    if "is_wr (rw_pc s t)"
    using wr_solo [OF h(1) that _ _ k _ h(2)] assms(2,4) k p that by (cases "rw_pc s t") (auto simp: rw_asleep_def)
qed

section \<open>Properties\<close>

text \<open>
  C11. Read-write locks exclude: whatever the interleaving of any number of threads that unlock only what they
  hold, a caller that holds the lock for writing is the only one that holds it; an unlock by a holder never fails
  with \<open>EPERM\<close>, \<open>wrlock\<close> reports a deadlock exactly to the caller that holds the lock for writing, and the lock
  is busy for \<open>destroy\<close> while a caller holds it.
\<close>

theorem rwlock_excludes:
  assumes "rwlock_init address = (e, Some s0)" "admitted rw_step rw_admits s0 xs" "s = run_ops rw_step s0 xs"
  shows "(if 0 < rw_writes s t then rw_writes s t = 1 \<and> rw_reads s u = 0 \<and> (u = t \<or> rw_writes s u = 0) else True) \<and>
    (t, RwUnlock, EPERM) \<notin> set (rw_returns s) \<and>
    (if rw_pc s t = WrCheck then rw_step s (RwStep t weak) = rw_return t RwWrlock EDEADLK s \<longleftrightarrow> 0 < rw_writes s t else True) \<and>
    (if 0 < rw_reads s t + rw_writes s t then rwlock_destroy address s = EBUSY else True)"
proof -
  have inv: "rw_inv s" unfolding assms(3) using rw_init_inv [OF assms(1)] assms(2) by (intro rw_futex.run_invar) simp_all
  have "address \<noteq> 0" using assms(1) by (auto simp: rwlock_init_def split: if_splits)
  moreover have "(t, RwUnlock, EPERM) \<notin> set (rw_returns s)" using inv by (auto simp: rw_inv_def)
  ultimately show ?thesis using writer_excludes [OF inv] deadlock_reported [OF inv] holder_busy [OF inv, of t address]
    by auto
qed

text \<open>Two readers share the lock while a writer waits; it then has the lock alone.\<close>

definition rw_example :: "RwEvent list" where
  "rw_example =
     [RwCall 1 RwRdlock 8192, RwStep 1 False, RwStep 1 False, RwCall 2 RwRdlock 8192, RwStep 2 False, RwStep 2 False,
      RwCall 3 RwWrlock 8192] @ replicate 6 (RwStep 3 False) @
     [RwCall 1 RwUnlock 8192, RwStep 1 False, RwStep 1 False, RwCall 2 RwUnlock 8192, RwStep 2 False, RwStep 2 False,
      RwStep 2 False] @ replicate 3 (RwStep 3 False)"

lemma replicate_6: "replicate 6 x = [x, x, x, x, x, x]"
  by (simp add: eval_nat_numeral)

lemmas rw_eval = rw_example_def rwlock_init_def rw_call_def goto_def rw_return_def rd_loop_def wr_loop_def Let_def
  replicate_3_4 replicate_6 OwnedByWriter_def OwnedByReaders_def sleep_defs

theorem rwlock_excludes_witness:
  "let s0 = the (snd (rwlock_init 8192)); s = run_ops rw_step s0 rw_example
   in admitted rw_step rw_admits s0 rw_example \<and> rw_writes s 3 = 1 \<and> rw_reads s 1 = 0 \<and> rw_writes s 2 = 0"
proof -
  have "admitted rw_step rw_admits (the (snd (rwlock_init 8192))) rw_example"
    by (simp add: rw_eval)
  moreover have "0 < rw_writes (run_ops rw_step (the (snd (rwlock_init 8192))) rw_example) 3"
    by (simp add: rw_eval)
  moreover have "rwlock_init 8192 = (ESuccess, Some (the (snd (rwlock_init 8192))))" by (simp add: rwlock_init_def)
  ultimately show ?thesis
    using rwlock_excludes [of 8192 ESuccess "the (snd (rwlock_init 8192))" rw_example _ 3 1]
      rwlock_excludes [of 8192 ESuccess "the (snd (rwlock_init 8192))" rw_example _ 3 2] by (simp add: Let_def)
qed

text \<open>
  C21. No wake-up is lost and the lock is handed over: in every run, a sleeping reader faces a writer and a sleeping
  writer a holder, or some thread is about to wake all sleepers. When nobody holds the lock and no wake-up is under
  way, no thread in a lock call sleeps, and each of them takes the lock within three steps of its own (a reader) or
  four (a writer) if it runs alone.
\<close>

theorem rwlock_hands_over:
  assumes "rwlock_init address = (e, Some s0)" "admitted rw_step rw_admits s0 xs" "s = run_ops rw_step s0 xs"
  shows "(if rw_asleep s t then rw_blocked s t \<or> (\<exists>u. rw_waker s u) else True) \<and>
    (if rw_writer s = None \<and> rw_readers s = [] \<and> (\<forall>u. \<not> rw_waker s u)
     then \<not> rw_asleep s t \<and>
       (if is_rd (rw_pc s t)
        then let s' = run_ops rw_step s (replicate 3 (RwStep t False)) in rw_pc s' t = RwIdle \<and> rw_reads s' t = rw_reads s t + 1
        else if is_wr (rw_pc s t)
        then let s' = run_ops rw_step s (replicate 4 (RwStep t False)) in rw_pc s' t = RwIdle \<and> rw_writes s' t = rw_writes s t + 1
        else True)
     else True)"
proof -
  note init = rw_init_inv [OF assms(1)]
  have inv: "rw_inv s" unfolding assms(3) using init assms(2) by (intro rw_futex.run_invar) simp_all
  have w: "rw_asleep s t \<Longrightarrow> rw_blocked s t \<or> (\<exists>u. rw_waker s u)"
    unfolding assms(3) using init assms(2) by (intro rw_futex.no_lost_wakeup) auto
  then have "\<not> rw_asleep s t" if "rw_writer s = None" "rw_readers s = []" "\<forall>u. \<not> rw_waker s u"
    using that by (auto simp: rw_blocked_def)
  then show ?thesis using w free_solo [OF inv] by simp
qed

theorem rwlock_hands_over_witness:
  "let s0 = the (snd (rwlock_init 8192)); xs = take 13 rw_example; s = run_ops rw_step s0 xs
   in admitted rw_step rw_admits s0 xs \<and> rw_asleep s 3 \<and> (rw_blocked s 3 \<or> (\<exists>u. rw_waker s u))"
proof -
  have "admitted rw_step rw_admits (the (snd (rwlock_init 8192))) (take 13 rw_example)"
    "rw_asleep (run_ops rw_step (the (snd (rwlock_init 8192))) (take 13 rw_example)) 3"
    by (simp_all add: rw_eval)
  moreover have "rwlock_init 8192 = (ESuccess, Some (the (snd (rwlock_init 8192))))" by (simp add: rwlock_init_def)
  ultimately show ?thesis
    using rwlock_hands_over [of 8192 ESuccess "the (snd (rwlock_init 8192))" "take 13 rw_example" _ 3]
    by (simp add: Let_def)
qed

end
