(* ===== verification/Bionic_Semaphore.thy ===== *)
theory Bionic_Semaphore
  imports Bionic_Futex
begin

text \<open>
  The semaphore of the Bionic compatibility layer (\<open>src/compat/bionic_semaphore_runtime.cc\<close>), one atomic access
  per step, in the manner of \<open>Bionic_Rwlock\<close>. The count is in bits 31 to 1 of a word; -1 means that threads may be
  asleep. \<open>SEM_VALUE_MAX\<close> is the one of the host's C library. \<open>sm_posts\<close> counts the posts that have taken effect
  and \<open>sm_initial\<close> is the initial count; the code reads neither.
\<close>

section \<open>The count\<close>

definition kSemValueMask :: u32 where "kSemValueMask = 0xfffffffe"
definition kSemValueShift :: nat where "kSemValueShift = 1"
definition kSemOne :: u32 where "kSemOne = push_bit kSemValueShift 1"
definition kSemMinusOne :: u32 where "kSemMinusOne = kSemValueMask"
definition SEM_VALUE_MAX :: int where "SEM_VALUE_MAX = 2147483647"

definition SemValue :: "u32 \<Rightarrow> int" where
  "SemValue encoded = drop_bit kSemValueShift (sint encoded)"

definition SemEncode :: "u32 \<Rightarrow> u32" where
  "SemEncode v = push_bit kSemValueShift v AND kSemValueMask"

section \<open>Threads\<close>

datatype SmOp = SmWait | SmPost

datatype SmPc = SmIdle | SwLoad | SwCas u32 | SwFutex | SwSleep | SpLoad | SpCas u32 u32 | SpWake

record Semaphore =
  sm_count :: u32
  sm_pc :: "nat \<Rightarrow> SmPc"
  sm_returns :: "(nat \<times> SmOp \<times> Errno) list"
  sm_initial :: nat
  sm_posts :: nat

definition sm_goto :: "nat \<Rightarrow> SmPc \<Rightarrow> Semaphore \<Rightarrow> Semaphore" where
  "sm_goto t p s = s\<lparr>sm_pc := (sm_pc s)(t := p)\<rparr>"

text \<open>A result of 0 is \<open>ESuccess\<close>; -1 is the value of \<open>errno\<close>.\<close>

definition sm_return :: "nat \<Rightarrow> SmOp \<Rightarrow> Errno \<Rightarrow> Semaphore \<Rightarrow> Semaphore" where
  "sm_return t f e s = s\<lparr>sm_pc := (sm_pc s)(t := SmIdle), sm_returns := sm_returns s @ [(t, f, e)]\<rparr>"

text \<open>\<open>SemDec\<close> with the value it has read, and what \<open>sem_wait\<close> does with its result.\<close>

definition dec_loop :: "nat \<Rightarrow> u32 \<Rightarrow> Semaphore \<Rightarrow> Semaphore" where
  "dec_loop t old_value s = (if SemValue old_value < 0 then sm_goto t SwFutex s else sm_goto t (SwCas old_value) s)"

text \<open>\<open>SemInc\<close> with the value it has read; \<open>sem_post\<close> reports a count at its maximum.\<close>

definition inc_loop :: "nat \<Rightarrow> u32 \<Rightarrow> Semaphore \<Rightarrow> Semaphore" where
  "inc_loop t old_value s =
     (let v = SemValue old_value
      in if v = SEM_VALUE_MAX then sm_return t SmPost EOVERFLOW s
         else sm_goto t (SpCas old_value (if v < 0 then kSemOne else (old_value + kSemOne) AND kSemValueMask)) s)"

fun sm_woken :: "SmPc \<Rightarrow> SmPc" where
  "sm_woken SwSleep = SwLoad"
| "sm_woken p = p"

fun sm_thread :: "nat \<Rightarrow> bool \<Rightarrow> SmPc \<Rightarrow> Semaphore \<Rightarrow> Semaphore" where
  "sm_thread t weak SwLoad s = dec_loop t (sm_count s) s"
| "sm_thread t weak (SwCas old_value) s =
     (if sm_count s = old_value \<and> \<not> weak
      then let s = s\<lparr>sm_count := (old_value - kSemOne) AND kSemValueMask\<rparr>
           in if SemValue old_value > 0 then sm_return t SmWait ESuccess s else sm_goto t SwFutex s
      else dec_loop t (sm_count s) s)"
| "sm_thread t weak SwFutex s =
     (if sm_count s = kSemMinusOne \<and> \<not> weak then sm_goto t SwSleep s else sm_goto t SwLoad s)"
| "sm_thread t weak SpLoad s = inc_loop t (sm_count s) s"
| "sm_thread t weak (SpCas old_value new_value) s =
     (if sm_count s = old_value \<and> \<not> weak
      then let s = s\<lparr>sm_count := new_value, sm_posts := sm_posts s + 1\<rparr>
           in if SemValue old_value < 0 then sm_goto t SpWake s else sm_return t SmPost ESuccess s
      else inc_loop t (sm_count s) s)"
| "sm_thread t weak SpWake s = sm_return t SmPost ESuccess (s\<lparr>sm_pc := sm_woken \<circ> sm_pc s\<rparr>)"
| "sm_thread t weak p s = s"

section \<open>Calls\<close>

definition sem_init :: "bool \<Rightarrow> int \<Rightarrow> u32 \<Rightarrow> Errno \<times> Semaphore option" where
  "sem_init null process_shared v =
     (if null \<or> process_shared \<noteq> 0 then (EINVAL, None)
      else if uint v > SEM_VALUE_MAX then (EINVAL, None)
      else (ESuccess, Some \<lparr>sm_count = SemEncode v, sm_pc = \<lambda>_. SmIdle, sm_returns = [], sm_initial = unat v, sm_posts = 0\<rparr>))"

definition sem_destroy :: "bool \<Rightarrow> Errno" where
  "sem_destroy null = (if null then EINVAL else ESuccess)"

definition sm_call :: "nat \<Rightarrow> SmOp \<Rightarrow> bool \<Rightarrow> Semaphore \<Rightarrow> Semaphore" where
  "sm_call t f null s =
     (if null then sm_return t f EINVAL s
      else sm_goto t (case f of SmWait \<Rightarrow> SwLoad | SmPost \<Rightarrow> SpLoad) s)"

datatype SmEvent = SmCall nat SmOp bool | SmStep nat bool | SmSpurious nat

fun sm_step :: "Semaphore \<Rightarrow> SmEvent \<Rightarrow> Semaphore" where
  "sm_step s (SmCall t f null) = sm_call t f null s"
| "sm_step s (SmStep t weak) = sm_thread t weak (sm_pc s t) s"
| "sm_step s (SmSpurious t) = sm_goto t (sm_woken (sm_pc s t)) s"

definition done_ops :: "SmOp \<Rightarrow> Semaphore \<Rightarrow> nat" where
  "done_ops f s = length (filter (\<lambda>(t, g, e). g = f \<and> e = ESuccess) (sm_returns s))"

text \<open>
  A thread that makes a call is not inside another one, and nobody posts when the count has reached its
  largest value, 2 to the 30 less one.
\<close>

fun sm_admits :: "Semaphore \<Rightarrow> SmEvent \<Rightarrow> bool" where
  "sm_admits s (SmCall t f null) \<longleftrightarrow> sm_pc s t = SmIdle"
| "sm_admits s (SmStep t weak) \<longleftrightarrow> (case sm_pc s t of SpCas _ _ \<Rightarrow> SemValue (sm_count s) < 2 ^ 30 - 1 | _ \<Rightarrow> True)"
| "sm_admits s (SmSpurious t) \<longleftrightarrow> True"

section \<open>Values\<close>

definition enc :: "int \<Rightarrow> u32" where "enc v = word_of_int (2 * v)"

lemma sem_constants [simp]: "kSemOne = 2" "kSemMinusOne = enc (- 1)" "kSemValueMask = enc (- 1)"
  by (simp_all add: kSemOne_def kSemMinusOne_def kSemValueMask_def kSemValueShift_def enc_def push_bit_eq_mult)

lemma SemValue_enc:
  assumes "- (2 ^ 30) \<le> v" "v < 2 ^ 30"
  shows "SemValue (enc v) = v"
proof -
  have "signed_take_bit 31 (2 * v) = 2 * v" using assms by (intro signed_take_bit_int_eq_self) simp_all
  then have "sint (enc v) = 2 * v" unfolding enc_def by (simp add: signed_of_int del: of_int_mult)
  then show ?thesis by (simp add: SemValue_def kSemValueShift_def drop_bit_eq_div)
qed

lemma enc_even: "enc v AND enc (- 1) = enc v"
proof -
  have "enc (- 1) = NOT 1" by (simp add: enc_def)
  moreover have "enc v AND NOT 1 = enc v"
    by (rule bit_eqI) (auto simp: enc_def bit_simps bit_0)
  ultimately show ?thesis by simp
qed

lemma enc_arith: "enc v - 2 = enc (v - 1)" "enc v + 2 = enc (v + 1)" "enc 1 = 2"
  by (simp_all add: enc_def algebra_simps)

lemma SemEncode_enc: "SemEncode v = enc (uint v)"
proof -
  have "push_bit 1 v = enc (uint v)" by (simp add: enc_def push_bit_eq_mult)
  then show ?thesis by (simp add: SemEncode_def kSemValueShift_def enc_even)
qed

section \<open>The invariant\<close>

definition sm_level :: "Semaphore \<Rightarrow> int \<Rightarrow> bool" where
  "sm_level s v \<longleftrightarrow> - 1 \<le> v \<and> v < 2 ^ 30 \<and> sm_count s = enc v \<and>
     int (sm_initial s + sm_posts s) = int (done_ops SmWait s) + max v 0"

fun sm_pc_ok :: "SmPc \<Rightarrow> bool" where
  "sm_pc_ok (SwCas old) \<longleftrightarrow> 0 \<le> SemValue old"
| "sm_pc_ok (SpCas old new) \<longleftrightarrow> new = (if SemValue old < 0 then 2 else (old + 2) AND enc (- 1))"
| "sm_pc_ok p \<longleftrightarrow> True"

definition sm_inv :: "Semaphore \<Rightarrow> bool" where
  "sm_inv s \<longleftrightarrow> (\<exists>v. sm_level s v) \<and> (\<forall>t. sm_pc_ok (sm_pc s t))"

definition sm_asleep :: "Semaphore \<Rightarrow> nat \<Rightarrow> bool" where "sm_asleep s t \<longleftrightarrow> sm_pc s t = SwSleep"
definition sm_blocked :: "Semaphore \<Rightarrow> nat \<Rightarrow> bool" where "sm_blocked s t \<longleftrightarrow> sm_count s = enc (- 1)"
definition sm_waker :: "Semaphore \<Rightarrow> nat \<Rightarrow> bool" where "sm_waker s t \<longleftrightarrow> sm_pc s t = SpWake"

lemma done_return [simp]:
  "done_ops f (sm_return t g e s) = done_ops f s + of_bool (g = f \<and> e = ESuccess)"
  "done_ops f (sm_goto t p s) = done_ops f s" "done_ops f (s\<lparr>sm_count := c\<rparr>) = done_ops f s"
  "done_ops f (s\<lparr>sm_posts := n\<rparr>) = done_ops f s" "done_ops f (s\<lparr>sm_pc := pc\<rparr>) = done_ops f s"
  by (simp_all add: done_ops_def sm_return_def sm_goto_def)

lemma sm_fields [simp]:
  "sm_count (sm_goto t p s) = sm_count s" "sm_count (sm_return t f e s) = sm_count s"
  "sm_initial (sm_goto t p s) = sm_initial s" "sm_initial (sm_return t f e s) = sm_initial s"
  "sm_posts (sm_goto t p s) = sm_posts s" "sm_posts (sm_return t f e s) = sm_posts s"
  "sm_pc (sm_goto t p s) = (sm_pc s)(t := p)" "sm_pc (sm_return t f e s) = (sm_pc s)(t := SmIdle)"
  by (simp_all add: sm_goto_def sm_return_def)

lemma level_goto [simp]: "sm_level (sm_goto t p s) = sm_level s" "sm_level (s\<lparr>sm_pc := pc\<rparr>) = sm_level s"
  by (auto simp: sm_level_def fun_eq_iff)

lemma level_return: "e \<noteq> ESuccess \<or> f = SmPost \<Longrightarrow> sm_level (sm_return t f e s) = sm_level s"
  by (auto simp: sm_level_def fun_eq_iff)

lemma level_value: "sm_level s v \<Longrightarrow> SemValue (sm_count s) = v"
  by (simp add: sm_level_def SemValue_enc)

lemma sm_local_inv:
  assumes "sm_inv s"
  shows "sm_inv (dec_loop t v s)" "sm_inv (inc_loop t v s)" "e \<noteq> ESuccess \<or> f = SmPost \<Longrightarrow> sm_inv (sm_return t f e s)"
    "sm_pc_ok p \<Longrightarrow> sm_inv (sm_goto t p s)"
  using assms by (simp_all add: sm_inv_def dec_loop_def inc_loop_def Let_def level_return)

lemma woken_ok [simp]: "sm_pc_ok (sm_woken p) = sm_pc_ok p"
  by (cases p) simp_all

lemma sm_wake_inv: "sm_inv s \<Longrightarrow> sm_inv (s\<lparr>sm_pc := sm_woken \<circ> sm_pc s\<rparr>)"
  by (simp add: sm_inv_def)

text \<open>The two exchanges.\<close>

lemma take_inv:
  assumes "sm_inv s" "sm_pc s t = SwCas old" "sm_count s = old" "s' = s\<lparr>sm_count := (old - 2) AND enc (- 1)\<rparr>"
  shows "if SemValue old > 0 then sm_inv (sm_return t SmWait ESuccess s') else sm_inv (sm_goto t SwFutex s')"
proof -
  obtain v where v: "sm_level s v" and pcs: "\<forall>t. sm_pc_ok (sm_pc s t)" using assms(1) unfolding sm_inv_def by blast
  have sv: "SemValue old = v" using level_value [OF v] assms(3) by simp
  have "0 \<le> v" using pcs [rule_format, of t] assms(2) sv by simp
  then have "if v > 0 then sm_level (sm_return t SmWait ESuccess s') (v - 1) else sm_level s' (v - 1)"
    using v assms(3,4) by (simp add: sm_level_def enc_arith enc_even)
  then show ?thesis using pcs assms(4) sv unfolding sm_inv_def by (auto split: if_splits)
qed

lemma post_inv:
  assumes "sm_inv s" "sm_pc s t = SpCas old new" "sm_count s = old" "SemValue old < 2 ^ 30 - 1"
  shows "sm_inv (s\<lparr>sm_count := new, sm_posts := sm_posts s + 1\<rparr>)"
proof -
  obtain v where v: "sm_level s v" and pcs: "\<forall>t. sm_pc_ok (sm_pc s t)" using assms(1) unfolding sm_inv_def by blast
  have sv: "SemValue old = v" using level_value [OF v] assms(3) by simp
  have "new = enc (max v 0 + 1)"
    using pcs [rule_format, of t] assms(2,3) sv v by (auto simp: sm_level_def enc_arith enc_even max_def)
  then have "sm_level (s\<lparr>sm_count := new, sm_posts := sm_posts s + 1\<rparr>) (max v 0 + 1)"
    using v assms(4) sv by (simp add: sm_level_def)
  then show ?thesis using pcs unfolding sm_inv_def by auto
qed

lemma sm_step_inv: "sm_inv s \<Longrightarrow> sm_admits s x \<Longrightarrow> sm_inv (sm_step s x)"
proof (cases x)
  case (SmStep t weak)
  assume inv: "sm_inv s" and ok: "sm_admits s x"
  show ?thesis
    using SmStep ok inv take_inv [OF inv, of t] post_inv [OF inv, of t] sm_wake_inv [OF inv]
    by (cases "sm_pc s t") (auto simp: Let_def intro!: sm_local_inv)
qed (auto simp: sm_call_def sm_inv_def level_return split: SmOp.split)

section \<open>Sleepers\<close>

lemma sm_other:
  assumes "u \<noteq> t"
  shows "sm_pc (sm_thread u weak p s) t = (if p = SpWake then sm_woken (sm_pc s t) else sm_pc s t)"
    "sm_pc (sm_call u f null s) t = sm_pc s t"
  using assms by (cases p; simp add: dec_loop_def inc_loop_def Let_def sm_call_def)+

lemma sm_awake: "sm_woken p \<noteq> SwSleep"
  by (cases p) simp_all

lemmas sm_sleep_defs = sm_asleep_def sm_blocked_def sm_waker_def

lemma sm_falls_asleep: "sm_inv s \<Longrightarrow> \<not> sm_asleep s t \<Longrightarrow> sm_asleep (sm_step s x) t \<Longrightarrow> sm_blocked (sm_step s x) t"
proof (cases x)
  case (SmStep u weak)
  assume inv: "sm_inv s" and a: "\<not> sm_asleep s t" "sm_asleep (sm_step s x) t"
  then have "u = t" using SmStep sm_other(1) [of u t weak "sm_pc s u" s] sm_awake
    unfolding sm_asleep_def by (metis sm_step.simps(2))
  then show ?thesis using a SmStep
    by (cases "sm_pc s t") (auto simp: sm_sleep_defs dec_loop_def inc_loop_def Let_def split: if_splits)
qed (auto simp: sm_sleep_defs sm_call_def sm_awake split: if_splits SmOp.splits)

text \<open>The count leaves -1 only by a post, which wakes the sleepers.\<close>

lemma sm_unblocks:
  assumes inv: "sm_inv s" and b: "sm_blocked s t"
  shows "sm_blocked (sm_step s x) t \<or> (\<exists>u. sm_waker (sm_step s x) u)"
proof (cases x)
  case (SmStep u weak)
  have "SemValue (sm_count s) = - 1" using b by (simp add: sm_blocked_def SemValue_enc)
  moreover have "sm_pc_ok (sm_pc s u)" using inv by (simp add: sm_inv_def)
  ultimately show ?thesis using b SmStep
    by (cases "sm_pc s u") (auto simp: sm_sleep_defs dec_loop_def inc_loop_def Let_def)
qed (use b in \<open>auto simp: sm_sleep_defs sm_call_def split: SmOp.splits\<close>)

lemma sm_wakes_all:
  assumes "sm_admits s x" "sm_waker s u" "sm_asleep (sm_step s x) t"
  shows "sm_waker (sm_step s x) u"
proof (cases x)
  case (SmStep v weak)
  show ?thesis
  proof (cases "v = u")
    case True
    then show ?thesis using assms SmStep sm_awake by (auto simp: sm_sleep_defs split: if_splits)
  next
    case False
    then show ?thesis using assms(2) SmStep by (simp add: sm_other sm_waker_def)
  qed
qed (use assms in \<open>auto simp: sm_sleep_defs sm_call_def\<close>)

interpretation sm_futex: futex_word sm_step sm_admits sm_inv sm_asleep sm_blocked sm_waker
  by unfold_locales (use sm_step_inv sm_falls_asleep sm_unblocks sm_wakes_all in metis)+

lemma sem_init_inv:
  assumes "sem_init null shared v = (e, Some s)" "uint v < 2 ^ 30"
  shows "sm_inv s \<and> (\<forall>t. \<not> sm_asleep s t)"
proof -
  have s: "s = \<lparr>sm_count = SemEncode v, sm_pc = \<lambda>_. SmIdle, sm_returns = [], sm_initial = unat v, sm_posts = 0\<rparr>"
    using assms(1) by (auto simp: sem_init_def split: if_splits)
  moreover have "- 1 \<le> uint v" using unsigned_greater_eq [of v, where ?'a = int] by linarith
  ultimately have "sm_level s (uint v)" using assms(2) by (simp add: sm_level_def SemEncode_enc done_ops_def)
  then show ?thesis using s by (auto simp: sm_inv_def sm_asleep_def)
qed

lemma wait_solo:
  assumes "sm_level s v" "0 < v" "sm_pc s t \<in> {SwLoad, SwFutex} \<union> range SwCas" "sm_pc_ok (sm_pc s t)"
  shows "done_ops SmWait (run_ops sm_step s (replicate 3 (SmStep t False))) = done_ops SmWait s + 1"
proof -
  have "sm_count s \<noteq> enc (- 1)" using assms(1,2) level_value [OF assms(1)] SemValue_enc [of "- 1"] by auto
  moreover have "replicate 3 x = [x, x, x]" for x :: SmEvent by (simp add: numeral_3_eq_3)
  ultimately show ?thesis using assms level_value [OF assms(1)]
    by (auto simp: dec_loop_def Let_def)
qed

section \<open>Properties\<close>

fun waiting :: "SmPc \<Rightarrow> bool" where
  "waiting SwLoad = True" | "waiting (SwCas _) = True" | "waiting SwFutex = True" | "waiting SwSleep = True"
| "waiting _ = False"

text \<open>
  C22. Semaphores neither lose nor invent permits: whatever the interleaving, as long as the count stays below its
  limit, the initial count and the posts that have taken effect are the completed waits plus the count (-1 counting
  as zero); a thread sleeps only when there is no permit or a post is about to wake it; and with a permit and no
  wake-up under way a waiting thread that runs alone takes the permit within three steps.
\<close>

theorem semaphore_conserves:
  assumes "sem_init null shared v = (e, Some s0)" "uint v < 2 ^ 30"
    and "admitted sm_step sm_admits s0 xs" "s = run_ops sm_step s0 xs"
  shows "int (sm_initial s + sm_posts s) = int (done_ops SmWait s) + max (SemValue (sm_count s)) 0 \<and>
    (if sm_asleep s t then SemValue (sm_count s) = - 1 \<or> (\<exists>u. sm_waker s u) else True) \<and>
    (if waiting (sm_pc s t) \<and> SemValue (sm_count s) > 0 \<and> (\<forall>u. \<not> sm_waker s u)
     then done_ops SmWait (run_ops sm_step s (replicate 3 (SmStep t False))) = done_ops SmWait s + 1 else True)"
proof -
  note init = sem_init_inv [OF assms(1,2)]
  have "sm_inv s" unfolding assms(4) using init assms(3) by (intro sm_futex.run_invar) simp_all
  then obtain n where n: "sm_level s n" and ok: "sm_pc_ok (sm_pc s t)" unfolding sm_inv_def by blast
  note nv = level_value [OF n]
  have w: "sm_asleep s t \<Longrightarrow> sm_blocked s t \<or> (\<exists>u. sm_waker s u)"
    unfolding assms(4) using init assms(3) by (intro sm_futex.no_lost_wakeup) auto
  have m: "SemValue (enc (- 1)) = - 1" by (simp add: SemValue_enc)
  have "done_ops SmWait (run_ops sm_step s (replicate 3 (SmStep t False))) = done_ops SmWait s + 1"
    if "waiting (sm_pc s t)" "n > 0" "\<forall>u. \<not> sm_waker s u"
  proof (rule wait_solo [OF n that(2) _ ok])
    have "\<not> sm_asleep s t" using w that nv m by (auto simp: sm_blocked_def)
    then show "sm_pc s t \<in> {SwLoad, SwFutex} \<union> range SwCas" using that(1)
      by (cases "sm_pc s t") (auto simp: sm_asleep_def)
  qed
  then show ?thesis using n nv w m by (auto simp: sm_level_def sm_blocked_def)
qed

definition sm_example :: "SmEvent list" where
  "sm_example =
     [SmCall 1 SmWait False, SmStep 1 False, SmStep 1 False, SmStep 1 False, SmCall 2 SmPost False, SmStep 2 False,
      SmStep 2 False, SmStep 2 False]"

lemma sem_example_run:
  "admitted sm_step sm_admits (the (snd (sem_init False 0 0))) sm_example \<and>
   (let s = run_ops sm_step (the (snd (sem_init False 0 0))) sm_example
    in waiting (sm_pc s 1) \<and> SemValue (sm_count s) > 0 \<and> (\<forall>u. \<not> sm_waker s u) \<and> done_ops SmWait s = 0)"
  by (simp add: sm_example_def sem_init_def SEM_VALUE_MAX_def SemEncode_def kSemValueShift_def sm_call_def dec_loop_def
      inc_loop_def SemValue_def Let_def sm_waker_def done_ops_def sm_return_def sm_goto_def enc_def)

theorem semaphore_conserves_witness:
  "let s = run_ops sm_step (the (snd (sem_init False 0 0))) sm_example
   in done_ops SmWait (run_ops sm_step s (replicate 3 (SmStep 1 False))) = 1"
proof -
  have "sem_init False 0 0 = (ESuccess, Some (the (snd (sem_init False 0 0))))" by (simp add: sem_init_def SEM_VALUE_MAX_def)
  then show ?thesis
    using semaphore_conserves [of False 0 0 ESuccess "the (snd (sem_init False 0 0))" sm_example _ 1] sem_example_run
    by (simp add: Let_def)
qed

text \<open>The limit: which values a count word can have, and what adding one does to it.\<close>

lemma SemValue_bounds: "- (2 ^ 30) \<le> SemValue c" "SemValue c < 2 ^ 30"
proof -
  have "- (2 ^ 31) \<le> sint c" "sint c < 2 ^ 31" using sint_ge [of c] sint_lt [of c] by simp_all
  then show "- (2 ^ 30) \<le> SemValue c" "SemValue c < 2 ^ 30"
    by (simp_all add: SemValue_def kSemValueShift_def drop_bit_eq_div)
qed

lemma never_maximal: "SemValue c \<noteq> SEM_VALUE_MAX"
  using SemValue_bounds [of c] by (simp add: SEM_VALUE_MAX_def)

definition wrapped :: "int \<Rightarrow> int" where
  "wrapped v = (if v < 2 ^ 30 then v else v - 2 ^ 31)"

lemma SemValue_wrapped:
  assumes "- (2 ^ 30) \<le> v" "v < 2 ^ 31"
  shows "SemValue (enc v) = wrapped v"
proof (cases "v < 2 ^ 30")
  case False
  have "enc v = enc (v - 2 ^ 31)" by (simp add: enc_def right_diff_distrib)
  then show ?thesis using False assms SemValue_enc [of "v - 2 ^ 31"] by (simp add: wrapped_def)
qed (use assms SemValue_enc in \<open>simp add: wrapped_def\<close>)

lemma SemValue_next: "SemValue ((c + 2) AND enc (- 1)) = wrapped (SemValue c + 1)"
proof -
  define v where "v = SemValue c"
  define b where "b = sint c mod 2"
  have "sint c = 2 * v + b" by (simp add: v_def b_def SemValue_def kSemValueShift_def drop_bit_eq_div)
  then have "c = word_of_int (2 * v + b)" using of_int_sint [of c, where ?'a = u32] scast_id [of c] by simp
  then have "c + 2 = word_of_int (2 * (v + 1) + b)" by (simp add: algebra_simps)
  moreover have "(2 * (v + 1) + b) AND - 2 = 2 * (v + 1)"
  proof -
    have "0 \<le> b" "b < 2" by (simp_all add: b_def)
    then have "(2 * (v + 1) + b) div 2 = v + 1" by presburger
    then show ?thesis by (subst and_rec) simp
  qed
  moreover have "word_of_int x AND enc (- 1) = word_of_int (x AND - 2)" for x
    by (simp add: enc_def of_int_and_eq)
  ultimately have "(c + 2) AND enc (- 1) = enc (v + 1)" unfolding enc_def [of "v + 1"] by (simp only:)
  then show ?thesis using SemValue_bounds [of c] by (simp add: SemValue_wrapped v_def)
qed

text \<open>No call ever reports an overflow.\<close>

definition no_overflow :: "Semaphore \<Rightarrow> bool" where
  "no_overflow s \<longleftrightarrow> (\<forall>t f. (t, f, EOVERFLOW) \<notin> set (sm_returns s))"

lemma no_overflow_step: "no_overflow s \<Longrightarrow> no_overflow (sm_step s x)"
proof (cases x)
  case (SmStep t weak)
  assume "no_overflow s"
  then show ?thesis using SmStep
    by (cases "sm_pc s t") (auto simp: no_overflow_def sm_return_def sm_goto_def dec_loop_def inc_loop_def never_maximal Let_def)
qed (auto simp: no_overflow_def sm_return_def sm_goto_def sm_call_def)

interpretation sm_results: contracted_component sm_step "\<lambda>_ _. True" no_overflow
  by unfold_locales (rule no_overflow_step)

text \<open>
  C29. The limit is not enforced: \<open>SEM_VALUE_MAX\<close> of the host is twice the largest count the word can hold. For
  every initial count that \<open>sem_init\<close> accepts the count reads back as given below 2 to the 30, and as that count less
  2 to the 31, a negative number, from there on. In every run, whatever the interleaving and the number of posts, no
  call ever reports \<open>EOVERFLOW\<close>; and in every state a post that runs alone reports success and adds one permit to the
  count (to 0 if it was negative), except at the largest count, 2 to the 30 less one, which it turns into minus 2 to
  the 30.
\<close>

theorem semaphore_limit_unchecked:
  assumes "sem_init null shared v0 = (e, Some s0)" "s = run_ops sm_step s0 xs" "sm_pc s t = SmIdle"
    and "s' = run_ops sm_step s (SmCall t SmPost False # replicate 3 (SmStep t False))"
  shows "SemValue (sm_count s0) = (if uint v0 < 2 ^ 30 then uint v0 else uint v0 - 2 ^ 31) \<and>
    (\<forall>u f. (u, f, EOVERFLOW) \<notin> set (sm_returns s)) \<and>
    sm_returns s' = sm_returns s @ [(t, SmPost, ESuccess)] \<and>
    SemValue (sm_count s') =
      (if SemValue (sm_count s) = 2 ^ 30 - 1 then - (2 ^ 30) else max (SemValue (sm_count s)) 0 + 1)"
proof -
  have s0: "sm_count s0 = enc (uint v0)" "uint v0 < 2 ^ 31" "sm_returns s0 = []"
    using assms(1) by (auto simp: sem_init_def SemEncode_enc SEM_VALUE_MAX_def split: if_splits)
  have "- (2 ^ 30) \<le> uint v0" by (rule order_trans [OF _ unsigned_greater_eq]) simp
  then have init: "SemValue (sm_count s0) = wrapped (uint v0)" using s0 SemValue_wrapped by simp
  have all: "admitted step (\<lambda>_ _. True) r ops" for step :: "Semaphore \<Rightarrow> SmEvent \<Rightarrow> Semaphore" and r ops
    by (induction ops arbitrary: r) simp_all
  have "no_overflow s0" by (simp add: no_overflow_def s0)
  then have results: "no_overflow s" unfolding assms(2) by (rule sm_results.run_invar [OF _ all])
  let ?v = "SemValue (sm_count s)"
  have three: "replicate 3 x = [x, x, x]" for x :: SmEvent by (simp add: numeral_3_eq_3)
  have one: "SemValue 2 = 1" using SemValue_enc [of 1] by (simp add: enc_arith)
  have post: "sm_returns s' = sm_returns s @ [(t, SmPost, ESuccess)] \<and>
      SemValue (sm_count s') = (if ?v < 0 then 1 else wrapped (?v + 1))"
    unfolding assms(4) three
    by (simp add: sm_call_def inc_loop_def never_maximal Let_def SemValue_next one sm_return_def sm_goto_def)
  have "(if ?v < 0 then 1 else wrapped (?v + 1)) = (if ?v = 2 ^ 30 - 1 then - (2 ^ 30) else max ?v 0 + 1)"
    using SemValue_bounds [of "sm_count s"] by (auto simp: wrapped_def)
  with init results post show ?thesis by (simp add: wrapped_def no_overflow_def)
qed

text \<open>At the largest count.\<close>

theorem semaphore_limit_unchecked_witness:
  "let s0 = the (snd (sem_init False 0 0x3fffffff));
       s1 = run_ops sm_step s0 (SmCall 1 SmPost False # replicate 3 (SmStep 1 False))
   in SemValue (sm_count s0) = 2 ^ 30 - 1 \<and> sm_returns s1 = [(1, SmPost, ESuccess)] \<and> SemValue (sm_count s1) = - (2 ^ 30)"
proof -
  let ?s0 = "the (snd (sem_init False 0 0x3fffffff))"
  have i: "sem_init False 0 0x3fffffff = (ESuccess, Some ?s0)" "sm_pc ?s0 1 = SmIdle" "sm_returns ?s0 = []"
    by (simp_all add: sem_init_def SEM_VALUE_MAX_def)
  then show ?thesis
    using semaphore_limit_unchecked [OF i(1), of ?s0 "[]" 1, OF _ i(2) refl] by (simp add: Let_def)
qed

end
