(* ===== verification/Apk_Signature.thy ===== *)
theory Apk_Signature
  imports Android_Manifest "HOL-Library.Char_ord" "HOL-Library.List_Lexorder"
begin

text \<open>
  The verifier of APK signatures, schemes v2 and v3 (\<open>src/update/apk_signature.cc\<close>). The file is untrusted: a
  pointer into the mapping is an offset, and every read of the mapping is a partial read. A function that returns
  \<open>false\<close> with an error text is \<open>Inl\<close> of that text, which is empty where the code sets none. OpenSSL is the
  parameter \<open>Openssl\<close>. Offsets and sizes are natural numbers; they are bounded by the size of the file, and the one
  64-bit size in it is compared before it is added.
\<close>

section \<open>OpenSSL and the file\<close>

datatype EVP_MD = EVP_sha256 | EVP_sha512

fun EVP_MD_get_size :: "EVP_MD \<Rightarrow> nat" where
  "EVP_MD_get_size EVP_sha256 = 32"
| "EVP_MD_get_size EVP_sha512 = 64"

text \<open>
  A digest is \<open>None\<close> when a call on its context fails. The decoders return the object and how many bytes they have
  read. \<open>EVP_DigestVerify\<close> gets the digest, whether the padding is PSS, the key, the signature and the data.
\<close>

record ('k, 'c) Openssl =
  evp_digest :: "EVP_MD \<Rightarrow> bytes \<Rightarrow> bytes option"
  d2i_PUBKEY :: "bytes \<Rightarrow> ('k \<times> nat) option"
  d2i_X509 :: "bytes \<Rightarrow> ('c \<times> nat) option"
  X509_get_pubkey :: "'c \<Rightarrow> 'k option"
  EVP_PKEY_eq :: "'k \<Rightarrow> 'k \<Rightarrow> bool"
  EVP_DigestVerifyInit :: "EVP_MD \<Rightarrow> 'k \<Rightarrow> bool"
  configure_pss :: "EVP_MD \<Rightarrow> 'k \<Rightarrow> bool"
  EVP_DigestVerify :: "EVP_MD \<Rightarrow> bool \<Rightarrow> 'k \<Rightarrow> bytes \<Rightarrow> bytes \<Rightarrow> bool"

record ApkFile =
  af_opens :: bool
  af_regular :: bool
  af_maps :: bool
  af_bytes :: bytes

type_synonym 'a checked = "(string + 'a) outcome"

definition try_then :: "'a checked \<Rightarrow> ('a \<Rightarrow> 'b checked) \<Rightarrow> 'b checked" where
  "try_then m f = and_then m (\<lambda>r. case r of Inl e \<Rightarrow> Got (Inl e) | Inr x \<Rightarrow> f x)"

definition fail :: "string \<Rightarrow> 'a checked" where "fail e = Got (Inl e)"

definition MapFile :: "ApkFile \<Rightarrow> string + bytes" where
  "MapFile f =
     (if \<not> af_opens f then Inl ''cannot open APK for signature verification''
      else if \<not> af_regular f \<or> length (af_bytes f) < 32 then Inl ''APK is not a bounded regular file''
      else if \<not> af_maps f then Inl ''cannot map APK for signature verification''
      else Inr (af_bytes f))"

section \<open>Reads\<close>

definition kZipEocdSignature :: u32 where "kZipEocdSignature = 0x06054b50"
definition kV2BlockId :: u32 where "kV2BlockId = 0x7109871a"
definition kV3BlockId :: u32 where "kV3BlockId = 0xf05368c0"
definition kV31BlockId :: u32 where "kV31BlockId = 0x1b93ad61"
definition kChunkBytes :: nat where "kChunkBytes = 1024 * 1024"
definition kSigningMagic :: bytes where "kSigningMagic = ascii ''APK Sig Block 42''"

definition U32 :: "bytes \<Rightarrow> nat \<Rightarrow> u32 outcome" where
  "U32 m p =
     and_then (byte_at m p) (\<lambda>b0. and_then (byte_at m (p + 1)) (\<lambda>b1. and_then (byte_at m (p + 2)) (\<lambda>b2.
     and_then (byte_at m (p + 3)) (\<lambda>b3. Got (le32 b0 b1 b2 b3)))))"

definition U64 :: "bytes \<Rightarrow> nat \<Rightarrow> u64 outcome" where
  "U64 m p = and_then (U32 m p) (\<lambda>lo. and_then (U32 m (p + 4)) (\<lambda>hi. Got (ucast lo OR push_bit 32 (ucast hi))))"

definition PutU32 :: "u32 \<Rightarrow> bytes" where
  "PutU32 v = [ucast v, ucast (drop_bit 8 v), ucast (drop_bit 16 v), ucast (drop_bit 24 v)]"

text \<open>The bytes a library call reads through a pointer and a size.\<close>

definition region :: "bytes \<Rightarrow> nat \<Rightarrow> nat \<Rightarrow> bytes outcome" where
  "region m p n = (if p + n \<le> length m then Got (take n (drop p m)) else OutOfBounds)"

record Span =
  sp_data :: nat
  sp_size :: nat

definition span_bytes :: "bytes \<Rightarrow> Span \<Rightarrow> bytes outcome" where
  "span_bytes m s = region m (sp_data s) (sp_size s)"

record Reader =
  rd_span :: Span
  rd_position :: nat

definition Reader_new :: "Span \<Rightarrow> Reader" where "Reader_new s = \<lparr>rd_span = s, rd_position = 0\<rparr>"

definition remaining :: "Reader \<Rightarrow> nat" where "remaining r = sp_size (rd_span r) - rd_position r"

definition U32Value :: "bytes \<Rightarrow> Reader \<Rightarrow> (u32 \<times> Reader) outcome" where
  "U32Value m r =
     (if remaining r < 4 then Refused
      else and_then (U32 m (sp_data (rd_span r) + rd_position r)) (\<lambda>v. Got (v, r\<lparr>rd_position := rd_position r + 4\<rparr>)))"

definition LengthPrefixed :: "bytes \<Rightarrow> Reader \<Rightarrow> (Span \<times> Reader) outcome" where
  "LengthPrefixed m r =
     and_then (U32Value m r) (\<lambda>(size, r).
       if unat size > remaining r then Refused
       else Got (\<lparr>sp_data = sp_data (rd_span r) + rd_position r, sp_size = unat size\<rparr>, r\<lparr>rd_position := rd_position r + unat size\<rparr>))"

section \<open>The signing block\<close>

definition eocd_at :: "bytes \<Rightarrow> nat \<Rightarrow> bool outcome" where
  "eocd_at m position =
     and_then (U32 m position) (\<lambda>v.
       if v \<noteq> kZipEocdSignature then Got False
       else and_then (byte_at m (position + 20)) (\<lambda>b0. and_then (byte_at m (position + 21)) (\<lambda>b1.
              Got (position + 22 + unat (le16 b0 b1) = length m))))"

fun find_eocd :: "bytes \<Rightarrow> nat list \<Rightarrow> nat checked" where
  "find_eocd m [] = fail ''APK has no valid ZIP end record''"
| "find_eocd m (position # ps) = and_then (eocd_at m position) (\<lambda>found. if found then Got (Inr position) else find_eocd m ps)"

definition FindEocd :: "bytes \<Rightarrow> nat checked" where
  "FindEocd m =
     (let minimum = (if length m > 65557 then length m - 65557 else 0)
      in find_eocd m (rev [minimum..<length m - 21]))"

record SigningBlock =
  sb_v2 :: "Span option"
  sb_v3 :: "Span option"
  sb_v31 :: "Span option"
  sb_begin :: nat
  sb_central_directory :: nat
  sb_eocd :: nat

text \<open>The value of a pair goes to the slot of its id, unless the slot is taken; other ids are skipped.\<close>

definition select_pair :: "u32 \<Rightarrow> Span \<Rightarrow> SigningBlock \<Rightarrow> SigningBlock option" where
  "select_pair i v block =
     (if i = kV31BlockId then (if sb_v31 block \<noteq> None then None else Some (block\<lparr>sb_v31 := Some v\<rparr>))
      else if i = kV3BlockId then (if sb_v3 block \<noteq> None then None else Some (block\<lparr>sb_v3 := Some v\<rparr>))
      else if i = kV2BlockId then (if sb_v2 block \<noteq> None then None else Some (block\<lparr>sb_v2 := Some v\<rparr>))
      else Some block)"

function parse_pairs :: "bytes \<Rightarrow> nat \<Rightarrow> nat \<Rightarrow> SigningBlock \<Rightarrow> SigningBlock checked" where
  "parse_pairs m cursor pairs_end block =
     (if cursor < pairs_end
      then if pairs_end - cursor < 12 then fail ''APK signing block pair is truncated''
      else and_then (U64 m cursor) (\<lambda>pair_size.
        let cursor = cursor + 8
        in if pair_size < 4 \<or> unat pair_size > pairs_end - cursor then fail ''APK signing block pair has an invalid size''
           else and_then (U32 m cursor) (\<lambda>i.
             case select_pair i \<lparr>sp_data = cursor + 4, sp_size = unat (pair_size - 4)\<rparr> block of
               None \<Rightarrow> fail ''APK contains a duplicate signature scheme block''
             | Some block \<Rightarrow> parse_pairs m (cursor + unat pair_size) pairs_end block))
      else if cursor \<noteq> pairs_end \<or> (sb_v2 block = None \<and> sb_v3 block = None \<and> sb_v31 block = None)
      then fail ''APK has no supported signing scheme''
      else Got (Inr block))"
  by pat_completeness auto
termination
  by (relation "measure (\<lambda>(_, cursor, pairs_end, _). pairs_end - cursor)") auto

declare parse_pairs.simps [simp del]

definition ParseSigningBlock :: "bytes \<Rightarrow> SigningBlock checked" where
  "ParseSigningBlock m =
     try_then (FindEocd m) (\<lambda>eocd. and_then (U32 m (eocd + 16)) (\<lambda>cd.
       let central_directory = unat cd
       in if central_directory < 32 \<or> central_directory > eocd then fail ''APK has no Signature Scheme v2/v3 block''
       else and_then (region m (central_directory - 16) 16) (\<lambda>magic.
         if magic \<noteq> kSigningMagic then fail ''APK has no Signature Scheme v2/v3 block''
         else and_then (U64 m (central_directory - 24)) (\<lambda>footer_size.
           if footer_size < 24 \<or> unat footer_size > central_directory - 8 \<or> unat footer_size > 2 ^ 64 - 1 - 8
           then fail ''APK signing block size is invalid''
           else let start = central_directory - (unat footer_size + 8)
           in and_then (U64 m start) (\<lambda>header_size.
             if header_size \<noteq> footer_size then fail ''APK signing block size headers disagree''
             else parse_pairs m (start + 8) (central_directory - 24)
                    \<lparr>sb_v2 = None, sb_v3 = None, sb_v31 = None, sb_begin = start,
                     sb_central_directory = central_directory, sb_eocd = eocd\<rparr>)))))"

section \<open>Digests\<close>

record SignatureAlgorithm =
  sa_id :: u32
  sa_digest :: EVP_MD
  sa_pss :: bool

definition SupportedAlgorithm :: "u32 \<Rightarrow> SignatureAlgorithm option" where
  "SupportedAlgorithm i =
     (if i = 0x0101 then Some \<lparr>sa_id = i, sa_digest = EVP_sha256, sa_pss = True\<rparr>
      else if i = 0x0102 then Some \<lparr>sa_id = i, sa_digest = EVP_sha512, sa_pss = True\<rparr>
      else if i = 0x0103 then Some \<lparr>sa_id = i, sa_digest = EVP_sha256, sa_pss = False\<rparr>
      else if i = 0x0104 then Some \<lparr>sa_id = i, sa_digest = EVP_sha512, sa_pss = False\<rparr>
      else if i = 0x0201 then Some \<lparr>sa_id = i, sa_digest = EVP_sha256, sa_pss = False\<rparr>
      else if i = 0x0202 then Some \<lparr>sa_id = i, sa_digest = EVP_sha512, sa_pss = False\<rparr>
      else if i = 0x0301 then Some \<lparr>sa_id = i, sa_digest = EVP_sha256, sa_pss = False\<rparr>
      else None)"

definition Hex :: "bytes \<Rightarrow> string" where
  "Hex bs = concat (map (\<lambda>b. [''0123456789abcdef'' ! unat (drop_bit 4 b), ''0123456789abcdef'' ! unat (b AND 0x0f)]) bs)"

definition DigestParts :: "('k, 'c) Openssl \<Rightarrow> EVP_MD \<Rightarrow> bytes list \<Rightarrow> bytes option" where
  "DigestParts ssl md parts =
     (case evp_digest ssl md (concat parts) of
        None \<Rightarrow> None
      | Some d \<Rightarrow> if length d = EVP_MD_get_size md then Some d else None)"

text \<open>The digests of the chunks of a section, appended to the ones before.\<close>

function chunk_loop :: "('k, 'c) Openssl \<Rightarrow> EVP_MD \<Rightarrow> bytes \<Rightarrow> nat \<Rightarrow> bytes \<Rightarrow> bytes checked" where
  "chunk_loop ssl md section offset chunk_digests =
     (if offset < length section
      then let n = min kChunkBytes (length section - offset)
           in and_then (region section offset n) (\<lambda>data.
                case DigestParts ssl md [0xa5 # PutU32 (of_nat n), data] of
                  None \<Rightarrow> fail ''cannot hash APK content chunk''
                | Some chunk \<Rightarrow> chunk_loop ssl md section (offset + kChunkBytes) (chunk_digests @ chunk))
      else Got (Inr chunk_digests))"
  by pat_completeness auto
termination
  by (relation "measure (\<lambda>(_, _, section, offset, _). length section - offset)") (auto simp: kChunkBytes_def)

declare chunk_loop.simps [simp del]

fun section_loop :: "('k, 'c) Openssl \<Rightarrow> EVP_MD \<Rightarrow> bytes list \<Rightarrow> bytes \<Rightarrow> bytes checked" where
  "section_loop ssl md [] chunk_digests = Got (Inr chunk_digests)"
| "section_loop ssl md (section # rest) chunk_digests =
     try_then (chunk_loop ssl md section 0 chunk_digests) (section_loop ssl md rest)"

definition digest_sections :: "('k, 'c) Openssl \<Rightarrow> EVP_MD \<Rightarrow> bytes list \<Rightarrow> bytes checked" where
  "digest_sections ssl md sections =
     (let chunk_count = sum_list (map (\<lambda>section. (length section + kChunkBytes - 1) div kChunkBytes) sections)
      in if chunk_count = 0 \<or> chunk_count > 0xffffffff then fail ''APK content chunk count is invalid''
         else try_then (section_loop ssl md sections []) (\<lambda>chunk_digests.
           case DigestParts ssl md [0x5a # PutU32 (of_nat chunk_count), chunk_digests] of
             None \<Rightarrow> fail ''cannot hash APK content digest list''
           | Some d \<Rightarrow> Got (Inr d)))"

definition patched_eocd :: "SigningBlock \<Rightarrow> bytes \<Rightarrow> bytes" where
  "patched_eocd block eocd = take 16 eocd @ PutU32 (of_nat (sb_begin block)) @ drop 20 eocd"

definition ComputeContentDigest :: "('k, 'c) Openssl \<Rightarrow> bytes \<Rightarrow> SigningBlock \<Rightarrow> EVP_MD \<Rightarrow> bytes checked" where
  "ComputeContentDigest ssl m block md =
     and_then (region m (sb_eocd block) (length m - sb_eocd block)) (\<lambda>eocd.
       if length eocd < 20 \<or> sb_begin block > 0xffffffff then fail ''APK is too large for Signature Scheme v2/v3''
       else and_then (region m 0 (sb_begin block)) (\<lambda>contents.
         and_then (region m (sb_central_directory block) (sb_eocd block - sb_central_directory block)) (\<lambda>directory.
           digest_sections ssl md [contents, directory, patched_eocd block eocd])))"

section \<open>Signers\<close>

record IdBytes =
  ib_id :: u32
  ib_bytes :: Span

text \<open>The fields of one record; \<open>Refused\<close> when one is missing or bytes are left over.\<close>

definition id_record :: "bytes \<Rightarrow> Span \<Rightarrow> IdBytes outcome" where
  "id_record m rec =
     and_then (U32Value m (Reader_new rec)) (\<lambda>(i, fields). and_then (LengthPrefixed m fields) (\<lambda>(bs, fields).
       require (remaining fields = 0) (Got \<lparr>ib_id = i, ib_bytes = bs\<rparr>)))"

lemma U32Value_remaining: "U32Value m r = Got (v, r') \<Longrightarrow> remaining r' < remaining r"
  by (auto simp: U32Value_def and_then_Got remaining_def split: if_splits)

lemma LengthPrefixed_remaining: "LengthPrefixed m r = Got (s, r') \<Longrightarrow> remaining r' < remaining r"
  by (auto simp: LengthPrefixed_def and_then_Got remaining_def dest!: U32Value_remaining split: if_splits)

function ParseIdSequence :: "bytes \<Rightarrow> Reader \<Rightarrow> IdBytes list \<Rightarrow> IdBytes list checked" where
  "ParseIdSequence m records vs =
     (if remaining records > 0
      then case LengthPrefixed m records of
             OutOfBounds \<Rightarrow> OutOfBounds
           | Refused \<Rightarrow> fail ''APK signer record is malformed''
           | Got (rec, records) \<Rightarrow>
               or_else (id_record m rec) (Inl ''APK signer algorithm record is malformed'')
                 (\<lambda>v. ParseIdSequence m records (vs @ [v]))
      else if vs = [] then fail [] else Got (Inr vs))"
  by pat_completeness auto
termination
  by (relation "measure (\<lambda>(_, records, _). remaining records)") (auto dest: LengthPrefixed_remaining)

declare ParseIdSequence.simps [simp del]

definition VerifySignedData ::
  "('k, 'c) Openssl \<Rightarrow> bytes \<Rightarrow> Span \<Rightarrow> Span \<Rightarrow> SignatureAlgorithm \<Rightarrow> 'k \<Rightarrow> unit checked" where
  "VerifySignedData ssl m signed_data signature algorithm key =
     (if \<not> EVP_DigestVerifyInit ssl (sa_digest algorithm) key then fail ''cannot initialise APK signer verification''
      else if sa_pss algorithm \<and> \<not> configure_pss ssl (sa_digest algorithm) key
      then fail ''cannot configure APK RSA-PSS verification''
      else and_then (span_bytes m signature) (\<lambda>sig. and_then (span_bytes m signed_data) (\<lambda>data.
        if \<not> EVP_DigestVerify ssl (sa_digest algorithm) (sa_pss algorithm) key sig data
        then fail ''APK signer signature verification failed'' else Got (Inr ()))))"

fun to_string :: "nat \<Rightarrow> string" where
  "to_string n = (if n < 10 then [char_of (48 + n)] else to_string (n div 10) @ [char_of (48 + n mod 10)])"

declare to_string.simps [simp del]

text \<open>An SDK range, absent in scheme v2.\<close>

definition sdk_range :: "bytes \<Rightarrow> bool \<Rightarrow> Reader \<Rightarrow> ((u32 \<times> u32) \<times> Reader) outcome" where
  "sdk_range m v3 r =
     (if \<not> v3 then Got ((0, 0), r)
      else and_then (U32Value m r) (\<lambda>(minimum_sdk, r). and_then (U32Value m r) (\<lambda>(maximum_sdk, r).
        Got ((minimum_sdk, maximum_sdk), r))))"

text \<open>The fields of a signer: signed data, SDK range, signatures and public key.\<close>

definition signer_fields :: "bytes \<Rightarrow> bool \<Rightarrow> Span \<Rightarrow> (Span \<times> (u32 \<times> u32) \<times> Span \<times> Span) checked" where
  "signer_fields m v3 signer =
     or_else (LengthPrefixed m (Reader_new signer)) (Inl ''APK signer has no signed data'') (\<lambda>(signed_data, r).
     or_else (and_then (sdk_range m v3 r) (\<lambda>(sdk, r). require (fst sdk \<le> snd sdk) (Got (sdk, r))))
       (Inl ''APK v3 signer SDK range is invalid'') (\<lambda>(sdk, r).
     let malformed = (\<lambda>r. ''APK signer fields are malformed (signer='' @ to_string (sp_size signer) @ '', signed='' @
           to_string (sp_size signed_data) @ '', remaining='' @ to_string (remaining r) @ '')'');
         refused = (\<lambda>r. Inl (malformed (if remaining r < 4 then r else r\<lparr>rd_position := rd_position r + 4\<rparr>)))
     in or_else (LengthPrefixed m r) (refused r) (\<lambda>(signatures, r).
        or_else (LengthPrefixed m r) (refused r) (\<lambda>(public_key, r).
        if remaining r \<noteq> 0 then fail (malformed r) else Got (Inr (signed_data, sdk, signatures, public_key))))))"

text \<open>The fields of the signed data: digests and certificates.\<close>

definition signed_fields :: "bytes \<Rightarrow> bool \<Rightarrow> u32 \<times> u32 \<Rightarrow> Span \<Rightarrow> (Span \<times> Span) checked" where
  "signed_fields m v3 sdk signed_data =
     or_else (LengthPrefixed m (Reader_new signed_data)) (Inl ''APK signed-data digest list is malformed'') (\<lambda>(digests, r).
     or_else (LengthPrefixed m r) (Inl ''APK signed-data certificate list is malformed'') (\<lambda>(certificates, r).
     or_else (sdk_range m v3 r) (Inl ''APK v3 signed-data SDK range is malformed'') (\<lambda>(signed_sdk, r).
     or_else (LengthPrefixed m r) (Inl ''APK signed-data attributes are malformed'') (\<lambda>(attributes, r).
     or_else (if v3 \<or> remaining r = 0 then Got r
              else and_then (LengthPrefixed m r) (\<lambda>(reserved, r). require (sp_size reserved = 0) (Got r)))
       (Inl ''APK v2 signed-data reserved field is malformed'') (\<lambda>r.
     if remaining r \<noteq> 0 then fail (''APK signed-data has trailing fields: '' @ to_string (remaining r))
     else if v3 \<and> sdk \<noteq> signed_sdk then fail ''APK signed-data has a mismatched SDK range''
     else Got (Inr (digests, certificates)))))))"

text \<open>The first signature record with a supported algorithm and the digest record of the same algorithm.\<close>

fun select_record :: "IdBytes list \<Rightarrow> IdBytes list \<Rightarrow> (SignatureAlgorithm \<times> Span \<times> Span) option" where
  "select_record digest_records [] = None"
| "select_record digest_records (s # rest) =
     (case SupportedAlgorithm (ib_id s) of
        None \<Rightarrow> select_record digest_records rest
      | Some algorithm \<Rightarrow>
          (case find (\<lambda>d. ib_id d = sa_id algorithm) digest_records of
             None \<Rightarrow> select_record digest_records rest
           | Some d \<Rightarrow> Some (algorithm, ib_bytes s, ib_bytes d)))"

text \<open>One certificate: its fingerprint, and that its key is the signer's when it is the first.\<close>

definition certificate_step :: "('k, 'c) Openssl \<Rightarrow> bytes \<Rightarrow> 'k \<Rightarrow> bool \<Rightarrow> Span \<Rightarrow> string checked" where
  "certificate_step ssl m public_key leaf encoded =
     and_then (span_bytes m encoded) (\<lambda>bs.
       case d2i_X509 ssl bs of
         None \<Rightarrow> fail ''APK signer certificate is malformed''
       | Some (certificate, consumed) \<Rightarrow>
           if consumed \<noteq> sp_size encoded then fail ''APK signer certificate is malformed''
           else if leaf \<and> (case X509_get_pubkey ssl certificate of
                             None \<Rightarrow> True | Some key \<Rightarrow> \<not> EVP_PKEY_eq ssl key public_key)
           then fail ''APK signer public key does not match its certificate''
           else (case evp_digest ssl EVP_sha256 bs of
                   None \<Rightarrow> fail ''cannot hash APK signing certificate''
                 | Some d \<Rightarrow> if length d \<noteq> 32 then fail ''cannot hash APK signing certificate'' else Got (Inr (Hex d))))"

function certificate_loop :: "('k, 'c) Openssl \<Rightarrow> bytes \<Rightarrow> 'k \<Rightarrow> Reader \<Rightarrow> string option \<Rightarrow> string checked" where
  "certificate_loop ssl m public_key r leaf =
     (if remaining r > 0
      then case LengthPrefixed m r of
             OutOfBounds \<Rightarrow> OutOfBounds
           | Refused \<Rightarrow> fail ''APK signer certificate sequence is malformed''
           | Got (encoded, r) \<Rightarrow>
               if sp_size encoded = 0 then fail ''APK signer certificate sequence is malformed''
               else try_then (certificate_step ssl m public_key (leaf = None) encoded) (\<lambda>fingerprint.
                 certificate_loop ssl m public_key r (if leaf = None then Some fingerprint else leaf))
      else case leaf of None \<Rightarrow> fail ''APK signer has no certificate'' | Some fingerprint \<Rightarrow> Got (Inr fingerprint))"
  by pat_completeness auto
termination
  by (relation "measure (\<lambda>(_, _, _, r, _). remaining r)") (auto dest: LengthPrefixed_remaining)

declare certificate_loop.simps [simp del]

text \<open>The second half of \<open>VerifySigner\<close>: signature, contents and certificates.\<close>

definition verify_selected ::
  "('k, 'c) Openssl \<Rightarrow> bytes \<Rightarrow> SigningBlock \<Rightarrow> Span \<Rightarrow> Span \<Rightarrow> Span \<Rightarrow> SignatureAlgorithm \<times> Span \<times> Span \<Rightarrow> string checked" where
  "verify_selected ssl m block signed_data public_key_bytes certificate_sequence =
     (\<lambda>(selected, selected_signature, selected_digest).
        and_then (span_bytes m public_key_bytes) (\<lambda>key_bytes.
          case d2i_PUBKEY ssl key_bytes of
            None \<Rightarrow> fail ''APK signer public key is malformed''
          | Some (public_key, consumed) \<Rightarrow>
              if consumed \<noteq> sp_size public_key_bytes then fail ''APK signer public key is malformed''
              else try_then (VerifySignedData ssl m signed_data selected_signature selected public_key) (\<lambda>_.
                try_then (ComputeContentDigest ssl m block (sa_digest selected)) (\<lambda>calculated_digest.
                if sp_size selected_digest \<noteq> length calculated_digest then fail ''APK content digest verification failed''
                else and_then (span_bytes m selected_digest) (\<lambda>d.
                  if d \<noteq> calculated_digest then fail ''APK content digest verification failed''
                  else certificate_loop ssl m public_key (Reader_new certificate_sequence) None)))))"

definition VerifySigner :: "('k, 'c) Openssl \<Rightarrow> bytes \<Rightarrow> SigningBlock \<Rightarrow> Span \<Rightarrow> bool \<Rightarrow> string checked" where
  "VerifySigner ssl m block signer v3 =
     try_then (signer_fields m v3 signer) (\<lambda>(signed_data, sdk, signatures, public_key_bytes).
     try_then (signed_fields m v3 sdk signed_data) (\<lambda>(digests, certificate_sequence).
     try_then (ParseIdSequence m (Reader_new digests) []) (\<lambda>digest_records.
     try_then (ParseIdSequence m (Reader_new signatures) []) (\<lambda>signature_records.
     if map ib_id digest_records \<noteq> map ib_id signature_records
     then fail ''APK signer digest and signature algorithms disagree''
     else case select_record digest_records signature_records of
       None \<Rightarrow> fail ''APK signer has no supported matching signature and digest''
     | Some selected \<Rightarrow>
         verify_selected ssl m block signed_data public_key_bytes certificate_sequence selected))))"

function signer_loop ::
  "('k, 'c) Openssl \<Rightarrow> bytes \<Rightarrow> SigningBlock \<Rightarrow> bool \<Rightarrow> Reader \<Rightarrow> nat \<Rightarrow> string list \<Rightarrow> string list checked" where
  "signer_loop ssl m block v3 signers signer_count certificates =
     (if remaining signers > 0
      then case LengthPrefixed m signers of
             OutOfBounds \<Rightarrow> OutOfBounds
           | Refused \<Rightarrow> fail ''APK signer sequence is malformed''
           | Got (signer, signers) \<Rightarrow>
               if sp_size signer = 0 then fail ''APK signer sequence is malformed''
               else and_then (VerifySigner ssl m block signer v3) (\<lambda>verified.
                 case verified of
                   Inl e \<Rightarrow> fail (if e = [] then ''APK signer sequence is malformed'' else e)
                 | Inr certificate \<Rightarrow>
                     if signer_count + 1 > 16 then fail ''APK contains too many signers''
                     else signer_loop ssl m block v3 signers (signer_count + 1) (certificates @ [certificate]))
      else if signer_count > 0 then Got (Inr certificates) else fail [])"
  by pat_completeness auto
termination
  by (relation "measure (\<lambda>(_, _, _, _, signers, _, _). remaining signers)") (auto dest: LengthPrefixed_remaining)

declare signer_loop.simps [simp del]

definition VerifyScheme :: "('k, 'c) Openssl \<Rightarrow> bytes \<Rightarrow> SigningBlock \<Rightarrow> Span \<Rightarrow> bool \<Rightarrow> string list checked" where
  "VerifyScheme ssl m block scheme v3 =
     or_else (and_then (LengthPrefixed m (Reader_new scheme)) (\<lambda>(signer_sequence, r). require (remaining r = 0) (Got signer_sequence)))
       (Inl ''APK signature scheme signer container is malformed'') (\<lambda>signer_sequence.
     signer_loop ssl m block v3 (Reader_new signer_sequence) 0 [])"

record ApkSignatureResult =
  ar_certificate_sha256 :: "string list"
  ar_error :: string

definition signature_error :: "string \<Rightarrow> ApkSignatureResult" where
  "signature_error e = \<lparr>ar_certificate_sha256 = [], ar_error = e\<rparr>"

text \<open>The conversion to \<open>bool\<close>.\<close>

definition signature_ok :: "ApkSignatureResult \<Rightarrow> bool" where
  "signature_ok r \<longleftrightarrow> ar_error r = []"

text \<open>The scheme that is verified, and whether it is v3; a scheme that is absent is an empty span.\<close>

definition chosen_scheme :: "SigningBlock \<Rightarrow> Span \<times> bool" where
  "chosen_scheme block =
     (case (if sb_v2 block \<noteq> None then sb_v2 block else if sb_v31 block \<noteq> None then sb_v31 block else sb_v3 block) of
        None \<Rightarrow> \<lparr>sp_data = 0, sp_size = 0\<rparr> | Some s \<Rightarrow> s,
      sb_v2 block = None)"

definition VerifyApkSignature :: "('k, 'c) Openssl \<Rightarrow> ApkFile \<Rightarrow> ApkSignatureResult outcome" where
  "VerifyApkSignature ssl f =
     (case MapFile f of
        Inl e \<Rightarrow> Got (signature_error e)
      | Inr m \<Rightarrow>
          and_then (ParseSigningBlock m) (\<lambda>parsed.
            case parsed of
              Inl e \<Rightarrow> Got (signature_error e)
            | Inr block \<Rightarrow>
                (case chosen_scheme block of (scheme, v3) \<Rightarrow>
                     and_then (VerifyScheme ssl m block scheme v3) (\<lambda>verified.
                       case verified of
                         Inl e \<Rightarrow> Got (signature_error e)
                       | Inr certificates \<Rightarrow> Got \<lparr>ar_certificate_sha256 = remdups_adj (sort certificates), ar_error = []\<rparr>))))"

end
