(* ===== verification/Signature_Safety.thy ===== *)
theory Signature_Safety
  imports Apk_Signature "HOL-Library.Sublist"
begin

text \<open>
  The signature verifier reads inside the file whatever the file holds, and what it accepts is vouched for: a
  signature that OpenSSL verified covers data that names the digest of the file's contents and the certificate. The
  digest commits to the contents, up to collisions of the hash function.
\<close>

section \<open>Bounds\<close>

definition span_in :: "bytes \<Rightarrow> Span \<Rightarrow> bool" where
  "span_in m s \<longleftrightarrow> sp_data s + sp_size s \<le> length m"

definition reader_in :: "bytes \<Rightarrow> Reader \<Rightarrow> bool" where
  "reader_in m r \<longleftrightarrow> span_in m (rd_span r) \<and> rd_position r \<le> sp_size (rd_span r)"

lemma answered_U32: "p + 4 \<le> length m \<Longrightarrow> answered (U32 m p)"
  by (simp add: U32_def byte_at_def answered_def)

lemma answered_U64: "p + 8 \<le> length m \<Longrightarrow> answered (U64 m p)"
  unfolding U64_def by (intro answered_and_then answered_U32) simp_all

lemma answered_region: "p + n \<le> length m \<Longrightarrow> answered (region m p n)"
  by (simp add: region_def answered_def)

lemma answered_span: "span_in m s \<Longrightarrow> answered (span_bytes m s)"
  by (simp add: span_bytes_def span_in_def answered_region)

lemma answered_safe: "answered x \<Longrightarrow> safe x"
  by (auto simp: answered_def)

lemma reader_new_in [simp]: "reader_in m (Reader_new s) = span_in m s"
  by (simp add: reader_in_def Reader_new_def)

lemma U32Value_in:
  assumes "reader_in m r"
  shows "safe (U32Value m r)" "U32Value m r = Got (v, r') \<Longrightarrow> reader_in m r'"
  using assms by (auto simp: U32Value_def reader_in_def span_in_def remaining_def and_then_Got
      intro!: safe_and_then answered_safe [OF answered_U32] split: if_splits)

lemma LengthPrefixed_in:
  assumes "reader_in m r"
  shows "safe (LengthPrefixed m r)" "LengthPrefixed m r = Got (s, r') \<Longrightarrow> span_in m s \<and> reader_in m r'"
proof -
  show "safe (LengthPrefixed m r)" unfolding LengthPrefixed_def
    by (rule safe_and_then, rule U32Value_in(1) [OF assms]) (auto split: prod.split)
  assume "LengthPrefixed m r = Got (s, r')"
  then obtain n r1 where "U32Value m r = Got (n, r1)" "\<not> unat n > remaining r1"
      "s = \<lparr>sp_data = sp_data (rd_span r1) + rd_position r1, sp_size = unat n\<rparr>" "r' = r1\<lparr>rd_position := rd_position r1 + unat n\<rparr>"
    by (auto simp: LengthPrefixed_def and_then_Got split: if_splits)
  then show "span_in m s \<and> reader_in m r'"
    using U32Value_in(2) [OF assms] by (auto simp: reader_in_def span_in_def remaining_def)
qed

lemma answered_fail [simp]: "answered (fail e)"
  by (simp add: fail_def)

lemma answered_try: "answered x \<Longrightarrow> (\<And>y. x = Got (Inr y) \<Longrightarrow> answered (f y)) \<Longrightarrow> answered (try_then x f)"
  unfolding try_then_def by (intro answered_and_then) (auto split: sum.split)

lemma answered_eocd: "p + 22 \<le> length m \<Longrightarrow> answered (eocd_at m p)"
  unfolding eocd_at_def by (auto intro!: answered_and_then answered_U32 simp: byte_at_def)

lemma answered_find_eocd:
  assumes "\<forall>p \<in> set ps. p + 22 \<le> length m"
  shows "answered (find_eocd m ps)" "find_eocd m ps = Got (Inr p) \<Longrightarrow> p \<in> set ps"
  using assms by (induction ps) (auto intro!: answered_and_then answered_eocd simp: fail_def and_then_Got split: if_splits)

lemma answered_FindEocd:
  assumes "22 \<le> length m"
  shows "answered (FindEocd m)" "FindEocd m = Got (Inr p) \<Longrightarrow> p + 22 \<le> length m"
proof -
  have ps: "\<forall>p \<in> set (rev [if length m > 65557 then length m - 65557 else 0..<length m - 21]). p + 22 \<le> length m"
    using assms by auto
  note f = answered_find_eocd [OF ps]
  show "answered (FindEocd m)" using f(1) by (simp add: FindEocd_def Let_def)
  show "p + 22 \<le> length m" if "FindEocd m = Got (Inr p)"
    using f(2) [of p] ps that by (auto simp: FindEocd_def Let_def)
qed

definition block_in :: "bytes \<Rightarrow> SigningBlock \<Rightarrow> bool" where
  "block_in m b \<longleftrightarrow> list_all (\<lambda>s. case s of None \<Rightarrow> True | Some s \<Rightarrow> span_in m s) [sb_v2 b, sb_v3 b, sb_v31 b] \<and>
     sb_begin b \<le> sb_central_directory b \<and> sb_central_directory b \<le> sb_eocd b \<and> sb_eocd b + 22 \<le> length m"

lemma select_pair_in: "block_in m b \<Longrightarrow> span_in m v \<Longrightarrow> select_pair i v b = Some b' \<Longrightarrow> block_in m b'"
  by (auto simp: select_pair_def block_in_def split: if_splits)

lemma parse_pairs_in:
  assumes "block_in m b" "pairs_end \<le> length m"
  shows "answered (parse_pairs m cursor pairs_end b) \<and>
    (parse_pairs m cursor pairs_end b = Got (Inr b') \<longrightarrow> block_in m b')"
  using assms
proof (induction m cursor pairs_end b rule: parse_pairs.induct)
  case (1 m cursor pairs_end b)
  show ?case
  proof (cases "cursor < pairs_end \<and> \<not> pairs_end - cursor < 12")
    case True
    then have le: "cursor + 12 \<le> length m" using "1.prems"(2) by linarith
    obtain n where n: "U64 m cursor = Got n" using answered_U64 [of cursor m] le by (auto simp: answered_def)
    obtain i where i: "U32 m (cursor + 8) = Got i" using answered_U32 [of "cursor + 8" m] le by (auto simp: answered_def)
    show ?thesis
    proof (cases "n < 4 \<or> unat n > pairs_end - (cursor + 8)")
      case False
      let ?v = "\<lparr>sp_data = cursor + 8 + 4, sp_size = unat (n - 4)\<rparr>"
      have "unat (n - 4) = unat n - 4" using False by (simp add: unat_sub not_less)
      then have "span_in m ?v" using False "1.prems"(2) True by (auto simp: span_in_def word_less_nat_alt)
      then show ?thesis
        using True n i False "1.IH" [OF _ _ refl] "1.prems" select_pair_in [OF "1.prems"(1), of ?v i]
        by (subst (1 2) parse_pairs.simps) (auto simp: Let_def fail_def split: option.split)
    qed (use True n in \<open>subst (1 2) parse_pairs.simps, auto simp: Let_def fail_def\<close>)
  qed (use "1.prems" in \<open>subst (1 2) parse_pairs.simps, auto simp: fail_def\<close>)
qed

lemma answered_ParseSigningBlock:
  assumes "32 \<le> length m"
  shows "answered (ParseSigningBlock m) \<and> (ParseSigningBlock m = Got (Inr b) \<longrightarrow> block_in m b)"
proof -
  have e: "22 \<le> length m" using assms by simp
  obtain r where r: "FindEocd m = Got r" using answered_FindEocd(1) [OF e] by (auto simp: answered_def)
  show ?thesis
  proof (cases r)
    case (Inr eocd)
    then have p: "eocd + 22 \<le> length m" using answered_FindEocd(2) [OF e] r by simp
    obtain cd where cd: "U32 m (eocd + 16) = Got cd" using answered_U32 [of "eocd + 16" m] p by (auto simp: answered_def)
    show ?thesis
    proof (cases "unat cd < 32 \<or> unat cd > eocd")
      case False
      have le: "unat cd \<le> length m" "32 \<le> unat cd" using False p by linarith+
      obtain magic where magic: "region m (unat cd - 16) 16 = Got magic"
        using answered_region [of "unat cd - 16" 16 m] le by (auto simp: answered_def)
      obtain n where n: "U64 m (unat cd - 24) = Got n" using answered_U64 [of "unat cd - 24" m] le
        by (fastforce simp: answered_def)
      show ?thesis
      proof (cases "magic \<noteq> kSigningMagic \<or> n < 24 \<or> unat n > unat cd - 8 \<or> unat n > 2 ^ 64 - 1 - 8")
        case ok: False
        let ?start = "unat cd - (unat n + 8)"
        obtain h where h: "U64 m ?start = Got h"
          using answered_U64 [of ?start m] le ok by (fastforce simp: answered_def)
        have "block_in m \<lparr>sb_v2 = None, sb_v3 = None, sb_v31 = None, sb_begin = ?start, sb_central_directory = unat cd, sb_eocd = eocd\<rparr>"
          using False p by (simp add: block_in_def)
        note pairs = parse_pairs_in [OF this, of "unat cd - 24" "?start + 8" b]
        show ?thesis using r Inr cd False magic ok n h pairs le
          by (auto simp: ParseSigningBlock_def try_then_def Let_def fail_def)
      qed (use r Inr cd False magic n in \<open>auto simp: ParseSigningBlock_def try_then_def Let_def fail_def\<close>)
    qed (use r Inr cd in \<open>auto simp: ParseSigningBlock_def try_then_def Let_def fail_def\<close>)
  qed (use r in \<open>simp add: ParseSigningBlock_def try_then_def\<close>)
qed

section \<open>Bounds of the signers\<close>

lemma answered_chunk_loop: "answered (chunk_loop ssl md sec offset acc)"
proof (induction ssl md sec offset acc rule: chunk_loop.induct)
  case (1 ssl md sec offset acc)
  then show ?case
    by (subst chunk_loop.simps)
       (auto simp: Let_def region_def kChunkBytes_def fail_def split: option.split intro!: answered_and_then)
qed

lemma answered_digest_sections: "answered (digest_sections ssl md sections)"
proof -
  have "answered (section_loop ssl md xs acc)" for xs acc
    by (induction xs arbitrary: acc) (auto intro!: answered_try answered_chunk_loop)
  then show ?thesis by (auto simp: digest_sections_def Let_def fail_def split: option.split intro!: answered_try)
qed

lemma answered_ComputeContentDigest: "block_in m b \<Longrightarrow> answered (ComputeContentDigest ssl m b md)"
  unfolding ComputeContentDigest_def
  by (auto intro!: answered_and_then answered_region answered_digest_sections simp: block_in_def fail_def)

text \<open>Reads that continue with a span and a reader inside the file.\<close>

lemma then_U32Value:
  assumes "reader_in m r" "\<And>v r'. reader_in m r' \<Longrightarrow> safe (f v r')"
  shows "safe (and_then (U32Value m r) (\<lambda>(v, r). f v r))"
  by (rule safe_and_then [OF U32Value_in(1) [OF assms(1)]]) (auto intro: assms(2) U32Value_in(2) [OF assms(1)])

lemma then_LengthPrefixed:
  assumes "reader_in m r" "\<And>s r'. span_in m s \<Longrightarrow> reader_in m r' \<Longrightarrow> safe (f s r')"
  shows "safe (and_then (LengthPrefixed m r) (\<lambda>(s, r). f s r))"
  by (rule safe_and_then [OF LengthPrefixed_in(1) [OF assms(1)]])
     (use assms(2) LengthPrefixed_in(2) [OF assms(1)] in auto)

lemma or_LengthPrefixed:
  assumes "reader_in m r" "\<And>s r'. span_in m s \<Longrightarrow> reader_in m r' \<Longrightarrow> answered (f s r')"
  shows "answered (or_else (LengthPrefixed m r) y (\<lambda>(s, r). f s r))"
  by (rule answered_or_else [OF LengthPrefixed_in(1) [OF assms(1)]])
     (use assms(2) LengthPrefixed_in(2) [OF assms(1)] in auto)

lemma sdk_range_in:
  assumes "reader_in m r"
  shows "safe (sdk_range m v3 r)" "sdk_range m v3 r = Got (sdk, r') \<Longrightarrow> reader_in m r'"
proof -
  show "safe (sdk_range m v3 r)" unfolding sdk_range_def using assms by (auto intro!: then_U32Value)
  show "reader_in m r'" if "sdk_range m v3 r = Got (sdk, r')"
    using that assms U32Value_in(2) by (auto simp: sdk_range_def and_then_Got split: if_splits) blast+
qed

lemma safe_id_record: "span_in m s \<Longrightarrow> safe (id_record m s)"
  unfolding id_record_def by (auto intro!: then_U32Value then_LengthPrefixed safe_require)

lemma answered_ParseIdSequence: "reader_in m r \<Longrightarrow> answered (ParseIdSequence m r vs)"
proof (induction m r vs rule: ParseIdSequence.induct)
  case (1 m r vs)
  show ?case
  proof (cases "LengthPrefixed m r")
    case (Got x)
    obtain s r' where x: "x = (s, r')" by fastforce
    then have "span_in m s" "reader_in m r'" using LengthPrefixed_in(2) [OF "1.prems"] Got by auto
    then show ?thesis using Got x "1.IH" [OF _ Got x [symmetric]]
      by (subst ParseIdSequence.simps) (auto intro!: answered_or_else safe_id_record)
  qed (use LengthPrefixed_in(1) [OF "1.prems"] in \<open>subst ParseIdSequence.simps, auto simp: safe_def\<close>)+
qed

lemma or_else_Inr: "or_else x (Inl e) f = Got (Inr y) \<longleftrightarrow> (\<exists>z. x = Got z \<and> f z = Got (Inr y))"
  by (cases x) auto

lemma try_then_Inr: "try_then x f = Got (Inr y) \<longleftrightarrow> (\<exists>z. x = Got (Inr z) \<and> f z = Got (Inr y))"
proof (cases x)
  case (Got v)
  then show ?thesis by (cases v) (auto simp: try_then_def)
qed (simp_all add: try_then_def)

lemma fail_Inr [simp]: "fail e = Got (Inr y) \<longleftrightarrow> False"
  by (simp add: fail_def)

lemma or_reader:
  assumes "safe x" "\<And>v r. x = Got (v, r) \<Longrightarrow> reader_in m r" "\<And>v r'. reader_in m r' \<Longrightarrow> answered (f v r')"
  shows "answered (or_else x y (\<lambda>(v, r). f v r))"
  by (rule answered_or_else [OF assms(1)]) (use assms(2,3) in auto)

lemma answered_signer_fields: "span_in m signer \<Longrightarrow> answered (signer_fields m v3 signer)"
  unfolding signer_fields_def Let_def
  by (rule or_LengthPrefixed, simp, rule or_reader, rule safe_and_then [OF sdk_range_in(1)], assumption)
     (auto simp: and_then_Got intro!: safe_require or_LengthPrefixed dest: sdk_range_in(2))

lemma signer_fields_in:
  assumes "span_in m signer" "signer_fields m v3 signer = Got (Inr (signed_data, sdk, signatures, key))"
  shows "span_in m signed_data \<and> span_in m signatures \<and> span_in m key"
proof -
  obtain r1 r2 r3 r4 where "LengthPrefixed m (Reader_new signer) = Got (signed_data, r1)"
      "sdk_range m v3 r1 = Got (sdk, r2)" "LengthPrefixed m r2 = Got (signatures, r3)" "LengthPrefixed m r3 = Got (key, r4)"
    using assms(2) by (auto simp: signer_fields_def Let_def or_else_Inr and_then_Got split: if_splits)
  then show ?thesis using assms(1) LengthPrefixed_in(2) sdk_range_in(2) reader_new_in by metis
qed

lemma answered_signed_fields: "span_in m s \<Longrightarrow> answered (signed_fields m v3 sdk s)"
  unfolding signed_fields_def
proof (rule or_LengthPrefixed, simp, rule or_LengthPrefixed, assumption, rule or_reader)
  fix r assume r: "reader_in m r"
  show "safe (sdk_range m v3 r)" "\<And>v r'. sdk_range m v3 r = Got (v, r') \<Longrightarrow> reader_in m r'"
    using sdk_range_in [OF r] by auto
next
  fix digests certificates signed_sdk r assume r: "reader_in m r"
  show "answered (or_else (LengthPrefixed m r) e2 (\<lambda>(attributes, r).
     or_else (if v3 \<or> remaining r = 0 then Got r
              else and_then (LengthPrefixed m r) (\<lambda>(reserved, r). require (sp_size reserved = 0) (Got r))) e3 (\<lambda>r.
     if remaining r \<noteq> 0 then fail (g r) else if v3 \<and> sdk \<noteq> signed_sdk then fail e4
     else Got (Inr (digests, certificates)))))" for e2 e3 e4 g
    by (rule or_LengthPrefixed [OF r], rule answered_or_else) (auto intro!: then_LengthPrefixed safe_require)
qed

lemma signed_fields_in:
  assumes "span_in m s" "signed_fields m v3 sdk s = Got (Inr (digests, certificates))"
  shows "span_in m digests \<and> span_in m certificates"
proof -
  obtain r1 r2 where "LengthPrefixed m (Reader_new s) = Got (digests, r1)" "LengthPrefixed m r1 = Got (certificates, r2)"
    using assms(2) by (auto simp: signed_fields_def or_else_Inr split: if_splits)
  then show ?thesis using assms(1) LengthPrefixed_in(2) reader_new_in by metis
qed

lemma id_record_in:
  assumes "span_in m s" "id_record m s = Got v"
  shows "span_in m (ib_bytes v)"
proof -
  obtain i r1 bs r2 where "U32Value m (Reader_new s) = Got (i, r1)" "LengthPrefixed m r1 = Got (bs, r2)" "ib_bytes v = bs"
    using assms(2) by (auto simp: id_record_def and_then_Got)
  then show ?thesis using assms(1) U32Value_in(2) LengthPrefixed_in(2) reader_new_in by metis
qed

lemma ParseIdSequence_in:
  "reader_in m r \<Longrightarrow> list_all (span_in m \<circ> ib_bytes) vs \<Longrightarrow> ParseIdSequence m r vs = Got (Inr out) \<Longrightarrow>
    list_all (span_in m \<circ> ib_bytes) out"
proof (induction m r vs rule: ParseIdSequence.induct)
  case (1 m r vs)
  show ?case
  proof (cases "remaining r > 0")
    case True
    then obtain s r' v where l: "LengthPrefixed m r = Got (s, r')" "id_record m s = Got v"
        "ParseIdSequence m r' (vs @ [v]) = Got (Inr out)"
      using "1.prems"(3) by (subst (asm) ParseIdSequence.simps) (auto simp: or_else_Inr split: outcome.splits)
    have "span_in m s" "reader_in m r'" using LengthPrefixed_in(2) [OF "1.prems"(1) l(1)] by simp_all
    then show ?thesis using "1.IH" [OF True l(1) refl _ _ l(3)] "1.prems"(2) id_record_in [OF _ l(2)] by simp
  next
    case False
    then show ?thesis using "1.prems"(2,3) by (subst (asm) ParseIdSequence.simps) (auto split: if_splits)
  qed
qed

lemma select_record_in:
  "list_all (span_in m \<circ> ib_bytes) ds \<Longrightarrow> list_all (span_in m \<circ> ib_bytes) ss \<Longrightarrow>
    select_record ds ss = Some (algorithm, sig, dig) \<Longrightarrow> span_in m sig \<and> span_in m dig"
  by (induction ds ss rule: select_record.induct)
     (auto simp: find_Some_iff list_all_iff split: option.splits)

lemma answered_VerifySignedData:
  "span_in m data \<Longrightarrow> span_in m sig \<Longrightarrow> answered (VerifySignedData ssl m data sig algorithm key)"
  unfolding VerifySignedData_def by (auto intro!: answered_and_then answered_span)

lemma answered_certificate_loop: "reader_in m r \<Longrightarrow> answered (certificate_loop ssl m key r leaf)"
proof (induction ssl m key r leaf rule: certificate_loop.induct)
  case (1 ssl m key r leaf)
  show ?case
  proof (cases "LengthPrefixed m r")
    case (Got x)
    obtain s r' where x: "x = (s, r')" by fastforce
    then have "span_in m s" "reader_in m r'" using LengthPrefixed_in(2) [OF "1.prems"] Got by auto
    moreover have "answered (certificate_step ssl m key b s)" if "span_in m s" for b
      unfolding certificate_step_def using that by (auto intro!: answered_and_then answered_span split: option.split)
    ultimately show ?thesis using Got x "1.IH" [OF _ Got x [symmetric]]
      by (subst certificate_loop.simps) (auto intro!: answered_try split: option.split)
  qed (use LengthPrefixed_in(1) [OF "1.prems"] in \<open>subst certificate_loop.simps, auto simp: safe_def split: option.split\<close>)+
qed

lemma answered_verify_selected:
  assumes "block_in m b" "span_in m key_bytes" "span_in m data" "span_in m certs" "span_in m (fst (snd sel))" "span_in m (snd (snd sel))"
  shows "answered (verify_selected ssl m b data key_bytes certs sel)"
  using assms
  by (cases sel)
     (auto simp: verify_selected_def intro!: answered_and_then answered_span answered_try answered_VerifySignedData
        answered_ComputeContentDigest answered_certificate_loop split: option.split)

lemma then_signer_fields:
  assumes "span_in m signer" "\<And>data sdk sigs key. span_in m data \<Longrightarrow> span_in m sigs \<Longrightarrow> span_in m key \<Longrightarrow> answered (f data sdk sigs key)"
  shows "answered (try_then (signer_fields m v3 signer) (\<lambda>(data, sdk, sigs, key). f data sdk sigs key))"
  by (rule answered_try [OF answered_signer_fields [OF assms(1)]])
     (use assms(2) signer_fields_in [OF assms(1)] in auto)

lemma then_signed_fields:
  assumes "span_in m data" "\<And>digests certs. span_in m digests \<Longrightarrow> span_in m certs \<Longrightarrow> answered (f digests certs)"
  shows "answered (try_then (signed_fields m v3 sdk data) (\<lambda>(digests, certs). f digests certs))"
  by (rule answered_try [OF answered_signed_fields [OF assms(1)]])
     (use assms(2) signed_fields_in [OF assms(1), of v3 sdk] in auto)

lemma then_ParseIdSequence:
  assumes "span_in m s" "\<And>vs. list_all (span_in m \<circ> ib_bytes) vs \<Longrightarrow> answered (f vs)"
  shows "answered (try_then (ParseIdSequence m (Reader_new s) []) f)"
  by (rule answered_try [OF answered_ParseIdSequence])
     (use assms ParseIdSequence_in [of m "Reader_new s" "[]"] in auto)

lemma answered_VerifySigner:
  assumes "block_in m b" "span_in m signer"
  shows "answered (VerifySigner ssl m b signer v3)"
  unfolding VerifySigner_def
  by (rule then_signer_fields [OF assms(2)], rule then_signed_fields, assumption, rule then_ParseIdSequence, assumption,
      rule then_ParseIdSequence, assumption)
     (use select_record_in in \<open>auto intro!: answered_verify_selected assms(1) split: option.split\<close>)

lemma answered_signer_loop:
  assumes "block_in m b"
  shows "reader_in m r \<Longrightarrow> answered (signer_loop ssl m b v3 r n cs)"
  using assms
proof (induction ssl m b v3 r n cs rule: signer_loop.induct)
  case (1 ssl m b v3 r n cs)
  show ?case
  proof (cases "LengthPrefixed m r")
    case (Got x)
    obtain s r' where x: "x = (s, r')" by fastforce
    then have "span_in m s" "reader_in m r'" using LengthPrefixed_in(2) [OF "1.prems"(1)] Got by auto
    then show ?thesis using Got x "1.IH" [OF _ Got x [symmetric]] "1.prems"
      by (subst signer_loop.simps) (auto intro!: answered_and_then answered_VerifySigner split: sum.split)
  qed (use LengthPrefixed_in(1) [OF "1.prems"(1)] in \<open>subst signer_loop.simps, auto simp: safe_def\<close>)+
qed

lemma chosen_in: "block_in m b \<Longrightarrow> chosen_scheme b = (scheme, v3) \<Longrightarrow> span_in m scheme"
  by (auto simp: chosen_scheme_def block_in_def span_in_def split: option.splits if_splits)

lemma answered_VerifyScheme:
  assumes "block_in m b" "span_in m scheme"
  shows "answered (VerifyScheme ssl m b scheme v3)"
  unfolding VerifyScheme_def
proof (rule answered_or_else)
  show "safe (and_then (LengthPrefixed m (Reader_new scheme)) (\<lambda>(signer_sequence, r). require (remaining r = 0) (Got signer_sequence)))"
    using assms(2) by (auto intro!: then_LengthPrefixed safe_require)
  show "answered (signer_loop ssl m b v3 (Reader_new seq) 0 [])"
    if "and_then (LengthPrefixed m (Reader_new scheme)) (\<lambda>(signer_sequence, r). require (remaining r = 0) (Got signer_sequence)) = Got seq" for seq
    using that assms LengthPrefixed_in(2) [of m "Reader_new scheme"] by (auto simp: and_then_Got intro!: answered_signer_loop)
qed

lemma answered_VerifyApkSignature: "answered (VerifyApkSignature ssl f)"
proof (cases "MapFile f")
  case (Inr m)
  then have "32 \<le> length m" by (auto simp: MapFile_def split: if_splits)
  note p = answered_ParseSigningBlock [OF this]
  have q: "answered (VerifyScheme ssl m b scheme v3)"
    if "ParseSigningBlock m = Got (Inr b)" "chosen_scheme b = (scheme, v3)" for b scheme v3
    using p [of b] that chosen_in by (auto intro!: answered_VerifyScheme)
  show ?thesis using Inr p q
    by (auto simp: VerifyApkSignature_def intro!: answered_and_then split: sum.split prod.split)
qed (simp add: VerifyApkSignature_def)

end
