(* ===== verification/Signature_Trust.thy ===== *)
theory Signature_Trust
  imports Signature_Safety Manifest_Safety
begin

text \<open>
  What an accepted signature says. The content digest is a two-level hash over chunks; equal digests mean equal
  contents or two inputs on which the hash function collides. A certificate that is reported belongs to the key
  under which OpenSSL verified data that contains the content digest and the certificate itself.
\<close>

section \<open>Chunks\<close>

function chunks :: "bytes \<Rightarrow> bytes list" where
  "chunks xs = (if xs = [] then [] else take kChunkBytes xs # chunks (drop kChunkBytes xs))"
  by pat_completeness auto
termination
  by (relation "measure length") (auto simp: kChunkBytes_def)

declare chunks.simps [simp del]

lemma concat_chunks: "concat (chunks xs) = xs"
  by (induction xs rule: chunks.induct) (subst chunks.simps, simp)

lemma length_chunks: "length (chunks xs) = (length xs + kChunkBytes - 1) div kChunkBytes"
proof (induction xs rule: chunks.induct)
  case (1 xs)
  show ?case
  proof (cases "xs = []")
    case False
    let ?n = "length xs" and ?k = kChunkBytes
    have k: "0 < ?k" by (simp add: kChunkBytes_def)
    have "length (chunks xs) = 1 + (?n - ?k + ?k - 1) div ?k" using "1.IH" False by (subst chunks.simps) simp
    also have "\<dots> = (?n + ?k - 1) div ?k"
    proof (cases "?n \<le> ?k")
      case True
      then have "(?n + ?k - 1) div ?k = (?n - 1 + ?k) div ?k" "?n - 1 < ?k" "?k - 1 < ?k" using False k by (cases xs; simp)+
      then show ?thesis using True k by simp
    next
      case gt: False
      then have "(?n + ?k - 1) div ?k = (?n - 1 + ?k) div ?k" "?n - ?k + ?k = ?n" using k by simp_all
      then show ?thesis using k by (metis add.commute div_add_self2 less_numeral_extra(3) plus_1_eq_Suc)
    qed
    finally show ?thesis .
  qed (simp add: chunks.simps kChunkBytes_def)
qed

lemma chunks_bounded: "c \<in> set (chunks xs) \<Longrightarrow> length c \<le> kChunkBytes"
  by (induction xs rule: chunks.induct) (subst (asm) (2) chunks.simps, auto split: if_splits)

definition chunk_input :: "bytes \<Rightarrow> bytes" where
  "chunk_input c = 0xa5 # PutU32 (of_nat (length c)) @ c"

text \<open>\<open>ds\<close> are the digests of the chunks \<open>cs\<close>.\<close>

definition digests_of :: "('k, 'c) Openssl \<Rightarrow> EVP_MD \<Rightarrow> bytes list \<Rightarrow> bytes list \<Rightarrow> bool" where
  "digests_of ssl md cs ds \<longleftrightarrow> list_all2 (\<lambda>c d. evp_digest ssl md (chunk_input c) = Some d \<and> length d = EVP_MD_get_size md) cs ds"

lemma DigestParts_Some:
  "DigestParts ssl md parts = Some d \<longleftrightarrow> evp_digest ssl md (concat parts) = Some d \<and> length d = EVP_MD_get_size md"
  by (auto simp: DigestParts_def split: option.splits if_splits)

lemma chunk_loop_digests:
  "chunk_loop ssl md s offset acc = Got (Inr out) \<Longrightarrow> \<exists>ds. out = acc @ concat ds \<and> digests_of ssl md (chunks (drop offset s)) ds"
proof (induction ssl md s offset acc rule: chunk_loop.induct)
  case (1 ssl md s offset acc)
  show ?case
  proof (cases "offset < length s")
    case True
    let ?n = "min kChunkBytes (length s - offset)"
    have r: "region s offset ?n = Got (take kChunkBytes (drop offset s))"
      using True by (auto simp: region_def min_def)
    obtain d where d: "DigestParts ssl md [0xa5 # PutU32 (of_nat ?n), take kChunkBytes (drop offset s)] = Some d"
        "chunk_loop ssl md s (offset + kChunkBytes) (acc @ d) = Got (Inr out)"
      using "1.prems" True r by (subst (asm) chunk_loop.simps) (auto simp: Let_def split: option.splits)
    obtain ds where ds: "out = acc @ d @ concat ds" "digests_of ssl md (chunks (drop (offset + kChunkBytes) s)) ds"
      using "1.IH" [OF True refl d(1) d(2)] by auto
    have "chunks (drop offset s) = take kChunkBytes (drop offset s) # chunks (drop (offset + kChunkBytes) s)"
      using True by (subst chunks.simps) (simp add: add.commute)
    moreover have "chunk_input (take kChunkBytes (drop offset s)) = 0xa5 # PutU32 (of_nat ?n) @ take kChunkBytes (drop offset s)"
      using True by (simp add: chunk_input_def min.commute)
    ultimately show ?thesis using ds d(1) by (intro exI [of _ "d # ds"]) (simp add: digests_of_def DigestParts_Some)
  next
    case False
    then show ?thesis using "1.prems" by (subst (asm) chunk_loop.simps) (auto simp: digests_of_def chunks.simps)
  qed
qed

lemma digests_of_append:
  "digests_of ssl md cs ds \<Longrightarrow> digests_of ssl md cs' ds' \<Longrightarrow> digests_of ssl md (cs @ cs') (ds @ ds')"
  by (simp add: digests_of_def list_all2_appendI)

lemma section_loop_digests:
  "section_loop ssl md ss acc = Got (Inr out) \<Longrightarrow>
    \<exists>ds. out = acc @ concat ds \<and> digests_of ssl md (concat (map chunks ss)) ds"
proof (induction ss arbitrary: acc)
  case (Cons s ss)
  obtain mid where mid: "chunk_loop ssl md s 0 acc = Got (Inr mid)" "section_loop ssl md ss mid = Got (Inr out)"
    using Cons.prems by (auto simp: try_then_Inr)
  obtain ds ds' where "mid = acc @ concat ds" "digests_of ssl md (chunks s) ds"
      "out = mid @ concat ds'" "digests_of ssl md (concat (map chunks ss)) ds'"
    using chunk_loop_digests [OF mid(1)] Cons.IH [OF mid(2)] by auto
  then show ?case by (intro exI [of _ "ds @ ds'"]) (simp add: digests_of_append)
qed (simp add: digests_of_def)

lemma digest_sections_digests:
  assumes "digest_sections ssl md ss = Got (Inr d)"
  obtains ds where "digests_of ssl md (concat (map chunks ss)) ds" "length (concat (map chunks ss)) \<le> 0xffffffff"
    "evp_digest ssl md (0x5a # PutU32 (of_nat (length (concat (map chunks ss)))) @ concat ds) = Some d"
proof -
  let ?n = "sum_list (map (\<lambda>s. (length s + kChunkBytes - 1) div kChunkBytes) ss)"
  have n: "?n = length (concat (map chunks ss))" by (simp add: length_concat length_chunks comp_def)
  obtain out where out: "section_loop ssl md ss [] = Got (Inr out)" "?n \<le> 0xffffffff"
      "evp_digest ssl md (0x5a # PutU32 (of_nat ?n) @ out) = Some d"
    using assms by (auto simp: digest_sections_def Let_def try_then_Inr DigestParts_Some split: if_splits option.splits)
  then show thesis using that section_loop_digests [OF out(1)] n by auto
qed

section \<open>The digest commits to the contents\<close>

text \<open>What is hashed for the sections: the list of chunk digests, and the chunks.\<close>

definition hashed_inputs :: "('k, 'c) Openssl \<Rightarrow> EVP_MD \<Rightarrow> bytes list \<Rightarrow> bytes list" where
  "hashed_inputs ssl md ss =
     (let cs = concat (map chunks ss)
      in (0x5a # PutU32 (of_nat (length cs)) @ concat (map (\<lambda>c. the (evp_digest ssl md (chunk_input c))) cs)) # map chunk_input cs)"

text \<open>Two different inputs, one of each kind, with the same digest.\<close>

definition collide :: "('k, 'c) Openssl \<Rightarrow> EVP_MD \<Rightarrow> bytes list \<Rightarrow> bytes list \<Rightarrow> bool" where
  "collide ssl md xs ys \<longleftrightarrow> list_ex (\<lambda>x. list_ex (\<lambda>y. x \<noteq> y \<and> evp_digest ssl md x = evp_digest ssl md y) ys) xs"

lemma no_collision: "\<not> collide ssl md xs ys \<Longrightarrow> x \<in> set xs \<Longrightarrow> y \<in> set ys \<Longrightarrow>
    evp_digest ssl md x = evp_digest ssl md y \<Longrightarrow> x = y"
  by (auto simp: collide_def list_ex_iff)

lemma concat_fixed_inject:
  assumes "list_all (\<lambda>d. length d = k) xs" "list_all (\<lambda>d. length d = k) ys" "concat xs = concat ys" "length xs = length ys"
  shows "xs = ys"
  using assms(4,1-3) by (induction xs ys rule: list_induct2) auto

lemma PutU32_inject: "PutU32 v = PutU32 w \<longleftrightarrow> v = w"
proof
  assume "PutU32 v = PutU32 w"
  then have "le32 (ucast v) (ucast (drop_bit 8 v)) (ucast (drop_bit 16 v)) (ucast (drop_bit 24 v)) =
    le32 (ucast w) (ucast (drop_bit 8 w)) (ucast (drop_bit 16 w)) (ucast (drop_bit 24 w))" by (simp add: PutU32_def)
  then show "v = w" by (simp only: le32_enc)
qed simp

lemma chunk_input_inject: "chunk_input c = chunk_input c' \<longleftrightarrow> c = c'"
  by (auto simp: chunk_input_def PutU32_def)

lemma digests_of_map: "digests_of ssl md cs ds \<Longrightarrow> ds = map (\<lambda>c. the (evp_digest ssl md (chunk_input c))) cs"
  unfolding digests_of_def by (induction cs ds rule: list_all2_induct) simp_all

lemma digests_of_inject:
  assumes "digests_of ssl md cs ds" "digests_of ssl md cs' ds" "\<And>c c'. c \<in> set cs \<Longrightarrow> c' \<in> set cs' \<Longrightarrow>
    evp_digest ssl md (chunk_input c) = evp_digest ssl md (chunk_input c') \<Longrightarrow> chunk_input c = chunk_input c'"
  shows "cs = cs'"
  using assms unfolding digests_of_def
proof (induction cs arbitrary: cs' ds)
  case (Cons c cs)
  then obtain d ds' c' cs'' where "ds = d # ds'" "cs' = c' # cs''" by (auto simp: list_all2_Cons1 list_all2_Cons2)
  then show ?case using Cons by (auto simp: chunk_input_inject)
qed simp

lemma digest_sections_commit:
  assumes a: "digest_sections ssl md ss = Got (Inr d)" and b: "digest_sections ssl md ts = Got (Inr d)"
    and c: "\<not> collide ssl md (hashed_inputs ssl md ss) (hashed_inputs ssl md ts)"
  shows "concat ss = concat ts"
proof -
  let ?cs = "concat (map chunks ss)" and ?ts = "concat (map chunks ts)"
  obtain ds where ds: "digests_of ssl md ?cs ds" "length ?cs \<le> 0xffffffff"
      "evp_digest ssl md (0x5a # PutU32 (of_nat (length ?cs)) @ concat ds) = Some d"
    using digest_sections_digests [OF a] by blast
  obtain es where es: "digests_of ssl md ?ts es" "length ?ts \<le> 0xffffffff"
      "evp_digest ssl md (0x5a # PutU32 (of_nat (length ?ts)) @ concat es) = Some d"
    using digest_sections_digests [OF b] by blast
  have "0x5a # PutU32 (of_nat (length ?cs)) @ concat ds = 0x5a # PutU32 (of_nat (length ?ts)) @ concat es"
    by (rule no_collision [OF c])
       (use ds es digests_of_map [OF ds(1)] digests_of_map [OF es(1)] in \<open>simp_all add: hashed_inputs_def Let_def\<close>)
  then have eq: "PutU32 (of_nat (length ?cs)) = PutU32 (of_nat (length ?ts))" "concat ds = concat es"
    by (auto simp: PutU32_def)
  have "unat (of_nat (length ?cs) :: u32) = unat (of_nat (length ?ts) :: u32)" using eq(1) by (simp add: PutU32_inject)
  then have "length ?cs = length ?ts" using ds(2) es(2) by (simp add: unat_of_nat take_bit_eq_mod)
  then have "length ds = length es" using ds(1) es(1) by (simp add: digests_of_def list_all2_lengthD)
  moreover have "list_all (\<lambda>d. length d = EVP_MD_get_size md) ds" "list_all (\<lambda>d. length d = EVP_MD_get_size md) es"
    using ds(1) es(1) by (auto simp: digests_of_def list_all2_conv_all_nth list_all_length)
  ultimately have "ds = es" using eq(2) by (intro concat_fixed_inject) auto
  moreover have "chunk_input x = chunk_input y" if "x \<in> set ?cs" "y \<in> set ?ts"
      "evp_digest ssl md (chunk_input x) = evp_digest ssl md (chunk_input y)" for x y
    by (rule no_collision [OF c _ _ that(3)]) (use that(1,2) in \<open>simp_all add: hashed_inputs_def Let_def\<close>)
  ultimately have "?cs = ?ts" using es(1) by (intro digests_of_inject [OF ds(1)]) simp_all
  moreover have "concat (concat (map chunks xs)) = concat xs" for xs by (induction xs) (simp_all add: concat_chunks)
  ultimately show ?thesis by metis
qed

definition signed_content :: "bytes \<Rightarrow> SigningBlock \<Rightarrow> bytes list" where
  "signed_content m b =
     [take (sb_begin b) m, take (sb_eocd b - sb_central_directory b) (drop (sb_central_directory b) m),
      patched_eocd b (drop (sb_eocd b) m)]"

lemma ComputeContentDigest_content:
  "ComputeContentDigest ssl m b md = Got (Inr d) \<Longrightarrow> digest_sections ssl md (signed_content m b) = Got (Inr d)"
  by (auto simp: ComputeContentDigest_def and_then_Got region_def signed_content_def split: if_splits)

section \<open>What stands in a span\<close>

definition sbytes :: "bytes \<Rightarrow> Span \<Rightarrow> bytes" where
  "sbytes m s = take (sp_size s) (drop (sp_data s) m)"

lemma span_bytes_Got: "span_bytes m s = Got bs \<Longrightarrow> bs = sbytes m s"
  by (auto simp: span_bytes_def region_def sbytes_def split: if_splits)

lemma PutU32_le32: "PutU32 (le32 b0 b1 b2 b3) = [b0, b1, b2, b3]"
proof -
  have hi: "k < 8" if "bit b k" for b :: u8 and k using that bit_imp_le_length [of b k] by simp
  have "ucast (le32 b0 b1 b2 b3) = b0" "ucast (drop_bit 8 (le32 b0 b1 b2 b3)) = b1"
    "ucast (drop_bit 16 (le32 b0 b1 b2 b3)) = b2" "ucast (drop_bit 24 (le32 b0 b1 b2 b3)) = b3"
    by (rule bit_eqI; auto simp: le32_def bit_simps dest: hi)+
  then show ?thesis by (simp add: PutU32_def)
qed

lemma U32_stands: "U32 m p = Got v \<Longrightarrow> take 4 (drop p m) = PutU32 v"
proof -
  assume "U32 m p = Got v"
  then have l: "p + 4 \<le> length m" and v: "v = le32 (m ! p) (m ! (p + 1)) (m ! (p + 2)) (m ! (p + 3))"
    by (auto simp: U32_def and_then_Got byte_at_def split: if_splits)
  have "take 4 (drop p m) = [m ! p, m ! (p + 1), m ! (p + 2), m ! (p + 3)]"
    using l by (intro nth_equalityI) (auto simp: nth_Cons' less_Suc_eq numeral_eq_Suc)
  then show ?thesis unfolding v PutU32_le32 .
qed

text \<open>The part of a span from one position to another.\<close>

lemma sub_span:
  assumes "a + n \<le> sp_size s" "span_in m s"
  shows "sublist (take n (drop (sp_data s + a) m)) (sbytes m s)"
proof -
  have "take n (drop a (sbytes m s)) = take n (drop a (drop (sp_data s) m))"
    using assms(1) by (simp add: sbytes_def drop_take min_def)
  then have "take n (drop (sp_data s + a) m) = take n (drop a (sbytes m s))" by (simp add: add.commute)
  then show ?thesis by (simp add: sublist_order.order_trans [OF sublist_take sublist_drop])
qed

lemma LengthPrefixed_stands:
  assumes "reader_in m r" "LengthPrefixed m r = Got (s, r')"
  shows "rd_span r' = rd_span r" "sublist (PutU32 (of_nat (sp_size s)) @ sbytes m s) (sbytes m (rd_span r))"
    "rd_position r' = rd_position r + 4 + sp_size s"
    "take (4 + sp_size s) (drop (sp_data (rd_span r) + rd_position r) m) = PutU32 (of_nat (sp_size s)) @ sbytes m s"
proof -
  let ?p = "sp_data (rd_span r) + rd_position r"
  obtain n where n: "U32 m ?p = Got n" "4 \<le> remaining r" "unat n \<le> remaining r - 4"
      "s = \<lparr>sp_data = ?p + 4, sp_size = unat n\<rparr>" "r' = r\<lparr>rd_position := rd_position r + 4 + unat n\<rparr>"
    using assms(2) by (auto simp: LengthPrefixed_def U32Value_def and_then_Got remaining_def split: if_splits)
  then show "rd_span r' = rd_span r" "rd_position r' = rd_position r + 4 + sp_size s" by simp_all
  have "take (4 + unat n) (drop ?p m) = PutU32 n @ sbytes m s"
    unfolding take_add using U32_stands [OF n(1)] n(4) by (simp add: sbytes_def add.commute add.left_commute)
  then show e: "take (4 + sp_size s) (drop ?p m) = PutU32 (of_nat (sp_size s)) @ sbytes m s" using n(4) by simp
  show "sublist (PutU32 (of_nat (sp_size s)) @ sbytes m s) (sbytes m (rd_span r))"
    using sub_span [of "rd_position r" "4 + sp_size s" "rd_span r" m] assms(1) n e
    by (auto simp: reader_in_def remaining_def)
qed

lemma LengthPrefixed_sublist:
  "reader_in m r \<Longrightarrow> LengthPrefixed m r = Got (s, r') \<Longrightarrow> sublist (sbytes m s) (sbytes m (rd_span r))"
  by (rule sublist_order.order_trans [OF _ LengthPrefixed_stands(2)]) simp_all

lemma id_record_stands:
  assumes "span_in m s" "id_record m s = Got v"
  shows "sublist (PutU32 (ib_id v) @ PutU32 (of_nat (sp_size (ib_bytes v))) @ sbytes m (ib_bytes v)) (sbytes m s)"
proof -
  obtain r1 r2 where r: "U32Value m (Reader_new s) = Got (ib_id v, r1)" "LengthPrefixed m r1 = Got (ib_bytes v, r2)"
    using assms(2) by (auto simp: id_record_def and_then_Got)
  have u: "U32 m (sp_data s) = Got (ib_id v)" "r1 = \<lparr>rd_span = s, rd_position = 4\<rparr>"
    using r(1) by (auto simp: U32Value_def Reader_new_def and_then_Got split: if_splits)
  have in1: "reader_in m r1" using U32Value_in(2) [OF _ r(1)] assms(1) by simp
  note l = LengthPrefixed_stands [OF in1 r(2)]
  have "4 + (4 + sp_size (ib_bytes v)) \<le> sp_size s"
    using LengthPrefixed_in(2) [OF in1 r(2)] l(1,3) u(2) by (simp add: reader_in_def)
  then have "sublist (take (4 + (4 + sp_size (ib_bytes v))) (drop (sp_data s + 0) m)) (sbytes m s)"
    using assms(1) by (intro sub_span) simp_all
  moreover have "take (4 + (4 + sp_size (ib_bytes v))) (drop (sp_data s) m) =
      PutU32 (ib_id v) @ PutU32 (of_nat (sp_size (ib_bytes v))) @ sbytes m (ib_bytes v)"
    using U32_stands [OF u(1)] l(4) u(2) by (simp only: take_add) (simp add: add.commute)
  ultimately show ?thesis by simp
qed

section \<open>What an accepted certificate says\<close>

text \<open>
  A key verified data that contains the record of the content digest and the certificate; the certificate has the
  fingerprint and carries the key.
\<close>

definition vouched :: "('k, 'c) Openssl \<Rightarrow> bytes \<Rightarrow> SigningBlock \<Rightarrow> string \<Rightarrow> bool" where
  "vouched ssl m b fingerprint \<longleftrightarrow>
     (\<exists>algorithm key key' sig data digest encoded certificate n h.
        SupportedAlgorithm (sa_id algorithm) = Some algorithm \<and>
        EVP_DigestVerify ssl (sa_digest algorithm) (sa_pss algorithm) key sig data \<and>
        digest_sections ssl (sa_digest algorithm) (signed_content m b) = Got (Inr digest) \<and>
        sublist (PutU32 (sa_id algorithm) @ PutU32 (of_nat (length digest)) @ digest) data \<and>
        sublist encoded data \<and> d2i_X509 ssl encoded = Some (certificate, n) \<and>
        X509_get_pubkey ssl certificate = Some key' \<and> EVP_PKEY_eq ssl key' key \<and>
        evp_digest ssl EVP_sha256 encoded = Some h \<and> fingerprint = Hex h)"

lemma ParseIdSequence_stands:
  "reader_in m r \<Longrightarrow> ParseIdSequence m r vs = Got (Inr out) \<Longrightarrow>
    list_all (\<lambda>v. v \<in> set vs \<or>
      sublist (PutU32 (ib_id v) @ PutU32 (of_nat (sp_size (ib_bytes v))) @ sbytes m (ib_bytes v)) (sbytes m (rd_span r))) out"
proof (induction m r vs rule: ParseIdSequence.induct)
  case (1 m r vs)
  show ?case
  proof (cases "remaining r > 0")
    case True
    then obtain s r' v where l: "LengthPrefixed m r = Got (s, r')" "id_record m s = Got v"
        "ParseIdSequence m r' (vs @ [v]) = Got (Inr out)"
      using "1.prems"(2) by (subst (asm) ParseIdSequence.simps) (auto simp: or_else_Inr split: outcome.splits)
    have i: "span_in m s" "reader_in m r'" using LengthPrefixed_in(2) [OF "1.prems"(1) l(1)] by simp_all
    have "sublist (PutU32 (ib_id v) @ PutU32 (of_nat (sp_size (ib_bytes v))) @ sbytes m (ib_bytes v)) (sbytes m (rd_span r))"
      using id_record_stands [OF i(1) l(2)] LengthPrefixed_sublist [OF "1.prems"(1) l(1)] by (rule sublist_order.order_trans)
    then show ?thesis using "1.IH" [OF True l(1) refl i(2) l(3)] LengthPrefixed_stands(1) [OF "1.prems"(1) l(1)]
      by (auto simp: list_all_iff)
  next
    case False
    then show ?thesis using "1.prems"(2) by (subst (asm) ParseIdSequence.simps) (auto simp: list_all_iff split: if_splits)
  qed
qed

lemma supported_id: "SupportedAlgorithm i = Some algorithm \<Longrightarrow> sa_id algorithm = i"
  by (auto simp: SupportedAlgorithm_def split: if_splits)

lemma select_record_digest:
  "select_record ds ss = Some (algorithm, sig, dig) \<Longrightarrow>
    SupportedAlgorithm (sa_id algorithm) = Some algorithm \<and> (\<exists>d \<in> set ds. ib_id d = sa_id algorithm \<and> ib_bytes d = dig)"
proof (induction ds ss rule: select_record.induct)
  case (2 ds s rest)
  show ?case
  proof (cases "SupportedAlgorithm (ib_id s)")
    case (Some a)
    show ?thesis
    proof (cases "find (\<lambda>d. ib_id d = sa_id a) ds")
      case None
      then show ?thesis using 2 Some by simp
    next
      case f: (Some d)
      then have "d \<in> set ds" "ib_id d = sa_id a" by (auto simp: find_Some_iff)
      then show ?thesis using "2.prems" Some f supported_id [OF Some] by auto
    qed
  qed (use 2 in simp)
qed simp

text \<open>The certificate of the first round is the one that is reported.\<close>

lemma certificate_loop_leaf:
  "certificate_loop ssl m key r (Some leaf) = Got (Inr fingerprint) \<Longrightarrow> fingerprint = leaf"
proof (induction ssl m key r "Some leaf" rule: certificate_loop.induct)
  case (1 ssl m key r)
  show ?case
  proof (cases "remaining r > 0")
    case True
    then obtain s r' c where "LengthPrefixed m r = Got (s, r')" "sp_size s \<noteq> 0"
        "certificate_step ssl m key False s = Got (Inr c)" "certificate_loop ssl m key r' (Some leaf) = Got (Inr fingerprint)"
      using "1.prems" by (subst (asm) certificate_loop.simps) (auto simp: try_then_Inr split: outcome.splits if_splits)
    then show ?thesis using "1.hyps" [OF True _ refl] by auto
  next
    case False
    then show ?thesis using "1.prems" by (subst (asm) certificate_loop.simps) simp
  qed
qed

lemma rd_span_new [simp]: "rd_span (Reader_new s) = s"
  by (simp add: Reader_new_def)

lemma certificate_loop_first:
  assumes "reader_in m r" "certificate_loop ssl m key r None = Got (Inr fingerprint)"
  shows "\<exists>encoded certificate n key' h. sublist encoded (sbytes m (rd_span r)) \<and> d2i_X509 ssl encoded = Some (certificate, n) \<and>
    X509_get_pubkey ssl certificate = Some key' \<and> EVP_PKEY_eq ssl key' key \<and>
    evp_digest ssl EVP_sha256 encoded = Some h \<and> fingerprint = Hex h"
proof -
  obtain s r' c where "LengthPrefixed m r = Got (s, r')" "certificate_step ssl m key True s = Got (Inr c)"
      "certificate_loop ssl m key r' (Some c) = Got (Inr fingerprint)"
    using assms(2) [unfolded certificate_loop.simps [of ssl m key r None]]
    by (auto simp: try_then_Inr split: outcome.splits if_splits)
  then have l: "LengthPrefixed m r = Got (s, r')" "certificate_step ssl m key True s = Got (Inr fingerprint)"
    using certificate_loop_leaf [of ssl m key r' c fingerprint] by simp_all
  then show ?thesis using LengthPrefixed_sublist [OF assms(1) l(1)] span_bytes_Got [of m s]
    by (fastforce simp: certificate_step_def and_then_Got split: option.splits if_splits prod.splits)
qed

lemma signer_fields_data:
  assumes "signed_fields m v3 sdk s = Got (Inr (digests, certificates))" "span_in m s"
  shows "sublist (sbytes m digests) (sbytes m s)" "sublist (sbytes m certificates) (sbytes m s)"
proof -
  obtain r1 r2 where r: "LengthPrefixed m (Reader_new s) = Got (digests, r1)" "LengthPrefixed m r1 = Got (certificates, r2)"
    using assms(1) by (auto simp: signed_fields_def or_else_Inr split: if_splits)
  have n: "reader_in m (Reader_new s)" "rd_span (Reader_new s) = s" using assms(2) by auto
  note l = LengthPrefixed_stands(1) [OF n(1) r(1)] LengthPrefixed_in(2) [OF n(1) r(1)]
  show "sublist (sbytes m digests) (sbytes m s)" using LengthPrefixed_sublist [OF n(1) r(1)] n(2) by simp
  show "sublist (sbytes m certificates) (sbytes m s)" using LengthPrefixed_sublist [OF _ r(2)] l n(2) by simp
qed

lemma VerifySigner_vouched:
  assumes "span_in m signer" "VerifySigner ssl m b signer v3 = Got (Inr fingerprint)"
  shows "vouched ssl m b fingerprint"
proof -
  obtain data sdk sigs key_bytes digests certs ds ss sel where
      f: "signer_fields m v3 signer = Got (Inr (data, sdk, sigs, key_bytes))"
    and g: "signed_fields m v3 sdk data = Got (Inr (digests, certs))"
    and d: "ParseIdSequence m (Reader_new digests) [] = Got (Inr ds)"
    and sel: "select_record ds ss = Some sel" "verify_selected ssl m b data key_bytes certs sel = Got (Inr fingerprint)"
    using assms(2) by (auto simp: VerifySigner_def try_then_Inr split: if_splits option.splits prod.splits)
  obtain algorithm sig dig where tr: "sel = (algorithm, sig, dig)" by (cases sel)
  obtain key n calculated where
      v: "VerifySignedData ssl m data sig algorithm key = Got (Inr ())"
        "ComputeContentDigest ssl m b (sa_digest algorithm) = Got (Inr calculated)"
        "sp_size dig = length calculated" "span_bytes m dig = Got calculated"
        "certificate_loop ssl m key (Reader_new certs) None = Got (Inr fingerprint)"
    using sel(2) tr by (auto simp: verify_selected_def and_then_Got try_then_Inr split: if_splits option.splits prod.splits)
  have i: "span_in m data" using signer_fields_in [OF assms(1) f] by simp
  have j: "span_in m digests" "span_in m certs" using signed_fields_in [OF i g] by simp_all
  obtain sg where ver: "EVP_DigestVerify ssl (sa_digest algorithm) (sa_pss algorithm) key sg (sbytes m data)"
    using v(1) span_bytes_Got [of m data] by (auto simp: VerifySignedData_def and_then_Got split: if_splits)
  obtain rec where rec: "rec \<in> set ds" "ib_id rec = sa_id algorithm" "ib_bytes rec = dig"
      and sup: "SupportedAlgorithm (sa_id algorithm) = Some algorithm"
    using select_record_digest [of ds ss algorithm sig dig] sel(1) tr by auto
  have "sublist (PutU32 (sa_id algorithm) @ PutU32 (of_nat (length calculated)) @ calculated) (sbytes m digests)"
    using ParseIdSequence_stands [OF _ d] j(1) rec v(3) span_bytes_Got [OF v(4)] by (auto simp: list_all_iff)
  then have dat: "sublist (PutU32 (sa_id algorithm) @ PutU32 (of_nat (length calculated)) @ calculated) (sbytes m data)"
    using signer_fields_data(1) [OF g i] by (rule sublist_order.order_trans)
  obtain encoded certificate k key' h where c: "sublist encoded (sbytes m certs)" "d2i_X509 ssl encoded = Some (certificate, k)"
      "X509_get_pubkey ssl certificate = Some key'" "EVP_PKEY_eq ssl key' key" "evp_digest ssl EVP_sha256 encoded = Some h"
      "fingerprint = Hex h"
    using certificate_loop_first [OF _ v(5)] j(2) by auto
  have "sublist encoded (sbytes m data)" using c(1) signer_fields_data(2) [OF g i] by (rule sublist_order.order_trans)
  then show ?thesis unfolding vouched_def
    using sup ver dat c(2-6) ComputeContentDigest_content [OF v(2)] by blast
qed

lemma and_then_sum:
  "and_then x (\<lambda>v. case v of Inl e \<Rightarrow> fail (g e) | Inr c \<Rightarrow> f c) = Got (Inr y) \<longleftrightarrow> (\<exists>c. x = Got (Inr c) \<and> f c = Got (Inr y))"
proof (cases x)
  case (Got v)
  then show ?thesis by (cases v) auto
qed simp_all

lemma signer_loop_vouched:
  "reader_in m r \<Longrightarrow> list_all (vouched ssl m b) cs \<Longrightarrow> n = length cs \<Longrightarrow> signer_loop ssl m b v3 r n cs = Got (Inr out) \<Longrightarrow>
    list_all (vouched ssl m b) out \<and> out \<noteq> []"
proof (induction ssl m b v3 r n cs rule: signer_loop.induct)
  case (1 ssl m b v3 r n cs)
  show ?case
  proof (cases "remaining r > 0")
    case True
    then obtain s r' c where l: "LengthPrefixed m r = Got (s, r')" "sp_size s \<noteq> 0" "VerifySigner ssl m b s v3 = Got (Inr c)"
        "\<not> n + 1 > 16" "signer_loop ssl m b v3 r' (n + 1) (cs @ [c]) = Got (Inr out)"
      using "1.prems"(4) [unfolded signer_loop.simps [of ssl m b v3 r n cs]]
      by (auto simp: and_then_sum split: outcome.splits if_splits)
    have i: "span_in m s" "reader_in m r'" using LengthPrefixed_in(2) [OF "1.prems"(1) l(1)] by simp_all
    show ?thesis
      using "1.IH" [OF True l(1) refl l(2) l(4) i(2) _ _ l(5)] "1.prems"(2,3) VerifySigner_vouched [OF i(1) l(3)] by auto
  next
    case False
    then show ?thesis using "1.prems"(2-4) by (subst (asm) signer_loop.simps) (auto split: if_splits)
  qed
qed

lemma parse_pairs_error: "parse_pairs m cursor pairs_end b \<noteq> Got (Inl [])"
proof (induction m cursor pairs_end b rule: parse_pairs.induct)
  case (1 m cursor pairs_end b)
  then show ?case
    by (subst parse_pairs.simps) (auto simp: Let_def fail_def and_then_Got split: option.splits if_splits)
qed

lemma find_eocd_error: "find_eocd m ps \<noteq> Got (Inl [])"
  by (induction ps) (auto simp: fail_def and_then_Got split: if_splits)

lemma ParseSigningBlock_error: "ParseSigningBlock m \<noteq> Got (Inl [])"
proof
  assume p: "ParseSigningBlock m = Got (Inl [])"
  have "FindEocd m \<noteq> Got (Inl [])" by (simp add: FindEocd_def Let_def find_eocd_error)
  then obtain eocd where "FindEocd m = Got (Inr eocd)"
    using p by (cases "FindEocd m") (auto simp: ParseSigningBlock_def try_then_def split: sum.splits)
  then show False
    using p parse_pairs_error
    by (auto simp: ParseSigningBlock_def try_then_def and_then_Got Let_def fail_def split: if_splits)
qed

text \<open>Every certificate of a result without error is vouched for.\<close>

lemma VerifyApkSignature_ok:
  assumes "VerifyApkSignature ssl f = Got r" "signature_ok r"
  shows "\<exists>b. ParseSigningBlock (af_bytes f) = Got (Inr b) \<and> list_all (vouched ssl (af_bytes f) b) (ar_certificate_sha256 r)"
proof -
  have m: "MapFile f = Inr (af_bytes f)" and l: "32 \<le> length (af_bytes f)"
    using assms by (auto simp: VerifyApkSignature_def MapFile_def signature_ok_def signature_error_def split: if_splits)
  note v = assms(1) [unfolded VerifyApkSignature_def m sum.case]
  obtain parsed where p: "ParseSigningBlock (af_bytes f) = Got parsed" using v by (auto simp: and_then_Got)
  then obtain b where b: "ParseSigningBlock (af_bytes f) = Got (Inr b)"
    using v assms(2) ParseSigningBlock_error [of "af_bytes f"]
    by (cases parsed) (auto simp: signature_ok_def signature_error_def)
  obtain scheme v3 where c: "chosen_scheme b = (scheme, v3)" by fastforce
  have i: "block_in (af_bytes f) b" using answered_ParseSigningBlock [OF l, of b] b by simp
  obtain x where x: "VerifyScheme ssl (af_bytes f) b scheme v3 = Got x" using v b c by (auto simp: and_then_Got)
  show ?thesis
  proof (cases x)
    case (Inl e)
    then show ?thesis using v b c x by (auto simp: signature_error_def)
  next
    case (Inr certificates)
    then obtain seq r' where q: "LengthPrefixed (af_bytes f) (Reader_new scheme) = Got (seq, r')"
        "signer_loop ssl (af_bytes f) b v3 (Reader_new seq) 0 [] = Got (Inr certificates)"
      using x by (auto simp: VerifyScheme_def or_else_Inr and_then_Got)
    have "span_in (af_bytes f) seq" using LengthPrefixed_in(2) [OF _ q(1)] chosen_in [OF i c] by simp
    then have "list_all (vouched ssl (af_bytes f) b) certificates" using signer_loop_vouched [OF _ _ _ q(2)] by simp
    moreover have "ar_certificate_sha256 r = remdups_adj (sort certificates)" using v b c x Inr by auto
    ultimately show ?thesis using b by (auto simp: list_all_iff)
  qed
qed

end
