(* ===== verification/Signature_Roundtrip.thy ===== *)
theory Signature_Roundtrip
  imports Signature_Trust
begin

text \<open>
  An APK that is signed as scheme v2 prescribes is accepted: the block of one signer with one algorithm and one
  certificate, written between the entries and the central directory. This also shows that the hypotheses of the
  other properties can hold.
\<close>

section \<open>Writing a signed APK\<close>

definition prefixed :: "bytes \<Rightarrow> bytes" where
  "prefixed bs = PutU32 (of_nat (length bs)) @ bs"

definition put64 :: "nat \<Rightarrow> bytes" where
  "put64 n = PutU32 (of_nat n) @ PutU32 0"

definition signing_block :: "bytes \<Rightarrow> bytes" where
  "signing_block v =
     put64 (36 + length v) @ put64 (4 + length v) @ PutU32 kV2BlockId @ v @ put64 (36 + length v) @ kSigningMagic"

text \<open>An end record without comment that points to the central directory at an offset.\<close>

definition end_record :: "bytes \<Rightarrow> nat \<Rightarrow> bytes" where
  "end_record middle offset = PutU32 kZipEocdSignature @ middle @ PutU32 (of_nat offset) @ [0] @ [0]"

definition signed_apk :: "bytes \<Rightarrow> bytes \<Rightarrow> bytes \<Rightarrow> bytes \<Rightarrow> bytes" where
  "signed_apk contents directory middle v =
     contents @ signing_block v @ directory @ end_record middle (length contents + 44 + length v)"

definition id_value :: "u32 \<Rightarrow> bytes \<Rightarrow> bytes" where
  "id_value i bs = prefixed (prefixed (PutU32 i @ prefixed bs))"

definition signed_data :: "u32 \<Rightarrow> bytes \<Rightarrow> bytes \<Rightarrow> bytes" where
  "signed_data i digest certificate = id_value i digest @ prefixed (prefixed certificate) @ prefixed []"

definition v2_value :: "u32 \<Rightarrow> bytes \<Rightarrow> bytes \<Rightarrow> bytes \<Rightarrow> bytes \<Rightarrow> bytes" where
  "v2_value i digest certificate sig key =
     prefixed (prefixed (prefixed (signed_data i digest certificate) @ id_value i sig @ prefixed key))"

section \<open>Reading what was written\<close>

lemma length_PutU32 [simp]: "length (PutU32 v) = 4"
  by (simp add: PutU32_def)

lemma length_prefixed [simp]: "length (prefixed bs) = 4 + length bs"
  by (simp add: prefixed_def)

lemma length_put64 [simp]: "length (put64 n) = 8"
  by (simp add: put64_def)

lemma length_magic [simp]: "length kSigningMagic = 16"
  by (simp add: kSigningMagic_def ascii_def)

lemma stands_word: "stands m p (PutU32 v) \<Longrightarrow> U32 m p = Got v"
  using stands_within [of m p "PutU32 v"] stands_nth [of m p "PutU32 v" 0] stands_nth [of m p "PutU32 v" 1]
    stands_nth [of m p "PutU32 v" 2] stands_nth [of m p "PutU32 v" 3]
  by (simp add: U32_def byte_at_def PutU32_def le32_enc)

lemma unat_small: "n < 2 ^ 32 \<Longrightarrow> unat (of_nat n :: u32) = n" "n < 2 ^ 32 \<Longrightarrow> unat (of_nat n :: u64) = n"
  by (simp_all add: unat_of_nat take_bit_eq_mod)

lemma stands_word64:
  assumes "stands m p (put64 n)" "n < 2 ^ 32"
  shows "U64 m p = Got (of_nat n)"
proof -
  have "U32 m p = Got (of_nat n)" "U32 m (p + 4) = Got 0"
    using assms(1) by (auto simp: put64_def stands_append intro!: stands_word)
  moreover have "ucast (of_nat n :: u32) = (of_nat n :: u64)"
    using assms(2) by (simp add: unsigned_of_nat take_bit_eq_mod)
  ultimately show ?thesis by (simp add: U64_def)
qed

lemma stands_region: "stands m p bs \<Longrightarrow> n = length bs \<Longrightarrow> region m p n = Got bs"
  by (auto simp: stands_def region_def)

lemma stands_span: "stands m p bs \<Longrightarrow> span_bytes m \<lparr>sp_data = p, sp_size = length bs\<rparr> = Got bs"
  by (simp add: span_bytes_def stands_region)

lemma stands_prefixed:
  assumes "stands m (sp_data s + p) (prefixed bs)" "p + 4 + length bs \<le> sp_size s" "length bs < 2 ^ 32"
  shows "LengthPrefixed m \<lparr>rd_span = s, rd_position = p\<rparr> =
    Got (\<lparr>sp_data = sp_data s + p + 4, sp_size = length bs\<rparr>, \<lparr>rd_span = s, rd_position = p + 4 + length bs\<rparr>)"
proof -
  have "U32 m (sp_data s + p) = Got (of_nat (length bs))"
    using assms(1) by (auto simp: prefixed_def stands_append intro!: stands_word)
  moreover have "unat (of_nat (length bs) :: u32) = length bs" using assms(3) by (rule unat_small)
  moreover have "\<not> sp_size s - p < 4" "\<not> length bs > sp_size s - (p + 4)" using assms(2) by simp_all
  ultimately show ?thesis by (simp add: LengthPrefixed_def U32Value_def remaining_def)
qed

lemma FindEocd_last:
  assumes "22 \<le> length m" "eocd_at m (length m - 22) = Got True"
  shows "FindEocd m = Got (Inr (length m - 22))"
proof -
  have "rev [k..<length m - 21] = (length m - 22) # rev [k..<length m - 22]" if "k \<le> length m - 22" for k
  proof -
    have "length m - 21 = Suc (length m - 22)" using assms(1) by simp
    then show ?thesis using that by simp
  qed
  then show ?thesis using assms by (simp add: FindEocd_def Let_def)
qed

lemma signed_apk_parsed:
  assumes size: "length contents + 44 + length v < 2 ^ 32" and middle: "length middle = 12"
    and m_def: "m = signed_apk contents directory middle v" and n_def: "n = length contents" and cd_def: "cd = length contents + 44 + length v"
  shows "ParseSigningBlock m = Got (Inr \<lparr>sb_v2 = Some \<lparr>sp_data = n + 20, sp_size = length v\<rparr>, sb_v3 = None, sb_v31 = None,
      sb_begin = n, sb_central_directory = cd, sb_eocd = cd + length directory\<rparr>)"
proof -
  have len: "length m = cd + length directory + 22"
    using middle by (simp add: m_def cd_def signed_apk_def signing_block_def end_record_def)
  have st: "stands m 0 (contents @ put64 (36 + length v) @ put64 (4 + length v) @ PutU32 kV2BlockId @ v @
      put64 (36 + length v) @ kSigningMagic @ directory @ end_record middle cd)"
    by (simp add: stands_def m_def signed_apk_def signing_block_def cd_def)
  have cds: "cd - 24 = length contents + (length v + 20)" "cd - 16 = length contents + (length v + 28)"
      "cd = length contents + (length v + 44)" by (simp_all add: cd_def)
  have parts: "stands m n (put64 (36 + length v))" "stands m (n + 8) (put64 (4 + length v))" "stands m (n + 16) (PutU32 kV2BlockId)"
      "stands m (cd - 24) (put64 (36 + length v))" "stands m (cd - 16) kSigningMagic"
      "stands m (cd + length directory) (end_record middle cd)"
    using st unfolding stands_append n_def cds(1,2) by (simp_all add: cds(3) add.commute add.left_commute)
  define e where "e = cd + length directory"
  have ends: "stands m e (PutU32 kZipEocdSignature)" "stands m (e + 16) (PutU32 (of_nat cd))" "stands m (e + 20) [0]" "stands m (e + 21) [0]"
    using parts(6) [folded e_def] middle unfolding end_record_def stands_append by (simp_all add: add.commute add.left_commute)
  have eo: "eocd_at m (length m - 22) = Got True"
  proof -
    have "U32 m e = Got kZipEocdSignature" "byte_at m (e + 20) = Got 0" "byte_at m (e + 21) = Got 0"
      using ends by (auto intro: stands_word stands_byte)
    then show ?thesis using len by (simp add: eocd_at_def le16_def flip: e_def)
  qed
  have f: "FindEocd m = Got (Inr (cd + length directory))" using FindEocd_last [OF _ eo] len by simp
  have u: "U32 m (cd + length directory + 16) = Got (of_nat cd)"
    using ends(2) by (auto simp: e_def intro: stands_word)
  have w: "unat (of_nat cd :: u32) = cd" using size unfolding cd_def by (rule unat_small)
  define a b where "a = 36 + length v" and "b = 4 + length v"
  have ab: "a < 2 ^ 32" "b < 2 ^ 32" "24 \<le> a" "4 \<le> b" using size by (simp_all add: a_def b_def)
  have s: "U64 m (cd - 24) = Got (of_nat a)" "U64 m n = Got (of_nat a)" "U64 m (n + 8) = Got (of_nat b)"
    using parts(1,2,4) [folded a_def b_def] ab(1,2) by (simp_all add: stands_word64)
  have x: "unat (of_nat a :: u64) = a" "unat (of_nat b :: u64) = b" using ab by (simp_all add: unat_small)
  have y: "\<not> (of_nat a :: u64) < 24" "\<not> (of_nat b :: u64) < 4" using x ab by (simp_all add: word_less_nat_alt)
  have "unat ((of_nat b :: u64) - 4) = b - 4" using x(2) y(2) by (simp add: unat_sub not_less)
  then have z: "unat ((of_nat b :: u64) - 4) = length v" by (simp add: b_def)
  have i: "U32 m (n + 16) = Got kV2BlockId" using parts(3) by (rule stands_word)
  have start: "cd - (a + 8) = n" by (simp add: cd_def n_def a_def)
  have cur: "n + 8 < cd - 24" "\<not> cd - 24 - (n + 8) < 12" "\<not> b > cd - 24 - (n + 8 + 8)" "n + 8 + 8 + b = cd - 24" "n + 8 + 8 + 4 = n + 20"
    by (simp_all add: cd_def n_def b_def)
  let ?b = "\<lparr>sb_v2 = None, sb_v3 = None, sb_v31 = None, sb_begin = n, sb_central_directory = cd, sb_eocd = cd + length directory\<rparr>"
  let ?b' = "?b\<lparr>sb_v2 := Some \<lparr>sp_data = n + 20, sp_size = length v\<rparr>\<rparr>"
  have sel: "select_pair kV2BlockId \<lparr>sp_data = n + 20, sp_size = length v\<rparr> ?b = Some ?b'"
    by (simp add: select_pair_def kV2BlockId_def kV3BlockId_def kV31BlockId_def)
  have "parse_pairs m (n + 8) (cd - 24) ?b = parse_pairs m (cd - 24) (cd - 24) ?b'"
    by (subst parse_pairs.simps) (use s(3) x(2) y(2) z i cur sel in \<open>simp add: Let_def add.commute\<close>)
  also have "\<dots> = Got (Inr ?b')" by (subst parse_pairs.simps) simp
  finally have more: "parse_pairs m (n + 8) (cd - 24) ?b = Got (Inr ?b')" .
  have g: "region m (cd - 16) 16 = Got kSigningMagic" using parts(5) by (intro stands_region) simp_all
  have small: "\<not> cd < 32" "\<not> cd > cd + length directory" "\<not> a > cd - 8" "\<not> a > 2 ^ 64 - 1 - 8"
    using size by (simp_all add: cd_def a_def)
  show ?thesis unfolding ParseSigningBlock_def
    using f u w g s x y(1) small start more by (simp add: try_then_def Let_def)
qed

text \<open>One field after another, as a reader sees them.\<close>

lemma read_field:
  assumes "stands m (sp_data s + p) (prefixed bs @ rest)" "p + 4 + length bs + length rest = sp_size s" "length bs < 2 ^ 32"
  shows "LengthPrefixed m \<lparr>rd_span = s, rd_position = p\<rparr> =
      Got (\<lparr>sp_data = sp_data s + p + 4, sp_size = length bs\<rparr>, \<lparr>rd_span = s, rd_position = p + 4 + length bs\<rparr>)"
    and "stands m (sp_data s + p + 4) bs" "stands m (sp_data s + (p + 4 + length bs)) rest"
    and "remaining \<lparr>rd_span = s, rd_position = p + 4 + length bs\<rparr> = length rest"
proof -
  have st: "stands m (sp_data s + p) (prefixed bs)" "stands m (sp_data s + (p + 4 + length bs)) rest"
    using assms(1) unfolding stands_append by (simp_all add: add.assoc)
  show "LengthPrefixed m \<lparr>rd_span = s, rd_position = p\<rparr> =
      Got (\<lparr>sp_data = sp_data s + p + 4, sp_size = length bs\<rparr>, \<lparr>rd_span = s, rd_position = p + 4 + length bs\<rparr>)"
    using st(1) assms(2,3) by (intro stands_prefixed) simp_all
  show "stands m (sp_data s + p + 4) bs" using st(1) unfolding prefixed_def stands_append by simp
  show "stands m (sp_data s + (p + 4 + length bs)) rest" by (rule st(2))
  show "remaining \<lparr>rd_span = s, rd_position = p + 4 + length bs\<rparr> = length rest" using assms(2) by (simp add: remaining_def)
qed

lemma first_field:
  assumes "stands m a (prefixed bs @ rest)" "n = 4 + length bs + length rest" "length bs < 2 ^ 32"
  shows "LengthPrefixed m (Reader_new \<lparr>sp_data = a, sp_size = n\<rparr>) =
      Got (\<lparr>sp_data = a + 4, sp_size = length bs\<rparr>, \<lparr>rd_span = \<lparr>sp_data = a, sp_size = n\<rparr>, rd_position = 4 + length bs\<rparr>)"
    and "stands m (a + 4) bs" "stands m (a + (4 + length bs)) rest"
    and "remaining \<lparr>rd_span = \<lparr>sp_data = a, sp_size = n\<rparr>, rd_position = 4 + length bs\<rparr> = length rest"
  using read_field [of m "\<lparr>sp_data = a, sp_size = n\<rparr>" 0 bs rest] assms by (simp_all add: Reader_new_def)

lemma read_ids:
  assumes "stands m a (prefixed (PutU32 i @ prefixed bs))" "n = 12 + length bs" "length bs + 8 < 2 ^ 32"
  shows "ParseIdSequence m (Reader_new \<lparr>sp_data = a, sp_size = n\<rparr>) [] =
    Got (Inr [\<lparr>ib_id = i, ib_bytes = \<lparr>sp_data = a + 12, sp_size = length bs\<rparr>\<rparr>])" "stands m (a + 12) bs"
proof -
  note f = first_field [of m a "PutU32 i @ prefixed bs" "[]" n]
  have st: "stands m (a + 4) (PutU32 i @ prefixed bs)" using assms by (intro f(2)) simp_all
  then have u: "U32 m (a + 4) = Got i" and p: "stands m (a + 4 + 4) (prefixed bs)"
    unfolding stands_append by (simp_all add: stands_word)
  show "stands m (a + 12) bs" using p unfolding prefixed_def stands_append by (simp add: add.commute)
  let ?s = "\<lparr>sp_data = a + 4, sp_size = 8 + length bs\<rparr>"
  have "U32Value m (Reader_new ?s) = Got (i, \<lparr>rd_span = ?s, rd_position = 4\<rparr>)"
    using u by (simp add: U32Value_def Reader_new_def remaining_def)
  moreover have "LengthPrefixed m \<lparr>rd_span = ?s, rd_position = 4\<rparr> =
      Got (\<lparr>sp_data = a + 12, sp_size = length bs\<rparr>, \<lparr>rd_span = ?s, rd_position = 8 + length bs\<rparr>)"
    using stands_prefixed [of m ?s 4 bs] p assms(3) by simp
  ultimately have rec: "id_record m ?s = Got \<lparr>ib_id = i, ib_bytes = \<lparr>sp_data = a + 12, sp_size = length bs\<rparr>\<rparr>"
    by (simp add: id_record_def remaining_def require_def)
  have l: "LengthPrefixed m (Reader_new \<lparr>sp_data = a, sp_size = n\<rparr>) = Got (?s, \<lparr>rd_span = \<lparr>sp_data = a, sp_size = n\<rparr>, rd_position = n\<rparr>)"
    using f(1) assms by simp
  have r: "remaining (Reader_new \<lparr>sp_data = a, sp_size = n\<rparr>) > 0" "remaining \<lparr>rd_span = \<lparr>sp_data = a, sp_size = n\<rparr>, rd_position = n\<rparr> = 0"
    using assms(2) by (simp_all add: remaining_def Reader_new_def)
  show "ParseIdSequence m (Reader_new \<lparr>sp_data = a, sp_size = n\<rparr>) [] =
    Got (Inr [\<lparr>ib_id = i, ib_bytes = \<lparr>sp_data = a + 12, sp_size = length bs\<rparr>\<rparr>])"
    by (subst ParseIdSequence.simps) (use l rec r in \<open>simp add: ParseIdSequence.simps [of m "\<lparr>rd_span = \<lparr>sp_data = a, sp_size = n\<rparr>, rd_position = n\<rparr>"]\<close>)
qed

lemma length_id_value [simp]: "length (id_value i bs) = 16 + length bs"
  by (simp add: id_value_def)

lemma read_signer_fields:
  assumes st: "stands m a (prefixed data @ id_value i sig @ prefixed key)" and size: "length data + length sig + length key + 40 < 2 ^ 32"
  shows "signer_fields m False \<lparr>sp_data = a, sp_size = 24 + length data + length sig + length key\<rparr> =
      Got (Inr (\<lparr>sp_data = a + 4, sp_size = length data\<rparr>, (0, 0), \<lparr>sp_data = a + length data + 8, sp_size = 12 + length sig\<rparr>,
        \<lparr>sp_data = a + length data + length sig + 24, sp_size = length key\<rparr>))"
    and "stands m (a + 4) data" "stands m (a + length data + 8) (prefixed (PutU32 i @ prefixed sig))"
    "stands m (a + length data + length sig + 24) key"
proof -
  let ?n = "24 + length data + length sig + length key"
  let ?s = "\<lparr>sp_data = a, sp_size = ?n\<rparr>"
  note f = first_field [OF st, of ?n]
  have f: "LengthPrefixed m (Reader_new ?s) = Got (\<lparr>sp_data = a + 4, sp_size = length data\<rparr>, \<lparr>rd_span = ?s, rd_position = 4 + length data\<rparr>)"
      "stands m (a + 4) data" "stands m (a + (4 + length data)) (id_value i sig @ prefixed key)"
    using f(1-3) size by simp_all
  note g = read_field [of m ?s "4 + length data" "prefixed (PutU32 i @ prefixed sig)" "prefixed key", folded id_value_def]
  have g: "LengthPrefixed m \<lparr>rd_span = ?s, rd_position = 4 + length data\<rparr> =
        Got (\<lparr>sp_data = a + length data + 8, sp_size = 12 + length sig\<rparr>, \<lparr>rd_span = ?s, rd_position = 20 + length data + length sig\<rparr>)"
      "stands m (a + length data + 8) (prefixed (PutU32 i @ prefixed sig))" "stands m (a + (20 + length data + length sig)) (prefixed key @ [])"
    using g(1-3) f(3) size by (simp_all add: id_value_def ac_simps)
  note h = read_field [of m ?s "20 + length data + length sig" key "[]"]
  have h: "LengthPrefixed m \<lparr>rd_span = ?s, rd_position = 20 + length data + length sig\<rparr> =
        Got (\<lparr>sp_data = a + length data + length sig + 24, sp_size = length key\<rparr>, \<lparr>rd_span = ?s, rd_position = ?n\<rparr>)"
      "stands m (a + length data + length sig + 24) key"
    using h(1,2) g(3) size by (simp_all add: ac_simps)
  have "remaining \<lparr>rd_span = ?s, rd_position = ?n\<rparr> = 0" by (simp add: remaining_def)
  then show "signer_fields m False ?s = Got (Inr (\<lparr>sp_data = a + 4, sp_size = length data\<rparr>, (0, 0),
      \<lparr>sp_data = a + length data + 8, sp_size = 12 + length sig\<rparr>, \<lparr>sp_data = a + length data + length sig + 24, sp_size = length key\<rparr>))"
    unfolding signer_fields_def sdk_range_def using f(1) g(1) h(1) by (simp add: Let_def require_def)
  show "stands m (a + 4) data" "stands m (a + length data + 8) (prefixed (PutU32 i @ prefixed sig))"
    "stands m (a + length data + length sig + 24) key" using f(2) g(2) h(2) by simp_all
qed

lemma read_signed_fields:
  assumes st: "stands m a (signed_data i digest certificate)" and size: "length digest + length certificate + 40 < 2 ^ 32"
  shows "signed_fields m False sdk \<lparr>sp_data = a, sp_size = 28 + length digest + length certificate\<rparr> =
      Got (Inr (\<lparr>sp_data = a + 4, sp_size = 12 + length digest\<rparr>, \<lparr>sp_data = a + length digest + 20, sp_size = 4 + length certificate\<rparr>))"
    and "stands m (a + 4) (prefixed (PutU32 i @ prefixed digest))" "stands m (a + length digest + 20) (prefixed certificate)"
proof -
  let ?n = "28 + length digest + length certificate"
  let ?s = "\<lparr>sp_data = a, sp_size = ?n\<rparr>"
  note f = first_field [OF st [unfolded signed_data_def id_value_def], of ?n]
  have f: "LengthPrefixed m (Reader_new ?s) = Got (\<lparr>sp_data = a + 4, sp_size = 12 + length digest\<rparr>, \<lparr>rd_span = ?s, rd_position = 16 + length digest\<rparr>)"
      "stands m (a + 4) (prefixed (PutU32 i @ prefixed digest))" "stands m (a + (16 + length digest)) (prefixed (prefixed certificate) @ prefixed [])"
    using f(1-3) size by (simp_all add: ac_simps)
  note g = read_field [of m ?s "16 + length digest" "prefixed certificate" "prefixed []"]
  have g: "LengthPrefixed m \<lparr>rd_span = ?s, rd_position = 16 + length digest\<rparr> =
        Got (\<lparr>sp_data = a + length digest + 20, sp_size = 4 + length certificate\<rparr>, \<lparr>rd_span = ?s, rd_position = 24 + length digest + length certificate\<rparr>)"
      "stands m (a + length digest + 20) (prefixed certificate)" "stands m (a + (24 + length digest + length certificate)) (prefixed [] @ [])"
    using g(1-3) f(3) size by (simp_all add: ac_simps)
  note h = read_field [of m ?s "24 + length digest + length certificate" "[]" "[]"]
  have h: "LengthPrefixed m \<lparr>rd_span = ?s, rd_position = 24 + length digest + length certificate\<rparr> =
        Got (\<lparr>sp_data = a + length digest + length certificate + 28, sp_size = 0\<rparr>, \<lparr>rd_span = ?s, rd_position = ?n\<rparr>)"
    using h(1) g(3) size by (simp add: ac_simps)
  have "remaining \<lparr>rd_span = ?s, rd_position = ?n\<rparr> = 0" by (simp add: remaining_def)
  then show "signed_fields m False sdk ?s =
      Got (Inr (\<lparr>sp_data = a + 4, sp_size = 12 + length digest\<rparr>, \<lparr>sp_data = a + length digest + 20, sp_size = 4 + length certificate\<rparr>))"
    unfolding signed_fields_def sdk_range_def using f(1) g(1) h by simp
  show "stands m (a + 4) (prefixed (PutU32 i @ prefixed digest))" "stands m (a + length digest + 20) (prefixed certificate)"
    using f(2) g(2) by simp_all
qed

lemma read_certificate:
  assumes st: "stands m a (prefixed certificate)" and size: "length certificate < 2 ^ 32" "certificate \<noteq> []"
    and ok: "d2i_X509 ssl certificate = Some (c, length certificate)" "X509_get_pubkey ssl c = Some key'" "EVP_PKEY_eq ssl key' key"
      "evp_digest ssl EVP_sha256 certificate = Some h" "length h = 32"
  shows "certificate_loop ssl m key (Reader_new \<lparr>sp_data = a, sp_size = 4 + length certificate\<rparr>) None = Got (Inr (Hex h))"
proof -
  let ?s = "\<lparr>sp_data = a, sp_size = 4 + length certificate\<rparr>"
  have f: "LengthPrefixed m (Reader_new ?s) = Got (\<lparr>sp_data = a + 4, sp_size = length certificate\<rparr>, \<lparr>rd_span = ?s, rd_position = 4 + length certificate\<rparr>)"
      "stands m (a + 4) certificate"
    using first_field(1,2) [of m a certificate "[]" "4 + length certificate"] st size by simp_all
  have "certificate_step ssl m key True \<lparr>sp_data = a + 4, sp_size = length certificate\<rparr> = Got (Inr (Hex h))"
    using stands_span [OF f(2)] ok by (simp add: certificate_step_def)
  then show ?thesis using f(1) size(2)
    by (subst certificate_loop.simps)
       (simp add: try_then_def remaining_def Reader_new_def certificate_loop.simps [of _ _ _ "\<lparr>rd_span = ?s, rd_position = 4 + length certificate\<rparr>"])
qed

text \<open>What OpenSSL must say for a signer to be accepted.\<close>

definition signer_valid ::
  "('k, 'c) Openssl \<Rightarrow> SignatureAlgorithm \<Rightarrow> bytes \<Rightarrow> bytes \<Rightarrow> bytes \<Rightarrow> bytes \<Rightarrow> bytes \<Rightarrow> bool" where
  "signer_valid ssl algorithm digest certificate sig key h \<longleftrightarrow>
     SupportedAlgorithm (sa_id algorithm) = Some algorithm \<and> certificate \<noteq> [] \<and>
     evp_digest ssl EVP_sha256 certificate = Some h \<and> length h = 32 \<and>
     (case d2i_PUBKEY ssl key of
        None \<Rightarrow> False
      | Some (k, n) \<Rightarrow> n = length key \<and> EVP_DigestVerifyInit ssl (sa_digest algorithm) k \<and> configure_pss ssl (sa_digest algorithm) k \<and>
          EVP_DigestVerify ssl (sa_digest algorithm) (sa_pss algorithm) k sig (signed_data (sa_id algorithm) digest certificate) \<and>
          (case d2i_X509 ssl certificate of
             None \<Rightarrow> False
           | Some (c, n) \<Rightarrow> n = length certificate \<and>
               (case X509_get_pubkey ssl c of None \<Rightarrow> False | Some key' \<Rightarrow> EVP_PKEY_eq ssl key' k)))"

lemma length_signed_data [simp]: "length (signed_data i digest certificate) = 28 + length digest + length certificate"
  by (simp add: signed_data_def)

lemma verify_written_signer:
  assumes st: "stands m a (prefixed (signed_data (sa_id algorithm) digest certificate) @ id_value (sa_id algorithm) sig @ prefixed key)"
    and size: "length digest + length certificate + length sig + length key + 100 < 2 ^ 32"
    and digest: "ComputeContentDigest ssl m b (sa_digest algorithm) = Got (Inr digest)"
    and valid: "signer_valid ssl algorithm digest certificate sig key h"
  shows "VerifySigner ssl m b \<lparr>sp_data = a, sp_size = 52 + length digest + length certificate + length sig + length key\<rparr> False = Got (Inr (Hex h))"
proof -
  let ?d = "28 + length digest + length certificate" and ?i = "sa_id algorithm"
  have len: "24 + ?d + length sig + length key = 52 + length digest + length certificate + length sig + length key" by simp
  note f = read_signer_fields [OF st, unfolded length_signed_data len]
  have f: "signer_fields m False \<lparr>sp_data = a, sp_size = 52 + length digest + length certificate + length sig + length key\<rparr> =
      Got (Inr (\<lparr>sp_data = a + 4, sp_size = ?d\<rparr>, (0, 0), \<lparr>sp_data = a + ?d + 8, sp_size = 12 + length sig\<rparr>,
        \<lparr>sp_data = a + ?d + length sig + 24, sp_size = length key\<rparr>))"
    "stands m (a + 4) (signed_data ?i digest certificate)" "stands m (a + ?d + 8) (prefixed (PutU32 ?i @ prefixed sig))"
    "stands m (a + ?d + length sig + 24) key"
    using f size by simp_all
  have g: "signed_fields m False (0, 0) \<lparr>sp_data = a + 4, sp_size = ?d\<rparr> =
      Got (Inr (\<lparr>sp_data = a + 4 + 4, sp_size = 12 + length digest\<rparr>, \<lparr>sp_data = a + 4 + length digest + 20, sp_size = 4 + length certificate\<rparr>))"
    "stands m (a + 4 + 4) (prefixed (PutU32 ?i @ prefixed digest))" "stands m (a + 4 + length digest + 20) (prefixed certificate)"
    using read_signed_fields [OF f(2)] size by simp_all
  note ds = read_ids [OF g(2) refl] and ss = read_ids [OF f(3) refl]
  have ds: "ParseIdSequence m (Reader_new \<lparr>sp_data = a + 4 + 4, sp_size = 12 + length digest\<rparr>) [] =
      Got (Inr [\<lparr>ib_id = ?i, ib_bytes = \<lparr>sp_data = a + 4 + 4 + 12, sp_size = length digest\<rparr>\<rparr>])" "stands m (a + 4 + 4 + 12) digest"
    and ss: "ParseIdSequence m (Reader_new \<lparr>sp_data = a + ?d + 8, sp_size = 12 + length sig\<rparr>) [] =
      Got (Inr [\<lparr>ib_id = ?i, ib_bytes = \<lparr>sp_data = a + ?d + 8 + 12, sp_size = length sig\<rparr>\<rparr>])" "stands m (a + ?d + 8 + 12) sig"
    using ds ss size by simp_all
  obtain k c key' where v: "SupportedAlgorithm ?i = Some algorithm" "d2i_PUBKEY ssl key = Some (k, length key)"
      "EVP_DigestVerifyInit ssl (sa_digest algorithm) k" "configure_pss ssl (sa_digest algorithm) k"
      "EVP_DigestVerify ssl (sa_digest algorithm) (sa_pss algorithm) k sig (signed_data ?i digest certificate)"
    and cert: "certificate \<noteq> []" "d2i_X509 ssl certificate = Some (c, length certificate)" "X509_get_pubkey ssl c = Some key'"
      "EVP_PKEY_eq ssl key' k" "evp_digest ssl EVP_sha256 certificate = Some h" "length h = 32"
    using valid by (auto simp: signer_valid_def split: option.splits prod.splits)
  have data: "span_bytes m \<lparr>sp_data = a + 4, sp_size = ?d\<rparr> = Got (signed_data ?i digest certificate)"
    using stands_span [OF f(2)] by simp
  have "certificate_loop ssl m k (Reader_new \<lparr>sp_data = a + 4 + length digest + 20, sp_size = 4 + length certificate\<rparr>) None = Got (Inr (Hex h))"
    using size by (intro read_certificate [OF g(3) _ cert]) simp
  then have "verify_selected ssl m b \<lparr>sp_data = a + 4, sp_size = ?d\<rparr> \<lparr>sp_data = a + ?d + length sig + 24, sp_size = length key\<rparr>
      \<lparr>sp_data = a + 4 + length digest + 20, sp_size = 4 + length certificate\<rparr>
      (algorithm, \<lparr>sp_data = a + ?d + 8 + 12, sp_size = length sig\<rparr>, \<lparr>sp_data = a + 4 + 4 + 12, sp_size = length digest\<rparr>) = Got (Inr (Hex h))"
    using v stands_span [OF f(4)] stands_span [OF ss(2)] stands_span [OF ds(2)] data digest
    by (simp add: verify_selected_def try_then_def VerifySignedData_def)
  then show ?thesis unfolding VerifySigner_def try_then_def using f(1) g(1) ds(1) ss(1) v(1) supported_id [OF v(1)] by simp
qed

section \<open>Whole files\<close>

definition apk_file :: "bytes \<Rightarrow> ApkFile" where
  "apk_file bs = \<lparr>af_opens = True, af_regular = True, af_maps = True, af_bytes = bs\<rparr>"

definition apk_block :: "bytes \<Rightarrow> bytes \<Rightarrow> bytes \<Rightarrow> SigningBlock" where
  "apk_block contents directory v =
     \<lparr>sb_v2 = Some \<lparr>sp_data = length contents + 20, sp_size = length v\<rparr>, sb_v3 = None, sb_v31 = None, sb_begin = length contents,
      sb_central_directory = length contents + 44 + length v, sb_eocd = length contents + 44 + length v + length directory\<rparr>"

lemma length_signed_apk: "length middle = 12 \<Longrightarrow> length (signed_apk contents directory middle v) = length contents + 66 + length v + length directory"
  by (simp add: signed_apk_def signing_block_def end_record_def)

lemma value_stands: "stands (signed_apk contents directory middle v) (length contents + 20) v"
  unfolding stands_def signed_apk_def signing_block_def
  by (intro exI [of _ "contents @ put64 (36 + length v) @ put64 (4 + length v) @ PutU32 kV2BlockId"]
      exI [of _ "put64 (36 + length v) @ kSigningMagic @ directory @ end_record middle (length contents + 44 + length v)"]) simp

lemma written_content:
  assumes "length middle = 12" "length contents + 44 + length v < 2 ^ 32"
  shows "ComputeContentDigest ssl (signed_apk contents directory middle v) (apk_block contents directory v) md =
    digest_sections ssl md [contents, directory, end_record middle (length contents)]"
proof -
  let ?m = "signed_apk contents directory middle v" and ?cd = "length contents + 44 + length v"
  have block: "length (signing_block v) = 44 + length v" by (simp add: signing_block_def)
  have parts: "region ?m 0 (length contents) = Got contents" "region ?m ?cd (length directory) = Got directory"
      "region ?m (?cd + length directory) 22 = Got (end_record middle ?cd)"
    using assms(1) block by (auto simp: region_def signed_apk_def end_record_def)
  have "patched_eocd (apk_block contents directory v) (end_record middle ?cd) = end_record middle (length contents)"
    using assms(1) by (simp add: patched_eocd_def apk_block_def end_record_def)
  moreover have "\<not> length (end_record middle ?cd) < 20" by (simp add: end_record_def assms(1))
  ultimately show ?thesis
    using parts assms length_signed_apk [OF assms(1), of contents directory v]
    by (simp add: ComputeContentDigest_def apk_block_def)
qed

lemma verify_written:
  assumes "length middle = 12" "length contents + 44 + length v < 2 ^ 32"
  shows "VerifyApkSignature ssl (apk_file (signed_apk contents directory middle v)) =
    and_then (VerifyScheme ssl (signed_apk contents directory middle v) (apk_block contents directory v)
        \<lparr>sp_data = length contents + 20, sp_size = length v\<rparr> False)
      (\<lambda>verified. case verified of Inl e \<Rightarrow> Got (signature_error e)
         | Inr certificates \<Rightarrow> Got \<lparr>ar_certificate_sha256 = remdups_adj (sort certificates), ar_error = []\<rparr>)"
  using signed_apk_parsed [OF assms(2,1) refl refl refl, of directory] length_signed_apk [OF assms(1), of contents directory v]
  by (simp add: VerifyApkSignature_def MapFile_def apk_file_def chosen_scheme_def apk_block_def)

lemma result_cases:
  "and_then x (\<lambda>v. case v of Inl e \<Rightarrow> Got (signature_error e) | Inr c \<Rightarrow> f c) = Got r \<Longrightarrow>
    (\<exists>e. r = signature_error e) \<or> (\<exists>c. f c = Got r)"
  by (cases x) (auto split: sum.splits)

lemma failed_result: "VerifyApkSignature ssl f = Got r \<Longrightarrow> \<not> signature_ok r \<Longrightarrow> \<exists>e. r = signature_error e"
  by (auto simp: VerifyApkSignature_def signature_ok_def split: sum.splits prod.splits dest!: result_cases)

section \<open>Properties\<close>

text \<open>
  C10. The verifier is total and its answers are true: for every file and every behaviour of OpenSSL it reads only
  inside the file and returns. A result without error names only certificates that are vouched for: OpenSSL
  verified, under the key of the certificate, data that contains the digest of everything in the file but the
  signing block, and the certificate itself. A result with an error names no certificate.
\<close>

theorem signature_verifier_sound:
  "\<exists>r. VerifyApkSignature ssl f = Got r \<and>
     (if signature_ok r
      then \<exists>b. ParseSigningBlock (af_bytes f) = Got (Inr b) \<and> list_all (vouched ssl (af_bytes f) b) (ar_certificate_sha256 r)
      else ar_certificate_sha256 r = [])"
proof -
  obtain r where r: "VerifyApkSignature ssl f = Got r" using answered_VerifyApkSignature [of ssl f] by (auto simp: answered_def)
  moreover have "ar_certificate_sha256 r = []" if "\<not> signature_ok r" using failed_result [OF r that] by (auto simp: signature_error_def)
  ultimately show ?thesis using VerifyApkSignature_ok [OF r] by auto
qed

text \<open>
  C27. The content digest commits to the contents: when two files have the same content digest, then everything
  but their signing blocks is equal (with the offset in the end record set to the begin of the block), or two
  different inputs that were hashed have the same digest.
\<close>

theorem content_digest_commits:
  assumes "ComputeContentDigest ssl m b md = Got (Inr d)" "ComputeContentDigest ssl m' b' md = Got (Inr d)"
  shows "concat (signed_content m b) = concat (signed_content m' b') \<or>
    collide ssl md (hashed_inputs ssl md (signed_content m b)) (hashed_inputs ssl md (signed_content m' b'))"
  using digest_sections_commit [OF assms [THEN ComputeContentDigest_content]] by blast

text \<open>
  C32. Signed packages are accepted: a package with a v2 block of one signer, whose digest is the one of the
  contents and whose signature, key and certificate OpenSSL accepts, is verified, and the certificate's fingerprint
  is reported.
\<close>

theorem signed_apk_accepted:
  assumes "length middle = 12" "length contents + 44 + length v < 2 ^ 32"
    and "v = v2_value (sa_id algorithm) digest certificate sig key" "signer_valid ssl algorithm digest certificate sig key h"
    and "digest_sections ssl (sa_digest algorithm) [contents, directory, end_record middle (length contents)] = Got (Inr digest)"
  shows "VerifyApkSignature ssl (apk_file (signed_apk contents directory middle v)) = Got \<lparr>ar_certificate_sha256 = [Hex h], ar_error = []\<rparr>"
proof -
  let ?m = "signed_apk contents directory middle v" and ?b = "apk_block contents directory v" and ?a = "length contents + 20"
  let ?S = "prefixed (signed_data (sa_id algorithm) digest certificate) @ id_value (sa_id algorithm) sig @ prefixed key"
  let ?n = "52 + length digest + length certificate + length sig + length key"
  have n: "length ?S = ?n" "length v = ?n + 8" by (simp_all add: assms(3) v2_value_def)
  have v: "stands ?m ?a (prefixed (prefixed ?S) @ [])" using value_stands [of contents directory middle v] assms(3) by (simp add: v2_value_def)
  have l1: "LengthPrefixed ?m (Reader_new \<lparr>sp_data = ?a, sp_size = length v\<rparr>) =
      Got (\<lparr>sp_data = ?a + 4, sp_size = ?n + 4\<rparr>, \<lparr>rd_span = \<lparr>sp_data = ?a, sp_size = length v\<rparr>, rd_position = length v\<rparr>)"
    and s1: "stands ?m (?a + 4) (prefixed ?S @ [])"
    using first_field(1,2) [OF v, of "length v"] assms(2) n by simp_all
  let ?q = "\<lparr>sp_data = ?a + 4, sp_size = ?n + 4\<rparr>"
  have l2: "LengthPrefixed ?m (Reader_new ?q) = Got (\<lparr>sp_data = ?a + 4 + 4, sp_size = ?n\<rparr>, \<lparr>rd_span = ?q, rd_position = ?n + 4\<rparr>)"
    and s2: "stands ?m (?a + 4 + 4) ?S"
    using first_field(1,2) [OF s1, of "?n + 4"] assms(2) n by simp_all
  have "VerifySigner ssl ?m ?b \<lparr>sp_data = ?a + 4 + 4, sp_size = ?n\<rparr> False = Got (Inr (Hex h))"
  proof (rule verify_written_signer [OF s2 _ _ assms(4)])
    show "length digest + length certificate + length sig + length key + 100 < 2 ^ 32" using assms(2) n(2) by linarith
    show "ComputeContentDigest ssl ?m ?b (sa_digest algorithm) = Got (Inr digest)" 
      by (rule trans [OF written_content [OF assms(1,2)] assms(5)])
  qed
  moreover have "signer_loop ssl ?m ?b False \<lparr>rd_span = ?q, rd_position = ?n + 4\<rparr> 1 [Hex h] = Got (Inr [Hex h])"
    by (subst signer_loop.simps) (simp add: remaining_def)
  moreover have "remaining (Reader_new ?q) > 0" by (simp add: remaining_def Reader_new_def)
  ultimately have "signer_loop ssl ?m ?b False (Reader_new ?q) 0 [] = Got (Inr [Hex h])"
    using l2 by (subst signer_loop.simps) simp
  moreover have "remaining \<lparr>rd_span = \<lparr>sp_data = ?a, sp_size = length v\<rparr>, rd_position = length v\<rparr> = 0" by (simp add: remaining_def)
  ultimately have "VerifyScheme ssl ?m ?b \<lparr>sp_data = ?a, sp_size = length v\<rparr> False = Got (Inr [Hex h])"
    using l1 by (simp add: VerifyScheme_def require_def)
  then show ?thesis using verify_written [OF assms(1,2), of ssl directory] by simp
qed

text \<open>
  C37. An unsigned package is accepted: when the v2 block has no signers at all, the result has neither error nor
  certificates, whatever OpenSSL says.
\<close>

theorem unsigned_apk_accepted:
  assumes "length middle = 12" "length contents + 48 < 2 ^ 32"
  shows "VerifyApkSignature ssl (apk_file (signed_apk contents directory middle (prefixed []))) =
    Got \<lparr>ar_certificate_sha256 = [], ar_error = []\<rparr>"
proof -
  let ?m = "signed_apk contents directory middle (prefixed [])" and ?s = "\<lparr>sp_data = length contents + 20, sp_size = 4\<rparr>"
  have v: "stands ?m (length contents + 20) (prefixed [] @ [])" using value_stands [of contents directory middle "prefixed []"] by simp
  have "LengthPrefixed ?m (Reader_new ?s) = Got (\<lparr>sp_data = length contents + 24, sp_size = 0\<rparr>, \<lparr>rd_span = ?s, rd_position = 4\<rparr>)"
    using first_field(1) [OF v, of 4] by simp
  moreover have "signer_loop ssl ?m b False (Reader_new \<lparr>sp_data = length contents + 24, sp_size = 0\<rparr>) 0 [] = Got (Inl [])" for b
    by (subst signer_loop.simps) (simp add: remaining_def Reader_new_def fail_def)
  ultimately have "VerifyScheme ssl ?m b ?s False = Got (Inl [])" for b
    by (simp add: VerifyScheme_def remaining_def require_def)
  then show ?thesis using verify_written [OF assms(1), of contents "prefixed []" ssl directory] assms(2)
    by (simp add: signature_error_def)
qed

section \<open>Witnesses\<close>

text \<open>A library that accepts everything; keys and certificates are byte strings.\<close>

definition sample_ssl :: "(bytes, bytes) Openssl" where
  "sample_ssl =
     \<lparr>evp_digest = \<lambda>md x. Some (replicate (EVP_MD_get_size md) 7), d2i_PUBKEY = \<lambda>bs. Some (bs, length bs),
      d2i_X509 = \<lambda>bs. Some (bs, length bs), X509_get_pubkey = Some, EVP_PKEY_eq = \<lambda>a b. a = b,
      EVP_DigestVerifyInit = \<lambda>_ _. True, configure_pss = \<lambda>_ _. True, EVP_DigestVerify = \<lambda>_ _ _ _ _. True\<rparr>"

definition sample_value :: bytes where
  "sample_value = v2_value 0x0103 (replicate 32 7) [1] [9] [1]"

lemma sample_valid: "signer_valid sample_ssl \<lparr>sa_id = 0x0103, sa_digest = EVP_sha256, sa_pss = False\<rparr> (replicate 32 7) [1] [9] [1] (replicate 32 7)"
  by (simp add: signer_valid_def sample_ssl_def SupportedAlgorithm_def)

lemma sample_digest:
  "length contents \<le> 1 \<Longrightarrow>
    digest_sections sample_ssl EVP_sha256 [contents, [], end_record (replicate 12 0) (length contents)] = Got (Inr (replicate 32 7))"
  by (cases contents) (simp_all add: digest_sections_def Let_def chunk_loop.simps kChunkBytes_def end_record_def region_def DigestParts_def sample_ssl_def try_then_def)

theorem signed_apk_accepted_witness:
  "VerifyApkSignature sample_ssl (apk_file (signed_apk [] [] (replicate 12 0) sample_value)) =
    Got \<lparr>ar_certificate_sha256 = [Hex (replicate 32 7)], ar_error = []\<rparr>"
  by (rule signed_apk_accepted [OF _ _ _ sample_valid])
     (use sample_digest [of "[]"] in \<open>simp_all add: sample_value_def v2_value_def\<close>)

theorem unsigned_apk_accepted_witness:
  "VerifyApkSignature sample_ssl (apk_file (signed_apk [] [] (replicate 12 0) (prefixed []))) =
    Got \<lparr>ar_certificate_sha256 = [], ar_error = []\<rparr>"
  by (rule unsigned_apk_accepted) simp_all

theorem content_digest_commits_witness:
  "let m = signed_apk [1] [] (replicate 12 0) sample_value; m' = signed_apk [2] [] (replicate 12 0) sample_value;
       b = apk_block [1] [] sample_value; b' = apk_block [2] [] sample_value
   in collide sample_ssl EVP_sha256 (hashed_inputs sample_ssl EVP_sha256 (signed_content m b)) (hashed_inputs sample_ssl EVP_sha256 (signed_content m' b'))"
proof -
  have d: "ComputeContentDigest sample_ssl (signed_apk [c] [] (replicate 12 0) sample_value) (apk_block [c] [] sample_value) EVP_sha256 =
    Got (Inr (replicate 32 7))" for c
    using written_content [of "replicate 12 0" "[c]" sample_value sample_ssl "[]" EVP_sha256] sample_digest [of "[c]"]
    by (simp add: sample_value_def v2_value_def)
  have "concat (signed_content (signed_apk [1] [] (replicate 12 0) sample_value) (apk_block [1] [] sample_value)) \<noteq>
    concat (signed_content (signed_apk [2] [] (replicate 12 0) sample_value) (apk_block [2] [] sample_value))"
    by (simp add: signed_content_def apk_block_def signed_apk_def)
  with content_digest_commits [OF d [of 1] d [of 2]] show ?thesis by (simp only: Let_def) blast
qed

end
