(* ===== verification/Payload_Integrity.thy ===== *)
theory Payload_Integrity
  imports Apk_Signature Elf_Build_Id Launch_Uri Zip_Archive
begin

text \<open>
  The integrity checks of a prepared payload (\<open>src/update/payload_integrity.cc\<close>): SHA-256 of texts and files, the
  digest of the asset tree computed by a pool of threads, and the inspection and verification of a payload
  directory against its metadata. A digest context is the data fed into it so far; that its calls may fail, the
  file system, the JSON parser, the number of processors and the schedule of the threads are the environment.
  Errors are texts, empty when there is none.
\<close>

section \<open>The environment\<close>

text \<open>Constants of \<open>include/compat/guest_abi.h\<close>, fixed when the program is compiled.\<close>

datatype HostArch = Aarch64 | X86_64

fun kGuestSplitApkFile :: "HostArch \<Rightarrow> bytes" where
  "kGuestSplitApkFile Aarch64 = ascii ''split_config.arm64_v8a.apk''"
| "kGuestSplitApkFile X86_64 = ascii ''split_config.x86_64.apk''"

fun kGuestSplitApkHashKey :: "HostArch \<Rightarrow> string" where
  "kGuestSplitApkHashKey Aarch64 = ''arm64_v8a_split_apk''"
| "kGuestSplitApkHashKey X86_64 = ''x86_64_split_apk''"

text \<open>
  A digest context: whether it can be set up, whether an update of the data so far with more data succeeds, and the
  digest of all the data.
\<close>

record Evp =
  ev_new :: bool
  ev_update :: "bytes \<Rightarrow> bytes \<Rightarrow> bool"
  ev_final :: "bytes \<Rightarrow> bytes option"

text \<open>
  What \<open>read\<close> returns; after the listed outcomes the file is at its end. \<open>fstat\<close> gives whether the file is regular
  and its size.
\<close>

datatype ReadOutcome = ReadBytes bytes | ReadInterrupted | ReadFailed

record FileNode =
  fn_opens :: bool
  fn_fstat :: "(bool \<times> int) option"
  fn_reads :: "ReadOutcome list"

datatype FileStatus = RegularFile | DirectoryFile | SymlinkFile | OtherFile | NoFile

text \<open>
  \<open>pf_walk\<close> gives the relative paths and the statuses that a recursive iterator visits, in its order, and whether it
  came to its end without an error.
\<close>

record PayloadFs =
  pf_symlink_status :: "bytes \<Rightarrow> FileStatus option"
  pf_file :: "bytes \<Rightarrow> FileNode"
  pf_walk :: "bytes \<Rightarrow> (bytes \<times> FileStatus option) list \<times> bool"

record PayloadEnv =
  pe_evp :: Evp
  pe_fs :: PayloadFs
  pe_json :: "bytes \<Rightarrow> Json option"
  pe_hardware_concurrency :: nat
  pe_schedule :: "nat list"
  pe_arch :: HostArch

section \<open>Digests\<close>

fun format_loop :: "nat \<Rightarrow> bytes \<Rightarrow> bytes \<Rightarrow> bytes" where
  "format_loop limit [] hex = hex"
| "format_loop limit (d # data) hex =
     (if length hex < limit
      then let hex = hex @ [kHex (unat (drop_bit 4 d AND 0x0f))]
           in format_loop limit data (if length hex < limit then hex @ [kHex (unat (d AND 0x0f))] else hex)
      else hex)"

definition FormatHex :: "bytes \<Rightarrow> nat \<Rightarrow> bytes" where
  "FormatHex data max_chars =
     format_loop (if max_chars > 0 \<and> max_chars < length data * 2 then max_chars else length data * 2) data []"

type_synonym FileDigest = "bytes option"

definition FileDigest_new :: "Evp \<Rightarrow> FileDigest" where
  "FileDigest_new evp = (if ev_new evp then Some [] else None)"

definition FileDigest_Update :: "Evp \<Rightarrow> bytes \<Rightarrow> FileDigest \<Rightarrow> bool \<times> FileDigest" where
  "FileDigest_Update evp data context =
     (if data = [] then (context \<noteq> None, context)
      else case context of
             None \<Rightarrow> (False, None)
           | Some fed \<Rightarrow> if ev_update evp fed data then (True, Some (fed @ data)) else (False, Some fed))"

definition FileDigest_FinalHex :: "Evp \<Rightarrow> nat \<Rightarrow> FileDigest \<Rightarrow> bytes" where
  "FileDigest_FinalHex evp max_chars context =
     (case context of
        None \<Rightarrow> []
      | Some fed \<Rightarrow> (case ev_final evp fed of
                      None \<Rightarrow> []
                    | Some digest \<Rightarrow> if length digest \<noteq> 32 then [] else FormatHex digest max_chars))"

text \<open>The digest of a text, and the new value of the error text.\<close>

definition HashText :: "Evp \<Rightarrow> bytes \<Rightarrow> nat \<Rightarrow> bytes \<Rightarrow> bytes \<times> bytes" where
  "HashText evp text max_hex_chars error =
     (case ev_final evp text of
        Some digest \<Rightarrow> if length digest = 32 then (FormatHex digest max_hex_chars, error)
                      else ([], if error = [] then ascii ''cannot compute SHA-256 text digest'' else error)
      | None \<Rightarrow> ([], if error = [] then ascii ''cannot compute SHA-256 text digest'' else error))"

fun hash_loop :: "Evp \<Rightarrow> bytes \<Rightarrow> ReadOutcome list \<Rightarrow> FileDigest \<Rightarrow> bytes + FileDigest" where
  "hash_loop evp path [] digest = Inr digest"
| "hash_loop evp path (ReadBytes data # rest) digest =
     (if data = [] then Inr digest
      else case FileDigest_Update evp data digest of (updated, digest) \<Rightarrow>
        if updated then hash_loop evp path rest digest else Inl (ascii ''cannot hash regular file: '' @ path))"
| "hash_loop evp path (ReadInterrupted # rest) digest = hash_loop evp path rest digest"
| "hash_loop evp path (ReadFailed # rest) digest = Inl (ascii ''cannot hash regular file: '' @ path)"

definition HashRegularFile :: "Evp \<Rightarrow> PayloadFs \<Rightarrow> bytes \<Rightarrow> bytes + bytes" where
  "HashRegularFile evp fs path =
     (let file = pf_file fs path
      in if \<not> fn_opens file then Inl (ascii ''cannot open regular file for hashing: '' @ path)
         else case fn_fstat file of
           None \<Rightarrow> Inl (ascii ''hash input is not a regular file: '' @ path)
         | Some (regular, _) \<Rightarrow>
            if \<not> regular then Inl (ascii ''hash input is not a regular file: '' @ path)
            else let digest = FileDigest_new evp
                 in if digest = None then Inl (ascii ''cannot initialise the file digest'')
                    else case hash_loop evp path (fn_reads file) digest of
                      Inl e \<Rightarrow> Inl e
                    | Inr digest \<Rightarrow>
                        let hex = FileDigest_FinalHex evp 0 digest
                        in if hex = [] then Inl (ascii ''cannot finalise the hash of '' @ path) else Inr hex)"

section \<open>The asset tree\<close>

fun walk_loop :: "(bytes \<times> FileStatus option) list \<Rightarrow> bytes list \<Rightarrow> bytes + bytes list" where
  "walk_loop [] relative_files = Inr relative_files"
| "walk_loop ((path, None) # rest) relative_files = Inl (ascii ''cannot enumerate asset tree'')"
| "walk_loop ((path, Some status) # rest) relative_files =
     (if status = SymlinkFile then Inl (ascii ''asset tree contains a symbolic link'')
      else if status = RegularFile then walk_loop rest (relative_files @ [path])
      else if status \<noteq> DirectoryFile then Inl (ascii ''asset tree contains a non-regular entry'')
      else walk_loop rest relative_files)"

definition asset_files :: "PayloadFs \<Rightarrow> bytes \<Rightarrow> bytes + bytes list" where
  "asset_files fs dir =
     (if pf_symlink_status fs dir \<noteq> Some DirectoryFile then Inl (ascii ''asset root is not a real directory'')
      else case walk_loop (fst (pf_walk fs dir)) [] of
             Inl e \<Rightarrow> Inl e
           | Inr relative_files \<Rightarrow>
               if snd (pf_walk fs dir) then Inr (sort relative_files) else Inl (ascii ''cannot enumerate asset tree''))"

text \<open>
  The threads of the pool all run \<open>hash_range\<close>. A thread takes the next index, looks at the first error, hashes the
  file, and stores the digest or reports the failure; each is one step, and the threads take turns in any order.
\<close>

datatype WorkerPhase = Claiming | Checking nat | Hashing nat | Failing bytes | Finished

record HashPool =
  hp_next_index :: nat
  hp_first_error :: bytes
  hp_digests :: "bytes list"
  hp_workers :: "WorkerPhase list"

definition hash_range :: "(bytes \<Rightarrow> bytes + bytes) \<Rightarrow> bytes list \<Rightarrow> HashPool \<Rightarrow> nat \<Rightarrow> HashPool" where
  "hash_range hash relative_files pool w =
     (if w < length (hp_workers pool)
      then case hp_workers pool ! w of
        Claiming \<Rightarrow>
          let index = hp_next_index pool
          in pool\<lparr>hp_next_index := index + 1,
               hp_workers := (hp_workers pool)[w := if index \<ge> length relative_files then Finished else Checking index]\<rparr>
      | Checking index \<Rightarrow>
          pool\<lparr>hp_workers := (hp_workers pool)[w := if hp_first_error pool \<noteq> [] then Finished else Hashing index]\<rparr>
      | Hashing index \<Rightarrow>
          (case hash (relative_files ! index) of
             Inl local_failure \<Rightarrow> pool\<lparr>hp_workers := (hp_workers pool)[w := Failing local_failure]\<rparr>
           | Inr digest \<Rightarrow> pool\<lparr>hp_digests := (hp_digests pool)[index := digest], hp_workers := (hp_workers pool)[w := Claiming]\<rparr>)
      | Failing local_failure \<Rightarrow>
          pool\<lparr>hp_first_error := if hp_first_error pool = [] then local_failure else hp_first_error pool,
               hp_workers := (hp_workers pool)[w := Finished]\<rparr>
      | Finished \<Rightarrow> pool
      else pool)"

definition pool_workers :: "nat \<Rightarrow> nat \<Rightarrow> nat" where
  "pool_workers hardware_concurrency files =
     min (min (if hardware_concurrency = 0 then 1 else hardware_concurrency) 8) (files mod 2 ^ 32)"

definition HashPool_new :: "nat \<Rightarrow> nat \<Rightarrow> HashPool" where
  "HashPool_new workers files =
     \<lparr>hp_next_index = 0, hp_first_error = [], hp_digests = replicate files [], hp_workers = replicate workers Claiming\<rparr>"

fun tree_loop :: "Evp \<Rightarrow> (bytes \<times> bytes) list \<Rightarrow> FileDigest \<Rightarrow> bool \<times> FileDigest" where
  "tree_loop evp [] tree = (True, tree)"
| "tree_loop evp ((digest, name) # rest) tree =
     (case FileDigest_Update evp digest tree of (ok1, tree) \<Rightarrow> if \<not> ok1 then (False, tree)
      else case FileDigest_Update evp (ascii ''  '') tree of (ok2, tree) \<Rightarrow> if \<not> ok2 then (False, tree)
      else case FileDigest_Update evp name tree of (ok3, tree) \<Rightarrow> if \<not> ok3 then (False, tree)
      else case FileDigest_Update evp [0] tree of (ok4, tree) \<Rightarrow> if \<not> ok4 then (False, tree)
      else tree_loop evp rest tree)"

text \<open>The digest of the tree from the digests of its files.\<close>

definition tree_digest :: "Evp \<Rightarrow> bytes list \<Rightarrow> bytes list \<Rightarrow> bytes + bytes" where
  "tree_digest evp digests relative_files =
     (let tree = FileDigest_new evp
      in if tree = None then Inl (ascii ''cannot initialise asset tree digest'')
         else case tree_loop evp (zip digests relative_files) tree of (updated, tree) \<Rightarrow>
           if \<not> updated then Inl (ascii ''cannot update asset tree digest'')
           else let tree_hex = FileDigest_FinalHex evp 0 tree
                in if tree_hex = [] then Inl (ascii ''cannot finalise asset tree digest'') else Inr tree_hex)"

text \<open>The digest and the number of files; \<open>None\<close> when the schedule ends before all threads have finished.\<close>

definition HashAssetTree :: "PayloadEnv \<Rightarrow> bytes \<Rightarrow> (bytes + bytes \<times> nat) option" where
  "HashAssetTree env dir =
     (case asset_files (pe_fs env) dir of
        Inl e \<Rightarrow> Some (Inl e)
      | Inr relative_files \<Rightarrow>
         let workers = pool_workers (pe_hardware_concurrency env) (length relative_files);
             pool = run_ops (hash_range (\<lambda>f. HashRegularFile (pe_evp env) (pe_fs env) (path_join dir f)) relative_files)
                      (HashPool_new workers (length relative_files)) (pe_schedule env)
         in if \<not> list_all (\<lambda>p. p = Finished) (hp_workers pool) then None
            else if hp_first_error pool \<noteq> [] then Some (Inl (hp_first_error pool))
            else Some (case tree_digest (pe_evp env) (hp_digests pool) relative_files of
                         Inl e \<Rightarrow> Inl e
                       | Inr tree_hex \<Rightarrow> Inr (tree_hex, length relative_files)))"

section \<open>Inspection and verification\<close>

definition LowerHex :: "bytes \<Rightarrow> nat \<Rightarrow> bool" where
  "LowerHex value n \<longleftrightarrow> length value = n \<and> list_all (\<lambda>c. is_digit c \<or> 0x61 \<le> c \<and> c \<le> 0x66) value"

fun read_loop :: "ReadOutcome list \<Rightarrow> bytes \<Rightarrow> bytes option" where
  "read_loop [] contents = Some contents"
| "read_loop (ReadBytes data # rest) contents = (if data = [] then Some contents else read_loop rest (contents @ data))"
| "read_loop (ReadInterrupted # rest) contents = read_loop rest contents"
| "read_loop (ReadFailed # rest) contents = None"

definition ReadMetadata :: "PayloadFs \<Rightarrow> bytes \<Rightarrow> bytes + bytes" where
  "ReadMetadata fs path =
     (let file = pf_file fs path
      in if \<not> fn_opens file then Inl (ascii ''payload metadata is unavailable'')
         else case fn_fstat file of
           None \<Rightarrow> Inl (ascii ''payload metadata is not a bounded regular file'')
         | Some (regular, st_size) \<Rightarrow>
             if \<not> regular \<or> st_size < 0 \<or> st_size > 1024 * 1024
             then Inl (ascii ''payload metadata is not a bounded regular file'')
             else case read_loop (fn_reads file) [] of
                    None \<Rightarrow> Inl (ascii ''cannot read payload metadata'')
                  | Some contents \<Rightarrow> Inr contents)"

record PayloadMetadata =
  pm_package_name :: bytes
  pm_version_name :: bytes
  pm_version_code :: nat
  pm_build_id :: bytes
  pm_library_sha256 :: bytes
  pm_base_apk_sha256 :: bytes
  pm_split_apk_sha256 :: bytes
  pm_asset_file_count :: nat
  pm_asset_tree_sha256 :: bytes

record PayloadIntegrityResult =
  pi_metadata :: PayloadMetadata
  pi_payload_id :: bytes
  pi_error :: bytes

definition PayloadIntegrityResult_new :: PayloadIntegrityResult where
  "PayloadIntegrityResult_new =
     \<lparr>pi_metadata = \<lparr>pm_package_name = [], pm_version_name = [], pm_version_code = 0, pm_build_id = [],
        pm_library_sha256 = [], pm_base_apk_sha256 = [], pm_split_apk_sha256 = [], pm_asset_file_count = 0,
        pm_asset_tree_sha256 = []\<rparr>, pi_payload_id = [], pi_error = []\<rparr>"

text \<open>
  A function returns, or the JSON library ends the process (it is compiled without exceptions and aborts where it
  would throw), or the schedule ends before the threads do.
\<close>

datatype 'a run = Returned 'a | Aborted | Unfinished

fun run_then :: "'a run \<Rightarrow> ('a \<Rightarrow> 'b run) \<Rightarrow> 'b run" where
  "run_then (Returned x) f = f x"
| "run_then Aborted f = Aborted"
| "run_then Unfinished f = Unfinished"

text \<open>
  The library's \<open>value\<close> with a default: a member of another type makes it throw. Numbers and truth values convert to
  an \<open>int\<close> as a C++ cast does.
\<close>

definition json_text :: "(string \<times> Json) list \<Rightarrow> string \<Rightarrow> bytes run" where
  "json_text members key =
     (case map_of members key of None \<Rightarrow> Returned [] | Some (JString s) \<Rightarrow> Returned s | Some _ \<Rightarrow> Aborted)"

definition json_int :: "(string \<times> Json) list \<Rightarrow> string \<Rightarrow> int run" where
  "json_int members key =
     (case map_of members key of
        None \<Rightarrow> Returned 0
      | Some (JInteger i) \<Rightarrow> Returned (sint (word_of_int i :: u32))
      | Some (JFloat r) \<Rightarrow> Returned (if r \<ge> 0 then \<lfloor>r\<rfloor> else \<lceil>r\<rceil>)
      | Some (JBool b) \<Rightarrow> Returned (of_bool b)
      | Some _ \<Rightarrow> Aborted)"

definition json_unsigned :: "(string \<times> Json) list \<Rightarrow> string \<Rightarrow> nat option" where
  "json_unsigned members key =
     (case map_of members key of Some (JInteger i) \<Rightarrow> if i \<ge> 0 then Some (nat i) else None | _ \<Rightarrow> None)"

definition json_object :: "(string \<times> Json) list \<Rightarrow> string \<Rightarrow> (string \<times> Json) list option" where
  "json_object members key = (case map_of members key of Some (JObject ms) \<Rightarrow> Some ms | _ \<Rightarrow> None)"

definition integrity_error :: "PayloadIntegrityResult \<Rightarrow> bytes \<Rightarrow> PayloadIntegrityResult run" where
  "integrity_error result error = Returned (result\<lparr>pi_error := error\<rparr>)"

text \<open>The last part of the inspection: the members of the metadata and their forms.\<close>

definition inspect_members ::
  "HostArch \<Rightarrow> (string \<times> Json) list \<Rightarrow> nat \<Rightarrow> (string \<times> Json) list \<Rightarrow> (string \<times> Json) list \<Rightarrow> PayloadIntegrityResult run" where
  "inspect_members arch document version_code sha256 assets =
     run_then (json_text document ''package'') (\<lambda>package_name.
     run_then (json_text document ''version_name'') (\<lambda>version_name.
     run_then (json_text document ''elf_build_id'') (\<lambda>build_id.
     run_then (json_text sha256 ''libroblox'') (\<lambda>library_sha256.
     run_then (json_text sha256 ''base_apk'') (\<lambda>base_apk_sha256.
     run_then (json_text sha256 (kGuestSplitApkHashKey arch)) (\<lambda>split_apk_sha256.
     let metadata = (pi_metadata PayloadIntegrityResult_new)\<lparr>pm_package_name := package_name, pm_version_name := version_name,
           pm_version_code := version_code, pm_build_id := build_id, pm_library_sha256 := library_sha256,
           pm_base_apk_sha256 := base_apk_sha256, pm_split_apk_sha256 := split_apk_sha256\<rparr>
     in case json_unsigned assets ''file_count'' of
          None \<Rightarrow> integrity_error (PayloadIntegrityResult_new\<lparr>pi_metadata := metadata\<rparr>) (ascii ''payload metadata asset count is invalid'')
        | Some file_count \<Rightarrow>
            run_then (json_text assets ''sha256_tree'') (\<lambda>tree_sha256.
              let result = PayloadIntegrityResult_new\<lparr>pi_metadata :=
                    metadata\<lparr>pm_asset_file_count := file_count, pm_asset_tree_sha256 := tree_sha256\<rparr>\<rparr>
              in if package_name \<noteq> ascii ''com.roblox.client'' \<or> version_name = [] \<or> version_code = 0 \<or>
                    \<not> LowerHex build_id 40 \<or> \<not> LowerHex library_sha256 64 \<or> \<not> LowerHex base_apk_sha256 64 \<or>
                    \<not> LowerHex split_apk_sha256 64 \<or> \<not> LowerHex tree_sha256 64
                 then integrity_error result (ascii ''payload metadata identity or hashes are invalid'')
                 else Returned (result\<lparr>pi_payload_id := ascii (to_string version_code) @ ascii ''-'' @ build_id\<rparr>))))))))"

definition library_path :: bytes where "library_path = ascii ''libroblox.so''"
definition base_apk_path :: bytes where "base_apk_path = ascii ''sober_apk/base.apk''"

definition split_apk_path :: "HostArch \<Rightarrow> bytes" where
  "split_apk_path arch = path_join (ascii ''sober_apk'') (kGuestSplitApkFile arch)"

fun missing_entry :: "PayloadFs \<Rightarrow> bytes \<Rightarrow> FileStatus \<Rightarrow> bytes list \<Rightarrow> bytes option" where
  "missing_entry fs directory status [] = None"
| "missing_entry fs directory status (relative # rest) =
     (if pf_symlink_status fs (path_join directory relative) \<noteq> Some status then Some relative
      else missing_entry fs directory status rest)"

definition InspectPreparedPayload :: "PayloadEnv \<Rightarrow> bytes \<Rightarrow> PayloadIntegrityResult run" where
  "InspectPreparedPayload env directory =
     (let fs = pe_fs env; result = PayloadIntegrityResult_new
      in if pf_symlink_status fs directory \<noteq> Some DirectoryFile
         then integrity_error result (ascii ''payload root is not a real directory'')
         else case missing_entry fs directory RegularFile
                     [library_path, base_apk_path, split_apk_path (pe_arch env), ascii ''roblox_payload.json''] of
           Some relative \<Rightarrow> integrity_error result (ascii ''payload is missing regular file: '' @ relative)
         | None \<Rightarrow>
         case missing_entry fs directory DirectoryFile [ascii ''assets'', ascii ''assets/content''] of
           Some relative \<Rightarrow> integrity_error result (ascii ''payload is missing real directory: '' @ relative)
         | None \<Rightarrow>
         case ReadMetadata fs (path_join directory (ascii ''roblox_payload.json'')) of
           Inl e \<Rightarrow> integrity_error result e
         | Inr contents \<Rightarrow>
         case pe_json env contents of
           Some (JObject document) \<Rightarrow>
             run_then (json_int document ''schema_version'') (\<lambda>schema_version.
               if schema_version \<noteq> 1 then integrity_error result (ascii ''payload metadata schema is invalid'')
               else case (json_unsigned document ''version_code'', json_object document ''sha256'', json_object document ''assets'') of
                 (Some version_code, Some sha256, Some assets) \<Rightarrow> inspect_members (pe_arch env) document version_code sha256 assets
               | _ \<Rightarrow> integrity_error result (ascii ''payload metadata schema is invalid''))
         | _ \<Rightarrow> integrity_error result (ascii ''payload metadata schema is invalid''))"

fun verify_files :: "PayloadEnv \<Rightarrow> bytes \<Rightarrow> (bytes \<times> bytes) list \<Rightarrow> bytes option" where
  "verify_files env directory [] = None"
| "verify_files env directory ((relative, expected) # rest) =
     (case HashRegularFile (pe_evp env) (pe_fs env) (path_join directory relative) of
        Inl e \<Rightarrow> Some e
      | Inr actual \<Rightarrow> if actual \<noteq> expected then Some (ascii ''payload hash mismatch: '' @ relative)
                     else verify_files env directory rest)"

definition VerifyPreparedPayload :: "PayloadEnv \<Rightarrow> bytes \<Rightarrow> PayloadIntegrityResult run" where
  "VerifyPreparedPayload env directory =
     run_then (InspectPreparedPayload env directory) (\<lambda>result.
       if pi_error result \<noteq> [] then Returned result
       else let metadata = pi_metadata result
            in case verify_files env directory
                  [(library_path, pm_library_sha256 metadata), (base_apk_path, pm_base_apk_sha256 metadata),
                   (split_apk_path (pe_arch env), pm_split_apk_sha256 metadata)] of
              Some e \<Rightarrow> integrity_error result e
            | None \<Rightarrow>
               (case HashAssetTree env (path_join directory (ascii ''assets'')) of
                  None \<Rightarrow> Unfinished
                | Some (Inl e) \<Rightarrow> integrity_error result e
                | Some (Inr (tree, count)) \<Rightarrow>
                    if count \<noteq> pm_asset_file_count metadata \<or> tree \<noteq> pm_asset_tree_sha256 metadata
                    then integrity_error result (ascii ''payload asset tree does not match metadata'')
                    else Returned result))"

end
