(* ===== verification/Hash_Pool.thy ===== *)
theory Hash_Pool
  imports Payload_Integrity
begin

text \<open>
  The pool of threads that hashes an asset tree. The locale \<open>hash_pool\<close> is the contract of the hash function: a
  failure has a text. Whatever the order in which the threads take their steps, no two of them hold the same file,
  and when all have finished the digests are those of hashing the files one after the other, or the error is the
  one of a file that cannot be hashed. The pool finishes in any schedule that lets every thread move often enough.
\<close>

section \<open>Phases\<close>

fun claimed :: "WorkerPhase \<Rightarrow> nat option" where
  "claimed (Checking i) = Some i"
| "claimed (Hashing i) = Some i"
| "claimed _ = None"

fun phase_weight :: "WorkerPhase \<Rightarrow> nat" where
  "phase_weight Finished = 0"
| "phase_weight Claiming = 1"
| "phase_weight (Failing e) = 2"
| "phase_weight (Hashing i) = 3"
| "phase_weight (Checking i) = 4"

definition pool_weight :: "bytes list \<Rightarrow> HashPool \<Rightarrow> nat" where
  "pool_weight files p = 4 * (length files - hp_next_index p) + (\<Sum>x\<leftarrow>hp_workers p. phase_weight x)"

lemma sum_list_map_update:
  "w < length xs \<Longrightarrow> (\<Sum>x\<leftarrow>xs[w := y]. f x) + f (xs ! w) = (\<Sum>x\<leftarrow>xs. f x) + (f y :: nat)"
proof (induction xs arbitrary: w)
  case (Cons a xs)
  then show ?case by (cases w) auto
qed simp

text \<open>No two threads hold the same file, and what they hold has been taken from the counter.\<close>

definition claims_ok :: "nat \<Rightarrow> nat \<Rightarrow> WorkerPhase list \<Rightarrow> bool" where
  "claims_ok m n ws \<longleftrightarrow> (\<forall>w < length ws. \<forall>i. claimed (ws ! w) = Some i \<longrightarrow> i < m \<and> i < n \<and>
     (\<forall>v < length ws. v \<noteq> w \<longrightarrow> claimed (ws ! v) \<noteq> Some i))"

lemma claims_update:
  assumes "claims_ok m n ws" "w < length ws" "n \<le> n'"
    and "claimed x = None \<or> claimed x = claimed (ws ! w) \<or> claimed x = Some n \<and> n < m \<and> n < n'"
  shows "claims_ok m n' (ws[w := x])"
  unfolding claims_ok_def
proof (intro allI impI)
  fix u i assume u: "u < length (ws[w := x])" "claimed (ws[w := x] ! u) = Some i"
  have old: "i < m \<and> i < n \<and> (\<forall>v < length ws. v \<noteq> u' \<longrightarrow> claimed (ws ! v) \<noteq> Some i)" if "u' < length ws" "claimed (ws ! u') = Some i" for u'
    using that assms(1) by (auto simp: claims_ok_def)
  have fresh: "claimed (ws ! v) \<noteq> Some n" if "v < length ws" for v using that assms(1) by (force simp: claims_ok_def)
  show "i < m \<and> i < n' \<and> (\<forall>v < length (ws[w := x]). v \<noteq> u \<longrightarrow> claimed (ws[w := x] ! v) \<noteq> Some i)"
  proof (cases "u = w")
    case True
    then have "claimed x = Some i" using u by simp
    then show ?thesis using True assms old [of w] fresh by auto
  next
    case False
    then have o: "u < length ws" "claimed (ws ! u) = Some i" using u by simp_all
    show ?thesis using False old [OF o] assms(2-4) fresh [of u] o by (auto simp: nth_list_update)
  qed
qed

lemma kept_member: "y \<in> set xs \<Longrightarrow> y \<in> set (xs[w := x]) \<or> y = xs ! w"
  by (metis in_set_conv_nth length_list_update nth_list_update_neq)

section \<open>The contract and what follows from it\<close>

locale hash_pool =
  fixes hash :: "bytes \<Rightarrow> bytes + bytes"
  assumes failure_text: "hash f = Inl e \<Longrightarrow> e \<noteq> []"
begin

text \<open>What has become of the file with index \<open>i\<close>, which some thread has taken.\<close>

definition settled :: "bytes list \<Rightarrow> HashPool \<Rightarrow> nat \<Rightarrow> bool" where
  "settled files p i \<longleftrightarrow> hash (files ! i) = Inr (hp_digests p ! i) \<or> Some i \<in> claimed ` set (hp_workers p) \<or>
     hp_first_error p \<noteq> [] \<or> (\<exists>e. Failing e \<in> set (hp_workers p))"

definition fails :: "bytes list \<Rightarrow> bytes \<Rightarrow> bool" where
  "fails files e \<longleftrightarrow> (\<exists>f \<in> set files. hash f = Inl e)"

definition pool_inv :: "bytes list \<Rightarrow> HashPool \<Rightarrow> bool" where
  "pool_inv files p \<longleftrightarrow> length (hp_digests p) = length files \<and>
     (\<forall>i. i < length files \<and> i < hp_next_index p \<longrightarrow> settled files p i) \<and>
     claims_ok (length files) (hp_next_index p) (hp_workers p) \<and>
     (\<forall>e. Failing e \<in> set (hp_workers p) \<longrightarrow> fails files e) \<and>
     (hp_first_error p \<noteq> [] \<longrightarrow> fails files (hp_first_error p)) \<and>
     (Finished \<in> set (hp_workers p) \<longrightarrow> hp_first_error p \<noteq> [] \<or> length files \<le> hp_next_index p)"

lemma pool_inv_new: "pool_inv files (HashPool_new n (length files))"
  by (simp add: pool_inv_def HashPool_new_def claims_ok_def)

text \<open>A step of thread \<open>w\<close> to phase \<open>x\<close> keeps what has been settled.\<close>

lemma settled_frame:
  assumes "settled files p i" "w < length (hp_workers p)" "hp_workers q = (hp_workers p)[w := x]"
    and "hash (files ! i) = Inr (hp_digests p ! i) \<Longrightarrow> hash (files ! i) = Inr (hp_digests q ! i)"
    and "hp_first_error p \<noteq> [] \<Longrightarrow> hp_first_error q \<noteq> []"
    and "claimed (hp_workers p ! w) = Some i \<Longrightarrow> claimed x = Some i \<or> (\<exists>e. x = Failing e) \<or>
      hash (files ! i) = Inr (hp_digests q ! i) \<or> hp_first_error q \<noteq> []"
    and "\<And>e. hp_workers p ! w = Failing e \<Longrightarrow> hp_first_error q \<noteq> []"
  shows "settled files q i"
proof -
  have x: "x \<in> set (hp_workers q)" using assms(2,3) by (simp add: set_update_memI)
  have other: "y \<in> set (hp_workers q) \<or> y = hp_workers p ! w" if "y \<in> set (hp_workers p)" for y
    using kept_member [OF that] assms(3) by simp
  from assms(1) consider "hash (files ! i) = Inr (hp_digests p ! i)" | "hp_first_error p \<noteq> []"
    | y where "y \<in> set (hp_workers p)" "claimed y = Some i" | e where "Failing e \<in> set (hp_workers p)"
    unfolding settled_def by (metis imageE)
  then show ?thesis
  proof cases
    case (3 y)
    then show ?thesis using assms(6) x other [of y] unfolding settled_def by (metis image_eqI)
  next
    case (4 e)
    then show ?thesis using assms(7) other [of "Failing e"] unfolding settled_def by metis
  qed (use assms(4,5) in \<open>simp_all add: settled_def\<close>)
qed

text \<open>The invariant after a step: each part by its own frame rule.\<close>

lemma pool_invI:
  assumes "pool_inv files p" "w < length (hp_workers p)" "hp_workers q = (hp_workers p)[w := x]"
    and "length (hp_digests q) = length files" "hp_next_index p \<le> hp_next_index q"
    and "\<And>i. i < length files \<Longrightarrow> i < hp_next_index q \<Longrightarrow> settled files q i"
    and "claimed x = None \<or> claimed x = claimed (hp_workers p ! w) \<or>
      claimed x = Some (hp_next_index p) \<and> hp_next_index p < length files \<and> hp_next_index p < hp_next_index q"
    and "\<And>e. x = Failing e \<Longrightarrow> fails files e"
    and "hp_first_error p \<noteq> [] \<and> hp_first_error q = hp_first_error p \<or> hp_first_error p = [] \<and> (hp_first_error q = [] \<or> fails files (hp_first_error q))"
    and "x = Finished \<Longrightarrow> hp_first_error q \<noteq> [] \<or> length files \<le> hp_next_index q"
  shows "pool_inv files q"
proof -
  note inv = assms(1) [unfolded pool_inv_def]
  have new: "y = x \<or> y \<in> set (hp_workers p)" if "y \<in> set (hp_workers q)" for y
    using that assms(3) set_update_subset_insert [of "hp_workers p" w x] by auto
  have "claims_ok (length files) (hp_next_index q) (hp_workers q)"
    unfolding assms(3) by (rule claims_update [OF _ assms(2,5,7)]) (use inv in blast)
  moreover have "fails files e" if "Failing e \<in> set (hp_workers q)" for e using new [OF that] assms(8) inv by auto
  moreover have "hp_first_error q \<noteq> [] \<or> length files \<le> hp_next_index q" if "Finished \<in> set (hp_workers q)"
    using new [OF that] assms(5,9,10) inv by auto
  moreover have "fails files (hp_first_error q)" if "hp_first_error q \<noteq> []" using that assms(9) inv by auto
  ultimately show ?thesis using assms(4,6) by (simp add: pool_inv_def)
qed

lemma pool_inv_claim:
  assumes "pool_inv files p" "w < length (hp_workers p)" "hp_workers p ! w = Claiming"
    and x: "x = (if hp_next_index p \<ge> length files then Finished else Checking (hp_next_index p))"
  shows "pool_inv files (p\<lparr>hp_next_index := hp_next_index p + 1, hp_workers := (hp_workers p)[w := x]\<rparr>)" (is "pool_inv files ?q")
proof (rule pool_invI [OF assms(1,2)])
  fix i assume i: "i < length files" "i < hp_next_index ?q"
  show "settled files ?q i"
  proof (cases "i = hp_next_index p")
    case True
    then have "Some i \<in> claimed ` set ((hp_workers p)[w := x])" using i(1) x set_update_memI [OF assms(2), of x] by force
    then show ?thesis by (simp add: settled_def)
  next
    case False
    then have "settled files p i" using i assms(1) by (simp add: pool_inv_def)
    then show ?thesis by (rule settled_frame) (use assms(2,3) in auto)
  qed
qed (use assms in \<open>auto simp: pool_inv_def split: if_splits\<close>)

lemma pool_inv_check:
  assumes "pool_inv files p" "w < length (hp_workers p)" "hp_workers p ! w = Checking i"
  shows "pool_inv files (p\<lparr>hp_workers := (hp_workers p)[w := if hp_first_error p \<noteq> [] then Finished else Hashing i]\<rparr>)" (is "pool_inv files ?q")
proof (rule pool_invI [OF assms(1,2)])
  fix j assume "j < length files" "j < hp_next_index ?q"
  then have "settled files p j" using assms(1) by (simp add: pool_inv_def)
  then show "settled files ?q j" by (rule settled_frame) (use assms(2,3) in \<open>auto\<close>)
qed (use assms in \<open>auto simp: pool_inv_def split: if_splits\<close>)

lemma pool_inv_hashed:
  assumes "pool_inv files p" "w < length (hp_workers p)" "hp_workers p ! w = Hashing i" "hash (files ! i) = Inr d"
  shows "pool_inv files (p\<lparr>hp_digests := (hp_digests p)[i := d], hp_workers := (hp_workers p)[w := Claiming]\<rparr>)" (is "pool_inv files ?q")
proof (rule pool_invI [OF assms(1,2)])
  have "i < length files" using assms(1-3) by (auto simp: pool_inv_def claims_ok_def)
  then have i: "i < length (hp_digests p)" using assms(1) by (simp add: pool_inv_def)
  fix j assume "j < length files" "j < hp_next_index ?q"
  then have "settled files p j" using assms(1) by (simp add: pool_inv_def)
  then show "settled files ?q j" by (rule settled_frame) (use assms(2-4) i in \<open>auto simp: nth_list_update\<close>)
qed (use assms in \<open>auto simp: pool_inv_def\<close>)

lemma pool_inv_failed:
  assumes "pool_inv files p" "w < length (hp_workers p)" "hp_workers p ! w = Hashing i" "hash (files ! i) = Inl e"
  shows "pool_inv files (p\<lparr>hp_workers := (hp_workers p)[w := Failing e]\<rparr>)" (is "pool_inv files ?q")
proof (rule pool_invI [OF assms(1,2)])
  have "i < length files" using assms(1-3) by (auto simp: pool_inv_def claims_ok_def)
  then show "fails files e'" if "Failing e = Failing e'" for e' using that assms(4) nth_mem unfolding fails_def by blast
  fix j assume "j < length files" "j < hp_next_index ?q"
  then have "settled files p j" using assms(1) by (simp add: pool_inv_def)
  then show "settled files ?q j" by (rule settled_frame) (use assms(2,3) in \<open>auto\<close>)
qed (use assms in \<open>auto simp: pool_inv_def\<close>)

lemma pool_inv_report:
  assumes "pool_inv files p" "w < length (hp_workers p)" "hp_workers p ! w = Failing e"
  shows "pool_inv files (p\<lparr>hp_first_error := if hp_first_error p = [] then e else hp_first_error p, hp_workers := (hp_workers p)[w := Finished]\<rparr>)"
    (is "pool_inv files ?q")
proof -
  have e: "fails files e" using assms nth_mem [OF assms(2)] by (simp add: pool_inv_def)
  then have "e \<noteq> []" using failure_text by (auto simp: fails_def)
  then show ?thesis by (intro pool_invI [OF assms(1,2)]) (use assms e in \<open>auto simp: pool_inv_def settled_def\<close>)
qed

lemma pool_inv_step:
  assumes "pool_inv files p"
  shows "pool_inv files (hash_range hash files p w)"
proof (cases "w < length (hp_workers p)")
  case True
  then show ?thesis
    using pool_inv_claim [OF assms True _ refl] pool_inv_check [OF assms True] pool_inv_hashed [OF assms True] pool_inv_failed [OF assms True]
      pool_inv_report [OF assms True]
    by (cases "hp_workers p ! w") (auto simp: hash_range_def Let_def assms simp del: if_split split: sum.split)
qed (use assms in \<open>simp add: hash_range_def\<close>)

lemma pool_inv_run: "pool_inv files p \<Longrightarrow> pool_inv files (run_ops (hash_range hash files) p ws)"
  by (induction ws arbitrary: p) (simp_all add: pool_inv_step)

text \<open>When all threads have finished, there is an error of some file or all digests are there.\<close>

lemma pool_finished:
  assumes "pool_inv files p" "list_all (\<lambda>x. x = Finished) (hp_workers p)" "hp_workers p \<noteq> []"
  shows "if hp_first_error p = [] then map hash files = map Inr (hp_digests p) else fails files (hp_first_error p)"
proof (cases "hp_first_error p = []")
  case True
  have f: "x = Finished" if "x \<in> set (hp_workers p)" for x using that assms(2) by (simp add: list_all_iff)
  have "length files \<le> hp_next_index p" using assms(1,3) f [of "hd (hp_workers p)"] True hd_in_set [OF assms(3)] by (simp add: pool_inv_def)
  then have "settled files p i" if "i < length files" for i using that assms(1) by (simp add: pool_inv_def)
  then have "hash (files ! i) = Inr (hp_digests p ! i)" if "i < length files" for i
    using that True f unfolding settled_def by fastforce
  then show ?thesis using True assms(1) by (auto simp: pool_inv_def intro: nth_equalityI)
qed (use assms(1) in \<open>simp add: pool_inv_def\<close>)

end

section \<open>Progress\<close>

text \<open>Every step of a thread that has not finished lowers the weight.\<close>

lemma pool_weight_step:
  assumes "w < length (hp_workers p)" "hp_workers p ! w \<noteq> Finished"
  shows "pool_weight files (hash_range hash files p w) < pool_weight files p"
proof -
  have u: "(\<Sum>x\<leftarrow>(hp_workers p)[w := y]. phase_weight x) + phase_weight (hp_workers p ! w) = (\<Sum>x\<leftarrow>hp_workers p. phase_weight x) + phase_weight y" for y
    by (rule sum_list_map_update [OF assms(1)])
  show ?thesis
  proof (cases "hp_workers p ! w")
    case Claiming
    then show ?thesis using assms(1) u [of Finished] u [of "Checking (hp_next_index p)"] by (auto simp: pool_weight_def hash_range_def Let_def)
  next
    case (Checking i)
    then show ?thesis using assms(1) u [of Finished] u [of "Hashing i"] by (auto simp: pool_weight_def hash_range_def)
  next
    case (Hashing i)
    then show ?thesis using assms(1) u [of Claiming] u [of "Failing (projl (hash (files ! i)))"]
      by (cases "hash (files ! i)") (simp_all add: pool_weight_def hash_range_def)
  next
    case (Failing e)
    then show ?thesis using assms(1) u [of Finished] by (simp add: pool_weight_def hash_range_def)
  qed (use assms in simp)
qed

lemma pool_idle: "\<not> (w < length (hp_workers p) \<and> hp_workers p ! w \<noteq> Finished) \<Longrightarrow> hash_range hash files p w = p"
  by (auto simp: hash_range_def)

lemma length_workers_step [simp]: "length (hp_workers (hash_range hash files p w)) = length (hp_workers p)"
  by (simp add: hash_range_def Let_def split: WorkerPhase.split sum.split)

lemma length_workers_run [simp]: "length (hp_workers (run_ops (hash_range hash files) p ws)) = length (hp_workers p)"
  by (induction ws arbitrary: p) simp_all

lemma pool_weight_run: "pool_weight files (run_ops (hash_range hash files) p ws) \<le> pool_weight files p"
proof (induction ws arbitrary: p)
  case (Cons w ws)
  have "pool_weight files (hash_range hash files p w) \<le> pool_weight files p"
    using pool_weight_step [of w p files hash] pool_idle [of w p hash files] by fastforce
  then show ?case using Cons.IH [of "hash_range hash files p w"] by simp
qed simp

lemma pool_round_progress:
  assumes "w \<in> set ws" "w < length (hp_workers p)" "hp_workers p ! w \<noteq> Finished"
  shows "pool_weight files (run_ops (hash_range hash files) p ws) < pool_weight files p"
  using assms(1)
proof (induction ws)
  case (Cons v ws)
  show ?case
  proof (cases "v < length (hp_workers p) \<and> hp_workers p ! v \<noteq> Finished")
    case True
    then show ?thesis using pool_weight_step [of v p files hash] pool_weight_run [of files hash "hash_range hash files p v" ws] by simp
  next
    case False
    then show ?thesis using Cons assms(2,3) pool_idle [OF False] by auto
  qed
qed simp

lemma finished_iff_weight: "list_all (\<lambda>x. x = Finished) ws \<longleftrightarrow> (\<Sum>x\<leftarrow>ws. phase_weight x) = 0"
proof -
  have "phase_weight x = 0 \<longleftrightarrow> x = Finished" for x by (cases x) simp_all
  then show ?thesis by (auto simp: list_all_iff)
qed

lemma finished_run: "list_all (\<lambda>x. x = Finished) (hp_workers p) \<Longrightarrow> run_ops (hash_range hash files) p ws = p"
  by (induction ws) (simp_all add: pool_idle list_all_length)

text \<open>A schedule of rounds in each of which every thread moves.\<close>

definition fair_rounds :: "nat \<Rightarrow> nat list list \<Rightarrow> bool" where
  "fair_rounds workers rounds \<longleftrightarrow> list_all (\<lambda>r. {..<workers} \<subseteq> set r) rounds"

lemma pool_finishes:
  assumes "fair_rounds (length (hp_workers p)) rounds" "pool_weight files p \<le> length rounds"
  shows "list_all (\<lambda>x. x = Finished) (hp_workers (run_ops (hash_range hash files) p (concat rounds)))"
  using assms
proof (induction rounds arbitrary: p)
  case Nil
  then show ?case by (simp add: finished_iff_weight pool_weight_def)
next
  case (Cons r rounds)
  show ?case
  proof (cases "list_all (\<lambda>x. x = Finished) (hp_workers p)")
    case True
    then show ?thesis using finished_run by metis
  next
    case False
    then obtain w where "w < length (hp_workers p)" "hp_workers p ! w \<noteq> Finished" by (auto simp: list_all_length)
    then have "pool_weight files (run_ops (hash_range hash files) p r) < pool_weight files p"
      by (intro pool_round_progress [of w]) (use Cons.prems(1) in \<open>auto simp: fair_rounds_def\<close>)
    then show ?thesis using Cons by (simp add: run_ops_append fair_rounds_def)
  qed
qed

section \<open>The hash function of the program\<close>

lemma HashRegularFile_failure: "HashRegularFile evp fs path = Inl e \<Longrightarrow> e \<noteq> []"
proof -
  have "hash_loop evp path rs d = Inl e \<Longrightarrow> e \<noteq> []" for rs d
    by (induction evp path rs d rule: hash_loop.induct) (auto simp: ascii_def split: if_splits prod.splits)
  then show "HashRegularFile evp fs path = Inl e \<Longrightarrow> e \<noteq> []"
    by (auto simp: HashRegularFile_def Let_def ascii_def split: if_splits option.splits prod.splits sum.splits)
qed

interpretation files: hash_pool "\<lambda>f. HashRegularFile evp fs (path_join dir f)" for evp fs dir
  by unfold_locales (rule HashRegularFile_failure)

end
