(* ===== verification/Payload_Safety.thy ===== *)
theory Payload_Safety
  imports Hash_Pool
begin

text \<open>
  What the integrity checks of a payload give. The digest of the asset tree does not depend on the schedule of the
  threads, and a payload that is verified against its metadata is determined by it up to collisions of the hash
  function. Its identifier is a plain file name.
\<close>

section \<open>Hexadecimal digests\<close>

lemma kHex_inj: "a < 16 \<Longrightarrow> b < 16 \<Longrightarrow> kHex a = kHex b \<Longrightarrow> a = b"
proof -
  have "distinct (map kHex [0..<16])" by (simp add: kHex_def ascii_def upt_rec)
  then have "inj_on kHex {0..<16}" by (simp add: distinct_map)
  then show "a < 16 \<Longrightarrow> b < 16 \<Longrightarrow> kHex a = kHex b \<Longrightarrow> a = b" by (auto dest: inj_onD)
qed

lemma high_nibble_bound: "unat (d :: u8) div 16 < 16"
proof -
  have "unat d < 2 ^ LENGTH(8)" by (rule unsigned_less)
  then show ?thesis by simp
qed

lemma byte_nibbles: "unat (drop_bit 4 d AND 0x0f :: u8) = unat d div 16" "unat (d AND 0x0f :: u8) = unat d mod 16"
proof -
  have m: "(0x0f :: u8) = mask 4" by (simp add: mask_eq_exp_minus_1)
  show "unat (drop_bit 4 d AND 0x0f :: u8) = unat d div 16"
    unfolding m using high_nibble_bound [of d] by (simp flip: take_bit_eq_mask add: unat_drop_bit_eq unsigned_take_bit_eq take_bit_eq_mod drop_bit_eq_div unat_mod_distrib unat_div_distrib)
  show "unat (d AND 0x0f :: u8) = unat d mod 16"
    unfolding m by (simp flip: take_bit_eq_mask add: unsigned_take_bit_eq take_bit_eq_mod unat_mod_distrib)
qed

lemma BytesToHex_inj: "BytesToHex xs = BytesToHex ys \<Longrightarrow> xs = ys"
proof (induction xs arbitrary: ys rule: BytesToHex.induct)
  case 1
  then show ?case by (cases ys) simp_all
next
  case (2 x xs)
  then obtain y zs where y: "ys = y # zs" by (cases ys) auto
  have "kHex (unat x div 16) = kHex (unat y div 16)" "kHex (unat x mod 16) = kHex (unat y mod 16)"
    using 2(2) unfolding y BytesToHex.simps byte_nibbles(1) unfolding byte_nibbles(2) by simp_all
  then have "unat x div 16 = unat y div 16" "unat x mod 16 = unat y mod 16"
    using kHex_inj [OF high_nibble_bound high_nibble_bound, of x y] kHex_inj [of "unat x mod 16" "unat y mod 16"] by simp_all
  then have "unat x = unat y" by (metis div_mult_mod_eq)
  then show ?case using 2 y by (simp add: word_unat_eq_iff)
qed

lemma length_BytesToHex [simp]: "length (BytesToHex d) = 2 * length d"
  by (induction d rule: BytesToHex.induct) simp_all

lemma LowerHex_BytesToHex: "LowerHex (BytesToHex d) (2 * length d)"
  using BytesToHex_lower [of d] by (auto simp: LowerHex_def is_digit_def lower_hex_def list_all_iff)

lemma format_loop_all: "length hex + 2 * length d \<le> limit \<Longrightarrow> format_loop limit d hex = hex @ BytesToHex d"
  by (induction limit d hex rule: format_loop.induct) (simp_all add: Let_def)

lemma FormatHex_all: "FormatHex d 0 = BytesToHex d"
  by (simp add: FormatHex_def format_loop_all)

text \<open>Prefixes of the digest, as the callers with a shorter form ask for.\<close>

lemma format_loop_take: "length hex \<le> limit \<Longrightarrow> format_loop limit d hex = take limit (hex @ BytesToHex d)"
  by (induction limit d hex rule: format_loop.induct) (auto simp: Let_def take_Cons')

section \<open>Files\<close>

fun read_data :: "ReadOutcome list \<Rightarrow> bytes" where
  "read_data [] = []"
| "read_data (ReadBytes d # rest) = (if d = [] then [] else d @ read_data rest)"
| "read_data (_ # rest) = read_data rest"

definition file_bytes :: "PayloadFs \<Rightarrow> bytes \<Rightarrow> bytes" where
  "file_bytes fs path = read_data (fn_reads (pf_file fs path))"

text \<open>A text is the hexadecimal digest of some data.\<close>

definition hex_digest :: "Evp \<Rightarrow> bytes \<Rightarrow> bytes \<Rightarrow> bool" where
  "hex_digest evp data hex \<longleftrightarrow> (\<exists>d. ev_final evp data = Some d \<and> length d = 32 \<and> hex = BytesToHex d)"

lemma hex_digest_length: "hex_digest evp data hex \<Longrightarrow> length hex = 64"
  by (auto simp: hex_digest_def)

lemma hex_digest_eq: "hex_digest evp x h \<Longrightarrow> hex_digest evp' y h \<Longrightarrow> ev_final evp x = ev_final evp' y"
  by (auto simp: hex_digest_def dest: BytesToHex_inj)

lemma FinalHex_digest: "FileDigest_FinalHex evp 0 (Some data) = hex \<Longrightarrow> hex \<noteq> [] \<Longrightarrow> hex_digest evp data hex"
  by (auto simp: FileDigest_FinalHex_def FormatHex_all hex_digest_def split: option.splits if_splits)

lemma Update_fed: "FileDigest_Update evp data (Some fed) = (True, c) \<Longrightarrow> c = Some (fed @ data)"
  by (auto simp: FileDigest_Update_def split: if_splits)

lemma hash_loop_fed: "hash_loop evp path rs (Some fed) = Inr c \<Longrightarrow> c = Some (fed @ read_data rs)"
proof (induction rs arbitrary: fed)
  case (Cons r rs)
  show ?case
  proof (cases r)
    case (ReadBytes d)
    show ?thesis
    proof (cases "d = []")
      case False
      obtain ok c' where u: "FileDigest_Update evp d (Some fed) = (ok, c')" by fastforce
      with Cons.prems ReadBytes False have "ok" by (cases ok) auto
      then show ?thesis using u Cons.prems Cons.IH [of "fed @ d"] ReadBytes False Update_fed [of evp d fed c'] by auto
    qed (use Cons.prems ReadBytes in simp)
  qed (use Cons in auto)
qed simp

lemma HashRegularFile_digest:
  assumes "HashRegularFile evp fs path = Inr hex"
  shows "hex_digest evp (file_bytes fs path) hex"
proof -
  let ?file = "pf_file fs path"
  obtain st where st: "fn_opens ?file" "fn_fstat ?file = Some (True, st)" "ev_new evp"
    using assms by (cases "fn_opens ?file"; cases "fn_fstat ?file"; cases "ev_new evp") (auto simp: HashRegularFile_def FileDigest_new_def split: if_splits)
  obtain c where c: "hash_loop evp path (fn_reads ?file) (Some []) = Inr c"
    using assms st by (cases "hash_loop evp path (fn_reads ?file) (Some [])") (simp_all add: HashRegularFile_def FileDigest_new_def)
  have "hex = FileDigest_FinalHex evp 0 c" "hex \<noteq> []"
    using assms st c by (auto simp: HashRegularFile_def FileDigest_new_def Let_def split: if_splits)
  then show ?thesis using hash_loop_fed [OF c] by (simp add: file_bytes_def FinalHex_digest)
qed

section \<open>The asset tree\<close>

definition tree_bytes :: "(bytes \<times> bytes) list \<Rightarrow> bytes" where
  "tree_bytes ds = concat (map (\<lambda>(digest, name). digest @ ascii ''  '' @ name @ [0]) ds)"

lemma tree_loop_fed: "tree_loop evp ds (Some fed) = (True, c) \<Longrightarrow> c = Some (fed @ tree_bytes ds)"
proof (induction ds arbitrary: fed)
  case (Cons a ds)
  obtain d n where a: "a = (d, n)" by fastforce
  have "tree_loop evp ds (Some (fed @ d @ ascii ''  '' @ n @ [0])) = (True, c)"
    using Cons.prems a by (auto split: prod.splits if_splits dest!: Update_fed)
  from Cons.IH [OF this] show ?case by (simp add: a tree_bytes_def)
qed (simp add: tree_bytes_def)

lemma tree_digest_digest: "tree_digest evp digests files = Inr hex \<Longrightarrow> hex_digest evp (tree_bytes (zip digests files)) hex"
  by (auto simp: tree_digest_def Let_def FileDigest_new_def split: if_splits prod.splits dest!: tree_loop_fed intro!: FinalHex_digest)

definition plain_name :: "bytes \<Rightarrow> bool" where
  "plain_name name \<longleftrightarrow> 0 \<notin> set name"

text \<open>The encoding of the tree can be read back: digests have a fixed length and names end with a NUL.\<close>

lemma nul_terminated: "plain_name a \<Longrightarrow> plain_name b \<Longrightarrow> a @ 0 # x = b @ 0 # y \<Longrightarrow> a = b \<and> x = y"
proof (induction a arbitrary: b)
  case Nil
  then show ?case by (cases b) (auto simp: plain_name_def)
next
  case (Cons c a)
  then show ?case by (cases b) (auto simp: plain_name_def)
qed

lemma tree_bytes_inj:
  assumes "list_all (\<lambda>(d, n). length d = 64 \<and> plain_name n) ds" "list_all (\<lambda>(d, n). length d = 64 \<and> plain_name n) es"
    and "tree_bytes ds = tree_bytes es"
  shows "ds = es"
  using assms
proof (induction ds arbitrary: es)
  case Nil
  then show ?case by (cases es) (auto simp: tree_bytes_def)
next
  case (Cons a ds)
  obtain d n where a: "a = (d, n)" by fastforce
  have "es \<noteq> []" using Cons.prems(3) by (auto simp: tree_bytes_def a)
  then obtain e m es' where es: "es = (e, m) # es'" by (cases es) auto
  have "d @ (ascii ''  '' @ n @ 0 # tree_bytes ds) = e @ (ascii ''  '' @ m @ 0 # tree_bytes es')" "length d = length e"
    using Cons.prems by (simp_all add: a es tree_bytes_def)
  then have "d = e" "n @ 0 # tree_bytes ds = m @ 0 # tree_bytes es'" by simp_all
  moreover have "plain_name n" "plain_name m" using Cons.prems(1,2) by (simp_all add: a es)
  ultimately have "n = m" "tree_bytes ds = tree_bytes es'" using nul_terminated by blast+
  then show ?case using Cons.IH [of es'] Cons.prems(1,2) \<open>d = e\<close> by (simp add: a es)
qed

lemma walked_files: "asset_files fs dir = Inr files \<Longrightarrow> sorted files"
  by (auto simp: asset_files_def split: if_splits sum.splits)

text \<open>The pool of \<open>HashAssetTree\<close>, when it has finished.\<close>

lemma HashAssetTree_result:
  assumes "HashAssetTree env dir = Some r" "asset_files (pe_fs env) dir = Inr files" "length files < 2 ^ 32"
  shows "(\<exists>f e. f \<in> set files \<and> HashRegularFile (pe_evp env) (pe_fs env) (path_join dir f) = Inl e \<and> r = Inl e) \<or>
    (\<exists>digests. map (\<lambda>f. HashRegularFile (pe_evp env) (pe_fs env) (path_join dir f)) files = map Inr digests \<and>
       r = (case tree_digest (pe_evp env) digests files of Inl e \<Rightarrow> Inl e | Inr hex \<Rightarrow> Inr (hex, length files)))"
proof -
  let ?H = "\<lambda>f. HashRegularFile (pe_evp env) (pe_fs env) (path_join dir f)"
  let ?n = "pool_workers (pe_hardware_concurrency env) (length files)"
  let ?p = "run_ops (hash_range ?H files) (HashPool_new ?n (length files)) (pe_schedule env)"
  have fin: "list_all (\<lambda>x. x = Finished) (hp_workers ?p)"
    and r: "r = (if hp_first_error ?p \<noteq> [] then Inl (hp_first_error ?p) else
      (case tree_digest (pe_evp env) (hp_digests ?p) files of Inl e \<Rightarrow> Inl e | Inr hex \<Rightarrow> Inr (hex, length files)))"
    using assms(1,2) by (auto simp: HashAssetTree_def Let_def split: if_splits)
  have inv: "files.pool_inv (pe_evp env) (pe_fs env) dir files ?p" by (intro files.pool_inv_run files.pool_inv_new)
  have "if hp_first_error ?p = [] then map ?H files = map Inr (hp_digests ?p)
    else files.fails (pe_evp env) (pe_fs env) dir files (hp_first_error ?p)"
  proof (cases "files = []")
    case True
    then show ?thesis using inv by (simp add: files.pool_inv_def files.fails_def)
  next
    case False
    then have "?n \<noteq> 0" using assms(3) by (simp add: pool_workers_def)
    then have "length (hp_workers ?p) \<noteq> 0" by (simp add: HashPool_new_def)
    then have "hp_workers ?p \<noteq> []" by force
    then show ?thesis by (rule files.pool_finished [OF inv fin])
  qed
  then show ?thesis using r by (auto simp: files.fails_def split: if_splits)
qed

section \<open>Verified payloads\<close>

lemma asset_files_failure: "asset_files fs dir = Inl e \<Longrightarrow> e \<noteq> []"
proof -
  have "walk_loop ws acc = Inl e \<Longrightarrow> e \<noteq> []" for ws acc
    by (induction ws acc rule: walk_loop.induct) (auto simp: ascii_def split: if_splits)
  then show "asset_files fs dir = Inl e \<Longrightarrow> e \<noteq> []" by (auto simp: asset_files_def ascii_def split: if_splits sum.splits)
qed

lemma tree_digest_failure: "tree_digest evp digests files = Inl e \<Longrightarrow> e \<noteq> []"
  by (auto simp: tree_digest_def Let_def ascii_def split: if_splits prod.splits)

lemma HashAssetTree_failure: "HashAssetTree env dir = Some (Inl e) \<Longrightarrow> e \<noteq> []"
  by (auto simp: HashAssetTree_def Let_def split: if_splits sum.splits dest: asset_files_failure tree_digest_failure)

lemma run_then_Returned: "run_then m f = Returned y \<longleftrightarrow> (\<exists>x. m = Returned x \<and> f x = Returned y)"
  by (cases m) simp_all

lemma integrity_error_ok: "integrity_error r e = Returned r' \<Longrightarrow> pi_error r' = [] \<Longrightarrow> e = []"
  by (auto simp: integrity_error_def)

lemma inspect_members_ok:
  assumes "inspect_members arch document v sha256 assets = Returned r" "pi_error r = []"
  shows "LowerHex (pm_build_id (pi_metadata r)) 40 \<and> pm_version_code (pi_metadata r) \<noteq> 0 \<and>
    pm_package_name (pi_metadata r) = ascii ''com.roblox.client'' \<and>
    pi_payload_id r = ascii (to_string (pm_version_code (pi_metadata r))) @ ascii ''-'' @ pm_build_id (pi_metadata r)"
  using assms
  by (auto simp: inspect_members_def run_then_Returned Let_def ascii_def PayloadIntegrityResult_new_def
      split: option.splits if_splits dest!: integrity_error_ok)

lemma ascii_empty [simp]: "ascii s = [] \<longleftrightarrow> s = []"
  by (simp add: ascii_def)

lemma ReadMetadata_failure: "ReadMetadata fs path = Inl e \<Longrightarrow> e \<noteq> []"
  by (auto simp: ReadMetadata_def Let_def split: option.splits if_splits prod.splits)

lemma InspectPreparedPayload_ok:
  assumes "InspectPreparedPayload env dir = Returned r" "pi_error r = []"
  shows "\<exists>document v sha256 assets. inspect_members (pe_arch env) document v sha256 assets = Returned r"
  using assms ReadMetadata_failure [of "pe_fs env" "path_join dir (ascii ''roblox_payload.json'')" "[]"]
  by (auto simp: InspectPreparedPayload_def Let_def run_then_Returned simp del: missing_entry.simps
      split: option.splits if_splits sum.splits Json.splits dest!: integrity_error_ok)

lemma verify_files_ok:
  "verify_files env dir fs = None \<Longrightarrow> (f, h) \<in> set fs \<Longrightarrow> HashRegularFile (pe_evp env) (pe_fs env) (path_join dir f) = Inr h"
  by (induction fs) (auto split: sum.splits if_splits)

lemma verified_parts:
  assumes "VerifyPreparedPayload env dir = Returned r" "pi_error r = []"
  shows "InspectPreparedPayload env dir = Returned r"
    and "verify_files env dir [(library_path, pm_library_sha256 (pi_metadata r)), (base_apk_path, pm_base_apk_sha256 (pi_metadata r)),
        (split_apk_path (pe_arch env), pm_split_apk_sha256 (pi_metadata r))] = None"
    and "HashAssetTree env (path_join dir (ascii ''assets'')) = Some (Inr (pm_asset_tree_sha256 (pi_metadata r), pm_asset_file_count (pi_metadata r)))"
proof -
  have e: "e \<noteq> []" if "verify_files env dir fs = Some e" for fs e
    using that HashRegularFile_failure by (induction fs) (auto simp: ascii_def split: sum.splits if_splits)
  define vf where "vf x = verify_files env dir [(library_path, pm_library_sha256 (pi_metadata x)), (base_apk_path, pm_base_apk_sha256 (pi_metadata x)),
        (split_apk_path (pe_arch env), pm_split_apk_sha256 (pi_metadata x))]" for x :: PayloadIntegrityResult
  define ha where "ha = HashAssetTree env (path_join dir (ascii ''assets''))"
  have "\<exists>x. InspectPreparedPayload env dir = Returned x \<and>
      (if pi_error x \<noteq> [] then Returned x else case vf x of
        Some e \<Rightarrow> integrity_error x e
      | None \<Rightarrow> (case ha of
          None \<Rightarrow> Unfinished
        | Some (Inl e) \<Rightarrow> integrity_error x e
        | Some (Inr (tree, count)) \<Rightarrow>
            if count \<noteq> pm_asset_file_count (pi_metadata x) \<or> tree \<noteq> pm_asset_tree_sha256 (pi_metadata x)
            then integrity_error x (ascii ''payload asset tree does not match metadata'') else Returned x)) = Returned r"
    using assms(1) unfolding VerifyPreparedPayload_def run_then_Returned Let_def vf_def ha_def .
  then obtain x where x: "InspectPreparedPayload env dir = Returned x"
    and b: "(if pi_error x \<noteq> [] then Returned x else case vf x of
        Some e \<Rightarrow> integrity_error x e
      | None \<Rightarrow> (case ha of
          None \<Rightarrow> Unfinished
        | Some (Inl e) \<Rightarrow> integrity_error x e
        | Some (Inr (tree, count)) \<Rightarrow>
            if count \<noteq> pm_asset_file_count (pi_metadata x) \<or> tree \<noteq> pm_asset_tree_sha256 (pi_metadata x)
            then integrity_error x (ascii ''payload asset tree does not match metadata'') else Returned x)) = Returned r" by blast
  have vf_text: "e' \<noteq> []" if "vf x = Some e'" for e' by (rule e [OF that [unfolded vf_def]])
  have "vf x = None" using b assms(2) vf_text by (auto split: if_splits option.splits dest: integrity_error_ok)
  moreover have "ha = Some (Inr (pm_asset_tree_sha256 (pi_metadata x), pm_asset_file_count (pi_metadata x))) \<and> x = r"
  proof (cases ha)
    case (Some a)
    then show ?thesis using b assms(2) \<open>vf x = None\<close> HashAssetTree_failure [of env]
      by (cases a) (auto simp: ha_def ascii_def split: if_splits dest: integrity_error_ok)
  qed (use b assms(2) \<open>vf x = None\<close> in \<open>auto split: if_splits\<close>)
  ultimately show "InspectPreparedPayload env dir = Returned r"
    and "verify_files env dir [(library_path, pm_library_sha256 (pi_metadata r)), (base_apk_path, pm_base_apk_sha256 (pi_metadata r)),
        (split_apk_path (pe_arch env), pm_split_apk_sha256 (pi_metadata r))] = None"
    and "HashAssetTree env (path_join dir (ascii ''assets'')) = Some (Inr (pm_asset_tree_sha256 (pi_metadata r), pm_asset_file_count (pi_metadata r)))"
    using x by (simp_all add: vf_def ha_def)
qed

definition payload_contents :: "PayloadEnv \<Rightarrow> bytes \<Rightarrow> (bytes \<times> bytes) list" where
  "payload_contents env dir =
     map (\<lambda>f. (f, file_bytes (pe_fs env) (path_join dir f))) [library_path, base_apk_path, split_apk_path (pe_arch env)]"

definition asset_contents :: "PayloadEnv \<Rightarrow> bytes \<Rightarrow> (bytes \<times> bytes) list" where
  "asset_contents env dir =
     (let assets = path_join dir (ascii ''assets'')
      in case asset_files (pe_fs env) assets of
           Inl e \<Rightarrow> []
         | Inr files \<Rightarrow> map (\<lambda>f. (f, file_bytes (pe_fs env) (path_join assets f))) files)"

definition asset_tree :: "Evp \<Rightarrow> (bytes \<times> bytes) list \<Rightarrow> bytes" where
  "asset_tree evp contents = tree_bytes (map (\<lambda>(f, c). (BytesToHex (the (ev_final evp c)), f)) contents)"

text \<open>Everything that is hashed when a payload is verified.\<close>

definition hashed_data :: "PayloadEnv \<Rightarrow> bytes \<Rightarrow> bytes list" where
  "hashed_data env dir = map snd (payload_contents env dir) @ map snd (asset_contents env dir) @ [asset_tree (pe_evp env) (asset_contents env dir)]"

definition hash_collision :: "(bytes \<Rightarrow> bytes option) \<Rightarrow> bytes list \<Rightarrow> bytes list \<Rightarrow> bool" where
  "hash_collision sha xs ys \<longleftrightarrow> list_ex (\<lambda>x. list_ex (\<lambda>y. x \<noteq> y \<and> sha x = sha y) ys) xs"

lemma no_hash_collision: "\<not> hash_collision sha xs ys \<Longrightarrow> x \<in> set xs \<Longrightarrow> y \<in> set ys \<Longrightarrow> sha x = sha y \<Longrightarrow> x = y"
  by (auto simp: hash_collision_def list_ex_iff)

text \<open>What a successful verification has established.\<close>

lemma VerifyPreparedPayload_ok:
  assumes "VerifyPreparedPayload env dir = Returned r" "pi_error r = []" "pm_asset_file_count (pi_metadata r) < 2 ^ 32"
  shows "list_all2 (\<lambda>(f, c) h. hex_digest (pe_evp env) c h) (payload_contents env dir)
      [pm_library_sha256 (pi_metadata r), pm_base_apk_sha256 (pi_metadata r), pm_split_apk_sha256 (pi_metadata r)]" (is ?files)
    and "list_all (\<lambda>(f, c). \<exists>h. hex_digest (pe_evp env) c h) (asset_contents env dir)" (is ?assets)
    and "hex_digest (pe_evp env) (asset_tree (pe_evp env) (asset_contents env dir)) (pm_asset_tree_sha256 (pi_metadata r))" (is ?tree)
proof -
  let ?a = "path_join dir (ascii ''assets'')" and ?m = "pi_metadata r"
  let ?H = "\<lambda>f. HashRegularFile (pe_evp env) (pe_fs env) (path_join ?a f)"
  have v: "verify_files env dir [(library_path, pm_library_sha256 ?m), (base_apk_path, pm_base_apk_sha256 ?m),
        (split_apk_path (pe_arch env), pm_split_apk_sha256 ?m)] = None"
    and t: "HashAssetTree env ?a = Some (Inr (pm_asset_tree_sha256 ?m, pm_asset_file_count ?m))"
    using assms(1,2) verified_parts by blast+
  show ?files using verify_files_ok [OF v] HashRegularFile_digest by (simp add: payload_contents_def)
  obtain files where f: "asset_files (pe_fs env) ?a = Inr files" using t by (auto simp: HashAssetTree_def split: sum.splits)
  have n: "length files = pm_asset_file_count ?m" using t f by (auto simp: HashAssetTree_def Let_def split: if_splits sum.splits)
  obtain digests where d: "map ?H files = map Inr digests"
    and c: "Inr (pm_asset_tree_sha256 ?m, pm_asset_file_count ?m) =
      (case tree_digest (pe_evp env) digests files of Inl e \<Rightarrow> Inl e | Inr hex \<Rightarrow> Inr (hex, length files))"
    using HashAssetTree_result [OF t f] assms(3) n by auto
  have g: "tree_digest (pe_evp env) digests files = Inr (pm_asset_tree_sha256 ?m)"
    using c by (cases "tree_digest (pe_evp env) digests files") simp_all
  have ld: "length digests = length files" using map_eq_imp_length_eq [OF d] by simp
  have h: "hex_digest (pe_evp env) (file_bytes (pe_fs env) (path_join ?a (files ! i))) (digests ! i)" if "i < length files" for i
    using that ld arg_cong [OF d, of "\<lambda>xs. xs ! i"] by (intro HashRegularFile_digest) simp
  show ?assets using f h by (auto simp: asset_contents_def list_all_length)
  have "map (\<lambda>(f, c). (BytesToHex (the (ev_final (pe_evp env) c)), f)) (asset_contents env dir) = zip digests files"
  proof (intro nth_equalityI)
    fix i assume "i < length (map (\<lambda>(f, c). (BytesToHex (the (ev_final (pe_evp env) c)), f)) (asset_contents env dir))"
    then have i: "i < length files" using f by (simp add: asset_contents_def)
    then have "BytesToHex (the (ev_final (pe_evp env) (file_bytes (pe_fs env) (path_join ?a (files ! i))))) = digests ! i"
      using h [OF i] by (auto simp: hex_digest_def)
    then show "map (\<lambda>(f, c). (BytesToHex (the (ev_final (pe_evp env) c)), f)) (asset_contents env dir) ! i = zip digests files ! i"
      using i ld f by (simp add: asset_contents_def)
  qed (use ld f in \<open>simp add: asset_contents_def\<close>)
  then show ?tree using tree_digest_digest [OF g] by (simp add: asset_tree_def)
qed

text \<open>The tree determines names and digests, and so the contents when equal digests come from equal data.\<close>

lemma asset_tree_inj:
  assumes "list_all (\<lambda>(f, c). \<exists>h. hex_digest evp c h) A" "list_all (\<lambda>(f, c). \<exists>h. hex_digest evp' c h) B"
    and "list_all plain_name (map fst A)" "list_all plain_name (map fst B)"
    and "asset_tree evp A = asset_tree evp' B"
    and "\<And>x y h. hex_digest evp x h \<Longrightarrow> hex_digest evp' y h \<Longrightarrow> x \<in> snd ` set A \<Longrightarrow> y \<in> snd ` set B \<Longrightarrow> x = y"
  shows "A = B"
proof -
  let ?f = "\<lambda>e (f, c). (BytesToHex (the (ev_final e c)), f)"
  have d: "hex_digest e (snd a) (fst (?f e a))" if "list_all (\<lambda>(f, c). \<exists>h. hex_digest e c h) L" "a \<in> set L" for e L a
    using that by (force simp: list_all_iff hex_digest_def)
  have ok: "list_all (\<lambda>(h, n). length h = 64 \<and> plain_name n) (map (?f e) L)"
    if "list_all (\<lambda>(f, c). \<exists>h. hex_digest e c h) L" "list_all plain_name (map fst L)" for e L
    using that hex_digest_length [OF d [OF that(1)]] by (fastforce simp: list_all_iff)
  have m: "map (?f evp) A = map (?f evp') B"
    by (rule tree_bytes_inj [OF ok [OF assms(1,3)] ok [OF assms(2,4)]]) (use assms(5) in \<open>simp add: asset_tree_def\<close>)
  show ?thesis
  proof (rule nth_equalityI)
    show l: "length A = length B" using map_eq_imp_length_eq [OF m] .
    fix i assume i: "i < length A"
    then have e: "?f evp (A ! i) = ?f evp' (B ! i)" using l arg_cong [OF m, of "\<lambda>xs. xs ! i"] by simp
    have "snd (A ! i) = snd (B ! i)"
      using assms(6) [OF d [OF assms(1)] d [OF assms(2), of "B ! i", folded e]] i l by simp
    moreover have "fst (A ! i) = fst (B ! i)" using e by (simp add: case_prod_beta)
    ultimately show "A ! i = B ! i" by (simp add: prod_eq_iff)
  qed
qed

section \<open>Identifiers\<close>

lemma digit_char: "d < 10 \<Longrightarrow> list_all is_digit (ascii [char_of (48 + d :: nat)])"
proof -
  assume "d < 10"
  then have "d \<in> {0, 1, 2, 3, 4, 5, 6, 7, 8, 9}" by auto
  then show ?thesis by (auto simp: ascii_def is_digit_def)
qed

lemma to_string_digits: "list_all is_digit (ascii (to_string n))"
proof (induction n rule: to_string.induct)
  case (1 n)
  then show ?case using digit_char [of n] digit_char [of "n mod 10"] by (subst to_string.simps) (simp add: ascii_def)
qed

text \<open>The identifier of a payload is made of digits, one dash and letters, so it is one component of a path.\<close>

lemma payload_id_plain:
  assumes "InspectPreparedPayload env dir = Returned r" "pi_error r = []"
  shows "list_all (\<lambda>c. is_digit c \<or> c = 0x2d \<or> 0x61 \<le> c \<and> c \<le> 0x66) (pi_payload_id r)"
  using InspectPreparedPayload_ok [OF assms] inspect_members_ok [OF _ assms(2)] to_string_digits [of "pm_version_code (pi_metadata r)"]
  by (fastforce simp: LowerHex_def list_all_iff ascii_def)

text \<open>
  A member of the metadata with the wrong type is not reported as an error: the JSON library ends the process.
\<close>

lemma wrong_type_aborts:
  "map_of document ''package'' = Some j \<Longrightarrow> \<forall>t. j \<noteq> JString t \<Longrightarrow> inspect_members arch document v sha256 assets = Aborted"
  by (cases j) (simp_all add: inspect_members_def json_text_def)

section \<open>Properties\<close>

text \<open>
  C17. The asset tree is hashed as if its files were hashed one after the other: for every number of processors and
  every order in which the threads take their steps, as long as each of them moves often enough, all threads
  finish, and the result is the digest computed from the files' digests in the order of their names, or the error
  of a file that cannot be hashed.
\<close>

theorem asset_tree_schedule_independent:
  assumes "asset_files (pe_fs env) dir = Inr files" "length files < 2 ^ 32" "pe_schedule env = concat rounds"
    and "fair_rounds (pool_workers (pe_hardware_concurrency env) (length files)) rounds" "4 * length files + 8 \<le> length rounds"
  shows "(\<exists>f e. f \<in> set files \<and> HashRegularFile (pe_evp env) (pe_fs env) (path_join dir f) = Inl e \<and> HashAssetTree env dir = Some (Inl e)) \<or>
    (\<exists>digests. map (\<lambda>f. HashRegularFile (pe_evp env) (pe_fs env) (path_join dir f)) files = map Inr digests \<and>
       HashAssetTree env dir =
         Some (case tree_digest (pe_evp env) digests files of Inl e \<Rightarrow> Inl e | Inr hex \<Rightarrow> Inr (hex, length files)))"
proof -
  let ?H = "\<lambda>f. HashRegularFile (pe_evp env) (pe_fs env) (path_join dir f)"
  let ?p = "HashPool_new (pool_workers (pe_hardware_concurrency env) (length files)) (length files)"
  have "pool_weight files ?p \<le> 4 * length files + 8"
    by (simp add: pool_weight_def HashPool_new_def sum_list_replicate pool_workers_def)
  then have "list_all (\<lambda>x. x = Finished) (hp_workers (run_ops (hash_range ?H files) ?p (concat rounds)))"
    by (intro pool_finishes) (use assms(4,5) in \<open>simp_all add: HashPool_new_def\<close>)
  then have "HashAssetTree env dir \<noteq> None" using assms(1,3) by (simp add: HashAssetTree_def Let_def)
  then obtain r where "HashAssetTree env dir = Some r" by blast
  then show ?thesis using HashAssetTree_result [OF _ assms(1,2)] by auto
qed

text \<open>
  A payload with one asset and files of one byte each, on a host whose hash function gives the length of the data
  in each of the 32 bytes.
\<close>

definition sample_evp :: Evp where
  "sample_evp = \<lparr>ev_new = True, ev_update = \<lambda>_ _. True, ev_final = \<lambda>data. Some (replicate 32 (of_nat (length data)))\<rparr>"

definition sample_digest :: "u8 \<Rightarrow> bytes" where "sample_digest n = BytesToHex (replicate 32 n)"

definition sample_json :: Json where
  "sample_json = JObject [(''schema_version'', JInteger 1), (''package'', JString (ascii ''com.roblox.client'')),
     (''version_name'', JString (ascii ''2.1'')), (''version_code'', JInteger 7), (''elf_build_id'', JString (replicate 40 0x30)),
     (''sha256'', JObject [(''libroblox'', JString (sample_digest 1)), (''base_apk'', JString (sample_digest 1)),
        (''x86_64_split_apk'', JString (sample_digest 1))]),
     (''assets'', JObject [(''file_count'', JInteger 1), (''sha256_tree'', JString (sample_digest 68))])]"

definition sample_fs :: "ReadOutcome list \<Rightarrow> PayloadFs" where
  "sample_fs reads = \<lparr>pf_symlink_status = \<lambda>p. Some (if p \<in> {ascii ''p'', ascii ''p/assets'', ascii ''p/assets/content''} then DirectoryFile else RegularFile),
     pf_file = \<lambda>p. \<lparr>fn_opens = True, fn_fstat = Some (True, 1), fn_reads = reads\<rparr>,
     pf_walk = \<lambda>p. ([(ascii ''content'', Some DirectoryFile), (ascii ''a'', Some RegularFile)], True)\<rparr>"

definition payload_sample :: "ReadOutcome list \<Rightarrow> PayloadEnv" where
  "payload_sample reads = \<lparr>pe_evp = sample_evp, pe_fs = sample_fs reads, pe_json = \<lambda>_. Some sample_json, pe_hardware_concurrency = 4,
     pe_schedule = [0, 0, 0, 0, 0, 0, 0, 0, 0, 0, 0, 0], pe_arch = X86_64\<rparr>"

definition sample_reads :: "ReadOutcome list" where "sample_reads = [ReadInterrupted, ReadBytes [0x41]]"

lemma payload_sample_fields [simp]:
  "pe_evp (payload_sample reads) = sample_evp" "pe_fs (payload_sample reads) = sample_fs reads" "pe_hardware_concurrency (payload_sample reads) = 4"
  "pe_schedule (payload_sample reads) = [0, 0, 0, 0, 0, 0, 0, 0, 0, 0, 0, 0]" "pe_arch (payload_sample reads) = X86_64" "pe_json (payload_sample reads) c = Some sample_json"
  by (simp_all add: payload_sample_def)

lemma sample_hash:
  "HashRegularFile sample_evp (sample_fs sample_reads) p = Inr (sample_digest 1)"
  "HashRegularFile sample_evp (sample_fs [ReadBytes [0x41]]) p = Inr (sample_digest 1)"
  by (simp_all add: HashRegularFile_def sample_evp_def sample_fs_def sample_reads_def FileDigest_new_def FileDigest_Update_def
      FileDigest_FinalHex_def FormatHex_all sample_digest_def numeral_eq_Suc)

lemma sample_asset_files: "asset_files (sample_fs reads) (ascii ''p/assets'') = Inr [ascii ''a'']"
  by (simp add: asset_files_def sample_fs_def)

lemma sample_workers: "pool_workers 4 (length [x]) = 1"
  by (simp add: pool_workers_def)

theorem asset_tree_schedule_independent_witness:
  "HashAssetTree (payload_sample sample_reads) (ascii ''p/assets'') =
    Some (case tree_digest sample_evp [sample_digest 1] [ascii ''a''] of Inl e \<Rightarrow> Inl e | Inr hex \<Rightarrow> Inr (hex, length [ascii ''a'']))"
proof -
  let ?e = "payload_sample sample_reads" and ?d = "ascii ''p/assets''" and ?f = "[ascii ''a'']"
  have "(\<exists>f e. f \<in> set ?f \<and> HashRegularFile (pe_evp ?e) (pe_fs ?e) (path_join ?d f) = Inl e \<and> HashAssetTree ?e ?d = Some (Inl e)) \<or>
    (\<exists>digests. map (\<lambda>f. HashRegularFile (pe_evp ?e) (pe_fs ?e) (path_join ?d f)) ?f = map Inr digests \<and>
       HashAssetTree ?e ?d = Some (case tree_digest (pe_evp ?e) digests ?f of Inl e \<Rightarrow> Inl e | Inr hex \<Rightarrow> Inr (hex, length ?f)))"
    by (rule asset_tree_schedule_independent [of _ _ _ "[[0], [0], [0], [0], [0], [0], [0], [0], [0], [0], [0], [0]]"])
      (simp_all only: payload_sample_fields sample_asset_files sample_workers fair_rounds_def, simp_all add: list_all_iff lessThan_Suc)
  then show ?thesis by (auto simp: sample_hash Cons_eq_map_conv simp del: One_nat_def)
qed

text \<open>
  C2. Verification determines the payload: when two payload directories are verified with the same metadata, they
  hold the same library, packages and assets, names included, or the hash function has a collision between data
  that were hashed.
\<close>

theorem verified_payload_determined:
  assumes "VerifyPreparedPayload env dir = Returned r" "pi_error r = []"
    and "VerifyPreparedPayload env' dir' = Returned r'" "pi_error r' = []"
    and "pi_metadata r = pi_metadata r'" "pm_asset_file_count (pi_metadata r) < 2 ^ 32"
    and "ev_final (pe_evp env) = ev_final (pe_evp env')" "pe_arch env = pe_arch env'"
    and "list_all plain_name (map fst (asset_contents env dir))" "list_all plain_name (map fst (asset_contents env' dir'))"
  shows "payload_contents env dir = payload_contents env' dir' \<and> asset_contents env dir = asset_contents env' dir' \<or>
    hash_collision (ev_final (pe_evp env)) (hashed_data env dir) (hashed_data env' dir')"
proof (rule disjCI)
  assume "\<not> hash_collision (ev_final (pe_evp env)) (hashed_data env dir) (hashed_data env' dir')"
  note same = no_hash_collision [OF this]
  note v = VerifyPreparedPayload_ok [OF assms(1,2,6)]
  note v' = VerifyPreparedPayload_ok [OF assms(3,4) assms(6) [unfolded assms(5)], folded assms(5)]
  have eq: "x = y" if "hex_digest (pe_evp env) x h" "hex_digest (pe_evp env') y h" "x \<in> set (hashed_data env dir)" "y \<in> set (hashed_data env' dir')" for x y h
    using same [OF that(3,4)] hex_digest_eq [OF that(1,2)] assms(7) by simp
  have "payload_contents env dir = payload_contents env' dir'"
    using v(1) v'(1) assms(8) by (auto simp: payload_contents_def hashed_data_def intro!: eq)
  moreover have "asset_tree (pe_evp env) (asset_contents env dir) = asset_tree (pe_evp env') (asset_contents env' dir')"
    by (rule eq [OF v(3) v'(3)]) (simp_all add: hashed_data_def)
  then have "asset_contents env dir = asset_contents env' dir'"
    by (rule asset_tree_inj [OF v(2) v'(2) assms(9,10)]) (use eq in \<open>auto simp: hashed_data_def\<close>)
  ultimately show "payload_contents env dir = payload_contents env' dir' \<and> asset_contents env dir = asset_contents env' dir'" by simp
qed

lemma sample_tree: "tree_digest sample_evp [sample_digest 1] [ascii ''a''] = Inr (sample_digest 68)"
  by (simp add: tree_digest_def sample_evp_def FileDigest_new_def FileDigest_Update_def FileDigest_FinalHex_def FormatHex_all ascii_def
      sample_digest_def numeral_eq_Suc)

lemma sample_asset_tree:
  assumes "\<And>p. HashRegularFile sample_evp (sample_fs reads) p = Inr (sample_digest 1)"
  shows "HashAssetTree (payload_sample reads) (ascii ''p/assets'') = Some (Inr (sample_digest 68, 1))"
proof -
  have "run_ops (hash_range (\<lambda>f. HashRegularFile sample_evp (sample_fs reads) (path_join (ascii ''p/assets'') f)) [ascii ''a''])
      (HashPool_new 1 (length [ascii ''a''])) ([0, 0, 0, 0, 0, 0, 0, 0, 0, 0, 0, 0]) =
    \<lparr>hp_next_index = 2, hp_first_error = [], hp_digests = [sample_digest 1], hp_workers = [Finished]\<rparr>"
    by (simp add: HashPool_new_def hash_range_def assms)
  then show ?thesis
    by (simp only: HashAssetTree_def Let_def payload_sample_fields sample_asset_files sample_workers sum.case HashPool.simps) (simp add: sample_tree)
qed

definition sample_result :: PayloadIntegrityResult where
  "sample_result = \<lparr>pi_metadata = \<lparr>pm_package_name = ascii ''com.roblox.client'', pm_version_name = ascii ''2.1'', pm_version_code = 7,
       pm_build_id = replicate 40 0x30, pm_library_sha256 = sample_digest 1, pm_base_apk_sha256 = sample_digest 1,
       pm_split_apk_sha256 = sample_digest 1, pm_asset_file_count = 1, pm_asset_tree_sha256 = sample_digest 68\<rparr>,
     pi_payload_id = ascii (to_string 7) @ ascii ''-'' @ replicate 40 0x30, pi_error = []\<rparr>"

lemma sample_lower_hex: "LowerHex (sample_digest 1) 64" "LowerHex (sample_digest 68) 64" "LowerHex (replicate 40 0x30) 40"
  using LowerHex_BytesToHex [of "replicate 32 1"] LowerHex_BytesToHex [of "replicate 32 68"]
  by (simp_all add: sample_digest_def) (simp add: LowerHex_def list_all_iff is_digit_def)

lemma sample_inspected:
  assumes "read_loop reads [] = Some c"
  shows "InspectPreparedPayload (payload_sample reads) (ascii ''p'') = Returned sample_result"
proof -
  have m: "missing_entry (sample_fs reads) (ascii ''p'') RegularFile [library_path, base_apk_path, split_apk_path X86_64, ascii ''roblox_payload.json''] = None"
    "missing_entry (sample_fs reads) (ascii ''p'') DirectoryFile [ascii ''assets'', ascii ''assets/content''] = None"
    by (simp_all add: sample_fs_def path_join_def library_path_def base_apk_path_def split_apk_path_def ascii_def)
  have d: "pf_symlink_status (sample_fs reads) (ascii ''p'') = Some DirectoryFile" by (simp add: sample_fs_def)
  have r: "ReadMetadata (sample_fs reads) f = Inr c" for f using assms by (simp add: ReadMetadata_def sample_fs_def)
  show ?thesis
    by (simp add: InspectPreparedPayload_def m d r sample_json_def json_int_def json_unsigned_def json_object_def
        inspect_members_def json_text_def sample_lower_hex sample_result_def PayloadIntegrityResult_new_def del: missing_entry.simps)
qed

lemma sample_verified:
  assumes "\<And>p. HashRegularFile sample_evp (sample_fs reads) p = Inr (sample_digest 1)" "read_loop reads [] = Some c"
  shows "VerifyPreparedPayload (payload_sample reads) (ascii ''p'') = Returned sample_result"
proof -
  have p: "path_join (ascii ''p'') (ascii ''assets'') = ascii ''p/assets''" by (simp add: path_join_def ascii_def)
  show ?thesis
    by (simp add: VerifyPreparedPayload_def sample_inspected [OF assms(2)] p sample_asset_tree [OF assms(1)] assms(1) Let_def) (simp add: sample_result_def assms(1))
qed

lemma sample_plain: "list_all plain_name (map fst (asset_contents (payload_sample reads) (ascii ''p'')))"
proof -
  have p: "path_join (ascii ''p'') (ascii ''assets'') = ascii ''p/assets''" by (simp add: path_join_def ascii_def)
  show ?thesis by (simp add: asset_contents_def p sample_asset_files) (simp add: plain_name_def ascii_def)
qed

theorem verified_payload_determined_witness:
  "payload_contents (payload_sample sample_reads) (ascii ''p'') = payload_contents (payload_sample [ReadBytes [0x41]]) (ascii ''p'') \<and>
     asset_contents (payload_sample sample_reads) (ascii ''p'') = asset_contents (payload_sample [ReadBytes [0x41]]) (ascii ''p'') \<or>
   hash_collision (ev_final sample_evp) (hashed_data (payload_sample sample_reads) (ascii ''p'')) (hashed_data (payload_sample [ReadBytes [0x41]]) (ascii ''p''))"
proof -
  have "read_loop sample_reads [] = Some [0x41]" "read_loop [ReadBytes [0x41]] [] = Some [0x41]" by (simp_all add: sample_reads_def)
  then have v: "VerifyPreparedPayload (payload_sample sample_reads) (ascii ''p'') = Returned sample_result"
    "VerifyPreparedPayload (payload_sample [ReadBytes [0x41]]) (ascii ''p'') = Returned sample_result"
    using sample_verified [OF sample_hash(1)] sample_verified [OF sample_hash(2)] by blast+
  have "pi_error sample_result = []" "pm_asset_file_count (pi_metadata sample_result) < 2 ^ 32" by (simp_all add: sample_result_def)
  then show ?thesis
    using verified_payload_determined [OF v(1) _ v(2) _ refl _ _ _ sample_plain sample_plain] by simp
qed

end
