(* ===== verification/Spec2Isabelle.thy ===== *)
theory Spec2Isabelle
  imports Startup_Machine Surface_Bridge Launch_Uri Etc2_Decoder Text_Editor_Safety Jni_Safety
    Audio_Safety Input_Safety Manifest_Safety Zip_Safety Elf_Build_Id Fresh_Safety
    Rwlock_Safety Bionic_Semaphore Signature_Roundtrip Payload_Safety
begin

text \<open>
  A verification development of mocktail, a host for the Android build of a game client on desktop
  Linux. The C++ program loads the client's native libraries, emulates the Java side they expect (a
  JNI virtual machine), gives them a window, graphics, sound and text input, and steers them through a
  startup and a game session. The components with state and logic of their own are modelled as
  functions on records that follow the classes and members of the sources; calls into the client, the
  graphics driver or a library are outcomes given as arguments and, where the order of calls matters,
  a log of the calls made.

  \<^bold>\<open>Parts and theories.\<close>
  \<^item> \<open>Mocktail_Prelude\<close>: machine integers, the \<open>Status\<close> values of fallible operations
    (\<open>include/common/status.h\<close>), C floats, byte strings, runs of operations. The locale
    \<open>guarded_component\<close> is the contract of a component whose every operation keeps an invariant,
    \<open>contracted_component\<close> the one of a component that asks something of its callers.
  \<^item> \<open>Startup_Machine\<close>: \<open>src/runtime/startup_state_machine.cc\<close>, the evidence collector that decides when
    the client has started. It refines a small specification on evidence sets (C1), and Ready needs all
    required evidence (C3). That evidence comes in the order of the startup chain and that stopping is
    final are lemmas.
  \<^item> \<open>Surface_Lifecycle\<close>: \<open>src/window/window_surface_lifecycle.cc\<close>, host-window observations turned into
    Android surface events with a bounded, coalescing queue. The event history is legal and leads to the
    current surface (C5).
  \<^item> \<open>Game_Session\<close>: \<open>src/runtime/game_session_coordinator.cc\<close>, the state machine of one game session with
    its native calls and callbacks: protocol order (C7) and admissible calls (C8); first frames and
    terminal states are lemmas.
  \<^item> \<open>Resize_Gate\<close>: \<open>src/window/window_resize_readiness_gate.cc\<close>, completion needs ordered
    evidence, a lemma.
  \<^item> \<open>Surface_Bridge\<close>: \<open>src/window/window_game_surface_bridge.cc\<close> and the surface part of
    \<open>src/runtime/game_session_runtime.cc\<close>, composed with the three theories above through the locales
    \<open>event_source\<close>, \<open>surface_consumer\<close>, \<open>commit_observer\<close> and \<open>surface_pipeline\<close>, which are
    interpreted on their definitions. The game of a started session follows the window while its native
    callbacks succeed and nobody leaves (C12); that shutdown is graceful is a lemma.
  \<^item> \<open>Jni_Text\<close>: \<open>src/jnivm/jni_strings.cc\<close>, UTF-16, UTF-8 and modified UTF-8: the round trip (C15), and lemmas on
    the other conversions and the region copies.
  \<^item> \<open>Jni_References\<close>, \<open>Jni_Counting\<close>, \<open>Jni_Safety\<close>: \<open>src/jnivm/jni_references.cc\<close>,
    \<open>src/jnivm/jni_fields.cc\<close> and the reference functions of \<open>src/jnivm/jnivm.cc\<close>: handles, counts, local
    frames, objects and arrays that hold references, with counts as natural numbers (the code's wrap at 2 to the
    32 holders). The counts are exact for callers that keep to the
    JNI (C34), so no held reference dangles (C33); release cascades end (C36); that new strings read
    back is a lemma; a reference released twice corrupts the free list, also a lemma.
  \<^item> \<open>Launch_Uri\<close>: \<open>src/runtime/roblox_launch_uri.cc\<close> and the payload checks of
    \<open>src/runtime/roblox_experience_launch.cc\<close>: website links and web-view commands to join requests:
    percent decoding (C19); that requests are sound and do not depend on the ticket are lemmas.
  \<^item> \<open>Etc2_Decoder\<close>: \<open>src/graphics/etc2_decoder.cc\<close>: whole images against a per-pixel reference, the
    band-parallel decode against the single pass (C23, C24), and that the writes stay in the buffer and leave the
    memory beyond it alone (C25); the wrap-around of the
    block count of very tall images is a lemma.
  \<^item> \<open>Text_Editor\<close>, \<open>Text_Layout\<close>, \<open>Text_Editor_Safety\<close>: \<open>src/runtime/roblox_text_editor.cc\<close>, the
    editor behind a focused text box. utf8proc is a parameter with the locales \<open>utf8_decoder\<close> and
    \<open>text_library\<close>, interpreted on a decoder written out here. Texts stay well formed, and bounded unless a newline is typed at
    the limit, which one key path does not check (C28); passwords are not copied (C30); that the limit is really
    passed there, that input reaches the engine and that
    compositions cancel cleanly are lemmas.
  \<^item> \<open>Audio_Queue\<close>, \<open>Audio_Safety\<close>: \<open>src/audio/opensl_simple_buffer_queue.cc\<close> over
    \<open>src/audio/sdl_audio_sink.cc\<close>, cut at the critical sections, with the client's threads, the
    callback worker (which takes a job under the mutex and calls it after releasing it) and SDL's audio thread
    interleaved. The queue accounts for its tickets under every interleaving and for the sink's buffers as long
    as no clear of the sink failed (C38); after a shutdown only the job already taken is delivered, and nothing
    once the worker is joined (C39); after a failed clear it confuses buffers (C40).
  \<^item> \<open>Input_Router\<close>, \<open>Input_Safety\<close>: \<open>src/runtime/roblox_input_router.cc\<close> and
    \<open>src/runtime/roblox_gamepad_input.cc\<close> over the text editor: mouse, touch, keyboard, gamepads and focus
    become native calls, and tables remember what is pressed. The tables are well formed whatever the calls
    return (C4); the game holds what the tables hold when the calls succeed and the keyboard keeps its layout
    (C6), so that losing the focus then lets go of everything (C9); that one release is swallowed by the text editor is a lemma.
  \<^item> \<open>Fresh_Launch\<close>, \<open>Fresh_Safety\<close>: \<open>src/runtime/roblox_fresh_game_launch_controller.cc\<close> and
    \<open>src/window/present_observer.h\<close>, which launch a game from the app over \<open>Launch_Uri\<close>,
    \<open>Game_Session\<close> and \<open>Surface_Bridge\<close>. No frame reaches a runtime that is gone and no local reference
    is left behind (C35), the native runtime is shut down once and last (C13), and a link that the URI
    parser accepts starts its game when the JNI and the native calls cooperate, every field of the parameters
    holding the request's value of that name (C31).
  \<^item> \<open>Bionic_Futex\<close>, \<open>Bionic_Rwlock\<close>, \<open>Rwlock_Safety\<close>, \<open>Bionic_Semaphore\<close>:
    \<open>src/compat/bionic_rwlock_runtime.cc\<close> and \<open>src/compat/bionic_semaphore_runtime.cc\<close>, one atomic access
    per step, with any number of threads interleaved. The locale \<open>futex_word\<close> is the contract of a word that
    threads sleep on and is interpreted on both. Writers exclude everybody (C11), locks are handed over and
    no wake-up is lost (C21), semaphores conserve permits (C22) but posts beyond the limit wrap the count (C29).
  \<^item> \<open>Partial_Reads\<close>: reads of untrusted buffers with \<open>OutOfBounds\<close> as an outcome of its own.
  \<^item> \<open>Android_Manifest\<close>, \<open>Manifest_Safety\<close>: \<open>src/update/android_manifest.cc\<close>, the reader of binary
    manifests: total and in bounds on every input (C14), and exact on every file of the format, which is a
    predicate on bytes (C16). The product that places an attribute is a natural number; it stays below the
    size of the file.
  \<^item> \<open>Zip_Archive\<close>, \<open>Zip_Safety\<close>: \<open>src/update/zip_archive.cc\<close>: extraction of any archive stays
    beneath its destination and within its limit (C18) and returns (C20); that the accepted names are the
    safe ones is a lemma.
  \<^item> \<open>Apk_Signature\<close>, \<open>Signature_Safety\<close>, \<open>Signature_Trust\<close>, \<open>Signature_Roundtrip\<close>:
    \<open>src/update/apk_signature.cc\<close>, the verifier of the signing blocks of packages, over an arbitrary OpenSSL.
    It is total, in bounds, and names only certificates that vouch for the contents (C10); its content digest
    commits to everything but the signing block (C27); what a signer writes is accepted (C32), and so is a
    package without any signer (C37).
  \<^item> \<open>Payload_Integrity\<close>, \<open>Hash_Pool\<close>, \<open>Payload_Safety\<close>: \<open>src/update/payload_integrity.cc\<close>, the
    digests and the verification of a prepared payload. The locale \<open>hash_pool\<close> is the contract of the hash
    function of a pool of threads and is interpreted on the one of files. Metadata that verify determine
    library, packages and assets up to collisions (C2), and the digest of the asset tree does not depend on
    the schedule of the threads, which finish (C17).
  \<^item> \<open>Elf_Build_Id\<close>: \<open>src/compat/elf_build_id.cc\<close>: total and in bounds for any notes; it reports the descriptor of the first
    GNU build-id note, and nothing only when there is none (C26).

  \<^bold>\<open>Conventions.\<close> A class is a record and its constructor a definition with suffix \<open>_new\<close>; a method takes
  the record and returns it updated, with its result first. A mutex makes a method one step, so that
  concurrency appears as arbitrary interleavings of operation lists (a method with several critical
  sections is several steps). Enumerations keep a constructor for
  values outside their range where the code checks for it. Loops are structural recursion, or functions
  with a measure; no fuel is used. The one loop that may run forever, the repeated \<open>write\<close> of
  \<open>Zip_Archive\<close>, is a \<open>partial_function\<close> whose value is \<open>None\<close> when it does not return. Counters whose wrap-around matters are words or written modulo their
  width; generation and statistics counters that need 2 to the 64 events to wrap are words as well.

  \<^bold>\<open>Parameters.\<close> Code outside the repository's own sources is an argument: libcurl's URL parser and the
  JSON library (\<open>Launch_Uri\<close>), utf8proc and the SDL key constants (\<open>Text_Editor\<close>), the outcomes of
  native and JNI calls (\<open>Game_Session\<close>, \<open>Surface_Bridge\<close>, \<open>Text_Editor\<close>, \<open>Input_Router\<close>,
  \<open>Fresh_Launch\<close>), SDL's constants
  and float rounding (\<open>Input_Router\<close>), minizip and the file system (\<open>Zip_Archive\<close>), libelf
  (\<open>Elf_Build_Id\<close>), OpenSSL (\<open>Apk_Signature\<close>), SHA-256, file reads,
  the JSON library and the thread schedule (\<open>Payload_Integrity\<close>), addresses returned by the allocator
  (\<open>Jni_References\<close>). Hypotheses on them state their documented behaviour and each property with one
  has a witness on a concrete instance.

  \<^bold>\<open>Not modelled.\<close> Process and thread management, the compatibility layers that forward libc, socket and
  signal calls, the Vulkan and OpenGL adapters, SDL windows and devices, the emulated Java methods over
  raw memory, network services, files, logs, dialogs, web views and the downloads of payload updates: they are calls into
  the operating system, drivers and libraries with little logic of their own.
\<close>

end
